(* ===== verification/Prelude.thy ===== *)
theory Prelude
  imports Main "HOL-Library.Word" "HOL-Library.Sublist"
begin

section \<open>Prelude: integers, results and strings of the Rust program\<close>

text \<open>
  What the component theories share: the machine integers of the program as words, the
  \<open>Result\<close> type as a sum with its bind, and the part of Rust's \<open>str\<close> interface the sources use.

  A \<open>str\<close> is its UTF-8 byte string, a \<^typ>\<open>string\<close> of 8-bit characters: \<open>len()\<close> is
  \<^const>\<open>length\<close>, and comparing, searching and splitting at ASCII characters work on bytes as they
  do in Rust. \<open>char::is_whitespace\<close> holds for 25 code points, some of them encoded in two or three
  bytes; \<open>ws_len\<close> recognises each encoding at the head of a byte string. A lead byte never
  occurs inside the encoding of another character, so scanning byte by byte sees exactly the
  whitespace characters of a well-formed string.
\<close>

named_theorems str_simps \<open>rules for the string interface\<close>

subsection \<open>Machine integers\<close>

type_synonym u8 = "8 word"
type_synonym u32 = "32 word"
type_synonym u64 = "64 word"
type_synonym i32 = "32 word"

text \<open>\<open>saturating_sub\<close> on an unsigned integer.\<close>

definition sat_sub :: "'a::len word \<Rightarrow> 'a word \<Rightarrow> 'a word" where
  "sat_sub a b = (if a < b then 0 else a - b)"

text \<open>\<open>checked_add\<close> and the wrap-around the release profile gives to \<open>+\<close>.\<close>

definition no_overflow_add :: "'a::len word \<Rightarrow> 'a word \<Rightarrow> bool" where
  "no_overflow_add a b \<longleftrightarrow> unat a + unat b < 2 ^ LENGTH('a)"

subsection \<open>Results\<close>

type_synonym ('e, 'a) result = "'e + 'a"

abbreviation Ok :: "'a \<Rightarrow> ('e, 'a) result" where "Ok \<equiv> Inr"
abbreviation Err :: "'e \<Rightarrow> ('e, 'a) result" where "Err \<equiv> Inl"

text \<open>The \<open>?\<close> operator.\<close>

definition rbind :: "('e, 'a) result \<Rightarrow> ('a \<Rightarrow> ('e, 'b) result) \<Rightarrow> ('e, 'b) result" where
  "rbind m f = (case m of Inl e \<Rightarrow> Inl e | Inr a \<Rightarrow> f a)"

definition unwrap_or :: "'a option \<Rightarrow> 'a \<Rightarrow> 'a" where
  "unwrap_or m d = (case m of None \<Rightarrow> d | Some a \<Rightarrow> a)"

subsection \<open>Strings\<close>

definition starts_with :: "string \<Rightarrow> string \<Rightarrow> bool" where
  "starts_with s p \<longleftrightarrow> take (length p) s = p"

definition strip_prefix :: "string \<Rightarrow> string \<Rightarrow> string option" where
  "strip_prefix s p = (if starts_with s p then Some (drop (length p) s) else None)"

fun contains_str :: "string \<Rightarrow> string \<Rightarrow> bool" where
  "contains_str [] p = (p = [])"
| "contains_str (c # cs) p = (starts_with (c # cs) p \<or> contains_str cs p)"

text \<open>\<open>s.split(c)\<close> for a character \<open>c\<close>: always at least one piece.\<close>

fun split_char :: "char \<Rightarrow> string \<Rightarrow> string list" where
  "split_char d [] = [[]]"
| "split_char d (c # cs) =
     (if c = d then [] # split_char d cs
      else (case split_char d cs of [] \<Rightarrow> [[c]] | p # ps \<Rightarrow> (c # p) # ps))"

fun join :: "string \<Rightarrow> string list \<Rightarrow> string" where
  "join sep [] = []"
| "join sep [x] = x"
| "join sep (x # y # xs) = x @ sep @ join sep (y # xs)"

text \<open>
  The length in bytes of the whitespace character at the head, 0 when there is none:
  U+0009 to U+000D, U+0020, U+0085, U+00A0, U+1680, U+2000 to U+200A, U+2028, U+2029, U+202F,
  U+205F, U+3000.
\<close>

definition ws1 :: "char \<Rightarrow> bool" where
  "ws1 a \<longleftrightarrow> (let n = of_char a :: nat in 9 \<le> n \<and> n \<le> 13 \<or> n = 32)"

definition ws2 :: "char \<Rightarrow> char \<Rightarrow> bool" where
  "ws2 a b \<longleftrightarrow> a = CHR 0xC2 \<and> (b = CHR 0x85 \<or> b = CHR 0xA0)"

definition ws3 :: "char \<Rightarrow> char \<Rightarrow> char \<Rightarrow> bool" where
  "ws3 a b c \<longleftrightarrow>
     a = CHR 0xE1 \<and> b = CHR 0x9A \<and> c = CHR 0x80
     \<or> a = CHR 0xE2 \<and> b = CHR 0x80 \<and>
         (let n = of_char c :: nat in 0x80 \<le> n \<and> n \<le> 0x8A \<or> n = 0xA8 \<or> n = 0xA9 \<or> n = 0xAF)
     \<or> a = CHR 0xE2 \<and> b = CHR 0x81 \<and> c = CHR 0x9F
     \<or> a = CHR 0xE3 \<and> b = CHR 0x80 \<and> c = CHR 0x80"

fun ws_len :: "string \<Rightarrow> nat" where
  "ws_len [] = 0"
| "ws_len [a] = (if ws1 a then 1 else 0)"
| "ws_len [a, b] = (if ws1 a then 1 else if ws2 a b then 2 else 0)"
| "ws_len (a # b # c # t) = (if ws1 a then 1 else if ws2 a b then 2 else if ws3 a b c then 3 else 0)"

text \<open>Bytes of the head character that is not whitespace are passed one at a time.\<close>

function trim_start :: "string \<Rightarrow> string" where
  "trim_start s = (if ws_len s = 0 then s else trim_start (drop (ws_len s) s))"
  by pat_completeness auto

lemma ws_len_le: "ws_len s \<le> length s"
  by (induction s rule: ws_len.induct) auto

termination trim_start
proof (relation "measure length")
  fix s :: string
  assume "ws_len s \<noteq> 0"
  moreover have "ws_len s \<le> length s" by (rule ws_len_le)
  ultimately show "(drop (ws_len s) s, s) \<in> measure length" by simp
qed simp

declare trim_start.simps [simp del]

fun trim_end :: "string \<Rightarrow> string" where
  "trim_end [] = []"
| "trim_end (c # cs) = (if trim_start (c # cs) = [] then [] else c # trim_end cs)"

definition trim :: "string \<Rightarrow> string" where
  "trim s = trim_end (trim_start s)"

text \<open>
  \<open>s.lines()\<close>: split after each line feed, drop the line feed and one carriage return before it;
  a last piece without a line feed is kept as it is, and an empty last piece is no line.
\<close>

definition strip_cr :: "string \<Rightarrow> string" where
  "strip_cr l = (if l \<noteq> [] \<and> last l = CHR 0x0D then butlast l else l)"

definition lines :: "string \<Rightarrow> string list" where
  "lines s = (let ps = split_char (CHR 0x0A) s
              in map strip_cr (butlast ps) @ (if last ps = [] then [] else [last ps]))"

subsection \<open>Decimal numbers\<close>

definition digit_char :: "nat \<Rightarrow> char" where
  "digit_char d = char_of (48 + d)"

fun show_nat :: "nat \<Rightarrow> string" where
  "show_nat n = (if n < 10 then [digit_char n] else show_nat (n div 10) @ [digit_char (n mod 10)])"

declare show_nat.simps [simp del]

text \<open>\<open>{:0w}\<close>: pad on the left with zeros.\<close>

definition zero_pad :: "nat \<Rightarrow> string \<Rightarrow> string" where
  "zero_pad w s = replicate (w - length s) CHR ''0'' @ s"

definition is_digit :: "char \<Rightarrow> bool" where
  "is_digit c \<longleftrightarrow> 48 \<le> (of_char c :: nat) \<and> (of_char c :: nat) \<le> 57"

definition digits_value :: "string \<Rightarrow> nat" where
  "digits_value s = foldl (\<lambda>a c. 10 * a + (of_char c - 48)) 0 s"

text \<open>\<open>s.parse::<u64>()\<close>: an optional plus sign, at least one digit, no overflow.\<close>

definition parse_u64 :: "string \<Rightarrow> u64 option" where
  "parse_u64 s =
     (let ds = (case s of [] \<Rightarrow> [] | c # cs \<Rightarrow> if c = CHR ''+'' then cs else s)
      in if ds \<noteq> [] \<and> list_all is_digit ds \<and> digits_value ds < 2 ^ 64
         then Some (of_nat (digits_value ds)) else None)"

definition show_u64 :: "u64 \<Rightarrow> string" where
  "show_u64 n = show_nat (unat n)"

definition show_u32 :: "u32 \<Rightarrow> string" where
  "show_u32 n = show_nat (unat n)"

definition show_i32 :: "i32 \<Rightarrow> string" where
  "show_i32 n = (let i = sint n in (if i < 0 then ''-'' else []) @ show_nat (nat \<bar>i\<bar>))"

subsection \<open>Lemmas on results, options and integers\<close>

lemma rbind_simps [simp]: "rbind (Inl e) f = Inl e" "rbind (Inr a) f = f a"
  by (simp_all add: rbind_def)

lemma rbind_Inr_iff: "rbind m f = Inr b \<longleftrightarrow> (\<exists>a. m = Inr a \<and> f a = Inr b)"
  by (cases m) auto

lemma rbind_Inl_iff: "rbind m f = Inl e \<longleftrightarrow> m = Inl e \<or> (\<exists>a. m = Inr a \<and> f a = Inl e)"
  by (cases m) auto

lemma unwrap_or_simps [simp]: "unwrap_or None d = d" "unwrap_or (Some a) d = a"
  by (simp_all add: unwrap_or_def)

lemma sat_sub_le [simp]: "sat_sub a b \<le> a"
proof (cases "a < b")
  case True
  then show ?thesis by (simp add: sat_sub_def)
next
  case False
  then have "unat (a - b) \<le> unat a" by (simp add: unat_sub_if' word_less_nat_alt)
  with False show ?thesis by (simp add: sat_sub_def word_le_nat_alt)
qed

lemma unat_sat_sub: "unat (sat_sub a b) = unat a - unat b"
  by (simp add: sat_sub_def unat_sub_if' word_less_nat_alt)

subsection \<open>Lemmas on strings\<close>

lemma starts_with_append [simp, str_simps]: "starts_with (p @ s) p"
  by (simp add: starts_with_def)

lemma starts_with_iff: "starts_with s p \<longleftrightarrow> (\<exists>t. s = p @ t)"
  by (metis append_eq_conv_conj append_take_drop_id starts_with_def)

lemma strip_prefix_append [simp, str_simps]: "strip_prefix (p @ s) p = Some s"
  by (simp add: strip_prefix_def)

lemma strip_prefix_Some: "strip_prefix s p = Some t \<longleftrightarrow> s = p @ t"
  by (auto simp: strip_prefix_def starts_with_iff)

lemma strip_prefix_None: "strip_prefix s p = None \<longleftrightarrow> \<not> starts_with s p"
  by (simp add: strip_prefix_def)

lemma split_char_nonempty [simp]: "split_char d s \<noteq> []"
  by (induction s) (auto split: list.splits)

lemma join_split_char: "join [d] (split_char d s) = s"
proof (induction s)
  case Nil
  then show ?case by simp
next
  case (Cons c cs)
  obtain p ps where ps: "split_char d cs = p # ps"
    by (cases "split_char d cs") auto
  with Cons show ?case by (cases ps) auto
qed

lemma split_char_no_delim: "d \<notin> set s \<Longrightarrow> split_char d s = [s]"
  by (induction s) auto

lemma split_char_pieces: "p \<in> set (split_char d s) \<Longrightarrow> d \<notin> set p"
  by (induction s arbitrary: p) (auto split: if_splits list.splits)

lemma split_char_append:
  "split_char d (s @ d # t) = split_char d s @ split_char d t"
  by (induction s) (auto split: list.splits)

lemma split_char_join:
  "xs \<noteq> [] \<Longrightarrow> \<forall>x \<in> set xs. d \<notin> set x \<Longrightarrow> split_char d (join [d] xs) = xs"
proof (induction xs rule: induct_list012)
  case (3 x y zs)
  have "split_char d (x @ d # join [d] (y # zs)) = split_char d x @ split_char d (join [d] (y # zs))"
    by (rule split_char_append)
  with 3 show ?case by (simp add: split_char_no_delim)
qed (simp_all add: split_char_no_delim)

lemma join_append:
  "xs \<noteq> [] \<Longrightarrow> ys \<noteq> [] \<Longrightarrow> join sep (xs @ ys) = join sep xs @ sep @ join sep ys"
proof (induction xs rule: induct_list012)
  case (2 x)
  then show ?case by (cases ys) auto
qed auto

lemma trim_start_Nil [simp]: "trim_start [] = []"
  by (simp add: trim_start.simps)

lemma trim_start_no_ws: "ws_len s = 0 \<Longrightarrow> trim_start s = s"
  by (simp add: trim_start.simps)

lemma ws_len_trim_start: "ws_len (trim_start s) = 0"
proof (induction s rule: trim_start.induct)
  case (1 s)
  show ?case
  proof (cases "ws_len s = 0")
    case True
    then show ?thesis by (simp add: trim_start_no_ws)
  next
    case False
    with 1 show ?thesis by (simp add: trim_start.simps [of s])
  qed
qed

lemma trim_start_idem [simp]: "trim_start (trim_start s) = trim_start s"
  by (rule trim_start_no_ws) (rule ws_len_trim_start)

lemma ws_space_simps [simp]:
  "ws1 CHR '' ''" "\<not> ws2 a CHR '' ''" "\<not> ws3 a CHR '' '' c" "\<not> ws3 a b CHR '' ''"
  by (simp_all add: ws1_def ws2_def ws3_def)

lemma ws_len_ascii:
  assumes "(of_char a :: nat) < 128"
  shows "ws_len (a # s) = (if ws1 a then 1 else 0)"
proof -
  have "\<not> ws2 a b" "\<not> ws3 a b c" for b c
    using assms by (auto simp: ws2_def ws3_def)
  then show ?thesis by (cases s; cases "tl s") auto
qed

lemma ws_len_space [simp]: "ws_len (CHR '' '' # t) = 1"
  by (simp add: ws_len_ascii)

text \<open>A space ends a whitespace-free word, whatever follows.\<close>

lemma ws_len_before_space: "s \<noteq> [] \<Longrightarrow> ws_len (s @ CHR '' '' # t) = ws_len s"
  by (induction s rule: ws_len.induct; cases t) auto

lemma trim_start_space [simp]: "trim_start (CHR '' '' # t) = trim_start t"
  by (subst trim_start.simps) simp

subsection \<open>Lemmas on decimal numbers\<close>

lemma of_char_digit_char [simp]: "d < 10 \<Longrightarrow> (of_char (digit_char d) :: nat) = 48 + d"
  by (simp add: digit_char_def of_char_of)

lemma digit_char_is_digit [simp]: "d < 10 \<Longrightarrow> is_digit (digit_char d)"
  by (simp add: is_digit_def)

lemma show_nat_digits: "list_all is_digit (show_nat n)"
proof (induction n rule: show_nat.induct)
  case (1 n)
  then show ?case by (subst show_nat.simps) simp
qed

lemma show_nat_nonempty [simp]: "show_nat n \<noteq> []"
  by (subst show_nat.simps) simp

lemma digits_value_snoc: "digits_value (s @ [c]) = 10 * digits_value s + (of_char c - 48)"
  by (simp add: digits_value_def)

lemma digits_value_show_nat [simp]: "digits_value (show_nat n) = n"
proof (induction n rule: show_nat.induct)
  case (1 n)
  show ?case
  proof (cases "n < 10")
    case True
    then show ?thesis
      by (subst show_nat.simps) (simp add: digits_value_def)
  next
    case False
    with 1 show ?thesis
      by (subst show_nat.simps) (simp add: digits_value_snoc)
  qed
qed

lemma digits_value_zeros: "digits_value (replicate k CHR ''0'' @ s) = digits_value s"
  by (induction k) (simp_all add: digits_value_def)

lemma digits_value_zero_pad [simp]: "digits_value (zero_pad w s) = digits_value s"
  by (simp add: zero_pad_def digits_value_zeros)

lemma zero_pad_digits: "list_all is_digit s \<Longrightarrow> list_all is_digit (zero_pad w s)"
  by (auto simp: zero_pad_def is_digit_def list_all_iff)

lemma digits_head_not_plus: "list_all is_digit s \<Longrightarrow> s = c # cs \<Longrightarrow> c \<noteq> CHR ''+''"
  by (auto simp: is_digit_def)

lemma parse_u64_digits:
  assumes "list_all is_digit s" "s \<noteq> []" "digits_value s < 2 ^ 64"
  shows "parse_u64 s = Some (of_nat (digits_value s))"
proof -
  obtain c cs where s: "s = c # cs" using assms(2) by (cases s) auto
  with assms(1) have "c \<noteq> CHR ''+''" by (auto simp: is_digit_def)
  with assms s show ?thesis by (simp add: parse_u64_def)
qed

text \<open>Round trip of the zero-padded rendering of a sequence number.\<close>

lemma parse_u64_pad_show [simp]: "parse_u64 (zero_pad w (show_u64 n)) = Some n"
proof -
  have "list_all is_digit (zero_pad w (show_nat (unat n)))"
    by (intro zero_pad_digits show_nat_digits)
  moreover have "zero_pad w (show_nat (unat n)) \<noteq> []"
    by (simp add: zero_pad_def)
  moreover have "unat n < 2 ^ 64"
    using unsigned_less [of n] by simp
  ultimately show ?thesis
    by (simp add: show_u64_def parse_u64_digits)
qed

lemma zero_pad_show_inject [simp]:
  "zero_pad w (show_u64 m) = zero_pad w (show_u64 n) \<longleftrightarrow> m = n"
  by (metis option.inject parse_u64_pad_show)

subsection \<open>Byte order\<close>

primrec be_bytes :: "nat \<Rightarrow> nat \<Rightarrow> string" where
  "be_bytes 0 m = []"
| "be_bytes (Suc k) m = be_bytes k (m div 256) @ [char_of (m mod 256)]"

definition to_be_bytes :: "u64 \<Rightarrow> string" where
  "to_be_bytes n = be_bytes 8 (unat n)"

definition from_be_bytes :: "string \<Rightarrow> u64" where
  "from_be_bytes s = word_of_nat (foldl (\<lambda>a c. 256 * a + of_char c) 0 s)"

definition to_le_bytes :: "u64 \<Rightarrow> string" where
  "to_le_bytes n = rev (to_be_bytes n)"

lemma be_bytes_length [simp]: "length (be_bytes k m) = k"
  by (induction k arbitrary: m) simp_all

lemma be_bytes_value: "foldl (\<lambda>a c. 256 * a + of_char c) 0 (be_bytes k m) = m mod 256 ^ k"
  by (induction k arbitrary: m) (simp_all add: mod_mult2_eq)

lemma to_be_bytes_length [simp]: "length (to_be_bytes n) = 8"
  by (simp add: to_be_bytes_def)

lemma from_to_be_bytes [simp]: "from_be_bytes (to_be_bytes n) = n"
proof -
  have "unat n < 256 ^ 8" using unsigned_less [of n, where 'a = nat] by simp
  then show ?thesis by (simp add: from_be_bytes_def to_be_bytes_def be_bytes_value del: be_bytes.simps)
qed

lemma word_less_add_one:
  fixes w :: "'a::len word"
  assumes "w \<noteq> - 1" shows "w < w + 1"
proof -
  have "1 + w \<noteq> 0" using assms by (metis add.commute eq_neg_iff_add_eq_0)
  then have "unat (1 + w) = Suc (unat w)" by (rule unatSuc)
  then show ?thesis by (simp add: word_less_nat_alt add.commute)
qed

end
