(* ===== verification/Floats.thy ===== *)
theory Floats
  imports Prelude "HOL-Library.Log_Nat"
begin

section \<open>Binary floating point: \<open>f32\<close> and \<open>f64\<close>\<close>

text \<open>
  The scores of the program are \<open>f32\<close> values and its JSON numbers are \<open>f64\<close> values. A finite value is
  the rational it denotes; arithmetic computes the exact rational and rounds it to the format
  with ties to even, as IEEE 754 and Rust prescribe: 24 bits of precision and exponents from
  \<open>-126\<close> to \<open>127\<close> for \<open>f32\<close>, 53 bits and \<open>-1022\<close> to \<open>1023\<close> for \<open>f64\<close>, with gradual underflow
  and overflow to an infinity. The two zeros are one value here: no operation of the modelled
  code tells them apart (it neither divides by a zero nor prints a negative zero).

  The facts the components use are that rounding is monotone (\<open>fround_mono\<close>) and leaves
  representable values alone, so that bounds survive rounding.
\<close>

datatype flt = Fin rat | PInf | NInf | NaN

type_synonym f32 = flt
type_synonym f64 = flt

subsection \<open>Rounding\<close>

text \<open>To the nearest integer, ties to even.\<close>

definition rne :: "rat \<Rightarrow> int" where
  "rne x = (let f = \<lfloor>x\<rfloor>; d = x - of_int f
            in if d < 1/2 then f else if 1/2 < d then f + 1 else if even f then f else f + 1)"

text \<open>The exponent: the floor of the binary logarithm of a positive rational.\<close>

definition ilog2 :: "rat \<Rightarrow> int" where
  "ilog2 x = (case quotient_of x of (n, d) \<Rightarrow>
     (let k = bitlen n - bitlen d in if 2 powi k \<le> x then k else k - 1))"

definition fexp :: "int \<Rightarrow> rat \<Rightarrow> int" where
  "fexp emin x = max emin (ilog2 \<bar>x\<bar>)"

definition grid :: "int \<Rightarrow> rat \<Rightarrow> rat" where
  "grid e x = of_int (rne (x / 2 powi e)) * 2 powi e"

definition fround :: "nat \<Rightarrow> int \<Rightarrow> int \<Rightarrow> rat \<Rightarrow> flt" where
  "fround p emin emax x =
     (if x = 0 then Fin 0
      else let r = grid (fexp emin x - int p + 1) x
           in if 2 powi (emax + 1) \<le> r then PInf
              else if r \<le> - (2 powi (emax + 1)) then NInf
              else Fin r)"

definition r32 :: "rat \<Rightarrow> f32" where
  "r32 = fround 24 (-126) 127"

definition r64 :: "rat \<Rightarrow> f64" where
  "r64 = fround 53 (-1022) 1023"

subsection \<open>Comparison\<close>

fun flt_le :: "flt \<Rightarrow> flt \<Rightarrow> bool" where
  "flt_le NaN _ = False"
| "flt_le _ NaN = False"
| "flt_le NInf _ = True"
| "flt_le _ PInf = True"
| "flt_le (Fin x) (Fin y) = (x \<le> y)"
| "flt_le _ _ = False"

definition flt_lt :: "flt \<Rightarrow> flt \<Rightarrow> bool" where
  "flt_lt a b \<longleftrightarrow> flt_le a b \<and> \<not> flt_le b a"

abbreviation (input) flt_ge :: "flt \<Rightarrow> flt \<Rightarrow> bool" where
  "flt_ge a b \<equiv> flt_le b a"

fun is_finite :: "flt \<Rightarrow> bool" where
  "is_finite (Fin _) = True"
| "is_finite _ = False"

subsection \<open>Arithmetic of \<open>f32\<close>\<close>

fun f32_neg :: "f32 \<Rightarrow> f32" where
  "f32_neg (Fin x) = Fin (- x)"
| "f32_neg PInf = NInf"
| "f32_neg NInf = PInf"
| "f32_neg NaN = NaN"

fun f32_add :: "f32 \<Rightarrow> f32 \<Rightarrow> f32" where
  "f32_add (Fin x) (Fin y) = r32 (x + y)"
| "f32_add NaN _ = NaN"
| "f32_add _ NaN = NaN"
| "f32_add PInf NInf = NaN"
| "f32_add NInf PInf = NaN"
| "f32_add PInf _ = PInf"
| "f32_add _ PInf = PInf"
| "f32_add NInf _ = NInf"
| "f32_add _ NInf = NInf"

definition f32_sub :: "f32 \<Rightarrow> f32 \<Rightarrow> f32" where
  "f32_sub a b = f32_add a (f32_neg b)"

text \<open>The infinity of a sign, and no number for the sign 0.\<close>

definition inf_of_sign :: "rat \<Rightarrow> flt" where
  "inf_of_sign s = (if 0 < s then PInf else if s < 0 then NInf else NaN)"

fun flt_sign :: "flt \<Rightarrow> rat" where
  "flt_sign (Fin x) = sgn x"
| "flt_sign PInf = 1"
| "flt_sign NInf = -1"
| "flt_sign NaN = 0"

fun f32_mul :: "f32 \<Rightarrow> f32 \<Rightarrow> f32" where
  "f32_mul (Fin x) (Fin y) = r32 (x * y)"
| "f32_mul a b = inf_of_sign (flt_sign a * flt_sign b)"

fun f32_div :: "f32 \<Rightarrow> f32 \<Rightarrow> f32" where
  "f32_div (Fin x) (Fin y) = (if y = 0 then inf_of_sign (sgn x) else r32 (x / y))"
| "f32_div NaN _ = NaN"
| "f32_div _ NaN = NaN"
| "f32_div (Fin _) _ = Fin 0"
| "f32_div PInf (Fin y) = inf_of_sign (if y = 0 then 1 else sgn y)"
| "f32_div NInf (Fin y) = inf_of_sign (- (if y = 0 then 1 else sgn y))"
| "f32_div _ _ = NaN"

text \<open>Division of \<open>f64\<close> and the absolute value.\<close>

fun f64_div :: "f64 \<Rightarrow> f64 \<Rightarrow> f64" where
  "f64_div (Fin x) (Fin y) = (if y = 0 then inf_of_sign (sgn x) else r64 (x / y))"
| "f64_div a b = f32_div a b"

fun f32_abs :: "f32 \<Rightarrow> f32" where
  "f32_abs (Fin x) = Fin \<bar>x\<bar>"
| "f32_abs NaN = NaN"
| "f32_abs _ = PInf"

text \<open>\<open>f32::min\<close>, \<open>f32::max\<close> (a NaN loses) and \<open>clamp\<close> (a NaN stays).\<close>

definition f32_min :: "f32 \<Rightarrow> f32 \<Rightarrow> f32" where
  "f32_min a b = (if a = NaN then b else if b = NaN then a else if flt_le a b then a else b)"

definition f32_max :: "f32 \<Rightarrow> f32 \<Rightarrow> f32" where
  "f32_max a b = (if a = NaN then b else if b = NaN then a else if flt_le a b then b else a)"

definition f32_clamp :: "f32 \<Rightarrow> f32 \<Rightarrow> f32 \<Rightarrow> f32" where
  "f32_clamp lo hi x = (if flt_lt x lo then lo else if flt_lt hi x then hi else x)"

text \<open>\<open>n as f32\<close> for an unsigned integer, and \<open>x as f32\<close> for an \<open>f64\<close>.\<close>

definition f32_of_nat :: "nat \<Rightarrow> f32" where
  "f32_of_nat n = r32 (of_nat n)"

fun f32_of_f64 :: "f64 \<Rightarrow> f32" where
  "f32_of_f64 (Fin x) = r32 x"
| "f32_of_f64 v = v"

text \<open>\<open>{:.2}\<close>: the exact value to two decimals, ties to even.\<close>

fun fmt2 :: "flt \<Rightarrow> string" where
  "fmt2 (Fin x) =
     (let m = nat (rne (\<bar>x\<bar> * 100))
      in (if x < 0 then ''-'' else []) @ show_nat (m div 100) @ ''.'' @ zero_pad 2 (show_nat (m mod 100)))"
| "fmt2 PInf = ''inf''"
| "fmt2 NInf = ''-inf''"
| "fmt2 NaN = ''NaN''"

text \<open>\<open>{:.0}\<close>: to the nearest integer, ties to even.\<close>

fun fmt0 :: "flt \<Rightarrow> string" where
  "fmt0 (Fin x) = (if x < 0 then ''-'' else []) @ show_nat (nat (rne \<bar>x\<bar>))"
| "fmt0 PInf = ''inf''"
| "fmt0 NInf = ''-inf''"
| "fmt0 NaN = ''NaN''"

subsection \<open>The comparison is a total preorder on numbers\<close>

lemma flt_le_refl [simp]: "a \<noteq> NaN \<Longrightarrow> flt_le a a"
  by (cases a) auto

lemma flt_le_trans [trans]: "flt_le a b \<Longrightarrow> flt_le b c \<Longrightarrow> flt_le a c"
  by (cases a; cases b; cases c) auto

lemma flt_le_total: "a \<noteq> NaN \<Longrightarrow> b \<noteq> NaN \<Longrightarrow> flt_le a b \<or> flt_le b a"
  by (cases a; cases b) auto

lemma flt_le_antisym: "flt_le a b \<Longrightarrow> flt_le b a \<Longrightarrow> a = b"
  by (cases a; cases b) auto

lemma flt_le_not_NaN: "flt_le a b \<Longrightarrow> a \<noteq> NaN \<and> b \<noteq> NaN"
  by (cases a; cases b) auto

lemma flt_le_NaN_simps [simp]: "flt_le a NaN = False" "flt_le NaN a = False"
  by (cases a; simp)+

lemma flt_lt_iff: "flt_lt a b \<longleftrightarrow> a \<noteq> NaN \<and> b \<noteq> NaN \<and> \<not> flt_le b a"
  using flt_le_total [of a b] flt_le_not_NaN by (auto simp: flt_lt_def)

lemma flt_not_lt: "a \<noteq> NaN \<Longrightarrow> b \<noteq> NaN \<Longrightarrow> \<not> flt_lt a b \<longleftrightarrow> flt_le b a"
  by (simp add: flt_lt_iff)

lemma flt_le_Fin [simp]: "flt_le (Fin x) (Fin y) \<longleftrightarrow> x \<le> y"
  by simp

lemma flt_lt_Fin [simp]: "flt_lt (Fin x) (Fin y) \<longleftrightarrow> x < y"
  by (auto simp: flt_lt_def)

lemma is_finite_iff: "is_finite a \<longleftrightarrow> (\<exists>x. a = Fin x)"
  by (cases a) auto

lemma flt_between_finite: "flt_le (Fin x) a \<Longrightarrow> flt_le a (Fin y) \<Longrightarrow> \<exists>z. a = Fin z \<and> x \<le> z \<and> z \<le> y"
  by (cases a) auto

lemma clamp_bounds:
  assumes "flt_le lo hi" and "x \<noteq> NaN"
  shows "flt_le lo (f32_clamp lo hi x) \<and> flt_le (f32_clamp lo hi x) hi"
  using assms flt_le_not_NaN [OF assms(1)] by (auto simp: f32_clamp_def flt_lt_iff)

lemma clamp_id: "flt_le lo x \<Longrightarrow> flt_le x hi \<Longrightarrow> f32_clamp lo hi x = x"
  by (auto simp: f32_clamp_def flt_lt_def)

subsection \<open>Rounding to the nearest integer\<close>

lemma rne_of_int [simp]: "rne (of_int k) = k"
  by (simp add: rne_def)

lemma rne_cases: "rne x = \<lfloor>x\<rfloor> \<or> rne x = \<lfloor>x\<rfloor> + 1"
  by (simp add: rne_def Let_def)

lemma rne_near: "\<bar>of_int (rne x) - x\<bar> \<le> 1/2"
proof -
  have b: "of_int \<lfloor>x\<rfloor> \<le> x" "x < of_int \<lfloor>x\<rfloor> + 1"
    by linarith+
  show ?thesis
  proof (cases "rne x = \<lfloor>x\<rfloor>")
    case True
    then have "x - of_int \<lfloor>x\<rfloor> \<le> 1/2" by (auto simp: rne_def Let_def split: if_splits)
    with b True show ?thesis by linarith
  next
    case False
    then have "1/2 \<le> x - of_int \<lfloor>x\<rfloor>" by (auto simp: rne_def Let_def split: if_splits)
    moreover from False rne_cases [of x] have "rne x = \<lfloor>x\<rfloor> + 1" by simp
    ultimately show ?thesis using b by (simp add: abs_if)
  qed
qed

lemma rne_mono:
  assumes "x \<le> y"
  shows "rne x \<le> rne y"
proof -
  have fl: "\<lfloor>x\<rfloor> \<le> \<lfloor>y\<rfloor>" using assms by (rule floor_mono)
  show ?thesis
  proof (cases "\<lfloor>x\<rfloor> = \<lfloor>y\<rfloor>")
    case True
    with assms show ?thesis by (auto simp: rne_def Let_def)
  next
    case False
    with fl have "\<lfloor>x\<rfloor> + 1 \<le> \<lfloor>y\<rfloor>" by simp
    with rne_cases [of x] rne_cases [of y] show ?thesis by auto
  qed
qed

lemma rne_uminus: "rne (- x) = - rne x"
proof (cases "x = of_int \<lfloor>x\<rfloor>")
  case True
  then have "rne (- x) = rne (of_int (- \<lfloor>x\<rfloor>))" by (metis of_int_minus)
  also have "\<dots> = - rne (of_int \<lfloor>x\<rfloor>)" by (simp only: rne_of_int)
  finally show ?thesis using True by simp
next
  case False
  moreover have "of_int \<lfloor>x\<rfloor> \<le> x" "x < of_int \<lfloor>x\<rfloor> + 1" by linarith+
  ultimately have "of_int \<lfloor>x\<rfloor> < x" by linarith
  then have fl: "\<lfloor>- x\<rfloor> = - \<lfloor>x\<rfloor> - 1"
    using \<open>x < of_int \<lfloor>x\<rfloor> + 1\<close> by (intro floor_unique) simp_all
  show ?thesis by (auto simp: rne_def Let_def fl)
qed

subsection \<open>The exponent\<close>

lemma two_powi_pos [simp]: "(0::rat) < 2 powi k"
  by (simp add: zero_less_power_int)

lemma two_powi_mono: "j \<le> k \<Longrightarrow> (2::rat) powi j \<le> 2 powi k"
  by (rule power_int_increasing) auto

lemma two_powi_Suc: "(2::rat) powi (k + 1) = 2 * 2 powi k"
  by (simp add: power_int_add)

lemma two_powi_split: "(2::rat) powi (int n + k) = 2 ^ n * 2 powi k"
  by (simp add: power_int_add)

lemma bitlen_powi:
  assumes "0 < n"
  shows "2 powi (bitlen n - 1) \<le> (of_int n :: rat)" and "(of_int n :: rat) < 2 powi bitlen n"
proof -
  have pos: "0 < bitlen n" using assms bitlen_nonneg [of n] bitlen_eq_zero_iff [of n] by linarith
  have b: "2 ^ nat (bitlen n - 1) \<le> n" "n < 2 ^ nat (bitlen n)"
    using bitlen_bounds [OF assms] by auto
  have "(of_int (2 ^ nat (bitlen n - 1)) :: rat) \<le> of_int n" using b(1) by (simp only: of_int_le_iff)
  then show "2 powi (bitlen n - 1) \<le> (of_int n :: rat)" using pos by (simp add: power_int_def)
  have "(of_int n :: rat) < of_int (2 ^ nat (bitlen n))" using b(2) by (simp only: of_int_less_iff)
  then show "(of_int n :: rat) < 2 powi bitlen n" using pos by (simp add: power_int_def)
qed

lemma ilog2_bounds:
  assumes "0 < x"
  shows "2 powi ilog2 x \<le> x" and "x < 2 powi (ilog2 x + 1)"
proof -
  obtain n d where q: "quotient_of x = (n, d)" by (cases "quotient_of x")
  then have d: "0 < d" and x: "x = of_int n / of_int d"
    by (auto simp: quotient_of_denom_pos quotient_of_div)
  with assms have n: "0 < n" by (simp add: zero_less_divide_iff)
  let ?k = "bitlen n - bitlen d"
  have lo: "2 powi (?k - 1) \<le> x"
  proof -
    have "2 powi (?k - 1) * of_int d \<le> 2 powi (?k - 1) * (2::rat) powi bitlen d"
      using bitlen_powi(2) [OF d] by (simp add: mult_left_mono)
    also have "\<dots> = 2 powi (bitlen n - 1)" by (simp flip: power_int_add)
    also have "\<dots> \<le> of_int n" by (rule bitlen_powi(1) [OF n])
    finally show ?thesis using d by (simp add: x pos_le_divide_eq)
  qed
  have hi: "x < 2 powi (?k + 1)"
  proof -
    have "(of_int n :: rat) < 2 powi bitlen n" by (rule bitlen_powi(2) [OF n])
    also have "\<dots> = 2 powi (?k + 1) * 2 powi (bitlen d - 1)" by (simp flip: power_int_add)
    also have "\<dots> \<le> 2 powi (?k + 1) * of_int d"
      using bitlen_powi(1) [OF d] by (simp add: mult_left_mono)
    finally show ?thesis using d by (simp add: x pos_divide_less_eq)
  qed
  show "2 powi ilog2 x \<le> x" using lo by (simp add: ilog2_def q Let_def)
  show "x < 2 powi (ilog2 x + 1)" using hi by (simp add: ilog2_def q Let_def)
qed

lemma ilog2_mono:
  assumes "0 < x" "x \<le> y"
  shows "ilog2 x \<le> ilog2 y"
proof (rule ccontr)
  assume "\<not> ilog2 x \<le> ilog2 y"
  then have "(2::rat) powi (ilog2 y + 1) \<le> 2 powi ilog2 x" by (intro two_powi_mono) simp
  moreover have "0 < y" using assms by simp
  ultimately show False
    using ilog2_bounds(1) [OF assms(1)] ilog2_bounds(2) [of y] assms(2) by linarith
qed

subsection \<open>Rounding is monotone\<close>

lemma grid_mono: "x \<le> y \<Longrightarrow> grid e x \<le> grid e y"
  by (simp add: grid_def mult_right_mono divide_right_mono rne_mono)

lemma grid_fixed: "grid e (of_int k * 2 powi e) = of_int k * 2 powi e"
  by (simp add: grid_def)

lemma grid_powi: "grid e (2 powi (int n + e)) = 2 powi (int n + e)"
  using grid_fixed [of e "2 ^ n"] by (simp add: two_powi_split)

lemma grid_uminus: "grid e (- x) = - grid e x"
  by (simp add: grid_def rne_uminus)

lemma grid_nonneg: "0 \<le> x \<Longrightarrow> 0 \<le> grid e x"
  using grid_mono [of 0 x e] grid_fixed [of e 0] by simp

lemma grid_exp_mono:
  assumes xy: "0 < x" "x \<le> y" and p: "0 < p"
  shows "grid (fexp emin x - int p + 1) x \<le> grid (fexp emin y - int p + 1) y"
proof -
  let ?ex = "fexp emin x" and ?ey = "fexp emin y"
  obtain q where q: "p = Suc q" using p by (cases p) auto
  have y: "0 < y" using xy by simp
  have le: "?ex \<le> ?ey" using ilog2_mono [OF xy] xy(1) y by (simp add: fexp_def)
  show ?thesis
  proof (cases "?ex = ?ey")
    case True
    then show ?thesis using xy(2) by (simp add: grid_mono)
  next
    case False
    with le have lt: "?ex + 1 \<le> ?ey" by simp
    moreover have "emin \<le> ?ex" by (simp add: fexp_def)
    ultimately have ey: "?ey = ilog2 y" using y by (simp add: fexp_def)
    have "x \<le> 2 powi (?ex + 1)"
      using ilog2_bounds(2) [OF xy(1)] two_powi_mono [of "ilog2 x + 1" "?ex + 1"] xy(1)
      by (simp add: fexp_def)
    then have "grid (?ex - int p + 1) x \<le> grid (?ex - int p + 1) (2 powi (?ex + 1))"
      by (rule grid_mono)
    also have "\<dots> = 2 powi (?ex + 1)"
      using grid_powi [of "?ex - int p + 1" p] by (simp add: algebra_simps)
    also have "\<dots> \<le> 2 powi ?ey" using lt by (rule two_powi_mono)
    also have "\<dots> = grid (?ey - int p + 1) (2 powi ?ey)"
      using grid_powi [of "?ey - int p + 1" q] by (simp add: q algebra_simps)
    also have "\<dots> \<le> grid (?ey - int p + 1) y"
      using ilog2_bounds(1) [OF y] ey by (intro grid_mono) simp
    finally show ?thesis .
  qed
qed

lemma fround_uminus: "fround p emin emax (- x) = f32_neg (fround p emin emax x)"
proof -
  have "\<not> (2 powi (emax + 1) \<le> g \<and> 2 powi (emax + 1) \<le> - g)" for g :: rat
    using two_powi_pos [of "emax + 1"] by linarith
  moreover have "fexp emin (- x) = fexp emin x" by (simp add: fexp_def)
  ultimately show ?thesis by (auto simp: fround_def Let_def grid_uminus)
qed

lemma fround_not_NaN [simp]: "fround p emin emax x \<noteq> NaN"
  by (simp add: fround_def Let_def)

lemma fround_zero [simp]: "fround p emin emax 0 = Fin 0"
  by (simp add: fround_def)

lemma fround_mono_pos:
  assumes "0 < x" "x \<le> y" "0 < p"
  shows "flt_le (fround p emin emax x) (fround p emin emax y)"
proof -
  let ?gx = "grid (fexp emin x - int p + 1) x" and ?gy = "grid (fexp emin y - int p + 1) y"
  have "?gx \<le> ?gy" using assms by (rule grid_exp_mono)
  moreover have "0 \<le> ?gx" "0 \<le> ?gy" using assms by (auto intro: grid_nonneg)
  moreover have "(0::rat) < 2 powi (emax + 1)" by simp
  ultimately show ?thesis using assms by (auto simp: fround_def Let_def)
qed

lemma fround_nonneg:
  assumes "0 \<le> x"
  shows "flt_le (Fin 0) (fround p emin emax x)"
proof -
  have "0 \<le> grid (fexp emin x - int p + 1) x" using assms by (rule grid_nonneg)
  moreover have "(0::rat) < 2 powi (emax + 1)" by simp
  ultimately show ?thesis by (auto simp: fround_def Let_def)
qed

lemma f32_neg_le: "flt_le (f32_neg a) (f32_neg b) \<longleftrightarrow> flt_le b a"
  by (cases a; cases b) auto

lemma fround_mono:
  assumes "x \<le> y" "0 < p"
  shows "flt_le (fround p emin emax x) (fround p emin emax y)"
proof -
  consider "0 < x" | "y < 0" | "x \<le> 0" "0 \<le> y" by linarith
  then show ?thesis
  proof cases
    case 1
    then show ?thesis using assms by (intro fround_mono_pos)
  next
    case 2
    then have "flt_le (fround p emin emax (- y)) (fround p emin emax (- x))"
      using assms by (intro fround_mono_pos) auto
    then show ?thesis by (simp add: fround_uminus f32_neg_le)
  next
    case 3
    then have "flt_le (Fin 0) (fround p emin emax (- x))" by (intro fround_nonneg) simp
    then have "flt_le (f32_neg (Fin 0)) (f32_neg (fround p emin emax x))"
      by (simp add: fround_uminus)
    then have "flt_le (fround p emin emax x) (Fin 0)" by (simp only: f32_neg_le)
    also have "flt_le (Fin 0) (fround p emin emax y)" using 3 by (intro fround_nonneg)
    finally show ?thesis .
  qed
qed

subsection \<open>Bounds of \<open>f32\<close> arithmetic\<close>

lemma r32_mono: "x \<le> y \<Longrightarrow> flt_le (r32 x) (r32 y)"
  by (simp add: r32_def fround_mono)

lemma r32_not_NaN [simp]: "r32 x \<noteq> NaN"
  by (simp add: r32_def)

lemma r32_zero [simp]: "r32 0 = Fin 0"
  by (simp add: r32_def)

lemma r32_one [simp]: "r32 1 = Fin 1"
  by code_simp

text \<open>A bound that is representable survives rounding.\<close>

lemma r32_upper: "x \<le> y \<Longrightarrow> r32 y = Fin y \<Longrightarrow> flt_le (r32 x) (Fin y)"
  by (metis r32_mono)

lemma r32_lower: "x \<le> y \<Longrightarrow> r32 x = Fin x \<Longrightarrow> flt_le (Fin x) (r32 y)"
  by (metis r32_mono)

lemma r32_unit: "0 \<le> x \<Longrightarrow> x \<le> 1 \<Longrightarrow> \<exists>z. r32 x = Fin z \<and> 0 \<le> z \<and> z \<le> 1"
  using r32_upper [of x 1] r32_lower [of 0 x] by (intro flt_between_finite) simp_all

lemma r32_between:
  assumes "lo \<le> x" "x \<le> hi" "r32 lo = Fin lo" "r32 hi = Fin hi"
  shows "\<exists>z. r32 x = Fin z \<and> lo \<le> z \<and> z \<le> hi"
  using assms r32_upper [of x hi] r32_lower [of lo x] by (intro flt_between_finite) simp_all

text \<open>Evaluation at a value whose exponent is known.\<close>

lemma ilog2_unique:
  assumes "2 powi e \<le> x" "x < 2 powi (e + 1)"
  shows "ilog2 x = e"
proof -
  have x: "0 < x" using assms(1) two_powi_pos [of e] by linarith
  have "\<not> e + 1 \<le> ilog2 x"
    using two_powi_mono [of "e + 1" "ilog2 x"] ilog2_bounds(1) [OF x] assms(2) by linarith
  moreover have "\<not> ilog2 x + 1 \<le> e"
    using two_powi_mono [of "ilog2 x + 1" e] ilog2_bounds(2) [OF x] assms(1) by linarith
  ultimately show ?thesis by linarith
qed

lemma r32_compute:
  assumes x: "2 powi e \<le> x" "x < 2 powi (e + 1)" and e: "-126 \<le> e" "e \<le> 126"
  shows "r32 x = Fin (of_int (rne (x / 2 powi (e - 23))) * 2 powi (e - 23))"
proof -
  have pos: "0 < x" using x(1) two_powi_pos [of e] by linarith
  have exp: "fexp (-126) x = e" using ilog2_unique [OF x] pos e by (simp add: fexp_def)
  have "grid (e - 23) x \<le> grid (e - 23) (2 powi (int 24 + (e - 23)))"
    using x(2) by (intro grid_mono) (simp add: add.commute)
  then have "grid (e - 23) x \<le> 2 powi (e + 1)"
    by (simp only: grid_powi) (simp add: add.commute)
  also have "\<dots> \<le> 2 powi 127" using e by (intro two_powi_mono) simp
  also have "(2::rat) powi 127 < 2 powi 128" by simp
  finally have "grid (e - 23) x < 2 powi 128" .
  moreover have "0 \<le> grid (e - 23) x" using pos by (intro grid_nonneg) simp
  ultimately have "\<not> 2 powi 128 \<le> grid (e - 23) x" "\<not> grid (e - 23) x \<le> - (2 powi 128)"
    using two_powi_pos [of 128] by linarith+
  then show ?thesis using pos by (simp add: r32_def fround_def exp Let_def grid_def)
qed

lemma rne_unique:
  assumes "\<bar>x - of_int m\<bar> < 1/2"
  shows "rne x = m"
proof -
  have "\<bar>of_int (rne x) - of_int m\<bar> < (1::rat)"
    using rne_near [of x] assms by linarith
  then have "\<bar>rne x - m\<bar> < 1" by (metis of_int_1 of_int_abs of_int_diff of_int_less_iff)
  then show ?thesis by simp
qed

lemma r32_near:
  assumes "2 ^ 23 \<le> x * 2 ^ k" "x * 2 ^ k < 2 ^ 24" "k \<le> 149" "\<bar>x * 2 ^ k - of_int m\<bar> < 1/2"
  shows "r32 x = Fin (of_int m / 2 ^ k)"
proof -
  have pk: "(2::rat) powi (- int k) = 1 / 2 ^ k"
    by (simp add: power_int_minus divide_inverse)
  have e: "(2::rat) powi (23 - int k) = 2 ^ 23 / 2 ^ k" "(2::rat) powi (23 - int k + 1) = 2 ^ 24 / 2 ^ k"
    using two_powi_split [of 23 "- int k"] two_powi_split [of 24 "- int k"] by (simp_all add: pk)
  have "2 powi (23 - int k) \<le> x" "x < 2 powi (23 - int k + 1)"
    unfolding e using assms(1,2) by (simp_all add: field_simps)
  moreover have "rne (x * 2 ^ k) = m" using assms(4) by (rule rne_unique)
  ultimately show ?thesis
    using r32_compute [of "23 - int k" x] assms(3) by (simp add: pk)
qed

lemma f32_mul_mono_right:
  "0 \<le> c \<Longrightarrow> x \<le> y \<Longrightarrow> flt_le (f32_mul (Fin x) (Fin c)) (f32_mul (Fin y) (Fin c))"
  by (simp add: r32_mono mult_right_mono)

text \<open>A value between 0 and a bound; the bounds of sums and products are dyadic, so that rounding keeps them.\<close>

definition bounded :: "rat \<Rightarrow> flt \<Rightarrow> bool" where
  "bounded hi x \<longleftrightarrow> flt_le (Fin 0) x \<and> flt_le x (Fin hi)"

lemma bounded_Fin: "bounded hi x \<longleftrightarrow> (\<exists>z. x = Fin z \<and> 0 \<le> z \<and> z \<le> hi)"
  by (cases x) (auto simp: bounded_def)

lemma bounded_r32: "0 \<le> x \<Longrightarrow> x \<le> hi \<Longrightarrow> r32 hi = Fin hi \<Longrightarrow> bounded hi (r32 x)"
  using r32_between [of 0 x hi] by (auto simp: bounded_Fin)

lemma bounded_mono: "bounded a x \<Longrightarrow> a \<le> b \<Longrightarrow> bounded b x"
  by (auto simp: bounded_Fin)

lemma bounded_add: "bounded a x \<Longrightarrow> bounded b y \<Longrightarrow> r32 (a + b) = Fin (a + b) \<Longrightarrow> bounded (a + b) (f32_add x y)"
  by (auto simp: bounded_Fin intro!: bounded_r32 [unfolded bounded_Fin])

lemma bounded_mul: "bounded a x \<Longrightarrow> bounded b y \<Longrightarrow> r32 (a * b) = Fin (a * b) \<Longrightarrow> bounded (a * b) (f32_mul x y)"
  by (auto simp: bounded_Fin mult_mono intro!: bounded_r32 [unfolded bounded_Fin])

text \<open>A quotient of numbers that are not negative, cut off at 1.\<close>

lemma f32_of_nat_cases: "(\<exists>z\<ge>0. f32_of_nat n = Fin z) \<or> f32_of_nat n = PInf"
  using r32_mono [of 0 "of_nat n"] by (cases "r32 (of_nat n)") (auto simp: f32_of_nat_def)

lemma bounded_min_one:
  assumes "x = NaN \<or> flt_le (Fin 0) x"
  shows "bounded 1 (f32_min x (r32 1))"
  using assms by (cases x) (auto simp: f32_min_def bounded_Fin)

lemma bounded_ratio: "bounded 1 (f32_min (f32_div (f32_of_nat a) (f32_of_nat b)) (r32 1))"
proof (rule bounded_min_one)
  have "flt_le (Fin 0) (r32 (x / y))" if "0 \<le> x" "0 \<le> y" for x y using r32_mono [of 0 "x / y"] that by simp
  then show "f32_div (f32_of_nat a) (f32_of_nat b) = NaN \<or> flt_le (Fin 0) (f32_div (f32_of_nat a) (f32_of_nat b))"
    using f32_of_nat_cases [of a] f32_of_nat_cases [of b] by (auto simp: inf_of_sign_def sgn_if split: if_splits)
qed

lemma r64_nonneg: "0 \<le> x \<Longrightarrow> flt_le (Fin 0) (r64 x)"
  using fround_mono [of 0 x 53 "-1022" 1023] by (simp add: r64_def)

lemma f64_div_nonneg: "flt_le (Fin 0) a \<Longrightarrow> 0 < y \<Longrightarrow> flt_le (Fin 0) (f64_div a (Fin y))"
  using r64_nonneg by (cases a) (auto simp: inf_of_sign_def)

end
