(* ===== verification/Json_Api.thy ===== *)
theory Json_Api
  imports Floats
begin

section \<open>The JSON values the program works on\<close>

text \<open>
  \<open>serde_json::Value\<close> is a library type, so it is a parameter: a type \<open>'j\<close> and a record
  \<open>json_api\<close> of the accessors and constructors the sources call. Every definition that
  reads or builds a JSON value takes the record as its first argument. The laws the code relies on
  (what an accessor returns on a constructed value, what \<open>get\<close> returns after \<open>insert\<close>) are the
  locale \<open>json_laws\<close>. The type \<open>jvalue\<close> of the second half is a complete JSON value with
  all accessors; it interprets the locale and evaluates the concrete instances.
\<close>

record 'j json_api =
  j_is_object :: "'j \<Rightarrow> bool"
  j_pointer :: "'j \<Rightarrow> string \<Rightarrow> 'j option"
  j_get :: "'j \<Rightarrow> string \<Rightarrow> 'j option"
  j_as_f64 :: "'j \<Rightarrow> f64 option"
  j_as_u64 :: "'j \<Rightarrow> u64 option"
  j_as_str :: "'j \<Rightarrow> string option"
  j_as_bool :: "'j \<Rightarrow> bool option"
  j_as_array :: "'j \<Rightarrow> 'j list option"
  j_entries :: "'j \<Rightarrow> (string \<times> 'j) list option"
  j_string :: "string \<Rightarrow> 'j"
  j_u64 :: "u64 \<Rightarrow> 'j"
  j_f32 :: "f32 \<Rightarrow> 'j"
  j_bool :: "bool \<Rightarrow> 'j"
  j_null :: 'j
  j_array :: "'j list \<Rightarrow> 'j"
  j_object :: "(string \<times> 'j) list \<Rightarrow> 'j"
  j_insert :: "'j \<Rightarrow> string \<Rightarrow> 'j \<Rightarrow> 'j"

text \<open>
  \<open>as_object_mut().insert(k, v)\<close> is \<^const>\<open>j_insert\<close>: it replaces the member \<open>k\<close> of an object.
\<close>

locale json_laws =
  fixes J :: "'j json_api"
  assumes as_str_string [simp]: "j_as_str J (j_string J s) = Some s"
    and as_bool_bool [simp]: "j_as_bool J (j_bool J b) = Some b"
    and is_object_null [simp]: "\<not> j_is_object J (j_null J)"
    and as_array_array [simp]: "j_as_array J (j_array J xs) = Some xs"
    and is_object_object [simp]: "j_is_object J (j_object J ms)"
    and get_object [simp]: "j_get J (j_object J ms) k = map_of ms k"
    and is_object_insert [simp]: "j_is_object J ob \<Longrightarrow> j_is_object J (j_insert J ob k v)"
    and get_is_object: "j_get J ob k = Some v \<Longrightarrow> j_is_object J ob"
    and get_insert [simp]:
      "j_is_object J ob \<Longrightarrow> j_get J (j_insert J ob k v) k' = (if k' = k then Some v else j_get J ob k')"
begin

text \<open>An array of strings reads back as the list it was built from.\<close>

lemma strings_roundtrip: "List.map_filter (j_as_str J) (map (j_string J) xs) = xs"
  by (induction xs) (simp_all add: List.map_filter_simps)

end

subsection \<open>Derived encodings\<close>

text \<open>
  \<open>serde_json::to_value\<close> and \<open>from_value\<close> at one type: the derived implementations of serde are code the
  build generates, so each use of a struct as a payload takes them as a parameter.
\<close>

record ('j, 'a) serde =
  to_value :: "'a \<Rightarrow> 'j option"
  from_value :: "'j \<Rightarrow> 'a option"

definition serde_roundtrip :: "('j, 'a) serde \<Rightarrow> bool" where
  "serde_roundtrip D \<longleftrightarrow> (\<forall>a. \<exists>j. to_value D a = Some j \<and> from_value D j = Some a)"

subsection \<open>A concrete JSON value\<close>

text \<open>Numbers are unsigned or negative integers or finite floats, as \<open>serde_json::Number\<close> keeps them.\<close>

datatype jvalue =
    JNull
  | JBool bool
  | JPos u64
  | JNeg int
  | JFloat rat
  | JStr string
  | JArr "jvalue list"
  | JObj "(string \<times> jvalue) list"

fun jv_is_object :: "jvalue \<Rightarrow> bool" where
  "jv_is_object (JObj _) = True"
| "jv_is_object _ = False"

fun jv_get :: "jvalue \<Rightarrow> string \<Rightarrow> jvalue option" where
  "jv_get (JObj ms) k = map_of ms k"
| "jv_get _ _ = None"

fun jv_as_f64 :: "jvalue \<Rightarrow> f64 option" where
  "jv_as_f64 (JPos n) = Some (r64 (of_nat (unat n)))"
| "jv_as_f64 (JNeg i) = Some (r64 (of_int i))"
| "jv_as_f64 (JFloat x) = Some (Fin x)"
| "jv_as_f64 _ = None"

fun jv_as_u64 :: "jvalue \<Rightarrow> u64 option" where
  "jv_as_u64 (JPos n) = Some n"
| "jv_as_u64 _ = None"

fun jv_as_str :: "jvalue \<Rightarrow> string option" where
  "jv_as_str (JStr s) = Some s"
| "jv_as_str _ = None"

fun jv_as_bool :: "jvalue \<Rightarrow> bool option" where
  "jv_as_bool (JBool b) = Some b"
| "jv_as_bool _ = None"

fun jv_as_array :: "jvalue \<Rightarrow> jvalue list option" where
  "jv_as_array (JArr xs) = Some xs"
| "jv_as_array _ = None"

fun jv_put :: "(string \<times> jvalue) list \<Rightarrow> string \<Rightarrow> jvalue \<Rightarrow> (string \<times> jvalue) list" where
  "jv_put [] k v = [(k, v)]"
| "jv_put ((k', v') # ms) k v = (if k' = k then (k, v) # ms else (k', v') # jv_put ms k v)"

fun jv_insert :: "jvalue \<Rightarrow> string \<Rightarrow> jvalue \<Rightarrow> jvalue" where
  "jv_insert (JObj ms) k v = JObj (jv_put ms k v)"
| "jv_insert j _ _ = j"

text \<open>
  JSON pointers: \<open>/a/b\<close> steps into members, a decimal index into an array; \<open>~1\<close> and \<open>~0\<close> stand
  for a slash and a tilde.
\<close>

fun unescape :: "string \<Rightarrow> string" where
  "unescape (a # b # cs) =
     (if a = CHR ''~'' \<and> b = CHR ''1'' then CHR ''/'' # unescape cs
      else if a = CHR ''~'' \<and> b = CHR ''0'' then CHR ''~'' # unescape cs
      else a # unescape (b # cs))"
| "unescape cs = cs"

definition pointer_index :: "string \<Rightarrow> nat option" where
  "pointer_index t =
     (if t \<noteq> [] \<and> list_all is_digit t \<and> (hd t \<noteq> CHR ''0'' \<or> length t = 1)
      then Some (digits_value t) else None)"

fun jv_step :: "jvalue \<Rightarrow> string \<Rightarrow> jvalue option" where
  "jv_step (JObj ms) t = map_of ms t"
| "jv_step (JArr xs) t =
     (case pointer_index t of None \<Rightarrow> None | Some i \<Rightarrow> if i < length xs then Some (xs ! i) else None)"
| "jv_step _ _ = None"

fun jv_walk :: "jvalue \<Rightarrow> string list \<Rightarrow> jvalue option" where
  "jv_walk j [] = Some j"
| "jv_walk j (t # ts) = (case jv_step j (unescape t) of None \<Rightarrow> None | Some j' \<Rightarrow> jv_walk j' ts)"

definition jv_pointer :: "jvalue \<Rightarrow> string \<Rightarrow> jvalue option" where
  "jv_pointer j p =
     (case p of [] \<Rightarrow> Some j
      | c # cs \<Rightarrow> if c = CHR ''/'' then jv_walk j (split_char CHR ''/'' cs) else None)"

text \<open>A number that is not finite becomes null.\<close>

fun jv_entries :: "jvalue \<Rightarrow> (string \<times> jvalue) list option" where
  "jv_entries (JObj ms) = Some ms"
| "jv_entries _ = None"

fun jv_f32 :: "f32 \<Rightarrow> jvalue" where
  "jv_f32 (Fin q) = JFloat q"
| "jv_f32 _ = JNull"

definition jvalue_api :: "jvalue json_api" where
  "jvalue_api =
     \<lparr> j_is_object = jv_is_object, j_pointer = jv_pointer, j_get = jv_get, j_as_f64 = jv_as_f64,
       j_as_u64 = jv_as_u64, j_as_str = jv_as_str, j_as_bool = jv_as_bool, j_as_array = jv_as_array,
       j_entries = jv_entries, j_string = JStr, j_u64 = JPos, j_f32 = jv_f32, j_bool = JBool, j_null = JNull, j_array = JArr, j_object = JObj, j_insert = jv_insert \<rparr>"

lemma map_of_jv_put [simp]: "map_of (jv_put ms k v) k' = (if k' = k then Some v else map_of ms k')"
  by (induction ms k v rule: jv_put.induct) auto

lemma jvalue_api_simps [simp]:
  "j_is_object jvalue_api = jv_is_object" "j_pointer jvalue_api = jv_pointer"
  "j_get jvalue_api = jv_get" "j_as_f64 jvalue_api = jv_as_f64" "j_as_u64 jvalue_api = jv_as_u64"
  "j_as_str jvalue_api = jv_as_str" "j_as_bool jvalue_api = jv_as_bool"
  "j_as_array jvalue_api = jv_as_array" "j_entries jvalue_api = jv_entries" "j_string jvalue_api = JStr" "j_u64 jvalue_api = JPos" "j_f32 jvalue_api = jv_f32" "j_bool jvalue_api = JBool" "j_null jvalue_api = JNull" "j_array jvalue_api = JArr"
  "j_object jvalue_api = JObj" "j_insert jvalue_api = jv_insert"
  by (simp_all add: jvalue_api_def)

interpretation jv: json_laws jvalue_api
proof
  fix ob k v k'
  show "j_is_object jvalue_api ob \<Longrightarrow> j_is_object jvalue_api (j_insert jvalue_api ob k v)"
    by (cases ob) simp_all
  show "j_get jvalue_api ob k = Some v \<Longrightarrow> j_is_object jvalue_api ob"
    by (cases ob) simp_all
  show "j_is_object jvalue_api ob \<Longrightarrow>
      j_get jvalue_api (j_insert jvalue_api ob k v) k' = (if k' = k then Some v else j_get jvalue_api ob k')"
    by (cases ob) simp_all
qed simp_all

end
