(* ===== verification/Record_Types.thy ===== *)
theory Record_Types
  imports Json_Api
begin

section \<open>The data model (\<open>store/record.rs\<close>)\<close>

text \<open>
  The structs and enums of \<open>src/src/store/record.rs\<close> with their constructors and derived values:
  score tiers, default scores, confidence bases and the layer-0 stubs. Field names carry a prefix
  for their struct (\<open>q_\<close> for \<open>QualityScore\<close>, \<open>s_\<close> for \<open>StalenessScore\<close>, \<open>c_\<close> for \<open>ConfidenceScore\<close>,
  \<open>r_\<close> for \<open>Record\<close>, \<open>f_\<close> for \<open>FileRecord\<close>, \<open>g_\<close> for \<open>GotchaRecord\<close>), because several structs share
  names such as \<open>value\<close>. \<open>'j\<close> is the JSON type of the payload.
\<close>

named_theorems score_simps \<open>score constants and tiers\<close>

type_synonym DeviceId = "128 word"

subsection \<open>Record metadata\<close>

datatype RecordSource = StaticAnalysis | ClaudeEnrich | SessionHook | DeveloperManual | Import

datatype AgentKind = Claude | Codex | Cli | Supervisor | Unknown

datatype Category = Gotcha | File | Decision | Stage | Dependency | DevNote | Session | Analytics

datatype Priority = Low | Normal | High | Critical

text \<open>The derived \<open>Ord\<close> follows the declaration order.\<close>

fun priority_rank :: "Priority \<Rightarrow> nat" where
  "priority_rank Low = 0"
| "priority_rank Normal = 1"
| "priority_rank High = 2"
| "priority_rank Critical = 3"

lemma priority_rank_inject [simp]: "priority_rank p = priority_rank q \<longleftrightarrow> p = q"
  by (cases p; cases q) simp_all

instantiation Priority :: linorder
begin

definition less_eq_Priority :: "Priority \<Rightarrow> Priority \<Rightarrow> bool" where
  "p \<le> q \<longleftrightarrow> priority_rank p \<le> priority_rank q"

definition less_Priority :: "Priority \<Rightarrow> Priority \<Rightarrow> bool" where
  "p < q \<longleftrightarrow> priority_rank p < priority_rank q"

instance
proof
  fix p q r :: Priority
  show "p < q \<longleftrightarrow> p \<le> q \<and> \<not> q \<le> p"
    by (auto simp: less_eq_Priority_def less_Priority_def)
  show "p \<le> p" by (simp add: less_eq_Priority_def)
  show "p \<le> q \<Longrightarrow> q \<le> r \<Longrightarrow> p \<le> r" by (simp add: less_eq_Priority_def)
  show "p \<le> q \<Longrightarrow> q \<le> p \<Longrightarrow> p = q" by (metis less_eq_Priority_def le_antisym priority_rank_inject)
  show "p \<le> q \<or> q \<le> p" by (auto simp: less_eq_Priority_def)
qed

end

subsection \<open>Quality\<close>

datatype QualityTier = Suppressed | Poor | Acceptable | Good | Excellent

datatype QualitySignal =
    HasImperativeVerb | HasCausality | HasSeveritySet | HasReference | RuleLengthAdequate
  | ReasonLengthAdequate | AffectedFilesSpecified | HasSpecificIdentifier
  | VaguePhrasing | NoActionableRule | NoReason | TooShort | DuplicatesFilePurpose

record QualityScore =
  q_value :: f32
  q_tier :: QualityTier
  q_signals :: "QualitySignal list"
  q_computed_at :: u64

definition quality_layer0_default :: QualityScore where
  "quality_layer0_default = \<lparr> q_value = r32 (10/100), q_tier = Suppressed, q_signals = [], q_computed_at = 0 \<rparr>"

definition doc_comment_default :: QualityScore where
  "doc_comment_default = \<lparr> q_value = r32 (40/100), q_tier = Acceptable, q_signals = [], q_computed_at = 0 \<rparr>"

definition developer_entry_default :: QualityScore where
  "developer_entry_default = \<lparr> q_value = r32 (65/100), q_tier = Good, q_signals = [], q_computed_at = 0 \<rparr>"

definition cochange_default :: QualityScore where
  "cochange_default = \<lparr> q_value = r32 (40/100), q_tier = Acceptable, q_signals = [], q_computed_at = 0 \<rparr>"

definition cochange_strong :: QualityScore where
  "cochange_strong = \<lparr> q_value = r32 (60/100), q_tier = Acceptable, q_signals = [], q_computed_at = 0 \<rparr>"

definition quality_tier_from_value :: "f32 \<Rightarrow> QualityTier" where
  "quality_tier_from_value v =
     (if \<not> is_finite v \<or> flt_lt v (r32 (2/10)) then Suppressed
      else if flt_lt v (r32 (4/10)) then Poor
      else if flt_lt v (r32 (7/10)) then Acceptable
      else if flt_lt v (r32 (9/10)) then Good
      else Excellent)"

subsection \<open>Staleness\<close>

datatype StalenessTier = Fresh | Aging | Stale | Liability | Tombstone

datatype StalenessSignal =
    NotAccessedDays u32
  | LinesChangedPct f32
  | EntryPointsChanged u32
  | ImportsChanged u32
  | FileDeleted
  | FileRenamed string
  | DependencyBumped string string string
  | LinkedFileChanged string
  | CascadeFromDecision string
  | TodosChanged
  | UnsafeCountChanged i32
  | UnwrapCountChanged i32
  | GitCommitsSince u32

text \<open>The \<open>Display\<close> of a signal; the arrow is U+2192.\<close>

definition arrow :: string where
  "arrow = [CHR 0xE2, CHR 0x86, CHR 0x92]"

fun signal_to_string :: "StalenessSignal \<Rightarrow> string" where
  "signal_to_string (NotAccessedDays d) = ''not accessed for '' @ show_u32 d @ '' days''"
| "signal_to_string (LinesChangedPct pct) = fmt0 (f32_mul pct (r32 100)) @ ''% of lines changed''"
| "signal_to_string (EntryPointsChanged n) = show_u32 n @ '' entry points changed''"
| "signal_to_string (ImportsChanged n) = show_u32 n @ '' imports changed''"
| "signal_to_string FileDeleted = ''source file deleted''"
| "signal_to_string (FileRenamed p) = ''file renamed to '' @ p"
| "signal_to_string (DependencyBumped dep v w) = dep @ '' bumped '' @ v @ '' '' @ arrow @ '' '' @ w"
| "signal_to_string (LinkedFileChanged p) = ''linked file '' @ p @ '' changed''"
| "signal_to_string (CascadeFromDecision k) = ''cascaded from '' @ k"
| "signal_to_string TodosChanged = ''TODOs changed''"
| "signal_to_string (UnsafeCountChanged d) = ''unsafe count changed by '' @ show_i32 d"
| "signal_to_string (UnwrapCountChanged d) = ''unwrap count changed by '' @ show_i32 d"
| "signal_to_string (GitCommitsSince n) = show_u32 n @ '' commits since last confirmation''"

record StalenessScore =
  s_value :: f32
  s_tier :: StalenessTier
  s_signals :: "StalenessSignal list"
  s_computed_at :: u64
  s_last_record_sha :: string

definition fresh :: StalenessScore where
  "fresh = \<lparr> s_value = r32 0, s_tier = Fresh, s_signals = [], s_computed_at = 0, s_last_record_sha = [] \<rparr>"

definition staleness_tier_from_value :: "f32 \<Rightarrow> StalenessTier" where
  "staleness_tier_from_value v =
     (if \<not> is_finite v then Stale
      else if flt_lt v (r32 (2/10)) then Fresh
      else if flt_lt v (r32 (4/10)) then Aging
      else if flt_lt v (r32 (7/10)) then Stale
      else if flt_lt v (r32 (9/10)) then Liability
      else Tombstone)"

subsection \<open>Confidence\<close>

record ConfidenceScore =
  c_value :: f32
  c_confirmation_count :: u32
  c_contributor_count :: u32
  c_last_challenged :: "u64 option"
  c_challenge_count :: u32

fun base_for_source :: "RecordSource \<Rightarrow> f32" where
  "base_for_source DeveloperManual = r32 (80/100)"
| "base_for_source Import = r32 (70/100)"
| "base_for_source ClaudeEnrich = r32 (60/100)"
| "base_for_source SessionHook = r32 (50/100)"
| "base_for_source StaticAnalysis = r32 (10/100)"

definition confidence_for_new_record :: "RecordSource \<Rightarrow> ConfidenceScore" where
  "confidence_for_new_record source =
     \<lparr> c_value = base_for_source source, c_confirmation_count = 0, c_contributor_count = 1,
       c_last_challenged = None, c_challenge_count = 0 \<rparr>"

subsection \<open>Lifecycle and version\<close>

datatype TombstoneReason = TR_FileDeleted | TR_FileRenamed string | ManualDeletion | TR_Superseded

datatype RecordLifecycle = Active | Tombstoned TombstoneReason u64 | Superseded string

record RecordVersion =
  device_id :: DeviceId
  logical_clock :: u64
  wall_clock :: u64

subsection \<open>The universal record\<close>

record 'j Record =
  r_key :: string
  r_value :: string
  r_category :: Category
  r_priority :: Priority
  r_tags :: "string list"
  r_created_at :: u64
  r_updated_at :: u64
  r_ref_url :: "string option"
  r_staleness :: StalenessScore
  r_lifecycle :: RecordLifecycle
  r_version :: RecordVersion
  r_quality :: QualityScore
  r_access_count :: u32
  r_last_accessed :: u64
  r_source :: RecordSource
  r_confidence :: ConfidenceScore
  r_gap_analysis_score :: f32
  r_payload :: "'j option"

text \<open>\<open>payload_as\<close>: the payload through the deserializer of the target type.\<close>

definition payload_as :: "('j \<Rightarrow> 'a option) \<Rightarrow> 'j Record \<Rightarrow> 'a option" where
  "payload_as de r = (case r_payload r of None \<Rightarrow> None | Some p \<Rightarrow> de p)"

definition layer0_file_stub :: "string \<Rightarrow> DeviceId \<Rightarrow> u64 \<Rightarrow> u64 \<Rightarrow> 'j Record" where
  "layer0_file_stub key dev clock wall =
     \<lparr> r_key = key, r_value = [], r_category = File, r_priority = Normal, r_tags = [],
       r_created_at = wall, r_updated_at = wall, r_ref_url = None, r_staleness = fresh,
       r_lifecycle = Active,
       r_version = \<lparr> device_id = dev, logical_clock = clock, wall_clock = wall \<rparr>,
       r_quality = quality_layer0_default, r_access_count = 0, r_last_accessed = 0,
       r_source = StaticAnalysis, r_confidence = confidence_for_new_record StaticAnalysis,
       r_gap_analysis_score = r32 0, r_payload = None \<rparr>"

subsection \<open>File and gotcha records\<close>

datatype TodoKind = Todo | Fixme | Hack | Note | Deprecated

record TodoComment =
  t_text :: string
  t_line :: u32
  t_kind :: TodoKind

text \<open>The tier and the counts of \<open>analysis/blast_radius.rs\<close>, and what \<open>analysis/propagation.rs\<close> stores.\<close>

datatype BlastTier = Isolated | BlastLow | Moderate | BlastHigh | BlastCritical

record BlastRadius =
  b_direct :: u32
  b_transitive :: u32
  b_score :: f32
  b_tier :: BlastTier

record PropagatedStaleness =
  ps_value :: f32
  ps_source_count :: u32
  ps_primary_source :: "string option"

record FileRecord =
  f_path :: string
  f_purpose :: string
  f_entry_points :: "string list"
  f_imports :: "string list"
  f_gotcha_keys :: "string list"
  f_decision_keys :: "string list"
  f_todos :: "TodoComment list"
  f_unsafe_count :: u32
  f_unwrap_count :: u32
  f_change_frequency :: u32
  f_last_author :: "string option"
  f_is_hotspot :: bool
  f_token_cost_estimate :: u32
  f_last_modified_session :: u64
  f_content_hash :: "string option"
  f_line_count :: u32
  f_blast_radius :: "BlastRadius option"
  f_propagated_staleness :: "PropagatedStaleness option"

definition layer0_stub ::
  "string \<Rightarrow> string list \<Rightarrow> string list \<Rightarrow> TodoComment list \<Rightarrow> u32 \<Rightarrow> u32 \<Rightarrow> u32 \<Rightarrow> string option
   \<Rightarrow> bool \<Rightarrow> u32 \<Rightarrow> u64 \<Rightarrow> FileRecord" where
  "layer0_stub path eps imps todos unsafe unwrap freq author hot cost sess =
     \<lparr> f_path = path, f_purpose = [], f_entry_points = eps, f_imports = imps, f_gotcha_keys = [],
       f_decision_keys = [], f_todos = todos, f_unsafe_count = unsafe, f_unwrap_count = unwrap,
       f_change_frequency = freq, f_last_author = author, f_is_hotspot = hot,
       f_token_cost_estimate = cost, f_last_modified_session = sess, f_content_hash = None,
       f_line_count = 0, f_blast_radius = None, f_propagated_staleness = None \<rparr>"

record GotchaRecord =
  g_rule :: string
  g_reason :: string
  g_severity :: Priority
  g_affected_files :: "string list"
  g_ref_url :: "string option"
  g_discovered_session :: u64
  g_confirmed :: bool

record StaleReviewEntry =
  sr_key :: string
  sr_staleness_value :: f32
  sr_tier :: StalenessTier
  sr_last_updated :: u64
  sr_signals :: "string list"

record StaleReviewPayload =
  srp_session_timestamp :: u64
  srp_entries :: "StaleReviewEntry list"

subsection \<open>Score constants\<close>

text \<open>The literals of the sources as \<open>f32\<close> values.\<close>

lemma r32_literals [score_simps]:
  "r32 (1/5) = Fin (13421773/67108864)"
  "r32 (3/10) = Fin (5033165/16777216)"
  "r32 (2/5) = Fin (13421773/33554432)"
  "r32 (3/5) = Fin (5033165/8388608)"
  "r32 (7/10) = Fin (11744051/16777216)"
  "r32 (4/5) = Fin (13421773/16777216)"
  "r32 (9/10) = Fin (15099494/16777216)"
  using r32_near [of "1/5" 26 13421773] r32_near [of "3/10" 25 10066330]
    r32_near [of "2/5" 25 13421773] r32_near [of "3/5" 24 10066330]
    r32_near [of "7/10" 24 11744051] r32_near [of "4/5" 24 13421773]
    r32_near [of "9/10" 24 15099494]
  by simp_all

end
