(* ===== verification/Store.thy ===== *)
theory Store
  imports Record_Types "HOL-Library.Char_ord" "HOL-Library.List_Lexorder" "HOL-Library.Product_Lexorder"
begin

section \<open>The store (\<open>store/durability.rs\<close>, \<open>store/db.rs\<close>)\<close>

text \<open>
  Two key-value trees, chosen by the key's namespace, and a full-text index beside them. SurrealKV,
  tantivy and the MessagePack encoding are libraries: their operations are the fields of the
  parameter \<open>store_api\<close>, over the types \<open>'t\<close> of a tree, \<open>'x\<close> of the index and \<open>'v\<close> of a stored byte
  string. \<open>kv_commit\<close> is a write transaction: it returns the tree afterwards and an error when the
  transaction failed. What the code relies on is the locale \<open>store_laws\<close> below. An in-memory
  tree with injectable commit failures interprets it.

  Operations return the store they leave behind and a result, because an error can follow a
  committed write. The files \<open>search_sync_pending\<close> (the crash fence) and \<open>health_write_seq\<close>
  are the fields \<open>sync_pending\<close> and \<open>write_seq\<close>; \<open>fs_writable\<close> says whether writing them works,
  since the code ignores a failure to write them. Beginning a transaction and committing it fail
  as one: a commit error stands for both.
\<close>

named_theorems store_simps \<open>unfolding rules of the store\<close>

subsection \<open>Durability\<close>

datatype Durability = Immediate | Eventual

definition for_key :: "string \<Rightarrow> Durability" where
  "for_key key =
     (if starts_with key ''session:''
       \<or> starts_with key ''analytics:''
       \<or> starts_with key ''hook_event:''
       \<or> starts_with key ''compliance:''
       \<or> starts_with key ''graph:edge:''
       \<or> starts_with key ''health:''
       \<or> starts_with key ''parse:''
       \<or> starts_with key ''audit:session:''
      then Eventual else Immediate)"

subsection \<open>Libraries\<close>

datatype store_error =
    KvError string
  | SerializeError string
  | CorruptRecord string
  | WrongTree string
  | SearchError string
  | KeyExists string
  | NotFound string

text \<open>
  What an update of the index through \<open>search/index.rs\<close> comes to: the index cannot be opened, the
  update fails (or tantivy panics), or it is committed. A query can also panic.
\<close>

datatype search_outcome = SearchUnavailable string | SearchFailed string | SearchDone

datatype query_outcome = QueryFailed string | QueryPanicked | QueryKeys "(f32 \<times> string) list"

type_synonym 'v kv_op = "string \<times> 'v option"

text \<open>A version of a key in the history of a tree, and the filter of a history query.\<close>

record 'v version =
  v_user_key :: string
  v_tombstone :: bool
  v_timestamp :: u64
  v_value :: "'v option"

record history_options =
  h_since :: "u64 option"
  h_limit :: nat

record ('t, 'x, 'v, 'j) store_api =
  kv_get :: "'t \<Rightarrow> string \<Rightarrow> (string, 'v option) result"
  kv_commit :: "'t \<Rightarrow> Durability \<Rightarrow> 'v kv_op list \<Rightarrow> 't \<times> string option"
  kv_range :: "'t \<Rightarrow> string \<Rightarrow> string \<Rightarrow> (string, (string \<times> 'v) list) result"
  kv_history :: "'t \<Rightarrow> string \<Rightarrow> string \<Rightarrow> history_options \<Rightarrow> (string, 'v version list) result"
  enc_record :: "'j Record \<Rightarrow> 'v option"
  dec_record :: "'v \<Rightarrow> 'j Record option"
  of_bytes :: "string \<Rightarrow> 'v"
  to_bytes :: "'v \<Rightarrow> string"
  sx_add :: "'x \<Rightarrow> 'j Record list \<Rightarrow> 'x \<times> search_outcome"
  sx_delete :: "'x \<Rightarrow> string \<Rightarrow> 'x \<times> search_outcome"
  sx_query :: "'x \<Rightarrow> string \<Rightarrow> nat \<Rightarrow> query_outcome"

subsection \<open>The store and its helpers\<close>

record ('t, 'x) Store =
  knowledge :: 't
  sessions :: 't
  search :: 'x
  sync_pending :: bool
  search_stale :: bool
  write_seq :: u64
  fs_writable :: bool

type_synonym ('t, 'x, 'a) store_result = "('t, 'x) Store \<times> (store_error, 'a) result"

definition KNOWLEDGE_NAMESPACES :: "string list" where
  "KNOWLEDGE_NAMESPACES = [''gotcha:'', ''decision:'', ''file:'', ''stage:'', ''dev_note:'', ''dep:'']"

definition is_knowledge_key :: "string \<Rightarrow> bool" where
  "is_knowledge_key key \<longleftrightarrow>
     starts_with key ''file:'' \<or> starts_with key ''gotcha:'' \<or> starts_with key ''decision:''
     \<or> starts_with key ''dep:'' \<or> starts_with key ''dev_note:'' \<or> starts_with key ''stage:''"

definition tree_of :: "('t, 'x) Store \<Rightarrow> Durability \<Rightarrow> 't" where
  "tree_of S d = (case d of Eventual \<Rightarrow> sessions S | Immediate \<Rightarrow> knowledge S)"

definition tree_for :: "('t, 'x) Store \<Rightarrow> string \<Rightarrow> 't" where
  "tree_for S key = tree_of S (for_key key)"

text \<open>One write transaction on the tree of a durability class.\<close>

definition commit_on ::
  "('t, 'x, 'v, 'j) store_api \<Rightarrow> ('t, 'x) Store \<Rightarrow> Durability \<Rightarrow> 'v kv_op list \<Rightarrow> ('t, 'x, unit) store_result" where
  "commit_on A S d ops =
     (case kv_commit A (tree_of S d) d ops of (t, e) \<Rightarrow>
        ((case d of Eventual \<Rightarrow> S\<lparr>sessions := t\<rparr> | Immediate \<Rightarrow> S\<lparr>knowledge := t\<rparr>),
         (case e of None \<Rightarrow> Ok () | Some m \<Rightarrow> Err (KvError m))))"

text \<open>The crash fence and the write counter, both best effort.\<close>

definition set_fence :: "bool \<Rightarrow> ('t, 'x) Store \<Rightarrow> ('t, 'x) Store" where
  "set_fence b S = (if fs_writable S then S\<lparr>sync_pending := b\<rparr> else S)"

definition bump_write_seq :: "('t, 'x) Store \<Rightarrow> ('t, 'x) Store" where
  "bump_write_seq S = (if fs_writable S then S\<lparr>write_seq := write_seq S + 1\<rparr> else S)"

text \<open>
  What follows a successful KV commit: raise the fence when a knowledge key was written, update the
  index, count the write, lower the fence when the index took the update.
\<close>

definition sync_search ::
  "('t, 'x, 'v, 'j) store_api \<Rightarrow> bool \<Rightarrow> 'j Record list \<Rightarrow> ('t, 'x) Store \<Rightarrow> ('t, 'x) Store" where
  "sync_search A has_knowledge records S =
     (let S1 = (if has_knowledge then set_fence True S else S);
          (x, out) = sx_add A (search S1) records;
          S2 = S1\<lparr>search := x\<rparr>
      in if has_knowledge
         then (let S3 = bump_write_seq S2 in if out = SearchDone then set_fence False S3 else S3)
         else S2)"

subsection \<open>Core operations\<close>

definition read_record ::
  "('t, 'x, 'v, 'j) store_api \<Rightarrow> 't \<Rightarrow> string \<Rightarrow> (store_error, 'j Record option) result" where
  "read_record A t key =
     (case kv_get A t key of
        Inl m \<Rightarrow> Err (KvError m)
      | Inr None \<Rightarrow> Ok None
      | Inr (Some v) \<Rightarrow>
          (case dec_record A v of None \<Rightarrow> Err (CorruptRecord key) | Some r \<Rightarrow> Ok (Some r)))"

definition store_get ::
  "('t, 'x, 'v, 'j) store_api \<Rightarrow> ('t, 'x) Store \<Rightarrow> string \<Rightarrow> (store_error, 'j Record option) result" where
  "store_get A S key = read_record A (tree_for S key) key"

definition store_put ::
  "('t, 'x, 'v, 'j) store_api \<Rightarrow> ('t, 'x) Store \<Rightarrow> string \<Rightarrow> 'j Record \<Rightarrow> ('t, 'x, unit) store_result" where
  "store_put A S key r =
     (case enc_record A r of
        None \<Rightarrow> (S, Err (SerializeError key))
      | Some bytes \<Rightarrow>
          (case commit_on A S (for_key key) [(key, Some bytes)] of
             (S1, Inl e) \<Rightarrow> (S1, Err e)
           | (S1, Inr _) \<Rightarrow> (sync_search A (is_knowledge_key key) [r] S1, Ok ())))"

text \<open>
  The writes of a batch that route to one tree, or the key of the first record that cannot be
  encoded.
\<close>

fun encode_all ::
  "('t, 'x, 'v, 'j) store_api \<Rightarrow> (string \<times> 'j Record) list \<Rightarrow> (string, 'v kv_op list) result" where
  "encode_all A [] = Ok []"
| "encode_all A ((k, r) # rs) =
     (case enc_record A r of
        None \<Rightarrow> Err k
      | Some b \<Rightarrow> rbind (encode_all A rs) (\<lambda>ops. Ok ((k, Some b) # ops)))"

definition commit_part ::
  "('t, 'x, 'v, 'j) store_api \<Rightarrow> ('t, 'x) Store \<Rightarrow> Durability \<Rightarrow> (string \<times> 'j Record) list
   \<Rightarrow> ('t, 'x, unit) store_result" where
  "commit_part A S d part =
     (if part = [] then (S, Ok ())
      else case encode_all A part of
             Inl k \<Rightarrow> (S, Err (SerializeError k))
           | Inr ops \<Rightarrow> commit_on A S d ops)"

definition of_class :: "Durability \<Rightarrow> (string \<times> 'a) list \<Rightarrow> (string \<times> 'a) list" where
  "of_class d rs = filter (\<lambda>kr. for_key (fst kr) = d) rs"

definition put_batch_kv_only ::
  "('t, 'x, 'v, 'j) store_api \<Rightarrow> ('t, 'x) Store \<Rightarrow> (string \<times> 'j Record) list \<Rightarrow> ('t, 'x, unit) store_result" where
  "put_batch_kv_only A S records =
     (if records = [] then (S, Ok ())
      else case commit_part A S Immediate (of_class Immediate records) of
        (S1, Inl e) \<Rightarrow> (S1, Err e)
      | (S1, Inr _) \<Rightarrow>
          (case commit_part A S1 Eventual (of_class Eventual records) of
             (S2, Inl e) \<Rightarrow> (S2, Err e)
           | (S2, Inr _) \<Rightarrow>
               (if list_ex (\<lambda>kr. is_knowledge_key (fst kr)) records then bump_write_seq S2 else S2, Ok ())))"

definition put_batch ::
  "('t, 'x, 'v, 'j) store_api \<Rightarrow> ('t, 'x) Store \<Rightarrow> (string \<times> 'j Record) list \<Rightarrow> ('t, 'x, unit) store_result" where
  "put_batch A S records =
     (if records = [] then (S, Ok ())
      else case commit_part A S Immediate (of_class Immediate records) of
        (S1, Inl e) \<Rightarrow> (S1, Err e)
      | (S1, Inr _) \<Rightarrow>
          (case commit_part A S1 Eventual (of_class Eventual records) of
             (S2, Inl e) \<Rightarrow> (S2, Err e)
           | (S2, Inr _) \<Rightarrow>
               (sync_search A (list_ex (\<lambda>kr. is_knowledge_key (fst kr)) records) (map snd records) S2, Ok ())))"

text \<open>
  An error of \<open>delete_key\<close> on an available index is returned, before the counter and the fence are
  reached.
\<close>

definition store_delete ::
  "('t, 'x, 'v, 'j) store_api \<Rightarrow> ('t, 'x) Store \<Rightarrow> string \<Rightarrow> ('t, 'x, unit) store_result" where
  "store_delete A S key =
     (case commit_on A S (for_key key) [(key, None)] of
        (S1, Inl e) \<Rightarrow> (S1, Err e)
      | (S1, Inr _) \<Rightarrow>
          (let kn = is_knowledge_key key;
               S2 = (if kn then set_fence True S1 else S1);
               (x, out) = sx_delete A (search S2) key;
               S3 = S2\<lparr>search := x\<rparr>
           in case out of
                SearchFailed m \<Rightarrow> (S3, Err (SearchError m))
              | _ \<Rightarrow> (if kn then (let S4 = bump_write_seq S3
                                  in if out = SearchDone then set_fence False S4 else S4) else S3, Ok ())))"

subsection \<open>Scans\<close>

text \<open>\<open>String::from_utf8\<close>: well-formed UTF-8 (no overlong form, no surrogate, at most U+10FFFF).\<close>

definition cont_byte :: "char \<Rightarrow> bool" where
  "cont_byte c \<longleftrightarrow> 0x80 \<le> (of_char c :: nat) \<and> (of_char c :: nat) \<le> 0xBF"

function utf8_ok :: "string \<Rightarrow> bool" where
  "utf8_ok [] = True"
| "utf8_ok (a # s) =
     (let n = of_char a :: nat
      in if n < 0x80 then utf8_ok s
         else if 0xC2 \<le> n \<and> n \<le> 0xDF
         then (case s of b # t \<Rightarrow> cont_byte b \<and> utf8_ok t | _ \<Rightarrow> False)
         else if 0xE0 \<le> n \<and> n \<le> 0xEF
         then (case s of b # c # t \<Rightarrow>
                 cont_byte b \<and> cont_byte c
                 \<and> (n = 0xE0 \<longrightarrow> 0xA0 \<le> (of_char b :: nat)) \<and> (n = 0xED \<longrightarrow> (of_char b :: nat) \<le> 0x9F)
                 \<and> utf8_ok t | _ \<Rightarrow> False)
         else if 0xF0 \<le> n \<and> n \<le> 0xF4
         then (case s of b # c # d # t \<Rightarrow>
                 cont_byte b \<and> cont_byte c \<and> cont_byte d
                 \<and> (n = 0xF0 \<longrightarrow> 0x90 \<le> (of_char b :: nat)) \<and> (n = 0xF4 \<longrightarrow> (of_char b :: nat) \<le> 0x8F)
                 \<and> utf8_ok t | _ \<Rightarrow> False)
         else False)"
  by pat_completeness auto
termination by (relation "measure length") auto

text \<open>The increment with carry of \<open>prefix_end\<close>, from the last byte; \<open>None\<close> when all are 0xFF.\<close>

fun inc_rev :: "string \<Rightarrow> string option" where
  "inc_rev [] = None"
| "inc_rev (b # bs) =
     (if (of_char b :: nat) < 0xFF then Some (char_of (of_char b + 1 :: nat) # bs)
      else map_option (\<lambda>bs'. CHR 0x00 # bs') (inc_rev bs))"

text \<open>U+FFFF\<close>

definition sentinel :: string where
  "sentinel = [CHR 0xEF, CHR 0xBF, CHR 0xBF]"

definition prefix_end :: "string \<Rightarrow> string" where
  "prefix_end p =
     (case inc_rev (rev p) of
        None \<Rightarrow> sentinel
      | Some rbs \<Rightarrow> if utf8_ok (rev rbs) then rev rbs else sentinel)"

definition scan_prefix ::
  "('t, 'x, 'v, 'j) store_api \<Rightarrow> ('t, 'x) Store \<Rightarrow> string \<Rightarrow> (store_error, 'j Record list) result" where
  "scan_prefix A S p =
     (case kv_range A (tree_for S p) p (prefix_end p) of
        Inl m \<Rightarrow> Err (KvError m)
      | Inr kvs \<Rightarrow> Ok (List.map_filter (\<lambda>kv. dec_record A (snd kv)) kvs))"

definition scan_keys ::
  "('t, 'x, 'v, 'j) store_api \<Rightarrow> ('t, 'x) Store \<Rightarrow> string \<Rightarrow> (store_error, string list) result" where
  "scan_keys A S p =
     (case kv_range A (tree_for S p) p (prefix_end p) of
        Inl m \<Rightarrow> Err (KvError m)
      | Inr kvs \<Rightarrow> Ok (filter utf8_ok (map fst kvs)))"

subsection \<open>Raw values and transactions\<close>

definition get_raw_bytes ::
  "('t, 'x, 'v, 'j) store_api \<Rightarrow> ('t, 'x) Store \<Rightarrow> string \<Rightarrow> (store_error, 'v option) result" where
  "get_raw_bytes A S key =
     (case kv_get A (tree_for S key) key of Inl m \<Rightarrow> Err (KvError m) | Inr v \<Rightarrow> Ok v)"

definition put_raw ::
  "('t, 'x, 'v, 'j) store_api \<Rightarrow> ('t, 'x) Store \<Rightarrow> string \<Rightarrow> 'v \<Rightarrow> ('t, 'x, unit) store_result" where
  "put_raw A S key v = commit_on A S (for_key key) [(key, Some v)]"

definition commit_raw_part ::
  "('t, 'x, 'v, 'j) store_api \<Rightarrow> ('t, 'x) Store \<Rightarrow> Durability \<Rightarrow> (string \<times> 'v) list \<Rightarrow> ('t, 'x, unit) store_result" where
  "commit_raw_part A S d part =
     (if part = [] then (S, Ok ()) else commit_on A S d (map (\<lambda>kv. (fst kv, Some (snd kv))) part))"

definition put_batch_raw ::
  "('t, 'x, 'v, 'j) store_api \<Rightarrow> ('t, 'x) Store \<Rightarrow> (string \<times> 'v) list \<Rightarrow> ('t, 'x, unit) store_result" where
  "put_batch_raw A S records =
     (if records = [] then (S, Ok ())
      else case commit_raw_part A S Immediate (of_class Immediate records) of
        (S1, Inl e) \<Rightarrow> (S1, Err e)
      | (S1, Inr _) \<Rightarrow> commit_raw_part A S1 Eventual (of_class Eventual records))"

datatype ('v, 'j) KnowledgeWriteOp = PutRecord string "'j Record" | PutRaw string 'v

fun op_key :: "('v, 'j) KnowledgeWriteOp \<Rightarrow> string" where
  "op_key (PutRecord k r) = k"
| "op_key (PutRaw k v) = k"

fun op_record :: "('v, 'j) KnowledgeWriteOp \<Rightarrow> 'j Record option" where
  "op_record (PutRecord k r) = Some r"
| "op_record (PutRaw k v) = None"

fun encode_ops ::
  "('t, 'x, 'v, 'j) store_api \<Rightarrow> ('v, 'j) KnowledgeWriteOp list \<Rightarrow> (string, 'v kv_op list) result" where
  "encode_ops A [] = Ok []"
| "encode_ops A (PutRaw k v # ops) =
     rbind (encode_ops A ops) (\<lambda>w. Ok ((k, Some v) # w))"
| "encode_ops A (PutRecord k r # ops) =
     (case enc_record A r of
        None \<Rightarrow> Err k
      | Some b \<Rightarrow> rbind (encode_ops A ops) (\<lambda>w. Ok ((k, Some b) # w)))"

definition transact_knowledge ::
  "('t, 'x, 'v, 'j) store_api \<Rightarrow> ('t, 'x) Store \<Rightarrow> ('v, 'j) KnowledgeWriteOp list \<Rightarrow> ('t, 'x, unit) store_result" where
  "transact_knowledge A S ops =
     (if ops = [] then (S, Ok ())
      else case find (\<lambda>op. for_key (op_key op) \<noteq> Immediate) ops of
        Some op \<Rightarrow> (S, Err (WrongTree (op_key op)))
      | None \<Rightarrow>
          (case encode_ops A ops of
             Inl k \<Rightarrow> (S, Err (SerializeError k))
           | Inr writes \<Rightarrow>
               (case commit_on A S Immediate writes of
                  (S1, Inl e) \<Rightarrow> (S1, Err e)
                | (S1, Inr _) \<Rightarrow>
                    (let has_knowledge = list_ex (\<lambda>op. is_knowledge_key (op_key op)) ops;
                         records = List.map_filter op_record ops
                     in if records \<noteq> [] then (sync_search A has_knowledge records S1, Ok ())
                        else if has_knowledge then (bump_write_seq (set_fence True S1), Ok ())
                        else (S1, Ok ())))))"

definition transact_sessions_raw ::
  "('t, 'x, 'v, 'j) store_api \<Rightarrow> ('t, 'x) Store \<Rightarrow> (string \<times> 'v) list \<Rightarrow> ('t, 'x, unit) store_result" where
  "transact_sessions_raw A S entries =
     (if entries = [] then (S, Ok ())
      else case find (\<lambda>kv. for_key (fst kv) \<noteq> Eventual) entries of
        Some kv \<Rightarrow> (S, Err (WrongTree (fst kv)))
      | None \<Rightarrow> commit_on A S Eventual (map (\<lambda>kv. (fst kv, Some (snd kv))) entries))"

text \<open>Newest first, ties by key.\<close>

definition records_since ::
  "('t, 'x, 'v, 'j) store_api \<Rightarrow> ('t, 'x) Store \<Rightarrow> u64 \<Rightarrow> nat \<Rightarrow> (store_error, 'j Record list) result" where
  "records_since A S since_ts limit =
     (let collect = foldl (\<lambda>acc ns. rbind acc (\<lambda>rs. rbind (scan_prefix A S ns)
                       (\<lambda>recs. Ok (rs @ filter (\<lambda>r. since_ts \<le> r_updated_at r) recs))))
                     (Ok []) KNOWLEDGE_NAMESPACES
      in rbind collect (\<lambda>rs.
           let sorted = sort_key (\<lambda>r. (- uint (r_updated_at r), r_key r)) rs
           in Ok (if 0 < limit \<and> limit < length sorted then take limit sorted else sorted)))"

subsection \<open>Search, history and the health probe\<close>

definition SESSION_NAMESPACES :: "string list" where
  "SESSION_NAMESPACES = [''session:'', ''analytics:'', ''hook_event:'', ''compliance:'']"

text \<open>One namespace of the rebuild. An error leaves what was indexed so far.\<close>

definition rebuild_ns ::
  "('t, 'x, 'v, 'j) store_api \<Rightarrow> ('t, 'x) Store \<Rightarrow> nat \<Rightarrow> string \<Rightarrow> ('t, 'x, nat) store_result" where
  "rebuild_ns A S committed ns =
     (case scan_prefix A S ns of
        Inl e \<Rightarrow> (S, Err e)
      | Inr records \<Rightarrow>
          (if records = [] then (S, Ok committed)
           else case sx_add A (search S) records of
             (x, SearchDone) \<Rightarrow> (S\<lparr>search := x\<rparr>, Ok (committed + length records))
           | (x, SearchFailed m) \<Rightarrow> (S\<lparr>search := x\<rparr>, Err (SearchError m))
           | (x, SearchUnavailable m) \<Rightarrow> (S\<lparr>search := x\<rparr>, Err (SearchError m))))"

fun rebuild_loop ::
  "('t, 'x, 'v, 'j) store_api \<Rightarrow> ('t, 'x) Store \<Rightarrow> nat \<Rightarrow> string list \<Rightarrow> ('t, 'x, nat) store_result" where
  "rebuild_loop A S committed [] = (S, Ok committed)"
| "rebuild_loop A S committed (ns # nss) =
     (case rebuild_ns A S committed ns of
        (S1, Inl e) \<Rightarrow> (S1, Err e)
      | (S1, Inr n) \<Rightarrow> rebuild_loop A S1 n nss)"

definition rebuild_search_index ::
  "('t, 'x, 'v, 'j) store_api \<Rightarrow> ('t, 'x) Store \<Rightarrow> ('t, 'x, nat) store_result" where
  "rebuild_search_index A S = rebuild_loop A S 0 (KNOWLEDGE_NAMESPACES @ SESSION_NAMESPACES)"

definition mark_search_stale :: "('t, 'x) Store \<Rightarrow> ('t, 'x) Store" where
  "mark_search_stale S = (if fs_writable S then S\<lparr>search_stale := True\<rparr> else S)"

text \<open>
  The part of \<open>open_and_rebuild\<close> after both trees are open: \<open>on_disk\<close> is the index found in its
  directory (\<open>None\<close> when it is corrupt), \<open>fresh_ix\<close> the one that opens after the directory is
  removed. Failing to remove or to recreate that directory is not modelled.
\<close>

definition open_and_rebuild ::
  "('t, 'x, 'v, 'j) store_api \<Rightarrow> 'x \<Rightarrow> 'x option \<Rightarrow> ('t, 'x) Store \<Rightarrow> ('t, 'x, bool) store_result" where
  "open_and_rebuild A fresh_ix on_disk S =
     (let wipe = search_stale S \<or> sync_pending S;
          opened = (if wipe then Some fresh_ix else on_disk);
          S1 = S\<lparr>search := unwrap_or opened fresh_ix\<rparr>;
          needs_rebuild = (wipe \<or> opened = None)
      in if \<not> needs_rebuild then (S1, Ok False)
         else case rebuild_search_index A S1 of
           (S2, Inl e) \<Rightarrow> (S2, Err e)
         | (S2, Inr _) \<Rightarrow>
             (let S3 = set_fence False S2
              in (if search_stale S \<and> fs_writable S3 then S3\<lparr>search_stale := False\<rparr> else S3, Ok True)))"

text \<open>Keys of the index that the store no longer holds are skipped.\<close>

fun fetch_all ::
  "('t, 'x, 'v, 'j) store_api \<Rightarrow> ('t, 'x) Store \<Rightarrow> (f32 \<times> string) list
   \<Rightarrow> (store_error, (f32 \<times> 'j Record) list) result" where
  "fetch_all A S [] = Ok []"
| "fetch_all A S ((score, key) # ks) =
     rbind (store_get A S key) (\<lambda>r. rbind (fetch_all A S ks) (\<lambda>rs.
       Ok (case r of None \<Rightarrow> rs | Some rec \<Rightarrow> (score, rec) # rs)))"

definition search_scored ::
  "('t, 'x, 'v, 'j) store_api \<Rightarrow> ('t, 'x) Store \<Rightarrow> string \<Rightarrow> nat
   \<Rightarrow> (store_error, (f32 \<times> 'j Record) list) result" where
  "search_scored A S txt limit =
     (case sx_query A (search S) txt limit of
        QueryFailed m \<Rightarrow> Err (SearchError m)
      | QueryPanicked \<Rightarrow> Ok []
      | QueryKeys ks \<Rightarrow> fetch_all A S ks)"

definition store_search ::
  "('t, 'x, 'v, 'j) store_api \<Rightarrow> ('t, 'x) Store \<Rightarrow> string \<Rightarrow> nat \<Rightarrow> (store_error, 'j Record list) result" where
  "store_search A S txt limit = rbind (search_scored A S txt limit) (\<lambda>rs. Ok (map snd rs))"

record 'j HistoryEntry =
  timestamp_secs :: u64
  timestamp_ns :: u64
  h_record :: "'j Record option"
  is_tombstone :: bool

definition history_entry :: "('t, 'x, 'v, 'j) store_api \<Rightarrow> 'v version \<Rightarrow> 'j HistoryEntry" where
  "history_entry A v =
     \<lparr> timestamp_secs = v_timestamp v div 1000000000, timestamp_ns = v_timestamp v,
       h_record = (if v_tombstone v then None else Option.bind (v_value v) (dec_record A)),
       is_tombstone = v_tombstone v \<rparr>"

definition history_impl ::
  "('t, 'x, 'v, 'j) store_api \<Rightarrow> 't \<Rightarrow> string \<Rightarrow> history_options \<Rightarrow> (store_error, 'j HistoryEntry list) result" where
  "history_impl A t key opts =
     (case kv_history A t key (key @ [CHR 0x00]) opts of
        Inl m \<Rightarrow> Err (KvError m)
      | Inr vs \<Rightarrow>
          Ok (sort_key (\<lambda>e. - uint (timestamp_ns e))
                (map (history_entry A) (filter (\<lambda>v. v_user_key v = key) vs))))"

definition sat_mul :: "u64 \<Rightarrow> u64 \<Rightarrow> u64" where
  "sat_mul a b = (if unat a * unat b < 2 ^ 64 then a * b else - 1)"

definition history ::
  "('t, 'x, 'v, 'j) store_api \<Rightarrow> ('t, 'x) Store \<Rightarrow> string \<Rightarrow> nat \<Rightarrow> (store_error, 'j HistoryEntry list) result" where
  "history A S key limit =
     (if key = [] then Err (NotFound ''history key must not be empty'')
      else history_impl A (tree_for S key) key \<lparr> h_since = None, h_limit = limit \<rparr>)"

definition history_since ::
  "('t, 'x, 'v, 'j) store_api \<Rightarrow> ('t, 'x) Store \<Rightarrow> string \<Rightarrow> u64 \<Rightarrow> nat
   \<Rightarrow> (store_error, 'j HistoryEntry list) result" where
  "history_since A S key since_ts limit =
     (if key = [] then Err (NotFound ''history key must not be empty'')
      else history_impl A (tree_for S key) key
             \<lparr> h_since = Some (sat_mul since_ts 1000000000), h_limit = limit \<rparr>)"

text \<open>\<open>start\<close> and \<open>stop\<close> are the clock before and after.\<close>

definition ping ::
  "('t, 'x, 'v, 'j) store_api \<Rightarrow> ('t, 'x) Store \<Rightarrow> u64 \<Rightarrow> u64 \<Rightarrow> ('t, 'x, u64) store_result" where
  "ping A S start stop =
     (case commit_on A S Eventual [(''analytics:ping_probe'', Some (of_bytes A (show_u64 start)))] of
        (S1, Inl e) \<Rightarrow> (S1, Err e)
      | (S1, Inr _) \<Rightarrow>
          (case kv_get A (sessions S1) ''analytics:ping_probe'' of
             Inl m \<Rightarrow> (S1, Err (KvError m))
           | Inr None \<Rightarrow> (S1, Err (NotFound ''analytics:ping_probe''))
           | Inr (Some _) \<Rightarrow> (S1, Ok (stop - start))))"

end
