(* ===== verification/Edges.thy ===== *)
theory Edges
  imports Prelude
begin

section \<open>Edges of the knowledge graph (\<open>graph/edges.rs\<close>)\<close>

text \<open>
  The ten edge kinds and the key under which an edge is persisted. Node keys contain colons
  themselves, so reading a key back means finding the segment that is the kind.
\<close>

datatype EdgeKind =
    HasGotcha | Imports | AffectedBy | HasNote | DiscoveredIn | CausedBy | Supersedes | Touched
  | DependencyAffects | CoChanges

record Edge =
  from_node :: string
  edge_kind :: EdgeKind
  to_node :: string

fun as_key_segment :: "EdgeKind \<Rightarrow> string" where
  "as_key_segment HasGotcha = ''has_gotcha''"
| "as_key_segment Imports = ''imports''"
| "as_key_segment AffectedBy = ''affected_by''"
| "as_key_segment HasNote = ''has_note''"
| "as_key_segment DiscoveredIn = ''discovered_in''"
| "as_key_segment CausedBy = ''caused_by''"
| "as_key_segment Supersedes = ''supersedes''"
| "as_key_segment Touched = ''touched''"
| "as_key_segment DependencyAffects = ''dependency_affects''"
| "as_key_segment CoChanges = ''co_changes''"

definition from_key_segment :: "string \<Rightarrow> EdgeKind option" where
  "from_key_segment s =
     (if s = ''has_gotcha'' then Some HasGotcha
      else if s = ''imports'' then Some Imports
      else if s = ''affected_by'' then Some AffectedBy
      else if s = ''has_note'' then Some HasNote
      else if s = ''discovered_in'' then Some DiscoveredIn
      else if s = ''caused_by'' then Some CausedBy
      else if s = ''supersedes'' then Some Supersedes
      else if s = ''touched'' then Some Touched
      else if s = ''dependency_affects'' then Some DependencyAffects
      else if s = ''co_changes'' then Some CoChanges
      else None)"

definition NODE_NAMESPACES :: "string list" where
  "NODE_NAMESPACES = [''file'', ''gotcha'', ''decision'', ''stage'', ''dep'', ''dev_note'', ''session'',
     ''analytics'', ''graph'']"

definition is_valid_node_key :: "string \<Rightarrow> bool" where
  "is_valid_node_key key \<longleftrightarrow>
     list_ex (\<lambda>ns. starts_with key ns \<and> starts_with (drop (length ns) key) '':'' \<and> length ns + 1 < length key)
       NODE_NAMESPACES"

definition to_key :: "Edge \<Rightarrow> string" where
  "to_key e = ''graph:edge:'' @ from_node e @ '':'' @ as_key_segment (edge_kind e) @ '':'' @ to_node e"

text \<open>The candidate at one index of the segments, and the scan from left to right.\<close>

definition edge_at :: "string list \<Rightarrow> nat \<Rightarrow> Edge option" where
  "edge_at segments i =
     (case from_key_segment (segments ! i) of
        None \<Rightarrow> None
      | Some kind \<Rightarrow>
          (let f = join '':'' (take i segments); t = join '':'' (drop (i + 1) segments)
           in if f \<noteq> [] \<and> t \<noteq> [] \<and> is_valid_node_key f \<and> is_valid_node_key t
              then Some \<lparr> from_node = f, edge_kind = kind, to_node = t \<rparr> else None))"

fun first_some :: "('a \<Rightarrow> 'b option) \<Rightarrow> 'a list \<Rightarrow> 'b option" where
  "first_some f [] = None"
| "first_some f (x # xs) = (case f x of None \<Rightarrow> first_some f xs | Some y \<Rightarrow> Some y)"

definition from_key :: "string \<Rightarrow> Edge option" where
  "from_key key =
     (case strip_prefix key ''graph:edge:'' of
        None \<Rightarrow> None
      | Some rest \<Rightarrow>
          (let segments = split_char CHR '':'' rest
           in first_some (edge_at segments) [1..<length segments - 1]))"

subsection \<open>Lemmas\<close>

lemma from_key_segment_as [simp]: "from_key_segment (as_key_segment k) = Some k"
  by (cases k) (simp_all add: from_key_segment_def)

lemma as_key_segment_from: "from_key_segment s = Some k \<Longrightarrow> as_key_segment k = s"
  by (auto simp: from_key_segment_def split: if_splits)

lemma as_key_segment_no_colon [simp]: "CHR '':'' \<notin> set (as_key_segment k)"
  by (cases k) simp_all

lemma first_some_Some: "first_some f xs = Some y \<Longrightarrow> \<exists>x\<in>set xs. f x = Some y"
  by (induction xs) (auto split: option.splits)

lemma first_some_append:
  "\<forall>x\<in>set xs. f x = None \<Longrightarrow> first_some f (xs @ ys) = first_some f ys"
  by (induction xs) simp_all

lemma valid_node_key_colon: "is_valid_node_key key \<Longrightarrow> CHR '':'' \<in> set key \<and> key \<noteq> []"
  by (auto simp: is_valid_node_key_def list_ex_iff NODE_NAMESPACES_def starts_with_iff)

lemma split_key:
  "split_char CHR '':'' (f @ '':'' @ as_key_segment k @ '':'' @ t)
     = split_char CHR '':'' f @ [as_key_segment k] @ split_char CHR '':'' t"
  by (simp add: split_char_append split_char_no_delim)

text \<open>A key that parses is the key of the edge it parses to, so no two keys hold the same edge.\<close>

lemma to_key_from_key:
  assumes "from_key key = Some e"
  shows "to_key e = key" and "is_valid_node_key (from_node e)" and "is_valid_node_key (to_node e)"
proof -
  obtain rest where rest: "key = ''graph:edge:'' @ rest"
    and fs: "first_some (edge_at (split_char CHR '':'' rest)) [1..<length (split_char CHR '':'' rest) - 1] = Some e"
    using assms by (auto simp: from_key_def Let_def strip_prefix_Some split: option.splits)
  define ss where "ss = split_char CHR '':'' rest"
  obtain i where i: "1 \<le> i" "i < length ss - 1" and e: "edge_at ss i = Some e"
    using first_some_Some [OF fs] by (auto simp: ss_def)
  obtain kind where kind: "from_key_segment (ss ! i) = Some kind"
    and e': "e = \<lparr> from_node = join '':'' (take i ss), edge_kind = kind, to_node = join '':'' (drop (i + 1) ss) \<rparr>"
    and v: "is_valid_node_key (from_node e)" "is_valid_node_key (to_node e)"
    using e by (auto simp: edge_at_def Let_def split: option.splits if_splits)
  have ss: "ss = take i ss @ [ss ! i] @ drop (i + 1) ss"
    using i by (simp add: id_take_nth_drop)
  have "join '':'' ss = join '':'' (take i ss) @ '':'' @ ss ! i @ '':'' @ join '':'' (drop (i + 1) ss)"
  proof -
    have "join '':'' (xs @ [x] @ ys) = join '':'' xs @ '':'' @ x @ '':'' @ join '':'' ys"
      if "xs \<noteq> []" "ys \<noteq> []" for x :: string and xs ys
      using that by (cases ys) (simp_all add: join_append)
    moreover have "take i ss \<noteq> []" "drop (i + 1) ss \<noteq> []" using i by auto
    ultimately show ?thesis using ss by metis
  qed
  then have "rest = from_node e @ '':'' @ as_key_segment kind @ '':'' @ to_node e"
    using as_key_segment_from [OF kind] by (simp add: e' ss_def join_split_char)
  then show "to_key e = key" by (simp add: to_key_def rest e')
  show "is_valid_node_key (from_node e)" "is_valid_node_key (to_node e)" using v .
qed

lemma from_key_inject: "from_key k = Some e \<Longrightarrow> from_key k' = Some e \<Longrightarrow> k = k'"
  by (metis to_key_from_key(1))

text \<open>
  The edges whose key reads back: two node keys, and no segment of the source node from the third on
  that spells a kind.
\<close>

definition plain_edge :: "Edge \<Rightarrow> bool" where
  "plain_edge e \<longleftrightarrow> is_valid_node_key (from_node e) \<and> is_valid_node_key (to_node e)
     \<and> list_all (\<lambda>s. from_key_segment s = None) (drop 2 (split_char CHR '':'' (from_node e)))"

lemma from_key_to_key:
  assumes "plain_edge e"
  shows "from_key (to_key e) = Some e"
proof -
  define fs where "fs = split_char CHR '':'' (from_node e)"
  define ts where "ts = split_char CHR '':'' (to_node e)"
  define ss where "ss = fs @ [as_key_segment (edge_kind e)] @ ts"
  have v: "is_valid_node_key (from_node e)" "is_valid_node_key (to_node e)"
    and nk: "\<forall>s\<in>set (drop 2 fs). from_key_segment s = None"
    using assms by (auto simp: plain_edge_def fs_def list_all_iff)
  have len: "1 \<le> length fs" "1 \<le> length ts" by (simp_all add: fs_def ts_def Suc_leI)
  have none: "edge_at ss j = None" if jr: "j \<in> set [1..<length fs]" for j
  proof (cases "j = 1")
    case True
    have "hd fs \<in> set (split_char CHR '':'' (from_node e))" by (simp add: fs_def)
    then have "CHR '':'' \<notin> set (hd fs)" by (rule split_char_pieces)
    moreover have "take 1 ss = [hd fs]" using len by (cases fs) (simp_all add: ss_def)
    ultimately have "\<not> is_valid_node_key (join '':'' (take 1 ss))"
      using valid_node_key_colon by auto
    then show ?thesis by (simp add: edge_at_def Let_def True split: option.split)
  next
    case False
    then obtain i where "j = 2 + i" "j < length fs" using jr le_Suc_ex [of 2 j] by auto
    then have "ss ! j = drop 2 fs ! i" "i < length (drop 2 fs)"
      by (simp_all add: ss_def nth_append)
    then have "from_key_segment (ss ! j) = None" using nk nth_mem by metis
    then show ?thesis by (simp add: edge_at_def)
  qed
  have found: "edge_at ss (length fs) = Some e"
    using v valid_node_key_colon [OF v(1)] valid_node_key_colon [OF v(2)]
    by (cases e) (simp add: edge_at_def Let_def ss_def fs_def ts_def join_split_char)
  have "[1..<length ss - 1] = [1..<length fs] @ length fs # [Suc (length fs)..<length ss - 1]"
  proof -
    have "[1..<length ss - 1] = [1..<length fs] @ [length fs..<length ss - 1]"
      using len upt_add_eq_append [of 1 "length fs" "length ts"] by (simp add: ss_def)
    moreover have "[length fs..<length ss - 1] = length fs # [Suc (length fs)..<length ss - 1]"
      by (rule upt_conv_Cons) (use len in \<open>auto simp: ss_def\<close>)
    ultimately show ?thesis by simp
  qed
  then have "first_some (edge_at ss) [1..<length ss - 1] = Some e"
    using none found by (simp add: first_some_append)
  moreover have "split_char CHR '':'' (from_node e @ '':'' @ as_key_segment (edge_kind e) @ '':'' @ to_node e) = ss"
    using split_key [of "from_node e" "edge_kind e" "to_node e"] by (simp add: ss_def fs_def ts_def)
  ultimately show ?thesis
    by (simp only: from_key_def to_key_def strip_prefix_append option.case Let_def)
qed

subsection \<open>Properties\<close>

text \<open>
  Reading a persisted edge back gives the edge: for two node keys such that no segment of the source
  key after its first colon-separated name spells an edge kind, \<open>from_key\<close> of \<open>to_key\<close> is the edge. In
  particular a slug that is itself a kind name, as in \<open>gotcha:touched\<close>, is read correctly.
\<close>

theorem edge_key_roundtrip:
  assumes "is_valid_node_key (from_node e)" and "is_valid_node_key (to_node e)"
    and "list_all (\<lambda>s. from_key_segment s = None) (drop 2 (split_char CHR '':'' (from_node e)))"
  shows "from_key (to_key e) = Some e"
  using assms by (intro from_key_to_key) (simp add: plain_edge_def)

theorem edge_key_roundtrip_witness:
  "from_key (to_key \<lparr> from_node = ''gotcha:touched'', edge_kind = Touched, to_node = ''session:1'' \<rparr>)
     = Some \<lparr> from_node = ''gotcha:touched'', edge_kind = Touched, to_node = ''session:1'' \<rparr>"
  by (rule edge_key_roundtrip) (simp_all add: is_valid_node_key_def NODE_NAMESPACES_def starts_with_def)

text \<open>
  A key that is accepted names exactly one edge and is that edge's own key, and both of its ends are
  keys of known namespaces; a corrupt key never yields an edge that persists under another key.
\<close>

theorem edge_key_sound:
  assumes "from_key key = Some e"
  shows "to_key e = key \<and> is_valid_node_key (from_node e) \<and> is_valid_node_key (to_node e)"
  using to_key_from_key [OF assms] by blast

theorem edge_key_sound_witness:
  "to_key \<lparr> from_node = ''file:a'', edge_kind = Imports, to_node = ''file:b'' \<rparr> = ''graph:edge:file:a:imports:file:b''"
proof -
  have "from_key ''graph:edge:file:a:imports:file:b''
      = Some \<lparr> from_node = ''file:a'', edge_kind = Imports, to_node = ''file:b'' \<rparr>"
    by (simp add: from_key_def strip_prefix_def starts_with_def Let_def edge_at_def upt_rec
        from_key_segment_def is_valid_node_key_def NODE_NAMESPACES_def)
  from edge_key_sound [OF this] show ?thesis by blast
qed

end
