(* ===== verification/Repair.thy ===== *)
theory Repair
  imports Store Edges "HOL-Library.AList"
begin

section \<open>Reconciliation of the gotcha indexes (\<open>store/repair.rs\<close>)\<close>

text \<open>
  The gotcha records are the truth; the \<open>gotcha_keys\<close> of the file records and the \<open>HasGotcha\<close> edges
  are derived from them. This theory models the dirty marker, the diff of the derived state against
  the desired one, and the full and the fast repair. A \<open>BTreeSet\<close> is a strictly sorted list. A \<open>HashMap\<close> is
  an association list in the order of insertion; the order in which the real map is walked shows only in the
  order of the entries of a report. \<open>now\<close> and the device id of a record that is written are
  a \<open>stamp\<close>.
\<close>

record stamp =
  st_now :: u64
  st_device :: DeviceId

definition DIRTY_MARKER_KEY :: string where
  "DIRTY_MARKER_KEY = ''analytics:integrity:gotcha_links''"

record DriftEntry =
  d_gotcha_key :: string
  d_file_path :: string

record RepairReport =
  scanned_gotchas :: nat
  scanned_files :: nat
  missing_file_links :: "DriftEntry list"
  stale_file_links :: "DriftEntry list"
  missing_edges :: "DriftEntry list"
  stale_edges :: "DriftEntry list"
  repaired_count :: nat
  verification_passed :: bool
  dirty_marker_cleared :: bool

definition has_drift :: "RepairReport \<Rightarrow> bool" where
  "has_drift r \<longleftrightarrow> missing_file_links r \<noteq> [] \<or> stale_file_links r \<noteq> []
     \<or> missing_edges r \<noteq> [] \<or> stale_edges r \<noteq> []"

definition total_drift :: "RepairReport \<Rightarrow> nat" where
  "total_drift r = length (missing_file_links r) + length (stale_file_links r)
     + length (missing_edges r) + length (stale_edges r)"

record DirtyMarker =
  dirty :: bool
  dirty_since :: u64
  cause :: string
  affected_keys :: "string list"
  last_checked_at :: u64
  last_repaired_at :: u64

definition clean :: DirtyMarker where
  "clean = \<lparr> dirty = False, dirty_since = 0, cause = [], affected_keys = [], last_checked_at = 0, last_repaired_at = 0 \<rparr>"

subsection \<open>The dirty marker\<close>

text \<open>The record that carries a payload of the analytics namespace, as every writer of such a record builds it.\<close>

definition analytics_stub :: "string \<Rightarrow> string \<Rightarrow> 'j option \<Rightarrow> u64 \<Rightarrow> stamp \<Rightarrow> 'j Record" where
  "analytics_stub key val payload created st =
     \<lparr> r_key = key, r_value = val, r_category = Analytics, r_priority = Normal, r_tags = [],
       r_created_at = created, r_updated_at = st_now st, r_ref_url = None, r_staleness = fresh,
       r_lifecycle = Active,
       r_version = \<lparr> device_id = st_device st, logical_clock = 1, wall_clock = st_now st \<rparr>,
       r_quality = quality_layer0_default, r_access_count = 0, r_last_accessed = 0,
       r_source = StaticAnalysis, r_confidence = confidence_for_new_record StaticAnalysis,
       r_gap_analysis_score = r32 0, r_payload = payload \<rparr>"

definition read_dirty_marker ::
  "('t, 'x, 'v, 'j) store_api \<Rightarrow> ('j, DirtyMarker) serde \<Rightarrow> ('t, 'x) Store \<Rightarrow> DirtyMarker option" where
  "read_dirty_marker A M S =
     (case store_get A S DIRTY_MARKER_KEY of
        Inr (Some r) \<Rightarrow> payload_as (from_value M) r
      | _ \<Rightarrow> None)"

definition is_dirty ::
  "('t, 'x, 'v, 'j) store_api \<Rightarrow> ('j, DirtyMarker) serde \<Rightarrow> ('t, 'x) Store \<Rightarrow> bool" where
  "is_dirty A M S = unwrap_or (map_option dirty (read_dirty_marker A M S)) False"

definition write_marker ::
  "('t, 'x, 'v, 'j) store_api \<Rightarrow> ('j, DirtyMarker) serde \<Rightarrow> stamp \<Rightarrow> ('t, 'x) Store \<Rightarrow> string \<Rightarrow> DirtyMarker
   \<Rightarrow> ('t, 'x) Store" where
  "write_marker A M st S val marker =
     fst (store_put A S DIRTY_MARKER_KEY (analytics_stub DIRTY_MARKER_KEY val (to_value M marker) (st_now st) st))"

definition flag_marker :: "u64 \<Rightarrow> string \<Rightarrow> string \<Rightarrow> DirtyMarker \<Rightarrow> DirtyMarker" where
  "flag_marker now key why m =
     m\<lparr> dirty := True,
        dirty_since := (if dirty_since m = 0 then now else dirty_since m),
        cause := why,
        affected_keys := (if key \<in> set (affected_keys m) then affected_keys m else affected_keys m @ [key]) \<rparr>"

definition mark_dirty ::
  "('t, 'x, 'v, 'j) store_api \<Rightarrow> ('j, DirtyMarker) serde \<Rightarrow> stamp \<Rightarrow> ('t, 'x) Store \<Rightarrow> string \<Rightarrow> string
   \<Rightarrow> ('t, 'x) Store" where
  "mark_dirty A M st S gotcha_key why =
     write_marker A M st S why
       (flag_marker (st_now st) gotcha_key why (unwrap_or (read_dirty_marker A M S) clean))"

definition cleared_marker :: "u64 \<Rightarrow> DirtyMarker \<Rightarrow> DirtyMarker" where
  "cleared_marker now m = m\<lparr> dirty := False, affected_keys := [], last_repaired_at := now \<rparr>"

definition clear_dirty_key_if_solo ::
  "('t, 'x, 'v, 'j) store_api \<Rightarrow> ('j, DirtyMarker) serde \<Rightarrow> stamp \<Rightarrow> ('t, 'x) Store \<Rightarrow> string \<Rightarrow> ('t, 'x) Store" where
  "clear_dirty_key_if_solo A M st S gotcha_key =
     (case read_dirty_marker A M S of
        None \<Rightarrow> S
      | Some m \<Rightarrow>
          (if \<not> dirty m then S
           else if affected_keys m \<noteq> [gotcha_key] then S
           else write_marker A M st S [] (cleared_marker (st_now st) m)))"

definition clear_dirty_marker ::
  "('t, 'x, 'v, 'j) store_api \<Rightarrow> ('j, DirtyMarker) serde \<Rightarrow> stamp \<Rightarrow> ('t, 'x) Store \<Rightarrow> ('t, 'x) Store" where
  "clear_dirty_marker A M st S =
     (case read_dirty_marker A M S of
        None \<Rightarrow> S
      | Some m \<Rightarrow> write_marker A M st S [] (cleared_marker (st_now st) m))"

subsection \<open>The gotcha keys of a file record\<close>

definition extract_gotcha_keys :: "'j json_api \<Rightarrow> 'j Record \<Rightarrow> string list" where
  "extract_gotcha_keys J r =
     (case r_payload r of
        None \<Rightarrow> []
      | Some p \<Rightarrow>
          (case j_get J p ''gotcha_keys'' of
             None \<Rightarrow> []
           | Some v \<Rightarrow> (case j_as_array J v of None \<Rightarrow> [] | Some arr \<Rightarrow> List.map_filter (j_as_str J) arr)))"

definition set_gotcha_keys :: "'j json_api \<Rightarrow> 'j Record \<Rightarrow> string list \<Rightarrow> 'j Record" where
  "set_gotcha_keys J r keys =
     (case r_payload r of
        None \<Rightarrow> r
      | Some p \<Rightarrow>
          (if j_is_object J p
           then r\<lparr>r_payload := Some (j_insert J p ''gotcha_keys'' (j_array J (map (j_string J) keys)))\<rparr>
           else r))"

text \<open>The stamp every repaired record gets; the clock wraps in the release profile.\<close>

definition touch :: "u64 \<Rightarrow> 'j Record \<Rightarrow> 'j Record" where
  "touch now r =
     r\<lparr> r_updated_at := now,
        r_version := (r_version r)\<lparr> logical_clock := logical_clock (r_version r) + 1, wall_clock := now \<rparr> \<rparr>"

definition file_key :: "string \<Rightarrow> string" where
  "file_key path = ''file:'' @ path"

definition file_path_of :: "string \<Rightarrow> string" where
  "file_path_of key = unwrap_or (strip_prefix key ''file:'') key"

definition gotcha_edge :: "string \<Rightarrow> string \<Rightarrow> Edge" where
  "gotcha_edge path key = \<lparr> from_node = file_key path, edge_kind = HasGotcha, to_node = key \<rparr>"

subsection \<open>Desired and actual state\<close>

type_synonym link_map = "(string \<times> string list) list"

definition add_link :: "link_map \<Rightarrow> string \<Rightarrow> string \<Rightarrow> link_map" where
  "add_link m path key = AList.update path (List.insort_insert key (unwrap_or (map_of m path) [])) m"

definition desire_gotcha ::
  "('j, GotchaRecord) serde \<Rightarrow> link_map \<times> (string \<times> string) list \<Rightarrow> 'j Record \<Rightarrow> link_map \<times> (string \<times> string) list" where
  "desire_gotcha G acc r =
     (if r_lifecycle r \<noteq> Active then acc
      else case payload_as (from_value G) r of
             None \<Rightarrow> acc
           | Some g \<Rightarrow>
               foldl (\<lambda>acc path. (add_link (fst acc) path (r_key r), List.insort_insert (path, r_key r) (snd acc)))
                 acc (g_affected_files g))"

definition derive_desired_state ::
  "('t, 'x, 'v, 'j) store_api \<Rightarrow> ('j, GotchaRecord) serde \<Rightarrow> ('t, 'x) Store
   \<Rightarrow> (store_error, link_map \<times> (string \<times> string) list \<times> nat) result" where
  "derive_desired_state A G S =
     rbind (scan_prefix A S ''gotcha:'') (\<lambda>gotchas.
       let d = foldl (desire_gotcha G) ([], []) gotchas in Ok (fst d, snd d, length gotchas))"

definition read_actual_file_links ::
  "('t, 'x, 'v, 'j) store_api \<Rightarrow> 'j json_api \<Rightarrow> ('t, 'x) Store \<Rightarrow> (store_error, link_map \<times> nat) result" where
  "read_actual_file_links A J S =
     rbind (scan_prefix A S ''file:'') (\<lambda>files.
       Ok (foldl (\<lambda>m r. if extract_gotcha_keys J r = [] then m
                        else AList.update (file_path_of (r_key r)) (extract_gotcha_keys J r) m) [] files,
           length files))"

definition edge_pair :: "string \<Rightarrow> (string \<times> string) option" where
  "edge_pair key =
     (case from_key key of
        None \<Rightarrow> None
      | Some e \<Rightarrow> if edge_kind e = HasGotcha then Some (file_path_of (from_node e), to_node e) else None)"

definition read_actual_edges ::
  "('t, 'x, 'v, 'j) store_api \<Rightarrow> ('t, 'x) Store \<Rightarrow> (store_error, (string \<times> string) list) result" where
  "read_actual_edges A S =
     rbind (scan_keys A S ''graph:edge:'') (\<lambda>keys.
       Ok (foldl (\<lambda>es p. List.insort_insert p es) [] (List.map_filter edge_pair keys)))"

definition drift_entry :: "string \<Rightarrow> string \<Rightarrow> DriftEntry" where
  "drift_entry path key = \<lparr> d_gotcha_key = key, d_file_path = path \<rparr>"

definition diff_file_links :: "link_map \<Rightarrow> link_map \<Rightarrow> DriftEntry list \<times> DriftEntry list" where
  "diff_file_links desired actual =
     (concat (map (\<lambda>(path, keys). map (drift_entry path)
                (filter (\<lambda>k. k \<notin> set (unwrap_or (map_of actual path) [])) keys)) desired),
      concat (map (\<lambda>(path, keys). map (drift_entry path)
                (filter (\<lambda>k. k \<notin> set (unwrap_or (map_of desired path) [])) keys)) actual))"

definition diff_edges ::
  "(string \<times> string) list \<Rightarrow> (string \<times> string) list \<Rightarrow> DriftEntry list \<times> DriftEntry list" where
  "diff_edges desired actual =
     (map (\<lambda>(path, key). drift_entry path key) (filter (\<lambda>p. p \<notin> set actual) desired),
      map (\<lambda>(path, key). drift_entry path key) (filter (\<lambda>p. p \<notin> set desired) actual))"

definition check_gotcha_indexes ::
  "('t, 'x, 'v, 'j) store_api \<Rightarrow> 'j json_api \<Rightarrow> ('j, GotchaRecord) serde \<Rightarrow> ('t, 'x) Store
   \<Rightarrow> (store_error, RepairReport) result" where
  "check_gotcha_indexes A J G S =
     rbind (derive_desired_state A G S) (\<lambda>(desired_links, desired_edges, ng).
     rbind (read_actual_file_links A J S) (\<lambda>(actual_links, nf).
     rbind (read_actual_edges A S) (\<lambda>actual_edges.
       let fl = diff_file_links desired_links actual_links; de = diff_edges desired_edges actual_edges
       in Ok \<lparr> scanned_gotchas = ng, scanned_files = nf, missing_file_links = fst fl, stale_file_links = snd fl,
               missing_edges = fst de, stale_edges = snd de, repaired_count = 0,
               verification_passed = True, dirty_marker_cleared = False \<rparr>)))"

subsection \<open>Full repair\<close>

text \<open>The store and the number of writes that succeeded.\<close>

type_synonym ('t, 'x) progress = "('t, 'x) Store \<times> nat"

definition count_ok :: "nat \<Rightarrow> ('t, 'x, unit) store_result \<Rightarrow> ('t, 'x) progress" where
  "count_ok n res = (fst res, case snd res of Inl _ \<Rightarrow> n | Inr _ \<Rightarrow> n + 1)"

definition rewrite_links ::
  "('t, 'x, 'v, 'j) store_api \<Rightarrow> 'j json_api \<Rightarrow> u64 \<Rightarrow> ('t, 'x) progress \<Rightarrow> string \<Rightarrow> 'j Record \<Rightarrow> string list
   \<Rightarrow> ('t, 'x) progress" where
  "rewrite_links A J now p key r keys = count_ok (snd p) (store_put A (fst p) key (touch now (set_gotcha_keys J r keys)))"

definition repair_link ::
  "('t, 'x, 'v, 'j) store_api \<Rightarrow> 'j json_api \<Rightarrow> u64 \<Rightarrow> ('t, 'x) progress \<Rightarrow> string \<times> string list \<Rightarrow> ('t, 'x) progress" where
  "repair_link A J now p d =
     (case store_get A (fst p) (file_key (fst d)) of
        Inr (Some r) \<Rightarrow>
          (if extract_gotcha_keys J r \<noteq> snd d then rewrite_links A J now p (file_key (fst d)) r (snd d) else p)
      | _ \<Rightarrow> p)"

definition clear_links ::
  "('t, 'x, 'v, 'j) store_api \<Rightarrow> 'j json_api \<Rightarrow> u64 \<Rightarrow> link_map \<Rightarrow> ('t, 'x) progress \<Rightarrow> string \<times> string list
   \<Rightarrow> ('t, 'x) progress" where
  "clear_links A J now desired p a =
     (if map_of desired (fst a) = None \<and> snd a \<noteq> []
      then (case store_get A (fst p) (file_key (fst a)) of
              Inr (Some r) \<Rightarrow> rewrite_links A J now p (file_key (fst a)) r []
            | _ \<Rightarrow> p)
      else p)"

definition put_edge ::
  "('t, 'x, 'v, 'j) store_api \<Rightarrow> u64 \<Rightarrow> ('t, 'x) progress \<Rightarrow> DriftEntry \<Rightarrow> ('t, 'x) progress" where
  "put_edge A now p e =
     count_ok (snd p) (put_raw A (fst p) (to_key (gotcha_edge (d_file_path e) (d_gotcha_key e))) (of_bytes A (to_le_bytes now)))"

definition drop_edge ::
  "('t, 'x, 'v, 'j) store_api \<Rightarrow> ('t, 'x) progress \<Rightarrow> DriftEntry \<Rightarrow> ('t, 'x) progress" where
  "drop_edge A p e = count_ok (snd p) (store_delete A (fst p) (to_key (gotcha_edge (d_file_path e) (d_gotcha_key e))))"

definition repair_full ::
  "('t, 'x, 'v, 'j) store_api \<Rightarrow> 'j json_api \<Rightarrow> ('j, GotchaRecord) serde \<Rightarrow> ('j, DirtyMarker) serde \<Rightarrow> stamp
   \<Rightarrow> ('t, 'x) Store \<Rightarrow> ('t, 'x, RepairReport) store_result" where
  "repair_full A J G M st S =
     (case check_gotcha_indexes A J G S of
        Inl e \<Rightarrow> (S, Err e)
      | Inr rep \<Rightarrow>
          (case derive_desired_state A G S of
             Inl e \<Rightarrow> (S, Err e)
           | Inr (desired, _, _) \<Rightarrow>
               (if total_drift rep = 0
                then (clear_dirty_marker A M st S, Ok (rep\<lparr>dirty_marker_cleared := True\<rparr>))
                else let p1 = foldl (repair_link A J (st_now st)) (S, 0) desired
                     in case read_actual_file_links A J (fst p1) of
                          Inl e \<Rightarrow> (fst p1, Err e)
                        | Inr (actual2, _) \<Rightarrow>
                            (let p2 = foldl (clear_links A J (st_now st) desired) p1 actual2;
                                 p3 = foldl (put_edge A (st_now st)) p2 (missing_edges rep);
                                 p4 = foldl (drop_edge A) p3 (stale_edges rep)
                             in case check_gotcha_indexes A J G (fst p4) of
                                  Inl e \<Rightarrow> (fst p4, Err e)
                                | Inr verify \<Rightarrow>
                                    (let ok = \<not> has_drift verify
                                     in (if ok then clear_dirty_marker A M st (fst p4) else fst p4,
                                         Ok (rep\<lparr> repaired_count := snd p4, verification_passed := ok,
                                                  dirty_marker_cleared := ok \<rparr>)))))))"

subsection \<open>Fast repair\<close>

definition idle_report :: "nat \<Rightarrow> nat \<Rightarrow> RepairReport" where
  "idle_report n repaired =
     \<lparr> scanned_gotchas = n, scanned_files = 0, missing_file_links = [], stale_file_links = [], missing_edges = [],
       stale_edges = [], repaired_count = repaired, verification_passed = True, dirty_marker_cleared = 0 < repaired \<rparr>"

definition desired_files ::
  "('t, 'x, 'v, 'j) store_api \<Rightarrow> ('j, GotchaRecord) serde \<Rightarrow> ('t, 'x) Store \<Rightarrow> string \<Rightarrow> (store_error, string list) result" where
  "desired_files A G S key =
     rbind (store_get A S key) (\<lambda>m. Ok (case m of
        None \<Rightarrow> []
      | Some r \<Rightarrow>
          (if r_lifecycle r = Active
           then unwrap_or (map_option g_affected_files (payload_as (from_value G) r)) [] else [])))"

definition fast_add ::
  "('t, 'x, 'v, 'j) store_api \<Rightarrow> 'j json_api \<Rightarrow> u64 \<Rightarrow> string \<Rightarrow> ('t, 'x) progress \<Rightarrow> string \<Rightarrow> ('t, 'x) progress" where
  "fast_add A J now key p path =
     put_edge A now
       (case store_get A (fst p) (file_key path) of
          Inr (Some r) \<Rightarrow>
            (if key \<in> set (extract_gotcha_keys J r) then p
             else rewrite_links A J now p (file_key path) r (extract_gotcha_keys J r @ [key]))
        | _ \<Rightarrow> p)
       (drift_entry path key)"

definition fast_remove ::
  "('t, 'x, 'v, 'j) store_api \<Rightarrow> 'j json_api \<Rightarrow> u64 \<Rightarrow> string \<Rightarrow> string list \<Rightarrow> ('t, 'x) progress \<Rightarrow> 'j Record
   \<Rightarrow> ('t, 'x) progress" where
  "fast_remove A J now key desired p r =
     (if file_path_of (r_key r) \<in> set desired then p
      else let keys = extract_gotcha_keys J r;
               p1 = (if key \<in> set keys
                     then rewrite_links A J now p (r_key r) r (filter (\<lambda>k. k \<noteq> key) keys) else p)
           in (fst (store_delete A (fst p1) (to_key \<lparr> from_node = r_key r, edge_kind = HasGotcha, to_node = key \<rparr>)), snd p1))"

fun repair_keys ::
  "('t, 'x, 'v, 'j) store_api \<Rightarrow> 'j json_api \<Rightarrow> ('j, GotchaRecord) serde \<Rightarrow> u64 \<Rightarrow> ('t, 'x) progress \<Rightarrow> string list
   \<Rightarrow> ('t, 'x, nat) store_result" where
  "repair_keys A J G now p [] = (fst p, Ok (snd p))"
| "repair_keys A J G now p (key # keys) =
     (case desired_files A G (fst p) key of
        Inl e \<Rightarrow> (fst p, Err e)
      | Inr desired \<Rightarrow>
          (let p1 = foldl (fast_add A J now key) p desired
           in case scan_prefix A (fst p1) ''file:'' of
                Inl e \<Rightarrow> (fst p1, Err e)
              | Inr files \<Rightarrow> repair_keys A J G now (foldl (fast_remove A J now key desired) p1 files) keys))"

definition repair_fast ::
  "('t, 'x, 'v, 'j) store_api \<Rightarrow> 'j json_api \<Rightarrow> ('j, GotchaRecord) serde \<Rightarrow> ('j, DirtyMarker) serde \<Rightarrow> stamp
   \<Rightarrow> ('t, 'x) Store \<Rightarrow> ('t, 'x, RepairReport) store_result" where
  "repair_fast A J G M st S =
     (case read_dirty_marker A M S of
        None \<Rightarrow> (S, Ok (idle_report 0 0))
      | Some m \<Rightarrow>
          (if \<not> dirty m then (S, Ok (idle_report 0 0))
           else case repair_keys A J G (st_now st) (S, 0) (affected_keys m) of
                  (S1, Inl e) \<Rightarrow> (S1, Err e)
                | (S1, Inr n) \<Rightarrow>
                    (if 0 < n then clear_dirty_marker A M st S1 else S1, Ok (idle_report (length (affected_keys m)) n))))"

datatype RepairMode = Full | Fast

definition repair_gotcha_indexes ::
  "('t, 'x, 'v, 'j) store_api \<Rightarrow> 'j json_api \<Rightarrow> ('j, GotchaRecord) serde \<Rightarrow> ('j, DirtyMarker) serde \<Rightarrow> stamp
   \<Rightarrow> ('t, 'x) Store \<Rightarrow> RepairMode \<Rightarrow> ('t, 'x, RepairReport) store_result" where
  "repair_gotcha_indexes A J G M st S mode =
     (case mode of Fast \<Rightarrow> repair_fast A J G M st S | Full \<Rightarrow> repair_full A J G M st S)"

end
