(* ===== verification/Feedback.thy ===== *)
theory Feedback
  imports Repair
begin

section \<open>Enrichment feedback (\<open>health/enrichment.rs\<close>, \<open>store/extraction.rs\<close>, \<open>store/negative_exemplar.rs\<close>)\<close>

text \<open>
  The analytics records around gotchas that an agent extracted: the depth tier of a file, the outcome
  of an extraction and the archive of deleted rules. All writes are best effort.
\<close>

subsection \<open>Depth of the enrichment\<close>

datatype EnrichmentDepth = DepthFast | DepthStandard | DepthDeep

fun depth_as_str :: "EnrichmentDepth \<Rightarrow> string" where
  "depth_as_str DepthFast = ''fast''"
| "depth_as_str DepthStandard = ''standard''"
| "depth_as_str DepthDeep = ''deep''"

definition enrichment_score :: "u32 \<Rightarrow> BlastTier \<Rightarrow> u32 \<Rightarrow> nat \<Rightarrow> f32 option \<Rightarrow> nat" where
  "enrichment_score line_count blast_tier cluster_size gotcha_count comment_density =
     (if 400 \<le> line_count then 3 else if 100 \<le> line_count then 1 else 0)
     + (if blast_tier = Moderate \<or> blast_tier = BlastHigh \<or> blast_tier = BlastCritical then 2 else 0)
     + (if 5 \<le> cluster_size then 2 else 0)
     + (if 3 \<le> gotcha_count then 2 else 0)
     + (case comment_density of None \<Rightarrow> 0 | Some d \<Rightarrow> if flt_ge d (r32 (15/100)) then 1 else 0)"

definition enrichment_depth :: "u32 \<Rightarrow> BlastTier \<Rightarrow> u32 \<Rightarrow> nat \<Rightarrow> f32 option \<Rightarrow> EnrichmentDepth" where
  "enrichment_depth line_count blast_tier cluster_size gotcha_count comment_density =
     (let score = enrichment_score line_count blast_tier cluster_size gotcha_count comment_density
      in if score \<le> 1 then DepthFast else if score \<le> 4 then DepthStandard else DepthDeep)"

subsection \<open>Extraction outcomes\<close>

definition EXTRACTION_PREFIX :: string where "EXTRACTION_PREFIX = ''analytics:extraction:''"

datatype ExtractionOutcome = OutcomePending | OutcomeConfirmed | OutcomeTombstoned

fun outcome_debug :: "ExtractionOutcome \<Rightarrow> string" where
  "outcome_debug OutcomePending = ''Pending''"
| "outcome_debug OutcomeConfirmed = ''Confirmed''"
| "outcome_debug OutcomeTombstoned = ''Tombstoned''"

datatype SignalSource = Ast | Llm

fun source_as_str :: "SignalSource \<Rightarrow> string" where
  "source_as_str Ast = ''ast''"
| "source_as_str Llm = ''llm''"

record ExtractionConfig =
  signal_source :: SignalSource
  with_negative_exemplars :: bool

definition default_config :: ExtractionConfig where
  "default_config = \<lparr> signal_source = Llm, with_negative_exemplars = False \<rparr>"

definition config_label :: "ExtractionConfig \<Rightarrow> string" where
  "config_label c = source_as_str (signal_source c) @ ''+'' @ (if with_negative_exemplars c then ''neg'' else ''no_neg'')"

record ExtractionRecord =
  x_gotcha_key :: string
  x_depth :: "EnrichmentDepth option"
  x_file_path :: string
  x_created_at :: u64
  x_outcome :: ExtractionOutcome
  x_outcome_at :: "u64 option"
  x_config :: ExtractionConfig

definition days_to_outcome :: "ExtractionRecord \<Rightarrow> u64 option" where
  "days_to_outcome x = map_option (\<lambda>t. sat_sub t (x_created_at x) div 86400) (x_outcome_at x)"

definition slug_of :: "string \<Rightarrow> string" where
  "slug_of gotcha_key = unwrap_or (strip_prefix gotcha_key ''gotcha:'') gotcha_key"

definition key_for :: "string \<Rightarrow> string" where
  "key_for gotcha_key = EXTRACTION_PREFIX @ slug_of gotcha_key"

record TagClassification =
  is_enriched :: bool
  tag_depth :: "EnrichmentDepth option"
  tag_config :: ExtractionConfig

definition depth_of_tag :: "string \<Rightarrow> EnrichmentDepth option" where
  "depth_of_tag s = (if s = ''fast'' then Some DepthFast else if s = ''standard'' then Some DepthStandard
     else if s = ''deep'' then Some DepthDeep else None)"

definition classify_tag :: "TagClassification \<Rightarrow> string \<Rightarrow> TagClassification" where
  "classify_tag t tag =
     (if tag = ''enriched'' then t\<lparr>is_enriched := True\<rparr>
      else if tag = ''with-neg-exemplars'' then t\<lparr>tag_config := (tag_config t)\<lparr>with_negative_exemplars := True\<rparr>\<rparr>
      else case strip_prefix tag ''depth:'' of
        Some rest \<Rightarrow> t\<lparr>tag_depth := depth_of_tag rest\<rparr>
      | None \<Rightarrow>
          (case strip_prefix tag ''signal-source:'' of
             Some rest \<Rightarrow>
               t\<lparr>tag_config := (tag_config t)\<lparr>signal_source :=
                   (if rest = ''ast'' then Ast else if rest = ''llm'' then Llm else signal_source (tag_config t))\<rparr>\<rparr>
           | None \<Rightarrow> t))"

definition classify_tags :: "string list \<Rightarrow> TagClassification" where
  "classify_tags tags = foldl classify_tag \<lparr> is_enriched = False, tag_depth = None, tag_config = default_config \<rparr> tags"

text \<open>\<open>updated_at\<close> and the version clock are read one after the other.\<close>

definition extraction_record ::
  "('j, ExtractionRecord) serde \<Rightarrow> stamp \<Rightarrow> u64 \<Rightarrow> string \<Rightarrow> ExtractionRecord \<Rightarrow> u64 \<Rightarrow> 'j Record" where
  "extraction_record X st wall key payload created_at =
     (let r = analytics_stub key
            (outcome_debug (x_outcome payload) @ '' ('' @ unwrap_or (map_option depth_as_str (x_depth payload)) ''unknown'' @ '')'')
            (to_value X payload) created_at st
      in r\<lparr>r_version := (r_version r)\<lparr>wall_clock := wall\<rparr>\<rparr>)"

definition put_flag :: "('t, 'x, unit) store_result \<Rightarrow> ('t, 'x, bool) store_result" where
  "put_flag res = (fst res, case snd res of Inl _ \<Rightarrow> Ok False | Inr _ \<Rightarrow> Ok True)"

definition write_on_extraction ::
  "('t, 'x, 'v, 'j) store_api \<Rightarrow> ('j, ExtractionRecord) serde \<Rightarrow> u64 \<Rightarrow> stamp \<Rightarrow> u64 \<Rightarrow> ('t, 'x) Store
   \<Rightarrow> string \<Rightarrow> string list \<Rightarrow> string list \<Rightarrow> ('t, 'x, bool) store_result" where
  "write_on_extraction A X ts st wall S gotcha_key tags affected_files =
     (let c = classify_tags tags
      in if \<not> is_enriched c then (S, Ok False)
         else let x = \<lparr> x_gotcha_key = gotcha_key, x_depth = tag_depth c,
                        x_file_path = (case affected_files of [] \<Rightarrow> [] | f # _ \<Rightarrow> f), x_created_at = ts,
                        x_outcome = OutcomePending, x_outcome_at = None, x_config = tag_config c \<rparr>;
                  key = key_for gotcha_key
              in put_flag (store_put A S key (extraction_record X st wall key x ts)))"

definition mark_outcome ::
  "('t, 'x, 'v, 'j) store_api \<Rightarrow> ('j, ExtractionRecord) serde \<Rightarrow> u64 \<Rightarrow> stamp \<Rightarrow> u64 \<Rightarrow> ('t, 'x) Store
   \<Rightarrow> string \<Rightarrow> ExtractionOutcome \<Rightarrow> ('t, 'x, bool) store_result" where
  "mark_outcome A X now st wall S gotcha_key outcome =
     (let key = key_for gotcha_key
      in case store_get A S key of
           Inl e \<Rightarrow> (S, Err e)
         | Inr None \<Rightarrow> (S, Ok False)
         | Inr (Some r) \<Rightarrow>
             (case payload_as (from_value X) r of
                None \<Rightarrow> (S, Ok False)
              | Some x \<Rightarrow>
                  (if x_outcome x = outcome then (S, Ok False)
                   else let x' = x\<lparr>x_outcome := outcome, x_outcome_at := Some now\<rparr>
                        in put_flag (store_put A S key (extraction_record X st wall key x' (x_created_at x'))))))"

subsection \<open>Extraction statistics\<close>

record TierStats =
  ts_total :: u64
  ts_confirmed :: u64
  ts_tombstoned :: u64
  ts_pending :: u64

definition no_tier_stats :: TierStats where
  "no_tier_stats = \<lparr> ts_total = 0, ts_confirmed = 0, ts_tombstoned = 0, ts_pending = 0 \<rparr>"

text \<open>\<open>PerTierStats\<close> is the field \<open>es_per_tier\<close>, a function of the depth (\<open>None\<close> is \<open>unknown\<close>).\<close>

record ExtractionStats =
  es_total :: u64
  es_confirmed :: u64
  es_tombstoned :: u64
  es_pending :: u64
  es_expired :: u64
  es_per_tier :: "EnrichmentDepth option \<Rightarrow> TierStats"
  es_per_config :: "string \<rightharpoonup> TierStats"

definition no_extraction_stats :: ExtractionStats where
  "no_extraction_stats = \<lparr> es_total = 0, es_confirmed = 0, es_tombstoned = 0, es_pending = 0, es_expired = 0,
     es_per_tier = (\<lambda>_. no_tier_stats), es_per_config = Map.empty \<rparr>"

definition confirmed_rate :: "TierStats \<Rightarrow> f64 option" where
  "confirmed_rate t = (if ts_total t = 0 then None
     else case (r64 (of_nat (unat (ts_confirmed t))), r64 (of_nat (unat (ts_total t)))) of
            (Fin a, Fin b) \<Rightarrow> Some (r64 (a / b)) | _ \<Rightarrow> None)"

text \<open>One bucket: an expired extraction counts in no outcome of its tier.\<close>

definition count_tier :: "ExtractionOutcome \<Rightarrow> bool \<Rightarrow> TierStats \<Rightarrow> TierStats" where
  "count_tier outcome expired t0 =
     (let t = t0\<lparr>ts_total := ts_total t0 + 1\<rparr>
      in case outcome of
           OutcomeConfirmed \<Rightarrow> t\<lparr>ts_confirmed := ts_confirmed t + 1\<rparr>
         | OutcomeTombstoned \<Rightarrow> t\<lparr>ts_tombstoned := ts_tombstoned t + 1\<rparr>
         | OutcomePending \<Rightarrow> if expired then t else t\<lparr>ts_pending := ts_pending t + 1\<rparr>)"

definition count_extraction :: "u64 \<Rightarrow> u64 \<Rightarrow> ExtractionStats \<Rightarrow> ExtractionRecord \<Rightarrow> ExtractionStats" where
  "count_extraction since_secs expiry_cutoff s e =
     (if x_created_at e < since_secs then s
      else let expired = x_created_at e < expiry_cutoff;
               label = config_label (x_config e);
               s1 = s\<lparr> es_total := es_total s + 1,
                       es_per_tier := (es_per_tier s)(x_depth e := count_tier (x_outcome e) expired (es_per_tier s (x_depth e))),
                       es_per_config := (es_per_config s)(label \<mapsto>
                          count_tier (x_outcome e) expired (unwrap_or (es_per_config s label) no_tier_stats)) \<rparr>
           in case x_outcome e of
                OutcomeConfirmed \<Rightarrow> s1\<lparr>es_confirmed := es_confirmed s1 + 1\<rparr>
              | OutcomeTombstoned \<Rightarrow> s1\<lparr>es_tombstoned := es_tombstoned s1 + 1\<rparr>
              | OutcomePending \<Rightarrow>
                  (if expired then s1\<lparr>es_expired := es_expired s1 + 1\<rparr> else s1\<lparr>es_pending := es_pending s1 + 1\<rparr>))"

definition aggregate_stats :: "ExtractionRecord list \<Rightarrow> u64 \<Rightarrow> u64 \<Rightarrow> ExtractionStats" where
  "aggregate_stats extractions since_secs now =
     foldl (count_extraction since_secs (sat_sub now (90 * 86400))) no_extraction_stats extractions"

definition compute_stats ::
  "('t, 'x, 'v, 'j) store_api \<Rightarrow> ('j, ExtractionRecord) serde \<Rightarrow> u64 \<Rightarrow> ('t, 'x) Store \<Rightarrow> u64 \<Rightarrow> ExtractionStats" where
  "compute_stats A X now S since_secs =
     (let records = (case scan_prefix A S EXTRACTION_PREFIX of Inl _ \<Rightarrow> [] | Inr rs \<Rightarrow> rs)
      in aggregate_stats (List.map_filter (payload_as (from_value X)) records) since_secs now)"

subsection \<open>The archive of deleted rules\<close>

definition NEG_EXEMPLAR_PREFIX :: string where "NEG_EXEMPLAR_PREFIX = ''analytics:negative_exemplar:''"

record NegativeExemplar =
  n_gotcha_key :: string
  n_dirname :: string
  n_rule :: string
  n_reason :: string
  n_severity :: Priority
  n_tombstoned_at :: u64

definition make_key :: "string \<Rightarrow> string \<Rightarrow> string" where
  "make_key dirname slug = NEG_EXEMPLAR_PREFIX @ dirname @ '':'' @ slug"

text \<open>
  \<open>Path::parent\<close> on Unix: a trailing empty or \<open>.\<close> segment is ignored on both sides of the last component, unless \<open>.\<close> is
  the first segment of a relative path; the root and the empty path have no parent.
\<close>

definition trim_segments :: "string list \<Rightarrow> string list" where
  "trim_segments ss = rev (dropWhile (\<lambda>s. s = [] \<or> s = ''.'') (rev ss))"

definition trim_relative :: "string list \<Rightarrow> string list" where
  "trim_relative ss = (case ss of [] \<Rightarrow> []
     | s # rest \<Rightarrow> (let r = trim_segments rest in if r = [] then (if s = [] then [] else [s]) else s # r))"

definition path_parent :: "string \<Rightarrow> string option" where
  "path_parent p =
     (let ss = split_char CHR ''/'' p
      in if starts_with p ''/''
         then (let body = trim_segments (tl ss)
               in if body = [] then None else Some (''/'' @ join ''/'' (trim_segments (butlast body))))
         else (let body = trim_relative ss
               in if body = [] then None else Some (join ''/'' (trim_relative (butlast body)))))"

definition dirnames_of :: "string list \<Rightarrow> string list" where
  "dirnames_of affected_files =
     foldl (\<lambda>out p. let d = unwrap_or (path_parent p) [] in if d \<in> set out then out else out @ [d]) [] affected_files"

text \<open>The characters of a UTF-8 string: a byte and the continuation bytes after it.\<close>

function utf8_chars :: "string \<Rightarrow> string list" where
  "utf8_chars [] = []"
| "utf8_chars (c # s) = (c # takeWhile cont_byte s) # utf8_chars (dropWhile cont_byte s)"
  by pat_completeness auto
termination by (relation "measure length") (auto simp: le_imp_less_Suc length_dropWhile_le)

text \<open>The ellipsis is U+2026.\<close>

definition truncate_str :: "string \<Rightarrow> nat \<Rightarrow> string" where
  "truncate_str s n =
     (let cs = utf8_chars s
      in if length cs \<le> n then s else concat (take n cs) @ [CHR 0xE2, CHR 0x80, CHR 0xA6])"

definition exemplar_record ::
  "('j, NegativeExemplar) serde \<Rightarrow> u64 \<Rightarrow> (string \<Rightarrow> DeviceId) \<Rightarrow> string \<Rightarrow> string \<Rightarrow> string \<Rightarrow> Priority \<Rightarrow> string \<Rightarrow> 'j Record" where
  "exemplar_record N ts dev gotcha_key rule reason severity dirname =
     analytics_stub (make_key dirname (slug_of gotcha_key))
       (''tombstoned: '' @ truncate_str rule 60 @ '' (in '' @ (if dirname = [] then ''<root>'' else dirname) @ '')'')
       (to_value N \<lparr> n_gotcha_key = gotcha_key, n_dirname = dirname, n_rule = rule, n_reason = reason,
                     n_severity = severity, n_tombstoned_at = ts \<rparr>)
       ts \<lparr> st_now = ts, st_device = dev dirname \<rparr>"

definition write_on_tombstone ::
  "('t, 'x, 'v, 'j) store_api \<Rightarrow> ('j, NegativeExemplar) serde \<Rightarrow> u64 \<Rightarrow> (string \<Rightarrow> DeviceId) \<Rightarrow> ('t, 'x) Store
   \<Rightarrow> string \<Rightarrow> string \<Rightarrow> string \<Rightarrow> Priority \<Rightarrow> string list \<Rightarrow> ('t, 'x) progress" where
  "write_on_tombstone A N ts dev S gotcha_key rule reason severity affected_files =
     foldl (\<lambda>p dirname.
         let r = exemplar_record N ts dev gotcha_key rule reason severity dirname
         in count_ok (snd p) (store_put A (fst p) (r_key r) r))
       (S, 0) (dirnames_of affected_files)"

definition scan_recent_for_dirname ::
  "('t, 'x, 'v, 'j) store_api \<Rightarrow> ('j, NegativeExemplar) serde \<Rightarrow> ('t, 'x) Store \<Rightarrow> string \<Rightarrow> u64 \<Rightarrow> nat \<Rightarrow> NegativeExemplar list" where
  "scan_recent_for_dirname A N S dirname since_secs limit =
     (let records = (case scan_prefix A S (NEG_EXEMPLAR_PREFIX @ dirname @ '':'') of Inl _ \<Rightarrow> [] | Inr rs \<Rightarrow> rs);
          exemplars = filter (\<lambda>e. since_secs \<le> n_tombstoned_at e) (List.map_filter (payload_as (from_value N)) records)
      in take limit (sort_key (\<lambda>e. - uint (n_tombstoned_at e)) exemplars))"

end
