(* ===== verification/Store_Laws.thy ===== *)
theory Store_Laws
  imports Store "HOL-Library.AList"
begin

section \<open>What the store guarantees\<close>

text \<open>
  The locale \<open>store_laws\<close> states what the store relies on: a tree has a content (\<open>view\<close>), a
  successful transaction applies its writes in order, a failed one leaves the content alone, a read
  that succeeds returns the content, a range scan returns the keys of a half-open interval in
  order, and MessagePack decodes what it encoded. The store's own promise is about one map from keys
  to values, \<open>content\<close>, in which the two trees are no longer visible: each operation is shown to
  refine an update of that map. The in-memory tree \<open>mem_tree\<close>, whose reads and commits can be made
  to fail, interprets the locale.
\<close>

subsection \<open>Transactions on maps\<close>

primrec apply_ops :: "'v kv_op list \<Rightarrow> (string \<rightharpoonup> 'v) \<Rightarrow> (string \<rightharpoonup> 'v)" where
  "apply_ops [] m = m"
| "apply_ops (kv # ops) m = apply_ops ops (m(fst kv := snd kv))"

lemma apply_ops_append: "apply_ops (xs @ ys) m = apply_ops ys (apply_ops xs m)"
  by (induction xs arbitrary: m) simp_all

lemma apply_ops_other [simp]: "k \<notin> fst ` set ops \<Longrightarrow> apply_ops ops m k = m k"
  by (induction ops arbitrary: m) auto

lemma apply_ops_cong: "m k = m' k \<Longrightarrow> apply_ops ops m k = apply_ops ops m' k"
proof (induction ops arbitrary: m m')
  case (Cons kv ops)
  have "(m(fst kv := snd kv)) k = (m'(fst kv := snd kv)) k" using Cons.prems by simp
  then show ?case unfolding apply_ops.simps by (rule Cons.IH)
qed simp

text \<open>The writes of one class of keys decide what the keys of that class hold.\<close>

lemma apply_ops_filter:
  assumes "P k"
  shows "apply_ops (filter (\<lambda>kv. P (fst kv)) ops) m k = apply_ops ops m k"
proof (induction ops arbitrary: m)
  case (Cons kv ops)
  have "apply_ops ops (m(fst kv := snd kv)) k = apply_ops ops m k" if "\<not> P (fst kv)"
    by (rule apply_ops_cong) (use that assms in auto)
  with Cons show ?case by (simp del: fun_upd_apply)
qed simp

subsection \<open>Prefix ranges\<close>

lemma char_less_of_char: "(c::char) < d \<longleftrightarrow> (of_char c :: nat) < of_char d"
  by (simp add: less_char_def)

lemma of_char_char_of_small: "n < 256 \<Longrightarrow> of_char (char_of (n::nat)) = n"
  by simp

definition next_char :: "char \<Rightarrow> char" where
  "next_char c = char_of (of_char c + 1 :: nat)"

lemma of_next_char [simp]:
  "(of_char c :: nat) < 0xFF \<Longrightarrow> (of_char (next_char c) :: nat) = of_char c + 1"
  by (simp add: next_char_def)

lemma starts_with_Nil [simp]: "starts_with s []"
  by (simp add: starts_with_def)

lemma starts_with_Cons [simp]:
  "starts_with s (a # p) \<longleftrightarrow> (case s of [] \<Rightarrow> False | b # t \<Rightarrow> a = b \<and> starts_with t p)"
  by (auto simp: starts_with_def split: list.split)

text \<open>The strings between a prefix and its successor are those that start with it.\<close>

lemma starts_with_iff_range:
  assumes "(of_char c :: nat) < 0xFF"
  shows "starts_with k (q @ [c]) \<longleftrightarrow> q @ [c] \<le> k \<and> k < q @ [next_char c]"
proof (induction q arbitrary: k)
  case Nil
  show ?case
  proof (cases k)
    case (Cons d ds)
    have "d < next_char c \<longleftrightarrow> d \<le> c"
      using assms by (simp add: less_char_def less_eq_char_def less_Suc_eq_le)
    then show ?thesis using Cons by auto
  qed simp
next
  case (Cons a q)
  show ?case
  proof (cases k)
    case k: (Cons d ds)
    show ?thesis unfolding k
      by (cases rule: linorder_cases [of a d]) (simp_all add: Cons.IH, (metis order.asym less_irrefl)+)
  qed simp
qed

lemma utf8_ok_last:
  assumes "utf8_ok (q @ [c])" "(of_char c :: nat) < 0x80" "(of_char d :: nat) < 0x80"
  shows "utf8_ok (q @ [d])"
  using assms
proof (induction q rule: utf8_ok.induct)
  case (2 a s)
  let ?n = "of_char a :: nat"
  consider "?n < 0x80" | "0xC2 \<le> ?n \<and> ?n \<le> 0xDF" | "0xE0 \<le> ?n \<and> ?n \<le> 0xEF" | "0xF0 \<le> ?n \<and> ?n \<le> 0xF4"
    using "2.prems"(1) by (auto simp: Let_def split: if_splits)
  then show ?case
  proof cases
    case 1
    then show ?thesis using 2 by (simp add: Let_def)
  next
    case 2
    then show ?thesis using "2.prems" "2.IH"(2)[OF refl]
      by (cases s) (auto simp: Let_def cont_byte_def)
  next
    case 3
    show ?thesis
    proof (cases s)
      case (Cons b s')
      then show ?thesis using 3 "2.prems" "2.IH"(3)[OF refl]
        by (cases s') (auto simp: Let_def cont_byte_def)
    qed (use 3 "2.prems" in \<open>auto simp: Let_def cont_byte_def\<close>)
  next
    case 4
    show ?thesis
    proof (cases s)
      case Cons1: (Cons b s')
      show ?thesis
      proof (cases s')
        case Cons2: (Cons c' s'')
        show ?thesis using 4 "2.prems" "2.IH"(4)[OF refl] Cons1 Cons2
          by (cases s'') (auto simp: Let_def cont_byte_def)
      qed (use 4 "2.prems" Cons1 in \<open>auto simp: Let_def cont_byte_def\<close>)
    qed (use 4 "2.prems" in \<open>auto simp: Let_def cont_byte_def\<close>)
  qed
qed simp

definition ascii_prefix :: "string \<Rightarrow> bool" where
  "ascii_prefix p \<longleftrightarrow> utf8_ok p \<and> p \<noteq> [] \<and> (of_char (last p) :: nat) < 0x7F"

lemma prefix_end_ascii:
  assumes "ascii_prefix p"
  shows "prefix_end p = butlast p @ [next_char (last p)]"
proof -
  obtain q c where p: "p = q @ [c]"
    using assms by (metis ascii_prefix_def append_butlast_last_id)
  have c: "(of_char c :: nat) < 0x7F" and ok: "utf8_ok (q @ [c])"
    using assms by (simp_all add: ascii_prefix_def p)
  have "utf8_ok (q @ [next_char c])"
    using ok by (rule utf8_ok_last) (use c in simp_all)
  then show ?thesis using c by (simp add: prefix_end_def p next_char_def)
qed

lemma prefix_end_range:
  assumes "ascii_prefix p"
  shows "starts_with k p \<longleftrightarrow> p \<le> k \<and> k < prefix_end p"
proof -
  have "p = butlast p @ [last p]" and "(of_char (last p) :: nat) < 0xFF"
    using assms by (simp_all add: ascii_prefix_def)
  then show ?thesis
    using starts_with_iff_range [of "last p" k "butlast p"] prefix_end_ascii [OF assms] by simp
qed

subsection \<open>The abstract store\<close>

text \<open>
  The store as one map, each key looked up in the tree its namespace routes to; a store whose two
  trees can be read; what \<open>get\<close> makes of a stored value; the writes of a batch and of a transaction.
\<close>

definition store_content :: "('t \<Rightarrow> string \<rightharpoonup> 'v) \<Rightarrow> ('t, 'x) Store \<Rightarrow> string \<rightharpoonup> 'v" where
  "store_content view S k = view (tree_for S k) k"

definition store_sound :: "('t \<Rightarrow> bool) \<Rightarrow> ('t, 'x) Store \<Rightarrow> bool" where
  "store_sound healthy S \<longleftrightarrow> healthy (knowledge S) \<and> healthy (sessions S)"

definition decode_as ::
  "('t, 'x, 'v, 'j) store_api \<Rightarrow> string \<Rightarrow> 'v option \<Rightarrow> (store_error, 'j Record option) result" where
  "decode_as A k mv = (case mv of None \<Rightarrow> Ok None
     | Some v \<Rightarrow> (case dec_record A v of None \<Rightarrow> Err (CorruptRecord k) | Some r \<Rightarrow> Ok (Some r)))"

definition record_ops :: "('t, 'x, 'v, 'j) store_api \<Rightarrow> (string \<times> 'j Record) list \<Rightarrow> 'v kv_op list" where
  "record_ops A rs = map (\<lambda>kr. (fst kr, enc_record A (snd kr))) rs"

fun op_value :: "('t, 'x, 'v, 'j) store_api \<Rightarrow> ('v, 'j) KnowledgeWriteOp \<Rightarrow> 'v option" where
  "op_value A (PutRecord k r) = enc_record A r"
| "op_value A (PutRaw k v) = Some v"

definition op_writes :: "('t, 'x, 'v, 'j) store_api \<Rightarrow> ('v, 'j) KnowledgeWriteOp list \<Rightarrow> 'v kv_op list" where
  "op_writes A ops = map (\<lambda>op. (op_key op, op_value A op)) ops"

subsection \<open>The interface\<close>

locale store_laws =
  fixes A :: "('t, 'x, 'v, 'j) store_api"
    and view :: "'t \<Rightarrow> string \<rightharpoonup> 'v"
    and healthy :: "'t \<Rightarrow> bool"
  assumes get_view: "kv_get A t k = Inr mv \<Longrightarrow> mv = view t k"
    and get_healthy: "healthy t \<Longrightarrow> kv_get A t k = Inr (view t k)"
    and commit_view: "kv_commit A t d ops = (t', None) \<Longrightarrow> view t' = apply_ops ops (view t)"
    and commit_fail: "kv_commit A t d ops = (t', Some m) \<Longrightarrow> view t' = view t"
    and commit_healthy: "kv_commit A t d ops = (t', e) \<Longrightarrow> healthy t' = healthy t"
    and range_sorted: "kv_range A t lo hi = Inr kvs \<Longrightarrow> sorted_wrt (<) (map fst kvs)"
    and range_view: "kv_range A t lo hi = Inr kvs \<Longrightarrow> (k, v) \<in> set kvs \<longleftrightarrow> lo \<le> k \<and> k < hi \<and> view t k = Some v"
    and range_healthy: "healthy t \<Longrightarrow> \<exists>kvs. kv_range A t lo hi = Inr kvs"
    and dec_enc: "enc_record A r = Some b \<Longrightarrow> dec_record A b = Some r"
    and bytes_id: "to_bytes A (of_bytes A s) = s"
begin

abbreviation content :: "('t, 'x) Store \<Rightarrow> string \<rightharpoonup> 'v" where
  "content \<equiv> store_content view"

abbreviation sound :: "('t, 'x) Store \<Rightarrow> bool" where
  "sound \<equiv> store_sound healthy"

lemmas content_def = store_content_def
lemmas sound_def = store_sound_def

lemma content_cong:
  "knowledge S = knowledge T \<Longrightarrow> sessions S = sessions T \<Longrightarrow> content S = content T"
  by (auto simp: content_def tree_for_def tree_of_def fun_eq_iff split: Durability.splits)

lemma content_bookkeeping [simp]:
  "content (set_fence b S) = content S"
  "content (bump_write_seq S) = content S"
  "content (S\<lparr>search := x\<rparr>) = content S"
  by (rule content_cong; simp add: set_fence_def bump_write_seq_def)+

lemma content_sync_search [simp]: "content (sync_search A kn rs S) = content S"
  by (simp add: sync_search_def Let_def split: prod.split)

lemma commit_on_ok:
  assumes "commit_on A S d ops = (S', Inr u)" and "\<forall>kv\<in>set ops. for_key (fst kv) = d"
  shows "content S' = apply_ops ops (content S)"
proof
  fix k
  obtain t where t: "kv_commit A (tree_of S d) d ops = (t, None)"
    and S': "S' = (case d of Eventual \<Rightarrow> S\<lparr>sessions := t\<rparr> | Immediate \<Rightarrow> S\<lparr>knowledge := t\<rparr>)"
    using assms(1) by (auto simp: commit_on_def split: prod.splits option.splits)
  have v: "view t = apply_ops ops (view (tree_of S d))" using commit_view [OF t] .
  show "content S' k = apply_ops ops (content S) k"
  proof (cases "for_key k = d")
    case True
    then have "content S' k = apply_ops ops (view (tree_of S d)) k"
      by (simp add: content_def tree_for_def tree_of_def S' v split: Durability.split)
    also have "\<dots> = apply_ops ops (content S) k"
      by (rule apply_ops_cong) (simp add: content_def tree_for_def True)
    finally show ?thesis .
  next
    case False
    then have "content S' k = content S k"
      by (cases d; cases "for_key k") (simp_all add: content_def tree_for_def tree_of_def S')
    moreover have "k \<notin> fst ` set ops" using False assms(2) by auto
    ultimately show ?thesis by simp
  qed
qed

lemma commit_on_err:
  assumes "commit_on A S d ops = (S', Inl e)"
  shows "content S' = content S" and "\<exists>m. e = KvError m"
  using assms commit_fail [of "tree_of S d" d ops]
  by (auto simp: commit_on_def content_def tree_for_def tree_of_def fun_eq_iff
      split: prod.splits option.splits Durability.splits)

lemma sound_commit_on: "commit_on A S d ops = (S', r) \<Longrightarrow> sound S' = sound S"
  by (auto simp: commit_on_def sound_def tree_of_def dest: commit_healthy
      split: prod.splits Durability.splits)

lemma sound_bookkeeping [simp]:
  "sound (set_fence b S) = sound S"
  "sound (bump_write_seq S) = sound S"
  "sound (S\<lparr>search := x\<rparr>) = sound S"
  by (simp_all add: set_fence_def bump_write_seq_def sound_def)

lemma sound_sync_search [simp]: "sound (sync_search A kn rs S) = sound S"
  by (simp add: sync_search_def Let_def split: prod.split)

text \<open>Reading.\<close>

lemma store_get_content: "sound S \<Longrightarrow> store_get A S k = decode_as A k (content S k)"
  by (simp add: store_get_def read_record_def content_def decode_as_def tree_for_def tree_of_def sound_def
      get_healthy split: Durability.split)

lemma get_raw_content: "sound S \<Longrightarrow> get_raw_bytes A S k = Ok (content S k)"
  by (simp add: get_raw_bytes_def content_def tree_for_def tree_of_def sound_def
      get_healthy split: Durability.split)

lemma get_raw_ok: "get_raw_bytes A S k = Ok v \<Longrightarrow> v = content S k"
  by (auto simp: get_raw_bytes_def content_def dest: get_view split: sum.splits)

text \<open>Writing one key.\<close>

lemma store_put_ok:
  assumes "store_put A S k r = (S', Inr u)"
  obtains b where "enc_record A r = Some b" "content S' = (content S)(k \<mapsto> b)" "sound S' = sound S"
proof -
  obtain b S1 u' where b: "enc_record A r = Some b"
    and c: "commit_on A S (for_key k) [(k, Some b)] = (S1, Inr u')"
    and S': "S' = sync_search A (is_knowledge_key k) [r] S1"
    using assms by (auto simp: store_put_def split: option.splits prod.splits sum.splits)
  have "content S1 = (content S)(k \<mapsto> b)" using commit_on_ok [OF c] by simp
  then show ?thesis using that b S' sound_commit_on [OF c] by simp
qed

lemma store_put_err:
  "store_put A S k r = (S', Inl e) \<Longrightarrow> content S' = content S"
  by (auto simp: store_put_def dest: commit_on_err split: option.splits prod.splits sum.splits)

lemma put_raw_ok:
  assumes "put_raw A S k v = (S', Inr u)"
  shows "content S' = (content S)(k \<mapsto> v)" and "sound S' = sound S"
  using commit_on_ok [of S "for_key k" "[(k, Some v)]"] sound_commit_on assms
  by (auto simp: put_raw_def)

lemma put_raw_err: "put_raw A S k v = (S', Inl e) \<Longrightarrow> content S' = content S"
  by (auto simp: put_raw_def dest: commit_on_err)

lemma store_delete_content:
  assumes "store_delete A S k = (S', r)"
  shows "content S' = (case r of Inl (KvError m) \<Rightarrow> content S | _ \<Rightarrow> (content S)(k := None))"
proof (cases "commit_on A S (for_key k) [(k, None)]")
  case (Pair S1 q)
  show ?thesis
  proof (cases q)
    case (Inl e)
    obtain m where "e = KvError m" "content S1 = content S"
      using commit_on_err [of S "for_key k" "[(k, None)]" S1 e] Pair Inl by auto
    then show ?thesis using assms Pair Inl by (auto simp: store_delete_def)
  next
    case (Inr u)
    have "content S1 = (content S)(k := None)"
      using commit_on_ok [of S "for_key k" "[(k, None)]" S1 u] Pair Inr by simp
    then show ?thesis using assms Pair Inr
      by (auto simp: store_delete_def Let_def split: prod.splits search_outcome.splits if_splits)
  qed
qed

text \<open>Writing a batch: one transaction per tree, the knowledge tree first.\<close>

lemma encode_all_ok: "encode_all A rs = Inr ops \<Longrightarrow> ops = record_ops A rs"
  by (induction rs arbitrary: ops)
     (auto simp: record_ops_def rbind_Inr_iff split: option.splits)

lemma record_ops_of_class:
  "record_ops A (of_class d rs) = filter (\<lambda>kv. for_key (fst kv) = d) (record_ops A rs)"
  by (simp add: record_ops_def of_class_def filter_map comp_def)

lemma commit_part_ok:
  assumes "commit_part A S d (of_class d rs) = (S', Inr u)"
  shows "content S' = apply_ops (record_ops A (of_class d rs)) (content S)" and "sound S' = sound S"
proof -
  have "content S' = apply_ops (record_ops A (of_class d rs)) (content S) \<and> sound S' = sound S"
  proof (cases "of_class d rs = []")
    case False
    then obtain ops where ops: "encode_all A (of_class d rs) = Inr ops" and c: "commit_on A S d ops = (S', Inr u)"
      using assms by (auto simp: commit_part_def split: sum.splits)
    have "\<forall>kv\<in>set (record_ops A (of_class d rs)). for_key (fst kv) = d"
      by (auto simp: record_ops_of_class)
    then show ?thesis using commit_on_ok [OF c] sound_commit_on [OF c] encode_all_ok [OF ops] by simp
  qed (use assms in \<open>auto simp: commit_part_def record_ops_def\<close>)
  then show "content S' = apply_ops (record_ops A (of_class d rs)) (content S)" "sound S' = sound S"
    by blast+
qed

lemma commit_part_err: "commit_part A S d part = (S', Inl e) \<Longrightarrow> content S' = content S"
  by (auto simp: commit_part_def dest: commit_on_err split: if_splits sum.splits)

lemma apply_ops_classes:
  "apply_ops (filter (\<lambda>kv. for_key (fst kv) = Eventual) ops)
     (apply_ops (filter (\<lambda>kv. for_key (fst kv) = Immediate) ops) m) = apply_ops ops m"
proof
  fix k
  show "apply_ops (filter (\<lambda>kv. for_key (fst kv) = Eventual) ops)
     (apply_ops (filter (\<lambda>kv. for_key (fst kv) = Immediate) ops) m) k = apply_ops ops m k"
  proof (cases "for_key k")
    case Immediate
    then have "k \<notin> fst ` set (filter (\<lambda>kv. for_key (fst kv) = Eventual) ops)" by auto
    then show ?thesis using apply_ops_filter [of "\<lambda>k. for_key k = Immediate" k] Immediate by simp
  next
    case Eventual
    then have "k \<notin> fst ` set (filter (\<lambda>kv. for_key (fst kv) = Immediate) ops)" by auto
    then have "apply_ops (filter (\<lambda>kv. for_key (fst kv) = Immediate) ops) m k = m k" by simp
    moreover have "apply_ops (filter (\<lambda>kv. for_key (fst kv) = Eventual) ops) m' k = apply_ops ops m' k" for m'
      using Eventual by (rule apply_ops_filter)
    ultimately show ?thesis by (simp only:) (rule apply_ops_cong)
  qed
qed

lemma put_batch_ok:
  assumes "put_batch A S rs = (S', Inr u)"
  shows "content S' = apply_ops (record_ops A rs) (content S)" and "sound S' = sound S"
proof -
  have "content S' = apply_ops (record_ops A rs) (content S) \<and> sound S' = sound S"
  proof (cases "rs = []")
    case False
    then obtain S1 S2 v w where 1: "commit_part A S Immediate (of_class Immediate rs) = (S1, Inr v)"
      and 2: "commit_part A S1 Eventual (of_class Eventual rs) = (S2, Inr w)"
      and S': "content S' = content S2" "sound S' = sound S2"
      using assms by (auto simp: put_batch_def split: prod.splits sum.splits)
    show ?thesis using commit_part_ok [OF 1] commit_part_ok [OF 2] S'
      by (simp add: record_ops_of_class apply_ops_classes)
  qed (use assms in \<open>auto simp: put_batch_def record_ops_def\<close>)
  then show "content S' = apply_ops (record_ops A rs) (content S)" "sound S' = sound S" by blast+
qed

lemma put_batch_err:
  assumes "put_batch A S rs = (S', Inl e)"
  shows "content S' = content S \<or> content S' = apply_ops (record_ops A (of_class Immediate rs)) (content S)"
  using assms
  by (auto simp: put_batch_def commit_part_err commit_part_ok split: if_splits prod.splits sum.splits)

text \<open>Transactions on one tree.\<close>

lemma encode_ops_ok: "encode_ops A ops = Inr ws \<Longrightarrow> ws = op_writes A ops"
proof (induction ops arbitrary: ws)
  case (Cons op ops)
  then show ?case by (cases op) (auto simp: op_writes_def rbind_Inr_iff split: option.splits)
qed (simp add: op_writes_def)

lemma transact_knowledge_ok:
  assumes "transact_knowledge A S ops = (S', Inr u)"
  shows "content S' = apply_ops (op_writes A ops) (content S)" and "sound S' = sound S"
proof -
  have "content S' = apply_ops (op_writes A ops) (content S) \<and> sound S' = sound S"
  proof (cases "ops = []")
    case False
    then obtain ws S1 v where f: "find (\<lambda>op. for_key (op_key op) \<noteq> Immediate) ops = None"
      and e: "encode_ops A ops = Inr ws" and c: "commit_on A S Immediate ws = (S1, Inr v)"
      and S': "content S' = content S1" "sound S' = sound S1"
      using assms
      by (auto simp: transact_knowledge_def Let_def split: prod.splits sum.splits option.splits if_splits)
    have "\<forall>kv\<in>set ws. for_key (fst kv) = Immediate"
      using f by (auto simp: encode_ops_ok [OF e] op_writes_def find_None_iff)
    then show ?thesis using commit_on_ok [OF c] sound_commit_on [OF c] encode_ops_ok [OF e] S' by simp
  qed (use assms in \<open>auto simp: transact_knowledge_def op_writes_def\<close>)
  then show "content S' = apply_ops (op_writes A ops) (content S)" "sound S' = sound S" by blast+
qed

lemma transact_knowledge_err:
  "transact_knowledge A S ops = (S', Inl e) \<Longrightarrow> content S' = content S"
  by (auto simp: transact_knowledge_def Let_def dest: commit_on_err
      split: prod.splits sum.splits option.splits if_splits)

text \<open>Scans.\<close>

lemma scan_keys_set:
  assumes "scan_keys A S p = Inr ks" and "ascii_prefix p"
    and "\<And>k. starts_with k p \<Longrightarrow> for_key k = for_key p"
  shows "set ks = {k. starts_with k p \<and> utf8_ok k \<and> k \<in> dom (content S)}" and "sorted_wrt (<) ks"
proof -
  obtain kvs where r: "kv_range A (tree_for S p) p (prefix_end p) = Inr kvs"
    and ks: "ks = filter utf8_ok (map fst kvs)"
    using assms(1) by (auto simp: scan_keys_def split: sum.splits)
  have "k \<in> fst ` set kvs \<longleftrightarrow> starts_with k p \<and> k \<in> dom (content S)" for k
    using range_view [OF r, of k] prefix_end_range [OF assms(2), of k] assms(3) [of k]
    by (force simp: image_iff content_def tree_for_def dom_def)
  then show "set ks = {k. starts_with k p \<and> utf8_ok k \<and> k \<in> dom (content S)}" by (auto simp: ks)
  show "sorted_wrt (<) ks" using range_sorted [OF r] by (simp add: ks sorted_wrt_filter)
qed

lemma scan_prefix_set:
  assumes "scan_prefix A S p = Inr rs" and "ascii_prefix p"
    and "\<And>k. starts_with k p \<Longrightarrow> for_key k = for_key p"
  shows "set rs = {r. \<exists>k v. starts_with k p \<and> content S k = Some v \<and> dec_record A v = Some r}"
proof -
  obtain kvs where r: "kv_range A (tree_for S p) p (prefix_end p) = Inr kvs"
    and rs: "rs = List.map_filter (\<lambda>kv. dec_record A (snd kv)) kvs"
    using assms(1) by (auto simp: scan_prefix_def split: sum.splits)
  have "(k, v) \<in> set kvs \<longleftrightarrow> starts_with k p \<and> content S k = Some v" for k v
    using range_view [OF r, of k v] prefix_end_range [OF assms(2), of k] assms(3) [of k]
    by (auto simp: content_def tree_for_def)
  then show ?thesis by (force simp: rs map_filter_def image_iff)
qed

end

subsection \<open>An in-memory tree\<close>

text \<open>
  A tree as an association list of cells; \<open>mt_commit_fails\<close> and \<open>mt_read_fails\<close> inject I/O errors.
  A cell is an encoded record, a byte string, or the encoding of other data (\<open>'e\<close>).
\<close>

datatype ('e, 'j) cell = RecordCell "'j Record" | BytesCell string | DataCell 'e

record 'v mem_tree =
  mt_cells :: "(string \<times> 'v) list"
  mt_commit_fails :: bool
  mt_read_fails :: bool

primrec cells_apply :: "'v kv_op list \<Rightarrow> (string \<times> 'v) list \<Rightarrow> (string \<times> 'v) list" where
  "cells_apply [] cs = cs"
| "cells_apply (op # ops) cs =
     cells_apply ops (case snd op of None \<Rightarrow> AList.delete (fst op) cs | Some v \<Rightarrow> AList.update (fst op) v cs)"

definition mem_get :: "'v mem_tree \<Rightarrow> string \<Rightarrow> (string, 'v option) result" where
  "mem_get t k = (if mt_read_fails t then Err ''io'' else Ok (map_of (mt_cells t) k))"

definition mem_commit :: "'v mem_tree \<Rightarrow> Durability \<Rightarrow> 'v kv_op list \<Rightarrow> 'v mem_tree \<times> string option" where
  "mem_commit t d ops =
     (if mt_commit_fails t then (t, Some ''io'') else (t\<lparr>mt_cells := cells_apply ops (mt_cells t)\<rparr>, None))"

definition mem_range :: "'v mem_tree \<Rightarrow> string \<Rightarrow> string \<Rightarrow> (string, (string \<times> 'v) list) result" where
  "mem_range t lo hi =
     (if mt_read_fails t then Err ''io''
      else Ok (List.map_filter (\<lambda>k. map_option (Pair k) (map_of (mt_cells t) k))
                 (filter (\<lambda>k. lo \<le> k \<and> k < hi) (sorted_list_of_set (fst ` set (mt_cells t))))))"

fun cell_record :: "('e, 'j) cell \<Rightarrow> 'j Record option" where
  "cell_record (RecordCell r) = Some r"
| "cell_record _ = None"

fun cell_bytes :: "('e, 'j) cell \<Rightarrow> string" where
  "cell_bytes (BytesCell s) = s"
| "cell_bytes _ = []"

text \<open>An index that is either broken or holds the keys that were added.\<close>

definition mem_store :: "(('e, 'j) cell mem_tree, bool \<times> string list, ('e, 'j) cell, 'j) store_api" where
  "mem_store = \<lparr>
     kv_get = mem_get, kv_commit = mem_commit, kv_range = mem_range,
     kv_history = (\<lambda>t lo hi opts. Ok []),
     enc_record = (\<lambda>r. Some (RecordCell r)), dec_record = cell_record,
     of_bytes = BytesCell, to_bytes = cell_bytes,
     sx_add = (\<lambda>x rs. if fst x then (x, SearchFailed ''broken'') else ((False, map r_key rs @ snd x), SearchDone)),
     sx_delete = (\<lambda>x k. if fst x then (x, SearchFailed ''broken'') else ((False, removeAll k (snd x)), SearchDone)),
     sx_query = (\<lambda>x txt n. if fst x then QueryPanicked else QueryKeys (map (Pair (Fin 1)) (take n (snd x)))) \<rparr>"

definition mem_view :: "'v mem_tree \<Rightarrow> string \<rightharpoonup> 'v" where
  "mem_view t = map_of (mt_cells t)"

definition mem_healthy :: "'v mem_tree \<Rightarrow> bool" where
  "mem_healthy t \<longleftrightarrow> \<not> mt_read_fails t"

definition empty_tree :: "'v mem_tree" where
  "empty_tree = \<lparr> mt_cells = [], mt_commit_fails = False, mt_read_fails = False \<rparr>"

definition empty_store :: "('v mem_tree, bool \<times> string list) Store" where
  "empty_store = \<lparr> knowledge = empty_tree, sessions = empty_tree, search = (False, []), sync_pending = False,
     search_stale = False, write_seq = 0, fs_writable = True \<rparr>"

lemma cells_apply_view: "map_of (cells_apply ops cs) = apply_ops ops (map_of cs)"
proof (induction ops arbitrary: cs)
  case (Cons op ops)
  have "map_of (case snd op of None \<Rightarrow> AList.delete (fst op) cs | Some v \<Rightarrow> AList.update (fst op) v cs)
      = (map_of cs)(fst op := snd op)"
    by (simp add: update_conv' delete_conv' split: option.split)
  then show ?case using Cons by (simp del: fun_upd_apply)
qed simp

lemma map_filter_keys:
  "map fst (List.map_filter (\<lambda>k. map_option (Pair k) (m k)) ks) = filter (\<lambda>k. m k \<noteq> None) ks"
  by (induction ks) (auto simp: map_filter_simps split: option.split)

interpretation mem: store_laws mem_store mem_view mem_healthy
proof (unfold_locales, goal_cases)
  case (6 t lo hi kvs)
  then have "map fst kvs = filter (\<lambda>k. map_of (mt_cells t) k \<noteq> None)
      (filter (\<lambda>k. lo \<le> k \<and> k < hi) (sorted_list_of_set (fst ` set (mt_cells t))))"
    by (auto simp: mem_store_def mem_range_def map_filter_keys split: if_splits)
  then show ?case by (simp add: sorted_wrt_filter)
next
  case (7 t lo hi kvs k v)
  then show ?case
    by (force simp: mem_store_def mem_range_def mem_view_def map_filter_def image_iff dest: map_of_SomeD
        split: if_splits)
qed (auto simp: mem_store_def mem_get_def mem_commit_def mem_range_def mem_view_def mem_healthy_def cells_apply_view
       split: if_splits)

end
