(* ===== verification/Audit_Chain.thy ===== *)
theory Audit_Chain
  imports Record_Types "HOL-Library.Multiset"
begin

section \<open>The audit chain (\<open>store/enforcement.rs\<close>): events, hashing, verification, metrics\<close>

text \<open>
  The pure half of \<open>store/enforcement.rs\<close>. An enforcement event is a record with the fields of the
  source; its hash is SHA-256 over a canonical JSON form that leaves \<open>event_hash\<close> out and, for schema
  version 1, \<open>agent_session\<close> too. SHA-256 and \<open>serde_json\<close> are libraries: they are the fields of the
  parameter \<open>hash_api\<close>. \<open>verify_chain\<close> and the aggregations are translated loop by loop, with
  the counters at their width (\<open>usize\<close> counters, which count elements of a list in memory, are \<open>nat\<close>).

  The theorems: what a valid verdict means, that it does not depend on the order of the input,
  that altering or deleting an event is noticed, that pruning a prefix is not, and
  what the aggregated numbers are.
\<close>

named_theorems chain_simps \<open>rules for the verification loop\<close>

subsection \<open>Events\<close>

definition SCHEMA_VERSION :: u8 where
  "SCHEMA_VERSION = 2"

record ActorLocal =
  username :: string
  uid :: "u32 option"
  verified :: bool

datatype SubjectKind = SubjectFile | SubjectControl | SubjectConfig | SubjectSystem

datatype ControlChangeKind = Created | Confirmed | Updated | Deleted

datatype GapCause = DaemonUnreachable | StoreWriteFailure | StoreLocked | CorruptionRecovery | UnknownCause

datatype EnforcementMode = Advisory | Strict

datatype MissedEventCount = Known u64 | ZeroMissed | UnknownMissed

datatype GapCertainty = Exact | Inferred

datatype EnforcementEventType =
    DenyEvent
  | AllowAfterReceipt
  | ReceiptMinted
  | BypassDetected
  | ControlChanged ControlChangeKind
  | EnforcementConfigChanged (setting: string) (old_value: string) (new_value: string)
  | RecordingGap (gap_start_ms: u64) (gap_end_ms: u64) (cause: GapCause)
      (enforcement_mode_during_gap: EnforcementMode) (missed_event_count: MissedEventCount)
      (certainty: GapCertainty)
  | RetentionPruned (pruned_count: u64) (oldest_pruned_seq: u64) (newest_pruned_seq: u64)

record EnforcementEvent =
  event_id :: string
  schema_version :: u8
  seq_no :: u64
  recorded_at_ms :: u64
  event_type :: EnforcementEventType
  event_hash :: string
  prev_hash :: string
  installation_id :: string
  actor_local :: "ActorLocal option"
  agent_type :: string
  subject_kind :: SubjectKind
  subject_key :: string
  canonical_subject_hash :: "string option"
  receipt_id :: "string option"
  decision_reason_code :: string
  decision_basis_hash :: "string option"
  agent_session :: "string option"

definition event_type_label :: "EnforcementEventType \<Rightarrow> string" where
  "event_type_label t =
     (case t of
        DenyEvent \<Rightarrow> ''deny''
      | AllowAfterReceipt \<Rightarrow> ''allow_receipt''
      | ReceiptMinted \<Rightarrow> ''receipt_minted''
      | BypassDetected \<Rightarrow> ''bypass''
      | ControlChanged _ \<Rightarrow> ''control_changed''
      | EnforcementConfigChanged _ _ _ \<Rightarrow> ''config_changed''
      | RecordingGap _ _ _ _ _ _ \<Rightarrow> ''gap''
      | RetentionPruned _ _ _ \<Rightarrow> ''retention_pruned'')"

subsection \<open>The hash contract\<close>

record CanonicalEvent =
  ce_event_id :: string
  ce_schema_version :: u8
  ce_seq_no :: u64
  ce_recorded_at_ms :: u64
  ce_event_type :: EnforcementEventType
  ce_prev_hash :: string
  ce_installation_id :: string
  ce_actor_local :: "ActorLocal option"
  ce_agent_type :: string
  ce_subject_kind :: SubjectKind
  ce_subject_key :: string
  ce_canonical_subject_hash :: "string option"
  ce_receipt_id :: "string option"
  ce_decision_reason_code :: string
  ce_decision_basis_hash :: "string option"

record CanonicalEventV2 = CanonicalEvent +
  ce_agent_session :: "string option"

text \<open>
  \<open>serde_json::to_string\<close> on the two canonical structs, into the type \<open>'s\<close> of JSON texts, and SHA-256
  of such a text and of a plain string in lowercase hex. What the code relies on of the serializer is that it is
  faithful: different structs have different texts.
\<close>

record 's hash_api =
  json_v1 :: "CanonicalEvent \<Rightarrow> 's"
  json_v2 :: "CanonicalEventV2 \<Rightarrow> 's"
  sha256_hex :: "'s \<Rightarrow> string"
  sha256_text :: "string \<Rightarrow> string"

definition json_faithful :: "'s hash_api \<Rightarrow> bool" where
  "json_faithful H \<longleftrightarrow> inj (json_v1 H) \<and> inj (json_v2 H) \<and> (\<forall>c d. json_v1 H c \<noteq> json_v2 H d)"

definition canonical_v1 :: "EnforcementEvent \<Rightarrow> CanonicalEvent" where
  "canonical_v1 e =
     \<lparr> ce_event_id = event_id e, ce_schema_version = schema_version e, ce_seq_no = seq_no e,
       ce_recorded_at_ms = recorded_at_ms e, ce_event_type = event_type e, ce_prev_hash = prev_hash e,
       ce_installation_id = installation_id e, ce_actor_local = actor_local e,
       ce_agent_type = agent_type e, ce_subject_kind = subject_kind e, ce_subject_key = subject_key e,
       ce_canonical_subject_hash = canonical_subject_hash e, ce_receipt_id = receipt_id e,
       ce_decision_reason_code = decision_reason_code e, ce_decision_basis_hash = decision_basis_hash e \<rparr>"

definition canonical_v2 :: "EnforcementEvent \<Rightarrow> CanonicalEventV2" where
  "canonical_v2 e =
     \<lparr> ce_event_id = event_id e, ce_schema_version = schema_version e, ce_seq_no = seq_no e,
       ce_recorded_at_ms = recorded_at_ms e, ce_event_type = event_type e, ce_prev_hash = prev_hash e,
       ce_installation_id = installation_id e, ce_actor_local = actor_local e,
       ce_agent_type = agent_type e, ce_subject_kind = subject_kind e, ce_subject_key = subject_key e,
       ce_canonical_subject_hash = canonical_subject_hash e, ce_receipt_id = receipt_id e,
       ce_decision_reason_code = decision_reason_code e, ce_decision_basis_hash = decision_basis_hash e,
       ce_agent_session = agent_session e \<rparr>"

definition canonical_json :: "'s hash_api \<Rightarrow> EnforcementEvent \<Rightarrow> 's" where
  "canonical_json H e =
     (if 2 \<le> schema_version e then json_v2 H (canonical_v2 e) else json_v1 H (canonical_v1 e))"

definition compute_hash :: "'s hash_api \<Rightarrow> EnforcementEvent \<Rightarrow> string" where
  "compute_hash H e = sha256_hex H (canonical_json H e)"

subsection \<open>Verification\<close>

datatype ChainBreakKind = Linkage | Tampered | UnknownSchema

record ChainBreak =
  cb_kind :: ChainBreakKind
  cb_seq_no :: u64
  cb_recorded_at_ms :: u64
  cb_event_type :: string
  cb_prev_seq_no :: "u64 option"
  cb_prev_recorded_at_ms :: "u64 option"
  cb_prev_event_type :: "string option"

record ChainVerification =
  cv_checked :: nat
  cv_tampered_events :: nat
  cv_linkage_breaks :: nat
  cv_unknown_schema :: nat
  cv_breaks :: "ChainBreak list"

definition verification_default :: ChainVerification where
  "verification_default =
     \<lparr> cv_checked = 0, cv_tampered_events = 0, cv_linkage_breaks = 0, cv_unknown_schema = 0, cv_breaks = [] \<rparr>"

definition is_valid :: "ChainVerification \<Rightarrow> bool" where
  "is_valid v \<longleftrightarrow> cv_tampered_events v = 0 \<and> cv_linkage_breaks v = 0 \<and> cv_unknown_schema v = 0"

definition event_break :: "ChainBreakKind \<Rightarrow> EnforcementEvent \<Rightarrow> EnforcementEvent option \<Rightarrow> ChainBreak" where
  "event_break kind e p =
     \<lparr> cb_kind = kind, cb_seq_no = seq_no e, cb_recorded_at_ms = recorded_at_ms e,
       cb_event_type = event_type_label (event_type e),
       cb_prev_seq_no = map_option seq_no p,
       cb_prev_recorded_at_ms = map_option recorded_at_ms p,
       cb_prev_event_type = map_option (\<lambda>q. event_type_label (event_type q)) p \<rparr>"

text \<open>The two halves of the loop body: the linkage check and the content check.\<close>

definition check_linkage ::
  "EnforcementEvent option \<Rightarrow> EnforcementEvent \<Rightarrow> ChainVerification \<Rightarrow> ChainVerification" where
  "check_linkage prev e v =
     (case prev of
        None \<Rightarrow> v
      | Some p \<Rightarrow>
          if prev_hash e \<noteq> event_hash p
          then v\<lparr>cv_linkage_breaks := cv_linkage_breaks v + 1,
                 cv_breaks := cv_breaks v @ [event_break Linkage e (Some p)]\<rparr>
          else v)"

definition check_content :: "'s hash_api \<Rightarrow> EnforcementEvent \<Rightarrow> ChainVerification \<Rightarrow> ChainVerification" where
  "check_content H e v =
     (if SCHEMA_VERSION < schema_version e
      then v\<lparr>cv_unknown_schema := cv_unknown_schema v + 1,
             cv_breaks := cv_breaks v @ [event_break UnknownSchema e None]\<rparr>
      else let v1 = v\<lparr>cv_checked := cv_checked v + 1\<rparr>
           in if event_hash e \<noteq> compute_hash H e
              then v1\<lparr>cv_tampered_events := cv_tampered_events v1 + 1,
                      cv_breaks := cv_breaks v1 @ [event_break Tampered e None]\<rparr>
              else v1)"

fun verify_loop ::
  "'s hash_api \<Rightarrow> EnforcementEvent option \<Rightarrow> EnforcementEvent list \<Rightarrow> ChainVerification \<Rightarrow> ChainVerification" where
  "verify_loop H prev [] v = v"
| "verify_loop H prev (e # es) v = verify_loop H (Some e) es (check_content H e (check_linkage prev e v))"

definition verify_chain :: "'s hash_api \<Rightarrow> EnforcementEvent list \<Rightarrow> ChainVerification" where
  "verify_chain H evs = verify_loop H None (sort_key seq_no evs) verification_default"

subsection \<open>Counts\<close>

record EnforcementEventCounts =
  total :: u64
  denials :: u64
  allowed_after_receipt :: u64
  receipts_minted :: u64
  bypasses :: u64
  controls_changed :: u64
  controls_created :: u64
  controls_confirmed :: u64
  controls_updated :: u64
  controls_removed :: u64
  config_changes :: u64
  gaps :: u64
  retention_prunes :: u64

definition count_event :: "EnforcementEventCounts \<Rightarrow> EnforcementEvent \<Rightarrow> EnforcementEventCounts" where
  "count_event c e =
     (case event_type e of
        DenyEvent \<Rightarrow> c\<lparr>denials := denials c + 1\<rparr>
      | AllowAfterReceipt \<Rightarrow> c\<lparr>allowed_after_receipt := allowed_after_receipt c + 1\<rparr>
      | ReceiptMinted \<Rightarrow> c\<lparr>receipts_minted := receipts_minted c + 1\<rparr>
      | BypassDetected \<Rightarrow> c\<lparr>bypasses := bypasses c + 1\<rparr>
      | ControlChanged kind \<Rightarrow>
          (let c1 = c\<lparr>controls_changed := controls_changed c + 1\<rparr>
           in case kind of
                Created \<Rightarrow> c1\<lparr>controls_created := controls_created c1 + 1\<rparr>
              | Confirmed \<Rightarrow> c1\<lparr>controls_confirmed := controls_confirmed c1 + 1\<rparr>
              | Updated \<Rightarrow> c1\<lparr>controls_updated := controls_updated c1 + 1\<rparr>
              | Deleted \<Rightarrow> c1\<lparr>controls_removed := controls_removed c1 + 1\<rparr>)
      | EnforcementConfigChanged _ _ _ \<Rightarrow> c\<lparr>config_changes := config_changes c + 1\<rparr>
      | RecordingGap _ _ _ _ _ _ \<Rightarrow> c\<lparr>gaps := gaps c + 1\<rparr>
      | RetentionPruned _ _ _ \<Rightarrow> c\<lparr>retention_prunes := retention_prunes c + 1\<rparr>)"

definition aggregate_event_counts :: "EnforcementEvent list \<Rightarrow> EnforcementEventCounts" where
  "aggregate_event_counts evs =
     foldl count_event
       \<lparr> total = word_of_nat (length evs), denials = 0, allowed_after_receipt = 0, receipts_minted = 0,
         bypasses = 0, controls_changed = 0, controls_created = 0, controls_confirmed = 0,
         controls_updated = 0, controls_removed = 0, config_changes = 0, gaps = 0, retention_prunes = 0 \<rparr> evs"

subsection \<open>Derived metrics\<close>

definition CONSULTED_RECENT_TTL_SECS :: u64 where
  "CONSULTED_RECENT_TTL_SECS = 900"

record DerivedEnforcementMetrics =
  dm_blocked_sessions :: u64
  dm_attributed_denials :: u64
  dm_blocks_per_session :: "f64 option"
  dm_median_time_to_consult_ms :: "u64 option"
  dm_consult_pairs :: u64

definition median_u64 :: "u64 list \<Rightarrow> u64 option" where
  "median_u64 values =
     (if values = [] then None
      else let s = sort values; n = length s; mid = n div 2
           in if n mod 2 = 1 then Some (s ! mid)
              else Some ((s ! (mid - 1) + s ! mid) div 2))"

text \<open>The sessions of the denials that carry one, in the order of the events.\<close>

definition denied_sessions :: "EnforcementEvent list \<Rightarrow> string list" where
  "denied_sessions evs = List.map_filter agent_session (filter (\<lambda>e. event_type e = DenyEvent) evs)"

text \<open>The entry of the index \<open>receipts_by_subject\<close>; a subject without receipts has no entry.\<close>

definition receipt_times :: "EnforcementEvent list \<Rightarrow> string \<Rightarrow> u64 list" where
  "receipt_times evs k =
     sort (map recorded_at_ms (filter (\<lambda>e. event_type e = ReceiptMinted \<and> subject_key e = k) evs))"

definition consult_delta :: "EnforcementEvent list \<Rightarrow> EnforcementEvent \<Rightarrow> u64 option" where
  "consult_delta evs e =
     (case find (\<lambda>t. recorded_at_ms e \<le> t) (receipt_times evs (subject_key e)) of
        None \<Rightarrow> None
      | Some t \<Rightarrow> let delta = t - recorded_at_ms e
                  in if delta \<le> CONSULTED_RECENT_TTL_SECS * 1000 then Some delta else None)"

definition consult_deltas :: "EnforcementEvent list \<Rightarrow> u64 list" where
  "consult_deltas evs = List.map_filter (consult_delta evs) (filter (\<lambda>e. event_type e = DenyEvent) evs)"

definition f64_quot :: "f64 \<Rightarrow> f64 \<Rightarrow> f64" where
  "f64_quot a b = (case (a, b) of (Fin x, Fin y) \<Rightarrow> r64 (x / y) | _ \<Rightarrow> NaN)"

definition derive_enforcement_metrics :: "EnforcementEvent list \<Rightarrow> DerivedEnforcementMetrics" where
  "derive_enforcement_metrics evs =
     (let blocked = remdups (denied_sessions evs);
          attributed = (word_of_nat (length (denied_sessions evs)) :: u64);
          deltas = consult_deltas evs
      in \<lparr> dm_blocked_sessions = word_of_nat (length blocked),
           dm_attributed_denials = attributed,
           dm_blocks_per_session =
             (if blocked = [] then None
              else Some (f64_quot (r64 (of_nat (unat attributed))) (r64 (of_nat (length blocked))))),
           dm_median_time_to_consult_ms = median_u64 deltas,
           dm_consult_pairs = word_of_nat (length deltas) \<rparr>)"

subsection \<open>What the verification loop computes\<close>

definition intact :: "'s hash_api \<Rightarrow> EnforcementEvent \<Rightarrow> bool" where
  "intact H e \<longleftrightarrow> schema_version e \<le> SCHEMA_VERSION \<and> event_hash e = compute_hash H e"

definition links :: "EnforcementEvent \<Rightarrow> EnforcementEvent \<Rightarrow> bool" where
  "links p e \<longleftrightarrow> prev_hash e = event_hash p"

definition chained :: "'s hash_api \<Rightarrow> EnforcementEvent list \<Rightarrow> bool" where
  "chained H es \<longleftrightarrow> list_all (intact H) es \<and> successively links es"

lemma check_linkage_counts [chain_simps]:
  "cv_checked (check_linkage p e v) = cv_checked v"
  "cv_tampered_events (check_linkage p e v) = cv_tampered_events v"
  "cv_unknown_schema (check_linkage p e v) = cv_unknown_schema v"
  "cv_linkage_breaks (check_linkage p e v)
     = cv_linkage_breaks v + (if (\<exists>q. p = Some q \<and> \<not> links q e) then 1 else 0)"
  "length (cv_breaks (check_linkage p e v)) + cv_linkage_breaks v
     = length (cv_breaks v) + cv_linkage_breaks (check_linkage p e v)"
  by (auto simp: check_linkage_def links_def split: option.split)

lemma check_content_counts [chain_simps]:
  "cv_linkage_breaks (check_content H e v) = cv_linkage_breaks v"
  "cv_checked (check_content H e v) + cv_unknown_schema (check_content H e v)
     = Suc (cv_checked v + cv_unknown_schema v)"
  "cv_tampered_events (check_content H e v) + cv_unknown_schema (check_content H e v)
     = cv_tampered_events v + cv_unknown_schema v + (if intact H e then 0 else 1)"
  "length (cv_breaks (check_content H e v)) + cv_tampered_events v + cv_unknown_schema v
     = length (cv_breaks v) + cv_tampered_events (check_content H e v) + cv_unknown_schema (check_content H e v)"
  by (auto simp: check_content_def intact_def Let_def not_less)

lemma verify_loop_checked:
  "cv_checked (verify_loop H p es v) + cv_unknown_schema (verify_loop H p es v)
     = cv_checked v + cv_unknown_schema v + length es"
  by (induction H p es v rule: verify_loop.induct) (simp_all add: chain_simps)

lemma verify_loop_breaks:
  "length (cv_breaks (verify_loop H p es v)) + cv_tampered_events v + cv_unknown_schema v + cv_linkage_breaks v
     = length (cv_breaks v) + cv_tampered_events (verify_loop H p es v)
       + cv_unknown_schema (verify_loop H p es v) + cv_linkage_breaks (verify_loop H p es v)"
proof (induction H p es v rule: verify_loop.induct)
  case (2 H prev e es v)
  then show ?case
    using check_content_counts [of H e "check_linkage prev e v"] check_linkage_counts [of prev e v] by simp
qed simp

lemma verify_loop_content:
  "cv_tampered_events (verify_loop H p es v) + cv_unknown_schema (verify_loop H p es v)
     = cv_tampered_events v + cv_unknown_schema v + length (filter (\<lambda>e. \<not> intact H e) es)"
  by (induction H p es v rule: verify_loop.induct) (simp_all add: chain_simps)

fun link_breaks :: "EnforcementEvent option \<Rightarrow> EnforcementEvent list \<Rightarrow> nat" where
  "link_breaks p [] = 0"
| "link_breaks p (e # es) = (if (\<exists>q. p = Some q \<and> \<not> links q e) then 1 else 0) + link_breaks (Some e) es"

lemma link_breaks_0_iff:
  "link_breaks p es = 0 \<longleftrightarrow> successively links (case p of None \<Rightarrow> es | Some q \<Rightarrow> q # es)"
  by (induction p es rule: link_breaks.induct) (auto split: option.split)

lemma verify_loop_linkage:
  "cv_linkage_breaks (verify_loop H p es v) = cv_linkage_breaks v + link_breaks p es"
  by (induction H p es v rule: verify_loop.induct) (simp_all add: chain_simps)

lemma is_valid_chained: "is_valid (verify_chain H evs) \<longleftrightarrow> chained H (sort_key seq_no evs)"
proof -
  let ?es = "sort_key seq_no evs" and ?v = "verify_chain H evs"
  have "cv_tampered_events ?v + cv_unknown_schema ?v = length (filter (\<lambda>e. \<not> intact H e) ?es)"
    using verify_loop_content [of H None ?es verification_default]
    by (simp add: verify_chain_def verification_default_def)
  moreover have "cv_linkage_breaks ?v = 0 \<longleftrightarrow> successively links ?es"
    by (simp add: verify_chain_def verification_default_def verify_loop_linkage link_breaks_0_iff)
  ultimately show ?thesis by (auto simp: is_valid_def chained_def list_all_iff filter_empty_conv)
qed

lemma sorted_distinct_sort_key:
  assumes "sorted_wrt (<) (map f xs)" shows "sort_key f xs = xs"
  using assms by (metis sort_key_id_if_sorted strict_sorted_iff)

lemma sort_key_perm:
  assumes "mset xs = mset ys" and "distinct (map f xs)"
  shows "sort_key f xs = sort_key f ys"
proof -
  have inj: "inj_on f (set xs)" using assms(2) by (simp add: distinct_map)
  have set: "set xs = set ys" using assms(1) by (rule mset_eq_setD)
  have mm: "mset (map f xs) = mset (map f ys)" using assms(1) by simp
  then have "distinct (map f ys)" using assms(2) mset_eq_imp_distinct_iff by blast
  then have "map f (sort_key f xs) = map f (sort_key f ys)"
    by (intro sorted_distinct_set_unique)
       (use assms(2) set in \<open>auto simp: distinct_map\<close>)
  then show ?thesis using inj set by (simp add: inj_on_map_eq_map)
qed

subsection \<open>Chains\<close>

lemma successively_filter_tail:
  "successively P (xs @ ys) \<Longrightarrow> successively P ys"
  by (auto simp: successively_append_iff)

lemma chained_append:
  "chained H (xs @ ys) \<longleftrightarrow> chained H xs \<and> chained H ys
     \<and> (xs \<noteq> [] \<and> ys \<noteq> [] \<longrightarrow> links (last xs) (hd ys))"
  by (auto simp: chained_def successively_append_iff)

lemma chained_Nil [simp]: "chained H []"
  by (simp add: chained_def)

lemma chained_single [simp]: "chained H [e] \<longleftrightarrow> intact H e"
  by (simp add: chained_def)

lemma chained_snoc:
  "chained H (es @ [e]) \<longleftrightarrow> chained H es \<and> intact H e \<and> (es \<noteq> [] \<longrightarrow> links (last es) e)"
  by (auto simp: chained_append)

text \<open>In a sorted list the events at or after a sequence number are a tail.\<close>

lemma filter_ge_tail:
  fixes f :: "'a \<Rightarrow> 'b::linorder"
  assumes "sorted (map f xs)"
  shows "xs = filter (\<lambda>x. f x < n) xs @ filter (\<lambda>x. n \<le> f x) xs"
  using assms
proof (induction xs)
  case (Cons x xs)
  show ?case
  proof (cases "f x < n")
    case False
    then have "\<forall>y\<in>set xs. n \<le> f y" using Cons.prems by auto
    then show ?thesis using False by (simp add: not_less filter_True filter_False leD)
  qed (use Cons in simp)
qed simp

lemma sort_key_filter: "sort_key f (filter P xs) = filter P (sort_key f xs)"
  by (rule filter_sort [symmetric])

text \<open>What the hash covers: every field but \<open>event_hash\<close>, and \<open>agent_session\<close> from version 2 on.\<close>

definition hashed_part :: "EnforcementEvent \<Rightarrow> CanonicalEvent \<times> string option option" where
  "hashed_part e = (canonical_v1 e, if 2 \<le> schema_version e then Some (agent_session e) else None)"

lemma canonical_json_faithful:
  assumes "json_faithful H" and "canonical_json H e = canonical_json H e'"
  shows "hashed_part e = hashed_part e'"
proof -
  have "json_v1 H c \<noteq> json_v2 H d" "json_v2 H d \<noteq> json_v1 H c" for c d
    using assms(1) unfolding json_faithful_def by metis+
  with assms show ?thesis
    by (auto simp: json_faithful_def canonical_json_def hashed_part_def canonical_v1_def canonical_v2_def
        dest: injD split: if_splits)
qed

lemma hashed_part_seq_no: "hashed_part e = hashed_part e' \<Longrightarrow> seq_no e = seq_no e'"
  by (simp add: hashed_part_def canonical_v1_def)

lemma compute_hash_inject:
  assumes "json_faithful H" and "inj_on (sha256_hex H) {canonical_json H e, canonical_json H e'}"
    and "compute_hash H e = compute_hash H e'"
  shows "hashed_part e = hashed_part e'"
  using assms by (intro canonical_json_faithful) (auto simp: compute_hash_def dest: inj_onD)

subsection \<open>Demonstration data\<close>

text \<open>A serializer that keeps the struct and a digest of the sequence number and the subject.\<close>

definition demo_hash :: "(CanonicalEvent + CanonicalEventV2) hash_api" where
  "demo_hash = \<lparr> json_v1 = Inl, json_v2 = Inr,
     sha256_hex = (\<lambda>c. case c of
        Inl d \<Rightarrow> ''1/'' @ show_u64 (ce_seq_no d) @ ce_subject_key d
      | Inr d \<Rightarrow> ''2/'' @ show_u64 (ce_seq_no d) @ ce_subject_key d),
     sha256_text = id \<rparr>"

definition demo_event :: "u64 \<Rightarrow> string \<Rightarrow> string \<Rightarrow> string \<Rightarrow> EnforcementEvent" where
  "demo_event n prev subj h =
     \<lparr> event_id = ''id'', schema_version = 2, seq_no = n, recorded_at_ms = 1000 + n, event_type = DenyEvent,
       event_hash = h, prev_hash = prev, installation_id = ''inst'', actor_local = None,
       agent_type = ''claude'', subject_kind = SubjectFile, subject_key = subj,
       canonical_subject_hash = None, receipt_id = None, decision_reason_code = ''gotcha_above_threshold'',
       decision_basis_hash = None, agent_session = Some ''s1'' \<rparr>"

definition demo_chain :: "EnforcementEvent list" where
  "demo_chain = [demo_event 3 ''2/2b'' ''c'' ''2/3c'', demo_event 1 [] ''a'' ''2/1a'', demo_event 2 ''2/1a'' ''b'' ''2/2b'']"

lemma demo_faithful [simp]: "json_faithful demo_hash"
  by (simp add: json_faithful_def demo_hash_def)

lemma show_small_digits:
  "show_nat (Suc 0) = ''1''" "show_nat 2 = ''2''" "show_nat 3 = ''3''"
  by code_simp+

lemmas chain_eval = show_small_digits word_le_nat_alt word_less_nat_alt
  demo_chain_def demo_event_def demo_hash_def compute_hash_def canonical_json_def canonical_v2_def
  show_u64_def digit_char_def SCHEMA_VERSION_def

lemma demo_chain_sorted:
  "sort_key seq_no demo_chain = [] @ [demo_event 1 [] ''a'' ''2/1a'', demo_event 2 ''2/1a'' ''b'' ''2/2b'', demo_event 3 ''2/2b'' ''c'' ''2/3c''] @ []"
  by (simp add: demo_chain_def demo_event_def word_le_nat_alt)

lemma demo_chain_valid: "is_valid (verify_chain demo_hash demo_chain)"
  unfolding is_valid_chained demo_chain_sorted
  by (simp add: chained_def intact_def links_def chain_eval)

subsection \<open>Properties of the chain\<close>

text \<open>
  C4. A chain is reported valid exactly when every event has a schema this version knows and a stored
  hash equal to the recomputed one, and each event, in sequence order, carries the stored hash of
  its predecessor. The earliest event's \<open>prev_hash\<close> is not constrained.
\<close>

theorem verify_chain_valid_iff:
  "is_valid (verify_chain H evs) \<longleftrightarrow>
     list_all (\<lambda>e. schema_version e \<le> SCHEMA_VERSION \<and> event_hash e = compute_hash H e) evs
     \<and> successively (\<lambda>p e. prev_hash e = event_hash p) (sort_key seq_no evs)"
  by (simp add: is_valid_chained chained_def intact_def links_def [abs_def] list_all_iff)

text \<open>
  The report of \<open>verify_chain\<close> is consistent: every event is either checked or counted as unknown,
  one located break is listed per counted failure, and the list is empty exactly when the verdict
  is valid.
\<close>

theorem verify_chain_report:
  "cv_checked (verify_chain H evs) + cv_unknown_schema (verify_chain H evs) = length evs
   \<and> length (cv_breaks (verify_chain H evs)) = cv_tampered_events (verify_chain H evs)
       + cv_linkage_breaks (verify_chain H evs) + cv_unknown_schema (verify_chain H evs)
   \<and> (cv_breaks (verify_chain H evs) = [] \<longleftrightarrow> is_valid (verify_chain H evs))"
proof -
  let ?v = "verify_chain H evs"
  have "cv_checked ?v + cv_unknown_schema ?v = length evs"
    using verify_loop_checked [of H None "sort_key seq_no evs" verification_default]
    by (simp add: verify_chain_def verification_default_def)
  moreover have l: "length (cv_breaks ?v) = cv_tampered_events ?v + cv_linkage_breaks ?v + cv_unknown_schema ?v"
    using verify_loop_breaks [of H None "sort_key seq_no evs" verification_default]
    by (simp add: verify_chain_def verification_default_def)
  moreover have "cv_breaks ?v = [] \<longleftrightarrow> is_valid ?v"
    using l by (auto simp: is_valid_def length_0_conv [symmetric] simp del: length_0_conv)
  ultimately show ?thesis by blast
qed

text \<open>
  The verdict and the whole report do not depend on the order in which the events are handed
  over, as long as no two events share a sequence number.
\<close>

theorem verify_chain_order_irrelevant:
  assumes "mset evs = mset evs'" and "distinct (map seq_no evs)"
  shows "verify_chain H evs = verify_chain H evs'"
  using sort_key_perm [OF assms] by (simp add: verify_chain_def)

theorem verify_chain_order_irrelevant_witness:
  "verify_chain demo_hash demo_chain = verify_chain demo_hash (rev demo_chain)"
  by (rule verify_chain_order_irrelevant) (simp_all add: demo_chain_def demo_event_def)

text \<open>
  Content tampering is detected: if an event still carries the hash that was computed for the
  event as recorded, but any hashed field differs from what was recorded, no collection of events
  that contains it is reported valid. (The serializer is faithful and SHA-256 does not collide on these two texts.)
\<close>

theorem tampering_detected:
  assumes "json_faithful H" and "inj_on (sha256_hex H) {canonical_json H e, canonical_json H recorded}"
    and "event_hash e = compute_hash H recorded" and "hashed_part e \<noteq> hashed_part recorded"
    and "e \<in> set evs"
  shows "\<not> is_valid (verify_chain H evs)"
proof
  assume "is_valid (verify_chain H evs)"
  then have "event_hash e = compute_hash H e"
    using assms(5) by (simp add: is_valid_chained chained_def intact_def list_all_iff)
  with assms(3) have "hashed_part e = hashed_part recorded"
    by (intro compute_hash_inject [OF assms(1,2)]) simp
  with assms(4) show False by contradiction
qed

theorem tampering_detected_witness:
  "\<not> is_valid (verify_chain demo_hash [demo_event 1 [] ''b'' ''2/1a''])"
  by (rule tampering_detected [OF demo_faithful, of "demo_event 1 [] ''b'' ''2/1a''" "demo_event 1 [] ''a'' ''2/1a''"])
     (simp_all add: chain_eval hashed_part_def canonical_v1_def del: demo_faithful)

text \<open>
  Deleting an event from the middle of a valid chain is detected: with the event \<open>b\<close> between \<open>a\<close> and
  \<open>c\<close> removed, the rest is no longer valid.
\<close>

theorem deletion_detected:
  assumes "json_faithful H" and "inj_on (sha256_hex H) {canonical_json H a, canonical_json H b}"
    and "is_valid (verify_chain H evs)"
    and "sort_key seq_no evs = xs @ [a, b, c] @ ys" and "distinct (map seq_no evs)"
  shows "\<not> is_valid (verify_chain H (filter (\<lambda>e. seq_no e \<noteq> seq_no b) evs))"
proof
  let ?es = "xs @ [a, b, c] @ ys"
  assume v: "is_valid (verify_chain H (filter (\<lambda>e. seq_no e \<noteq> seq_no b) evs))"
  have ch: "chained H ?es" using assms(3,4) by (simp add: is_valid_chained)
  have "distinct (map seq_no (sort_key seq_no evs))" using assms(5) by (simp add: distinct_map)
  then have d: "distinct (map seq_no ?es)" using assms(4) by simp
  then have "filter (\<lambda>e. seq_no e \<noteq> seq_no b) xs = xs" "filter (\<lambda>e. seq_no e \<noteq> seq_no b) ys = ys"
    by (auto simp: filter_id_conv image_iff eq_commute [of "seq_no b"])
  with d have "filter (\<lambda>e. seq_no e \<noteq> seq_no b) ?es = xs @ [a, c] @ ys" by auto
  with v have "chained H (xs @ [a, c] @ ys)"
    by (simp add: is_valid_chained sort_key_filter assms(4))
  then have "prev_hash c = event_hash a" by (simp add: chained_def successively_append_iff links_def)
  moreover have "prev_hash c = event_hash b" "event_hash a = compute_hash H a" "event_hash b = compute_hash H b"
    using ch by (simp_all add: chained_def successively_append_iff links_def intact_def)
  ultimately have "hashed_part a = hashed_part b" by (intro compute_hash_inject [OF assms(1,2)]) simp
  then have "seq_no a = seq_no b" by (rule hashed_part_seq_no)
  with d show False by simp
qed

theorem deletion_detected_witness:
  "\<not> is_valid (verify_chain demo_hash (filter (\<lambda>e. seq_no e \<noteq> 2) demo_chain))"
proof -
  let ?b = "demo_event 2 ''2/1a'' ''b'' ''2/2b''"
  have "\<not> is_valid (verify_chain demo_hash (filter (\<lambda>e. seq_no e \<noteq> seq_no ?b) demo_chain))"
    by (rule deletion_detected [OF demo_faithful _ demo_chain_valid demo_chain_sorted]) (simp_all add: chain_eval)
  then show ?thesis by (simp add: demo_event_def)
qed

text \<open>
  Pruning a prefix is not a break: the events of a valid chain from any sequence number on are
  still reported valid.
\<close>

theorem pruned_prefix_valid:
  assumes "is_valid (verify_chain H evs)"
  shows "is_valid (verify_chain H (filter (\<lambda>e. n \<le> seq_no e) evs))"
proof -
  have "chained H (filter (\<lambda>e. seq_no e < n) (sort_key seq_no evs) @ filter (\<lambda>e. n \<le> seq_no e) (sort_key seq_no evs))"
    using assms filter_ge_tail [of seq_no "sort_key seq_no evs" n] by (simp add: is_valid_chained)
  then show ?thesis by (simp add: is_valid_chained chained_append sort_key_filter)
qed

theorem pruned_prefix_valid_witness:
  "is_valid (verify_chain demo_hash (filter (\<lambda>e. 2 \<le> seq_no e) demo_chain))"
  using pruned_prefix_valid [OF demo_chain_valid, of 2] .

subsection \<open>Properties of the aggregates\<close>

lemma foldl_count_event:
  fixes c :: EnforcementEventCounts
  defines "counted T es \<equiv> (word_of_nat (length (filter (\<lambda>e. event_type e = T) es)) :: u64)"
  shows "denials (foldl count_event c es) = denials c + counted DenyEvent es"
    and "bypasses (foldl count_event c es) = bypasses c + counted BypassDetected es"
    and "total (foldl count_event c es) = total c"
  by (induction es arbitrary: c)
     (auto simp: count_event_def counted_def Let_def split: EnforcementEventType.split ControlChangeKind.split)

definition bucket_sum :: "EnforcementEventCounts \<Rightarrow> u64" where
  "bucket_sum c = denials c + allowed_after_receipt c + receipts_minted c + bypasses c + controls_changed c
     + config_changes c + gaps c + retention_prunes c"

definition lifecycle_sum :: "EnforcementEventCounts \<Rightarrow> u64" where
  "lifecycle_sum c = controls_created c + controls_confirmed c + controls_updated c + controls_removed c"

lemma count_event_sums:
  "bucket_sum (count_event c e) = bucket_sum c + 1"
  "lifecycle_sum (count_event c e) - controls_changed (count_event c e) = lifecycle_sum c - controls_changed c"
  by (auto simp: count_event_def bucket_sum_def lifecycle_sum_def Let_def
      split: EnforcementEventType.split ControlChangeKind.split)

lemma foldl_count_sums:
  "bucket_sum (foldl count_event c es) = bucket_sum c + word_of_nat (length es)"
  "lifecycle_sum (foldl count_event c es) - controls_changed (foldl count_event c es)
     = lifecycle_sum c - controls_changed c"
proof -
  show "bucket_sum (foldl count_event c es) = bucket_sum c + word_of_nat (length es)"
    by (induction es arbitrary: c) (simp_all add: count_event_sums algebra_simps)
  show "lifecycle_sum (foldl count_event c es) - controls_changed (foldl count_event c es)
     = lifecycle_sum c - controls_changed c"
    by (induction es arbitrary: c) (simp_all add: count_event_sums del: diff_eq_eq eq_diff_eq)
qed

text \<open>
  The counts add up: the total is the number of events and the sum of the eight buckets, the four
  lifecycle counters sum to \<open>controls_changed\<close>, and the denials and bypasses are the numbers of such
  events (all modulo \<open>2\<^sup>64\<close>, as the counters are 64 bits wide).
\<close>

theorem aggregate_counts_consistent:
  "total (aggregate_event_counts evs) = word_of_nat (length evs)
   \<and> total (aggregate_event_counts evs) = bucket_sum (aggregate_event_counts evs)
   \<and> lifecycle_sum (aggregate_event_counts evs) = controls_changed (aggregate_event_counts evs)
   \<and> denials (aggregate_event_counts evs) = word_of_nat (length (filter (\<lambda>e. event_type e = DenyEvent) evs))
   \<and> bypasses (aggregate_event_counts evs) = word_of_nat (length (filter (\<lambda>e. event_type e = BypassDetected) evs))"
proof -
  define c0 :: EnforcementEventCounts where "c0 =
    \<lparr> total = word_of_nat (length evs), denials = 0, allowed_after_receipt = 0, receipts_minted = 0,
      bypasses = 0, controls_changed = 0, controls_created = 0, controls_confirmed = 0,
      controls_updated = 0, controls_removed = 0, config_changes = 0, gaps = 0, retention_prunes = 0 \<rparr>"
  have a: "aggregate_event_counts evs = foldl count_event c0 evs"
    by (simp add: aggregate_event_counts_def c0_def)
  have c0: "total c0 = word_of_nat (length evs)" "bucket_sum c0 = 0" "lifecycle_sum c0 - controls_changed c0 = 0"
    "denials c0 = 0" "bypasses c0 = 0"
    by (simp_all add: c0_def bucket_sum_def lifecycle_sum_def)
  show ?thesis using foldl_count_sums [of c0 evs] by (simp add: a c0 foldl_count_event)
qed

lemma find_sorted_Some:
  fixes xs :: "'a::linorder list"
  assumes "sorted xs"
  shows "find P xs = Some t \<longleftrightarrow> t \<in> set xs \<and> P t \<and> (\<forall>u\<in>set xs. P u \<longrightarrow> t \<le> u)"
  using assms
proof (induction xs)
  case (Cons a xs)
  then show ?case by (cases "P a") (auto intro: order.antisym)
qed simp

text \<open>
  A denial is paired with the first consultation that follows it: it has the time-to-consult \<open>d\<close>
  exactly when \<open>d\<close> is within the 15-minute window and some receipt for the same subject was minted
  \<open>d\<close> milliseconds later, with no receipt for that subject in between.
\<close>

theorem consult_delta_first_receipt:
  "consult_delta evs e = Some d \<longleftrightarrow>
     d \<le> 900000 \<and> recorded_at_ms e \<le> recorded_at_ms e + d
     \<and> recorded_at_ms e + d \<in> set (receipt_times evs (subject_key e))
     \<and> list_all (\<lambda>t. t < recorded_at_ms e \<or> recorded_at_ms e + d \<le> t) (receipt_times evs (subject_key e))"
proof -
  let ?ts = "receipt_times evs (subject_key e)" and ?a = "recorded_at_ms e"
  have "sorted ?ts" by (simp add: receipt_times_def)
  note f = find_sorted_Some [OF this, of "\<lambda>t. ?a \<le> t"]
  have w: "CONSULTED_RECENT_TTL_SECS * 1000 = (900000 :: u64)" by (simp add: CONSULTED_RECENT_TTL_SECS_def)
  have "consult_delta evs e = Some d \<longleftrightarrow> find (\<lambda>t. ?a \<le> t) ?ts = Some (?a + d) \<and> d \<le> 900000"
    by (auto simp: consult_delta_def w Let_def algebra_simps split: option.splits if_splits)
  also have "\<dots> \<longleftrightarrow> d \<le> 900000 \<and> ?a \<le> ?a + d \<and> ?a + d \<in> set ?ts
     \<and> list_all (\<lambda>t. t < ?a \<or> ?a + d \<le> t) ?ts"
    by (auto simp: f list_all_iff not_less)
  finally show ?thesis .
qed

lemma consult_delta_le: "consult_delta evs e = Some d \<Longrightarrow> d \<le> 900000"
  by (auto simp: consult_delta_def CONSULTED_RECENT_TTL_SECS_def Let_def split: option.splits if_splits)

lemma median_in_range:
  assumes "median_u64 vs = Some m" and "\<forall>v\<in>set vs. v \<le> b" and "unat b < 2 ^ 63"
  shows "m \<le> b"
proof -
  let ?s = "sort vs" and ?n = "length vs"
  have ne: "vs \<noteq> []" using assms(1) by (auto simp: median_u64_def)
  then have nth: "?s ! i \<le> b" if "i < ?n" for i
    using assms(2) nth_mem [of i ?s] that by simp
  have m: "m = ?s ! (?n div 2) \<or> m = (?s ! (?n div 2 - 1) + ?s ! (?n div 2)) div 2"
    using assms(1) ne by (auto simp: median_u64_def Let_def split: if_splits)
  have "?n div 2 < ?n" "?n div 2 - 1 < ?n" using ne by (simp_all add: less_imp_diff_less)
  then have le: "unat (?s ! (?n div 2)) \<le> unat b" "unat (?s ! (?n div 2 - 1)) \<le> unat b"
    using nth by (simp_all add: word_le_nat_alt)
  have "unat ((?s ! (?n div 2 - 1) + ?s ! (?n div 2)) div 2) \<le> unat b"
    using le assms(3) by (simp add: unat_div unat_word_ariths)
  with m le show ?thesis by (auto simp: word_le_nat_alt)
qed

text \<open>
  The reported median lies within the consultation window and is present exactly when a pair was
  found, and there are never more distinct blocked sessions than attributed denials.
\<close>

theorem derived_metrics_bounds:
  "(dm_median_time_to_consult_ms (derive_enforcement_metrics evs) = None \<longleftrightarrow> consult_deltas evs = [])
   \<and> list_all (\<lambda>m. m \<le> 900000) (case dm_median_time_to_consult_ms (derive_enforcement_metrics evs) of None \<Rightarrow> [] | Some m \<Rightarrow> [m])
   \<and> length (remdups (denied_sessions evs)) \<le> length (denied_sessions evs)
   \<and> length (consult_deltas evs) \<le> length (filter (\<lambda>e. event_type e = DenyEvent) evs)"
proof -
  let ?d = "consult_deltas evs"
  have "\<forall>v\<in>set ?d. v \<le> 900000"
    by (force simp: consult_deltas_def map_filter_def dest: consult_delta_le)
  then have "m \<le> 900000" if "median_u64 ?d = Some m" for m
    using median_in_range [OF that] by simp
  moreover have "length (List.map_filter f xs) \<le> length xs" for f :: "EnforcementEvent \<Rightarrow> u64 option" and xs
    by (induction xs) (auto simp: map_filter_simps split: option.split)
  ultimately show ?thesis
    by (auto simp: derive_enforcement_metrics_def Let_def median_u64_def consult_deltas_def length_remdups_leq
        split: option.split if_splits)
qed

end
