(* ===== verification/Audit_Writer.thy ===== *)
theory Audit_Writer
  imports Store_Laws Audit_Chain
begin

section \<open>Recording enforcement events (\<open>store/enforcement.rs\<close>)\<close>

text \<open>
  The half of \<open>store/enforcement.rs\<close> that uses the store: the sequence counter, the event
  writer, recording under the two enforcement modes, retention and startup gaps. The JSON form in
  which an event is stored is the parameter \<open>event_api\<close>; the clock, the UUID generator and the process
  environment are the fields of \<open>audit_env\<close>, read afresh for each call. The process-global registry of
  writers holds, for the one store, no writer yet or the shared writer; its mutex makes every call one step.
\<close>

subsection \<open>Encodings and environment\<close>

record 'v event_api =
  ev_encode :: "EnforcementEvent \<Rightarrow> 'v option"
  ev_decode :: "'v \<Rightarrow> EnforcementEvent option"

record audit_env =
  now_ms :: u64
  uuid7 :: string
  uuid4 :: string
  env_user :: "string option"
  env_username :: "string option"
  env_uid :: "u32 option"

definition SEQ_KEY :: string where "SEQ_KEY = ''enforcement:seq''"
definition INSTALLATION_ID_KEY :: string where "INSTALLATION_ID_KEY = ''system:installation_id''"
definition EVENT_PREFIX :: string where "EVENT_PREFIX = ''enforcement:event:''"
definition ENFORCEMENT_MODE_KEY :: string where "ENFORCEMENT_MODE_KEY = ''enforcement:mode''"
definition RETENTION_DAYS_KEY :: string where "RETENTION_DAYS_KEY = ''enforcement:retention_days''"
definition DEFAULT_RETENTION_DAYS :: u64 where "DEFAULT_RETENTION_DAYS = 365"

definition event_key :: "u64 \<Rightarrow> string" where
  "event_key n = EVENT_PREFIX @ zero_pad 20 (show_u64 n)"

definition key_seq :: "string \<Rightarrow> u64 option" where
  "key_seq k = Option.bind (strip_prefix k EVENT_PREFIX) parse_u64"

definition get_local_actor :: "audit_env \<Rightarrow> ActorLocal option" where
  "get_local_actor env =
     map_option (\<lambda>u. \<lparr> username = u, uid = env_uid env, verified = False \<rparr>)
       (case env_user env of Some u \<Rightarrow> Some u | None \<Rightarrow> env_username env)"

subsection \<open>Sequence numbers and the installation id\<close>

record SeqAllocator =
  current :: u64

definition seq_load :: "('t, 'x, 'v, 'j) store_api \<Rightarrow> ('t, 'x) Store \<Rightarrow> SeqAllocator" where
  "seq_load A S =
     \<lparr> current = (case get_raw_bytes A S SEQ_KEY of
         Inr (Some v) \<Rightarrow> if length (to_bytes A v) = 8 then from_be_bytes (to_bytes A v) else 0
       | _ \<Rightarrow> 0) \<rparr>"

text \<open>The counter is advanced before the write, so it stays advanced when the write fails.\<close>

definition seq_next ::
  "('t, 'x, 'v, 'j) store_api \<Rightarrow> ('t, 'x) Store \<Rightarrow> SeqAllocator
   \<Rightarrow> ('t, 'x) Store \<times> SeqAllocator \<times> (store_error, u64) result" where
  "seq_next A S q =
     (let q1 = q\<lparr>current := current q + 1\<rparr>
      in case put_raw A S SEQ_KEY (of_bytes A (to_be_bytes (current q1))) of
           (S1, Inl e) \<Rightarrow> (S1, q1, Err e)
         | (S1, Inr _) \<Rightarrow> (S1, q1, Ok (current q1)))"

definition get_or_create_installation_id ::
  "('t, 'x, 'v, 'j) store_api \<Rightarrow> ('t, 'x) Store \<Rightarrow> string \<Rightarrow> ('t, 'x, string) store_result" where
  "get_or_create_installation_id A S fresh_id =
     (let create = (case put_raw A S INSTALLATION_ID_KEY (of_bytes A fresh_id) of
                      (S1, Inl e) \<Rightarrow> (S1, Err e) | (S1, Inr _) \<Rightarrow> (S1, Ok fresh_id))
      in case get_raw_bytes A S INSTALLATION_ID_KEY of
           Inr (Some v) \<Rightarrow>
             (let i = to_bytes A v in if utf8_ok i \<and> i \<noteq> [] then (S, Ok i) else create)
         | _ \<Rightarrow> create)"

subsection \<open>The writer\<close>

record EnforcementEventWriter =
  w_seq :: SeqAllocator
  w_installation_id :: string
  w_prev_hash :: string
  w_agent_session :: "string option"

text \<open>\<open>max_by_key\<close> returns the last of several maximal elements.\<close>

fun max_by_key :: "('a \<Rightarrow> 'b::linorder) \<Rightarrow> 'a list \<Rightarrow> 'a option" where
  "max_by_key f [] = None"
| "max_by_key f (x # xs) = Some (foldl (\<lambda>m y. if f m \<le> f y then y else m) x xs)"

definition load_last_hash ::
  "('t, 'x, 'v, 'j) store_api \<Rightarrow> 'v event_api \<Rightarrow> ('t, 'x) Store \<Rightarrow> string" where
  "load_last_hash A E S =
     (case scan_keys A S EVENT_PREFIX of
        Inl _ \<Rightarrow> []
      | Inr keys \<Rightarrow>
          (case max_by_key (\<lambda>k. unwrap_or (key_seq k) 0) keys of
             None \<Rightarrow> []
           | Some k \<Rightarrow>
               (case get_raw_bytes A S k of
                  Inr (Some v) \<Rightarrow> (case ev_decode E v of None \<Rightarrow> [] | Some e \<Rightarrow> event_hash e)
                | _ \<Rightarrow> [])))"

definition writer_new ::
  "('t, 'x, 'v, 'j) store_api \<Rightarrow> 'v event_api \<Rightarrow> ('t, 'x) Store \<Rightarrow> string
   \<Rightarrow> ('t, 'x, EnforcementEventWriter) store_result" where
  "writer_new A E S fresh_id =
     (let q = seq_load A S
      in case get_or_create_installation_id A S fresh_id of
           (S1, Inl e) \<Rightarrow> (S1, Err e)
         | (S1, Inr i) \<Rightarrow>
             (S1, Ok \<lparr> w_seq = q, w_installation_id = i, w_prev_hash = load_last_hash A E S1, w_agent_session = None \<rparr>))"

text \<open>The arguments of \<open>write\<close>.\<close>

record event_request =
  rq_event_type :: EnforcementEventType
  rq_subject_kind :: SubjectKind
  rq_subject_key :: string
  rq_agent_type :: string
  rq_receipt_id :: "string option"
  rq_reason_code :: string
  rq_basis_hash :: "string option"

definition unhashed_event ::
  "'s hash_api \<Rightarrow> audit_env \<Rightarrow> EnforcementEventWriter \<Rightarrow> u64 \<Rightarrow> event_request \<Rightarrow> EnforcementEvent" where
  "unhashed_event H env w n rq =
     \<lparr> event_id = uuid7 env, schema_version = SCHEMA_VERSION, seq_no = n, recorded_at_ms = now_ms env,
       event_type = rq_event_type rq, event_hash = [], prev_hash = w_prev_hash w,
       installation_id = w_installation_id w, actor_local = get_local_actor env,
       agent_type = rq_agent_type rq, subject_kind = rq_subject_kind rq, subject_key = rq_subject_key rq,
       canonical_subject_hash =
         (if rq_subject_kind rq = SubjectFile then Some (sha256_text H (rq_subject_key rq)) else None),
       receipt_id = rq_receipt_id rq, decision_reason_code = rq_reason_code rq,
       decision_basis_hash = rq_basis_hash rq, agent_session = w_agent_session w \<rparr>"

definition writer_write ::
  "('t, 'x, 'v, 'j) store_api \<Rightarrow> 's hash_api \<Rightarrow> 'v event_api \<Rightarrow> audit_env \<Rightarrow> ('t, 'x) Store
   \<Rightarrow> EnforcementEventWriter \<Rightarrow> event_request
   \<Rightarrow> ('t, 'x) Store \<times> EnforcementEventWriter \<times> (store_error, EnforcementEvent) result" where
  "writer_write A H E env S w rq =
     (case seq_next A S (w_seq w) of
        (S1, q1, Inl err) \<Rightarrow> (S1, w\<lparr>w_seq := q1\<rparr>, Err err)
      | (S1, q1, Inr n) \<Rightarrow>
          (let w1 = w\<lparr>w_seq := q1\<rparr>;
               e0 = unhashed_event H env w1 n rq;
               e = e0\<lparr>event_hash := compute_hash H e0\<rparr>
           in case ev_encode E e of
                None \<Rightarrow> (S1, w1, Err (SerializeError (event_key n)))
              | Some v \<Rightarrow>
                  (case put_raw A S1 (event_key n) v of
                     (S2, Inl err) \<Rightarrow> (S2, w1, Err err)
                   | (S2, Inr _) \<Rightarrow> (S2, w1\<lparr>w_prev_hash := event_hash e\<rparr>, Ok e))))"

definition gap_request :: "u64 \<Rightarrow> u64 \<Rightarrow> GapCause \<Rightarrow> event_request" where
  "gap_request gap_start gap_end c =
     \<lparr> rq_event_type = RecordingGap gap_start gap_end c Advisory UnknownMissed Inferred,
       rq_subject_kind = SubjectSystem, rq_subject_key = ''enforcement:stream'', rq_agent_type = ''system'',
       rq_receipt_id = None, rq_reason_code = ''recording_gap_detected'', rq_basis_hash = None \<rparr>"

definition detect_and_record_gap ::
  "('t, 'x, 'v, 'j) store_api \<Rightarrow> 's hash_api \<Rightarrow> 'v event_api \<Rightarrow> audit_env \<Rightarrow> ('t, 'x) Store
   \<Rightarrow> EnforcementEventWriter \<Rightarrow> u64 \<Rightarrow> u64 \<Rightarrow> GapCause
   \<Rightarrow> ('t, 'x) Store \<times> EnforcementEventWriter \<times> (store_error, EnforcementEvent) result" where
  "detect_and_record_gap A H E env S w gap_start gap_end c =
     writer_write A H E env S w (gap_request gap_start gap_end c)"

subsection \<open>Scanning\<close>

text \<open>A key that does not parse, lies outside the range, cannot be read or decoded is skipped.\<close>

definition scan_event ::
  "('t, 'x, 'v, 'j) store_api \<Rightarrow> 'v event_api \<Rightarrow> ('t, 'x) Store \<Rightarrow> u64 \<Rightarrow> u64 \<Rightarrow> string \<Rightarrow> EnforcementEvent option" where
  "scan_event A E S since_seq until_seq k =
     (case key_seq k of
        None \<Rightarrow> None
      | Some n \<Rightarrow>
          (if n < since_seq \<or> until_seq < n then None
           else case get_raw_bytes A S k of Inr (Some v) \<Rightarrow> ev_decode E v | _ \<Rightarrow> None))"

definition scan_enforcement_events ::
  "('t, 'x, 'v, 'j) store_api \<Rightarrow> 'v event_api \<Rightarrow> ('t, 'x) Store \<Rightarrow> u64 \<Rightarrow> u64
   \<Rightarrow> (store_error, EnforcementEvent list) result" where
  "scan_enforcement_events A E S since_seq until_seq =
     rbind (scan_keys A S EVENT_PREFIX) (\<lambda>keys.
       Ok (sort_key seq_no (List.map_filter (scan_event A E S since_seq until_seq) keys)))"

definition scan_events_since ::
  "('t, 'x, 'v, 'j) store_api \<Rightarrow> 'v event_api \<Rightarrow> ('t, 'x) Store \<Rightarrow> u64 \<Rightarrow> (store_error, EnforcementEvent list) result" where
  "scan_events_since A E S since_ms =
     rbind (scan_enforcement_events A E S 0 (- 1)) (\<lambda>es. Ok (filter (\<lambda>e. since_ms \<le> recorded_at_ms e) es))"

definition count_events_by_type ::
  "('t, 'x, 'v, 'j) store_api \<Rightarrow> 'v event_api \<Rightarrow> ('t, 'x) Store \<Rightarrow> u64 \<Rightarrow> (store_error, EnforcementEventCounts) result" where
  "count_events_by_type A E S since_ms =
     rbind (scan_events_since A E S since_ms) (\<lambda>es. Ok (aggregate_event_counts es))"

subsection \<open>Settings\<close>

definition get_enforcement_mode :: "('t, 'x, 'v, 'j) store_api \<Rightarrow> ('t, 'x) Store \<Rightarrow> EnforcementMode" where
  "get_enforcement_mode A S =
     (case get_raw_bytes A S ENFORCEMENT_MODE_KEY of
        Inr (Some v) \<Rightarrow> if to_bytes A v = ''strict'' then Strict else Advisory
      | _ \<Rightarrow> Advisory)"

definition get_retention_days :: "('t, 'x, 'v, 'j) store_api \<Rightarrow> ('t, 'x) Store \<Rightarrow> u64" where
  "get_retention_days A S =
     (case get_raw_bytes A S RETENTION_DAYS_KEY of
        Inr (Some v) \<Rightarrow>
          (if utf8_ok (to_bytes A v) then unwrap_or (parse_u64 (to_bytes A v)) DEFAULT_RETENTION_DAYS
           else DEFAULT_RETENTION_DAYS)
      | _ \<Rightarrow> DEFAULT_RETENTION_DAYS)"

definition set_retention_days ::
  "('t, 'x, 'v, 'j) store_api \<Rightarrow> ('t, 'x) Store \<Rightarrow> u64 \<Rightarrow> ('t, 'x, unit) store_result" where
  "set_retention_days A S days = put_raw A S RETENTION_DAYS_KEY (of_bytes A (show_u64 days))"

subsection \<open>Recording\<close>

text \<open>The store and the registry's writer for it.\<close>

record ('t, 'x) Audit =
  a_store :: "('t, 'x) Store"
  a_writer :: "EnforcementEventWriter option"

type_synonym ('t, 'x, 'a) audit_result = "('t, 'x) Audit \<times> (store_error, 'a) result"

definition shared_writer ::
  "('t, 'x, 'v, 'j) store_api \<Rightarrow> 'v event_api \<Rightarrow> audit_env \<Rightarrow> ('t, 'x) Audit
   \<Rightarrow> ('t, 'x, EnforcementEventWriter) audit_result" where
  "shared_writer A E env a =
     (case a_writer a of
        Some w \<Rightarrow> (a, Ok w)
      | None \<Rightarrow>
          (case writer_new A E (a_store a) (uuid4 env) of
             (S1, Inl e) \<Rightarrow> (a\<lparr>a_store := S1\<rparr>, Err e)
           | (S1, Inr w) \<Rightarrow> (\<lparr> a_store = S1, a_writer = Some w \<rparr>, Ok w)))"

definition record_event_with_session ::
  "('t, 'x, 'v, 'j) store_api \<Rightarrow> 's hash_api \<Rightarrow> 'v event_api \<Rightarrow> audit_env \<Rightarrow> ('t, 'x) Audit
   \<Rightarrow> event_request \<Rightarrow> string option \<Rightarrow> ('t, 'x, EnforcementEvent option) audit_result" where
  "record_event_with_session A H E env a rq session =
     (let mode = get_enforcement_mode A (a_store a);
          fail = (\<lambda>e. case mode of Advisory \<Rightarrow> Ok None | Strict \<Rightarrow> Err e)
      in case shared_writer A E env a of
           (a1, Inl e) \<Rightarrow> (a1, fail e)
         | (a1, Inr w) \<Rightarrow>
             (case writer_write A H E env (a_store a1) (w\<lparr>w_agent_session := session\<rparr>) rq of
                (S2, w2, Inl e) \<Rightarrow> (\<lparr> a_store = S2, a_writer = Some w2 \<rparr>, fail e)
              | (S2, w2, Inr e) \<Rightarrow> (\<lparr> a_store = S2, a_writer = Some w2 \<rparr>, Ok (Some e))))"

definition record_event ::
  "('t, 'x, 'v, 'j) store_api \<Rightarrow> 's hash_api \<Rightarrow> 'v event_api \<Rightarrow> audit_env \<Rightarrow> ('t, 'x) Audit
   \<Rightarrow> event_request \<Rightarrow> ('t, 'x, EnforcementEvent option) audit_result" where
  "record_event A H E env a rq = record_event_with_session A H E env a rq None"

definition mode_value :: "EnforcementMode \<Rightarrow> string" where
  "mode_value m = (case m of Advisory \<Rightarrow> ''advisory'' | Strict \<Rightarrow> ''strict'')"

definition user_label :: "EnforcementMode \<Rightarrow> string" where
  "user_label m = (case m of Advisory \<Rightarrow> ''best_effort'' | Strict \<Rightarrow> ''strict'')"

definition mode_request :: "EnforcementMode \<Rightarrow> EnforcementMode \<Rightarrow> event_request" where
  "mode_request old new =
     \<lparr> rq_event_type = EnforcementConfigChanged ''audit.write_durability'' (user_label old) (user_label new),
       rq_subject_kind = SubjectConfig, rq_subject_key = ''enforcement:mode'', rq_agent_type = ''developer'',
       rq_receipt_id = None, rq_reason_code = ''config_changed'', rq_basis_hash = None \<rparr>"

definition set_enforcement_mode ::
  "('t, 'x, 'v, 'j) store_api \<Rightarrow> 's hash_api \<Rightarrow> 'v event_api \<Rightarrow> audit_env \<Rightarrow> ('t, 'x) Audit
   \<Rightarrow> EnforcementMode \<Rightarrow> ('t, 'x, EnforcementMode) audit_result" where
  "set_enforcement_mode A H E env a mode =
     (let old = get_enforcement_mode A (a_store a)
      in case put_raw A (a_store a) ENFORCEMENT_MODE_KEY (of_bytes A (mode_value mode)) of
           (S1, Inl e) \<Rightarrow> (a\<lparr>a_store := S1\<rparr>, Err e)
         | (S1, Inr _) \<Rightarrow>
             (if old \<noteq> mode
              then (fst (record_event A H E env (a\<lparr>a_store := S1\<rparr>) (mode_request old mode)), Ok old)
              else (a\<lparr>a_store := S1\<rparr>, Ok old)))"

subsection \<open>Retention and startup gaps\<close>

datatype PruneResult = NothingToPrune | Pruned u64 u64 u64

text \<open>The multiplication wraps in the release profile.\<close>

definition retention_cutoff :: "u64 \<Rightarrow> u64 \<Rightarrow> u64" where
  "retention_cutoff now days = sat_sub now (days * 86400000)"

fun delete_events ::
  "('t, 'x, 'v, 'j) store_api \<Rightarrow> ('t, 'x) Store \<Rightarrow> EnforcementEvent list \<Rightarrow> ('t, 'x, unit) store_result" where
  "delete_events A S [] = (S, Ok ())"
| "delete_events A S (e # es) =
     (case store_delete A S (event_key (seq_no e)) of
        (S1, Inl err) \<Rightarrow> (S1, Err err)
      | (S1, Inr _) \<Rightarrow> delete_events A S1 es)"

definition prune_request :: "EnforcementEvent list \<Rightarrow> event_request" where
  "prune_request old =
     \<lparr> rq_event_type = RetentionPruned (word_of_nat (length old)) (seq_no (hd old)) (seq_no (last old)),
       rq_subject_kind = SubjectSystem, rq_subject_key = ''enforcement:retention'', rq_agent_type = ''system'',
       rq_receipt_id = None, rq_reason_code = ''retention_policy_enforced'', rq_basis_hash = None \<rparr>"

text \<open>\<open>now\<close> is the clock at the cutoff; \<open>env\<close> is read later, when the prune is recorded.\<close>

definition enforce_retention ::
  "('t, 'x, 'v, 'j) store_api \<Rightarrow> 's hash_api \<Rightarrow> 'v event_api \<Rightarrow> u64 \<Rightarrow> audit_env \<Rightarrow> ('t, 'x) Audit
   \<Rightarrow> ('t, 'x, PruneResult) audit_result" where
  "enforce_retention A H E now env a =
     (case scan_enforcement_events A E (a_store a) 0 (- 1) of
        Inl e \<Rightarrow> (a, Err e)
      | Inr all_events \<Rightarrow>
          (let cutoff = retention_cutoff now (get_retention_days A (a_store a));
               old = filter (\<lambda>e. recorded_at_ms e < cutoff) all_events
           in if old = [] then (a, Ok NothingToPrune)
              else case delete_events A (a_store a) old of
                (S1, Inl e) \<Rightarrow> (a\<lparr>a_store := S1\<rparr>, Err e)
              | (S1, Inr _) \<Rightarrow>
                  (case record_event A H E env (a\<lparr>a_store := S1\<rparr>) (prune_request old) of
                     (a2, Inl e) \<Rightarrow> (a2, Err e)
                   | (a2, Inr _) \<Rightarrow>
                       (a2, Ok (Pruned (word_of_nat (length old)) (seq_no (hd old)) (seq_no (last old)))))))"

definition detect_startup_gap ::
  "('t, 'x, 'v, 'j) store_api \<Rightarrow> 's hash_api \<Rightarrow> 'v event_api \<Rightarrow> u64 \<Rightarrow> audit_env \<Rightarrow> ('t, 'x) Audit \<Rightarrow> u64
   \<Rightarrow> ('t, 'x, unit) audit_result" where
  "detect_startup_gap A H E now env a gap_threshold_ms =
     (case scan_enforcement_events A E (a_store a) 0 (- 1) of
        Inl e \<Rightarrow> (a, Err e)
      | Inr es \<Rightarrow>
          (if es = [] then (a, Ok ())
           else let t = recorded_at_ms (last es); age = sat_sub now t
                in if gap_threshold_ms < age
                   then (case shared_writer A E env a of
                           (a1, Inl e) \<Rightarrow> (a1, Err e)
                         | (a1, Inr w) \<Rightarrow>
                             (case detect_and_record_gap A H E env (a_store a1) w t now UnknownCause of
                                (S2, w2, Inl e) \<Rightarrow> (\<lparr> a_store = S2, a_writer = Some w2 \<rparr>, Err e)
                              | (S2, w2, Inr _) \<Rightarrow> (\<lparr> a_store = S2, a_writer = Some w2 \<rparr>, Ok ())))
                   else (a, Ok ())))"

end
