(* ===== verification/Gotcha_Ops.thy ===== *)
theory Gotcha_Ops
  imports Feedback Audit_Writer
begin

section \<open>Gotcha mutations (\<open>store/gotcha_ops.rs\<close>)\<close>

text \<open>
  Creating, editing, confirming and deleting a gotcha: the record is written first and fails hard, the links
  in file records and the edges follow on a best-effort basis, and the dirty marker covers the time between. The operations run on
  the store together with the registry of the event writer. \<open>gotcha_env\<close> holds what they read from outside: the environment
  of the recorded event and, for each call site, a clock reading with a fresh UUID (\<open>ge_ck\<close>, by the name of the site).
  A hash set of paths is walked in the order of its list; the order of the real set is not specified.
\<close>

record gotcha_env =
  ge_audit :: audit_env
  ge_ck :: "string \<Rightarrow> stamp"

record ('v, 'j, 's) gotcha_api =
  ga_hash :: "'s hash_api"
  ga_event :: "'v event_api"
  ga_json :: "'j json_api"
  ga_marker :: "('j, DirtyMarker) serde"
  ga_file :: "('j, FileRecord) serde"
  ga_gotcha :: "('j, GotchaRecord) serde"
  ga_extraction :: "('j, ExtractionRecord) serde"
  ga_exemplar :: "('j, NegativeExemplar) serde"

subsection \<open>Links in file records\<close>

text \<open>Both return the record and whether it changed.\<close>

definition one_key :: "'j json_api \<Rightarrow> string \<Rightarrow> 'j" where
  "one_key J key = j_array J [j_string J key]"

definition add_gotcha_key :: "'j json_api \<Rightarrow> 'j Record \<Rightarrow> string \<Rightarrow> 'j Record \<times> bool" where
  "add_gotcha_key J r key =
     (let fresh_payload = r\<lparr>r_payload := Some (j_object J [(''gotcha_keys'', one_key J key)])\<rparr>
      in case r_payload r of
           None \<Rightarrow> (fresh_payload, True)
         | Some p \<Rightarrow>
             (if j_is_object J p
              then (case j_get J p ''gotcha_keys'' of
                      Some existing \<Rightarrow>
                        (case j_as_array J existing of
                           Some arr \<Rightarrow>
                             (if list_ex (\<lambda>v. j_as_str J v = Some key) arr then (r, False)
                              else (r\<lparr>r_payload := Some (j_insert J p ''gotcha_keys'' (j_array J (arr @ [j_string J key])))\<rparr>, True))
                         | None \<Rightarrow> (r\<lparr>r_payload := Some (j_insert J p ''gotcha_keys'' (one_key J key))\<rparr>, True))
                    | None \<Rightarrow> (r\<lparr>r_payload := Some (j_insert J p ''gotcha_keys'' (one_key J key))\<rparr>, True))
              else (fresh_payload, True)))"

definition remove_gotcha_key :: "'j json_api \<Rightarrow> 'j Record \<Rightarrow> string \<Rightarrow> 'j Record \<times> bool" where
  "remove_gotcha_key J r key =
     (case r_payload r of
        None \<Rightarrow> (r, False)
      | Some p \<Rightarrow>
          (if \<not> j_is_object J p then (r, False)
           else case j_get J p ''gotcha_keys'' of
                  None \<Rightarrow> (r, False)
                | Some existing \<Rightarrow>
                    (case j_as_array J existing of
                       None \<Rightarrow> (r, False)
                     | Some arr \<Rightarrow>
                         (let arr' = filter (\<lambda>v. j_as_str J v \<noteq> Some key) arr
                          in (r\<lparr>r_payload := Some (j_insert J p ''gotcha_keys'' (j_array J arr'))\<rparr>,
                              length arr' \<noteq> length arr)))))"

text \<open>
  The text of an error, in which the code looks for a write conflict. Lower-casing is needed for ASCII letters only:
  no other character of Unicode is lower-cased to a letter of the pattern. The texts of the errors of reads, which reach
  only the cause field of the marker, are abbreviated to the key.
\<close>

definition error_text :: "store_error \<Rightarrow> string" where
  "error_text e = (case e of
       KvError m \<Rightarrow> m
     | SerializeError k \<Rightarrow> ''failed to serialize record for key '' @ [CHR 0x27] @ k @ [CHR 0x27]
     | CorruptRecord k \<Rightarrow> k | WrongTree k \<Rightarrow> k | SearchError m \<Rightarrow> m | KeyExists k \<Rightarrow> k | NotFound k \<Rightarrow> k)"

definition lower_char :: "char \<Rightarrow> char" where
  "lower_char c = (let n = of_char c :: nat in if 65 \<le> n \<and> n \<le> 90 then char_of (n + 32) else c)"

definition is_write_conflict :: "store_error \<Rightarrow> bool" where
  "is_write_conflict e = contains_str (map lower_char (error_text e)) ''write conflict''"

definition MAX_RETRIES :: nat where "MAX_RETRIES = 4"

definition file_stub_for :: "('j, FileRecord) serde \<Rightarrow> stamp \<Rightarrow> string \<Rightarrow> string \<Rightarrow> 'j Record" where
  "file_stub_for F st path gotcha_key =
     (layer0_file_stub (file_key path) (st_device st) 1 (st_now st))
       \<lparr>r_payload := to_value F ((layer0_stub path [] [] [] 0 0 0 None False 0 (st_now st))\<lparr>f_gotcha_keys := [gotcha_key]\<rparr>)\<rparr>"

text \<open>The attempts that are left; a conflict on the last one is returned.\<close>

fun update_attempts ::
  "('t, 'x, 'v, 'j) store_api \<Rightarrow> 'j json_api \<Rightarrow> ('j, FileRecord) serde \<Rightarrow> (string \<Rightarrow> stamp) \<Rightarrow> ('t, 'x) Store
   \<Rightarrow> string \<Rightarrow> string \<Rightarrow> bool \<Rightarrow> nat list \<Rightarrow> ('t, 'x, unit) store_result" where
  "update_attempts A J F ck S path key add [] = (S, Ok ())"
| "update_attempts A J F ck S path key add (i # is) =
     (let st = ck (''link '' @ show_nat i @ '' '' @ path)
      in case store_get A S (file_key path) of
           Inl e \<Rightarrow> (S, Err e)
         | Inr None \<Rightarrow> (if add then store_put A S (file_key path) (file_stub_for F st path key) else (S, Ok ()))
         | Inr (Some r) \<Rightarrow>
             (case (if add then add_gotcha_key J r key else remove_gotcha_key J r key) of
                (r', changed) \<Rightarrow>
                  (if \<not> changed then (S, Ok ())
                   else case store_put A S (file_key path) (touch (st_now st) r') of
                          (S1, Inr _) \<Rightarrow> (S1, Ok ())
                        | (S1, Inl e) \<Rightarrow>
                            (if is \<noteq> [] \<and> is_write_conflict e then update_attempts A J F ck S1 path key add is
                             else (S1, Err e)))))"

definition update_file_gotcha_key ::
  "('t, 'x, 'v, 'j) store_api \<Rightarrow> 'j json_api \<Rightarrow> ('j, FileRecord) serde \<Rightarrow> (string \<Rightarrow> stamp) \<Rightarrow> ('t, 'x) Store
   \<Rightarrow> string \<Rightarrow> string \<Rightarrow> bool \<Rightarrow> ('t, 'x, unit) store_result" where
  "update_file_gotcha_key A J F ck S path key add = update_attempts A J F ck S path key add [0..<MAX_RETRIES]"

fun update_files ::
  "('t, 'x, 'v, 'j) store_api \<Rightarrow> 'j json_api \<Rightarrow> ('j, FileRecord) serde \<Rightarrow> (string \<Rightarrow> stamp) \<Rightarrow> ('t, 'x) Store
   \<Rightarrow> string \<Rightarrow> bool \<Rightarrow> string list \<Rightarrow> ('t, 'x, unit) store_result" where
  "update_files A J F ck S key add [] = (S, Ok ())"
| "update_files A J F ck S key add (path # paths) =
     (case update_file_gotcha_key A J F ck S path key add of
        (S1, Inl e) \<Rightarrow> (S1, Err e)
      | (S1, Inr _) \<Rightarrow> update_files A J F ck S1 key add paths)"

text \<open>The elements of one list that are not in another, each once.\<close>

definition difference :: "string list \<Rightarrow> string list \<Rightarrow> string list" where
  "difference xs ys = remdups (filter (\<lambda>x. x \<notin> set ys) xs)"

definition sync_gotcha_file_links ::
  "('t, 'x, 'v, 'j) store_api \<Rightarrow> 'j json_api \<Rightarrow> ('j, FileRecord) serde \<Rightarrow> (string \<Rightarrow> stamp) \<Rightarrow> ('t, 'x) Store
   \<Rightarrow> string \<Rightarrow> string list \<Rightarrow> string list \<Rightarrow> ('t, 'x, unit) store_result" where
  "sync_gotcha_file_links A J F ck S key old_files new_files =
     (case update_files A J F ck S key True (difference new_files old_files) of
        (S1, Inl e) \<Rightarrow> (S1, Err e)
      | (S1, Inr _) \<Rightarrow> update_files A J F ck S1 key False (difference old_files new_files))"

subsection \<open>Edges\<close>

text \<open>The store and whether a secondary write has failed.\<close>

type_synonym ('t, 'x) tracked = "('t, 'x) Store \<times> bool"

definition track ::
  "('t, 'x, 'v, 'j) store_api \<Rightarrow> ('j, DirtyMarker) serde \<Rightarrow> stamp \<Rightarrow> string \<Rightarrow> string \<Rightarrow> bool
   \<Rightarrow> ('t, 'x, unit) store_result \<Rightarrow> ('t, 'x) tracked" where
  "track A M st key label failed res =
     (case snd res of
        Inr _ \<Rightarrow> (fst res, failed)
      | Inl e \<Rightarrow> (mark_dirty A M st (fst res) key (label @ '': '' @ error_text e), True))"

definition add_edge_tracked ::
  "('t, 'x, 'v, 'j) store_api \<Rightarrow> ('j, DirtyMarker) serde \<Rightarrow> (string \<Rightarrow> stamp) \<Rightarrow> u64 \<Rightarrow> string \<Rightarrow> string
   \<Rightarrow> ('t, 'x) tracked \<Rightarrow> string \<Rightarrow> ('t, 'x) tracked" where
  "add_edge_tracked A M ck now key label t path =
     track A M (ck (''edge add '' @ path)) key label (snd t)
       (put_raw A (fst t) (to_key (gotcha_edge path key)) (of_bytes A (to_le_bytes now)))"

definition remove_edge_tracked ::
  "('t, 'x, 'v, 'j) store_api \<Rightarrow> ('j, DirtyMarker) serde \<Rightarrow> (string \<Rightarrow> stamp) \<Rightarrow> string \<Rightarrow> string
   \<Rightarrow> ('t, 'x) tracked \<Rightarrow> string \<Rightarrow> ('t, 'x) tracked" where
  "remove_edge_tracked A M ck key label t path =
     track A M (ck (''edge remove '' @ path)) key label (snd t)
       (store_delete A (fst t) (to_key (gotcha_edge path key)))"

definition disarm ::
  "('t, 'x, 'v, 'j) store_api \<Rightarrow> ('j, DirtyMarker) serde \<Rightarrow> stamp \<Rightarrow> string \<Rightarrow> ('t, 'x) tracked \<Rightarrow> ('t, 'x) Store" where
  "disarm A M st key t = (if snd t then fst t else clear_dirty_key_if_solo A M st (fst t) key)"

subsection \<open>Operations\<close>

definition ensure_gotcha_key_available ::
  "('t, 'x, 'v, 'j) store_api \<Rightarrow> ('t, 'x) Store \<Rightarrow> string \<Rightarrow> (store_error, unit) result" where
  "ensure_gotcha_key_available A S key =
     rbind (store_get A S key) (\<lambda>m. case m of None \<Rightarrow> Ok () | Some _ \<Rightarrow> Err (KeyExists key))"

definition control_request :: "ControlChangeKind \<Rightarrow> string \<Rightarrow> string \<Rightarrow> event_request" where
  "control_request kind key reason =
     \<lparr> rq_event_type = ControlChanged kind, rq_subject_kind = SubjectControl, rq_subject_key = key,
       rq_agent_type = ''developer'', rq_receipt_id = None, rq_reason_code = reason, rq_basis_hash = None \<rparr>"

text \<open>The event of a mutation: its error is only logged.\<close>

definition record_control ::
  "('t, 'x, 'v, 'j) store_api \<Rightarrow> ('v, 'j, 's) gotcha_api \<Rightarrow> gotcha_env \<Rightarrow> ('t, 'x) Audit \<Rightarrow> event_request \<Rightarrow> ('t, 'x) Audit" where
  "record_control A B env a rq = fst (record_event A (ga_hash B) (ga_event B) (ge_audit env) a rq)"

definition apply_gotcha_write ::
  "('t, 'x, 'v, 'j) store_api \<Rightarrow> ('v, 'j, 's) gotcha_api \<Rightarrow> gotcha_env \<Rightarrow> ('t, 'x) Audit
   \<Rightarrow> 'j Record \<Rightarrow> string list \<Rightarrow> string list \<Rightarrow> bool \<Rightarrow> ('t, 'x, unit) audit_result" where
  "apply_gotcha_write A B env a r old_files new_files is_new =
     (let key = r_key r; M = ga_marker B
      in case (if is_new then ensure_gotcha_key_available A (a_store a) key else Ok ()) of
           Inl e \<Rightarrow> (a, Err e)
         | Inr _ \<Rightarrow>
             (case store_put A (a_store a) key r of
                (S1, Inl e) \<Rightarrow> (a\<lparr>a_store := S1\<rparr>, Err e)
              | (S1, Inr _) \<Rightarrow>
                  (let S2 = mark_dirty A M (ge_ck env ''pre-arm'') S1 key ''gotcha_write: pre-arm cancellation guard'';
                       a3 = record_control A B env (a\<lparr>a_store := S2\<rparr>)
                              (control_request (if is_new then Created else Updated) key
                                 (if is_new then ''control_created'' else ''control_updated''));
                       S4 = (if is_new
                             then fst (write_on_extraction A (ga_extraction B) (st_now (ge_ck env ''extraction''))
                                    (ge_ck env ''extraction record'') (st_now (ge_ck env ''extraction wall'')) (a_store a3) key (r_tags r) new_files)
                             else a_store a3);
                       t5 = track A M (ge_ck env ''link sync'') key ''link sync failed'' False
                              (sync_gotcha_file_links A (ga_json B) (ga_file B) (ge_ck env) S4 key old_files new_files);
                       t6 = foldl (add_edge_tracked A M (ge_ck env) (st_now (ge_ck env ''edges'')) key ''edge add failed'') t5
                              (difference new_files old_files);
                       t7 = foldl (remove_edge_tracked A M (ge_ck env) key ''edge remove failed'') t6 (difference old_files new_files)
                   in (a3\<lparr>a_store := disarm A M (ge_ck env ''disarm'') key t7\<rparr>, Ok ()))))"

definition tombstone_record :: "u64 \<Rightarrow> 'j Record \<Rightarrow> 'j Record" where
  "tombstone_record now r = touch now (r\<lparr>r_lifecycle := Tombstoned ManualDeletion now\<rparr>)"

definition apply_gotcha_tombstone ::
  "('t, 'x, 'v, 'j) store_api \<Rightarrow> ('v, 'j, 's) gotcha_api \<Rightarrow> gotcha_env \<Rightarrow> (string \<Rightarrow> DeviceId) \<Rightarrow> ('t, 'x) Audit
   \<Rightarrow> string \<Rightarrow> string list \<Rightarrow> ('t, 'x, unit) audit_result" where
  "apply_gotcha_tombstone A B env dev a key affected_files =
     (let M = ga_marker B
      in case store_get A (a_store a) key of
           Inl e \<Rightarrow> (a, Err e)
         | Inr None \<Rightarrow> (a, Err (NotFound key))
         | Inr (Some r) \<Rightarrow>
             (case store_put A (a_store a) key (tombstone_record (st_now (ge_ck env ''tombstone'')) r) of
                (S1, Inl e) \<Rightarrow> (a\<lparr>a_store := S1\<rparr>, Err e)
              | (S1, Inr _) \<Rightarrow>
                  (let S2 = mark_dirty A M (ge_ck env ''pre-arm'') S1 key ''gotcha_tombstone: pre-arm cancellation guard'';
                       a3 = record_control A B env (a\<lparr>a_store := S2\<rparr>) (control_request Deleted key ''control_deleted'');
                       S4 = (case payload_as (from_value (ga_gotcha B)) r of
                               None \<Rightarrow> a_store a3
                             | Some g \<Rightarrow> fst (write_on_tombstone A (ga_exemplar B) (st_now (ge_ck env ''exemplar'')) dev (a_store a3) key
                                           (g_rule g) (g_reason g) (g_severity g) affected_files));
                       S5 = fst (mark_outcome A (ga_extraction B) (st_now (ge_ck env ''outcome'')) (ge_ck env ''outcome record'')
                              (st_now (ge_ck env ''outcome wall'')) S4 key OutcomeTombstoned);
                       t6 = track A M (ge_ck env ''link sync'') key ''tombstone link cleanup failed'' False
                              (sync_gotcha_file_links A (ga_json B) (ga_file B) (ge_ck env) S5 key affected_files []);
                       t7 = foldl (remove_edge_tracked A M (ge_ck env) key ''tombstone edge remove failed'') t6 affected_files
                   in (a3\<lparr>a_store := disarm A M (ge_ck env ''disarm'') key t7\<rparr>, Ok ()))))"

definition apply_gotcha_confirm ::
  "('t, 'x, 'v, 'j) store_api \<Rightarrow> ('v, 'j, 's) gotcha_api \<Rightarrow> gotcha_env \<Rightarrow> ('t, 'x) Audit
   \<Rightarrow> 'j Record \<Rightarrow> string list \<Rightarrow> ('t, 'x, unit) audit_result" where
  "apply_gotcha_confirm A B env a r affected_files =
     (let key = r_key r; M = ga_marker B
      in case store_put A (a_store a) key r of
           (S1, Inl e) \<Rightarrow> (a\<lparr>a_store := S1\<rparr>, Err e)
         | (S1, Inr _) \<Rightarrow>
             (let S2 = mark_dirty A M (ge_ck env ''pre-arm'') S1 key ''gotcha_confirm: pre-arm cancellation guard'';
                  a3 = record_control A B env (a\<lparr>a_store := S2\<rparr>) (control_request Confirmed key ''control_confirmed'');
                  S4 = fst (mark_outcome A (ga_extraction B) (st_now (ge_ck env ''outcome'')) (ge_ck env ''outcome record'')
                         (st_now (ge_ck env ''outcome wall'')) (a_store a3) key OutcomeConfirmed);
                  t5 = track A M (ge_ck env ''link sync'') key ''link sync failed'' False
                         (sync_gotcha_file_links A (ga_json B) (ga_file B) (ge_ck env) S4 key [] affected_files);
                  t6 = foldl (add_edge_tracked A M (ge_ck env) (st_now (ge_ck env ''edges'')) key ''edge add failed'') t5 affected_files
              in (a3\<lparr>a_store := disarm A M (ge_ck env ''disarm'') key t6\<rparr>, Ok ())))"

fun propagate_confirmation_to_files ::
  "('t, 'x, 'v, 'j) store_api \<Rightarrow> (string \<Rightarrow> stamp) \<Rightarrow> ('t, 'x) Store \<Rightarrow> string list \<Rightarrow> ('t, 'x) Store" where
  "propagate_confirmation_to_files A ck S [] = S"
| "propagate_confirmation_to_files A ck S (path # paths) =
     propagate_confirmation_to_files A ck
       (case store_get A S (file_key path) of
          Inr (Some r) \<Rightarrow>
            fst (store_put A S (file_key path) (touch (st_now (ck path))
              (r\<lparr>r_confidence := (r_confidence r)\<lparr>c_confirmation_count := c_confirmation_count (r_confidence r) + 1\<rparr>\<rparr>)))
        | _ \<Rightarrow> S) paths"

end
