(* ===== verification/Session.thy ===== *)
theory Session
  imports Gotcha_Ops
begin

section \<open>Consultation receipts and the session lifecycle (\<open>store/session.rs\<close>)\<close>

text \<open>
  Receipts that an agent consulted a record (\<open>session:consulted:*\<close>), the daily counters, the flush and the harvest of a session, the
  promotion of gotchas and the capture of doc comments. \<open>session_env\<close> holds what the operations read from outside:
  the environment of a recorded event, a clock reading with a fresh UUID for each call site (by its name), today's date and the date of a time
  stamp as the chrono crate formats them. \<open>session_api\<close> holds the derived encodings of the payloads and the text form of JSON.
  The analysis with git that \<open>session_harvest\<close> runs is a parameter that changes the store.
\<close>

record session_env =
  se_audit :: audit_env
  se_ck :: "string \<Rightarrow> stamp"
  se_today :: string
  se_date :: "u64 \<Rightarrow> string"

record DailyAgg =
  da_count :: u64
  da_keys :: "string list"

record ('v, 'j, 's) session_api =
  sa_hash :: "'s hash_api"
  sa_event :: "'v event_api"
  sa_json :: "'j json_api"
  sa_agg :: "('j, DailyAgg) serde"
  sa_file :: "('j, FileRecord) serde"
  sa_gotcha :: "('j, GotchaRecord) serde"
  sa_review :: "('j, StaleReviewPayload) serde"
  sa_to_string :: "'j \<Rightarrow> string option"
  sa_from_str :: "string \<Rightarrow> 'j option"

definition MAX_AGG_KEYS :: nat where "MAX_AGG_KEYS = 100"
definition STALE_REVIEW_MIN :: f32 where "STALE_REVIEW_MIN = r32 (4/10)"
definition STALE_REVIEW_MAX :: f32 where "STALE_REVIEW_MAX = r32 (7/10)"
definition MAX_STALE_REVIEW_ENTRIES :: nat where "MAX_STALE_REVIEW_ENTRIES = 20"
definition GOTCHA_PROMOTION_ACCESS_THRESHOLD :: u32 where "GOTCHA_PROMOTION_ACCESS_THRESHOLD = 3"

definition session_record :: "stamp \<Rightarrow> string \<Rightarrow> string \<Rightarrow> 'j Record" where
  "session_record st key val =
     \<lparr> r_key = key, r_value = val, r_category = Session, r_priority = Normal, r_tags = [],
       r_created_at = st_now st, r_updated_at = st_now st, r_ref_url = None, r_staleness = fresh,
       r_lifecycle = Active,
       r_version = \<lparr> device_id = st_device st, logical_clock = 1, wall_clock = st_now st \<rparr>,
       r_quality = quality_layer0_default, r_access_count = 0, r_last_accessed = 0,
       r_source = SessionHook, r_confidence = confidence_for_new_record SessionHook,
       r_gap_analysis_score = r32 0, r_payload = None \<rparr>"

definition analytics_record :: "stamp \<Rightarrow> string \<Rightarrow> string \<Rightarrow> 'j Record" where
  "analytics_record st key val = (session_record st key val)\<lparr>r_category := Analytics\<rparr>"

definition today_key :: "session_env \<Rightarrow> string \<Rightarrow> string" where
  "today_key env pre = pre @ se_today env"

subsection \<open>Daily counters\<close>

definition count_key :: "string \<Rightarrow> DailyAgg \<Rightarrow> DailyAgg" where
  "count_key target_key agg =
     \<lparr> da_count = da_count agg + 1,
       da_keys = (if length (da_keys agg) < MAX_AGG_KEYS \<and> target_key \<notin> set (da_keys agg)
                  then da_keys agg @ [target_key] else da_keys agg) \<rparr>"

definition bumped_agg :: "('j, DailyAgg) serde \<Rightarrow> stamp \<Rightarrow> string \<Rightarrow> string \<Rightarrow> 'j Record option \<Rightarrow> 'j Record" where
  "bumped_agg D st agg_key target_key found =
     (case found of
        Some r \<Rightarrow>
          touch (st_now st) (r\<lparr>r_payload := to_value D (count_key target_key
             (unwrap_or (payload_as (from_value D) r) \<lparr> da_count = 0, da_keys = [] \<rparr>))\<rparr>)
      | None \<Rightarrow> (analytics_record st agg_key [])\<lparr>r_payload := to_value D \<lparr> da_count = 1, da_keys = [target_key] \<rparr>\<rparr>)"

definition upsert_daily_agg ::
  "('t, 'x, 'v, 'j) store_api \<Rightarrow> ('j, DailyAgg) serde \<Rightarrow> stamp \<Rightarrow> ('t, 'x) Store \<Rightarrow> string \<Rightarrow> string
   \<Rightarrow> ('t, 'x, unit) store_result" where
  "upsert_daily_agg A D st S agg_key target_key =
     (case store_get A S agg_key of
        Inl e \<Rightarrow> (S, Err e)
      | Inr found \<Rightarrow> store_put A S agg_key (bumped_agg D st agg_key target_key found))"

text \<open>The staged variants compute the write and leave it to a transaction.\<close>

definition staged :: "('t, 'x, 'v, 'j) store_api \<Rightarrow> string \<Rightarrow> 'j Record \<Rightarrow> (store_error, string \<times> 'v) result" where
  "staged A key r = (case enc_record A r of None \<Rightarrow> Err (SerializeError key) | Some v \<Rightarrow> Ok (key, v))"

definition upsert_daily_agg_staged ::
  "('t, 'x, 'v, 'j) store_api \<Rightarrow> ('j, DailyAgg) serde \<Rightarrow> stamp \<Rightarrow> ('t, 'x) Store \<Rightarrow> string \<Rightarrow> string
   \<Rightarrow> (store_error, string \<times> 'v) result" where
  "upsert_daily_agg_staged A D st S agg_key target_key =
     rbind (store_get A S agg_key) (\<lambda>found. staged A agg_key (bumped_agg D st agg_key target_key found))"

subsection \<open>Receipts\<close>

definition receipt_key :: "string \<Rightarrow> string option \<Rightarrow> string" where
  "receipt_key key actor =
     (case actor of
        Some a \<Rightarrow> ''session:consulted:'' @ a @ '':'' @ key
      | None \<Rightarrow> ''session:consulted:'' @ key)"

definition consultation_receipt_staged ::
  "('t, 'x, 'v, 'j) store_api \<Rightarrow> stamp \<Rightarrow> string \<Rightarrow> string option \<Rightarrow> (store_error, string \<times> 'v) result" where
  "consultation_receipt_staged A st key actor =
     (let consulted_key = receipt_key key actor in staged A consulted_key (session_record st consulted_key []))"

definition check_consulted ::
  "('t, 'x, 'v, 'j) store_api \<Rightarrow> ('t, 'x) Store \<Rightarrow> string \<Rightarrow> string option \<Rightarrow> (store_error, bool) result" where
  "check_consulted A S key actor = rbind (store_get A S (receipt_key key actor)) (\<lambda>m. Ok (m \<noteq> None))"

definition check_consulted_recent ::
  "('t, 'x, 'v, 'j) store_api \<Rightarrow> u64 \<Rightarrow> ('t, 'x) Store \<Rightarrow> string \<Rightarrow> u64 \<Rightarrow> string option \<Rightarrow> (store_error, bool) result" where
  "check_consulted_recent A now S key ttl_secs actor =
     rbind (store_get A S (receipt_key key actor)) (\<lambda>m. Ok (case m of
        None \<Rightarrow> False
      | Some r \<Rightarrow> sat_sub now (r_updated_at r) \<le> ttl_secs))"

definition receipt_request :: "string \<Rightarrow> event_request" where
  "receipt_request key =
     \<lparr> rq_event_type = ReceiptMinted, rq_subject_kind = SubjectFile, rq_subject_key = key,
       rq_agent_type = ''claude'', rq_receipt_id = None, rq_reason_code = ''consultation_requested'', rq_basis_hash = None \<rparr>"

text \<open>The access counter is a 32-bit word; it wraps in the release profile.\<close>

definition log_hit ::
  "('t, 'x, 'v, 'j) store_api \<Rightarrow> ('v, 'j, 's) session_api \<Rightarrow> session_env \<Rightarrow> ('t, 'x) Audit \<Rightarrow> string
   \<Rightarrow> ('t, 'x, unit) audit_result" where
  "log_hit A B env a key =
     (let now = st_now (se_ck env ''hit''); consulted_key = receipt_key key None
      in case upsert_daily_agg A (sa_agg B) (se_ck env ''hit agg'') (a_store a) (today_key env ''analytics:hit_'') key of
           (S1, Inl e) \<Rightarrow> (a\<lparr>a_store := S1\<rparr>, Err e)
         | (S1, Inr _) \<Rightarrow>
             (case store_put A S1 consulted_key (session_record (se_ck env ''receipt'') consulted_key []) of
                (S2, Inl e) \<Rightarrow> (a\<lparr>a_store := S2\<rparr>, Err e)
              | (S2, Inr _) \<Rightarrow>
                  (case (case store_get A S2 key of
                           Inl e \<Rightarrow> (S2, Err e)
                         | Inr None \<Rightarrow> (S2, Ok ())
                         | Inr (Some r) \<Rightarrow>
                             store_put A S2 key (r\<lparr>r_access_count := r_access_count r + 1, r_last_accessed := now\<rparr>)) of
                     (S3, Inl e) \<Rightarrow> (a\<lparr>a_store := S3\<rparr>, Err e)
                   | (S3, Inr _) \<Rightarrow>
                       (fst (record_event A (sa_hash B) (sa_event B) (se_audit env) (a\<lparr>a_store := S3\<rparr>) (receipt_request key)), Ok ()))))"

definition log_miss ::
  "('t, 'x, 'v, 'j) store_api \<Rightarrow> ('j, DailyAgg) serde \<Rightarrow> session_env \<Rightarrow> ('t, 'x) Store \<Rightarrow> string \<Rightarrow> ('t, 'x, unit) store_result" where
  "log_miss A D env S key = upsert_daily_agg A D (se_ck env ''agg'') S (today_key env ''analytics:miss_'') key"

definition log_compliance_miss ::
  "('t, 'x, 'v, 'j) store_api \<Rightarrow> ('j, DailyAgg) serde \<Rightarrow> session_env \<Rightarrow> ('t, 'x) Store \<Rightarrow> string \<Rightarrow> ('t, 'x, unit) store_result" where
  "log_compliance_miss A D env S key = upsert_daily_agg A D (se_ck env ''agg'') S (today_key env ''compliance:miss_'') key"

definition log_compliance_hit ::
  "('t, 'x, 'v, 'j) store_api \<Rightarrow> ('j, DailyAgg) serde \<Rightarrow> session_env \<Rightarrow> ('t, 'x) Store \<Rightarrow> string \<Rightarrow> ('t, 'x, unit) store_result" where
  "log_compliance_hit A D env S key =
     upsert_daily_agg A D (se_ck env ''agg'') S (today_key env ''compliance:allow_after_receipt_'') key"

definition log_codex_shell_miss ::
  "('t, 'x, 'v, 'j) store_api \<Rightarrow> ('j, DailyAgg) serde \<Rightarrow> session_env \<Rightarrow> ('t, 'x) Store \<Rightarrow> string \<Rightarrow> ('t, 'x, unit) store_result" where
  "log_codex_shell_miss A D env S key =
     upsert_daily_agg A D (se_ck env ''agg'') S (today_key env ''compliance:codex_shell_miss_'') key"

definition log_prompt_nudge ::
  "('t, 'x, 'v, 'j) store_api \<Rightarrow> ('j, DailyAgg) serde \<Rightarrow> session_env \<Rightarrow> ('t, 'x) Store \<Rightarrow> string \<Rightarrow> ('t, 'x, unit) store_result" where
  "log_prompt_nudge A D env S key =
     upsert_daily_agg A D (se_ck env ''agg'') S (today_key env ''analytics:codex_prompt_nudge_'') key"

definition log_bootstrap ::
  "('t, 'x, 'v, 'j) store_api \<Rightarrow> ('j, DailyAgg) serde \<Rightarrow> session_env \<Rightarrow> ('t, 'x) Store \<Rightarrow> string \<Rightarrow> ('t, 'x, unit) store_result" where
  "log_bootstrap A D env S key = upsert_daily_agg A D (se_ck env ''agg'') S (today_key env ''analytics:bootstrap_'') key"

subsection \<open>Flush\<close>

text \<open>The record of the flushed session: the consulted keys without their prefix, and the time.\<close>

definition flush_record :: "'j json_api \<Rightarrow> session_env \<Rightarrow> string list \<Rightarrow> 'j Record" where
  "flush_record J env consulted_keys =
     (session_record (se_ck env ''flush record'') ''session:current'' [])
       \<lparr>r_payload := Some (j_object J
          [(''consulted_keys'', j_array J (map (\<lambda>k. j_string J (unwrap_or (strip_prefix k ''session:consulted:'') k)) consulted_keys)),
           (''flushed_at'', j_u64 J (st_now (se_ck env ''flush'')))])\<rparr>"

definition session_flush_staged ::
  "('t, 'x, 'v, 'j) store_api \<Rightarrow> 'j json_api \<Rightarrow> session_env \<Rightarrow> ('t, 'x) Store \<Rightarrow> (store_error, string \<times> 'v) result" where
  "session_flush_staged A J env S =
     rbind (scan_keys A S ''session:consulted:'') (\<lambda>keys. staged A ''session:current'' (flush_record J env keys))"

definition session_flush ::
  "('t, 'x, 'v, 'j) store_api \<Rightarrow> 'j json_api \<Rightarrow> session_env \<Rightarrow> ('t, 'x) Store \<Rightarrow> ('t, 'x, unit) store_result" where
  "session_flush A J env S =
     (case scan_keys A S ''session:consulted:'' of
        Inl e \<Rightarrow> (S, Err e)
      | Inr keys \<Rightarrow> store_put A S ''session:current'' (flush_record J env keys))"

fun delete_keys :: "('t, 'x, 'v, 'j) store_api \<Rightarrow> ('t, 'x) Store \<Rightarrow> string list \<Rightarrow> ('t, 'x, unit) store_result" where
  "delete_keys A S [] = (S, Ok ())"
| "delete_keys A S (k # ks) =
     (case store_delete A S k of
        (S1, Inl e) \<Rightarrow> (S1, Err e)
      | (S1, Inr _) \<Rightarrow> delete_keys A S1 ks)"

definition delete_all_receipts :: "('t, 'x, 'v, 'j) store_api \<Rightarrow> ('t, 'x) Store \<Rightarrow> ('t, 'x, unit) store_result" where
  "delete_all_receipts A S =
     (case scan_keys A S ''session:consulted:'' of Inl e \<Rightarrow> (S, Err e) | Inr keys \<Rightarrow> delete_keys A S keys)"

definition session_clear_consults :: "('t, 'x, 'v, 'j) store_api \<Rightarrow> ('t, 'x) Store \<Rightarrow> ('t, 'x, unit) store_result" where
  "session_clear_consults A S = delete_all_receipts A S"

subsection \<open>Promotion of gotchas\<close>

definition promoted :: "('j, GotchaRecord) serde \<Rightarrow> u64 \<Rightarrow> 'j Record \<Rightarrow> GotchaRecord \<Rightarrow> 'j Record" where
  "promoted G now r g =
     touch now (r\<lparr>r_payload := to_value G (g\<lparr>g_confirmed := True\<rparr>),
                  r_confidence := (r_confidence r)\<lparr>c_confirmation_count := c_confirmation_count (r_confidence r) + 1\<rparr>\<rparr>)"

definition promotable :: "('j, GotchaRecord) serde \<Rightarrow> 'j Record \<Rightarrow> GotchaRecord option" where
  "promotable G r =
     (if r_access_count r < GOTCHA_PROMOTION_ACCESS_THRESHOLD then None
      else case payload_as (from_value G) r of
             None \<Rightarrow> None
           | Some g \<Rightarrow> if g_confirmed g then None else Some g)"

fun promote_all ::
  "('t, 'x, 'v, 'j) store_api \<Rightarrow> ('j, GotchaRecord) serde \<Rightarrow> u64 \<Rightarrow> ('t, 'x) Store \<Rightarrow> u32 \<Rightarrow> 'j Record list
   \<Rightarrow> ('t, 'x, u32) store_result" where
  "promote_all A G now S n [] = (S, Ok n)"
| "promote_all A G now S n (r # rs) =
     (case promotable G r of
        None \<Rightarrow> promote_all A G now S n rs
      | Some g \<Rightarrow>
          (case store_put A S (r_key r) (promoted G now r g) of
             (S1, Inl e) \<Rightarrow> (S1, Err e)
           | (S1, Inr _) \<Rightarrow> promote_all A G now S1 (n + 1) rs))"

definition promote_gotcha_candidates ::
  "('t, 'x, 'v, 'j) store_api \<Rightarrow> ('j, GotchaRecord) serde \<Rightarrow> u64 \<Rightarrow> ('t, 'x) Store \<Rightarrow> ('t, 'x, u32) store_result" where
  "promote_gotcha_candidates A G now S =
     (case scan_prefix A S ''gotcha:'' of Inl e \<Rightarrow> (S, Err e) | Inr rs \<Rightarrow> promote_all A G now S 0 rs)"

subsection \<open>Stale reviews\<close>

text \<open>
  The stable sort by descending staleness. On a value that is not a number the comparison of the code is not an order and the
  result of the real sort is not specified.
\<close>

fun insert_desc :: "StaleReviewEntry \<Rightarrow> StaleReviewEntry list \<Rightarrow> StaleReviewEntry list" where
  "insert_desc e [] = [e]"
| "insert_desc e (f # fs) =
     (if flt_lt (sr_staleness_value e) (sr_staleness_value f) then f # insert_desc e fs else e # f # fs)"

definition sort_desc :: "StaleReviewEntry list \<Rightarrow> StaleReviewEntry list" where
  "sort_desc es = foldr insert_desc es []"

definition stale_entry :: "string \<Rightarrow> 'j Record \<Rightarrow> StaleReviewEntry option" where
  "stale_entry key r =
     (let s = r_staleness r
      in if r_lifecycle r \<noteq> Active then None
         else if s_tier s = Liability \<or> s_tier s = Tombstone then None
         else if flt_lt (s_value s) STALE_REVIEW_MIN \<or> flt_ge (s_value s) STALE_REVIEW_MAX then None
         else Some \<lparr> sr_key = key, sr_staleness_value = s_value s, sr_tier = s_tier s, sr_last_updated = r_updated_at r,
                     sr_signals = map signal_to_string (take 3 (s_signals s)) \<rparr>)"

fun stale_entries ::
  "('t, 'x, 'v, 'j) store_api \<Rightarrow> ('t, 'x) Store \<Rightarrow> string list \<Rightarrow> (store_error, StaleReviewEntry list) result" where
  "stale_entries A S [] = Ok []"
| "stale_entries A S (key # keys) =
     rbind (store_get A S key) (\<lambda>m. rbind (stale_entries A S keys) (\<lambda>es.
       Ok (case Option.bind m (stale_entry key) of None \<Rightarrow> es | Some e \<Rightarrow> e # es)))"

definition collect_stale_entries ::
  "('t, 'x, 'v, 'j) store_api \<Rightarrow> ('t, 'x) Store \<Rightarrow> string list \<Rightarrow> (store_error, StaleReviewEntry list) result" where
  "collect_stale_entries A S keys =
     rbind (stale_entries A S keys) (\<lambda>es. Ok (take MAX_STALE_REVIEW_ENTRIES (sort_desc es)))"

text \<open>The first entry of each key.\<close>

definition dedup_key :: "StaleReviewEntry list \<Rightarrow> StaleReviewEntry list" where
  "dedup_key es = foldl (\<lambda>out e. if sr_key e \<in> sr_key ` set out then out else out @ [e]) [] es"

text \<open>A session text that is not JSON is the error \<^const>\<open>CorruptRecord\<close> of the session record.\<close>

definition collect_and_store_stale_reviews ::
  "('t, 'x, 'v, 'j) store_api \<Rightarrow> ('v, 'j, 's) session_api \<Rightarrow> session_env \<Rightarrow> ('t, 'x) Store \<Rightarrow> string \<Rightarrow> u64
   \<Rightarrow> ('t, 'x, nat) store_result" where
  "collect_and_store_stale_reviews A B env S session_value now =
     (let J = sa_json B
      in case sa_from_str B session_value of
           None \<Rightarrow> (S, Err (CorruptRecord ''session:current''))
         | Some session \<Rightarrow>
             (case Option.bind (j_get J session ''consulted_keys'') (j_as_array J) of
                None \<Rightarrow> (S, Ok 0)
              | Some arr \<Rightarrow>
                  (let consulted_keys = List.map_filter (j_as_str J) arr
                   in if consulted_keys = [] then (S, Ok 0)
                      else case collect_stale_entries A S consulted_keys of
                             Inl e \<Rightarrow> (S, Err e)
                           | Inr new_entries \<Rightarrow>
                               (if new_entries = [] then (S, Ok 0)
                                else let review_key = ''analytics:stale_review_'' @ se_date env now
                                     in case store_get A S review_key of
                                          Inl e \<Rightarrow> (S, Err e)
                                        | Inr found \<Rightarrow>
                                            (let payload = unwrap_or (Option.bind found (payload_as (from_value (sa_review B))))
                                                   \<lparr> srp_session_timestamp = now, srp_entries = [] \<rparr>;
                                                 merged = dedup_key (new_entries @ srp_entries payload);
                                                 payload' = \<lparr> srp_session_timestamp = now,
                                                              srp_entries = take MAX_STALE_REVIEW_ENTRIES (sort_desc merged) \<rparr>;
                                                 r = (analytics_record (se_ck env ''review'') review_key [])
                                                       \<lparr>r_payload := to_value (sa_review B) payload'\<rparr>
                                             in case store_put A S review_key r of
                                                  (S1, Inl e) \<Rightarrow> (S1, Err e)
                                                | (S1, Inr _) \<Rightarrow> (S1, Ok (length new_entries)))))))"

subsection \<open>Harvest\<close>

definition stage_value :: "string \<Rightarrow> string \<Rightarrow> string" where
  "stage_value val session_key =
     (let base = join [CHR 0x0A] (filter (\<lambda>l. \<not> starts_with l ''last_session:'') (lines val))
      in if base = [] then ''last_session: '' @ session_key
         else base @ [CHR 0x0A] @ ''last_session: '' @ session_key)"

definition update_stage ::
  "('t, 'x, 'v, 'j) store_api \<Rightarrow> u64 \<Rightarrow> ('t, 'x) Store \<Rightarrow> string \<Rightarrow> ('t, 'x, unit) store_result" where
  "update_stage A now S session_key =
     (case store_get A S ''stage:current'' of
        Inl e \<Rightarrow> (S, Err e)
      | Inr None \<Rightarrow> (S, Ok ())
      | Inr (Some r) \<Rightarrow>
          store_put A S ''stage:current'' ((touch now r)\<lparr>r_value := stage_value (r_value r) session_key\<rparr>))"

definition session_text :: "('v, 'j, 's) session_api \<Rightarrow> 'j Record \<Rightarrow> string" where
  "session_text B r = (case r_payload r of Some p \<Rightarrow> unwrap_or (sa_to_string B p) [] | None \<Rightarrow> r_value r)"

text \<open>\<open>analyze\<close> is the staleness analysis between promotion and archiving; its failure is only logged.\<close>

definition session_harvest ::
  "('t, 'x, 'v, 'j) store_api \<Rightarrow> ('v, 'j, 's) session_api \<Rightarrow> (('t, 'x) Store \<Rightarrow> ('t, 'x) Store) \<Rightarrow> session_env \<Rightarrow> ('t, 'x) Store
   \<Rightarrow> ('t, 'x, unit) store_result" where
  "session_harvest A B analyze env S =
     (let now = st_now (se_ck env ''harvest'');
          S1 = fst (promote_gotcha_candidates A (sa_gotcha B) (st_now (se_ck env ''promote'')) S);
          S2 = analyze S1
      in case store_get A S2 ''session:current'' of
           Inl e \<Rightarrow> (S2, Err e)
         | Inr None \<Rightarrow> (S2, Ok ())
         | Inr (Some session_rec) \<Rightarrow>
             (let session_value = session_text B session_rec;
                  S3 = fst (collect_and_store_stale_reviews A B env S2 session_value now);
                  session_key = ''session:'' @ show_u64 now;
                  perm = (session_record (se_ck env ''archive'') session_key session_value)\<lparr>r_payload := r_payload session_rec\<rparr>
              in case store_put A S3 session_key perm of
                   (S4, Inl e) \<Rightarrow> (S4, Err e)
                 | (S4, Inr _) \<Rightarrow>
                     (case delete_all_receipts A S4 of
                        (S5, Inl e) \<Rightarrow> (S5, Err e)
                      | (S5, Inr _) \<Rightarrow> update_stage A now S5 session_key)))"

definition session_harvest_no_staleness ::
  "('t, 'x, 'v, 'j) store_api \<Rightarrow> ('v, 'j, 's) session_api \<Rightarrow> session_env \<Rightarrow> ('t, 'x) Store \<Rightarrow> ('t, 'x, unit) store_result" where
  "session_harvest_no_staleness A B env S = session_harvest A B (\<lambda>S1. S1) env S"

subsection \<open>Doc comments\<close>

text \<open>\<open>trim_start_matches\<close> of a fixed prefix, and \<open>find\<close>.\<close>

function trim_prefixes :: "string \<Rightarrow> string \<Rightarrow> string" where
  "trim_prefixes p s = (if p \<noteq> [] \<and> starts_with s p then trim_prefixes p (drop (length p) s) else s)"
  by pat_completeness auto
termination
proof (relation "measure (\<lambda>(p, s). length s)")
  fix p s :: string
  assume "p \<noteq> [] \<and> starts_with s p"
  then have "p \<noteq> []" "s \<noteq> []" by (auto simp: starts_with_def)
  then show "((p, drop (length p) s), (p, s)) \<in> measure (\<lambda>(p, s). length s)" by simp
qed simp

declare trim_prefixes.simps [simp del]

fun find_str :: "string \<Rightarrow> string \<Rightarrow> nat option" where
  "find_str [] p = (if p = [] then Some 0 else None)"
| "find_str (c # cs) p = (if starts_with (c # cs) p then Some 0 else map_option Suc (find_str cs p))"

text \<open>\<open>Path::extension\<close>: of the last component, unless it is \<open>..\<close> or its only dot is its first character.\<close>

definition path_extension :: "string \<Rightarrow> string option" where
  "path_extension p =
     (let segs = filter (\<lambda>s. s \<noteq> [] \<and> s \<noteq> ''.'') (split_char CHR ''/'' p)
      in if segs = [] \<or> last segs = ''..'' then None
         else let parts = split_char CHR ''.'' (last segs)
              in if length parts = 1 \<or> (length parts = 2 \<and> hd parts = []) then None else Some (last parts))"

definition extract_rust_module_doc :: "string \<Rightarrow> string" where
  "extract_rust_module_doc content =
     trim (join '' '' (map (\<lambda>l. trim (trim_prefixes ''//!'' (trim_start l)))
       (takeWhile (\<lambda>l. starts_with (trim_start l) ''//!'') (lines content))))"

definition docstring_of :: "string \<Rightarrow> string \<Rightarrow> string option" where
  "docstring_of trimmed delim =
     Option.bind (strip_prefix trimmed delim) (\<lambda>rest. map_option (\<lambda>n.
       trim (case lines (trim (take n rest)) of [] \<Rightarrow> [] | l # _ \<Rightarrow> l)) (find_str rest delim))"

definition extract_python_docstring :: "string \<Rightarrow> string" where
  "extract_python_docstring content =
     (let trimmed = trim_start content
      in case docstring_of trimmed (replicate 3 CHR 0x22) of
           Some d \<Rightarrow> d
         | None \<Rightarrow> unwrap_or (docstring_of trimmed (replicate 3 CHR 0x27)) [])"

fun go_doc_lines :: "string list \<Rightarrow> string list \<Rightarrow> string list" where
  "go_doc_lines acc [] = acc"
| "go_doc_lines acc (line # rest) =
     (let t = trim line
      in if starts_with t ''//'' then go_doc_lines (acc @ [trim (trim_prefixes ''//'' t)]) rest
         else if starts_with t ''package '' then acc
         else if t \<noteq> [] then go_doc_lines [] rest
         else go_doc_lines acc rest)"

definition extract_go_package_doc_comment :: "string \<Rightarrow> string" where
  "extract_go_package_doc_comment content = trim (join '' '' (go_doc_lines [] (lines content)))"

definition extract_jsdoc :: "string \<Rightarrow> string" where
  "extract_jsdoc content =
     (case strip_prefix (trim_start content) ''/**'' of
        None \<Rightarrow> []
      | Some rest \<Rightarrow>
          (case find_str rest ''*/'' of
             None \<Rightarrow> []
           | Some n \<Rightarrow> trim (join '' '' (filter (\<lambda>l. l \<noteq> [])
               (map (\<lambda>l. trim (trim_prefixes ''*'' (trim l))) (lines (take n rest)))))))"

definition extract_doc_comment :: "string \<Rightarrow> string \<Rightarrow> string" where
  "extract_doc_comment path content =
     (let ext = unwrap_or (path_extension path) []
      in if ext = ''rs'' then extract_rust_module_doc content
         else if ext = ''py'' then extract_python_docstring content
         else if ext = ''go'' then extract_go_package_doc_comment content
         else if ext \<in> set [''ts'', ''tsx'', ''js'', ''jsx'', ''mjs'', ''cjs''] then extract_jsdoc content
         else [])"

text \<open>A failed write is only logged.\<close>

definition doc_capture ::
  "('t, 'x, 'v, 'j) store_api \<Rightarrow> ('j, FileRecord) serde \<Rightarrow> u64 \<Rightarrow> ('t, 'x) Store \<Rightarrow> string \<Rightarrow> string
   \<Rightarrow> ('t, 'x, unit) store_result" where
  "doc_capture A F now S path content =
     (let purpose = extract_doc_comment path content
      in if purpose = [] then (S, Ok ())
         else case store_get A S (file_key path) of
                Inl e \<Rightarrow> (S, Err e)
              | Inr None \<Rightarrow> (S, Ok ())
              | Inr (Some r) \<Rightarrow>
                  (if r_source r \<noteq> StaticAnalysis then (S, Ok ())
                   else case payload_as (from_value F) r of
                          None \<Rightarrow> (S, Ok ())
                        | Some fr \<Rightarrow>
                            (fst (store_put A S (file_key path) (touch now
                               (r\<lparr>r_payload := to_value F (fr\<lparr>f_purpose := purpose\<rparr>), r_value := purpose, r_source := SessionHook,
                                  r_confidence := (r_confidence r)\<lparr>c_value := r32 (65/100)\<rparr>, r_quality := doc_comment_default\<rparr>))), Ok ())))"

end
