(* ===== verification/Graph.thy ===== *)
theory Graph
  imports Edges Store_Laws "HOL-Library.Multiset"
begin

section \<open>The knowledge graph (\<open>graph/graph.rs\<close>)\<close>

text \<open>
  An in-memory directed graph with a write-through copy in the store. petgraph's \<open>DiGraph\<close> is a library:
  its operations are the fields of the parameter \<open>digraph_api\<close> over the type \<open>'g\<close> of a graph, with node
  and edge indices as \<open>nat\<close>. The order in which petgraph lists the edges of a node is left open, so the
  theorems speak of sets of keys. The hash maps of the source are maps and sets.
\<close>

subsection \<open>petgraph\<close>

record 'g digraph_api =
  dg_new :: 'g
  dg_add_node :: "'g \<Rightarrow> string \<Rightarrow> 'g \<times> nat"
  dg_weight :: "'g \<Rightarrow> nat \<Rightarrow> string"
  dg_node_count :: "'g \<Rightarrow> nat"
  dg_edge_count :: "'g \<Rightarrow> nat"
  dg_add_edge :: "'g \<Rightarrow> nat \<Rightarrow> nat \<Rightarrow> EdgeKind \<Rightarrow> 'g"
  dg_edges :: "'g \<Rightarrow> nat \<Rightarrow> (EdgeKind \<times> nat) list"
  dg_edges_incoming :: "'g \<Rightarrow> nat \<Rightarrow> (EdgeKind \<times> nat) list"
  dg_edge_references :: "'g \<Rightarrow> (nat \<times> EdgeKind \<times> nat) list"
  dg_edges_connecting :: "'g \<Rightarrow> nat \<Rightarrow> nat \<Rightarrow> (nat \<times> EdgeKind) list"
  dg_remove_edge :: "'g \<Rightarrow> nat \<Rightarrow> 'g"

subsection \<open>The graph\<close>

definition EDGE_PREFIX :: string where
  "EDGE_PREFIX = ''graph:edge:''"

record ('g, 't, 'x) Graph =
  inner :: 'g
  node_index :: "string \<rightharpoonup> nat"
  edge_set :: "(nat \<times> nat \<times> EdgeKind) set"
  g_store :: "('t, 'x) Store"

definition empty_graph :: "'g digraph_api \<Rightarrow> ('t, 'x) Store \<Rightarrow> ('g, 't, 'x) Graph" where
  "empty_graph P S = \<lparr> inner = dg_new P, node_index = Map.empty, edge_set = {}, g_store = S \<rparr>"

definition get_or_insert_node ::
  "'g digraph_api \<Rightarrow> ('g, 't, 'x) Graph \<Rightarrow> string \<Rightarrow> ('g, 't, 'x) Graph \<times> nat" where
  "get_or_insert_node P g key =
     (case node_index g key of
        Some i \<Rightarrow> (g, i)
      | None \<Rightarrow>
          (case dg_add_node P (inner g) key of
             (inner', i) \<Rightarrow> (g\<lparr>inner := inner', node_index := (node_index g)(key \<mapsto> i)\<rparr>, i)))"

definition insert_edge_in_memory ::
  "'g digraph_api \<Rightarrow> ('g, 't, 'x) Graph \<Rightarrow> Edge \<Rightarrow> ('g, 't, 'x) Graph" where
  "insert_edge_in_memory P g e =
     (case get_or_insert_node P g (from_node e) of (g1, from_idx) \<Rightarrow>
        case get_or_insert_node P g1 (to_node e) of (g2, to_idx) \<Rightarrow>
          if (from_idx, to_idx, edge_kind e) \<in> edge_set g2 then g2
          else g2\<lparr>edge_set := insert (from_idx, to_idx, edge_kind e) (edge_set g2),
                  inner := dg_add_edge P (inner g2) from_idx to_idx (edge_kind e)\<rparr>)"

definition graph_load ::
  "('t, 'x, 'v, 'j) store_api \<Rightarrow> 'g digraph_api \<Rightarrow> ('t, 'x) Store \<Rightarrow> (store_error, ('g, 't, 'x) Graph) result" where
  "graph_load A P S =
     rbind (scan_keys A S EDGE_PREFIX) (\<lambda>keys.
       Ok (foldl (\<lambda>g key. case from_key key of None \<Rightarrow> g | Some e \<Rightarrow> insert_edge_in_memory P g e)
             (empty_graph P S) keys))"

definition has_edge :: "('g, 't, 'x) Graph \<Rightarrow> Edge \<Rightarrow> bool" where
  "has_edge g e =
     (case (node_index g (from_node e), node_index g (to_node e)) of
        (Some fi, Some ti) \<Rightarrow> (fi, ti, edge_kind e) \<in> edge_set g
      | _ \<Rightarrow> False)"

text \<open>\<open>now\<close> is the clock in seconds.\<close>

definition persist_edge ::
  "('t, 'x, 'v, 'j) store_api \<Rightarrow> u64 \<Rightarrow> ('t, 'x) Store \<Rightarrow> Edge \<Rightarrow> ('t, 'x, unit) store_result" where
  "persist_edge A now S e = put_raw A S (to_key e) (of_bytes A (to_le_bytes now))"

definition add_edge ::
  "('t, 'x, 'v, 'j) store_api \<Rightarrow> 'g digraph_api \<Rightarrow> u64 \<Rightarrow> ('g, 't, 'x) Graph \<Rightarrow> Edge
   \<Rightarrow> ('g, 't, 'x) Graph \<times> (store_error, unit) result" where
  "add_edge A P now g e =
     (if has_edge g e then (g, Ok ())
      else case persist_edge A now (g_store g) e of
             (S1, Inl err) \<Rightarrow> (g\<lparr>g_store := S1\<rparr>, Err err)
           | (S1, Inr _) \<Rightarrow> (insert_edge_in_memory P (g\<lparr>g_store := S1\<rparr>) e, Ok ()))"

definition add_edges_batch ::
  "('t, 'x, 'v, 'j) store_api \<Rightarrow> 'g digraph_api \<Rightarrow> u64 \<Rightarrow> ('g, 't, 'x) Graph \<Rightarrow> Edge list
   \<Rightarrow> ('g, 't, 'x) Graph \<times> (store_error, unit) result" where
  "add_edges_batch A P now g edges =
     (let new_edges = filter (\<lambda>e. \<not> has_edge g e) edges
      in if new_edges = [] then (g, Ok ())
         else case put_batch_raw A (g_store g) (map (\<lambda>e. (to_key e, of_bytes A (to_le_bytes now))) new_edges) of
                (S1, Inl err) \<Rightarrow> (g\<lparr>g_store := S1\<rparr>, Err err)
              | (S1, Inr _) \<Rightarrow> (foldl (insert_edge_in_memory P) (g\<lparr>g_store := S1\<rparr>) new_edges, Ok ()))"

definition remove_edge ::
  "('t, 'x, 'v, 'j) store_api \<Rightarrow> 'g digraph_api \<Rightarrow> ('g, 't, 'x) Graph \<Rightarrow> Edge
   \<Rightarrow> ('g, 't, 'x) Graph \<times> (store_error, unit) result" where
  "remove_edge A P g e =
     (case store_delete A (g_store g) (to_key e) of
        (S1, Inl err) \<Rightarrow> (g\<lparr>g_store := S1\<rparr>, Err err)
      | (S1, Inr _) \<Rightarrow>
          (let g1 = g\<lparr>g_store := S1\<rparr>
           in case (node_index g (from_node e), node_index g (to_node e)) of
                (Some fi, Some ti) \<Rightarrow>
                  (let ids = map fst (filter (\<lambda>iw. snd iw = edge_kind e) (dg_edges_connecting P (inner g) fi ti))
                   in (g1\<lparr>edge_set := edge_set g - {(fi, ti, edge_kind e)},
                          inner := foldl (dg_remove_edge P) (inner g) ids\<rparr>, Ok ()))
              | _ \<Rightarrow> (g1, Ok ())))"

subsection \<open>Traversal\<close>

text \<open>
  The body of the loop for one node: the neighbours not seen before are marked, reported and queued.
  The loop ends because a node queued from depth \<open>d\<close> has depth \<open>d + 1\<close>, and depth \<open>depth\<close> is not expanded.
\<close>

fun visit ::
  "nat \<Rightarrow> nat list \<Rightarrow> (nat \<times> nat) list \<Rightarrow> nat set \<Rightarrow> nat list \<Rightarrow> (nat \<times> nat) list \<times> nat set \<times> nat list" where
  "visit d [] queue visited results = (queue, visited, results)"
| "visit d (t # ts) queue visited results =
     (if t \<in> visited then visit d ts queue visited results
      else visit d ts (queue @ [(t, d + 1)]) (insert t visited) (results @ [t]))"

lemma visit_queue:
  "\<exists>new. fst (visit d ts queue visited results) = queue @ map (\<lambda>t. (t, d + 1)) new"
proof (induction ts arbitrary: queue visited results)
  case (Cons t ts)
  show ?case
    using Cons.IH [of queue visited results] Cons.IH [of "queue @ [(t, d + 1)]" "insert t visited" "results @ [t]"]
    by (auto, metis append_Cons append_Nil append_assoc list.simps(9))
qed simp

function bfs ::
  "(nat \<Rightarrow> nat list) \<Rightarrow> nat \<Rightarrow> (nat \<times> nat) list \<Rightarrow> nat set \<Rightarrow> nat list \<Rightarrow> nat list" where
  "bfs nx depth [] visited results = results"
| "bfs nx depth ((node, d) # queue) visited results =
     (if depth \<le> d then bfs nx depth queue visited results
      else let v = visit d (nx node) queue visited results
           in bfs nx depth (fst v) (fst (snd v)) (snd (snd v)))"
  by pat_completeness auto

termination
proof (relation "inv_image (mult less_than) (\<lambda>(nx, depth, queue, v, r). mset (map (\<lambda>nd. Suc depth - snd nd) queue))",
    goal_cases)
  case 1
  show ?case by (intro wf_inv_image wf_mult wf_less_than)
next
  case (2 nx depth node d queue visited results)
  show ?case
    using one_step_implies_mult [of "{#Suc depth - d#}" "{#}" less_than "mset (map (\<lambda>nd. Suc depth - snd nd) queue)"]
    by simp
next
  case (3 nx depth node d queue visited results)
  obtain new where new: "fst (visit d (nx node) queue visited results) = queue @ map (\<lambda>t. (t, d + 1)) new"
    using visit_queue by blast
  let ?Q = "mset (map (\<lambda>nd. Suc depth - snd nd) queue)"
  have "(?Q + mset (map (\<lambda>t. depth - d) new), ?Q + {#Suc depth - d#}) \<in> mult less_than"
    by (rule one_step_implies_mult) (use 3 in auto)
  then show ?case by (simp add: 3 new comp_def multiset.map_comp)
qed

definition kind_targets :: "EdgeKind \<Rightarrow> (EdgeKind \<times> nat) list \<Rightarrow> nat list" where
  "kind_targets kind es = map snd (filter (\<lambda>kt. fst kt = kind) es)"

definition traverse_by ::
  "'g digraph_api \<Rightarrow> (nat \<Rightarrow> (EdgeKind \<times> nat) list) \<Rightarrow> ('g, 't, 'x) Graph \<Rightarrow> string \<Rightarrow> EdgeKind \<Rightarrow> nat \<Rightarrow> string list" where
  "traverse_by P edges_at g seed kind depth =
     (if depth = 0 then []
      else case node_index g seed of
             None \<Rightarrow> []
           | Some start \<Rightarrow>
               map (dg_weight P (inner g))
                 (bfs (\<lambda>node. kind_targets kind (edges_at node)) depth [(start, 0)] {start} []))"

definition traverse ::
  "'g digraph_api \<Rightarrow> ('g, 't, 'x) Graph \<Rightarrow> string \<Rightarrow> EdgeKind \<Rightarrow> nat \<Rightarrow> string list" where
  "traverse P g seed kind depth = traverse_by P (dg_edges P (inner g)) g seed kind depth"

definition neighbors :: "'g digraph_api \<Rightarrow> ('g, 't, 'x) Graph \<Rightarrow> string \<Rightarrow> EdgeKind \<Rightarrow> string list" where
  "neighbors P g node kind = traverse P g node kind 1"

definition traverse_incoming ::
  "'g digraph_api \<Rightarrow> ('g, 't, 'x) Graph \<Rightarrow> string \<Rightarrow> EdgeKind \<Rightarrow> nat \<Rightarrow> string list" where
  "traverse_incoming P g seed kind depth = traverse_by P (dg_edges_incoming P (inner g)) g seed kind depth"

definition neighbors_incoming :: "'g digraph_api \<Rightarrow> ('g, 't, 'x) Graph \<Rightarrow> string \<Rightarrow> EdgeKind \<Rightarrow> string list" where
  "neighbors_incoming P g node kind = traverse_incoming P g node kind 1"

text \<open>The sources per target; a target without an entry has none.\<close>

definition reverse_adjacency ::
  "'g digraph_api \<Rightarrow> ('g, 't, 'x) Graph \<Rightarrow> EdgeKind \<Rightarrow> string \<rightharpoonup> string list" where
  "reverse_adjacency P g kind =
     foldl (\<lambda>adj (a, k, b).
         if k = kind
         then adj(dg_weight P (inner g) b \<mapsto>
                    unwrap_or (adj (dg_weight P (inner g) b)) [] @ [dg_weight P (inner g) a])
         else adj)
       Map.empty (dg_edge_references P (inner g))"

definition node_count :: "'g digraph_api \<Rightarrow> ('g, 't, 'x) Graph \<Rightarrow> nat" where
  "node_count P g = dg_node_count P (inner g)"

definition edge_count :: "'g digraph_api \<Rightarrow> ('g, 't, 'x) Graph \<Rightarrow> nat" where
  "edge_count P g = dg_edge_count P (inner g)"

end
