(* ===== verification/Decide.thy ===== *)
theory Decide
  imports Record_Types
begin

section \<open>The enforcement decision (\<open>hooks/decide.rs\<close>)\<close>

text \<open>
  The pure core of the hooks: classifying a shell command, extracting the files it reads,
  the files of an \<open>apply_patch\<close> envelope, lexical path normalisation, and \<open>evaluate\<close>, the
  decision over a file record and the gotcha records attached to it.
\<close>

named_theorems decide_simps \<open>unfolding rules of the decision engine\<close>

subsection \<open>Types\<close>

datatype CommandClass = CatLike | GrepLike

text \<open>The variants \<open>Liability\<close> and \<open>Tombstone\<close> are renamed: a staleness tier has these names.\<close>

datatype Decision =
    Allow
  | Deny string string
  | AlreadyConsulted string
  | Advisory string
  | LiabilityRecord f32 string
  | TombstoneRecord
  | NoRecord
  | NotFileRead

datatype HookEvent =
    Hit string
  | Miss string
  | BlockedUnconsultedRead string
  | CodexShellBlocked string
  | ComplianceHit string
  | EditConsulted string
  | EditBlocked string
  | FloorConsultBlocked string

record 'j EnforcementInput =
  rel_path :: string
  file_record :: "'j option"
  gotcha_records :: "string \<rightharpoonup> 'j"
  already_consulted :: bool

record EnforcementResult =
  decision :: Decision
  events :: "HookEvent list"

subsection \<open>Command classification\<close>

definition CAT_LIKE :: "string list" where
  "CAT_LIKE = [''cat'', ''less'', ''head'', ''tail'', ''bat'']"

definition GREP_LIKE :: "string list" where
  "GREP_LIKE = [''grep'', ''egrep'', ''fgrep'', ''rg'', ''sed'', ''awk'']"

text \<open>\<open>u8::is_ascii_whitespace\<close> does not hold for the vertical tab.\<close>

definition ascii_ws_byte :: "char \<Rightarrow> bool" where
  "ascii_ws_byte c \<longleftrightarrow> (of_char c :: nat) \<in> {9, 10, 12, 13, 32}"

definition matches_command_word :: "string \<Rightarrow> string \<Rightarrow> bool" where
  "matches_command_word trimmed word =
     (if length trimmed < length word then False
      else if \<not> starts_with trimmed word then False
      else if length trimmed = length word then True
      else ascii_ws_byte (trimmed ! length word))"

definition PREFIX_WORDS :: "string list" where
  "PREFIX_WORDS = [''sudo'', ''doas'', ''env'', ''nice'', ''ionice'', ''nohup'', ''setsid'', ''stdbuf'',
                   ''command'', ''time'']"

definition ascii_alpha :: "char \<Rightarrow> bool" where
  "ascii_alpha c \<longleftrightarrow> (let n = of_char c :: nat in 65 \<le> n \<and> n \<le> 90 \<or> 97 \<le> n \<and> n \<le> 122)"

definition ascii_alnum :: "char \<Rightarrow> bool" where
  "ascii_alnum c \<longleftrightarrow> ascii_alpha c \<or> is_digit c"

definition is_env_assignment :: "string \<Rightarrow> bool" where
  "is_env_assignment tok =
     (let name = takeWhile (\<lambda>c. c \<noteq> CHR ''='') tok
      in CHR ''='' \<in> set tok \<and> name \<noteq> []
         \<and> (ascii_alpha (hd name) \<or> hd name = CHR ''_'')
         \<and> list_all (\<lambda>c. ascii_alnum c \<or> c = CHR ''_'') name)"

text \<open>\<open>s.find(char::is_whitespace).unwrap_or(s.len())\<close>\<close>

fun find_ws :: "string \<Rightarrow> nat" where
  "find_ws [] = 0"
| "find_ws (c # cs) = (if ws_len (c # cs) \<noteq> 0 then 0 else Suc (find_ws cs))"

lemma length_trim_start: "length (trim_start s) \<le> length s"
proof (induction s rule: trim_start.induct)
  case (1 s)
  then show ?case by (subst trim_start.simps) force
qed

text \<open>The loop of \<open>effective_command\<close>: strip assignments and wrapper words.\<close>

function strip_wrappers :: "string \<Rightarrow> string" where
  "strip_wrappers rest =
     (let end = find_ws rest; tok = take end rest
      in if tok = [] then rest
         else if is_env_assignment tok \<or> tok \<in> set PREFIX_WORDS
              then strip_wrappers (trim_start (drop end rest))
              else rest)"
  by pat_completeness auto
termination
proof (relation "measure length")
  fix rest :: string and e tok
  assume "e = find_ws rest" "tok = take e rest" "tok \<noteq> []"
  then have "0 < e" "rest \<noteq> []" by auto
  then have "length (drop e rest) < length rest" by simp
  then show "(trim_start (drop e rest), rest) \<in> measure length"
    using length_trim_start [of "drop e rest"] by simp
qed simp

declare strip_wrappers.simps [simp del]

text \<open>\<open>word.rsplit('/').next()\<close>: what follows the last slash.\<close>

definition rsplit_slash :: "string \<Rightarrow> string" where
  "rsplit_slash w = last (split_char CHR ''/'' w)"

definition effective_command :: "string \<Rightarrow> string" where
  "effective_command cmd =
     (let rest = strip_wrappers (trim_start cmd); end = find_ws rest
      in rsplit_slash (take end rest) @ drop end rest)"

definition classify_command :: "string \<Rightarrow> CommandClass option" where
  "classify_command cmd =
     (let trimmed = effective_command cmd
      in if list_ex (matches_command_word trimmed) CAT_LIKE then Some CatLike
         else if list_ex (matches_command_word trimmed) GREP_LIKE then Some GrepLike
         else None)"

subsection \<open>File path extraction\<close>

text \<open>
  The scan of \<open>split_at_shell_operator\<close>; the first argument is the quote the scan is inside of.
\<close>

fun split_op :: "char option \<Rightarrow> string \<Rightarrow> string" where
  "split_op q [] = []"
| "split_op (Some q) (c # cs) = c # (if c = q then split_op None cs else split_op (Some q) cs)"
| "split_op None (c # cs) =
     (if c = CHR ''|'' then []
      else if c = CHR '';'' then []
      else if c = CHR ''&'' \<and> cs \<noteq> [] \<and> hd cs = CHR ''&'' then []
      else if c = CHR 0x22 then c # split_op (Some c) cs
      else if c = CHR 0x27 then c # split_op (Some c) cs
      else c # split_op None cs)"

definition split_at_shell_operator :: "string \<Rightarrow> string" where
  "split_at_shell_operator s = split_op None s"

text \<open>
  The loop of \<open>shell_tokens\<close> with its variables: the open quote, \<open>cur\<close> and \<open>in_token\<close>; the result is
  the list of tokens still to come.
\<close>

function shell_scan :: "char option \<Rightarrow> string \<Rightarrow> bool \<Rightarrow> string \<Rightarrow> string list" where
  "shell_scan q cur in_token [] = (if in_token then [cur] else [])"
| "shell_scan (Some q) cur in_token (c # cs) =
     (if c = q then shell_scan None cur in_token cs
      else shell_scan (Some q) (cur @ [c]) in_token cs)"
| "shell_scan None cur in_token (c # cs) =
     (if c = CHR 0x27 \<or> c = CHR 0x22 then shell_scan (Some c) cur True cs
      else if ws_len (c # cs) \<noteq> 0
           then (if in_token then cur # shell_scan None [] False (drop (ws_len (c # cs)) (c # cs))
                 else shell_scan None cur False (drop (ws_len (c # cs)) (c # cs)))
      else shell_scan None (cur @ [c]) True cs)"
  by pat_completeness auto
termination by (relation "measure (\<lambda>(q, cur, it, s). length s)") auto

definition shell_tokens :: "string \<Rightarrow> string list" where
  "shell_tokens s = shell_scan None [] False s"

text \<open>The loop of \<open>positional_args\<close> over the tokens after the command word.\<close>

fun positional_loop :: "bool \<Rightarrow> string list \<Rightarrow> string list" where
  "positional_loop prev_was_flag [] = []"
| "positional_loop prev_was_flag (t # ts) =
     (if starts_with t ''-'' then positional_loop True ts
      else if prev_was_flag \<and> t \<noteq> [] \<and> list_all is_digit t then positional_loop False ts
      else if t \<noteq> [] then t # positional_loop False ts
      else positional_loop False ts)"

definition positional_args :: "string list \<Rightarrow> string list" where
  "positional_args tokens = positional_loop False (drop 1 tokens)"

definition extract_file_paths :: "string \<Rightarrow> CommandClass \<Rightarrow> string list" where
  "extract_file_paths cmd class =
     (let eff = effective_command cmd;
          cmd_part = split_at_shell_operator eff;
          positionals = positional_args (shell_tokens cmd_part)
      in case class of
           CatLike \<Rightarrow> positionals
         | GrepLike \<Rightarrow> if 2 \<le> length positionals then drop 1 positionals else [])"

definition extract_file_path :: "string \<Rightarrow> CommandClass \<Rightarrow> string option" where
  "extract_file_path cmd class =
     (let paths = extract_file_paths cmd class
      in if paths = [] then None
         else case class of CatLike \<Rightarrow> Some (hd paths) | GrepLike \<Rightarrow> Some (last paths))"

subsection \<open>The apply-patch envelope\<close>

definition MAX_APPLY_PATCH_FILES :: nat where
  "MAX_APPLY_PATCH_FILES = 50"

definition MARKERS :: "string list" where
  "MARKERS = [''*** Update File: '', ''*** Add File: '', ''*** Delete File: '', ''*** Move to: '']"

text \<open>The first marker that is a prefix of the line decides; the rest of the line is the path.\<close>

fun marker_rest :: "string list \<Rightarrow> string \<Rightarrow> string option" where
  "marker_rest [] line = None"
| "marker_rest (m # ms) line =
     (case strip_prefix line m of Some rest \<Rightarrow> Some rest | None \<Rightarrow> marker_rest ms line)"

definition patch_line :: "string list \<Rightarrow> string \<Rightarrow> string list" where
  "patch_line files line =
     (case marker_rest MARKERS line of
        None \<Rightarrow> files
      | Some rest \<Rightarrow>
          (let path = trim rest
           in if path \<noteq> [] \<and> path \<notin> set files then files @ [path] else files))"

definition extract_apply_patch_files :: "string \<Rightarrow> string list" where
  "extract_apply_patch_files patch = foldl patch_line [] (lines patch)"

subsection \<open>Path normalisation\<close>

text \<open>The component loop: \<open>None\<close> when a \<open>..\<close> leaves the root.\<close>

fun normalize_loop :: "string list \<Rightarrow> string list \<Rightarrow> string list option" where
  "normalize_loop comps [] = Some comps"
| "normalize_loop comps (part # parts) =
     (if part = [] \<or> part = ''.'' then normalize_loop comps parts
      else if part = ''..'' then (if comps = [] then None else normalize_loop (butlast comps) parts)
      else normalize_loop (comps @ [part]) parts)"

definition strip_repo_root :: "string \<Rightarrow> string option \<Rightarrow> string" where
  "strip_repo_root file_path repo_root =
     (case repo_root of
        None \<Rightarrow> file_path
      | Some r \<Rightarrow>
          unwrap_or (Option.bind (strip_prefix file_path r) (\<lambda>s. strip_prefix s ''/'')) file_path)"

definition normalize_path :: "string \<Rightarrow> string option \<Rightarrow> string" where
  "normalize_path file_path repo_root =
     (let stripped = strip_repo_root file_path repo_root
      in case normalize_loop [] (split_char CHR ''/'' stripped) of
           None \<Rightarrow> stripped
         | Some comps \<Rightarrow> if comps = [] then ''.'' else join ''/'' comps)"

subsection \<open>JSON helpers\<close>

definition json_f32 :: "'j json_api \<Rightarrow> 'j \<Rightarrow> string \<Rightarrow> f32" where
  "json_f32 J val ptr =
     unwrap_or (map_option f32_of_f64 (Option.bind (j_pointer J val ptr) (j_as_f64 J))) (r32 0)"

definition json_str :: "'j json_api \<Rightarrow> 'j \<Rightarrow> string \<Rightarrow> string" where
  "json_str J val ptr = unwrap_or (Option.bind (j_pointer J val ptr) (j_as_str J)) []"

definition json_bool :: "'j json_api \<Rightarrow> 'j \<Rightarrow> string \<Rightarrow> bool" where
  "json_bool J val ptr = unwrap_or (Option.bind (j_pointer J val ptr) (j_as_bool J)) False"

definition json_string_array :: "'j json_api \<Rightarrow> 'j \<Rightarrow> string \<Rightarrow> string list" where
  "json_string_array J val ptr =
     unwrap_or (map_option (List.map_filter (j_as_str J))
                  (Option.bind (j_pointer J val ptr) (j_as_array J))) []"

subsection \<open>The decision\<close>

text \<open>The em dash U+2014 and the warning sign U+26A0.\<close>

definition dash :: string where
  "dash = [CHR 0xE2, CHR 0x80, CHR 0x94]"

definition warn_sign :: string where
  "warn_sign = [CHR 0xE2, CHR 0x9A, CHR 0xA0]"

fun replace_char :: "char \<Rightarrow> string \<Rightarrow> string \<Rightarrow> string" where
  "replace_char c w [] = []"
| "replace_char c w (x # xs) = (if x = c then w else [x]) @ replace_char c w xs"

definition safe_path :: "string \<Rightarrow> string" where
  "safe_path p = replace_char CHR 0x22 [CHR 0x5C, CHR 0x22] (replace_char CHR 0x5C [CHR 0x5C, CHR 0x5C] p)"

text \<open>The condition under which a gotcha record denies and is injected.\<close>

definition injectable :: "'j json_api \<Rightarrow> 'j \<Rightarrow> bool" where
  "injectable J grec \<longleftrightarrow>
     json_bool J grec ''/payload/confirmed''
     \<and> flt_ge (json_f32 J grec ''/confidence/value'') (r32 (6/10))
     \<and> flt_ge (json_f32 J grec ''/quality/value'') (r32 (4/10))"

text \<open>The loop over the gotcha keys of the file: \<open>deny_signal\<close> and the context lines.\<close>

fun gotcha_loop ::
  "'j json_api \<Rightarrow> (string \<rightharpoonup> 'j) \<Rightarrow> bool \<times> string list \<Rightarrow> string list \<Rightarrow> bool \<times> string list" where
  "gotcha_loop J recs acc [] = acc"
| "gotcha_loop J recs (deny_signal, ls) (gkey # gkeys) =
     (case recs gkey of
        None \<Rightarrow> gotcha_loop J recs (deny_signal, ls) gkeys
      | Some grec \<Rightarrow>
          if j_is_object J grec \<and> injectable J grec
          then gotcha_loop J recs
                 (True, ls @ (let rule = json_str J grec ''/value''
                              in if rule = [] then [] else [warn_sign @ '' '' @ rule])) gkeys
          else gotcha_loop J recs (deny_signal, ls) gkeys)"

definition staleness_lines :: "f32 \<Rightarrow> string list" where
  "staleness_lines staleness =
     (if flt_ge staleness (r32 (4/10))
      then [''Warning: record staleness '' @ fmt2 staleness @ '' '' @ dash @ '' verify critical details.'']
      else [])"

definition blast_lines :: "'j json_api \<Rightarrow> 'j \<Rightarrow> string list" where
  "blast_lines J fr =
     (let blast_tier = json_str J fr ''/payload/blast_radius/tier''
      in if blast_tier = ''high'' \<or> blast_tier = ''critical''
         then (let blast_direct =
                 unwrap_or (Option.bind (j_pointer J fr ''/payload/blast_radius/direct'') (j_as_u64 J)) 0
               in [warn_sign @ '' Blast radius: '' @ show_u64 blast_direct @ '' direct importers (''
                   @ blast_tier @ '') '' @ dash @ '' modify carefully''])
         else [])"

definition liability_text :: "string \<Rightarrow> f32 \<Rightarrow> string" where
  "liability_text p staleness =
     ''WARNING: STALE record for '' @ p @ '' is a liability (staleness '' @ fmt2 staleness @ ''). ''
     @ ''Read the file directly '' @ dash @ '' the cached record is too stale to trust.''"

definition deny_reason :: "string \<Rightarrow> f32 \<Rightarrow> string" where
  "deny_reason p staleness =
     (let safe = safe_path p;
          note = (if flt_ge staleness (r32 (4/10))
                  then '' (staleness '' @ fmt2 staleness @ '' '' @ dash @ '' verify critical details)'' else [])
      in ''[mati] Confirmed gotcha on '' @ safe @ '' '' @ dash @ '' call mem_get('' @ [CHR 0x22] @ ''file:''
         @ safe @ [CHR 0x22] @ '') and read the record before accessing this file.'' @ note)"

definition join_or :: "string list \<Rightarrow> string \<Rightarrow> string" where
  "join_or ls d = (if ls = [] then d else join [CHR 0x0A] ls)"

definition evaluate :: "'j json_api \<Rightarrow> 'j EnforcementInput \<Rightarrow> EnforcementResult" where
  "evaluate J input =
     (let file_key = ''file:'' @ rel_path input
      in case file_record input of
           None \<Rightarrow> \<lparr> decision = NoRecord, events = [Miss file_key] \<rparr>
         | Some fr \<Rightarrow>
           if \<not> j_is_object J fr then \<lparr> decision = NoRecord, events = [Miss file_key] \<rparr>
           else
             let confidence = json_f32 J fr ''/confidence/value'';
                 quality = json_f32 J fr ''/quality/value'';
                 staleness = json_f32 J fr ''/staleness/value'';
                 staleness_tier = json_str J fr ''/staleness/tier''
             in if staleness_tier = ''tombstone'' then \<lparr> decision = TombstoneRecord, events = [] \<rparr>
                else if staleness_tier = ''liability''
                then \<lparr> decision = LiabilityRecord staleness (liability_text (rel_path input) staleness),
                       events = [Hit file_key] \<rparr>
                else
                  let purpose = json_str J fr ''/value'';
                      lines0 = (if purpose = [] then [] else [''Purpose: '' @ purpose]);
                      gotcha_keys = json_string_array J fr ''/payload/gotcha_keys'';
                      (deny_signal, lines1) = gotcha_loop J (gotcha_records input) (False, lines0) gotcha_keys;
                      context_lines = lines1 @ staleness_lines staleness @ blast_lines J fr
                  in if deny_signal
                     then (if already_consulted input
                           then \<lparr> decision = AlreadyConsulted (join_or context_lines
                                    (''Gotcha exists for '' @ rel_path input @ '' '' @ dash @ '' proceed with awareness'')),
                                  events = [ComplianceHit file_key] \<rparr>
                           else \<lparr> decision = Deny file_key (deny_reason (rel_path input) staleness),
                                  events = [BlockedUnconsultedRead file_key] \<rparr>)
                     else if flt_ge confidence (r32 (3/10)) \<and> flt_ge quality (r32 (4/10))
                     then \<lparr> decision = Advisory (join_or context_lines
                              (''Record exists for '' @ rel_path input @ '' '' @ dash @ '' confidence '' @ fmt2 confidence)),
                            events = [Hit file_key] \<rparr>
                     else \<lparr> decision = Allow, events = [] \<rparr>)"

subsection \<open>The gotcha loop\<close>

text \<open>A key enforces when its record is an object that is confirmed and above both thresholds.\<close>

definition enforcing :: "'j json_api \<Rightarrow> (string \<rightharpoonup> 'j) \<Rightarrow> string \<Rightarrow> bool" where
  "enforcing J recs k =
     (case recs k of None \<Rightarrow> False | Some g \<Rightarrow> j_is_object J g \<and> injectable J g)"

text \<open>The gotcha records that count; all others are dropped.\<close>

definition enforceable_only :: "'j json_api \<Rightarrow> (string \<rightharpoonup> 'j) \<Rightarrow> (string \<rightharpoonup> 'j)" where
  "enforceable_only J recs = (\<lambda>k. if enforcing J recs k then recs k else None)"

lemma gotcha_loop_deny:
  "fst (gotcha_loop J recs (d, ls) ks) \<longleftrightarrow> d \<or> (\<exists>k \<in> set ks. enforcing J recs k)"
proof (induction ks arbitrary: d ls)
  case (Cons k ks)
  show ?case
  proof (cases "enforcing J recs k")
    case True
    then obtain g where "recs k = Some g" "j_is_object J g" "injectable J g"
      by (auto simp: enforcing_def split: option.splits)
    with Cons True show ?thesis by simp
  next
    case False
    then have "gotcha_loop J recs (d, ls) (k # ks) = gotcha_loop J recs (d, ls) ks"
      by (auto simp: enforcing_def split: option.splits)
    with Cons False show ?thesis by simp
  qed
qed simp

lemma gotcha_loop_enforceable_only:
  "gotcha_loop J (enforceable_only J recs) acc ks = gotcha_loop J recs acc ks"
proof (induction ks arbitrary: acc)
  case (Cons k ks)
  obtain d ls where acc: "acc = (d, ls)" by (cases acc)
  show ?case
  proof (cases "enforcing J recs k")
    case True
    then have "enforceable_only J recs k = recs k" by (simp add: enforceable_only_def)
    with Cons acc show ?thesis by (simp split: option.splits)
  next
    case False
    then have "gotcha_loop J recs (d, ls) (k # ks) = gotcha_loop J recs (d, ls) ks"
      by (auto simp: enforcing_def split: option.splits)
    with Cons acc False show ?thesis by (simp add: enforceable_only_def)
  qed
qed simp

text \<open>The record is live: an object whose staleness tier does not exclude it.\<close>

definition live_record :: "'j json_api \<Rightarrow> 'j EnforcementInput \<Rightarrow> 'j \<Rightarrow> bool" where
  "live_record J i fr \<longleftrightarrow>
     file_record i = Some fr \<and> j_is_object J fr
     \<and> json_str J fr ''/staleness/tier'' \<noteq> ''tombstone''
     \<and> json_str J fr ''/staleness/tier'' \<noteq> ''liability''"

definition has_enforcing_gotcha :: "'j json_api \<Rightarrow> 'j EnforcementInput \<Rightarrow> 'j \<Rightarrow> bool" where
  "has_enforcing_gotcha J i fr \<longleftrightarrow>
     (\<exists>k \<in> set (json_string_array J fr ''/payload/gotcha_keys''). enforcing J (gotcha_records i) k)"

lemma evaluate_not_live:
  assumes "\<And>fr. \<not> live_record J i fr"
  shows "decision (evaluate J i) \<in> {NoRecord, TombstoneRecord} \<or>
         (\<exists>st msg. decision (evaluate J i) = LiabilityRecord st msg)"
  using assms by (auto simp: evaluate_def live_record_def Let_def split: option.splits)

lemma evaluate_live:
  assumes "live_record J i fr"
  shows "evaluate J i =
     (let file_key = ''file:'' @ rel_path i;
          staleness = json_f32 J fr ''/staleness/value'';
          confidence = json_f32 J fr ''/confidence/value'';
          purpose = json_str J fr ''/value'';
          ls = snd (gotcha_loop J (gotcha_records i)
                 (False, if purpose = [] then [] else [''Purpose: '' @ purpose])
                 (json_string_array J fr ''/payload/gotcha_keys''))
               @ staleness_lines staleness @ blast_lines J fr
      in if has_enforcing_gotcha J i fr
         then (if already_consulted i
               then \<lparr> decision = AlreadyConsulted (join_or ls
                        (''Gotcha exists for '' @ rel_path i @ '' '' @ dash @ '' proceed with awareness'')),
                      events = [ComplianceHit file_key] \<rparr>
               else \<lparr> decision = Deny file_key (deny_reason (rel_path i) staleness),
                      events = [BlockedUnconsultedRead file_key] \<rparr>)
         else if flt_ge confidence (r32 (3/10)) \<and> flt_ge (json_f32 J fr ''/quality/value'') (r32 (4/10))
         then \<lparr> decision = Advisory (join_or ls
                  (''Record exists for '' @ rel_path i @ '' '' @ dash @ '' confidence '' @ fmt2 confidence)),
                events = [Hit file_key] \<rparr>
         else \<lparr> decision = Allow, events = [] \<rparr>)"
proof -
  let ?l0 = "if json_str J fr ''/value'' = [] then [] else [''Purpose: '' @ json_str J fr ''/value'']"
  let ?ks = "json_string_array J fr ''/payload/gotcha_keys''"
  obtain d ls where loop: "gotcha_loop J (gotcha_records i) (False, ?l0) ?ks = (d, ls)"
    by (cases "gotcha_loop J (gotcha_records i) (False, ?l0) ?ks")
  have "d \<longleftrightarrow> has_enforcing_gotcha J i fr"
    using gotcha_loop_deny [of J "gotcha_records i" False ?l0 ?ks]
    by (simp add: loop has_enforcing_gotcha_def)
  with assms loop show ?thesis
    by (simp add: evaluate_def live_record_def Let_def)
qed

subsection \<open>Properties of the decision\<close>

text \<open>
  C2. A read is denied exactly when the file has a live record, one of the gotchas the record lists is
  confirmed with confidence at least 0.6 and quality at least 0.4, and the file was not consulted;
  the denial names the file's key and reports one blocked read.
\<close>

theorem evaluate_deny_iff:
  "decision (evaluate J i) = Deny k r \<and> events (evaluate J i) = es \<longleftrightarrow>
     (\<exists>fr. live_record J i fr \<and> has_enforcing_gotcha J i fr \<and> \<not> already_consulted i
           \<and> k = ''file:'' @ rel_path i \<and> es = [BlockedUnconsultedRead (''file:'' @ rel_path i)]
           \<and> r = deny_reason (rel_path i) (json_f32 J fr ''/staleness/value''))"
proof (cases "\<exists>fr. live_record J i fr")
  case True
  then obtain fr where fr: "live_record J i fr" ..
  then have uniq: "live_record J i fr' \<Longrightarrow> fr' = fr" for fr'
    by (auto simp: live_record_def)
  have "decision (evaluate J i) = Deny k r \<and> events (evaluate J i) = es \<longleftrightarrow>
     has_enforcing_gotcha J i fr \<and> \<not> already_consulted i
           \<and> k = ''file:'' @ rel_path i \<and> es = [BlockedUnconsultedRead (''file:'' @ rel_path i)]
           \<and> r = deny_reason (rel_path i) (json_f32 J fr ''/staleness/value'')"
    by (auto simp: evaluate_live [OF fr] Let_def)
  with fr uniq show ?thesis by blast
next
  case False
  then show ?thesis using evaluate_not_live [of J i] by auto
qed

text \<open>
  Unconfirmed gotchas and gotchas below a threshold have no influence: the result of \<open>evaluate\<close>
  (decision, context and events) is the same when every such record is removed from the input.
\<close>

theorem evaluate_ignores_unenforceable:
  "evaluate J (i\<lparr>gotcha_records := enforceable_only J (gotcha_records i)\<rparr>) = evaluate J i"
proof (cases i)
  case (fields p fr recs c)
  show ?thesis
    unfolding fields evaluate_def EnforcementInput.simps gotcha_loop_enforceable_only by (rule refl)
qed

text \<open>
  After a consultation no read is denied: an input with \<open>already_consulted\<close> set gets a
  decision other than a denial, and where an unconsulted read would be denied it is allowed with one
  compliance event for the file.
\<close>

theorem evaluate_consulted_allows:
  "decision (evaluate J (i\<lparr>already_consulted := True\<rparr>)) \<noteq> Deny k r \<and>
   ((\<exists>k' r'. decision (evaluate J (i\<lparr>already_consulted := False\<rparr>)) = Deny k' r') \<longleftrightarrow>
    (\<exists>c. evaluate J (i\<lparr>already_consulted := True\<rparr>) =
         \<lparr> decision = AlreadyConsulted c, events = [ComplianceHit (''file:'' @ rel_path i)] \<rparr>))"
proof (cases "\<exists>fr. live_record J i fr")
  case True
  then obtain fr where "live_record J i fr" ..
  then have fr: "live_record J (i\<lparr>already_consulted := b\<rparr>) fr" for b
    by (simp add: live_record_def)
  have "has_enforcing_gotcha J (i\<lparr>already_consulted := b\<rparr>) fr = has_enforcing_gotcha J i fr" for b
    by (simp add: has_enforcing_gotcha_def)
  then show ?thesis by (simp add: evaluate_live [OF fr] Let_def)
next
  case False
  then have no: "\<not> live_record J (i\<lparr>already_consulted := b\<rparr>) fr" for b fr
    by (auto simp: live_record_def)
  show ?thesis
    using evaluate_not_live [OF no [of True]] evaluate_not_live [OF no [of False]] by auto
qed

subsection \<open>Wrapper prefixes\<close>

lemma find_ws_before_space: "find_ws w = length w \<Longrightarrow> find_ws (w @ CHR '' '' # t) = length w"
proof (induction w)
  case (Cons c cs)
  then have "ws_len (c # cs) = 0" "find_ws cs = length cs" by (auto split: if_splits)
  with Cons.IH ws_len_before_space [of "c # cs" t] show ?case by simp
qed simp

lemma find_ws_le: "find_ws s \<le> length s"
  by (induction s) auto

lemma trim_start_word:
  assumes "find_ws w = length w" "w \<noteq> []"
  shows "trim_start (w @ CHR '' '' # t) = w @ CHR '' '' # t"
proof (rule trim_start_no_ws)
  obtain c cs where "w = c # cs" using assms(2) by (cases w) auto
  with assms show "ws_len (w @ CHR '' '' # t) = 0"
    using ws_len_before_space [of w t] by (auto split: if_splits)
qed

lemma PREFIX_WORDS_no_ws: "w \<in> set PREFIX_WORDS \<Longrightarrow> find_ws w = length w \<and> w \<noteq> []"
  by (auto simp: PREFIX_WORDS_def ws1_def ws2_def ws3_def)

lemma effective_command_wrapper:
  assumes "w \<in> set PREFIX_WORDS \<or> is_env_assignment w \<and> find_ws w = length w"
  shows "effective_command (w @ '' '' @ cmd) = effective_command cmd"
proof -
  have w: "find_ws w = length w" "w \<noteq> []"
    using assms PREFIX_WORDS_no_ws [of w] by (auto simp: is_env_assignment_def Let_def)
  have "strip_wrappers (w @ CHR '' '' # cmd) = strip_wrappers (trim_start cmd)"
    using assms w by (subst strip_wrappers.simps) (auto simp: find_ws_before_space Let_def)
  then show ?thesis
    using w by (simp add: effective_command_def trim_start_word)
qed

text \<open>
  C5. A wrapper word (\<open>sudo\<close>, \<open>env\<close>, \<open>nice\<close> and the others) or an environment assignment in front of a
  command changes neither its class nor the files extracted from it, so it does not bypass the gate.
\<close>

theorem wrapper_no_bypass:
  assumes "w \<in> set PREFIX_WORDS \<or> is_env_assignment w \<and> find_ws w = length w"
  shows "classify_command (w @ '' '' @ cmd) = classify_command cmd
       \<and> extract_file_paths (w @ '' '' @ cmd) c = extract_file_paths cmd c"
  using effective_command_wrapper [OF assms, of cmd]
  by (simp add: classify_command_def extract_file_paths_def)

theorem wrapper_no_bypass_witness:
  "classify_command (''LOG=1'' @ '' '' @ ''cat a.rs'') = classify_command ''cat a.rs''
   \<and> extract_file_paths (''LOG=1'' @ '' '' @ ''cat a.rs'') CatLike = extract_file_paths ''cat a.rs'' CatLike"
proof -
  have "is_env_assignment ''LOG=1''"
    by (simp add: is_env_assignment_def ascii_alpha_def ascii_alnum_def)
  moreover have "find_ws ''LOG=1'' = length ''LOG=1''"
    by (simp add: ws1_def ws2_def ws3_def)
  ultimately show ?thesis
    using wrapper_no_bypass [of "''LOG=1''" "''cat a.rs''" CatLike] by blast
qed

subsection \<open>Quoted arguments\<close>

text \<open>A command line with every argument in double quotes.\<close>

definition quote :: "string \<Rightarrow> string" where
  "quote f = CHR 0x22 # f @ [CHR 0x22]"

fun quoted_args :: "string list \<Rightarrow> string" where
  "quoted_args [] = []"
| "quoted_args (f # fs) = CHR '' '' # quote f @ quoted_args fs"

definition quotable :: "string \<Rightarrow> bool" where
  "quotable f \<longleftrightarrow> f \<noteq> [] \<and> CHR 0x22 \<notin> set f \<and> \<not> starts_with f ''-''"

lemma split_op_quoted: "q \<notin> set f \<Longrightarrow> split_op (Some q) (f @ q # t) = f @ q # split_op None t"
  by (induction f) auto

lemma split_op_quoted_args:
  "\<forall>f \<in> set fs. CHR 0x22 \<notin> set f \<Longrightarrow> split_op None (quoted_args fs) = quoted_args fs"
  by (induction fs) (auto simp: quote_def split_op_quoted)

lemma shell_scan_quoted:
  "q \<notin> set f \<Longrightarrow> shell_scan (Some q) cur it (f @ q # t) = shell_scan None (cur @ f) it t"
  by (induction f arbitrary: cur) auto

lemma shell_scan_quoted_args:
  assumes "\<forall>f \<in> set fs. CHR 0x22 \<notin> set f"
  shows "shell_scan None cur True (quoted_args fs) = cur # fs"
  using assms
proof (induction fs arbitrary: cur)
  case (Cons f fs)
  then show ?case by (simp add: quote_def shell_scan_quoted)
qed simp

text \<open>A plain command word: letters only.\<close>

definition plain_word :: "string \<Rightarrow> bool" where
  "plain_word w \<longleftrightarrow> w \<noteq> [] \<and> list_all ascii_alpha w"

lemma ascii_alpha_special:
  assumes "ascii_alpha c"
  shows "c \<noteq> CHR ''|''" "c \<noteq> CHR '';''" "c \<noteq> CHR ''&''" "c \<noteq> CHR 0x22" "c \<noteq> CHR 0x27"
    "c \<noteq> CHR ''/''" "c \<noteq> CHR ''=''"
  using assms by (auto simp: ascii_alpha_def)

lemma ascii_alpha_ws: "ascii_alpha c \<Longrightarrow> ws_len (c # cs) = 0"
  by (subst ws_len_ascii) (auto simp: ws1_def ascii_alpha_def Let_def)

lemma split_op_word:
  "list_all ascii_alpha w \<Longrightarrow> split_op None (w @ t) = w @ split_op None t"
  by (induction w) (auto simp: ascii_alpha_special)

lemma shell_scan_word:
  "list_all ascii_alpha w \<Longrightarrow> w \<noteq> [] \<Longrightarrow> shell_scan None cur it (w @ t) = shell_scan None (cur @ w) True t"
proof (induction w arbitrary: cur it)
  case (Cons c cs)
  have step: "shell_scan None cur it (c # cs @ t) = shell_scan None (cur @ [c]) True (cs @ t)"
    using Cons.prems ascii_alpha_special [of c] ascii_alpha_ws [of c "cs @ t"] by simp
  show ?case
  proof (cases cs)
    case Nil
    with step show ?thesis by simp
  next
    case (Cons d ds)
    with step Cons.IH [of "cur @ [c]" True] Cons.prems show ?thesis by simp
  qed
qed simp

lemma find_ws_word: "list_all ascii_alpha w \<Longrightarrow> find_ws w = length w"
  by (induction w) (auto simp: ascii_alpha_ws)

lemma word_not_env: "list_all ascii_alpha w \<Longrightarrow> \<not> is_env_assignment w"
  by (auto simp: is_env_assignment_def Let_def list_all_iff dest: ascii_alpha_special)

lemma find_ws_word_args: "list_all ascii_alpha w \<Longrightarrow> find_ws (w @ quoted_args fs) = length w"
  by (cases fs) (auto simp: find_ws_word find_ws_before_space)

lemma trim_start_plain: "plain_word w \<Longrightarrow> trim_start (w @ t) = w @ t"
  by (cases w) (auto simp: plain_word_def ascii_alpha_ws intro!: trim_start_no_ws)

lemma effective_command_plain:
  assumes "plain_word w" "w \<notin> set PREFIX_WORDS"
  shows "effective_command (w @ quoted_args fs) = w @ quoted_args fs"
proof -
  have alpha: "list_all ascii_alpha w" and ne: "w \<noteq> []" using assms(1) by (auto simp: plain_word_def)
  have "strip_wrappers (w @ quoted_args fs) = w @ quoted_args fs"
    using assms(2) alpha ne by (subst strip_wrappers.simps) (simp add: find_ws_word_args word_not_env Let_def)
  moreover have "CHR ''/'' \<notin> set w" using alpha by (auto simp: list_all_iff dest: ascii_alpha_special)
  ultimately show ?thesis
    using assms(1) alpha
    by (simp add: effective_command_def trim_start_plain find_ws_word_args Let_def
        rsplit_slash_def split_char_no_delim)
qed

lemma positional_quotable: "\<forall>f \<in> set fs. quotable f \<Longrightarrow> positional_loop False fs = fs"
  by (induction fs) (auto simp: quotable_def)

lemma extract_plain_quoted:
  assumes "plain_word w" "w \<notin> set PREFIX_WORDS" "\<forall>f \<in> set fs. quotable f"
  shows "positional_args (shell_tokens (split_at_shell_operator (effective_command (w @ quoted_args fs)))) = fs"
proof -
  have alpha: "list_all ascii_alpha w" "w \<noteq> []" using assms(1) by (auto simp: plain_word_def)
  have q: "\<forall>f \<in> set fs. CHR 0x22 \<notin> set f" using assms(3) by (auto simp: quotable_def)
  show ?thesis
    by (simp add: effective_command_plain [OF assms(1,2)] split_at_shell_operator_def
        split_op_word [OF alpha(1)] split_op_quoted_args [OF q] shell_tokens_def
        shell_scan_word [OF alpha] shell_scan_quoted_args [OF q] positional_args_def
        positional_quotable [OF assms(3)])
qed

lemma matches_word_args:
  "list_all ascii_alpha w \<Longrightarrow> matches_command_word (w @ quoted_args fs) w"
  by (cases fs) (auto simp: matches_command_word_def ascii_ws_byte_def nth_append starts_with_def)

text \<open>
  Every file of a quoted command line is seen by the gate: \<open>cat "f1" "f2" ...\<close> is classified as
  a read and yields exactly its files in order, and \<open>grep "pat" "f1" ...\<close> yields exactly the files
  after the pattern, for any names without a double quote, spaces and shell operators included.
\<close>

theorem quoted_paths_extracted:
  assumes "\<forall>f \<in> set fs. quotable f"
  shows "(w \<in> set CAT_LIKE \<longrightarrow> classify_command (w @ quoted_args fs) = Some CatLike
            \<and> extract_file_paths (w @ quoted_args fs) CatLike = fs)
       \<and> (w \<in> set GREP_LIKE \<and> quotable pat \<longrightarrow>
            extract_file_paths (w @ quoted_args (pat # fs)) GrepLike = fs)"
proof (intro conjI impI)
  assume w: "w \<in> set CAT_LIKE"
  then have pw: "plain_word w" "w \<notin> set PREFIX_WORDS"
    by (auto simp: CAT_LIKE_def PREFIX_WORDS_def plain_word_def ascii_alpha_def)
  then show "classify_command (w @ quoted_args fs) = Some CatLike"
    using w matches_word_args [of w fs]
    by (auto simp: classify_command_def effective_command_plain list_ex_iff plain_word_def Let_def)
  show "extract_file_paths (w @ quoted_args fs) CatLike = fs"
    using extract_plain_quoted [OF pw assms] by (simp add: extract_file_paths_def)
next
  assume w: "w \<in> set GREP_LIKE \<and> quotable pat"
  then have pw: "plain_word w" "w \<notin> set PREFIX_WORDS"
    by (auto simp: GREP_LIKE_def PREFIX_WORDS_def plain_word_def ascii_alpha_def)
  have "\<forall>f \<in> set (pat # fs). quotable f" using assms w by simp
  from extract_plain_quoted [OF pw this]
  show "extract_file_paths (w @ quoted_args (pat # fs)) GrepLike = fs"
    by (cases fs) (simp_all add: extract_file_paths_def)
qed

theorem quoted_paths_extracted_witness:
  "classify_command (''cat'' @ quoted_args [''a b.rs'', ''x;y'']) = Some CatLike
   \<and> extract_file_paths (''cat'' @ quoted_args [''a b.rs'', ''x;y'']) CatLike = [''a b.rs'', ''x;y'']
   \<and> extract_file_paths (''rg'' @ quoted_args (''p|q'' # [''a b.rs'', ''x;y''])) GrepLike = [''a b.rs'', ''x;y'']"
proof -
  have q: "\<forall>f \<in> set [''a b.rs'', ''x;y'']. quotable f" and p: "quotable ''p|q''"
    by (simp_all add: quotable_def starts_with_def)
  have w: "''cat'' \<in> set CAT_LIKE" "''rg'' \<in> set GREP_LIKE"
    by (simp_all add: CAT_LIKE_def GREP_LIKE_def)
  show ?thesis
    using quoted_paths_extracted [OF q, of "''cat''"] quoted_paths_extracted [OF q, of "''rg''" "''p|q''"] p w
    by blast
qed

subsection \<open>The files of a patch\<close>

lemma patch_line_set:
  "set (patch_line files line) = set files \<union>
     {p. p \<noteq> [] \<and> (\<exists>rest. marker_rest MARKERS line = Some rest \<and> p = trim rest)}"
  by (auto simp: patch_line_def Let_def split: option.splits)

lemma patch_line_distinct: "distinct files \<Longrightarrow> distinct (patch_line files line)"
  by (auto simp: patch_line_def Let_def split: option.splits)

lemma patch_fold:
  "set (foldl patch_line files ls) = set files \<union>
     {p. p \<noteq> [] \<and> (\<exists>line \<in> set ls. \<exists>rest. marker_rest MARKERS line = Some rest \<and> p = trim rest)}"
  by (induction ls arbitrary: files) (auto simp: patch_line_set)

lemma patch_fold_distinct: "distinct files \<Longrightarrow> distinct (foldl patch_line files ls)"
  by (induction ls arbitrary: files) (auto simp: patch_line_distinct)

text \<open>
  The files taken from a patch envelope are pairwise different and are exactly the trimmed,
  non-empty paths of the lines that begin, at column 0, with one of the four markers.
\<close>

theorem patch_files_exact:
  "distinct (extract_apply_patch_files patch) \<and>
   set (extract_apply_patch_files patch) =
     {p. p \<noteq> [] \<and> (\<exists>line \<in> set (lines patch). \<exists>m \<in> set MARKERS. \<exists>rest. line = m @ rest \<and> p = trim rest)}"
proof -
  have marker: "marker_rest ms line = Some rest \<longrightarrow> (\<exists>m \<in> set ms. line = m @ rest)" for ms line rest
    by (induction ms) (auto simp: strip_prefix_Some split: option.splits)
  have markers: "marker_rest MARKERS (m @ rest) = Some rest" if "m \<in> set MARKERS" for m rest
    using that by (auto simp: MARKERS_def strip_prefix_def starts_with_def)
  have iff: "marker_rest MARKERS line = Some rest \<longleftrightarrow> (\<exists>m \<in> set MARKERS. line = m @ rest)" for line rest
    using marker [of MARKERS line rest] markers [of _ rest] by blast
  have "(\<exists>rest. marker_rest MARKERS line = Some rest \<and> p = trim rest) \<longleftrightarrow>
      (\<exists>m \<in> set MARKERS. \<exists>rest. line = m @ rest \<and> p = trim rest)" for line p
    by (auto simp: iff)
  then show ?thesis
    using patch_fold [of "[]" "lines patch"] patch_fold_distinct [of "[]" "lines patch"]
    by (simp add: extract_apply_patch_files_def)
qed

subsection \<open>Normalised paths\<close>

text \<open>A proper component: not empty, neither \<open>.\<close> nor \<open>..\<close>, without a slash.\<close>

definition proper_comp :: "string \<Rightarrow> bool" where
  "proper_comp c \<longleftrightarrow> c \<noteq> [] \<and> c \<noteq> ''.'' \<and> c \<noteq> ''..'' \<and> CHR ''/'' \<notin> set c"

lemma normalize_loop_proper:
  assumes "\<forall>p \<in> set parts. CHR ''/'' \<notin> set p" "\<forall>c \<in> set comps. proper_comp c"
    and "normalize_loop comps parts = Some out"
  shows "\<forall>c \<in> set out. proper_comp c"
  using assms
proof (induction parts arbitrary: comps)
  case (Cons part parts)
  have parts: "\<forall>p \<in> set parts. CHR ''/'' \<notin> set p" using Cons.prems(1) by simp
  consider "part = [] \<or> part = ''.''" | "part = ''..''" | "proper_comp part"
    using Cons.prems(1) by (auto simp: proper_comp_def)
  then show ?case
  proof cases
    case 1
    with Cons.prems(3) have "normalize_loop comps parts = Some out" by auto
    then show ?thesis by (rule Cons.IH [OF parts Cons.prems(2)])
  next
    case 2
    with Cons.prems(3) have "normalize_loop (butlast comps) parts = Some out" by (simp split: if_splits)
    moreover have "\<forall>c \<in> set (butlast comps). proper_comp c"
      using Cons.prems(2) by (auto dest: in_set_butlastD)
    ultimately show ?thesis using Cons.IH [OF parts] by blast
  next
    case 3
    with Cons.prems(3) have "normalize_loop (comps @ [part]) parts = Some out"
      by (simp add: proper_comp_def)
    moreover have "\<forall>c \<in> set (comps @ [part]). proper_comp c" using Cons.prems(2) 3 by simp
    ultimately show ?thesis using Cons.IH [OF parts] by blast
  qed
qed simp

lemma normalize_loop_id: "\<forall>c \<in> set parts. proper_comp c \<Longrightarrow> normalize_loop comps parts = Some (comps @ parts)"
  by (induction parts arbitrary: comps) (auto simp: proper_comp_def)

lemma normalize_none: "normalize_path p None =
   (case normalize_loop [] (split_char CHR ''/'' p) of
      None \<Rightarrow> p | Some comps \<Rightarrow> if comps = [] then ''.'' else join ''/'' comps)"
  by (simp add: normalize_path_def strip_repo_root_def)

text \<open>
  Normalising is idempotent: the normalised key of a path is its own normalised key, and unless
  the path climbs above the repository root (then it is left as it is) the key is \<open>.\<close> or has only
  proper components, so two spellings of one path that resolve alike share one key.
\<close>

theorem normalize_path_canonical:
  "normalize_path (normalize_path p r) None = normalize_path p r \<and>
   (normalize_path p r = strip_repo_root p r \<and> normalize_loop [] (split_char CHR ''/'' (strip_repo_root p r)) = None
    \<or> normalize_path p r = ''.''
    \<or> list_all proper_comp (split_char CHR ''/'' (normalize_path p r)))"
proof -
  let ?s = "strip_repo_root p r"
  show ?thesis
  proof (cases "normalize_loop [] (split_char CHR ''/'' ?s)")
    case None
    then have "normalize_path p r = ?s" by (simp add: normalize_path_def)
    with None show ?thesis by (simp add: normalize_none)
  next
    case (Some comps)
    have proper: "\<forall>c \<in> set comps. proper_comp c"
      by (rule normalize_loop_proper [OF _ _ Some]) (auto dest: split_char_pieces)
    show ?thesis
    proof (cases "comps = []")
      case True
      with Some have "normalize_path p r = ''.''" by (simp add: normalize_path_def)
      then show ?thesis by (simp add: normalize_none)
    next
      case False
      with Some have np: "normalize_path p r = join ''/'' comps" by (simp add: normalize_path_def)
      have "split_char CHR ''/'' (join ''/'' comps) = comps"
        using False proper by (intro split_char_join) (auto simp: proper_comp_def)
      with np proper False show ?thesis
        by (simp add: normalize_none normalize_loop_id list_all_iff)
    qed
  qed
qed

end
