(* ===== verification/Protocol.thy ===== *)
theory Protocol
  imports Record_Types
begin

section \<open>The daemon protocol (\<open>mcp/protocol.rs\<close>)\<close>

text \<open>
  Requests, responses and audit entries of the daemon's socket. An input struct with few fields is spelled out as the
  arguments of its command. The wire encoding that serde derives for them is not part of the model.
\<close>

type_synonym u16 = "16 word"
type_synonym uuid = "128 word"

definition PROTOCOL_VERSION :: u16 where "PROTOCOL_VERSION = 2"

datatype ErrorCode =
    VersionMismatch | FrameTooLarge | MalformedRequest | SessionMismatch
  | ValidationFailed | EC_NotFound | Conflict | InvalidStateTransition | StoreError | Internal

datatype 'j Response = RespOk uuid 'j | RespErr uuid ErrorCode string

datatype QueryMode = QueryText | QueryTag | QueryGraph | QuerySemantic

datatype Severity = SevCritical | SevHigh | SevNormal | SevLow

datatype ProtoPriority = PrioCritical | PrioHigh | PrioNormal | PrioLow

fun severity_from :: "Priority \<Rightarrow> Severity" where
  "severity_from Low = SevLow"
| "severity_from Normal = SevNormal"
| "severity_from High = SevHigh"
| "severity_from Critical = SevCritical"

fun proto_priority_from :: "Priority \<Rightarrow> ProtoPriority" where
  "proto_priority_from Low = PrioLow"
| "proto_priority_from Normal = PrioNormal"
| "proto_priority_from High = PrioHigh"
| "proto_priority_from Critical = PrioCritical"

record GotchaDraftInput =
  gd_key :: string
  gd_rule :: string
  gd_reason :: string
  gd_severity :: Severity
  gd_affected_files :: "string list"
  gd_ref_url :: "string option"
  gd_tags :: "string list"
  gd_priority :: ProtoPriority
  gd_source :: "string option"

record FileEnrichInput =
  fe_path :: string
  fe_purpose :: string
  fe_entry_points :: "string list"
  fe_decision_keys :: "string list"
  fe_todos :: "string list"
  fe_tags :: "string list"
  fe_priority :: ProtoPriority

record DecisionUpsertInput =
  du_slug :: string
  du_value :: string
  du_summary :: string
  du_rationale :: string
  du_tags :: "string list"
  du_priority :: ProtoPriority

record DevNoteUpsertInput =
  dn_key :: "string option"
  dn_text :: string
  dn_tags :: "string list"
  dn_priority :: ProtoPriority

datatype SessionEvent =
    SE_Miss | SE_ComplianceMiss | SE_ComplianceHit | SE_EditConsulted | SE_EditBlocked | SE_FloorConsultMiss | SE_CodexShellMiss
  | SE_Bootstrap | SE_PromptNudge

text \<open>
  \<open>ConsultationHit\<close> has the key, the actor, the session and the agent; \<open>SessionLog\<close> the event, the key and the session.
\<close>

datatype 'j Command =
    Ping
  | Metrics
  | Get string
  | HookEvaluate string bool "string option"
  | ScanPrefix string
  | History string u64
  | HistorySince string u64 u64
  | SessionCheckConsulted string
  | SessionCheckConsultedRecent string u64
  | MemQuery string QueryMode u32
  | ScanEnforcementEvents u64 u64
  | ConfigGet string
  | MemGet string
  | MemBootstrap "string list"
  | GotchaUpsert GotchaDraftInput
  | GotchaConfirm string
  | GotchaTombstone string
  | FileEnrich FileEnrichInput
  | FileReparse string
  | FileEditHook string
  | DocCapture string
  | DecisionUpsert DecisionUpsertInput
  | DevNoteUpsert DevNoteUpsertInput
  | ConfigSet string string
  | SandboxAudit string string string
  | SessionLog SessionEvent string "string option"
  | ConsultationHit string "string option" "string option" "string option"
  | SessionFlush
  | SessionHarvest
  | SessionClearConsults
  | RecordImport "'j Record list"

record 'j Request =
  req_v :: u16
  req_id :: uuid
  req_session :: uuid
  req_agent :: "AgentKind option"
  req_cmd :: "'j Command"

fun command_kind :: "'j Command \<Rightarrow> string" where
  "command_kind Ping = ''ping''"
| "command_kind Metrics = ''metrics''"
| "command_kind (Get _) = ''get''"
| "command_kind (HookEvaluate _ _ _) = ''hook_evaluate''"
| "command_kind (ScanPrefix _) = ''scan_prefix''"
| "command_kind (History _ _) = ''history''"
| "command_kind (HistorySince _ _ _) = ''history_since''"
| "command_kind (SessionCheckConsulted _) = ''session_check_consulted''"
| "command_kind (SessionCheckConsultedRecent _ _) = ''session_check_consulted_recent''"
| "command_kind (MemQuery _ _ _) = ''mem_query''"
| "command_kind (ScanEnforcementEvents _ _) = ''scan_enforcement_events''"
| "command_kind (ConfigGet _) = ''config_get''"
| "command_kind (MemGet _) = ''mem_get''"
| "command_kind (MemBootstrap _) = ''mem_bootstrap''"
| "command_kind (GotchaUpsert _) = ''gotcha_upsert''"
| "command_kind (GotchaConfirm _) = ''gotcha_confirm''"
| "command_kind (GotchaTombstone _) = ''gotcha_tombstone''"
| "command_kind (FileEnrich _) = ''file_enrich''"
| "command_kind (FileReparse _) = ''file_reparse''"
| "command_kind (FileEditHook _) = ''file_edit_hook''"
| "command_kind (DocCapture _) = ''doc_capture''"
| "command_kind (DecisionUpsert _) = ''decision_upsert''"
| "command_kind (DevNoteUpsert _) = ''dev_note_upsert''"
| "command_kind (ConfigSet _ _) = ''config_set''"
| "command_kind (SandboxAudit _ _ _) = ''sandbox_audit''"
| "command_kind (SessionLog _ _ _) = ''session_log''"
| "command_kind (ConsultationHit _ _ _ _) = ''consultation_hit''"
| "command_kind SessionFlush = ''session_flush''"
| "command_kind SessionHarvest = ''session_harvest''"
| "command_kind SessionClearConsults = ''session_clear_consults''"
| "command_kind (RecordImport _) = ''record_import''"

fun target_key :: "'j Command \<Rightarrow> string" where
  "target_key (Get k) = k"
| "target_key (HookEvaluate k _ _) = k"
| "target_key (ScanPrefix p) = p"
| "target_key (History k _) = k"
| "target_key (HistorySince k _ _) = k"
| "target_key (SessionCheckConsulted k) = k"
| "target_key (SessionCheckConsultedRecent k _) = k"
| "target_key (MemQuery q _ _) = q"
| "target_key (MemGet k) = k"
| "target_key (GotchaUpsert i) = gd_key i"
| "target_key (GotchaConfirm k) = k"
| "target_key (GotchaTombstone k) = k"
| "target_key (FileEnrich i) = fe_path i"
| "target_key (FileReparse p) = p"
| "target_key (FileEditHook p) = p"
| "target_key (DocCapture p) = p"
| "target_key (DecisionUpsert i) = du_slug i"
| "target_key (DevNoteUpsert i) = unwrap_or (dn_key i) []"
| "target_key (SessionLog _ k _) = k"
| "target_key (ConsultationHit k _ _ _) = k"
| "target_key (ConfigGet k) = k"
| "target_key (ConfigSet k _) = k"
| "target_key (SandboxAudit s _ _) = s"
| "target_key _ = []"

definition is_mutation :: "'j Command \<Rightarrow> bool" where
  "is_mutation cmd =
     (case cmd of
        MemGet _ \<Rightarrow> True | MemBootstrap _ \<Rightarrow> True
      | GotchaUpsert _ \<Rightarrow> True | GotchaConfirm _ \<Rightarrow> True | GotchaTombstone _ \<Rightarrow> True
      | FileEnrich _ \<Rightarrow> True | FileReparse _ \<Rightarrow> True | FileEditHook _ \<Rightarrow> True | DocCapture _ \<Rightarrow> True
      | DecisionUpsert _ \<Rightarrow> True | DevNoteUpsert _ \<Rightarrow> True | SessionLog _ _ _ \<Rightarrow> True | ConsultationHit _ _ _ _ \<Rightarrow> True
      | ConfigSet _ _ \<Rightarrow> True | SandboxAudit _ _ _ \<Rightarrow> True | SessionFlush \<Rightarrow> True | SessionHarvest \<Rightarrow> True
      | SessionClearConsults \<Rightarrow> True | RecordImport _ \<Rightarrow> True
      | _ \<Rightarrow> False)"

record AuditEntry =
  ae_ts :: u64
  ae_peer_uid :: u32
  ae_peer_pid :: "u32 option"
  ae_daemon_session :: uuid
  ae_request_id :: uuid
  ae_command_kind :: string
  ae_target_key :: string
  ae_accepted :: bool
  ae_error_code :: "ErrorCode option"

subsection \<open>Requests of the command line and the hooks\<close>

text \<open>
  \<open>v1_to_v2_command\<close> builds the JSON of a command from the older form. An absent argument indexes to null; the fallthrough
  panics, here \<open>None\<close>.
\<close>

definition arg_value :: "'j json_api \<Rightarrow> 'j \<Rightarrow> string \<Rightarrow> 'j" where
  "arg_value J args field = unwrap_or (j_get J args field) (j_null J)"

definition arg_u64 :: "'j json_api \<Rightarrow> 'j \<Rightarrow> string \<Rightarrow> u64 \<Rightarrow> 'j" where
  "arg_u64 J args field d = j_u64 J (unwrap_or (Option.bind (j_get J args field) (j_as_u64 J)) d)"

definition v1_to_v2_command :: "'j json_api \<Rightarrow> string \<Rightarrow> 'j \<Rightarrow> 'j option" where
  "v1_to_v2_command J cmd args =
     (let typed = (\<lambda>fields. Some (j_object J ((''type'', j_string J cmd) # fields)));
          key = (''key'', arg_value J args ''key'')
      in if cmd = ''ping'' \<or> cmd = ''metrics'' then typed []
         else if cmd = ''get'' \<or> cmd = ''session_check_consulted'' \<or> cmd = ''mem_get'' then typed [key]
         else if cmd = ''hook_evaluate''
         then typed [(''file_key'', arg_value J args ''file_key''),
                     (''include_recent'', j_bool J (unwrap_or (Option.bind (j_get J args ''include_recent'') (j_as_bool J)) False)),
                     (''actor'', arg_value J args ''actor'')]
         else if cmd = ''scan_prefix'' then typed [(''prefix'', arg_value J args ''prefix'')]
         else if cmd = ''history'' then typed [key, (''limit'', arg_u64 J args ''limit'' 50)]
         else if cmd = ''history_since''
         then typed [key, (''since_ts'', arg_u64 J args ''since_ts'' 0), (''limit'', arg_u64 J args ''limit'' 50)]
         else if cmd = ''session_check_consulted_recent'' then typed [key, (''ttl_secs'', arg_u64 J args ''ttl_secs'' 900)]
         else if cmd = ''mem_query''
         then typed [(''query'', arg_value J args ''query''),
                     (''mode'', j_string J (unwrap_or (Option.bind (j_get J args ''mode'') (j_as_str J)) ''text'')),
                     (''limit'', arg_u64 J args ''limit'' 20)]
         else if cmd = ''scan_enforcement_events''
         then typed [(''since_seq'', arg_u64 J args ''since_seq'' 0), (''until_seq'', arg_u64 J args ''until_seq'' (- 1))]
         else if cmd = ''mem_bootstrap''
         then typed [(''context_files'', unwrap_or (j_get J args ''context_files'') (j_array J []))]
         else None)"

end
