(* ===== verification/Hook.thy ===== *)
theory Hook
  imports Decide Feedback Protocol
begin

section \<open>The hook adapter (\<open>cli/hook_decide.rs\<close>)\<close>

text \<open>
  The process that Claude Code and Codex run before and after a tool call: it reads the tool input, asks the daemon about each
  file the call touches, decides with \<open>evaluate\<close> and prints the answer in the form the platform expects. What it reads from outside
  is the record \<open>hook_env\<close>: the text parser of JSON, the working directory, the work tree git finds, the symlink resolution of the file
  system (\<open>canonicalize_lenient\<close> of \<open>cli/sandbox.rs\<close>), whether the daemon's directory is known and the daemon reachable, the daemon's answers
  during this call (\<open>None\<close> when the round trip fails, otherwise the whole response), the glob crate, and the text of the globs of the
  enterprise overlay. The result is what the process prints, its exit code, the commands it sends and the
  lines it adds to the fail-open log; the warning on standard error that goes with such a line is not repeated.
\<close>

datatype HookVariant =
    ClaudePreRead
  | ClaudePreEdit
  | ClaudePreBash
  | CodexPreBash
  | CodexPostBash
  | CodexPreApplyPatch
  | ClaudePostMemGet

record 'g glob_api =
  gl_parse :: "string \<Rightarrow> string list option"
  gl_new :: "string \<Rightarrow> 'g option"
  gl_build :: "'g list \<Rightarrow> bool"
  gl_match :: "'g \<Rightarrow> string \<Rightarrow> bool"

record ('j, 'g) hook_env =
  he_parse :: "string \<Rightarrow> 'j option"
  he_cwd :: string
  he_workdir :: "string option"
  he_canonicalize :: "string \<Rightarrow> string option"
  he_mati_root :: bool
  he_daemon :: bool
  he_evaluate :: "string \<Rightarrow> bool \<Rightarrow> string option \<Rightarrow> 'j option"
  he_recent :: "string \<Rightarrow> u64 \<Rightarrow> 'j option"
  he_globs :: "'g glob_api"
  he_consult_globs :: "string option"

subsection \<open>Commands to the daemon\<close>

definition event_command :: "string option \<Rightarrow> HookEvent \<Rightarrow> 'j Command" where
  "event_command sid e =
     (case e of
        Hit key \<Rightarrow> ConsultationHit key None None None
      | Miss key \<Rightarrow> SessionLog SE_Miss key sid
      | BlockedUnconsultedRead key \<Rightarrow> SessionLog SE_ComplianceMiss key sid
      | CodexShellBlocked key \<Rightarrow> SessionLog SE_CodexShellMiss key sid
      | ComplianceHit key \<Rightarrow> SessionLog SE_ComplianceHit key sid
      | EditConsulted key \<Rightarrow> SessionLog SE_EditConsulted key sid
      | EditBlocked key \<Rightarrow> SessionLog SE_EditBlocked key sid
      | FloorConsultBlocked key \<Rightarrow> SessionLog SE_FloorConsultMiss key sid)"

definition fire_events :: "HookEvent list \<Rightarrow> string option \<Rightarrow> 'j Command list" where
  "fire_events evs sid = map (event_command sid) evs"

subsection \<open>Output\<close>

record 'j hook_output =
  ho_stdout :: string
  ho_stderr :: string
  ho_exit :: nat
  ho_commands :: "'j Command list"
  ho_fail_open :: "(string \<times> string) list"

definition allow_json :: string where
  \<open>allow_json = ''{"hookSpecificOutput":{"hookEventName":"PreToolUse","permissionDecision":"allow"}}''\<close>

definition deny_json :: "string \<Rightarrow> string" where
  \<open>deny_json escaped =
     ''{"hookSpecificOutput":{"hookEventName":"PreToolUse","permissionDecision":"deny","permissionDecisionReason":"'' @ escaped @ ''"}}''\<close>

definition context_json :: "string \<Rightarrow> string" where
  \<open>context_json escaped =
     ''{"hookSpecificOutput":{"hookEventName":"PreToolUse","permissionDecision":"allow","additionalContext":"'' @ escaped @ ''"}}''\<close>

definition emit_allow :: "HookVariant \<Rightarrow> 'j hook_output" where
  "emit_allow v =
     \<lparr> ho_stdout = (if v = ClaudePreRead \<or> v = ClaudePreBash then allow_json else []), ho_stderr = [], ho_exit = 0,
       ho_commands = [], ho_fail_open = [] \<rparr>"

definition fail_open :: "HookVariant \<Rightarrow> string \<Rightarrow> string \<Rightarrow> 'j hook_output" where
  "fail_open v rel reason = (emit_allow v)\<lparr>ho_fail_open := [(rel, reason)]\<rparr>"

definition escape_json_string :: "string \<Rightarrow> string" where
  "escape_json_string s =
     replace_char CHR 0x09 [CHR 0x5C, CHR ''t''] (replace_char CHR 0x0D [CHR 0x5C, CHR ''r'']
       (replace_char CHR 0x0A [CHR 0x5C, CHR ''n''] (replace_char CHR 0x22 [CHR 0x5C, CHR 0x22]
         (replace_char CHR 0x5C [CHR 0x5C, CHR 0x5C] s))))"

definition format_claude_output :: "Decision \<Rightarrow> string" where
  "format_claude_output d =
     (case d of
        Deny _ reason \<Rightarrow> deny_json (escape_json_string reason)
      | AlreadyConsulted ctx \<Rightarrow> context_json (escape_json_string (''[mati] Record already consulted. '' @ ctx))
      | Advisory ctx \<Rightarrow> context_json (escape_json_string (''[mati] '' @ ctx))
      | LiabilityRecord _ ctx \<Rightarrow> context_json (escape_json_string (''[mati] '' @ ctx))
      | _ \<Rightarrow> allow_json)"

definition format_decision :: "HookVariant \<Rightarrow> Decision \<Rightarrow> string \<times> string \<times> nat" where
  "format_decision v d =
     (case v of
        ClaudePreRead \<Rightarrow> (format_claude_output d, [], 0)
      | ClaudePreBash \<Rightarrow> (format_claude_output d, [], 0)
      | ClaudePreEdit \<Rightarrow> (case d of Deny _ reason \<Rightarrow> (deny_json (escape_json_string reason), [], 0) | _ \<Rightarrow> ([], [], 0))
      | CodexPostBash \<Rightarrow> ([], [], 0)
      | ClaudePostMemGet \<Rightarrow> ([], [], 0)
      | _ \<Rightarrow> (case d of Deny key _ \<Rightarrow> ([], ''mati: call mem_get('' @ [CHR 0x22] @ key @ [CHR 0x22] @ '') first'', 2) | _ \<Rightarrow> ([], [], 0)))"

text \<open>Which events of a decision the platform reports, and under which name.\<close>

definition codex_event :: "Decision \<Rightarrow> HookEvent \<Rightarrow> HookEvent option" where
  "codex_event d e =
     (case e of
        BlockedUnconsultedRead key \<Rightarrow> Some (CodexShellBlocked key)
      | Hit _ \<Rightarrow> (case d of Advisory _ \<Rightarrow> None | LiabilityRecord _ _ \<Rightarrow> None | _ \<Rightarrow> Some e)
      | ComplianceHit _ \<Rightarrow> None
      | _ \<Rightarrow> Some e)"

definition edit_event :: "HookEvent \<Rightarrow> HookEvent option" where
  "edit_event e =
     (case e of
        BlockedUnconsultedRead key \<Rightarrow> Some (EditBlocked key)
      | FloorConsultBlocked key \<Rightarrow> Some (FloorConsultBlocked key)
      | ComplianceHit key \<Rightarrow> Some (EditConsulted key)
      | _ \<Rightarrow> None)"

definition platform_events :: "HookVariant \<Rightarrow> Decision \<Rightarrow> HookEvent list \<Rightarrow> HookEvent list" where
  "platform_events v d evs =
     (case v of
        CodexPreBash \<Rightarrow> List.map_filter (codex_event d) evs
      | CodexPreApplyPatch \<Rightarrow> List.map_filter (codex_event d) evs
      | ClaudePreEdit \<Rightarrow> List.map_filter edit_event evs
      | _ \<Rightarrow> evs)"

subsection \<open>One file\<close>

record AdapterResult =
  ar_stdout :: string
  ar_stderr :: string
  ar_exit :: nat
  ar_events :: "HookEvent list"
  ar_decision :: Decision

definition uses_recent :: "HookVariant \<Rightarrow> bool" where
  "uses_recent v \<longleftrightarrow> v \<in> {CodexPreBash, CodexPostBash, CodexPreApplyPatch, ClaudePreEdit, ClaudePostMemGet}"

definition json_flag :: "'j json_api \<Rightarrow> 'j \<Rightarrow> string \<Rightarrow> bool" where
  "json_flag J val field = unwrap_or (Option.bind (j_get J val field) (j_as_bool J)) False"

definition extract_gotcha_map :: "'j json_api \<Rightarrow> 'j \<Rightarrow> string \<rightharpoonup> 'j" where
  "extract_gotcha_map J eval_data =
     (case j_get J eval_data ''gotcha_records'' of
        Some g \<Rightarrow> if j_is_object J g then j_get J g else Map.empty
      | None \<Rightarrow> Map.empty)"

text \<open>\<open>Inl\<close> is the reason for failing open.\<close>

definition check_eval_data :: "'j json_api \<Rightarrow> HookVariant \<Rightarrow> string \<Rightarrow> 'j \<Rightarrow> string + 'j EnforcementInput" where
  "check_eval_data J v rel eval_data =
     (let already = json_flag J eval_data (if uses_recent v then ''consulted_recent'' else ''consulted'');
          fr = (case j_get J eval_data ''file_record'' of Some r \<Rightarrow> if r = j_null J then None else Some r | None \<Rightarrow> None);
          input = \<lparr> rel_path = rel, file_record = fr, gotcha_records = extract_gotcha_map J eval_data, already_consulted = already \<rparr>
      in if json_flag J eval_data ''store_error'' \<and> fr = None then Inl ''store error during hook_evaluate''
         else if json_flag J eval_data ''gotcha_error'' then Inl ''gotcha fetch error during hook_evaluate''
         else Inr input)"

definition process_eval_response :: "'j json_api \<Rightarrow> HookVariant \<Rightarrow> string \<Rightarrow> 'j \<Rightarrow> AdapterResult" where
  "process_eval_response J v rel eval_data =
     (case check_eval_data J v rel eval_data of
        Inl _ \<Rightarrow>
          \<lparr> ar_stdout = (if v = ClaudePreRead \<or> v = ClaudePreBash then allow_json else []), ar_stderr = [], ar_exit = 0,
            ar_events = [], ar_decision = Allow \<rparr>
      | Inr input \<Rightarrow>
          (let result = evaluate J input;
               evs = platform_events v (decision result) (events result);
               (out, err, code) = format_decision v (decision result)
           in \<lparr> ar_stdout = out, ar_stderr = err, ar_exit = code, ar_events = evs, ar_decision = decision result \<rparr>))"

subsection \<open>The consult mandate\<close>

definition consult_globset_from :: "'g glob_api \<Rightarrow> string \<Rightarrow> 'g list option" where
  "consult_globset_from G raw =
     (case gl_parse G raw of
        None \<Rightarrow> None
      | Some globs \<Rightarrow>
          (if globs = [] then None
           else let gs = List.map_filter (gl_new G) globs in if gl_build G gs \<and> gs \<noteq> [] then Some gs else None))"

definition consult_globset :: "('j, 'g) hook_env \<Rightarrow> 'g list option" where
  "consult_globset env = Option.bind (he_consult_globs env) (consult_globset_from (he_globs env))"

definition consulted_flag :: "'j json_api \<Rightarrow> 'j \<Rightarrow> bool \<Rightarrow> bool" where
  "consulted_flag J eval_data include_recent = json_flag J eval_data (if include_recent then ''consulted_recent'' else ''consulted'')"

definition is_deny :: "Decision \<Rightarrow> bool" where
  "is_deny d \<longleftrightarrow> (case d of Deny _ _ \<Rightarrow> True | _ \<Rightarrow> False)"

definition mandate_reason :: "string \<Rightarrow> string" where
  "mandate_reason rel =
     ''[mati] Org policy requires consulting '' @ rel @ '' before access '' @ dash @ '' call mem_get('' @ [CHR 0x22] @ file_key rel @ [CHR 0x22] @ '') first.''"

definition apply_consult_mandate ::
  "'g glob_api \<Rightarrow> HookVariant \<Rightarrow> string \<Rightarrow> bool \<Rightarrow> 'g list option \<Rightarrow> AdapterResult \<Rightarrow> AdapterResult" where
  "apply_consult_mandate G v rel consulted globs adapter =
     (case globs of
        None \<Rightarrow> adapter
      | Some gs \<Rightarrow>
          (if consulted \<or> is_deny (ar_decision adapter) \<or> \<not> list_ex (\<lambda>g. gl_match G g rel) gs then adapter
           else let d = Deny (file_key rel) (mandate_reason rel);
                    evs = platform_events v d [FloorConsultBlocked (file_key rel)];
                    (out, err, code) = format_decision v d
                in \<lparr> ar_stdout = out, ar_stderr = err, ar_exit = code, ar_events = evs, ar_decision = d \<rparr>))"

subsection \<open>Paths\<close>

definition non_empty :: "string option \<Rightarrow> string option" where
  "non_empty m = (case m of Some s \<Rightarrow> if s = [] then None else Some s | None \<Rightarrow> None)"

definition pointer_str :: "'j json_api \<Rightarrow> 'j \<Rightarrow> string \<Rightarrow> string option" where
  "pointer_str J input ptr = non_empty (Option.bind (j_pointer J input ptr) (j_as_str J))"

definition field_str :: "'j json_api \<Rightarrow> 'j \<Rightarrow> string \<Rightarrow> string option" where
  "field_str J input field = non_empty (Option.bind (j_get J input field) (j_as_str J))"

definition or_else :: "'a option \<Rightarrow> 'a option \<Rightarrow> 'a option" where
  "or_else a b = (case a of None \<Rightarrow> b | Some x \<Rightarrow> Some x)"

definition extract_path :: "'j json_api \<Rightarrow> 'j \<Rightarrow> HookVariant \<Rightarrow> string option" where
  "extract_path J input v =
     (if v = ClaudePreRead \<or> v = ClaudePreEdit
      then non_empty (Option.bind (or_else (j_pointer J input ''/tool_input/file_path'')
             (or_else (j_pointer J input ''/tool_input/notebook_path'') (j_pointer J input ''/tool_input/path''))) (j_as_str J))
      else if v = ClaudePreBash \<or> v = CodexPreBash \<or> v = CodexPostBash
      then Option.bind (pointer_str J input ''/tool_input/command'') (\<lambda>cmd.
             Option.bind (classify_command cmd) (extract_file_path cmd))
      else None)"

definition trim_end_slash :: "string \<Rightarrow> string" where
  "trim_end_slash s = rev (dropWhile (\<lambda>c. c = CHR ''/'') (rev s))"

definition discover_repo_root :: "('j, 'g) hook_env \<Rightarrow> string option" where
  "discover_repo_root env = map_option trim_end_slash (he_workdir env)"

text \<open>\<open>cwd.join(raw)\<close> and, on canonical paths, \<open>strip_prefix\<close>.\<close>

definition path_join :: "string \<Rightarrow> string \<Rightarrow> string" where
  "path_join base p = (if base = [] \<or> last base = CHR ''/'' then base @ p else base @ ''/'' @ p)"

definition path_strip :: "string \<Rightarrow> string \<Rightarrow> string option" where
  "path_strip p base =
     (if p = base then Some []
      else strip_prefix p (if base \<noteq> [] \<and> last base = CHR ''/'' then base else base @ ''/''))"

definition canonical_rel_path :: "('j, 'g) hook_env \<Rightarrow> string \<Rightarrow> string \<Rightarrow> string option" where
  "canonical_rel_path env raw_path lexical_rel =
     Option.bind (discover_repo_root env) (\<lambda>repo_root.
     Option.bind (he_canonicalize env repo_root) (\<lambda>canon_root.
     Option.bind (he_canonicalize env (if starts_with raw_path ''/'' then raw_path else path_join (he_cwd env) raw_path)) (\<lambda>canon_access.
     Option.bind (path_strip canon_access canon_root) (\<lambda>stripped.
       let canon_rel = normalize_path stripped None
       in if canon_rel = lexical_rel then None else Some canon_rel))))"

subsection \<open>The gate on one file\<close>

definition response_data :: "'j json_api \<Rightarrow> 'j \<Rightarrow> 'j" where
  "response_data J resp = unwrap_or (j_get J resp ''data'') (j_null J)"

text \<open>The answer of the daemon for a file, decided and with the mandate applied; \<open>None\<close> when the round trip failed.\<close>

definition judge ::
  "'j json_api \<Rightarrow> ('j, 'g) hook_env \<Rightarrow> HookVariant \<Rightarrow> bool \<Rightarrow> string option \<Rightarrow> string \<Rightarrow> AdapterResult option" where
  "judge J env v include_recent actor rel =
     (case he_evaluate env (file_key rel) include_recent actor of
        None \<Rightarrow> None
      | Some resp \<Rightarrow>
          (let d = response_data J resp
           in Some (apply_consult_mandate (he_globs env) v rel (consulted_flag J d include_recent) (consult_globset env)
                      (process_eval_response J v rel d))))"

text \<open>Adopt another file's result only when it denies; of several further files the first that denies.\<close>

definition escalate :: "AdapterResult \<Rightarrow> AdapterResult option \<Rightarrow> AdapterResult" where
  "escalate a other = (case other of Some b \<Rightarrow> if is_deny (ar_decision b) then b else a | None \<Rightarrow> a)"

fun first_deny :: "(string \<Rightarrow> AdapterResult option) \<Rightarrow> AdapterResult \<Rightarrow> string list \<Rightarrow> AdapterResult" where
  "first_deny f a [] = a"
| "first_deny f a (rel # rels) =
     (case f rel of
        Some b \<Rightarrow> if is_deny (ar_decision b) then b else first_deny f a rels
      | None \<Rightarrow> first_deny f a rels)"

definition extra_files :: "'j json_api \<Rightarrow> ('j, 'g) hook_env \<Rightarrow> HookVariant \<Rightarrow> 'j \<Rightarrow> string \<Rightarrow> string list" where
  "extra_files J env v input rel =
     (if v = ClaudePreBash \<or> v = CodexPreBash
      then (case Option.bind (j_pointer J input ''/tool_input/command'') (j_as_str J) of
              None \<Rightarrow> []
            | Some cmd \<Rightarrow>
                (case classify_command cmd of
                   None \<Rightarrow> []
                 | Some class \<Rightarrow>
                     filter (\<lambda>r. r \<noteq> rel) (map (\<lambda>raw. normalize_path raw (discover_repo_root env))
                       (take MAX_APPLY_PATCH_FILES (extract_file_paths cmd class)))))
      else [])"

definition adapter_output :: "AdapterResult \<Rightarrow> string option \<Rightarrow> (string \<times> string) list \<Rightarrow> 'j hook_output" where
  "adapter_output a session_id failed =
     \<lparr> ho_stdout = ar_stdout a, ho_stderr = ar_stderr a, ho_exit = ar_exit a,
       ho_commands = fire_events (ar_events a) session_id, ho_fail_open = failed \<rparr>"

definition run_post_bash :: "'j json_api \<Rightarrow> ('j, 'g) hook_env \<Rightarrow> string \<Rightarrow> 'j hook_output" where
  "run_post_bash J env rel =
     (let consulted = (case he_recent env (file_key rel) 900 of
                         Some resp \<Rightarrow> unwrap_or (Option.bind (j_get J resp ''data'') (j_as_bool J)) False
                       | None \<Rightarrow> False)
      in \<lparr> ho_stdout = [], ho_stderr = [], ho_exit = 0,
           ho_commands = [SessionLog (if consulted then SE_ComplianceHit else SE_CodexShellMiss) (file_key rel) None],
           ho_fail_open = [] \<rparr>)"

definition silent :: "'j Command list \<Rightarrow> 'j hook_output" where
  "silent cmds = \<lparr> ho_stdout = [], ho_stderr = [], ho_exit = 0, ho_commands = cmds, ho_fail_open = [] \<rparr>"

definition run_post_memget :: "'j json_api \<Rightarrow> ('j, 'g) hook_env \<Rightarrow> 'j \<Rightarrow> 'j hook_output" where
  "run_post_memget J env input =
     (case pointer_str J input ''/tool_input/key'' of
        None \<Rightarrow> silent []
      | Some key \<Rightarrow>
          (let agent_id = field_str J input ''agent_id''; session_id = field_str J input ''session_id''
           in if \<not> he_mati_root env \<or> \<not> he_daemon env then silent []
              else silent [ConsultationHit key (or_else agent_id session_id) session_id agent_id]))"

subsection \<open>Patches\<close>

text \<open>The denied keys with the events of their denials, and the files whose lookup failed.\<close>

fun judge_patch ::
  "'j json_api \<Rightarrow> ('j, 'g) hook_env \<Rightarrow> string option \<Rightarrow> string list
   \<Rightarrow> (string \<times> HookEvent list) list \<times> (string \<times> string) list" where
  "judge_patch J env actor [] = ([], [])"
| "judge_patch J env actor (rel # rels) =
     (let rest = judge_patch J env actor rels
      in case he_evaluate env (file_key rel) True actor of
           None \<Rightarrow> (fst rest, (rel, ''hook_evaluate failed'') # snd rest)
         | Some resp \<Rightarrow>
             (let a = process_eval_response J CodexPreApplyPatch rel (response_data J resp)
              in if is_deny (ar_decision a) then ((file_key rel, ar_events a) # fst rest, snd rest) else rest))"

definition patch_message :: "string list \<Rightarrow> string" where
  "patch_message denied =
     (if length denied = 1 then ''mati: call mem_get('' @ [CHR 0x22] @ hd denied @ [CHR 0x22] @ '') before editing''
      else ''mati: consult these files before editing '' @ dash @ '' call mem_get for each: '' @ join '', '' denied)"

definition run_apply_patch :: "'j json_api \<Rightarrow> ('j, 'g) hook_env \<Rightarrow> 'j \<Rightarrow> 'j hook_output" where
  "run_apply_patch J env input =
     (case pointer_str J input ''/tool_input/command'' of
        None \<Rightarrow> emit_allow CodexPreApplyPatch
      | Some cmd \<Rightarrow>
          (let raw = extract_apply_patch_files cmd;
               capped = (if MAX_APPLY_PATCH_FILES < length raw
                         then [(''<apply_patch>'', ''patch touches '' @ show_nat (length raw) @ '' files; gating only the first '' @ show_nat MAX_APPLY_PATCH_FILES)]
                         else [])
           in if raw = [] then emit_allow CodexPreApplyPatch
              else if \<not> he_mati_root env
              then (fail_open CodexPreApplyPatch ''<apply_patch>'' ''cannot determine mati root'')
                     \<lparr>ho_fail_open := capped @ [(''<apply_patch>'', ''cannot determine mati root'')]\<rparr>
              else if \<not> he_daemon env
              then (fail_open CodexPreApplyPatch ''<apply_patch>'' ''daemon not running after auto-start'')
                     \<lparr>ho_fail_open := capped @ [(''<apply_patch>'', ''daemon not running after auto-start'')]\<rparr>
              else let rels = map (\<lambda>r. normalize_path r (discover_repo_root env)) (take MAX_APPLY_PATCH_FILES raw);
                       (denied, failed) = judge_patch J env (field_str J input ''agent_id'') rels;
                       cmds = fire_events (concat (map snd denied)) None
                   in if denied = [] then (emit_allow CodexPreApplyPatch)\<lparr>ho_commands := cmds, ho_fail_open := capped @ failed\<rparr>
                      else \<lparr> ho_stdout = [], ho_stderr = patch_message (map fst denied), ho_exit = 2,
                             ho_commands = cmds, ho_fail_open = capped @ failed \<rparr>))"

subsection \<open>The process\<close>

definition gate_file :: "'j json_api \<Rightarrow> ('j, 'g) hook_env \<Rightarrow> HookVariant \<Rightarrow> 'j \<Rightarrow> string \<Rightarrow> 'j hook_output" where
  "gate_file J env v input raw_path =
     (let rel = normalize_path raw_path (discover_repo_root env);
          include_recent = (v = CodexPreBash \<or> v = ClaudePreEdit);
          actor = field_str J input ''agent_id'';
          session_id = Option.bind (j_get J input ''session_id'') (j_as_str J);
          f = judge J env v include_recent actor
      in case he_evaluate env (file_key rel) include_recent actor of
           None \<Rightarrow> fail_open v rel ''hook_evaluate failed''
         | Some resp \<Rightarrow>
             (let a0 = the (f rel);
                  failed = (case check_eval_data J v rel (response_data J resp) of Inl reason \<Rightarrow> [(rel, reason)] | Inr _ \<Rightarrow> []);
                  a1 = (if is_deny (ar_decision a0) then a0
                        else case canonical_rel_path env raw_path rel of
                               Some canon_rel \<Rightarrow> escalate a0 (f canon_rel)
                             | None \<Rightarrow> a0);
                  a2 = (if is_deny (ar_decision a1) then a1 else first_deny f a1 (extra_files J env v input rel))
              in adapter_output a2 session_id failed))"

definition run_inner :: "'j json_api \<Rightarrow> ('j, 'g) hook_env \<Rightarrow> HookVariant \<Rightarrow> string \<Rightarrow> 'j hook_output" where
  "run_inner J env v stdin =
     (let input = unwrap_or (he_parse env stdin) (j_null J)
      in if v = CodexPreApplyPatch then run_apply_patch J env input
         else if v = ClaudePostMemGet then run_post_memget J env input
         else case extract_path J input v of
                None \<Rightarrow> emit_allow v
              | Some raw_path \<Rightarrow>
                  (let rel = normalize_path raw_path (discover_repo_root env)
                   in if \<not> he_mati_root env then fail_open v rel ''cannot determine mati root''
                      else if \<not> he_daemon env then fail_open v rel ''daemon not running after auto-start''
                      else if v = CodexPostBash then run_post_bash J env rel
                      else gate_file J env v input raw_path))"

text \<open>\<open>elapsed\<close> says whether the deadline of 2500 ms passed first.\<close>

definition hook_run :: "'j json_api \<Rightarrow> ('j, 'g) hook_env \<Rightarrow> bool \<Rightarrow> HookVariant \<Rightarrow> string \<Rightarrow> 'j hook_output" where
  "hook_run J env elapsed v stdin =
     (if elapsed then fail_open v ''<unknown>'' ''hook process exceeded internal deadline'' else run_inner J env v stdin)"

end
