(* ===== verification/Hook_Spec.thy ===== *)
theory Hook_Spec
  imports Hook
begin

section \<open>The hook tells the platform what was decided\<close>

text \<open>
  What the hook prints denies the tool call exactly when one of the files it touches is judged \<open>Deny\<close>; text that goes into the printed JSON
  cannot leave its string; and when the gate is bypassed because something failed, the fail-open log says so.
\<close>

subsection \<open>Escaping\<close>

fun escape_char :: "char \<Rightarrow> string" where
  "escape_char c =
     (if c = CHR 0x5C then [CHR 0x5C, CHR 0x5C]
      else if c = CHR 0x22 then [CHR 0x5C, CHR 0x22]
      else if c = CHR 0x0A then [CHR 0x5C, CHR ''n'']
      else if c = CHR 0x0D then [CHR 0x5C, CHR ''r'']
      else if c = CHR 0x09 then [CHR 0x5C, CHR ''t'']
      else [c])"

lemma replace_char_append: "replace_char a r (xs @ ys) = replace_char a r xs @ replace_char a r ys"
  by (induction xs) auto

lemma escape_json_string_chars: "escape_json_string s = concat (map escape_char s)"
  by (induction s) (simp_all add: escape_json_string_def replace_char_append)

text \<open>
  The body of a JSON string up to its closing quote, as RFC 8259 defines it: no raw quote, backslash or control character. Escapes with
  \<open>\u\<close>, which the program never writes, are left out.
\<close>

definition escape_value :: "char \<Rightarrow> char option" where
  "escape_value c =
     map_of [(CHR 0x22, CHR 0x22), (CHR 0x5C, CHR 0x5C), (CHR ''/'', CHR ''/''), (CHR ''b'', CHR 0x08), (CHR ''f'', CHR 0x0C),
             (CHR ''n'', CHR 0x0A), (CHR ''r'', CHR 0x0D), (CHR ''t'', CHR 0x09)] c"

definition control_char :: "char \<Rightarrow> bool" where
  "control_char c \<longleftrightarrow> (of_char c :: nat) < 32"

fun read_string_body :: "string \<Rightarrow> (string \<times> string) option" where
  "read_string_body [] = None"
| "read_string_body (c # cs) =
     (if c = CHR 0x22 then Some ([], cs)
      else if c = CHR 0x5C
      then (case cs of
              [] \<Rightarrow> None
            | e # es \<Rightarrow>
                (case escape_value e of
                   None \<Rightarrow> None
                 | Some v \<Rightarrow> map_option (\<lambda>(s, rest). (v # s, rest)) (read_string_body es)))
      else if control_char c then None
      else map_option (\<lambda>(s, rest). (c # s, rest)) (read_string_body cs))"

definition printable :: "string \<Rightarrow> bool" where
  "printable s \<longleftrightarrow> list_all (\<lambda>c. control_char c \<longrightarrow> c \<in> {CHR 0x09, CHR 0x0A, CHR 0x0D}) s"

lemma read_escape_char:
  "read_string_body (escape_char c @ t) =
     (if control_char c \<and> c \<notin> {CHR 0x09, CHR 0x0A, CHR 0x0D} then None
      else map_option (\<lambda>(s, rest). (c # s, rest)) (read_string_body t))"
  by (auto simp: escape_value_def control_char_def)

text \<open>
  C39. Text put into the printed JSON stays inside its string and is read back unchanged: a JSON reader that meets the escaped text followed by the closing
  quote returns exactly the text and stops at that quote, provided the text has no control character besides tab, line feed and carriage
  return; with any other control character the printed line is not JSON at all.
\<close>

theorem escape_json_exact:
  "read_string_body (escape_json_string s @ CHR 0x22 # rest) = (if printable s then Some (s, rest) else None)"
proof (induction s)
  case Nil
  then show ?case by (simp add: escape_json_string_chars printable_def)
next
  case (Cons c s)
  have "read_string_body (escape_json_string (c # s) @ CHR 0x22 # rest)
      = read_string_body (escape_char c @ (escape_json_string s @ CHR 0x22 # rest))"
    by (simp add: escape_json_string_chars del: escape_char.simps)
  then show ?case using Cons by (auto simp: read_escape_char printable_def simp del: escape_char.simps)
qed

subsection \<open>Decision and output\<close>

text \<open>How the platforms see a denial: Codex by the exit code, Claude Code by the JSON line.\<close>

definition gating :: "HookVariant \<Rightarrow> bool" where
  "gating v \<longleftrightarrow> v \<in> {ClaudePreRead, ClaudePreEdit, ClaudePreBash, CodexPreBash}"

definition denies :: "HookVariant \<Rightarrow> string \<Rightarrow> nat \<Rightarrow> bool" where
  "denies v out code \<longleftrightarrow> (if v = CodexPreBash then code = 2 else \<exists>reason. out = deny_json (escape_json_string reason))"

lemma not_deny_json:
  "allow_json \<noteq> deny_json r" "context_json c \<noteq> deny_json r" "[] \<noteq> deny_json r"
  by (simp_all add: allow_json_def deny_json_def context_json_def)

definition faithful_output :: "HookVariant \<Rightarrow> AdapterResult \<Rightarrow> bool" where
  "faithful_output v a \<longleftrightarrow> (ar_stdout a, ar_stderr a, ar_exit a) = format_decision v (ar_decision a)"

lemma format_denies:
  assumes "gating v" and "format_decision v d = (out, err, code)"
  shows "denies v out code \<longleftrightarrow> is_deny d"
proof -
  have c: "(\<exists>reason. format_claude_output d = deny_json (escape_json_string reason)) \<longleftrightarrow> is_deny d"
    by (cases d) (auto simp: format_claude_output_def is_deny_def not_deny_json)
  have e: "(\<exists>reason. out = deny_json (escape_json_string reason)) \<longleftrightarrow> is_deny d" if "v = ClaudePreEdit"
    using assms(2) that by (cases d) (auto simp: format_decision_def is_deny_def not_deny_json)
  have x: "code = 2 \<longleftrightarrow> is_deny d" if "v = CodexPreBash"
    using assms(2) that by (cases d) (auto simp: format_decision_def is_deny_def)
  have "out = format_claude_output d" if "v = ClaudePreRead \<or> v = ClaudePreBash"
    using assms(2) that by (auto simp: format_decision_def)
  then show ?thesis using assms(1) c e x by (cases v) (simp_all add: gating_def denies_def)
qed

lemma process_faithful: "faithful_output v (process_eval_response J v rel d)"
  by (auto simp: faithful_output_def process_eval_response_def format_decision_def format_claude_output_def Let_def
      split: sum.split HookVariant.split prod.split)

lemma mandate_faithful: "faithful_output v a \<Longrightarrow> faithful_output v (apply_consult_mandate G v rel c globs a)"
  by (auto simp: faithful_output_def apply_consult_mandate_def Let_def split: option.split prod.split)

lemma judge_faithful: "judge J env v recent actor rel = Some a \<Longrightarrow> faithful_output v a"
  by (auto simp: judge_def Let_def intro: mandate_faithful process_faithful split: option.splits)

lemma escalate_faithful:
  "faithful_output v a \<Longrightarrow> (\<And>b. other = Some b \<Longrightarrow> faithful_output v b) \<Longrightarrow> faithful_output v (escalate a other)"
  by (auto simp: escalate_def split: option.split)

lemma first_deny_faithful:
  "faithful_output v a \<Longrightarrow> (\<And>rel b. f rel = Some b \<Longrightarrow> faithful_output v b) \<Longrightarrow> faithful_output v (first_deny f a rels)"
  by (induction rels) (auto split: option.split)

definition judged_deny :: "(string \<Rightarrow> AdapterResult option) \<Rightarrow> string \<Rightarrow> bool" where
  "judged_deny f rel \<longleftrightarrow> (\<exists>b. f rel = Some b \<and> is_deny (ar_decision b))"

lemma escalate_deny: "is_deny (ar_decision (escalate a (f rel))) \<longleftrightarrow> is_deny (ar_decision a) \<or> judged_deny f rel"
  by (auto simp: escalate_def judged_deny_def split: option.split)

lemma first_deny_iff:
  "is_deny (ar_decision (first_deny f a rels)) \<longleftrightarrow> is_deny (ar_decision a) \<and> \<not> (\<exists>rel\<in>set rels. judged_deny f rel)
     \<or> (\<exists>rel\<in>set rels. judged_deny f rel)"
  by (induction rels) (auto simp: judged_deny_def split: option.split)

subsection \<open>The gate\<close>

text \<open>The files a call touches: the one named first, its symlink target, and the further files of a shell command.\<close>

definition touched_files :: "'j json_api \<Rightarrow> ('j, 'g) hook_env \<Rightarrow> HookVariant \<Rightarrow> 'j \<Rightarrow> string \<Rightarrow> string list" where
  "touched_files J env v input raw_path =
     (let rel = normalize_path raw_path (discover_repo_root env)
      in rel # (case canonical_rel_path env raw_path rel of Some c \<Rightarrow> [c] | None \<Rightarrow> []) @ extra_files J env v input rel)"

definition gate_judge :: "'j json_api \<Rightarrow> ('j, 'g) hook_env \<Rightarrow> HookVariant \<Rightarrow> 'j \<Rightarrow> string \<Rightarrow> AdapterResult option" where
  "gate_judge J env v input = judge J env v (v = CodexPreBash \<or> v = ClaudePreEdit) (field_str J input ''agent_id'')"

lemma gate_output:
  assumes "gating v" and "gate_judge J env v input (normalize_path raw_path (discover_repo_root env)) \<noteq> None"
  shows "denies v (ho_stdout (gate_file J env v input raw_path)) (ho_exit (gate_file J env v input raw_path))
    \<longleftrightarrow> (\<exists>rel\<in>set (touched_files J env v input raw_path). judged_deny (gate_judge J env v input) rel)"
proof -
  define rel where "rel = normalize_path raw_path (discover_repo_root env)"
  define f where "f = gate_judge J env v input"
  obtain a0 where a0: "f rel = Some a0" using assms(2) by (auto simp: rel_def f_def)
  then obtain resp where resp: "he_evaluate env (file_key rel) (v = CodexPreBash \<or> v = ClaudePreEdit) (field_str J input ''agent_id'') = Some resp"
    by (auto simp: f_def gate_judge_def judge_def split: option.splits)
  define a1 where "a1 = (if is_deny (ar_decision a0) then a0
     else case canonical_rel_path env raw_path rel of Some c \<Rightarrow> escalate a0 (f c) | None \<Rightarrow> a0)"
  define a2 where "a2 = (if is_deny (ar_decision a1) then a1 else first_deny f a1 (extra_files J env v input rel))"
  have out: "ho_stdout (gate_file J env v input raw_path) = ar_stdout a2" "ho_exit (gate_file J env v input raw_path) = ar_exit a2"
    unfolding gate_file_def Let_def rel_def [symmetric] f_def [unfolded gate_judge_def, symmetric] a1_def a2_def a0 option.sel
    by (simp_all add: adapter_output_def resp)
  have fj: "faithful_output v b" if "f r = Some b" for r b using that judge_faithful by (auto simp: f_def gate_judge_def)
  have "faithful_output v a1"
    using fj a0 by (auto simp: a1_def intro: escalate_faithful split: option.split)
  then have "faithful_output v a2" using fj by (auto simp: a2_def intro: first_deny_faithful)
  then have "denies v (ar_stdout a2) (ar_exit a2) \<longleftrightarrow> is_deny (ar_decision a2)"
    using format_denies [OF assms(1)] by (metis faithful_output_def)
  moreover have "is_deny (ar_decision a2) \<longleftrightarrow> judged_deny f rel
      \<or> (\<exists>c. canonical_rel_path env raw_path rel = Some c \<and> judged_deny f c) \<or> (\<exists>r\<in>set (extra_files J env v input rel). judged_deny f r)"
    using a0 by (auto simp: a2_def a1_def escalate_deny first_deny_iff judged_deny_def [of f rel] split: option.splits if_splits)
  ultimately show ?thesis
    by (auto simp: out touched_files_def Let_def rel_def [symmetric] f_def [symmetric] split: option.splits)
qed

lemma hook_run_gate:
  assumes "gating v" and "he_mati_root env" and "he_daemon env"
    and "input = unwrap_or (he_parse env stdin) (j_null J)" and "extract_path J input v = Some raw_path"
  shows "hook_run J env False v stdin = gate_file J env v input raw_path"
proof -
  have "v \<noteq> CodexPreApplyPatch" "v \<noteq> ClaudePostMemGet" "v \<noteq> CodexPostBash" using assms(1) by (auto simp: gating_def)
  then show ?thesis using assms(2-5) by (simp add: hook_run_def run_inner_def Let_def)
qed

text \<open>
  C7. The hook denies the tool call exactly when a file the call touches is judged \<open>Deny\<close>: the file it names, the target of the symlink behind that
  name, or one of the further files of a shell command. The denial is visible in the form the platform reads, the exit code 2 for Codex and the deny line for
  Claude Code, and no other outcome prints it. The daemon is reachable and answers for the first file.
\<close>

theorem hook_denies_iff:
  assumes "gating v" and "he_mati_root env" and "he_daemon env"
    and "input = unwrap_or (he_parse env stdin) (j_null J)" and "extract_path J input v = Some raw_path"
    and "gate_judge J env v input (normalize_path raw_path (discover_repo_root env)) \<noteq> None"
  shows "denies v (ho_stdout (hook_run J env False v stdin)) (ho_exit (hook_run J env False v stdin))
    \<longleftrightarrow> (\<exists>rel\<in>set (touched_files J env v input raw_path). judged_deny (gate_judge J env v input) rel)"
  using gate_output [OF assms(1,6)] hook_run_gate [OF assms(1-5)] by simp

text \<open>
  A bypass is never silent. When the gate on a file cannot be consulted (the deadline passed, the daemon's directory is unknown, the daemon is down, or
  the lookup of the first file fails), the hook lets the call through without a command to the daemon and leaves an entry in the fail-open log.
\<close>

theorem fail_open_logged:
  assumes "gating v" and "extract_path J (unwrap_or (he_parse env stdin) (j_null J)) v = Some raw_path"
    and "elapsed \<or> \<not> he_mati_root env \<or> \<not> he_daemon env
      \<or> gate_judge J env v (unwrap_or (he_parse env stdin) (j_null J)) (normalize_path raw_path (discover_repo_root env)) = None"
  shows "\<not> denies v (ho_stdout (hook_run J env elapsed v stdin)) (ho_exit (hook_run J env elapsed v stdin))
    \<and> ho_commands (hook_run J env elapsed v stdin) = [] \<and> length (ho_fail_open (hook_run J env elapsed v stdin)) = 1"
proof -
  have v: "v \<noteq> CodexPreApplyPatch" "v \<noteq> ClaudePostMemGet" "v \<noteq> CodexPostBash" using assms(1) by (auto simp: gating_def)
  have "\<exists>rel reason. hook_run J env elapsed v stdin = fail_open v rel reason"
    using assms(2,3) v
    by (auto simp: hook_run_def run_inner_def Let_def gate_file_def gate_judge_def judge_def split: option.splits if_splits)
  then obtain rel reason where o: "hook_run J env elapsed v stdin = fail_open v rel reason" by blast
  show ?thesis
    unfolding o by (simp add: fail_open_def emit_allow_def denies_def not_deny_json)
qed

subsection \<open>An instance\<close>

text \<open>A read of \<open>a.rs\<close> where an overlay mandates consulting every file and the daemon knows nothing of it.\<close>

definition demo_globs :: "unit glob_api" where
  "demo_globs = \<lparr> gl_parse = (\<lambda>s. Some [s]), gl_new = (\<lambda>_. Some ()), gl_build = (\<lambda>_. True), gl_match = (\<lambda>_ _. True) \<rparr>"

definition demo_hook_env :: "(jvalue, unit) hook_env" where
  "demo_hook_env =
     \<lparr> he_parse = (\<lambda>_. Some (JObj [(''tool_input'', JObj [(''file_path'', JStr ''a.rs'')])])), he_cwd = ''/r'', he_workdir = None,
       he_canonicalize = (\<lambda>_. None), he_mati_root = True, he_daemon = True,
       he_evaluate = (\<lambda>_ _ _. Some (JObj [(''data'', JNull)])), he_recent = (\<lambda>_ _. None),
       he_globs = demo_globs, he_consult_globs = Some ''all'' \<rparr>"

lemma demo_hook_input:
  "unwrap_or (he_parse demo_hook_env []) (j_null jvalue_api) = JObj [(''tool_input'', JObj [(''file_path'', JStr ''a.rs'')])]"
  "extract_path jvalue_api (JObj [(''tool_input'', JObj [(''file_path'', JStr ''a.rs'')])]) ClaudePreRead = Some ''a.rs''"
  "discover_repo_root demo_hook_env = None" "normalize_path ''a.rs'' None = ''a.rs''"
  by (simp add: demo_hook_env_def) (code_simp | simp add: demo_hook_env_def discover_repo_root_def)+

lemma demo_judge:
  "\<exists>a. gate_judge jvalue_api demo_hook_env ClaudePreRead (JObj [(''tool_input'', JObj [(''file_path'', JStr ''a.rs'')])]) ''a.rs'' = Some a
     \<and> is_deny (ar_decision a)"
  by (simp add: gate_judge_def judge_def demo_hook_env_def response_data_def apply_consult_mandate_def consult_globset_def
      consult_globset_from_def demo_globs_def consulted_flag_def json_flag_def process_eval_response_def check_eval_data_def
      evaluate_def extract_gotcha_map_def is_deny_def map_filter_simps Let_def split: prod.split)

theorem hook_denies_iff_witness:
  "denies ClaudePreRead (ho_stdout (hook_run jvalue_api demo_hook_env False ClaudePreRead []))
     (ho_exit (hook_run jvalue_api demo_hook_env False ClaudePreRead []))"
proof -
  let ?i = "JObj [(''tool_input'', JObj [(''file_path'', JStr ''a.rs'')])]"
  have e: "he_mati_root demo_hook_env" "he_daemon demo_hook_env" by (simp_all add: demo_hook_env_def)
  have g: "gate_judge jvalue_api demo_hook_env ClaudePreRead ?i (normalize_path ''a.rs'' (discover_repo_root demo_hook_env)) \<noteq> None"
    using demo_judge by (auto simp: demo_hook_input)
  have "''a.rs'' \<in> set (touched_files jvalue_api demo_hook_env ClaudePreRead ?i ''a.rs'')"
    by (simp add: touched_files_def demo_hook_input Let_def)
  then show ?thesis
    using hook_denies_iff [OF _ e demo_hook_input(1) [symmetric] demo_hook_input(2) g] demo_judge
    by (auto simp: gating_def judged_deny_def)
qed

theorem fail_open_logged_witness:
  "length (ho_fail_open (hook_run jvalue_api (demo_hook_env\<lparr>he_daemon := False\<rparr>) False ClaudePreRead [])) = 1"
proof -
  have "unwrap_or (he_parse (demo_hook_env\<lparr>he_daemon := False\<rparr>) []) (j_null jvalue_api) = JObj [(''tool_input'', JObj [(''file_path'', JStr ''a.rs'')])]"
    by (simp add: demo_hook_env_def)
  then show ?thesis
    using fail_open_logged [of ClaudePreRead jvalue_api "demo_hook_env\<lparr>he_daemon := False\<rparr>" "[]" "''a.rs''" False] demo_hook_input(2)
    by (simp add: gating_def)
qed

end
