(* ===== verification/Evaluate.thy ===== *)
theory Evaluate
  imports Session Graph Hook_Spec
begin

section \<open>The daemon's answer to the gate (\<open>hook_evaluate\<close> of \<open>mcp/server.rs\<close>)\<close>

text \<open>
  The daemon collects for a file key, in one answer, the file record, the gotchas linked to it and whether it was consulted. Links come from the file
  record, from the edges of the graph in memory, and, when both name none, from a scan of the gotcha records. \<open>R\<close> is the derived JSON encoding of a record.
  The second half proves the whole chain: a stored gotcha denies an unconsulted access at the hook's output.
\<close>

subsection \<open>The handler\<close>

definition pointer_keys :: "'j json_api \<Rightarrow> 'j option \<Rightarrow> string list" where
  "pointer_keys J fr =
     (case fr of
        None \<Rightarrow> []
      | Some v \<Rightarrow>
          (case Option.bind (j_pointer J v ''/payload/gotcha_keys'') (j_as_array J) of
             None \<Rightarrow> []
           | Some arr \<Rightarrow> List.map_filter (j_as_str J) arr))"

definition insert_all :: "string list \<Rightarrow> string list \<Rightarrow> string list" where
  "insert_all ks acc = foldl (\<lambda>acc k. List.insort_insert k acc) acc ks"

definition affecting :: "('j, GotchaRecord) serde \<Rightarrow> string \<Rightarrow> 'j Record list \<Rightarrow> string list" where
  "affecting G rel rs =
     map r_key (filter (\<lambda>r. r_lifecycle r = Active \<and>
       (case payload_as (from_value G) r of None \<Rightarrow> False | Some g \<Rightarrow> rel \<in> set (g_affected_files g))) rs)"

definition linked_keys ::
  "('t, 'x, 'v, 'j) store_api \<Rightarrow> 'j json_api \<Rightarrow> ('j, GotchaRecord) serde \<Rightarrow> ('t, 'x) Store \<Rightarrow> string list \<Rightarrow> string \<Rightarrow> 'j option
   \<Rightarrow> string list" where
  "linked_keys A J G S neighbours key fr =
     (let derived = insert_all neighbours (insert_all (pointer_keys J fr) [])
      in if derived = [] \<and> fr \<noteq> None
         then (case scan_prefix A S ''gotcha:'' of
                 Inl _ \<Rightarrow> derived
               | Inr rs \<Rightarrow> insert_all (affecting G (file_path_of key) rs) derived)
         else derived)"

text \<open>The active gotchas of the keys with their confirmation at the top level, and whether a read failed.\<close>

definition gotcha_value :: "'j json_api \<Rightarrow> ('j, 'j Record) serde \<Rightarrow> ('j, GotchaRecord) serde \<Rightarrow> 'j Record \<Rightarrow> 'j option" where
  "gotcha_value J R G r =
     (let confirmed = (case payload_as (from_value G) r of None \<Rightarrow> False | Some g \<Rightarrow> g_confirmed g)
      in map_option (\<lambda>v. if j_is_object J v then j_insert J v ''confirmed'' (j_bool J confirmed) else v) (to_value R r))"

fun fetch_gotchas ::
  "('t, 'x, 'v, 'j) store_api \<Rightarrow> 'j json_api \<Rightarrow> ('j, 'j Record) serde \<Rightarrow> ('j, GotchaRecord) serde \<Rightarrow> ('t, 'x) Store \<Rightarrow> string list
   \<Rightarrow> (string \<times> 'j) list \<times> bool" where
  "fetch_gotchas A J R G S [] = ([], False)"
| "fetch_gotchas A J R G S (k # ks) =
     (let rest = fetch_gotchas A J R G S ks
      in case store_get A S k of
           Inl _ \<Rightarrow> (fst rest, True)
         | Inr None \<Rightarrow> rest
         | Inr (Some r) \<Rightarrow>
             (if r_lifecycle r \<noteq> Active then rest
              else case gotcha_value J R G r of None \<Rightarrow> rest | Some v \<Rightarrow> ((k, v) # fst rest, snd rest)))"

definition project_keys :: "'j json_api \<Rightarrow> (string \<times> 'j) list \<Rightarrow> 'j \<Rightarrow> 'j" where
  "project_keys J gs fr =
     (if gs = [] then fr
      else case j_pointer J fr ''/payload'' of
             None \<Rightarrow> fr
           | Some p \<Rightarrow>
               (if j_is_object J p
                then j_insert J fr ''payload'' (j_insert J p ''gotcha_keys'' (j_array J (map (j_string J) (map fst gs))))
                else fr))"

definition hook_evaluate ::
  "('t, 'x, 'v, 'j) store_api \<Rightarrow> 'j json_api \<Rightarrow> 'g digraph_api \<Rightarrow> ('j, 'j Record) serde \<Rightarrow> ('j, GotchaRecord) serde \<Rightarrow> u64
   \<Rightarrow> ('g, 't, 'x) Graph \<Rightarrow> string \<Rightarrow> bool \<Rightarrow> string option \<Rightarrow> 'j" where
  "hook_evaluate A J P R G now g key include_recent actor =
     (let S = g_store g;
          got = store_get A S key;
          fr = (case got of Inr (Some r) \<Rightarrow> to_value R r | _ \<Rightarrow> None);
          store_error = (case got of Inl _ \<Rightarrow> True | _ \<Rightarrow> False);
          (gs, gotcha_error) = fetch_gotchas A J R G S (linked_keys A J G S (neighbors P g key HasGotcha) key fr);
          fr' = map_option (project_keys J gs) fr;
          consulted = (case check_consulted A S key actor of Inr b \<Rightarrow> b | Inl _ \<Rightarrow> False);
          recent = include_recent \<and> (case check_consulted_recent A now S key 900 actor of Inr b \<Rightarrow> b | Inl _ \<Rightarrow> False)
      in j_object J
           [(''file_key'', j_string J key),
            (''file_record'', unwrap_or fr' (j_null J)),
            (''gotcha_records'', j_object J gs),
            (''consulted'', j_bool J consulted),
            (''consulted_recent'', j_bool J recent),
            (''store_error'', j_bool J store_error),
            (''gotcha_error'', j_bool J gotcha_error)])"

subsection \<open>JSON pointers\<close>

text \<open>What \<open>serde_json::Value::pointer\<close> does below an object, for names without the two characters that are escaped in a pointer.\<close>

definition plain_token :: "string \<Rightarrow> bool" where
  "plain_token k \<longleftrightarrow> CHR ''/'' \<notin> set k \<and> CHR ''~'' \<notin> set k"

locale json_paths = json_laws J for J :: "'j json_api" +
  assumes pointer_get: "j_is_object J ob \<Longrightarrow> plain_token k \<Longrightarrow> j_pointer J ob (''/'' @ k) = j_get J ob k"
    and pointer_down: "j_is_object J ob \<Longrightarrow> plain_token k
      \<Longrightarrow> j_pointer J ob (''/'' @ k @ ''/'' @ p) = Option.bind (j_get J ob k) (\<lambda>w. j_pointer J w (''/'' @ p))"
begin

lemma pointer_insert_other:
  assumes "j_is_object J ob" and "plain_token k" and "k \<noteq> k'"
  shows "j_pointer J (j_insert J ob k' x) (''/'' @ k @ ''/'' @ p) = j_pointer J ob (''/'' @ k @ ''/'' @ p)"
  unfolding pointer_down [OF assms(1,2)] pointer_down [OF is_object_insert [OF assms(1)] assms(2)] using assms by simp

lemma field_tokens:
  "plain_token ''payload''" "plain_token ''gotcha_keys''" "plain_token ''staleness''" "plain_token ''confidence''" "plain_token ''quality''"
  by (simp_all add: plain_token_def)

text \<open>The confirmation at the top level changes nothing the decision reads.\<close>

lemma confirmed_injectable:
  assumes "j_is_object J x"
  shows "injectable J (j_insert J x ''confirmed'' b) = injectable J x"
proof -
  have "j_pointer J (j_insert J x ''confirmed'' b) p = j_pointer J x p"
    if "p \<in> {''/payload'' @ ''/confirmed'', ''/confidence'' @ ''/value'', ''/quality'' @ ''/value''}" for p
    using that pointer_insert_other [OF assms, of "''payload''" "''confirmed''" b "''confirmed''"]
      pointer_insert_other [OF assms, of "''confidence''" "''confirmed''" b "''value''"]
      pointer_insert_other [OF assms, of "''quality''" "''confirmed''" b "''value''"] field_tokens by auto
  then show ?thesis by (simp add: injectable_def json_bool_def json_f32_def)
qed

lemma project_keys_reads:
  assumes "j_is_object J w" and "j_get J w ''payload'' = Some p" and "j_is_object J p" and "gs \<noteq> []"
  shows "j_is_object J (project_keys J gs w)"
    and "json_str J (project_keys J gs w) ''/staleness/tier'' = json_str J w ''/staleness/tier''"
    and "json_string_array J (project_keys J gs w) ''/payload/gotcha_keys'' = map fst gs"
proof -
  let ?p = "j_insert J p ''gotcha_keys'' (j_array J (map (j_string J) (map fst gs)))"
  have "j_pointer J w ''/payload'' = Some p" using pointer_get [OF assms(1) field_tokens(1)] assms(2) by simp
  then have w': "project_keys J gs w = j_insert J w ''payload'' ?p" using assms(3,4) by (simp add: project_keys_def)
  show "j_is_object J (project_keys J gs w)" using assms(1) by (simp add: w')
  show "json_str J (project_keys J gs w) ''/staleness/tier'' = json_str J w ''/staleness/tier''"
    using pointer_insert_other [OF assms(1) field_tokens(3), of "''payload''" ?p "''tier''"] by (simp add: w' json_str_def)
  have o: "j_is_object J (j_insert J w ''payload'' ?p)" "j_is_object J ?p" using assms(1,3) by simp_all
  have "j_pointer J (j_insert J w ''payload'' ?p) (''/'' @ ''payload'' @ ''/'' @ ''gotcha_keys'')
      = Some (j_array J (map (j_string J) (map fst gs)))"
    unfolding pointer_down [OF o(1) field_tokens(1)] using pointer_get [OF o(2) field_tokens(2)] assms(1,3) by simp
  then show "json_string_array J (project_keys J gs w) ''/payload/gotcha_keys'' = map fst gs"
    using strings_roundtrip [of "map fst gs"] by (simp add: w' json_string_array_def)
qed

end

interpretation jv_paths: json_paths jvalue_api
proof
  fix ob k p
  assume o: "j_is_object jvalue_api ob" and k: "plain_token k"
  have u: "unescape k = k" using k unfolding plain_token_def by (induction k rule: unescape.induct) auto
  have s: "split_char CHR ''/'' k = [k]" using k unfolding plain_token_def by (induction k) auto
  have s2: "split_char CHR ''/'' (k @ CHR ''/'' # p) = k # split_char CHR ''/'' p"
    using k unfolding plain_token_def by (induction k) auto
  obtain ms where ms: "ob = JObj ms" using o by (cases ob) auto
  show "j_pointer jvalue_api ob (''/'' @ k) = j_get jvalue_api ob k" by (simp add: ms jv_pointer_def s u split: option.split)
  show "j_pointer jvalue_api ob (''/'' @ k @ ''/'' @ p)
      = Option.bind (j_get jvalue_api ob k) (\<lambda>w. j_pointer jvalue_api w (''/'' @ p))"
    by (simp add: ms jv_pointer_def s2 u split: option.split)
qed

subsection \<open>What the answer holds\<close>

lemma set_insert_all [simp]: "set (insert_all ks acc) = set ks \<union> set acc"
  unfolding insert_all_def by (induction ks arbitrary: acc) (auto simp: set_insort_insert)

lemma fetch_map_of:
  "map_of (fst (fetch_gotchas A J R G S ks)) k =
     (if k \<in> set ks
      then (case store_get A S k of Inr (Some r) \<Rightarrow> if r_lifecycle r = Active then gotcha_value J R G r else None | _ \<Rightarrow> None)
      else None)"
  by (induction ks) (auto simp: Let_def split: sum.split option.split)

lemma fetch_error: "snd (fetch_gotchas A J R G S ks) \<longleftrightarrow> (\<exists>k\<in>set ks. \<exists>e. store_get A S k = Inl e)"
  by (induction ks) (auto simp: Let_def split: sum.split option.split)

context json_paths
begin

lemma answer_reads:
  assumes "store_get A (g_store g) key = Ok (Some fr)" and "to_value R fr = Some w"
    and "w \<noteq> j_null J" and "fetch_gotchas A J R G (g_store g) (linked_keys A J G (g_store g) (neighbors P g key HasGotcha) key (Some w)) = (gs, False)"
    and "project_keys J gs w \<noteq> j_null J"
  shows "check_eval_data J v rel (hook_evaluate A J P R G now g key include_recent actor) = Inr
    \<lparr> rel_path = rel, file_record = Some (project_keys J gs w), gotcha_records = map_of gs,
      already_consulted = (if uses_recent v then include_recent \<and> check_consulted_recent A now (g_store g) key 900 actor = Ok True
                           else check_consulted A (g_store g) key actor = Ok True) \<rparr>"
proof -
  have g: "j_get J (j_object J gs) = map_of gs" by (rule ext) simp
  show ?thesis
    using assms by (auto simp: check_eval_data_def hook_evaluate_def json_flag_def extract_gotcha_map_def Let_def g split: sum.splits)
qed

text \<open>A live file record and an enforcing gotcha among the linked keys.\<close>

lemma answer_denies:
  assumes "store_get A (g_store g) (file_key rel) = Ok (Some fr)" and "to_value R fr = Some w" and "j_is_object J w"
    and "j_get J w ''payload'' = Some p" and "j_is_object J p"
    and "json_str J w ''/staleness/tier'' \<notin> {''tombstone'', ''liability''}"
    and ks_def: "ks = linked_keys A J G (g_store g) (neighbors P g (file_key rel) HasGotcha) (file_key rel) (Some w)"
    and "k \<in> set ks" and "store_get A (g_store g) k = Ok (Some gr)" and "r_lifecycle gr = Active"
    and "to_value R gr = Some x" and "j_is_object J x" and "injectable J x"
    and "\<forall>k'\<in>set ks. \<exists>m. store_get A (g_store g) k' = Ok m"
    and "(if uses_recent v then check_consulted_recent A now (g_store g) (file_key rel) 900 actor
          else check_consulted A (g_store g) (file_key rel) actor) \<noteq> Ok True"
  shows "is_deny (ar_decision (process_eval_response J v rel (hook_evaluate A J P R G now g (file_key rel) include_recent actor)))"
proof -
  obtain gs err where f: "fetch_gotchas A J R G (g_store g) ks = (gs, err)" by fastforce
  have "\<not> snd (fetch_gotchas A J R G (g_store g) ks)" using assms(14) by (auto simp: fetch_error)
  then have err: "err = False" using f by simp
  define x' where "x' = j_insert J x ''confirmed'' (j_bool J (case payload_as (from_value G) gr of None \<Rightarrow> False | Some g \<Rightarrow> g_confirmed g))"
  have "map_of (fst (fetch_gotchas A J R G (g_store g) ks)) k = Some x'"
    unfolding fetch_map_of using assms(8-12) by (simp add: gotcha_value_def x'_def)
  then have mk: "map_of gs k = Some x'" using f by simp
  have x': "j_is_object J x'" "injectable J x'" using assms(12,13) confirmed_injectable by (simp_all add: x'_def)
  have "gs \<noteq> []" using mk by auto
  note pr = project_keys_reads [OF assms(3,4,5) this]
  have nn: "w \<noteq> j_null J" "project_keys J gs w \<noteq> j_null J" using assms(3) pr(1) is_object_null by auto
  define i where "i = \<lparr> rel_path = rel, file_record = Some (project_keys J gs w), gotcha_records = map_of gs,
      already_consulted = (if uses_recent v then include_recent \<and> check_consulted_recent A now (g_store g) (file_key rel) 900 actor = Ok True
                           else check_consulted A (g_store g) (file_key rel) actor = Ok True) \<rparr>"
  have c: "check_eval_data J v rel (hook_evaluate A J P R G now g (file_key rel) include_recent actor) = Inr i"
    unfolding i_def by (rule answer_reads [OF assms(1,2) nn(1) _ nn(2)]) (use f ks_def err in simp)
  have "live_record J i (project_keys J gs w)" using pr(1,2) assms(6) by (simp add: live_record_def i_def)
  moreover have "has_enforcing_gotcha J i (project_keys J gs w)"
    using mk x' map_of_SomeD [OF mk] by (force simp: has_enforcing_gotcha_def pr(3) enforcing_def i_def)
  moreover have "\<not> already_consulted i" using assms(15) by (auto simp: i_def split: if_splits)
  ultimately have "is_deny (decision (evaluate J i))" by (simp add: evaluate_live Let_def is_deny_def)
  then show ?thesis by (simp add: process_eval_response_def c Let_def split: prod.split)
qed

end

end
