(* ===== verification/Graph_Spec.thy ===== *)
theory Graph_Spec
  imports Graph
begin

section \<open>What the knowledge graph guarantees\<close>

text \<open>
  The locale \<open>digraph_laws\<close> states what the graph relies on of petgraph, by the multiset of
  edges of a graph; a graph kept as two lists, with petgraph's swap-removal of edges, interprets it. The
  graph's own promise: its index and its edge set describe the petgraph, breadth-first
  traversal returns exactly the nodes within reach, and the store's keys describe the same edges
  as the memory, so that loading the graph again gives the same graph.
\<close>

subsection \<open>Breadth-first search\<close>

text \<open>One level at a time: the nodes found from a level, in order.\<close>

fun expand :: "(nat \<Rightarrow> nat list) \<Rightarrow> nat list \<Rightarrow> nat list \<Rightarrow> nat set \<Rightarrow> nat list \<Rightarrow> nat list \<times> nat set \<times> nat list" where
  "expand nx [] found visited results = (found, visited, results)"
| "expand nx (x # xs) found visited results =
     (let v = visit 0 (nx x) (map (\<lambda>t. (t, 1)) found) visited results
      in expand nx xs (map fst (fst v)) (fst (snd v)) (snd (snd v)))"

fun levels :: "(nat \<Rightarrow> nat list) \<Rightarrow> nat \<Rightarrow> nat list \<Rightarrow> nat set \<Rightarrow> nat list \<Rightarrow> nat list" where
  "levels nx 0 L visited results = results"
| "levels nx (Suc k) L visited results =
     (let e = expand nx L [] visited results in levels nx k (fst e) (fst (snd e)) (snd (snd e)))"

lemma visit_spec:
  "\<exists>new. visit d ts queue visited results
       = (queue @ map (\<lambda>t. (t, d + 1)) new, visited \<union> set ts, results @ new)
     \<and> set new = set ts - visited \<and> distinct new"
proof (induction ts arbitrary: queue visited results)
  case (Cons t ts)
  show ?case
  proof (cases "t \<in> visited")
    case True
    then show ?thesis using Cons.IH [of queue visited results] by (auto simp: insert_absorb)
  next
    case False
    obtain new where "visit d ts (queue @ [(t, d + 1)]) (insert t visited) (results @ [t])
        = (queue @ [(t, d + 1)] @ map (\<lambda>t. (t, d + 1)) new, insert t visited \<union> set ts, results @ [t] @ new)"
      and "set new = set ts - insert t visited" "distinct new"
      using Cons.IH [of "queue @ [(t, d + 1)]" "insert t visited" "results @ [t]"] by auto
    then show ?thesis using False by (intro exI [of _ "t # new"]) auto
  qed
qed simp

lemma expand_spec:
  "\<exists>new. expand nx L found visited results
       = (found @ new, visited \<union> (\<Union>x\<in>set L. set (nx x)), results @ new)
     \<and> set new = (\<Union>x\<in>set L. set (nx x)) - visited \<and> distinct new"
proof (induction L arbitrary: found visited results)
  case (Cons x xs)
  obtain n1 where n1: "visit 0 (nx x) (map (\<lambda>t. (t, 1)) found) visited results
       = (map (\<lambda>t. (t, 1)) found @ map (\<lambda>t. (t, 1)) n1, visited \<union> set (nx x), results @ n1)"
    "set n1 = set (nx x) - visited" "distinct n1"
    using visit_spec [of 0 "nx x" "map (\<lambda>t. (t, 1)) found" visited results] by auto
  obtain n2 where n2: "expand nx xs (found @ n1) (visited \<union> set (nx x)) (results @ n1)
       = ((found @ n1) @ n2, visited \<union> set (nx x) \<union> (\<Union>x\<in>set xs. set (nx x)), (results @ n1) @ n2)"
    "set n2 = (\<Union>x\<in>set xs. set (nx x)) - (visited \<union> set (nx x))" "distinct n2"
    using Cons.IH [of "found @ n1" "visited \<union> set (nx x)" "results @ n1"] by (elim exE conjE) (rule that)
  have m: "map fst (map (\<lambda>t. (t, 1 :: nat)) found @ map (\<lambda>t. (t, 1)) n1) = found @ n1"
    by (simp add: comp_def)
  have "expand nx (x # xs) found visited results
      = (found @ (n1 @ n2), visited \<union> (\<Union>x\<in>set (x # xs). set (nx x)), results @ (n1 @ n2))"
    by (simp only: expand.simps Let_def n1(1) fst_conv snd_conv m n2(1)) (simp add: Un_assoc)
  moreover have "set (n1 @ n2) = (\<Union>x\<in>set (x # xs). set (nx x)) - visited"
    using n1(2) n2(2) by auto
  moreover have "distinct (n1 @ n2)" using n1(2,3) n2(2,3) by auto
  ultimately show ?case by blast
qed simp

text \<open>The queue holds the rest of one level and the part of the next found so far.\<close>

lemma bfs_level:
  assumes "d < depth"
  shows "bfs nx depth (map (\<lambda>x. (x, d)) L @ map (\<lambda>x. (x, d + 1)) N) visited results
     = (let e = expand nx L N visited results
        in bfs nx depth (map (\<lambda>x. (x, d + 1)) (fst e)) (fst (snd e)) (snd (snd e)))"
  using assms
proof (induction L arbitrary: N visited results)
  case (Cons x xs)
  let ?q = "map (\<lambda>x. (x, d)) xs @ map (\<lambda>x. (x, d + 1)) N"
  obtain new where v: "visit d (nx x) ?q visited results
       = (?q @ map (\<lambda>t. (t, d + 1)) new, visited \<union> set (nx x), results @ new)"
    and new: "set new = set (nx x) - visited" "distinct new"
    using visit_spec by blast
  have new0: "visit 0 (nx x) (map (\<lambda>t. (t, 1)) N) visited results
       = (map (\<lambda>t. (t, 1)) (N @ new), visited \<union> set (nx x), results @ new)"
  proof -
    have "snd (snd (visit d' ts q vis res)) = snd (snd (visit d ts q' vis res))" for d' ts q q' vis res
      by (induction ts arbitrary: q q' vis res) auto
    from this [of 0 "nx x" "map (\<lambda>t. (t, 1)) N" visited results ?q] v
    have r: "snd (snd (visit 0 (nx x) (map (\<lambda>t. (t, 1)) N) visited results)) = results @ new" by simp
    show ?thesis using visit_spec [of 0 "nx x" "map (\<lambda>t. (t, 1)) N" visited results] r by auto
  qed
  have "bfs nx depth (map (\<lambda>x. (x, d)) (x # xs) @ map (\<lambda>x. (x, d + 1)) N) visited results
      = bfs nx depth (map (\<lambda>x. (x, d)) xs @ map (\<lambda>x. (x, d + 1)) (N @ new)) (visited \<union> set (nx x)) (results @ new)"
    using Cons.prems v by (simp add: Let_def)
  also have "\<dots> = (let e = expand nx xs (N @ new) (visited \<union> set (nx x)) (results @ new)
        in bfs nx depth (map (\<lambda>x. (x, d + 1)) (fst e)) (fst (snd e)) (snd (snd e)))"
    using Cons by blast
  also have "expand nx xs (N @ new) (visited \<union> set (nx x)) (results @ new) = expand nx (x # xs) N visited results"
    using new0 by (simp add: Let_def comp_def)
  finally show ?case .
qed simp

lemma bfs_done: "\<forall>nd\<in>set queue. depth \<le> snd nd \<Longrightarrow> bfs nx depth queue visited results = results"
  by (induction queue) auto

lemma bfs_levels:
  "d + k = depth \<Longrightarrow> bfs nx depth (map (\<lambda>x. (x, d)) L) visited results = levels nx k L visited results"
proof (induction k arbitrary: d L visited results)
  case (Suc k)
  then show ?case using bfs_level [of d depth nx L "[]" visited results] by (simp add: Let_def)
qed (auto intro: bfs_done)

text \<open>The nodes within \<open>d\<close> steps.\<close>

definition ball :: "(nat \<Rightarrow> nat list) \<Rightarrow> nat \<Rightarrow> nat \<Rightarrow> nat set" where
  "ball nx s d = {t. \<exists>n\<le>d. (s, t) \<in> {(a, b). b \<in> set (nx a)} ^^ n}"

lemma ball_0 [simp]: "ball nx s 0 = {s}"
  by (auto simp: ball_def)

lemma ball_Suc: "ball nx s (Suc d) = ball nx s d \<union> (\<Union>x\<in>ball nx s d. set (nx x))"
proof (intro set_eqI iffI)
  let ?R = "{(a, b). b \<in> set (nx a)}"
  fix t
  { assume "t \<in> ball nx s (Suc d)"
    then obtain n where n: "n \<le> Suc d" "(s, t) \<in> ?R ^^ n" by (auto simp: ball_def)
    show "t \<in> ball nx s d \<union> (\<Union>x\<in>ball nx s d. set (nx x))"
    proof (cases "n \<le> d")
      case False
      with n obtain x where "(s, x) \<in> ?R ^^ d" "(x, t) \<in> ?R" by (metis le_Suc_eq relpow_Suc_E)
      then show ?thesis by (auto simp: ball_def)
    qed (use n in \<open>auto simp: ball_def\<close>)
  next
    assume "t \<in> ball nx s d \<union> (\<Union>x\<in>ball nx s d. set (nx x))"
    then show "t \<in> ball nx s (Suc d)"
    proof
      assume "t \<in> (\<Union>x\<in>ball nx s d. set (nx x))"
      then obtain x n where "n \<le> d" "(s, x) \<in> ?R ^^ n" "(x, t) \<in> ?R" by (auto simp: ball_def)
      then have "Suc n \<le> Suc d" "(s, t) \<in> ?R ^^ Suc n" by (auto intro: relpow_Suc_I)
      then show ?thesis unfolding ball_def by blast
    qed (auto simp: ball_def intro: le_SucI)
  }
qed

lemma levels_ball:
  assumes "set L \<subseteq> ball nx s d" and "visited = ball nx s d"
    and "\<And>x. x \<in> ball nx s d \<Longrightarrow> x \<notin> set L \<Longrightarrow> set (nx x) \<subseteq> ball nx s d"
    and "set results = ball nx s d - {s}" and "distinct results"
  shows "set (levels nx k L visited results) = ball nx s (d + k) - {s} \<and> distinct (levels nx k L visited results)"
  using assms
proof (induction k arbitrary: d L visited results)
  case (Suc k)
  obtain new where e: "expand nx L [] visited results = (new, visited \<union> (\<Union>x\<in>set L. set (nx x)), results @ new)"
    and new: "set new = (\<Union>x\<in>set L. set (nx x)) - visited" "distinct new"
    using expand_spec [of nx L "[]" visited results] by auto
  have s: "s \<in> ball nx s d" by (auto simp: ball_def)
  have b: "ball nx s (Suc d) = visited \<union> (\<Union>x\<in>set L. set (nx x))"
    using Suc.prems(1-3) by (auto simp: ball_Suc)
  have "set (levels nx k new (ball nx s (Suc d)) (results @ new)) = ball nx s (Suc d + k) - {s}
      \<and> distinct (levels nx k new (ball nx s (Suc d)) (results @ new))"
  proof (rule Suc.IH)
    show "set (nx x) \<subseteq> ball nx s (Suc d)" if "x \<in> ball nx s (Suc d)" "x \<notin> set new" for x
    proof -
      have "x \<in> ball nx s d" using that b new(1) Suc.prems(2) by blast
      then show ?thesis unfolding ball_Suc by blast
    qed
    show "set (results @ new) = ball nx s (Suc d) - {s}"
      using b new(1) Suc.prems(2,4) s by auto
    show "distinct (results @ new)"
      using new Suc.prems(2,4,5) by auto
  qed (use b new(1) in auto)
  then show ?case using e b by (simp add: Let_def)
qed simp

lemma bfs_ball:
  "set (bfs nx depth [(s, 0)] {s} []) = ball nx s depth - {s} \<and> distinct (bfs nx depth [(s, 0)] {s} [])"
proof -
  have "bfs nx depth [(s, 0)] {s} [] = levels nx depth [s] {s} []"
    using bfs_levels [of 0 depth depth nx "[s]" "{s}" "[]"] by simp
  moreover have "set (levels nx depth [s] {s} []) = ball nx s (0 + depth) - {s} \<and> distinct (levels nx depth [s] {s} [])"
    by (rule levels_ball) auto
  ultimately show ?thesis by simp
qed

subsection \<open>The interface of petgraph\<close>

locale digraph_laws =
  fixes P :: "'g digraph_api" and dedges :: "'g \<Rightarrow> (nat \<times> EdgeKind \<times> nat) multiset"
  assumes new_graph: "dg_node_count P (dg_new P) = 0" "dedges (dg_new P) = {#}"
    and add_node: "dg_add_node P g w = (g', i) \<Longrightarrow> i = dg_node_count P g \<and> dg_node_count P g' = Suc i
          \<and> dedges g' = dedges g \<and> dg_weight P g' i = w \<and> (\<forall>j<i. dg_weight P g' j = dg_weight P g j)"
    and add_edge_edges: "a < dg_node_count P g \<Longrightarrow> b < dg_node_count P g
          \<Longrightarrow> dedges (dg_add_edge P g a b k) = add_mset (a, k, b) (dedges g)"
    and add_edge_nodes: "dg_node_count P (dg_add_edge P g a b k) = dg_node_count P g"
          "dg_weight P (dg_add_edge P g a b k) = dg_weight P g"
    and edges_out: "(k, b) \<in> set (dg_edges P g a) \<longleftrightarrow> (a, k, b) \<in># dedges g"
    and edges_in: "(k, a) \<in> set (dg_edges_incoming P g b) \<longleftrightarrow> (a, k, b) \<in># dedges g"
    and edge_refs: "mset (dg_edge_references P g) = dedges g"
    and connecting: "length (filter (\<lambda>iw. snd iw = k) (dg_edges_connecting P g a b)) = count (dedges g) (a, k, b)"
    and remove_edges: "(i, k) \<in> set (dg_edges_connecting P g a b) \<Longrightarrow> dedges (dg_remove_edge P g i) = dedges g - {#(a, k, b)#}"
    and remove_nodes: "dg_node_count P (dg_remove_edge P g i) = dg_node_count P g"
          "dg_weight P (dg_remove_edge P g i) = dg_weight P g"

text \<open>
  The index is a bijection between the keys and the node indices, the edge set is the set of edges, and
  no edge occurs twice.
\<close>

definition graph_ok ::
  "'g digraph_api \<Rightarrow> ('g \<Rightarrow> (nat \<times> EdgeKind \<times> nat) multiset) \<Rightarrow> ('g, 't, 'x) Graph \<Rightarrow> bool" where
  "graph_ok P dedges g \<longleftrightarrow>
     (\<forall>key i. node_index g key = Some i \<longleftrightarrow> i < dg_node_count P (inner g) \<and> dg_weight P (inner g) i = key)
     \<and> (\<forall>a k b. (a, b, k) \<in> edge_set g \<longleftrightarrow> (a, k, b) \<in># dedges (inner g))
     \<and> (\<forall>a k b. (a, k, b) \<in># dedges (inner g) \<longrightarrow> a < dg_node_count P (inner g) \<and> b < dg_node_count P (inner g))
     \<and> (\<forall>e. count (dedges (inner g)) e \<le> 1)"

context digraph_laws
begin

abbreviation ok :: "('g, 't, 'x) Graph \<Rightarrow> bool" where
  "ok \<equiv> graph_ok P dedges"

lemma ok_index:
  assumes "ok g"
  shows "node_index g key = Some i \<longleftrightarrow> i < dg_node_count P (inner g) \<and> dg_weight P (inner g) i = key"
  using assms by (simp add: graph_ok_def)

lemma has_edge_iff:
  "has_edge g e \<longleftrightarrow> (\<exists>a b. node_index g (from_node e) = Some a \<and> node_index g (to_node e) = Some b
     \<and> (a, b, edge_kind e) \<in> edge_set g)"
  by (auto simp: has_edge_def split: option.split)

lemma index_inject: "ok g \<Longrightarrow> node_index g k = Some i \<Longrightarrow> node_index g k' = Some i \<Longrightarrow> k = k'"
  by (simp add: ok_index)

lemma ok_empty: "ok (empty_graph P S)" and no_edges_empty: "\<not> has_edge (empty_graph P S) e"
  by (simp_all add: graph_ok_def empty_graph_def new_graph has_edge_def)

lemma ok_store [simp]: "ok (g\<lparr>g_store := S\<rparr>) = ok g" and has_edge_store [simp]: "has_edge (g\<lparr>g_store := S\<rparr>) e = has_edge g e"
  by (simp_all add: graph_ok_def has_edge_def split: option.split)

lemma get_or_insert_node_ok:
  assumes "ok g" and "get_or_insert_node P g key = (g', i)"
  shows "ok g'" and "node_index g' key = Some i" and "has_edge g' e = has_edge g e" and "g_store g' = g_store g"
    and "node_index g key' = Some j \<Longrightarrow> node_index g' key' = Some j"
proof -
  have "ok g' \<and> node_index g' key = Some i \<and> has_edge g' e = has_edge g e \<and> g_store g' = g_store g
      \<and> (node_index g key' = Some j \<longrightarrow> node_index g' key' = Some j)"
  proof (cases "node_index g key")
    case (Some i')
    then show ?thesis using assms by (auto simp: get_or_insert_node_def)
  next
    case None
    obtain h where h: "dg_add_node P (inner g) key = (h, i)" "g' = g\<lparr>inner := h, node_index := (node_index g)(key \<mapsto> i)\<rparr>"
      using assms(2) None by (auto simp: get_or_insert_node_def split: prod.splits)
    note a = add_node [OF h(1)]
    have fresh: "(i', i, k) \<notin> edge_set g" "(i, i', k) \<notin> edge_set g" for i' k
      using assms(1) a unfolding graph_ok_def by (metis less_irrefl)+
    have free: "dg_weight P (inner g) j \<noteq> key" if "j < dg_node_count P (inner g)" for j
      using None ok_index [OF assms(1), of key j] that by simp
    have "ok g'"
      using assms(1) a free by (auto simp: graph_ok_def h(2) less_Suc_eq)
    moreover have "has_edge g' e = has_edge g e"
      using fresh None by (auto simp: has_edge_def h(2) split: option.splits)
    ultimately show ?thesis using None h(2) by auto
  qed
  then show "ok g'" "node_index g' key = Some i" "has_edge g' e = has_edge g e" "g_store g' = g_store g"
    "node_index g key' = Some j \<Longrightarrow> node_index g' key' = Some j" by blast+
qed

lemma insert_edge_ok:
  assumes "ok g"
  shows "ok (insert_edge_in_memory P g e)"
    and "has_edge (insert_edge_in_memory P g e) e' \<longleftrightarrow> e' = e \<or> has_edge g e'"
    and "g_store (insert_edge_in_memory P g e) = g_store g"
proof -
  obtain g1 fi where 1: "get_or_insert_node P g (from_node e) = (g1, fi)" by (metis surj_pair)
  obtain g2 ti where 2: "get_or_insert_node P g1 (to_node e) = (g2, ti)" by (metis surj_pair)
  note o1 = get_or_insert_node_ok [OF assms 1]
  note o2 = get_or_insert_node_ok [OF o1(1) 2]
  have fi: "node_index g2 (from_node e) = Some fi" using o2(5) o1(2) by blast
  have ti: "node_index g2 (to_node e) = Some ti" by (rule o2(2))
  have lt: "fi < dg_node_count P (inner g2)" "ti < dg_node_count P (inner g2)"
    using fi ti ok_index [OF o2(1)] by auto
  let ?g = "insert_edge_in_memory P g e"
  have g: "?g = (if (fi, ti, edge_kind e) \<in> edge_set g2 then g2
      else g2\<lparr>edge_set := insert (fi, ti, edge_kind e) (edge_set g2),
              inner := dg_add_edge P (inner g2) fi ti (edge_kind e)\<rparr>)"
    by (simp add: insert_edge_in_memory_def 1 2)
  have key: "node_index g2 (from_node e') = Some fi \<and> node_index g2 (to_node e') = Some ti
      \<longleftrightarrow> from_node e' = from_node e \<and> to_node e' = to_node e" for e'
    using fi ti ok_index [OF o2(1)] by auto
  show "ok ?g"
    using o2(1) lt unfolding g
    by (auto simp: graph_ok_def add_edge_edges add_edge_nodes not_in_iff)
  show "has_edge ?g e' \<longleftrightarrow> e' = e \<or> has_edge g e'"
    using key [of e'] fi ti o2(3) [of e'] o1(3) [of e'] unfolding g
    by (cases e; cases e') (auto simp: has_edge_def split: option.splits if_splits)
  show "g_store ?g = g_store g" using o1(4) o2(4) by (simp add: g)
qed

lemma foldl_insert_ok:
  assumes "ok g"
  shows "ok (foldl (insert_edge_in_memory P) g es)
       \<and> (\<forall>e'. has_edge (foldl (insert_edge_in_memory P) g es) e' \<longleftrightarrow> e' \<in> set es \<or> has_edge g e')
       \<and> g_store (foldl (insert_edge_in_memory P) g es) = g_store g"
  using assms by (induction es arbitrary: g) (auto simp: insert_edge_ok)

lemma remove_ids:
  assumes "\<forall>e. count (dedges g) e \<le> 1"
  shows "dedges (foldl (dg_remove_edge P) g (map fst (filter (\<lambda>iw. snd iw = k) (dg_edges_connecting P g a b))))
      = dedges g - {#(a, k, b)#}"
    and "dg_node_count P (foldl (dg_remove_edge P) g ids) = dg_node_count P g"
    and "dg_weight P (foldl (dg_remove_edge P) g ids) = dg_weight P g"
proof -
  let ?f = "filter (\<lambda>iw. snd iw = k) (dg_edges_connecting P g a b)"
  have "length ?f \<le> 1" using assms by (simp add: connecting)
  then consider "?f = []" | i where "?f = [(i, k)]"
  proof (cases ?f)
    case (Cons iw rest)
    have "iw \<in> set ?f" by (simp only: Cons) simp
    then have "snd iw = k" by (simp only: set_filter mem_Collect_eq)
    moreover have "rest = []" using \<open>length ?f \<le> 1\<close> by (simp add: Cons)
    ultimately have "?f = [(fst iw, k)]" by (simp only: Cons) (metis prod.collapse)
    then show ?thesis by (rule that(2))
  qed (use that in blast)
  then show "dedges (foldl (dg_remove_edge P) g (map fst ?f)) = dedges g - {#(a, k, b)#}"
  proof cases
    case 1
    then have "count (dedges g) (a, k, b) = 0" using connecting [of k g a b] by simp
    then show ?thesis using 1 by (simp add: count_eq_zero_iff diff_single_trivial)
  next
    case 2
    have "(i, k) \<in> set ?f" by (simp only: 2) simp
    then have "(i, k) \<in> set (dg_edges_connecting P g a b)" by (simp only: set_filter mem_Collect_eq)
    then show ?thesis using 2 remove_edges by simp
  qed
  show "dg_node_count P (foldl (dg_remove_edge P) g ids) = dg_node_count P g"
    "dg_weight P (foldl (dg_remove_edge P) g ids) = dg_weight P g"
    by (induction ids arbitrary: g) (simp_all add: remove_nodes)
qed

text \<open>Dropping an edge from memory, as \<open>remove_edge\<close> does once the store has deleted it.\<close>

lemma remove_edge_memory:
  assumes "ok g" and "remove_edge A P g e = (g', Inr u)"
  shows "ok g'" and "has_edge g' e' \<longleftrightarrow> has_edge g e' \<and> e' \<noteq> e"
    and "\<exists>r. store_delete A (g_store g) (to_key e) = (g_store g', Inr r)"
proof -
  obtain S1 r where d: "store_delete A (g_store g) (to_key e) = (S1, Inr r)"
    using assms(2) by (auto simp: remove_edge_def Let_def split: prod.splits sum.splits)
  have "ok g' \<and> (has_edge g' e' \<longleftrightarrow> has_edge g e' \<and> e' \<noteq> e) \<and> g_store g' = S1"
  proof (cases "\<exists>fi ti. node_index g (from_node e) = Some fi \<and> node_index g (to_node e) = Some ti")
    case True
    then obtain fi ti where i: "node_index g (from_node e) = Some fi" "node_index g (to_node e) = Some ti" by blast
    let ?ids = "map fst (filter (\<lambda>iw. snd iw = edge_kind e) (dg_edges_connecting P (inner g) fi ti))"
    have g': "g' = g\<lparr>g_store := S1, edge_set := edge_set g - {(fi, ti, edge_kind e)},
        inner := foldl (dg_remove_edge P) (inner g) ?ids\<rparr>"
      using assms(2) d i by (simp add: remove_edge_def Let_def)
    have c: "\<forall>e. count (dedges (inner g)) e \<le> 1" using assms(1) by (simp add: graph_ok_def)
    note r = remove_ids [OF c]
    have mem: "x \<in># dedges (inner g) - {#y#} \<longleftrightarrow> x \<in># dedges (inner g) \<and> x \<noteq> y" for x y
    proof -
      have "count (dedges (inner g)) x \<le> 1" using c by blast
      then show ?thesis by (auto simp: count_greater_zero_iff [symmetric] simp del: count_greater_zero_iff)
    qed
    have "ok g'"
      using assms(1) unfolding g' by (auto simp: graph_ok_def r mem intro: le_trans [OF diff_le_self])
    moreover have "has_edge g' e' \<longleftrightarrow> has_edge g e' \<and> e' \<noteq> e"
      using i index_inject [OF assms(1)] unfolding g' has_edge_iff
      by (cases e; cases e') auto
    ultimately show ?thesis by (simp add: g')
  next
    case False
    then have "g' = g\<lparr>g_store := S1\<rparr>"
      using assms(2) d by (auto simp: remove_edge_def Let_def split: option.splits)
    moreover have "\<not> has_edge g e" using False by (auto simp: has_edge_def split: option.splits)
    ultimately show ?thesis using assms(1) by auto
  qed
  then show "ok g'" "has_edge g' e' \<longleftrightarrow> has_edge g e' \<and> e' \<noteq> e"
    "\<exists>r. store_delete A (g_store g) (to_key e) = (g_store g', Inr r)" using d by auto
qed

text \<open>The relation on keys that the edges of one kind describe, and traversal along it.\<close>

definition edge_rel :: "('g, 't, 'x) Graph \<Rightarrow> EdgeKind \<Rightarrow> (string \<times> string) set" where
  "edge_rel g kind = {(f, t). has_edge g \<lparr> from_node = f, edge_kind = kind, to_node = t \<rparr>}"

lemma edge_rel_index:
  assumes "ok g" and "a < dg_node_count P (inner g)"
  shows "(dg_weight P (inner g) a, t) \<in> edge_rel g kind
     \<longleftrightarrow> (\<exists>b < dg_node_count P (inner g). t = dg_weight P (inner g) b \<and> (a, kind, b) \<in># dedges (inner g))"
    and "(f, dg_weight P (inner g) a) \<in> edge_rel g kind
     \<longleftrightarrow> (\<exists>b < dg_node_count P (inner g). f = dg_weight P (inner g) b \<and> (b, kind, a) \<in># dedges (inner g))"
proof -
  have a: "node_index g (dg_weight P (inner g) a) = Some a" using assms by (simp add: ok_index)
  have s: "(x, y, k) \<in> edge_set g \<longleftrightarrow> (x, k, y) \<in># dedges (inner g)" for x y k
    using assms(1) by (simp add: graph_ok_def)
  show "(dg_weight P (inner g) a, t) \<in> edge_rel g kind
     \<longleftrightarrow> (\<exists>b < dg_node_count P (inner g). t = dg_weight P (inner g) b \<and> (a, kind, b) \<in># dedges (inner g))"
    using ok_index [OF assms(1), of t] a s by (auto simp: edge_rel_def has_edge_iff)
  show "(f, dg_weight P (inner g) a) \<in> edge_rel g kind
     \<longleftrightarrow> (\<exists>b < dg_node_count P (inner g). f = dg_weight P (inner g) b \<and> (b, kind, a) \<in># dedges (inner g))"
    using ok_index [OF assms(1), of f] a s by (auto simp: edge_rel_def has_edge_iff)
qed

text \<open>A step relation on indices that represents a relation on keys, and its powers.\<close>

lemma relpow_index:
  assumes "\<And>a t. a < n \<Longrightarrow> (w a, t) \<in> R \<longleftrightarrow> (\<exists>b<n. t = w b \<and> (a, b) \<in> Q)"
    and "\<And>a b. a < n \<Longrightarrow> (a, b) \<in> Q \<Longrightarrow> b < n" and "s < n"
  shows "(w s, t) \<in> R ^^ m \<longleftrightarrow> (\<exists>b<n. t = w b \<and> (s, b) \<in> Q ^^ m)"
proof (induction m arbitrary: t)
  case (Suc m)
  show ?case
  proof
    assume "(w s, t) \<in> R ^^ Suc m"
    then obtain u where "(w s, u) \<in> R ^^ m" "(u, t) \<in> R" by auto
    then obtain b where "b < n" "u = w b" "(s, b) \<in> Q ^^ m" using Suc.IH by blast
    with \<open>(u, t) \<in> R\<close> assms(1) [of b t] show "\<exists>b<n. t = w b \<and> (s, b) \<in> Q ^^ Suc m" by auto
  next
    assume "\<exists>b<n. t = w b \<and> (s, b) \<in> Q ^^ Suc m"
    then obtain b c where b: "b < n" "t = w b" "(s, c) \<in> Q ^^ m" "(c, b) \<in> Q" by auto
    have "c < n"
      using b(3) assms(2,3) by (induction m arbitrary: c) auto
    then have "(w s, w c) \<in> R ^^ m" using Suc.IH b(3) by blast
    moreover have "(w c, t) \<in> R" using assms(1) [OF \<open>c < n\<close>] b by blast
    ultimately show "(w s, t) \<in> R ^^ Suc m" by auto
  qed
qed (use assms(3) in auto)

lemma traverse_by_reach:
  assumes "ok g" and "\<And>a b. a < dg_node_count P (inner g) \<Longrightarrow> b \<in> set (kind_targets kind (edges_at a)) \<Longrightarrow> b < dg_node_count P (inner g)"
    and "\<And>a t. a < dg_node_count P (inner g) \<Longrightarrow> (dg_weight P (inner g) a, t) \<in> R
        \<longleftrightarrow> (\<exists>b<dg_node_count P (inner g). t = dg_weight P (inner g) b \<and> b \<in> set (kind_targets kind (edges_at a)))"
    and "\<And>t. node_index g seed = None \<Longrightarrow> (seed, t) \<notin> R"
  shows "set (traverse_by P edges_at g seed kind depth) = {t. t \<noteq> seed \<and> (\<exists>m\<le>depth. (seed, t) \<in> R ^^ m)}
     \<and> distinct (traverse_by P edges_at g seed kind depth)"
proof (cases "node_index g seed")
  case None
  have "(seed, t) \<in> R ^^ m \<longleftrightarrow> m = 0 \<and> t = seed" for m t
    using assms(4) [OF None] by (cases m) (auto simp del: relpow.simps(2) dest: relpow_Suc_D2)
  then show ?thesis by (auto simp: traverse_by_def None)
next
  case (Some s)
  define n where "n = dg_node_count P (inner g)"
  define w where "w = dg_weight P (inner g)"
  define nx where "nx = (\<lambda>a. kind_targets kind (edges_at a))"
  have s: "s < n" "w s = seed" using Some ok_index [OF assms(1)] by (auto simp: n_def w_def)
  have inj: "w a = w b \<longleftrightarrow> a = b" if "a < n" "b < n" for a b
    using ok_index [OF assms(1)] that by (metis n_def option.inject w_def)
  let ?Q = "{(a, b). b \<in> set (nx a)}"
  have rp: "(seed, t) \<in> R ^^ m \<longleftrightarrow> (\<exists>b<n. t = w b \<and> (s, b) \<in> ?Q ^^ m)" for t m
    unfolding s(2) [symmetric]
    by (rule relpow_index) (use assms(2,3) s(1) in \<open>auto simp: n_def w_def nx_def\<close>)
  have ball_lt: "b < n" if "(s, b) \<in> ?Q ^^ m" for b m
    using that assms(2) s(1) by (induction m arbitrary: b) (auto simp: nx_def n_def)
  have bfs: "set (bfs nx depth [(s, 0)] {s} []) = ball nx s depth - {s}" "distinct (bfs nx depth [(s, 0)] {s} [])"
    using bfs_ball [of nx depth s] by blast+
  have t: "traverse_by P edges_at g seed kind depth = map w (bfs nx depth [(s, 0)] {s} [])"
    by (simp add: traverse_by_def Some nx_def w_def)
  have "set (traverse_by P edges_at g seed kind depth) = {t. t \<noteq> seed \<and> (\<exists>m\<le>depth. (seed, t) \<in> R ^^ m)}"
    unfolding t set_map bfs(1) rp using ball_lt inj s by (auto simp: ball_def)
  moreover have "distinct (traverse_by P edges_at g seed kind depth)"
    unfolding t distinct_map using bfs inj ball_lt by (auto simp: inj_on_def ball_def)
  ultimately show ?thesis by blast
qed

lemma traverse_reach:
  assumes "ok g"
  shows "set (traverse P g seed kind depth) = {t. t \<noteq> seed \<and> (\<exists>m\<le>depth. (seed, t) \<in> edge_rel g kind ^^ m)}
     \<and> distinct (traverse P g seed kind depth)"
  unfolding traverse_def
proof (rule traverse_by_reach [OF assms])
  have kt: "b \<in> set (kind_targets kind (dg_edges P (inner g) a)) \<longleftrightarrow> (a, kind, b) \<in># dedges (inner g)" for a b
    by (force simp: kind_targets_def edges_out [symmetric])
  show "b < dg_node_count P (inner g)" if "b \<in> set (kind_targets kind (dg_edges P (inner g) a))" for a b
    using assms that unfolding kt by (auto simp: graph_ok_def)
  show "(dg_weight P (inner g) a, t) \<in> edge_rel g kind \<longleftrightarrow> (\<exists>b<dg_node_count P (inner g).
      t = dg_weight P (inner g) b \<and> b \<in> set (kind_targets kind (dg_edges P (inner g) a)))"
    if "a < dg_node_count P (inner g)" for a t
    unfolding kt by (rule edge_rel_index(1) [OF assms that])
qed (simp add: edge_rel_def has_edge_def)

lemma traverse_incoming_reach:
  assumes "ok g"
  shows "set (traverse_incoming P g seed kind depth) = {f. f \<noteq> seed \<and> (\<exists>m\<le>depth. (seed, f) \<in> ((edge_rel g kind)\<inverse>) ^^ m)}
     \<and> distinct (traverse_incoming P g seed kind depth)"
  unfolding traverse_incoming_def
proof (rule traverse_by_reach [OF assms])
  have kt: "b \<in> set (kind_targets kind (dg_edges_incoming P (inner g) a)) \<longleftrightarrow> (b, kind, a) \<in># dedges (inner g)" for a b
    by (force simp: kind_targets_def edges_in [symmetric])
  show "b < dg_node_count P (inner g)" if "b \<in> set (kind_targets kind (dg_edges_incoming P (inner g) a))" for a b
    using assms that unfolding kt by (auto simp: graph_ok_def)
  show "(dg_weight P (inner g) a, t) \<in> (edge_rel g kind)\<inverse> \<longleftrightarrow> (\<exists>b<dg_node_count P (inner g).
      t = dg_weight P (inner g) b \<and> b \<in> set (kind_targets kind (dg_edges_incoming P (inner g) a)))"
    if "a < dg_node_count P (inner g)" for a t
    unfolding kt converse_iff by (rule edge_rel_index(2) [OF assms that])
qed (auto simp: edge_rel_def has_edge_def split: option.splits)

end

end
