(* ===== verification/Graph_Sync.thy ===== *)
theory Graph_Sync
  imports Graph_Spec
begin

section \<open>Memory and store hold the same edges\<close>

text \<open>
  The graph is synchronised when an edge is in memory exactly if its key is in the store. Loading
  establishes this, adding edges keeps it on every outcome, and removing an edge keeps it unless
  the search index refuses the deletion after the transaction. Hence loading a synchronised graph
  again gives the same edges.
\<close>

definition storable :: "Edge \<Rightarrow> bool" where
  "storable e \<longleftrightarrow> from_key (to_key e) = Some e \<and> utf8_ok (to_key e)"

definition graph_synced :: "('t \<Rightarrow> string \<rightharpoonup> 'v) \<Rightarrow> ('g, 't, 'x) Graph \<Rightarrow> bool" where
  "graph_synced view g \<longleftrightarrow>
     (\<forall>e. has_edge g e \<longleftrightarrow> storable e \<and> to_key e \<in> dom (store_content view (g_store g)))"

lemma edge_prefix_ascii: "ascii_prefix EDGE_PREFIX"
  by (simp add: ascii_prefix_def EDGE_PREFIX_def)

lemma edge_prefix_class: "starts_with k EDGE_PREFIX \<Longrightarrow> for_key k = for_key EDGE_PREFIX"
  by (auto simp: starts_with_iff EDGE_PREFIX_def for_key_def)

lemma to_key_prefix [simp]: "starts_with (to_key e) EDGE_PREFIX"
  by (simp add: to_key_def EDGE_PREFIX_def starts_with_def)

lemma to_key_eventual [simp]: "for_key (to_key e) = Eventual"
  using edge_prefix_class [OF to_key_prefix [of e]] by (simp add: for_key_def EDGE_PREFIX_def starts_with_def)

lemma storable_key_inject: "storable e \<Longrightarrow> storable e' \<Longrightarrow> to_key e = to_key e' \<longleftrightarrow> e = e'"
  unfolding storable_def by (metis option.inject)

lemma foldl_map_filter:
  "foldl (\<lambda>a x. case f x of None \<Rightarrow> a | Some y \<Rightarrow> h a y) a xs = foldl h a (List.map_filter f xs)"
  by (induction xs arbitrary: a) (auto simp: map_filter_simps split: option.split)

lemma apply_puts_dom: "dom (apply_ops (map (\<lambda>kv. (fst kv, Some (snd kv))) rs) m) = dom m \<union> fst ` set rs"
  by (induction rs arbitrary: m) auto

locale graph_laws = store_laws A view healthy + digraph_laws P dedges
  for A :: "('t, 'x, 'v, 'j) store_api" and view healthy
    and P :: "'g digraph_api" and dedges
begin

abbreviation synced :: "('g, 't, 'x) Graph \<Rightarrow> bool" where
  "synced \<equiv> graph_synced view"

lemma scan_edge_keys:
  assumes "sound S"
  obtains ks where "scan_keys A S EDGE_PREFIX = Inr ks"
    and "set ks = {k. starts_with k EDGE_PREFIX \<and> utf8_ok k \<and> k \<in> dom (content S)}"
proof -
  have "healthy (tree_for S EDGE_PREFIX)"
    using assms by (simp add: sound_def tree_for_def tree_of_def split: Durability.split)
  then obtain kvs where "kv_range A (tree_for S EDGE_PREFIX) EDGE_PREFIX (prefix_end EDGE_PREFIX) = Inr kvs"
    using range_healthy by blast
  then obtain ks where "scan_keys A S EDGE_PREFIX = Inr ks" by (simp add: scan_keys_def)
  then show ?thesis using that scan_keys_set(1) [OF _ edge_prefix_ascii edge_prefix_class] by blast
qed

lemma load_ok:
  assumes "sound S"
  obtains g where "graph_load A P S = Ok g" "ok g" "synced g" "g_store g = S"
proof -
  obtain ks where ks: "scan_keys A S EDGE_PREFIX = Inr ks"
    and set: "set ks = {k. starts_with k EDGE_PREFIX \<and> utf8_ok k \<and> k \<in> dom (content S)}"
    using scan_edge_keys [OF assms] .
  let ?es = "List.map_filter from_key ks"
  let ?g = "foldl (insert_edge_in_memory P) (empty_graph P S) ?es"
  have l: "graph_load A P S = Ok ?g" by (simp add: graph_load_def ks foldl_map_filter)
  have f: "ok ?g" "\<And>e. has_edge ?g e \<longleftrightarrow> e \<in> set ?es" "g_store ?g = S"
    using foldl_insert_ok [OF ok_empty, of S ?es] no_edges_empty by (auto simp: empty_graph_def)
  have "e \<in> set ?es \<longleftrightarrow> storable e \<and> to_key e \<in> dom (content S)" for e
  proof -
    have "e \<in> set ?es \<longleftrightarrow> (\<exists>k\<in>set ks. from_key k = Some e)"
      by (force simp: map_filter_def)
    also have "\<dots> \<longleftrightarrow> storable e \<and> to_key e \<in> dom (content S)"
    proof -
      have "(\<exists>k\<in>set ks. from_key k = Some e) \<longleftrightarrow> to_key e \<in> set ks \<and> from_key (to_key e) = Some e"
        using to_key_from_key(1) by metis
      then show ?thesis by (auto simp: set storable_def)
    qed
    finally show ?thesis .
  qed
  then have "synced ?g" by (simp add: graph_synced_def f)
  then show ?thesis using that l f by blast
qed

lemma add_edge_sync:
  assumes "ok g" and "synced g" and "storable e" and "add_edge A P now g e = (g', r)"
  shows "ok g' \<and> synced g' \<and> sound (g_store g') = sound (g_store g)"
    and "has_edge g' e' \<longleftrightarrow> has_edge g e' \<or> r = Ok () \<and> e' = e"
proof -
  have "ok g' \<and> synced g' \<and> sound (g_store g') = sound (g_store g) \<and> (has_edge g' e' \<longleftrightarrow> has_edge g e' \<or> r = Ok () \<and> e' = e)"
  proof (cases "has_edge g e")
    case True
    then show ?thesis using assms by (auto simp: add_edge_def)
  next
    case False
    obtain S1 r1 where p: "put_raw A (g_store g) (to_key e) (of_bytes A (to_le_bytes now)) = (S1, r1)" by (metis surj_pair)
    have snd: "sound S1 = sound (g_store g)" using p by (auto simp: put_raw_def dest: sound_commit_on)
    show ?thesis
    proof (cases r1)
      case (Inl err)
      then have "content S1 = content (g_store g)" using p put_raw_err by simp
      moreover have "g' = g\<lparr>g_store := S1\<rparr>" "r = Err err"
        using assms(4) False p Inl by (auto simp: add_edge_def persist_edge_def)
      ultimately show ?thesis using assms(1,2) snd by (simp add: graph_synced_def)
    next
      case (Inr u)
      then have "content S1 = (content (g_store g))(to_key e \<mapsto> of_bytes A (to_le_bytes now))"
        using p put_raw_ok(1) by simp
      moreover have "g' = insert_edge_in_memory P (g\<lparr>g_store := S1\<rparr>) e" "r = Ok ()"
        using assms(4) False p Inr by (auto simp: add_edge_def persist_edge_def)
      ultimately show ?thesis
        using assms(1-3) snd insert_edge_ok [of "g\<lparr>g_store := S1\<rparr>" e] storable_key_inject
        by (auto simp: graph_synced_def)
    qed
  qed
  then show "ok g' \<and> synced g' \<and> sound (g_store g') = sound (g_store g)"
    "has_edge g' e' \<longleftrightarrow> has_edge g e' \<or> r = Ok () \<and> e' = e" by blast+
qed

lemma put_batch_raw_eventual:
  assumes "rs \<noteq> []" and "\<forall>kv\<in>set rs. for_key (fst kv) = Eventual"
  shows "put_batch_raw A S rs = commit_on A S Eventual (map (\<lambda>kv. (fst kv, Some (snd kv))) rs)"
proof -
  have "of_class Immediate rs = []" "of_class Eventual rs = rs"
    using assms(2) by (auto simp: of_class_def filter_empty_conv filter_id_conv)
  then show ?thesis using assms(1) by (simp add: put_batch_raw_def commit_raw_part_def)
qed

lemma add_edges_batch_sync:
  assumes "ok g" and "synced g" and "\<forall>e\<in>set es. storable e" and "add_edges_batch A P now g es = (g', r)"
  shows "ok g' \<and> synced g' \<and> sound (g_store g') = sound (g_store g)"
    and "has_edge g' e' \<longleftrightarrow> has_edge g e' \<or> r = Ok () \<and> e' \<in> set es"
proof -
  define ne where "ne = filter (\<lambda>e. \<not> has_edge g e) es"
  define rs where "rs = map (\<lambda>e. (to_key e, of_bytes A (to_le_bytes now))) ne"
  let ?ops = "map (\<lambda>kv. (fst kv, Some (snd kv))) rs"
  have "ok g' \<and> synced g' \<and> sound (g_store g') = sound (g_store g) \<and> (has_edge g' e' \<longleftrightarrow> has_edge g e' \<or> r = Ok () \<and> e' \<in> set es)"
  proof (cases "ne = []")
    case True
    then have "g' = g" "r = Ok ()" using assms(4) by (simp_all add: add_edges_batch_def ne_def)
    moreover have "has_edge g e'" if "e' \<in> set es" using True that by (auto simp: ne_def filter_empty_conv)
    ultimately show ?thesis using assms by auto
  next
    case False
    obtain S1 r1 where c: "commit_on A (g_store g) Eventual ?ops = (S1, r1)" by (metis surj_pair)
    have b: "put_batch_raw A (g_store g) rs = (S1, r1)"
      using put_batch_raw_eventual [of rs] False c by (simp add: rs_def)
    have snd: "sound S1 = sound (g_store g)" by (rule sound_commit_on [OF c])
    show ?thesis
    proof (cases r1)
      case (Inl err)
      then have "content S1 = content (g_store g)" using c commit_on_err(1) by simp
      moreover have "g' = g\<lparr>g_store := S1\<rparr>" "r = Err err"
        using assms(4) False b Inl by (simp_all add: add_edges_batch_def Let_def ne_def [symmetric] rs_def)
      ultimately show ?thesis using assms(1,2) snd by (simp add: graph_synced_def)
    next
      case (Inr u)
      have "content S1 = apply_ops ?ops (content (g_store g))"
        using commit_on_ok [of "g_store g" Eventual ?ops S1 u] c Inr by (simp add: rs_def)
      moreover have "fst ` set rs = to_key ` set ne" by (simp add: rs_def image_image)
      ultimately have d: "dom (content S1) = dom (content (g_store g)) \<union> to_key ` set ne"
        by (simp only: apply_puts_dom)
      have g': "g' = foldl (insert_edge_in_memory P) (g\<lparr>g_store := S1\<rparr>) ne" "r = Ok ()"
        using assms(4) False b Inr by (simp_all add: add_edges_batch_def Let_def ne_def [symmetric] rs_def)
      have f: "ok g'" "\<And>e. has_edge g' e \<longleftrightarrow> e \<in> set ne \<or> has_edge g e" "g_store g' = S1"
        using foldl_insert_ok [of "g\<lparr>g_store := S1\<rparr>" ne] assms(1) by (auto simp: g')
      have "synced g'"
        using assms(2,3) storable_key_inject by (auto simp: graph_synced_def f d ne_def)
      then show ?thesis using f g' snd by (auto simp: ne_def)
    qed
  qed
  then show "ok g' \<and> synced g' \<and> sound (g_store g') = sound (g_store g)"
    "has_edge g' e' \<longleftrightarrow> has_edge g e' \<or> r = Ok () \<and> e' \<in> set es" by blast+
qed

lemma delete_sound: "store_delete A S k = (S', r) \<Longrightarrow> sound S' = sound S"
  by (auto simp: store_delete_def Let_def dest: sound_commit_on
      split: prod.splits sum.splits search_outcome.splits if_splits)

lemma remove_edge_err:
  assumes "remove_edge A P g e = (g', Inl err)"
  shows "\<exists>S1. store_delete A (g_store g) (to_key e) = (S1, Inl err) \<and> g' = g\<lparr>g_store := S1\<rparr>"
  using assms by (auto simp: remove_edge_def Let_def split: prod.splits sum.splits option.splits)

lemma remove_edge_sync:
  assumes "ok g" and "synced g" and "storable e" and "remove_edge A P g e = (g', r)"
    and "r = Ok () \<or> (\<exists>m. r = Err (KvError m))"
  shows "ok g' \<and> synced g' \<and> sound (g_store g') = sound (g_store g)"
    and "has_edge g' e' \<longleftrightarrow> has_edge g e' \<and> \<not> (r = Ok () \<and> e' = e)"
proof -
  have "ok g' \<and> synced g' \<and> sound (g_store g') = sound (g_store g) \<and> (has_edge g' e' \<longleftrightarrow> has_edge g e' \<and> \<not> (r = Ok () \<and> e' = e))"
  proof (cases r)
    case (Inl err)
    then obtain S1 m where "store_delete A (g_store g) (to_key e) = (S1, Inl (KvError m))" and g': "g' = g\<lparr>g_store := S1\<rparr>"
      using remove_edge_err [of g e g' err] assms(4,5) by auto
    then have "content S1 = content (g_store g)" "sound S1 = sound (g_store g)"
      using store_delete_content delete_sound by fastforce+
    then show ?thesis using assms(1,2) Inl by (simp add: graph_synced_def g')
  next
    case (Inr u)
    note m = remove_edge_memory [OF assms(1) assms(4) [unfolded Inr]]
    obtain q where d: "store_delete A (g_store g) (to_key e) = (g_store g', Inr q)" using m(3) by blast
    have c: "content (g_store g') = (content (g_store g))(to_key e := None)"
      using store_delete_content [OF d] by simp
    have "synced g'"
      using assms(2,3) storable_key_inject by (auto simp: graph_synced_def m(2) c)
    then show ?thesis using m(1,2) delete_sound [OF d] Inr by auto
  qed
  then show "ok g' \<and> synced g' \<and> sound (g_store g') = sound (g_store g)"
    "has_edge g' e' \<longleftrightarrow> has_edge g e' \<and> \<not> (r = Ok () \<and> e' = e)" by blast+
qed

end

subsection \<open>A list-based petgraph\<close>

text \<open>Nodes and edges in two vectors; removing an edge moves the last one into its place, as petgraph does.\<close>

record list_graph =
  lg_nodes :: "string list"
  lg_edges :: "(nat \<times> EdgeKind \<times> nat) list"

definition list_digraph :: "list_graph digraph_api" where
  "list_digraph = \<lparr>
     dg_new = \<lparr> lg_nodes = [], lg_edges = [] \<rparr>,
     dg_add_node = (\<lambda>g w. (g\<lparr>lg_nodes := lg_nodes g @ [w]\<rparr>, length (lg_nodes g))),
     dg_weight = (\<lambda>g i. lg_nodes g ! i),
     dg_node_count = (\<lambda>g. length (lg_nodes g)),
     dg_edge_count = (\<lambda>g. length (lg_edges g)),
     dg_add_edge = (\<lambda>g a b k. g\<lparr>lg_edges := lg_edges g @ [(a, k, b)]\<rparr>),
     dg_edges = (\<lambda>g a. map snd (filter (\<lambda>e. fst e = a) (lg_edges g))),
     dg_edges_incoming = (\<lambda>g b. map (\<lambda>e. (fst (snd e), fst e)) (filter (\<lambda>e. snd (snd e) = b) (lg_edges g))),
     dg_edge_references = lg_edges,
     dg_edges_connecting = (\<lambda>g a b. map (\<lambda>i. (i, fst (snd (lg_edges g ! i))))
        (filter (\<lambda>i. fst (lg_edges g ! i) = a \<and> snd (snd (lg_edges g ! i)) = b) [0..<length (lg_edges g)])),
     dg_remove_edge = (\<lambda>g i. if i < length (lg_edges g)
        then g\<lparr>lg_edges := butlast ((lg_edges g)[i := last (lg_edges g)])\<rparr> else g) \<rparr>"

definition list_edges :: "list_graph \<Rightarrow> (nat \<times> EdgeKind \<times> nat) multiset" where
  "list_edges g = mset (lg_edges g)"

lemma count_nth: "count (mset xs) x = length (filter (\<lambda>i. xs ! i = x) [0..<length xs])"
proof (induction xs rule: rev_induct)
  case (snoc y xs)
  have "filter (\<lambda>i. (xs @ [y]) ! i = x) [0..<length xs] = filter (\<lambda>i. xs ! i = x) [0..<length xs]"
    by (rule filter_cong) (simp_all add: nth_append)
  with snoc show ?case by simp
qed simp

lemma swap_remove:
  assumes "i < length xs"
  shows "mset (butlast (xs[i := last xs])) = mset xs - {#xs ! i#}"
proof -
  obtain ys y where xs: "xs = ys @ [y]" using assms by (cases xs rule: rev_cases) auto
  show ?thesis
  proof (cases "i = length ys")
    case False
    then have "i < length ys" using assms xs by simp
    then have "butlast (xs[i := last xs]) = ys[i := y]" by (simp add: xs list_update_append1)
    moreover have "mset (ys[i := y]) = add_mset y (mset ys - {#ys ! i#})"
      using \<open>i < length ys\<close> by (rule mset_update)
    ultimately show ?thesis using \<open>i < length ys\<close> by (simp add: xs nth_append)
  qed (simp add: xs list_update_append)
qed

interpretation lg: digraph_laws list_digraph list_edges
proof (unfold_locales, goal_cases)
  case (10 k g a b)
  have "(\<lambda>i. fst (lg_edges g ! i) = a \<and> snd (snd (lg_edges g ! i)) = b \<and> fst (snd (lg_edges g ! i)) = k)
      = (\<lambda>i. lg_edges g ! i = (a, k, b))" by (auto simp: fun_eq_iff prod_eq_iff)
  then show ?case
    by (simp add: list_digraph_def list_edges_def count_nth filter_map comp_def conj_commute conj_left_commute)
next
  case (11 i k g a b)
  then have "i < length (lg_edges g)" "lg_edges g ! i = (a, k, b)"
    by (auto simp: list_digraph_def prod_eq_iff)
  then show ?case using swap_remove [of i "lg_edges g"] by (simp add: list_digraph_def list_edges_def)
qed (auto simp: list_digraph_def list_edges_def nth_append image_iff)

interpretation mg: graph_laws mem_store mem_view mem_healthy list_digraph list_edges ..

subsection \<open>The graph as a state machine\<close>

inductive graph_step ::
  "('t, 'x, 'v, 'j) store_api \<Rightarrow> 'g digraph_api \<Rightarrow> ('g, 't, 'x) Graph \<Rightarrow> ('g, 't, 'x) Graph \<Rightarrow> bool"
  for A :: "('t, 'x, 'v, 'j) store_api" and P :: "'g digraph_api" where
  step_add: "storable e \<Longrightarrow> add_edge A P now g e = (g', r) \<Longrightarrow> graph_step A P g g'"
| step_batch: "list_all storable es \<Longrightarrow> add_edges_batch A P now g es = (g', r) \<Longrightarrow> graph_step A P g g'"
| step_remove: "storable e \<Longrightarrow> remove_edge A P g e = (g', r) \<Longrightarrow> r = Ok () \<or> (\<exists>m. r = Err (KvError m))
    \<Longrightarrow> graph_step A P g g'"

context graph_laws
begin

lemma step_sync:
  assumes "graph_step A P g g'" and "ok g" and "synced g" and "sound (g_store g)"
  shows "ok g' \<and> synced g' \<and> sound (g_store g')"
  using assms(1)
proof cases
  case (step_add e now r)
  then show ?thesis using add_edge_sync(1) [OF assms(2,3)] assms(4) by blast
next
  case (step_batch es now r)
  then show ?thesis using add_edges_batch_sync(1) [OF assms(2,3)] assms(4) by (auto simp: list_all_iff)
next
  case (step_remove e r)
  then show ?thesis using remove_edge_sync(1) [OF assms(2,3)] assms(4) by blast
qed

lemma run_sync:
  assumes "(graph_step A P)\<^sup>*\<^sup>* g g'" and "ok g \<and> synced g \<and> sound (g_store g)"
  shows "ok g' \<and> synced g' \<and> sound (g_store g')"
  using assms by (induction rule: rtranclp_induct) (use step_sync in blast)+

lemma reload_same:
  assumes "sound S" and "graph_load A P S = Ok g" and "(graph_step A P)\<^sup>*\<^sup>* g g'"
  shows "\<exists>g2. graph_load A P (g_store g') = Ok g2 \<and> {e. has_edge g2 e} = {e. has_edge g' e}"
proof -
  have "ok g \<and> synced g \<and> sound (g_store g)"
    by (rule load_ok [OF assms(1)]) (use assms(1,2) in auto)
  then have "ok g' \<and> synced g' \<and> sound (g_store g')" by (rule run_sync [OF assms(3)])
  then obtain g2 where "graph_load A P (g_store g') = Ok g2" "synced g2" "g_store g2 = g_store g'"
    using load_ok [of "g_store g'"] by metis
  with \<open>ok g' \<and> synced g' \<and> sound (g_store g')\<close> show ?thesis by (auto simp: graph_synced_def)
qed

lemma remove_refused:
  assumes "synced g" and "has_edge g e" and "remove_edge A P g e = (g', Err (SearchError m))"
  shows "has_edge g' e \<and> to_key e \<notin> dom (content (g_store g'))"
proof -
  obtain S1 where d: "store_delete A (g_store g) (to_key e) = (S1, Inl (SearchError m))" and g': "g' = g\<lparr>g_store := S1\<rparr>"
    using remove_edge_err [OF assms(3)] by blast
  have "content S1 = (content (g_store g))(to_key e := None)" using store_delete_content [OF d] by simp
  then show ?thesis using assms(2) by (simp add: g' dom_def)
qed

end

subsection \<open>Properties\<close>

definition demo_edge :: Edge where
  "demo_edge = \<lparr> from_node = ''file:a'', edge_kind = Imports, to_node = ''file:b'' \<rparr>"

type_synonym demo_graph = "(list_graph, (unit, jvalue) cell mem_tree, bool \<times> string list) Graph"

abbreviation graph_store_api ::
  "((unit, jvalue) cell mem_tree, bool \<times> string list, (unit, jvalue) cell, jvalue) store_api" where
  "graph_store_api \<equiv> mem_store"

definition demo_start :: demo_graph where
  "demo_start = empty_graph list_digraph empty_store"

lemma demo_edge_storable: "storable demo_edge"
proof -
  have "from_key (to_key demo_edge) = Some demo_edge"
    by (rule from_key_to_key)
       (simp add: plain_edge_def demo_edge_def is_valid_node_key_def NODE_NAMESPACES_def starts_with_def)
  then show ?thesis by (simp add: storable_def demo_edge_def to_key_def)
qed





text \<open>
  C38. When the search index refuses the deletion of an edge key after the store has committed it,
  \<open>remove_edge\<close> returns the error with the edge still in memory and its key gone from the store: the
  running process and a restarted one disagree about the edge.
\<close>

theorem remove_edge_refused_desync:
  assumes "graph_laws A view healthy P dedges" and "graph_synced view g" and "has_edge g e"
    and "remove_edge A P g e = (g', Err (SearchError m))"
  shows "has_edge g' e \<and> to_key e \<notin> dom (store_content view (g_store g'))"
  using graph_laws.remove_refused [OF assms] .

definition demo_broken_index :: demo_graph where
  "demo_broken_index = insert_edge_in_memory list_digraph
     (demo_start\<lparr>g_store := empty_store\<lparr>search := (True, []),
        sessions := empty_tree\<lparr>mt_cells := [(to_key demo_edge, BytesCell [])]\<rparr>\<rparr>\<rparr>) demo_edge"

theorem remove_edge_refused_desync_witness:
  "has_edge (fst (remove_edge graph_store_api list_digraph demo_broken_index demo_edge)) demo_edge
   \<and> to_key demo_edge \<notin> dom (store_content mem_view (g_store (fst (remove_edge graph_store_api list_digraph demo_broken_index demo_edge))))"
proof (rule remove_edge_refused_desync [OF mg.graph_laws_axioms])
  let ?S = "empty_store\<lparr>search := (True, []), sessions := empty_tree\<lparr>mt_cells := [(to_key demo_edge, BytesCell [])]\<rparr>\<rparr>
    :: ((unit, jvalue) cell mem_tree, bool \<times> string list) Store"
  have ok0: "graph_ok list_digraph list_edges (demo_start\<lparr>g_store := ?S\<rparr>)"
    by (simp add: demo_start_def lg.ok_empty)
  note i = lg.insert_edge_ok [OF ok0, of demo_edge]
  have he: "has_edge demo_broken_index e \<longleftrightarrow> e = demo_edge" for e
    unfolding demo_broken_index_def i(2) by (simp add: demo_start_def lg.no_edges_empty)
  have st: "g_store demo_broken_index = ?S" by (simp add: demo_broken_index_def i(3))
  have d: "to_key e \<in> dom (store_content mem_view ?S) \<longleftrightarrow> to_key e = to_key demo_edge" for e
    by (simp add: dom_def store_content_def mem_view_def tree_for_def tree_of_def empty_tree_def)
  show "graph_synced mem_view demo_broken_index"
    unfolding graph_synced_def he st d
    using demo_edge_storable storable_key_inject by blast
  show "has_edge demo_broken_index demo_edge" by (simp add: he)
  have "snd (store_delete graph_store_api ?S (to_key demo_edge)) = Err (SearchError ''broken'')"
    by (simp add: store_delete_def commit_on_def mem_store_def mem_commit_def empty_store_def empty_tree_def tree_of_def
        set_fence_def Let_def)
  then show "remove_edge graph_store_api list_digraph demo_broken_index demo_edge
      = (fst (remove_edge graph_store_api list_digraph demo_broken_index demo_edge), Err (SearchError ''broken''))"
    by (auto simp: remove_edge_def st split: prod.splits sum.splits)
qed

text \<open>
  C35. Breadth-first traversal is exact: \<open>traverse\<close> returns each node that is reachable from the seed over
  edges of the given kind in at most \<open>depth\<close> steps, other than the seed, and returns it once; cycles
  do not matter and the loop always ends.
\<close>

theorem traverse_exact:
  assumes "digraph_laws P dedges" and "graph_ok P dedges g"
  shows "set (traverse P g seed kind depth) = {t. t \<noteq> seed \<and> (\<exists>m\<le>depth.
            (seed, t) \<in> {(f, t). has_edge g \<lparr> from_node = f, edge_kind = kind, to_node = t \<rparr>} ^^ m)}
     \<and> distinct (traverse P g seed kind depth)"
  using digraph_laws.traverse_reach [OF assms] unfolding digraph_laws.edge_rel_def [OF assms(1)] .

theorem traverse_exact_witness:
  "''file:b'' \<in> set (traverse list_digraph (insert_edge_in_memory list_digraph demo_start demo_edge) ''file:a'' Imports 1)"
proof -
  have ok0: "graph_ok list_digraph list_edges demo_start" by (simp add: demo_start_def lg.ok_empty)
  note i = lg.insert_edge_ok [OF ok0, of demo_edge]
  let ?R = "{(f, t). has_edge (insert_edge_in_memory list_digraph demo_start demo_edge) \<lparr> from_node = f, edge_kind = Imports, to_node = t \<rparr>}"
  have "(''file:a'', ''file:b'') \<in> ?R ^^ 1" by (simp, fold demo_edge_def, simp add: i(2))
  moreover have "''file:b'' \<noteq> ''file:a''" by simp
  ultimately show ?thesis
    using traverse_exact [OF lg.digraph_laws_axioms i(1), of "''file:a''" Imports 1] by blast
qed

end
