(* ===== verification/Repair_Spec.thy ===== *)
theory Repair_Spec
  imports Repair Graph_Sync
begin

section \<open>Correctness of the reconciliation\<close>

text \<open>
  The three relations between files and gotchas that the check compares, read off the content of the
  store: what the active gotcha records ask for (\<open>wanted\<close>), what the file records list (\<open>linked\<close>) and which
  edges are persisted (\<open>edged\<close>). The check finds drift exactly when they are not all the same,
  and the full repair makes them the same on a store that accepts its writes.
\<close>

subsection \<open>Stores that accept writes\<close>

locale live_store = store_laws A view healthy
  for A :: "('t, 'x, 'v, 'j) store_api" and view :: "'t \<Rightarrow> string \<rightharpoonup> 'v" and healthy +
  fixes live :: "'t \<Rightarrow> bool"
  assumes live_commit: "live t \<Longrightarrow> \<exists>t'. kv_commit A t d ops = (t', None) \<and> live t'"
    and enc_total: "\<exists>b. enc_record A r = Some b"
begin

definition running :: "('t, 'x) Store \<Rightarrow> bool" where
  "running S \<longleftrightarrow> sound S \<and> live (knowledge S) \<and> live (sessions S)"

lemma running_sound: "running S \<Longrightarrow> sound S"
  by (simp add: running_def)

lemma running_bookkeeping [simp]:
  "running (set_fence b S) = running S" "running (bump_write_seq S) = running S" "running (S\<lparr>search := x\<rparr>) = running S"
  by (simp_all add: running_def set_fence_def bump_write_seq_def sound_def)

lemma running_sync_search [simp]: "running (sync_search A kn rs S) = running S"
  by (simp add: sync_search_def Let_def split: prod.split)

lemma commit_on_live:
  assumes "running S"
  obtains S' where "commit_on A S d ops = (S', Inr ())" and "running S'"
proof -
  have "live (tree_of S d)" using assms by (simp add: running_def tree_of_def split: Durability.split)
  then obtain t' where t: "kv_commit A (tree_of S d) d ops = (t', None)" "live t'" using live_commit by blast
  have "healthy t' = healthy (tree_of S d)" using commit_healthy [OF t(1)] .
  then show ?thesis
    using that t assms by (auto simp: commit_on_def running_def sound_def tree_of_def split: Durability.splits)
qed

lemma put_live:
  assumes "running S"
  obtains S' b where "store_put A S k r = (S', Ok ())" "enc_record A r = Some b"
    "content S' = (content S)(k \<mapsto> b)" "running S'"
proof -
  obtain b where b: "enc_record A r = Some b" using enc_total by blast
  obtain S1 where c: "commit_on A S (for_key k) [(k, Some b)] = (S1, Inr ())" "running S1"
    using commit_on_live [OF assms] .
  have "store_put A S k r = (sync_search A (is_knowledge_key k) [r] S1, Ok ())" by (simp add: store_put_def b c(1))
  then show ?thesis using that b c(2) commit_on_ok [OF c(1)] by simp
qed

lemma put_raw_live:
  assumes "running S"
  obtains S' where "put_raw A S k v = (S', Ok ())" "content S' = (content S)(k \<mapsto> v)" "running S'"
  using commit_on_live [OF assms, of "for_key k" "[(k, Some v)]"] put_raw_ok(1) by (metis put_raw_def)

lemma delete_live:
  assumes "running S"
  shows "content (fst (store_delete A S k)) = (content S)(k := None)" and "running (fst (store_delete A S k))"
proof -
  obtain S1 where c: "commit_on A S (for_key k) [(k, None)] = (S1, Inr ())" "running S1"
    using commit_on_live [OF assms] .
  show "content (fst (store_delete A S k)) = (content S)(k := None)"
    using commit_on_ok [OF c(1)] by (simp add: store_delete_def c(1) Let_def split: prod.split search_outcome.split)
  show "running (fst (store_delete A S k))"
    using c(2) by (simp add: store_delete_def c(1) Let_def split: prod.split search_outcome.split)
qed

end

interpretation mem_live: live_store mem_store mem_view mem_healthy "\<lambda>t. \<not> mt_commit_fails t"
  by unfold_locales (auto simp: mem_store_def mem_commit_def)

subsection \<open>The relations\<close>

definition rec_at :: "('t, 'x, 'v, 'j) store_api \<Rightarrow> ('t \<Rightarrow> string \<rightharpoonup> 'v) \<Rightarrow> ('t, 'x) Store \<Rightarrow> string \<Rightarrow> 'j Record option" where
  "rec_at A view S k = Option.bind (store_content view S k) (dec_record A)"

definition wanted ::
  "('t, 'x, 'v, 'j) store_api \<Rightarrow> ('t \<Rightarrow> string \<rightharpoonup> 'v) \<Rightarrow> ('j, GotchaRecord) serde \<Rightarrow> ('t, 'x) Store \<Rightarrow> (string \<times> string) set" where
  "wanted A view G S = {(path, key). \<exists>k r g. starts_with k ''gotcha:'' \<and> rec_at A view S k = Some r
     \<and> r_lifecycle r = Active \<and> payload_as (from_value G) r = Some g \<and> path \<in> set (g_affected_files g) \<and> key = r_key r}"

definition links_at ::
  "('t, 'x, 'v, 'j) store_api \<Rightarrow> ('t \<Rightarrow> string \<rightharpoonup> 'v) \<Rightarrow> 'j json_api \<Rightarrow> ('t, 'x) Store \<Rightarrow> string \<Rightarrow> string list" where
  "links_at A view J S path = (case rec_at A view S (file_key path) of None \<Rightarrow> [] | Some r \<Rightarrow> extract_gotcha_keys J r)"

definition linked ::
  "('t, 'x, 'v, 'j) store_api \<Rightarrow> ('t \<Rightarrow> string \<rightharpoonup> 'v) \<Rightarrow> 'j json_api \<Rightarrow> ('t, 'x) Store \<Rightarrow> (string \<times> string) set" where
  "linked A view J S = {(path, key). key \<in> set (links_at A view J S path)}"

definition edged :: "('t \<Rightarrow> string \<rightharpoonup> 'v) \<Rightarrow> ('t, 'x) Store \<Rightarrow> (string \<times> string) set" where
  "edged view S = {p. \<exists>k \<in> dom (store_content view S). utf8_ok k \<and> edge_pair k = Some p}"

text \<open>File records are stored under the key they carry.\<close>

definition files_keyed :: "('t, 'x, 'v, 'j) store_api \<Rightarrow> ('t \<Rightarrow> string \<rightharpoonup> 'v) \<Rightarrow> ('t, 'x) Store \<Rightarrow> bool" where
  "files_keyed A view S \<longleftrightarrow> (\<forall>k r. starts_with k ''file:'' \<longrightarrow> rec_at A view S k = Some r \<longrightarrow> r_key r = k)"

subsection \<open>The diff\<close>

declare starts_with_Cons [simp del]

lemma file_path_file_key [simp]: "file_path_of (file_key p) = p"
  using strip_prefix_append [of "''file:''" p] by (simp only: file_path_of_def file_key_def unwrap_or_simps)

lemma file_key_inject [simp]: "file_key p = file_key q \<longleftrightarrow> p = q"
  by (simp add: file_key_def)

lemma file_key_prefix [simp]: "starts_with (file_key p) ''file:''"
  by (simp add: file_key_def starts_with_def)

lemma file_key_path: "starts_with k ''file:'' \<Longrightarrow> file_key (file_path_of k) = k"
  by (auto simp: file_key_def file_path_of_def strip_prefix_def starts_with_iff)

lemma link_prefixes: "ascii_prefix ''file:''" "ascii_prefix ''gotcha:''" "ascii_prefix ''graph:edge:''"
  by (simp_all add: ascii_prefix_def)

lemma link_prefix_class:
  "starts_with k ''file:'' \<Longrightarrow> for_key k = for_key ''file:''"
  "starts_with k ''gotcha:'' \<Longrightarrow> for_key k = for_key ''gotcha:''"
  "starts_with k ''graph:edge:'' \<Longrightarrow> for_key k = for_key ''graph:edge:''"
  by (auto simp: starts_with_iff for_key_def)

definition links_in :: "link_map \<Rightarrow> (string \<times> string) set" where
  "links_in m = {(path, key). key \<in> set (unwrap_or (map_of m path) [])}"

lemma links_in_Nil [simp]: "links_in [] = {}"
  by (simp add: links_in_def)

lemma links_in_add [simp]: "links_in (add_link m path key) = insert (path, key) (links_in m)"
  by (auto simp: links_in_def add_link_def update_conv' set_insort_insert split: if_splits)

lemma distinct_add [simp]: "distinct (map fst m) \<Longrightarrow> distinct (map fst (add_link m path key))"
  by (simp add: add_link_def distinct_update)

lemma foldl_add_links:
  "links_in (fst (foldl (\<lambda>acc path. (add_link (fst acc) path k, List.insort_insert (path, k) (snd acc))) acc ps))
     = links_in (fst acc) \<union> (\<lambda>p. (p, k)) ` set ps
   \<and> set (snd (foldl (\<lambda>acc path. (add_link (fst acc) path k, List.insort_insert (path, k) (snd acc))) acc ps))
     = set (snd acc) \<union> (\<lambda>p. (p, k)) ` set ps
   \<and> (distinct (map fst (fst acc)) \<longrightarrow>
       distinct (map fst (fst (foldl (\<lambda>acc path. (add_link (fst acc) path k, List.insort_insert (path, k) (snd acc))) acc ps))))"
  by (induction ps arbitrary: acc) (simp_all add: set_insort_insert)

definition asks :: "('j, GotchaRecord) serde \<Rightarrow> 'j Record \<Rightarrow> (string \<times> string) set" where
  "asks G r = {(path, key). \<exists>g. r_lifecycle r = Active \<and> payload_as (from_value G) r = Some g
     \<and> path \<in> set (g_affected_files g) \<and> key = r_key r}"

lemma desire_gotcha_asks:
  "links_in (fst (desire_gotcha G acc r)) = links_in (fst acc) \<union> asks G r"
  "set (snd (desire_gotcha G acc r)) = set (snd acc) \<union> asks G r"
  "distinct (map fst (fst acc)) \<Longrightarrow> distinct (map fst (fst (desire_gotcha G acc r)))"
  using foldl_add_links [of "r_key r" acc]
  by (auto simp: desire_gotcha_def asks_def split: option.split)

lemma desire_gotchas_asks:
  "links_in (fst (foldl (desire_gotcha G) acc rs)) = links_in (fst acc) \<union> (\<Union>r\<in>set rs. asks G r)
   \<and> set (snd (foldl (desire_gotcha G) acc rs)) = set (snd acc) \<union> (\<Union>r\<in>set rs. asks G r)
   \<and> (distinct (map fst (fst acc)) \<longrightarrow> distinct (map fst (fst (foldl (desire_gotcha G) acc rs))))"
proof (induction rs arbitrary: acc)
  case (Cons r rs)
  show ?case using Cons.IH [of "desire_gotcha G acc r"] desire_gotcha_asks [where G = G and acc = acc and r = r] by auto
qed simp

lemma in_unwrap_or: "x \<in> set (unwrap_or m []) \<longleftrightarrow> (\<exists>xs. m = Some xs \<and> x \<in> set xs)"
  by (cases m) simp_all

lemma links_diff_nil:
  assumes "distinct (map fst D)" and "distinct (map fst M)"
  shows "fst (diff_file_links D M) = [] \<longleftrightarrow> links_in D \<subseteq> links_in M"
    and "snd (diff_file_links D M) = [] \<longleftrightarrow> links_in M \<subseteq> links_in D"
proof -
  have m: "(p, ks) \<in> set D \<longleftrightarrow> map_of D p = Some ks" "(p, ks) \<in> set M \<longleftrightarrow> map_of M p = Some ks" for p ks
    using assms by (metis map_of_eq_Some_iff)+
  have c: "concat (map (\<lambda>(path, keys). map (drift_entry path)
        (filter (\<lambda>k. k \<notin> set (unwrap_or (map_of N path) [])) keys)) E) = []
      \<longleftrightarrow> (\<forall>p ks. (p, ks) \<in> set E \<longrightarrow> (\<forall>k\<in>set ks. k \<in> set (unwrap_or (map_of N p) [])))" for N E :: link_map
    by (fastforce simp: filter_empty_conv)
  have s: "links_in N \<subseteq> links_in N' \<longleftrightarrow>
      (\<forall>p ks. map_of N p = Some ks \<longrightarrow> (\<forall>k\<in>set ks. k \<in> set (unwrap_or (map_of N' p) [])))" for N N'
    unfolding links_in_def subset_iff by (simp add: in_unwrap_or) blast
  show "fst (diff_file_links D M) = [] \<longleftrightarrow> links_in D \<subseteq> links_in M"
    and "snd (diff_file_links D M) = [] \<longleftrightarrow> links_in M \<subseteq> links_in D"
    unfolding diff_file_links_def fst_conv snd_conv c s m by (rule refl)+
qed

lemma edges_diff_nil:
  "fst (diff_edges D M) = [] \<longleftrightarrow> set D \<subseteq> set M" "snd (diff_edges D M) = [] \<longleftrightarrow> set M \<subseteq> set D"
  by (auto simp: diff_edges_def filter_empty_conv)

lemma set_map_filter: "set (List.map_filter f xs) = {y. \<exists>x\<in>set xs. f x = Some y}"
  by (force simp: map_filter_def)

lemma foldl_insort_set: "set (foldl (\<lambda>es p. List.insort_insert p es) acc ps) = set acc \<union> set ps"
  by (induction ps arbitrary: acc) (simp_all add: set_insort_insert)

subsection \<open>The check\<close>

locale repair_laws = live_store A view healthy live + json_laws J
  for A :: "('t, 'x, 'v, 'j) store_api" and view :: "'t \<Rightarrow> string \<rightharpoonup> 'v" and healthy live and J :: "'j json_api"
begin

abbreviation "record_of \<equiv> rec_at A view"
abbreviation "links \<equiv> links_at A view J"
abbreviation "keyed \<equiv> files_keyed A view"

lemma get_record:
  assumes "sound S"
  shows "(case store_get A S k of Inr (Some r) \<Rightarrow> f r | _ \<Rightarrow> d) = (case record_of S k of Some r \<Rightarrow> f r | None \<Rightarrow> d)"
  by (simp add: store_get_content [OF assms] decode_as_def rec_at_def split: option.split)

lemma scan_ok:
  assumes "sound S" and "ascii_prefix p" and "\<And>k. starts_with k p \<Longrightarrow> for_key k = for_key p"
  obtains rs where "scan_prefix A S p = Inr rs" and "set rs = {r. \<exists>k. starts_with k p \<and> record_of S k = Some r}"
proof -
  have "healthy (tree_for S p)" using assms(1) by (simp add: sound_def tree_for_def tree_of_def split: Durability.split)
  then obtain kvs where "kv_range A (tree_for S p) p (prefix_end p) = Inr kvs" using range_healthy by blast
  then obtain rs where rs: "scan_prefix A S p = Inr rs" by (simp add: scan_prefix_def)
  have "set rs = {r. \<exists>k. starts_with k p \<and> record_of S k = Some r}"
    using scan_prefix_set [OF rs assms(2,3)] by (auto simp: rec_at_def bind_eq_Some_conv)
  then show ?thesis using that rs by blast
qed

lemma desired_ok:
  assumes "sound S"
  obtains D E n where "derive_desired_state A G S = Ok (D, E, n)" "distinct (map fst D)"
    "links_in D = wanted A view G S" "set E = wanted A view G S"
proof -
  obtain rs where rs: "scan_prefix A S ''gotcha:'' = Inr rs"
    and set: "set rs = {r. \<exists>k. starts_with k ''gotcha:'' \<and> record_of S k = Some r}"
    using scan_ok [OF assms link_prefixes(2) link_prefix_class(2)] .
  have "(\<Union>r\<in>set rs. asks G r) = wanted A view G S"
    by (auto simp: set wanted_def asks_def)
  then show ?thesis
    using that [of "fst (foldl (desire_gotcha G) ([], []) rs)" "snd (foldl (desire_gotcha G) ([], []) rs)" "length rs"]
      desire_gotchas_asks [of G "([], [])" rs]
    by (simp add: derive_desired_state_def rs Let_def)
qed

lemma foldl_links:
  assumes "\<And>r r'. r \<in> set rs \<Longrightarrow> r' \<in> set rs \<Longrightarrow> file_path_of (r_key r) = file_path_of (r_key r') \<Longrightarrow> r = r'"
  shows "map_of (foldl (\<lambda>m r. if extract_gotcha_keys J r = [] then m
        else AList.update (file_path_of (r_key r)) (extract_gotcha_keys J r) m) [] rs) p = Some ks
      \<longleftrightarrow> ks \<noteq> [] \<and> (\<exists>r\<in>set rs. file_path_of (r_key r) = p \<and> extract_gotcha_keys J r = ks)"
  using assms
proof (induction rs rule: rev_induct)
  case (snoc r rs)
  have IH: "map_of (foldl (\<lambda>m r. if extract_gotcha_keys J r = [] then m
        else AList.update (file_path_of (r_key r)) (extract_gotcha_keys J r) m) [] rs) p = Some ks
      \<longleftrightarrow> ks \<noteq> [] \<and> (\<exists>r\<in>set rs. file_path_of (r_key r) = p \<and> extract_gotcha_keys J r = ks)"
    by (rule snoc.IH) (use snoc.prems in simp)
  have u: "r' = r" if "r' \<in> set rs" "file_path_of (r_key r') = file_path_of (r_key r)" for r'
    using snoc.prems [of r' r] that by simp
  show ?case
  proof (cases "extract_gotcha_keys J r = []")
    case True
    then show ?thesis using IH by auto
  next
    case False
    show ?thesis
    proof (cases "file_path_of (r_key r) = p")
      case True
      then have "(\<exists>r'\<in>set (rs @ [r]). file_path_of (r_key r') = p \<and> extract_gotcha_keys J r' = ks) \<longleftrightarrow> extract_gotcha_keys J r = ks"
        using u by auto
      then show ?thesis using False True by (auto simp: update_conv')
    qed (use False IH in \<open>simp add: update_conv'\<close>)
  qed
qed simp

lemma foldl_links_distinct:
  "distinct (map fst m) \<Longrightarrow> distinct (map fst (foldl (\<lambda>m r. if extract_gotcha_keys J r = [] then m
        else AList.update (file_path_of (r_key r)) (extract_gotcha_keys J r) m) m rs))"
  by (induction rs arbitrary: m) (simp_all add: distinct_update)

lemma actual_ok:
  assumes "sound S" and "keyed S"
  obtains m n where "read_actual_file_links A J S = Ok (m, n)" "distinct (map fst m)"
    "\<And>p ks. map_of m p = Some ks \<longleftrightarrow> ks \<noteq> [] \<and> links S p = ks" "links_in m = linked A view J S"
proof -
  obtain rs where rs: "scan_prefix A S ''file:'' = Inr rs"
    and set: "set rs = {r. \<exists>k. starts_with k ''file:'' \<and> record_of S k = Some r}"
    using scan_ok [OF assms(1) link_prefixes(1) link_prefix_class(1)] .
  let ?m = "foldl (\<lambda>m r. if extract_gotcha_keys J r = [] then m
        else AList.update (file_path_of (r_key r)) (extract_gotcha_keys J r) m) [] rs"
  have mem: "r \<in> set rs \<longleftrightarrow> starts_with (r_key r) ''file:'' \<and> record_of S (r_key r) = Some r" for r
    using assms(2) by (auto simp: set files_keyed_def)
  have inj: "r = r'" if "r \<in> set rs" "r' \<in> set rs" "file_path_of (r_key r) = file_path_of (r_key r')" for r r'
  proof -
    have k: "file_key (file_path_of (r_key r)) = r_key r" "file_key (file_path_of (r_key r')) = r_key r'"
      using that mem by (blast intro: file_key_path)+
    have "r_key r = r_key r'" using k that(3) by metis
    then show ?thesis using that by (simp add: mem)
  qed
  have m: "map_of ?m p = Some ks \<longleftrightarrow> ks \<noteq> [] \<and> links S p = ks" for p ks
  proof -
    have "(\<exists>r\<in>set rs. file_path_of (r_key r) = p \<and> extract_gotcha_keys J r = ks) \<longleftrightarrow> (\<exists>r. record_of S (file_key p) = Some r \<and> extract_gotcha_keys J r = ks)"
    proof
      assume "\<exists>r\<in>set rs. file_path_of (r_key r) = p \<and> extract_gotcha_keys J r = ks"
      then obtain r where "r \<in> set rs" "file_path_of (r_key r) = p" "extract_gotcha_keys J r = ks" by blast
      moreover from this have "r_key r = file_key p" using file_key_path [of "r_key r"] mem [of r] by simp
      ultimately show "\<exists>r. record_of S (file_key p) = Some r \<and> extract_gotcha_keys J r = ks" using mem by auto
    next
      assume "\<exists>r. record_of S (file_key p) = Some r \<and> extract_gotcha_keys J r = ks"
      then obtain r where r: "record_of S (file_key p) = Some r" "extract_gotcha_keys J r = ks" by blast
      then have "r_key r = file_key p" using assms(2) by (simp add: files_keyed_def)
      then show "\<exists>r\<in>set rs. file_path_of (r_key r) = p \<and> extract_gotcha_keys J r = ks"
        using r by (intro bexI [of _ r]) (simp_all add: mem)
    qed
    moreover have "map_of ?m p = Some ks \<longleftrightarrow> ks \<noteq> []
        \<and> (\<exists>r\<in>set rs. file_path_of (r_key r) = p \<and> extract_gotcha_keys J r = ks)"
      by (rule foldl_links) (rule inj)
    ultimately show ?thesis by (auto simp: links_at_def split: option.splits)
  qed
  have "links_in ?m = linked A view J S"
    by (auto simp: links_in_def linked_def in_unwrap_or m)
  then show ?thesis
    using that [of ?m "length rs"] m foldl_links_distinct [of "[]" rs] by (simp add: read_actual_file_links_def rs)
qed

lemma edges_ok:
  assumes "sound S"
  obtains es where "read_actual_edges A S = Ok es" "set es = edged view S"
proof -
  have "healthy (tree_for S ''graph:edge:'')"
    using assms by (simp add: sound_def tree_for_def tree_of_def split: Durability.split)
  then obtain kvs where "kv_range A (tree_for S ''graph:edge:'') ''graph:edge:'' (prefix_end ''graph:edge:'') = Inr kvs"
    using range_healthy by blast
  then obtain ks where ks: "scan_keys A S ''graph:edge:'' = Inr ks" by (simp add: scan_keys_def)
  have sk: "set ks = {k. starts_with k ''graph:edge:'' \<and> utf8_ok k \<and> k \<in> dom (content S)}"
    by (rule scan_keys_set(1) [OF ks link_prefixes(3) link_prefix_class(3)])
  have "starts_with k ''graph:edge:''" if "edge_pair k = Some p" for k p
  proof -
    have "strip_prefix k ''graph:edge:'' \<noteq> None" using that by (cases "strip_prefix k ''graph:edge:''") (simp_all add: edge_pair_def from_key_def)
    then show ?thesis by (simp add: strip_prefix_def split: if_splits)
  qed
  then have "edged view S = set (List.map_filter edge_pair ks)"
    unfolding set_map_filter sk edged_def by blast
  then show ?thesis using that by (simp add: read_actual_edges_def ks foldl_insort_set)
qed

lemma check_exact:
  assumes "sound S" and "keyed S"
  obtains rep where "check_gotcha_indexes A J G S = Ok rep"
    "has_drift rep \<longleftrightarrow> \<not> (linked A view J S = wanted A view G S \<and> edged view S = wanted A view G S)"
    "total_drift rep = 0 \<longleftrightarrow> \<not> has_drift rep"
    "set (missing_edges rep) = (\<lambda>(p, k). drift_entry p k) ` (wanted A view G S - edged view S)"
    "set (stale_edges rep) = (\<lambda>(p, k). drift_entry p k) ` (edged view S - wanted A view G S)"
    "\<not> dirty_marker_cleared rep" "verification_passed rep"
proof -
  obtain D E n where d: "derive_desired_state A G S = Ok (D, E, n)" "distinct (map fst D)"
    "links_in D = wanted A view G S" "set E = wanted A view G S"
    using desired_ok [OF assms(1)] .
  obtain m n' where m: "read_actual_file_links A J S = Ok (m, n')" "distinct (map fst m)" "links_in m = linked A view J S"
    using actual_ok [OF assms] by metis
  obtain es where es: "read_actual_edges A S = Ok es" "set es = edged view S" using edges_ok [OF assms(1)] .
  let ?rep = "\<lparr> scanned_gotchas = n, scanned_files = n', missing_file_links = fst (diff_file_links D m),
      stale_file_links = snd (diff_file_links D m), missing_edges = fst (diff_edges E es),
      stale_edges = snd (diff_edges E es), repaired_count = 0, verification_passed = True, dirty_marker_cleared = False \<rparr>"
  have "check_gotcha_indexes A J G S = Ok ?rep"
    by (simp add: check_gotcha_indexes_def d(1) m(1) es(1) Let_def)
  moreover have "has_drift ?rep \<longleftrightarrow> \<not> (linked A view J S = wanted A view G S \<and> edged view S = wanted A view G S)"
    using links_diff_nil [OF d(2) m(2)] edges_diff_nil [of E es] d(3,4) m(3) es(2)
    unfolding has_drift_def RepairReport.simps by (metis subset_antisym order_refl)
  moreover have "total_drift ?rep = 0 \<longleftrightarrow> \<not> has_drift ?rep"
    by (auto simp: total_drift_def has_drift_def)
  moreover have "set (missing_edges ?rep) = (\<lambda>(p, k). drift_entry p k) ` (wanted A view G S - edged view S)"
    "set (stale_edges ?rep) = (\<lambda>(p, k). drift_entry p k) ` (edged view S - wanted A view G S)"
    by (auto simp: diff_edges_def d(4) es(2))
  ultimately show ?thesis using that by simp
qed

end

end
