(* ===== verification/Store_Spec.thy ===== *)
theory Store_Spec
  imports Store_Laws
begin

section \<open>Properties of the store\<close>

text \<open>
  The store's contract, for every library that satisfies \<open>store_laws\<close>. The client lemmas are proved
  inside the locale; the theorems restate them with the locale as a hypothesis, and their witnesses
  discharge it with the in-memory tree.
\<close>

lemma knowledge_ns_closed:
  assumes "p \<in> set KNOWLEDGE_NAMESPACES"
  shows "ascii_prefix p" and "starts_with k p \<Longrightarrow> for_key k = for_key p"
  using assms
  by (auto simp: KNOWLEDGE_NAMESPACES_def starts_with_iff for_key_def ascii_prefix_def)

context store_laws
begin

lemma put_get:
  assumes "sound S" and "store_put A S k r = (S', Inr u)"
  shows "store_get A S' k' = (if k' = k then Ok (Some r) else store_get A S k')"
proof -
  obtain b where "enc_record A r = Some b" "content S' = (content S)(k \<mapsto> b)" "sound S'"
    using store_put_ok [OF assms(2)] assms(1) by metis
  then show ?thesis using assms(1) by (simp add: store_get_content decode_as_def dec_enc)
qed

lemma delete_get:
  assumes "sound S" and "store_delete A S k = (S', r)" and "\<nexists>m. r = Inl (KvError m)"
  shows "store_get A S' k' = (if k' = k then Ok None else store_get A S k')"
proof -
  have "content S' = (content S)(k := None)"
    using store_delete_content [OF assms(2)] assms(3) by (auto split: sum.splits store_error.splits)
  moreover have "sound S'"
    using assms(1,2) sound_commit_on
    by (auto simp: store_delete_def Let_def split: prod.splits sum.splits search_outcome.splits if_splits)
  ultimately show ?thesis using assms(1) by (simp add: store_get_content decode_as_def)
qed

lemma collect_loop:
  assumes "foldl (\<lambda>acc ns. rbind acc (\<lambda>rs. rbind (scan_prefix A S ns)
             (\<lambda>recs. Ok (rs @ filter P recs)))) acc nss = Inr out"
  shows "\<exists>rs0. acc = Inr rs0 \<and> (\<forall>ns\<in>set nss. \<exists>recs. scan_prefix A S ns = Inr recs)
         \<and> set out = set rs0 \<union> {r. P r \<and> (\<exists>ns\<in>set nss. \<exists>recs. scan_prefix A S ns = Inr recs \<and> r \<in> set recs)}"
  using assms
proof (induction nss arbitrary: acc)
  case (Cons ns nss)
  show ?case using Cons.IH [of "rbind acc (\<lambda>rs. rbind (scan_prefix A S ns) (\<lambda>recs. Ok (rs @ filter P recs)))"]
      Cons.prems by (auto simp: rbind_Inr_iff)
qed simp

text \<open>A record of a knowledge namespace, by what the store holds.\<close>

lemma records_since_ok:
  assumes "records_since A S ts limit = Inr rs"
  shows "sorted_wrt (\<lambda>a b. r_updated_at b < r_updated_at a \<or> r_updated_at a = r_updated_at b \<and> r_key a \<le> r_key b) rs"
    and "limit = 0 \<Longrightarrow> set rs = {r. ts \<le> r_updated_at r \<and> (\<exists>k v. is_knowledge_key k \<and> content S k = Some v \<and> dec_record A v = Some r)}"
    and "limit \<noteq> 0 \<Longrightarrow> length rs \<le> limit"
proof -
  obtain out where c: "foldl (\<lambda>acc ns. rbind acc (\<lambda>rs. rbind (scan_prefix A S ns)
             (\<lambda>recs. Ok (rs @ filter (\<lambda>r. ts \<le> r_updated_at r) recs)))) (Ok []) KNOWLEDGE_NAMESPACES = Inr out"
    and rs: "rs = (let s = sort_key (\<lambda>r. (- uint (r_updated_at r), r_key r)) out
                   in if 0 < limit \<and> limit < length s then take limit s else s)"
    using assms unfolding records_since_def Let_def by (auto simp: rbind_Inr_iff)
  let ?le = "\<lambda>a b. r_updated_at b < r_updated_at a \<or> r_updated_at a = r_updated_at b \<and> r_key a \<le> (r_key b :: string)"
  let ?s = "sort_key (\<lambda>r. (- uint (r_updated_at r), r_key r)) out"
  have "sorted_wrt ?le ?s"
    using sorted_sort_key [of "\<lambda>r. (- uint (r_updated_at r), r_key r)" out]
    by (auto simp: sorted_map less_eq_prod_simp word_less_def word_uint_eq_iff
        elim!: sorted_wrt_mono_rel [rotated])
  then show "sorted_wrt ?le rs" by (auto simp: rs Let_def sorted_wrt_take)
  have nk: "is_knowledge_key k \<longleftrightarrow> (\<exists>p\<in>set KNOWLEDGE_NAMESPACES. starts_with k p)" for k
    by (auto simp: is_knowledge_key_def KNOWLEDGE_NAMESPACES_def)
  have sp: "set recs = {r. \<exists>k v. starts_with k p \<and> content S k = Some v \<and> dec_record A v = Some r}"
    if "p \<in> set KNOWLEDGE_NAMESPACES" "scan_prefix A S p = Inr recs" for p recs
    using scan_prefix_set [OF that(2)] knowledge_ns_closed [OF that(1)] by blast
  have "set out = {r. ts \<le> r_updated_at r \<and> (\<exists>k v. is_knowledge_key k \<and> content S k = Some v \<and> dec_record A v = Some r)}"
    using collect_loop [OF c] sp by (fastforce simp: nk)
  then show "set rs = {r. ts \<le> r_updated_at r \<and> (\<exists>k v. is_knowledge_key k \<and> content S k = Some v \<and> dec_record A v = Some r)}"
    if "limit = 0" using that by (simp add: rs Let_def)
  show "length rs \<le> limit" if "limit \<noteq> 0" using that by (auto simp: rs Let_def)
qed

end

subsection \<open>Demonstration data\<close>

definition demo_record :: "string \<Rightarrow> u64 \<Rightarrow> jvalue Record" where
  "demo_record k ts = layer0_file_stub k 7 1 ts"

type_synonym demo_state = "((unit, jvalue) cell mem_tree, bool \<times> string list) Store"

abbreviation demo_api :: "((unit, jvalue) cell mem_tree, bool \<times> string list, (unit, jvalue) cell, jvalue) store_api" where
  "demo_api \<equiv> mem_store"

abbreviation demo_empty :: demo_state where
  "demo_empty \<equiv> empty_store"

text \<open>A store with one file record, and the store whose commits to the sessions tree fail.\<close>

definition demo_store :: demo_state where
  "demo_store = demo_empty\<lparr>knowledge := empty_tree\<lparr>mt_cells := [(''file:a.rs'', RecordCell (demo_record ''file:a.rs'' 5))]\<rparr>,
     search := (False, [''file:a.rs'']), write_seq := 1\<rparr>"

definition demo_broken :: demo_state where
  "demo_broken = demo_empty\<lparr>sessions := empty_tree\<lparr>mt_commit_fails := True\<rparr>\<rparr>"

lemmas mem_eval =
  mem_store_def mem_get_def mem_commit_def mem_range_def empty_store_def empty_tree_def
  demo_store_def demo_broken_def demo_record_def layer0_file_stub_def
  store_put_def store_get_def read_record_def commit_on_def tree_for_def tree_of_def for_key_def
  is_knowledge_key_def sync_search_def set_fence_def bump_write_seq_def starts_with_def Let_def

lemma demo_put: "store_put demo_api demo_empty ''file:a.rs'' (demo_record ''file:a.rs'' 5) = (demo_store, Ok ())"
  by (simp add: mem_eval)

lemma demo_sound [simp]:
  "store_sound mem_healthy demo_empty" "store_sound mem_healthy demo_store" "store_sound mem_healthy demo_broken"
  by (simp_all add: store_sound_def mem_healthy_def mem_eval)

subsection \<open>The theorems\<close>

text \<open>
  A record that \<open>put\<close> stored is what \<open>get\<close> returns for its key, and \<open>get\<close> of every other key returns
  what it returned before, whichever tree either key routes to and whatever the search index did.
\<close>

theorem store_put_get:
  assumes "store_laws A view healthy" and "store_sound healthy S"
    and "store_put A S k r = (S', Ok ())"
  shows "store_get A S' k' = (if k' = k then Ok (Some r) else store_get A S k')"
  using store_laws.put_get [OF assms] .

theorem store_put_get_witness:
  "store_get demo_api demo_store ''file:a.rs'' = Ok (Some (demo_record ''file:a.rs'' 5))"
  using store_put_get [OF mem.store_laws_axioms demo_sound(1) demo_put, of "''file:a.rs''"] by simp

text \<open>
  A deletion that passes its transaction removes the key and no other: \<open>get\<close> of the key is \<open>None\<close>
  and \<open>get\<close> of every other key is unchanged, even when the deletion returns the index's error.
\<close>

theorem store_delete_get:
  assumes "store_laws A view healthy" and "store_sound healthy S"
    and "store_delete A S k = (S', r)" and "\<nexists>m. r = Err (KvError m)"
  shows "store_get A S' k' = (if k' = k then Ok None else store_get A S k')"
  using store_laws.delete_get [OF assms] .

theorem store_delete_get_witness:
  "store_get demo_api (fst (store_delete demo_api demo_store ''file:a.rs'')) ''file:a.rs'' = Ok None"
  by (rule trans [OF store_delete_get [OF mem.store_laws_axioms demo_sound(2) surjective_pairing]])
     (simp_all add: store_delete_def mem_eval)

text \<open>
  C33. A knowledge transaction is atomic: when it returns an error (a key of the other tree, a record
  that does not serialize, a failed commit) the store holds what it held, and when it succeeds it
  holds the transaction's writes applied in order, so a mutation and its audit entry are
  stored together or not at all.
\<close>

theorem transact_knowledge_atomic:
  assumes "store_laws A view healthy" and "transact_knowledge A S ops = (S', r)"
  shows "store_content view S' =
     (case r of Inl _ \<Rightarrow> store_content view S | Inr _ \<Rightarrow> apply_ops (op_writes A ops) (store_content view S))"
  using assms store_laws.transact_knowledge_ok(1) store_laws.transact_knowledge_err
  by (cases r) fastforce+

theorem transact_knowledge_atomic_witness:
  "store_content mem_view (fst (transact_knowledge demo_api demo_store
      [PutRaw ''audit:x'' (BytesCell ''a''), PutRaw ''session:y'' (BytesCell ''b'')])) ''audit:x'' = None"
  using fun_cong [OF transact_knowledge_atomic [OF mem.store_laws_axioms surjective_pairing, of demo_store
     "[PutRaw ''audit:x'' (BytesCell ''a''), PutRaw ''session:y'' (BytesCell ''b'')]"], of "''audit:x''"]
  by (simp add: transact_knowledge_def store_content_def mem_view_def mem_eval)

text \<open>
  A batch whose keys route to both trees is written as one transaction per tree. Success means all
  of its writes are applied in order; an error means nothing was written or exactly the writes of the
  knowledge tree, never a part of one tree's writes.
\<close>

theorem put_batch_effect:
  assumes "store_laws A view healthy" and "put_batch A S rs = (S', r)"
  shows "case r of
      Inr _ \<Rightarrow> store_content view S' = apply_ops (record_ops A rs) (store_content view S)
    | Inl _ \<Rightarrow> store_content view S' \<in> {store_content view S,
                apply_ops (record_ops A (of_class Immediate rs)) (store_content view S)}"
  using assms store_laws.put_batch_ok(1) store_laws.put_batch_err
  by (cases r) fastforce+

theorem put_batch_effect_witness:
  "store_content mem_view (fst (put_batch demo_api demo_broken
       [(''file:a.rs'', demo_record ''file:a.rs'' 5), (''session:s'', demo_record ''session:s'' 6)]))
     \<in> {store_content mem_view demo_broken,
        apply_ops (record_ops demo_api [(''file:a.rs'', demo_record ''file:a.rs'' 5)]) (store_content mem_view demo_broken)}"
  using put_batch_effect [OF mem.store_laws_axioms surjective_pairing, of demo_broken
       "[(''file:a.rs'', demo_record ''file:a.rs'' 5), (''session:s'', demo_record ''session:s'' 6)]"]
  by (simp add: put_batch_def commit_part_def of_class_def mem_eval)

text \<open>
  A prefix scan sees exactly its namespace: for a prefix that is valid UTF-8 and ends in an ASCII
  character below DEL, the keys between the prefix and \<open>prefix_end\<close> are the keys that start with it.
\<close>

theorem prefix_end_exact:
  assumes "ascii_prefix p"
  shows "p \<le> k \<and> k < prefix_end p \<longleftrightarrow> starts_with k p"
  using prefix_end_range [OF assms] by simp

theorem prefix_end_exact_witness:
  "\<not> (''dep:'' \<le> ''dev_note:x'' \<and> ''dev_note:x'' < prefix_end ''dep:'')"
  using prefix_end_exact [of "''dep:''" "''dev_note:x''"] by (simp add: ascii_prefix_def starts_with_def)

text \<open>
  \<open>records_since\<close> misses nothing and orders what it returns: without a limit the result is the set of
  the decodable records under a knowledge key updated at or after the cut-off; it is sorted by
  update time, newest first, with ties by key; a limit bounds its length.
\<close>

theorem records_since_spec:
  assumes "store_laws A view healthy" and "records_since A S ts limit = Ok rs"
  shows "sorted_wrt (\<lambda>a b. r_updated_at b < r_updated_at a
            \<or> r_updated_at a = r_updated_at b \<and> r_key a \<le> r_key b) rs
       \<and> (limit = 0 \<longrightarrow> set rs = {r. ts \<le> r_updated_at r \<and>
            (\<exists>k v. is_knowledge_key k \<and> store_content view S k = Some v \<and> dec_record A v = Some r)})
       \<and> (limit \<noteq> 0 \<longrightarrow> length rs \<le> limit)"
  using store_laws.records_since_ok [OF assms] by blast

theorem records_since_spec_witness:
  "set [demo_record ''file:a.rs'' 5] = {r. 0 \<le> r_updated_at r \<and>
      (\<exists>k v. is_knowledge_key k \<and> store_content mem_view demo_store k = Some v \<and> dec_record demo_api v = Some r)}"
proof -
  have "records_since demo_api demo_store 0 0 = Ok [demo_record ''file:a.rs'' 5]"
    by (simp add: records_since_def KNOWLEDGE_NAMESPACES_def scan_prefix_def prefix_end_def rbind_def
        map_filter_simps less_char_def less_eq_char_def mem_eval)
  from records_since_spec [OF mem.store_laws_axioms this] show ?thesis by simp
qed

text \<open>
  The crash fence after a write to a knowledge key, on a writable disk: it is down exactly when the
  index took the update, whatever it was before the write, and the write counter went up by one.
  In particular a later successful write lowers a fence that an earlier failure had raised.
\<close>

theorem put_fence:
  assumes "is_knowledge_key k" and "fs_writable S" and "store_put A S k r = (S', Ok ())"
  shows "(sync_pending S' \<longleftrightarrow> snd (sx_add A (search S) [r]) \<noteq> SearchDone) \<and> write_seq S' = write_seq S + 1"
proof -
  obtain b S1 where "commit_on A S (for_key k) [(k, Some b)] = (S1, Inr ())"
    and S': "S' = sync_search A True [r] S1"
    using assms(1,3) by (auto simp: store_put_def split: option.splits prod.splits sum.splits)
  then have "search S1 = search S" "fs_writable S1" "write_seq S1 = write_seq S"
    using assms(2) by (auto simp: commit_on_def split: prod.splits Durability.splits)
  then show ?thesis
    by (simp add: S' sync_search_def set_fence_def bump_write_seq_def Let_def split: prod.split)
qed

theorem put_fence_witness:
  "\<not> sync_pending (fst (store_put demo_api (demo_empty\<lparr>sync_pending := True\<rparr>) ''file:a.rs'' (demo_record ''file:a.rs'' 5)))"
proof -
  let ?S = "demo_empty\<lparr>sync_pending := True\<rparr>" and ?r = "demo_record ''file:a.rs'' 5"
  have "store_put demo_api ?S ''file:a.rs'' ?r = (fst (store_put demo_api ?S ''file:a.rs'' ?r), Ok ())"
    by (simp add: mem_eval)
  from put_fence [OF _ _ this] show ?thesis by (simp add: mem_eval)
qed

end
