(* ===== verification/Repair_Full.thy ===== *)
theory Repair_Full
  imports Repair_Spec Store_Spec
begin

section \<open>The full repair reaches the desired state\<close>

text \<open>
  Each of the four loops of the full repair is followed over the content of the store: rewriting the links of the
  files that gotchas name, clearing those of the others, adding the missing edges and deleting the stale
  ones. Together they make the three relations of the check the same.
\<close>

subsection \<open>One write\<close>

declare starts_with_Cons [simp del]

context repair_laws
begin

lemma extract_set_gotcha_keys:
  assumes "r_payload r = Some pl" and "j_is_object J pl"
  shows "extract_gotcha_keys J (touch now (set_gotcha_keys J r ks)) = ks"
    and "r_key (touch now (set_gotcha_keys J r ks)) = r_key r"
    and "\<exists>pl'. r_payload (touch now (set_gotcha_keys J r ks)) = Some pl' \<and> j_is_object J pl'"
  using assms by (simp_all add: extract_gotcha_keys_def set_gotcha_keys_def touch_def strings_roundtrip)

lemma extract_nonempty_object:
  "extract_gotcha_keys J r \<noteq> [] \<Longrightarrow> \<exists>pl. r_payload r = Some pl \<and> j_is_object J pl"
  using get_is_object by (fastforce simp: extract_gotcha_keys_def split: option.splits)

text \<open>A file record whose payload is an object, as every file record the program writes is.\<close>

definition object_file :: "('t, 'x) Store \<Rightarrow> string \<Rightarrow> bool" where
  "object_file S p \<longleftrightarrow> (\<exists>r pl. record_of S (file_key p) = Some r \<and> r_payload r = Some pl \<and> j_is_object J pl)"

text \<open>What the two loops over file records keep: everything but the file records themselves.\<close>

definition only_files :: "('t, 'x) Store \<Rightarrow> ('t, 'x) Store \<Rightarrow> bool" where
  "only_files S S' \<longleftrightarrow> (\<forall>k. \<not> starts_with k ''file:'' \<longrightarrow> content S' k = content S k)"

lemma rewrite_step:
  assumes "running S" and "keyed S" and "record_of S (file_key p) = Some r"
    and "r_payload r = Some pl" and "j_is_object J pl"
    and S'_def: "S' = fst (rewrite_links A J now (S, n) (file_key p) r ks)"
  shows "running S'" and "keyed S'" and "links S' q = (if q = p then ks else links S q)"
    and "object_file S q \<Longrightarrow> object_file S' q" and "only_files S S'"
proof -
  let ?r = "touch now (set_gotcha_keys J r ks)"
  note e = extract_set_gotcha_keys [OF assms(4,5), of now ks]
  obtain T b where T: "store_put A S (file_key p) ?r = (T, Ok ())" and b: "enc_record A ?r = Some b"
    and c: "content T = (content S)(file_key p \<mapsto> b)" and run: "running T"
    using put_live [OF assms(1)] .
  have S': "S' = T" by (simp add: S'_def rewrite_links_def count_ok_def T)
  have rec: "record_of T k = (if k = file_key p then Some ?r else record_of S k)" for k
    by (simp add: rec_at_def c dec_enc [OF b])
  have "r_key r = file_key p" using assms(2,3) by (simp add: files_keyed_def)
  then show "keyed S'" using assms(2) e(2) by (simp add: files_keyed_def rec S')
  show "running S'" using run S' by simp
  show "links S' q = (if q = p then ks else links S q)" by (simp add: links_at_def rec S' e(1))
  show "object_file S q \<Longrightarrow> object_file S' q" using e(3) by (auto simp: object_file_def rec S')
  show "only_files S S'" by (auto simp: only_files_def c S')
qed

lemma repair_link_step:
  assumes "running (fst pr)" and "keyed (fst pr)" and "object_file (fst pr) (fst d)"
    and S'_def: "S' = fst (repair_link A J now pr d)"
  shows "running S'" and "keyed S'" and "links S' q = (if q = fst d then snd d else links (fst pr) q)"
    and "object_file (fst pr) q \<Longrightarrow> object_file S' q" and "only_files (fst pr) S'"
proof -
  obtain r pl where r: "record_of (fst pr) (file_key (fst d)) = Some r" "r_payload r = Some pl" "j_is_object J pl"
    using assms(3) by (auto simp: object_file_def)
  have S': "S' = (if extract_gotcha_keys J r = snd d then fst pr
      else fst (rewrite_links A J now (fst pr, snd pr) (file_key (fst d)) r (snd d)))"
    unfolding S'_def repair_link_def get_record [OF running_sound [OF assms(1)]] by (simp add: r)
  have "links (fst pr) (fst d) = extract_gotcha_keys J r" by (simp add: links_at_def r)
  then show "running S'" "keyed S'" "links S' q = (if q = fst d then snd d else links (fst pr) q)"
    "object_file (fst pr) q \<Longrightarrow> object_file S' q" "only_files (fst pr) S'"
    using rewrite_step [OF assms(1,2) r refl, where now = now and n = "snd pr" and ks = "snd d"] assms(1,2) by (auto simp: S' only_files_def)
qed

lemma repair_links:
  assumes "running (fst pr)" and "keyed (fst pr)" and "distinct (map fst ds)"
    and "\<forall>d\<in>set ds. object_file (fst pr) (fst d)"
    and S'_def: "S' = fst (foldl (repair_link A J now) pr ds)"
  shows "running S' \<and> keyed S' \<and> only_files (fst pr) S'
    \<and> (\<forall>q. links S' q = (case map_of ds q of Some ks \<Rightarrow> ks | None \<Rightarrow> links (fst pr) q))"
  using assms(1-4) unfolding S'_def
proof (induction ds arbitrary: pr)
  case (Cons d ds)
  let ?p = "repair_link A J now pr d"
  note st = repair_link_step [OF Cons.prems(1,2) _ refl, where d = d and now = now]
  have d: "object_file (fst pr) (fst d)" using Cons.prems(4) by simp
  have "running (fst (foldl (repair_link A J now) ?p ds)) \<and> keyed (fst (foldl (repair_link A J now) ?p ds))
      \<and> only_files (fst ?p) (fst (foldl (repair_link A J now) ?p ds))
      \<and> (\<forall>q. links (fst (foldl (repair_link A J now) ?p ds)) q = (case map_of ds q of Some ks \<Rightarrow> ks | None \<Rightarrow> links (fst ?p) q))"
    using Cons.prems(3,4) st(4) [OF d] by (intro Cons.IH st(1,2) d) auto
  moreover have "only_files (fst pr) (fst ?p)" by (rule st(5) [OF d])
  moreover have "fst d \<notin> dom (map_of ds)" using Cons.prems(3) by (simp add: dom_map_of_conv_image_fst)
  ultimately show ?case
    using st(3) [OF d] by (cases d) (auto simp: only_files_def split: option.splits)
qed (simp add: only_files_def)

lemma clear_links_step:
  assumes "running (fst pr)" and "keyed (fst pr)" and "links (fst pr) (fst a) = snd a"
    and S'_def: "S' = fst (clear_links A J now D pr a)"
  shows "running S' \<and> keyed S' \<and> only_files (fst pr) S'
    \<and> (\<forall>q. links S' q = (if q = fst a \<and> map_of D q = None then [] else links (fst pr) q))"
proof (cases "map_of D (fst a) = None \<and> snd a \<noteq> []")
  case True
  then obtain r where r: "record_of (fst pr) (file_key (fst a)) = Some r" "extract_gotcha_keys J r \<noteq> []"
    using assms(3) by (auto simp: links_at_def split: option.splits)
  obtain pl where pl: "r_payload r = Some pl" "j_is_object J pl" using extract_nonempty_object [OF r(2)] by blast
  have S': "S' = fst (rewrite_links A J now (fst pr, snd pr) (file_key (fst a)) r [])"
    unfolding S'_def clear_links_def get_record [OF running_sound [OF assms(1)]] using True by (simp add: r)
  show ?thesis
    unfolding S' using rewrite_step [OF assms(1,2) r(1) pl refl, where now = now and n = "snd pr" and ks = "[]"] True by auto
next
  case False
  then have "S' = fst pr" by (auto simp: S'_def clear_links_def)
  then show ?thesis using False assms(1-3) by (auto simp: only_files_def)
qed

lemma clear_links_all:
  assumes "running (fst pr)" and "keyed (fst pr)" and "distinct (map fst as)"
    and "\<forall>a\<in>set as. links (fst pr) (fst a) = snd a"
    and S'_def: "S' = fst (foldl (clear_links A J now D) pr as)"
  shows "running S' \<and> keyed S' \<and> only_files (fst pr) S'
    \<and> (\<forall>q. links S' q = (if q \<in> fst ` set as \<and> map_of D q = None then [] else links (fst pr) q))"
  using assms(1-4) unfolding S'_def
proof (induction as arbitrary: pr)
  case (Cons a as)
  let ?p = "clear_links A J now D pr a"
  have a: "links (fst pr) (fst a) = snd a" using Cons.prems(4) by simp
  note st = clear_links_step [OF Cons.prems(1,2) a refl, where now = now and D = D]
  have "\<forall>b\<in>set as. links (fst ?p) (fst b) = snd b"
    using Cons.prems(3,4) st by (auto simp: image_iff)
  then have "running (fst (foldl (clear_links A J now D) ?p as)) \<and> keyed (fst (foldl (clear_links A J now D) ?p as))
      \<and> only_files (fst ?p) (fst (foldl (clear_links A J now D) ?p as))
      \<and> (\<forall>q. links (fst (foldl (clear_links A J now D) ?p as)) q
            = (if q \<in> fst ` set as \<and> map_of D q = None then [] else links (fst ?p) q))"
    using Cons.prems(3) st by (intro Cons.IH) auto
  then show ?case using st by (auto simp: only_files_def)
qed (simp add: only_files_def)

end

subsection \<open>Edges\<close>

definition entry_key :: "DriftEntry \<Rightarrow> string" where
  "entry_key e = to_key (gotcha_edge (d_file_path e) (d_gotcha_key e))"

lemma entry_key_drift [simp]: "entry_key (drift_entry p k) = to_key (gotcha_edge p k)"
  by (simp add: entry_key_def drift_entry_def)

lemma gotcha_edge_simps [simp]:
  "from_node (gotcha_edge p k) = file_key p" "edge_kind (gotcha_edge p k) = HasGotcha" "to_node (gotcha_edge p k) = k"
  by (simp_all add: gotcha_edge_def)

lemma gotcha_edge_inject [simp]: "gotcha_edge p k = gotcha_edge p' k' \<longleftrightarrow> p = p' \<and> k = k'"
  by (simp add: gotcha_edge_def)

lemma edge_pair_key: "storable (gotcha_edge p k) \<Longrightarrow> edge_pair (to_key (gotcha_edge p k)) = Some (p, k)"
  by (simp add: storable_def edge_pair_def)

lemma edge_key_other:
  "\<not> starts_with (to_key e) ''file:''" "\<not> starts_with (to_key e) ''gotcha:''" "to_key e \<noteq> DIRTY_MARKER_KEY"
  by (simp_all add: to_key_def starts_with_def DIRTY_MARKER_KEY_def)

text \<open>Every persisted \<open>HasGotcha\<close> edge starts at a file.\<close>

definition file_edges :: "('t \<Rightarrow> string \<rightharpoonup> 'v) \<Rightarrow> ('t, 'x) Store \<Rightarrow> bool" where
  "file_edges view S \<longleftrightarrow> (\<forall>k\<in>dom (store_content view S). \<forall>e. from_key k = Some e \<longrightarrow> edge_kind e = HasGotcha
     \<longrightarrow> starts_with (from_node e) ''file:'')"

lemma edged_iff:
  assumes "file_edges view S"
  shows "(p, k) \<in> edged view S \<longleftrightarrow> storable (gotcha_edge p k) \<and> to_key (gotcha_edge p k) \<in> dom (store_content view S)"
proof
  assume "(p, k) \<in> edged view S"
  then obtain x where x: "x \<in> dom (store_content view S)" "utf8_ok x" "edge_pair x = Some (p, k)"
    unfolding edged_def by blast
  then obtain e where e: "from_key x = Some e" "edge_kind e = HasGotcha" "p = file_path_of (from_node e)" "k = to_node e"
    by (auto simp: edge_pair_def split: option.splits if_splits)
  have "starts_with (from_node e) ''file:''" using assms x(1) e(1,2) unfolding file_edges_def by blast
  then have "e = gotcha_edge p k" using e file_key_path by (simp add: gotcha_edge_def)
  then show "storable (gotcha_edge p k) \<and> to_key (gotcha_edge p k) \<in> dom (store_content view S)"
    using to_key_from_key(1) [OF e(1)] x(1,2) e(1) by (simp add: storable_def)
next
  assume "storable (gotcha_edge p k) \<and> to_key (gotcha_edge p k) \<in> dom (store_content view S)"
  then show "(p, k) \<in> edged view S" unfolding edged_def using edge_pair_key storable_def by blast
qed

context repair_laws
begin

lemma put_edges:
  assumes "running (fst pr)"
  shows "running (fst (foldl (put_edge A now) pr es)) \<and> content (fst (foldl (put_edge A now) pr es))
    = (\<lambda>k. if k \<in> entry_key ` set es then Some (of_bytes A (to_le_bytes now)) else content (fst pr) k)"
  using assms
proof (induction es arbitrary: pr)
  case (Cons e es)
  obtain T where T: "put_raw A (fst pr) (entry_key e) (of_bytes A (to_le_bytes now)) = (T, Ok ())"
    "content T = (content (fst pr))(entry_key e \<mapsto> of_bytes A (to_le_bytes now))" "running T"
    using put_raw_live [OF Cons.prems] .
  have s: "fst (put_edge A now pr e) = T" by (simp add: put_edge_def count_ok_def entry_key_def [symmetric] T(1))
  show ?case using Cons.IH [of "put_edge A now pr e"] T(2,3) by (auto simp: s fun_eq_iff)
qed (simp add: fun_eq_iff)

lemma drop_edges:
  assumes "running (fst pr)"
  shows "running (fst (foldl (drop_edge A) pr es)) \<and> content (fst (foldl (drop_edge A) pr es))
    = (\<lambda>k. if k \<in> entry_key ` set es then None else content (fst pr) k)"
  using assms
proof (induction es arbitrary: pr)
  case (Cons e es)
  have s: "fst (drop_edge A pr e) = fst (store_delete A (fst pr) (entry_key e))"
    by (simp add: drop_edge_def count_ok_def entry_key_def)
  show ?case using Cons.IH [of "drop_edge A pr e"] delete_live [OF Cons.prems, of "entry_key e"]
    by (auto simp: s fun_eq_iff)
qed (simp add: fun_eq_iff)

text \<open>Writing the marker changes none of the three relations.\<close>

lemma write_marker_content:
  assumes "k \<noteq> DIRTY_MARKER_KEY"
  shows "content (write_marker A M st S val m) k = content S k"
proof (cases "store_put A S DIRTY_MARKER_KEY (analytics_stub DIRTY_MARKER_KEY val (to_value M m) (st_now st) st)")
  case (Pair T res)
  show ?thesis
  proof (cases res)
    case (Inl e)
    then show ?thesis using store_put_err Pair by (simp add: write_marker_def)
  next
    case (Inr u)
    obtain b where "content T = (content S)(DIRTY_MARKER_KEY \<mapsto> b)" using store_put_ok [OF Pair [unfolded Inr]] .
    then show ?thesis using assms Pair by (simp add: write_marker_def)
  qed
qed

lemma relations_cong:
  assumes "\<And>k. starts_with k ''gotcha:'' \<Longrightarrow> content S' k = content S k"
  shows "wanted A view G S' = wanted A view G S"
  using assms by (simp add: wanted_def rec_at_def cong: conj_cong)

lemma linked_cong:
  assumes "\<And>k. starts_with k ''file:'' \<Longrightarrow> content S' k = content S k"
  shows "linked A view J S' = linked A view J S" and "keyed S' = keyed S" and "links S' = links S"
  using assms by (simp_all add: linked_def links_at_def rec_at_def files_keyed_def fun_eq_iff)

lemma edged_cong:
  assumes "\<And>k. starts_with k ''graph:edge:'' \<Longrightarrow> content S' k = content S k"
  shows "edged view S' = edged view S"
proof -
  have "starts_with k ''graph:edge:''" if "edge_pair k = Some p" for k p
    using that by (auto simp: edge_pair_def from_key_def strip_prefix_def split: option.splits if_splits)
  then have "edge_pair k = Some p \<Longrightarrow> k \<in> dom (content S') \<longleftrightarrow> k \<in> dom (content S)" for k p
    using assms by (metis domIff)
  then show ?thesis unfolding edged_def by blast
qed

lemma clear_marker_frame:
  "k \<noteq> DIRTY_MARKER_KEY \<Longrightarrow> content (clear_dirty_marker A M st S) k = content S k"
  by (simp add: clear_dirty_marker_def write_marker_content split: option.split)

lemma marker_key_other:
  "starts_with k ''gotcha:'' \<or> starts_with k ''file:'' \<or> starts_with k ''graph:edge:'' \<Longrightarrow> k \<noteq> DIRTY_MARKER_KEY"
  by (auto simp: DIRTY_MARKER_KEY_def starts_with_def)

lemma clear_marker_relations:
  "wanted A view G (clear_dirty_marker A M st S) = wanted A view G S"
  "linked A view J (clear_dirty_marker A M st S) = linked A view J S"
  "edged view (clear_dirty_marker A M st S) = edged view S"
proof -
  show "wanted A view G (clear_dirty_marker A M st S) = wanted A view G S"
    by (rule relations_cong) (simp add: clear_marker_frame marker_key_other)
  show "linked A view J (clear_dirty_marker A M st S) = linked A view J S"
    by (rule linked_cong) (simp add: clear_marker_frame marker_key_other)
  show "edged view (clear_dirty_marker A M st S) = edged view S"
    by (rule edged_cong) (simp add: clear_marker_frame marker_key_other)
qed

text \<open>The relations after the four loops.\<close>

lemma repair_loops:
  assumes "running S" and "keyed S" and "derive_desired_state A G S = Ok (D, E, n)" and "distinct (map fst D)"
    and "links_in D = wanted A view G S"
    and "\<forall>d\<in>set D. object_file S (fst d)"
    and "\<forall>(p, k) \<in> wanted A view G S. storable (gotcha_edge p k)" and "file_edges view S"
    and "set me = (\<lambda>(p, k). drift_entry p k) ` (wanted A view G S - edged view S)"
    and "set se = (\<lambda>(p, k). drift_entry p k) ` (edged view S - wanted A view G S)"
    and "read_actual_file_links A J (fst (foldl (repair_link A J now) (S, 0) D)) = Ok (m2, n2)"
    and T_def: "T = fst (foldl (drop_edge A) (foldl (put_edge A now)
      (foldl (clear_links A J now D) (foldl (repair_link A J now) (S, 0) D) m2) me) se)"
  shows "running T \<and> keyed T \<and> wanted A view G T = wanted A view G S
    \<and> linked A view J T = wanted A view G S \<and> edged view T = wanted A view G S"
proof -
  let ?W = "wanted A view G S" and ?p1 = "foldl (repair_link A J now) (S, 0) D"
  let ?p2 = "foldl (clear_links A J now D) ?p1 m2"
  let ?p3 = "foldl (put_edge A now) ?p2 me"
  have 1: "running (fst ?p1) \<and> keyed (fst ?p1) \<and> only_files S (fst ?p1)
    \<and> (\<forall>q. links (fst ?p1) q = (case map_of D q of Some ks \<Rightarrow> ks | None \<Rightarrow> links S q))"
    using repair_links [OF _ _ assms(4) _ refl, of "(S, 0)" now] assms(1,2,6) by (simp only: fst_conv) simp
  then obtain m n' where m: "read_actual_file_links A J (fst ?p1) = Ok (m, n')" "distinct (map fst m)"
    "\<And>p ks. map_of m p = Some ks \<longleftrightarrow> ks \<noteq> [] \<and> links (fst ?p1) p = ks"
    using actual_ok [of "fst ?p1"] running_sound by metis
  then have [simp]: "m = m2" using assms(11) by simp
  have 2: "running (fst ?p2) \<and> keyed (fst ?p2) \<and> only_files (fst ?p1) (fst ?p2)
    \<and> (\<forall>q. links (fst ?p2) q = (if q \<in> fst ` set m2 \<and> map_of D q = None then [] else links (fst ?p1) q))"
  proof (rule clear_links_all [OF _ _ _ _ refl])
    have m2: "distinct (map fst m2)" using m(2) by simp
    then show "distinct (map fst m2)" .
    show "\<forall>a\<in>set m2. links (fst ?p1) (fst a) = snd a"
    proof
      fix a assume "a \<in> set m2"
      then have "map_of m2 (fst a) = Some (snd a)" using m2 by simp
      then show "links (fst ?p1) (fst a) = snd a" using m(3) by simp
    qed
  qed (use 1 in blast)+
  have mem: "q \<in> fst ` set m2 \<longleftrightarrow> links (fst ?p1) q \<noteq> []" for q
  proof -
    have "q \<in> fst ` set m2 \<longleftrightarrow> map_of m2 q \<noteq> None" by (metis domIff dom_map_of_conv_image_fst)
    also have "\<dots> \<longleftrightarrow> (\<exists>ks. ks \<noteq> [] \<and> links (fst ?p1) q = ks)" using m(3) [of q] by auto
    finally show ?thesis by simp
  qed
  have L: "links (fst ?p2) q = unwrap_or (map_of D q) []" for q
  proof (cases "map_of D q")
    case None
    then show ?thesis using 2 mem [of q] by auto
  next
    case (Some ks)
    then show ?thesis using 1 2 by simp
  qed
  note 3 = put_edges [of ?p2 now me]
  note 4 = drop_edges [of ?p3 se]
  have cT: "content T k = (if k \<in> entry_key ` set se then None
      else if k \<in> entry_key ` set me then Some (of_bytes A (to_le_bytes now)) else content (fst ?p2) k)" for k
    using 2 3 4 by (simp add: T_def)
  have run: "running T" using 2 3 4 by (simp add: T_def)
  have ne: "k \<notin> entry_key ` X" if "starts_with k ''file:'' \<or> starts_with k ''gotcha:''" for k X
    using that edge_key_other unfolding entry_key_def by blast
  have "keyed T" "linked A view J T = linked A view J (fst ?p2)"
    using linked_cong [of T "fst ?p2"] 2 by (simp_all add: cT ne)
  moreover have "linked A view J (fst ?p2) = ?W"
    using assms(5) by (simp add: linked_def links_in_def L)
  moreover have "wanted A view G T = ?W"
  proof (rule relations_cong)
    fix k assume k: "starts_with k ''gotcha:''"
    then have "\<not> starts_with k ''file:''" by (auto simp: starts_with_iff)
    then show "content T k = content S k" using 1 2 k by (simp add: cT ne only_files_def)
  qed
  moreover have "edged view T = ?W"
  proof -
    have c2: "content (fst ?p2) k = content S k" if "\<not> starts_with k ''file:''" for k
      using 1 2 that by (simp add: only_files_def)
    have me: "entry_key ` set me = (\<lambda>(p, k). to_key (gotcha_edge p k)) ` (?W - edged view S)"
      and se: "entry_key ` set se = (\<lambda>(p, k). to_key (gotcha_edge p k)) ` (edged view S - ?W)"
      unfolding assms(9,10) by (force simp: image_iff)+
    have stor: "storable (gotcha_edge p k)" if "(p, k) \<in> ?W \<or> (p, k) \<in> edged view S" for p k
      using that assms(7) edged_iff [OF assms(8)] by blast
    have dom: "to_key (gotcha_edge p k) \<in> dom (content T) \<longleftrightarrow> (p, k) \<in> ?W" if st: "storable (gotcha_edge p k)" for p k
    proof -
      have i: "to_key (gotcha_edge p k) \<in> (\<lambda>(p, k). to_key (gotcha_edge p k)) ` X \<longleftrightarrow> (p, k) \<in> X"
        if "\<And>p k. (p, k) \<in> X \<Longrightarrow> storable (gotcha_edge p k)" for X
        using that storable_key_inject [OF st] by (force simp: image_iff)
      have k1: "to_key (gotcha_edge p k) \<in> entry_key ` set me \<longleftrightarrow> (p, k) \<in> ?W - edged view S"
        unfolding me by (rule i) (use stor in blast)
      have k2: "to_key (gotcha_edge p k) \<in> entry_key ` set se \<longleftrightarrow> (p, k) \<in> edged view S - ?W"
        unfolding se by (rule i) (use stor in blast)
      show ?thesis
        using st edged_iff [OF assms(8), of p k] by (auto simp: dom_def cT k1 k2 c2 edge_key_other)
    qed
    have "file_edges view T"
      unfolding file_edges_def
    proof (intro ballI allI impI)
      fix k e assume k: "k \<in> dom (content T)" and e: "from_key k = Some e" "edge_kind e = HasGotcha"
      have "\<not> starts_with k ''file:''"
        using to_key_from_key(1) [OF e(1)] edge_key_other(1) by metis
      then have "k \<in> dom (content S) \<or> k \<in> entry_key ` set me"
        using k by (auto simp: dom_def cT c2 split: if_splits)
      then show "starts_with (from_node e) ''file:''"
      proof
        assume "k \<in> entry_key ` set me"
        then obtain p q where "k = to_key (gotcha_edge p q)" "(p, q) \<in> ?W" unfolding me by auto
        then have "e = gotcha_edge p q" using stor e(1) by (simp add: storable_def)
        then show ?thesis by simp
      qed (use assms(8) e in \<open>auto simp: file_edges_def\<close>)
    qed
    note eT = edged_iff [OF this]
    show ?thesis
    proof (rule set_eqI)
      fix x :: "string \<times> string"
      obtain p k where x: "x = (p, k)" by (cases x)
      show "x \<in> edged view T \<longleftrightarrow> x \<in> ?W" unfolding x eT using dom stor by metis
    qed
  qed
  ultimately show ?thesis using run by simp
qed

end

context repair_laws
begin

definition filled :: "link_map \<Rightarrow> bool" where
  "filled m \<longleftrightarrow> (\<forall>d\<in>set m. snd d \<noteq> [])"

lemma filled_add: "filled m \<Longrightarrow> filled (add_link m path key)"
proof -
  have u: "filled m \<Longrightarrow> v \<noteq> [] \<Longrightarrow> filled (AList.update path v m)" for v
    by (induction m) (auto simp: filled_def)
  have "List.insort_insert key xs \<noteq> []" for xs :: "string list"
    using set_insort_insert [of key xs] by auto
  then show "filled m \<Longrightarrow> filled (add_link m path key)" unfolding add_link_def using u by blast
qed

lemma filled_desire:
  assumes "filled (fst acc)" shows "filled (fst (desire_gotcha G acc r))"
proof -
  have "filled (fst (foldl (\<lambda>acc path. (add_link (fst acc) path k, List.insort_insert (path, k) (snd acc))) acc ps))" for k ps
    using assms by (induction ps arbitrary: acc) (simp_all add: filled_add)
  then show ?thesis using assms by (simp add: desire_gotcha_def split: option.split)
qed

lemma desired_filled:
  assumes "derive_desired_state A G S = Ok (D, E, n)" shows "filled D"
proof -
  obtain rs where D: "D = fst (foldl (desire_gotcha G) ([], []) rs)"
    using assms by (auto simp: derive_desired_state_def rbind_Inr_iff Let_def)
  have "filled (fst (foldl (desire_gotcha G) acc rs))" if "filled (fst acc)" for acc
    using that by (induction rs arbitrary: acc) (simp_all add: filled_desire)
  from this [of "([], [])"] show ?thesis by (simp add: D filled_def)
qed

text \<open>What every write of the repair keeps, whether it succeeds or fails.\<close>

definition readable :: "('t, 'x) Store \<times> nat \<Rightarrow> bool" where
  "readable p \<longleftrightarrow> sound (fst p) \<and> keyed (fst p)"

lemma readable_put:
  assumes "readable (S, n)" and "store_put A S k r = (S', res)" and "starts_with k ''file:'' \<longrightarrow> r_key r = k"
  shows "readable (S', n')"
proof (cases res)
  case (Inl e)
  have "sound S' = sound S" using assms(2) by (auto simp: store_put_def dest: sound_commit_on split: option.splits prod.splits sum.splits)
  then show ?thesis using assms(1) linked_cong(2) [of S' S] store_put_err [of S k r S' e] assms(2) Inl by (simp add: readable_def)
next
  case (Inr u)
  obtain b where b: "enc_record A r = Some b" "content S' = (content S)(k \<mapsto> b)" "sound S' = sound S"
    using store_put_ok assms(2) Inr by metis
  then have "record_of S' k' = (if k' = k then Some r else record_of S k')" for k'
    using dec_enc by (simp add: rec_at_def)
  then show ?thesis using assms(1,3) b(3) by (auto simp: readable_def files_keyed_def)
qed

lemma readable_rewrite:
  assumes "readable p" and "starts_with k ''file:'' \<longrightarrow> r_key r = k"
  shows "readable (rewrite_links A J now p k r ks)"
proof -
  have "r_key (touch now (set_gotcha_keys J r ks)) = r_key r"
    by (simp add: touch_def set_gotcha_keys_def split: option.split)
  then show ?thesis
    using assms readable_put [of "fst p" "snd p" k "touch now (set_gotcha_keys J r ks)"]
    by (cases "store_put A (fst p) k (touch now (set_gotcha_keys J r ks))") (simp add: rewrite_links_def count_ok_def)
qed

lemma readable_get:
  assumes "readable p" and "store_get A (fst p) (file_key q) = Inr (Some r)"
  shows "r_key r = file_key q"
  using assms by (auto simp: readable_def store_get_content decode_as_def files_keyed_def rec_at_def split: option.splits)

lemma readable_steps:
  assumes "readable p"
  shows "readable (repair_link A J now p d)" and "readable (clear_links A J now D p d)"
    and "readable (put_edge A now p e)" and "readable (drop_edge A p e)"
proof -
  show "readable (repair_link A J now p d)"
    using assms readable_get [OF assms] by (auto simp: repair_link_def split: sum.split option.split intro!: readable_rewrite)
  show "readable (clear_links A J now D p d)"
    using assms readable_get [OF assms] by (auto simp: clear_links_def split: sum.split option.split intro!: readable_rewrite)
  have other: "k \<noteq> entry_key e" if "starts_with k ''file:''" for k using that edge_key_other by (auto simp: entry_key_def)
  show "readable (put_edge A now p e)"
  proof (cases "put_raw A (fst p) (entry_key e) (of_bytes A (to_le_bytes now))")
    case (Pair T res)
    have "keyed T = keyed (fst p)"
      by (rule linked_cong) (use Pair put_raw_ok put_raw_err other in \<open>cases res; fastforce\<close>)
    moreover have "sound T = sound (fst p)" using Pair by (auto simp: put_raw_def dest: sound_commit_on)
    ultimately show ?thesis using assms Pair by (simp add: readable_def put_edge_def count_ok_def entry_key_def)
  qed
  show "readable (drop_edge A p e)"
  proof (cases "store_delete A (fst p) (entry_key e)")
    case (Pair T res)
    have "keyed T = keyed (fst p)"
      by (rule linked_cong) (use store_delete_content [OF Pair] other in \<open>auto split: sum.splits store_error.splits\<close>)
    moreover have "sound T = sound (fst p)"
      using Pair by (auto simp: store_delete_def Let_def dest: sound_commit_on split: prod.splits sum.splits search_outcome.splits if_splits)
    ultimately show ?thesis using assms Pair by (simp add: readable_def drop_edge_def count_ok_def entry_key_def)
  qed
qed

lemma foldl_keeps: "(\<And>p x. I p \<Longrightarrow> I (f p x)) \<Longrightarrow> I p \<Longrightarrow> I (foldl f p xs)"
  by (induction xs arbitrary: p) simp_all

text \<open>A repair that reports success has made the three relations the same, whatever failed on the way.\<close>

lemma repair_full_verified:
  assumes "repair_full A J G M st S = (S', Ok rep)" and "verification_passed rep" and "sound S" and "keyed S"
  shows "linked A view J S' = wanted A view G S' \<and> edged view S' = wanted A view G S'"
proof -
  obtain D E n where d: "derive_desired_state A G S = Ok (D, E, n)" using desired_ok [OF assms(3)] by metis
  obtain rep0 where rep: "check_gotcha_indexes A J G S = Ok rep0"
    "has_drift rep0 \<longleftrightarrow> \<not> (linked A view J S = wanted A view G S \<and> edged view S = wanted A view G S)"
    "total_drift rep0 = 0 \<longleftrightarrow> \<not> has_drift rep0"
    using check_exact [OF assms(3,4)] by metis
  show ?thesis
  proof (cases "total_drift rep0 = 0")
    case True
    then have "S' = clear_dirty_marker A M st S" using assms(1) by (simp add: repair_full_def rep(1) d)
    then show ?thesis using True rep(2,3) clear_marker_relations by simp
  next
    case False
    let ?p1 = "foldl (repair_link A J (st_now st)) (S, 0) D"
    have p1: "readable ?p1"
      by (rule foldl_keeps [where I = readable], rule readable_steps(1)) (use assms(3,4) in \<open>simp_all add: readable_def\<close>)
    obtain m2 n2 where m2: "read_actual_file_links A J (fst ?p1) = Ok (m2, n2)"
      using actual_ok [of "fst ?p1"] p1 readable_def by metis
    define p4 where "p4 = foldl (drop_edge A) (foldl (put_edge A (st_now st))
      (foldl (clear_links A J (st_now st) D) ?p1 m2) (missing_edges rep0)) (stale_edges rep0)"
    have "readable p4" unfolding p4_def by (intro foldl_keeps [where I = readable] readable_steps p1)
    then obtain v where v: "check_gotcha_indexes A J G (fst p4) = Ok v"
      "has_drift v \<longleftrightarrow> \<not> (linked A view J (fst p4) = wanted A view G (fst p4) \<and> edged view (fst p4) = wanted A view G (fst p4))"
      using check_exact [of "fst p4" G] readable_def by metis
    have "repair_full A J G M st S = (if \<not> has_drift v then clear_dirty_marker A M st (fst p4) else fst p4,
        Ok (rep0\<lparr> repaired_count := snd p4, verification_passed := \<not> has_drift v, dirty_marker_cleared := \<not> has_drift v \<rparr>))"
      using False v(1) by (simp add: repair_full_def rep(1) d m2 Let_def p4_def [symmetric])
    then show ?thesis using assms(1,2) v(2) clear_marker_relations by (auto split: if_splits)
  qed
qed

lemma repair_full_converges:
  assumes "running S" and "keyed S"
    and "\<forall>(p, k) \<in> wanted A view G S. object_file S p \<and> storable (gotcha_edge p k)" and "file_edges view S"
  obtains S' rep where "repair_full A J G M st S = (S', Ok rep)" "verification_passed rep" "dirty_marker_cleared rep"
    "wanted A view G S' = wanted A view G S" "linked A view J S' = wanted A view G S" "edged view S' = wanted A view G S"
proof -
  let ?W = "wanted A view G S"
  have snd: "sound S" using assms(1) by (rule running_sound)
  obtain D E n where d: "derive_desired_state A G S = Ok (D, E, n)" "distinct (map fst D)" "links_in D = ?W"
    using desired_ok [OF snd] by metis
  obtain rep where rep: "check_gotcha_indexes A J G S = Ok rep"
    "has_drift rep \<longleftrightarrow> \<not> (linked A view J S = ?W \<and> edged view S = ?W)" "total_drift rep = 0 \<longleftrightarrow> \<not> has_drift rep"
    "set (missing_edges rep) = (\<lambda>(p, k). drift_entry p k) ` (?W - edged view S)"
    "set (stale_edges rep) = (\<lambda>(p, k). drift_entry p k) ` (edged view S - ?W)"
    "verification_passed rep"
    using check_exact [OF snd assms(2)] by metis
  show ?thesis
  proof (cases "total_drift rep = 0")
    case True
    then have r: "repair_full A J G M st S = (clear_dirty_marker A M st S, Ok (rep\<lparr>dirty_marker_cleared := True\<rparr>))"
      by (simp add: repair_full_def rep(1) d(1))
    show ?thesis by (rule that [OF r]) (use True rep(2,3,6) clear_marker_relations in simp_all)
  next
    case False
    let ?p1 = "foldl (repair_link A J (st_now st)) (S, 0) D"
    have obj: "\<forall>e\<in>set D. object_file S (fst e)"
    proof
      fix e assume e: "e \<in> set D"
      then have "map_of D (fst e) = Some (snd e)" using d(2) by simp
      moreover have "snd e \<noteq> []" using desired_filled [OF d(1)] e by (simp add: filled_def)
      ultimately obtain k where "(fst e, k) \<in> links_in D" by (auto simp: links_in_def intro: hd_in_set)
      then show "object_file S (fst e)" using assms(3) d(3) by blast
    qed
    have p1: "running (fst ?p1)" "keyed (fst ?p1)"
      using repair_links [OF _ _ d(2) _ refl, of "(S, 0)" "st_now st"] assms(1,2) obj by simp_all
    obtain m2 n2 where m2: "read_actual_file_links A J (fst ?p1) = Ok (m2, n2)"
      using actual_ok [OF running_sound [OF p1(1)] p1(2)] by metis
    define T where "T = fst (foldl (drop_edge A) (foldl (put_edge A (st_now st))
      (foldl (clear_links A J (st_now st) D) ?p1 m2) (missing_edges rep)) (stale_edges rep))"
    have T: "running T \<and> keyed T \<and> wanted A view G T = ?W \<and> linked A view J T = ?W \<and> edged view T = ?W"
      using assms by (intro repair_loops [OF assms(1,2) d obj _ assms(4) rep(4,5) m2 T_def]) blast
    obtain v where v: "check_gotcha_indexes A J G T = Ok v" "\<not> has_drift v"
      using check_exact [of T G] T running_sound by metis
    have r: "repair_full A J G M st S = (clear_dirty_marker A M st T, Ok (rep\<lparr> repaired_count := snd (foldl (drop_edge A) (foldl (put_edge A (st_now st))
      (foldl (clear_links A J (st_now st) D) ?p1 m2) (missing_edges rep)) (stale_edges rep)), verification_passed := True,
        dirty_marker_cleared := True \<rparr>))"
      using False v by (simp add: repair_full_def rep(1) d(1) m2 Let_def T_def [symmetric])
    show ?thesis by (rule that [OF r]) (use T clear_marker_relations in simp_all)
  qed
qed

end

interpretation mem_repair: repair_laws mem_store mem_view mem_healthy "\<lambda>t. \<not> mt_commit_fails t" jvalue_api
  by unfold_locales

subsection \<open>Properties\<close>

text \<open>
  C11. The consistency check is exact: on a store that can be read, \<open>check_gotcha_indexes\<close> succeeds, and it
  reports drift exactly when the gotcha keys listed in the file records or the persisted \<open>HasGotcha\<close> edges are
  not the pairs of file and gotcha that the active gotcha records ask for.
\<close>

theorem check_drift_exact:
  assumes "repair_laws A view healthy live J" and "store_sound healthy S" and "files_keyed A view S"
  shows "\<exists>rep. check_gotcha_indexes A J G S = Ok rep
    \<and> (has_drift rep \<longleftrightarrow> linked A view J S \<noteq> wanted A view G S \<or> edged view S \<noteq> wanted A view G S)"
proof -
  obtain rep where "check_gotcha_indexes A J G S = Ok rep"
    "has_drift rep \<longleftrightarrow> \<not> (linked A view J S = wanted A view G S \<and> edged view S = wanted A view G S)"
    using repair_laws.check_exact [OF assms] by metis
  then show ?thesis by blast
qed

text \<open>
  The instance the properties are evaluated on: an active gotcha about a file whose record does not list it, and no
  edge. The encodings of gotchas and markers keep what the repair reads.
\<close>

definition demo_gotcha_of :: "string list \<Rightarrow> GotchaRecord" where
  "demo_gotcha_of files = \<lparr> g_rule = ''r'', g_reason = ''w'', g_severity = High, g_affected_files = files,
     g_ref_url = None, g_discovered_session = 1, g_confirmed = True \<rparr>"

definition demo_gotcha_serde :: "(jvalue, GotchaRecord) serde" where
  "demo_gotcha_serde = \<lparr> to_value = (\<lambda>g. Some (JArr (map JStr (g_affected_files g)))),
     from_value = (\<lambda>j. map_option (\<lambda>xs. demo_gotcha_of (List.map_filter jv_as_str xs)) (jv_as_array j)) \<rparr>"

definition demo_marker_of :: "jvalue \<Rightarrow> DirtyMarker option" where
  "demo_marker_of j =
     Option.bind (Option.bind (jv_get j ''dirty'') jv_as_bool) (\<lambda>d.
     Option.bind (Option.bind (jv_get j ''dirty_since'') jv_as_u64) (\<lambda>since.
     Option.bind (Option.bind (jv_get j ''cause'') jv_as_str) (\<lambda>c.
     Option.bind (Option.bind (jv_get j ''affected_keys'') jv_as_array) (\<lambda>ks.
     Option.bind (Option.bind (jv_get j ''last_checked_at'') jv_as_u64) (\<lambda>ch.
     Option.bind (Option.bind (jv_get j ''last_repaired_at'') jv_as_u64) (\<lambda>re.
       Some \<lparr> dirty = d, dirty_since = since, cause = c, affected_keys = List.map_filter jv_as_str ks,
              last_checked_at = ch, last_repaired_at = re \<rparr>))))))"

definition demo_marker_serde :: "(jvalue, DirtyMarker) serde" where
  "demo_marker_serde = \<lparr> to_value = (\<lambda>m. Some (JObj [(''dirty'', JBool (dirty m)), (''dirty_since'', JPos (dirty_since m)),
       (''cause'', JStr (cause m)), (''affected_keys'', JArr (map JStr (affected_keys m))),
       (''last_checked_at'', JPos (last_checked_at m)), (''last_repaired_at'', JPos (last_repaired_at m))])),
     from_value = demo_marker_of \<rparr>"

lemma demo_marker_roundtrip: "serde_roundtrip demo_marker_serde"
  using jv.strings_roundtrip by (simp add: serde_roundtrip_def demo_marker_serde_def demo_marker_of_def)

definition demo_gotcha_rec :: "jvalue Record" where
  "demo_gotcha_rec = (demo_record ''gotcha:g'' 5)\<lparr>r_payload := Some (JArr [JStr ''a.rs''])\<rparr>"

definition demo_file_rec :: "jvalue Record" where
  "demo_file_rec = (demo_record ''file:a.rs'' 5)\<lparr>r_payload := Some (JObj [])\<rparr>"

definition demo_drift :: demo_state where
  "demo_drift = demo_empty\<lparr>knowledge := empty_tree\<lparr>mt_cells :=
     [(''gotcha:g'', RecordCell demo_gotcha_rec), (''file:a.rs'', RecordCell demo_file_rec)]\<rparr>\<rparr>"

lemma demo_drift_content:
  "store_content mem_view demo_drift k = (if k = ''gotcha:g'' then Some (RecordCell demo_gotcha_rec)
     else if k = ''file:a.rs'' then Some (RecordCell demo_file_rec) else None)"
  by (cases "for_key k") (auto simp: store_content_def tree_for_def tree_of_def demo_drift_def mem_view_def empty_tree_def
      empty_store_def for_key_def starts_with_def)

lemma demo_drift_rec:
  "rec_at mem_store mem_view demo_drift k = (if k = ''gotcha:g'' then Some demo_gotcha_rec
     else if k = ''file:a.rs'' then Some demo_file_rec else None)"
  by (simp add: rec_at_def demo_drift_content mem_store_def)

lemma demo_drift_sound: "store_sound mem_healthy demo_drift"
  by (simp add: store_sound_def demo_drift_def mem_healthy_def empty_tree_def empty_store_def)

lemma demo_drift_keyed: "files_keyed mem_store mem_view demo_drift"
  by (auto simp: files_keyed_def demo_drift_rec demo_gotcha_rec_def demo_file_rec_def demo_record_def layer0_file_stub_def)

lemma demo_drift_wanted: "wanted mem_store mem_view demo_gotcha_serde demo_drift = {(''a.rs'', ''gotcha:g'')}"
proof -
  have sw: "starts_with ''gotcha:g'' ''gotcha:''" "\<not> starts_with ''file:a.rs'' ''gotcha:''" by (simp_all add: starts_with_def)
  have rec: "starts_with k ''gotcha:'' \<and> rec_at mem_store mem_view demo_drift k = Some r \<longleftrightarrow> k = ''gotcha:g'' \<and> r = demo_gotcha_rec" for k r
    unfolding demo_drift_rec using sw by (auto split: if_splits)
  have g: "r_lifecycle demo_gotcha_rec = Active" "r_key demo_gotcha_rec = ''gotcha:g''"
    "payload_as (from_value demo_gotcha_serde) demo_gotcha_rec = Some (demo_gotcha_of [''a.rs''])"
    by (simp_all add: demo_gotcha_rec_def demo_record_def layer0_file_stub_def payload_as_def demo_gotcha_serde_def map_filter_simps)
  have "(p, k) \<in> wanted mem_store mem_view demo_gotcha_serde demo_drift \<longleftrightarrow> p = ''a.rs'' \<and> k = ''gotcha:g''" for p k
    unfolding wanted_def mem_Collect_eq case_prod_conv conj_assoc [symmetric] rec
    by (simp add: g demo_gotcha_of_def)
  then show ?thesis by auto
qed

lemma demo_drift_edges: "file_edges mem_view demo_drift" "edged mem_view demo_drift = {}"
proof -
  have n: "from_key ''gotcha:g'' = None" "from_key ''file:a.rs'' = None"
    by (simp_all add: from_key_def strip_prefix_def starts_with_def)
  then show "file_edges mem_view demo_drift" "edged mem_view demo_drift = {}"
    by (auto simp: file_edges_def edged_def demo_drift_content edge_pair_def split: if_splits)
qed

lemma demo_gotcha_edge: "storable (gotcha_edge ''a.rs'' ''gotcha:g'')"
proof -
  have "plain_edge (gotcha_edge ''a.rs'' ''gotcha:g'')"
    by (simp add: plain_edge_def file_key_def is_valid_node_key_def NODE_NAMESPACES_def starts_with_def)
  then have "from_key (to_key (gotcha_edge ''a.rs'' ''gotcha:g'')) = Some (gotcha_edge ''a.rs'' ''gotcha:g'')"
    by (rule from_key_to_key)
  then show ?thesis by (simp add: storable_def to_key_def file_key_def)
qed

lemma demo_empty_content: "store_content mem_view demo_empty = Map.empty"
  by (auto simp: fun_eq_iff store_content_def tree_for_def tree_of_def empty_store_def empty_tree_def mem_view_def split: Durability.split)

lemma demo_empty_running: "mem_live.running demo_empty"
  by (simp add: mem_live.running_def empty_store_def empty_tree_def store_sound_def mem_healthy_def)

theorem check_drift_exact_witness:
  "\<exists>rep. check_gotcha_indexes mem_store jvalue_api demo_gotcha_serde demo_drift = Ok rep \<and> has_drift rep"
  using check_drift_exact [OF mem_repair.repair_laws_axioms demo_drift_sound demo_drift_keyed, of demo_gotcha_serde]
  by (simp add: demo_drift_wanted demo_drift_edges(2))

text \<open>
  C10. A full repair that reports that its verification passed has left no drift, whichever of its writes failed
  on the way: in the store it leaves, file records and edges are exactly what the active gotchas ask for.
\<close>

theorem repair_verified_no_drift:
  assumes "repair_laws A view healthy live J" and "store_sound healthy S" and "files_keyed A view S"
    and "repair_gotcha_indexes A J G M st S Full = (S', Ok rep)" and "verification_passed rep"
  shows "linked A view J S' = wanted A view G S' \<and> edged view S' = wanted A view G S'"
  using repair_laws.repair_full_verified [OF assms(1) _ assms(5,2,3)] assms(4) by (simp add: repair_gotcha_indexes_def)

text \<open>
  C9. A full repair always gets there when the store accepts its writes: if every file that an active gotcha
  names has a record with an object as its payload, the edges of those pairs have keys that read back, and the
  \<open>HasGotcha\<close> edges in the store start at files, then the repair returns, reports that its verification
  passed, leaves the gotchas as they are and makes file records and edges agree with them. Whether the search index works
  does not matter.
\<close>

theorem repair_converges:
  assumes "repair_laws A view healthy live J" and "store_sound healthy S" and "live (knowledge S)" and "live (sessions S)"
    and "files_keyed A view S" and "file_edges view S"
    and "\<forall>(p, k) \<in> wanted A view G S. storable (gotcha_edge p k)
      \<and> (\<exists>r pl. rec_at A view S (file_key p) = Some r \<and> r_payload r = Some pl \<and> j_is_object J pl)"
  shows "\<exists>S' rep. repair_gotcha_indexes A J G M st S Full = (S', Ok rep) \<and> verification_passed rep
    \<and> wanted A view G S' = wanted A view G S
    \<and> linked A view J S' = wanted A view G S \<and> edged view S' = wanted A view G S"
proof -
  have ls: "live_store A view healthy live" using assms(1) by (simp add: repair_laws_def)
  have run: "live_store.running healthy live S"
    using assms(2-4) by (simp add: live_store.running_def [OF ls])
  have obj: "\<forall>(p, k) \<in> wanted A view G S. repair_laws.object_file A view J S p \<and> storable (gotcha_edge p k)"
    using assms(7) by (auto simp: repair_laws.object_file_def [OF assms(1)])
  obtain S' rep where "repair_full A J G M st S = (S', Ok rep)" "verification_passed rep"
    "wanted A view G S' = wanted A view G S" "linked A view J S' = wanted A view G S" "edged view S' = wanted A view G S"
    using repair_laws.repair_full_converges [OF assms(1) run assms(5) obj assms(6)] by metis
  then show ?thesis by (auto simp: repair_gotcha_indexes_def)
qed

lemma demo_drift_fixable:
  "\<forall>(p, k) \<in> wanted mem_store mem_view demo_gotcha_serde demo_drift. storable (gotcha_edge p k)
    \<and> (\<exists>r pl. rec_at mem_store mem_view demo_drift (file_key p) = Some r \<and> r_payload r = Some pl \<and> j_is_object jvalue_api pl)"
  by (simp add: demo_drift_wanted demo_gotcha_edge demo_drift_rec file_key_def demo_file_rec_def)

theorem repair_converges_witness:
  "\<exists>S' rep. repair_gotcha_indexes mem_store jvalue_api demo_gotcha_serde demo_marker_serde \<lparr> st_now = 9, st_device = 1 \<rparr>
       demo_drift Full = (S', Ok rep)
    \<and> verification_passed rep \<and> linked mem_store mem_view jvalue_api S' = {(''a.rs'', ''gotcha:g'')}"
proof -
  have l: "\<not> mt_commit_fails (knowledge demo_drift)" "\<not> mt_commit_fails (sessions demo_drift)"
    by (simp_all add: demo_drift_def empty_tree_def empty_store_def)
  show ?thesis
    using repair_converges [OF mem_repair.repair_laws_axioms demo_drift_sound l demo_drift_keyed demo_drift_edges(1) demo_drift_fixable,
        of demo_marker_serde "\<lparr> st_now = 9, st_device = 1 \<rparr>"]
    unfolding demo_drift_wanted by blast
qed

theorem repair_verified_no_drift_witness:
  "\<exists>S' rep. repair_gotcha_indexes mem_store jvalue_api demo_gotcha_serde demo_marker_serde \<lparr> st_now = 9, st_device = 1 \<rparr>
       demo_drift Full = (S', Ok rep)
    \<and> edged mem_view S' = wanted mem_store mem_view demo_gotcha_serde S'"
proof -
  have run: "mem_live.running demo_drift"
    using demo_drift_sound by (simp add: mem_live.running_def demo_drift_def empty_tree_def empty_store_def)
  have obj: "\<forall>(p, k) \<in> wanted mem_store mem_view demo_gotcha_serde demo_drift.
      mem_repair.object_file demo_drift p \<and> storable (gotcha_edge p k)"
    using demo_drift_fixable by (auto simp: mem_repair.object_file_def)
  obtain S' rep where r: "repair_full mem_store jvalue_api demo_gotcha_serde demo_marker_serde \<lparr> st_now = 9, st_device = 1 \<rparr> demo_drift = (S', Ok rep)"
    and v: "verification_passed rep"
    using mem_repair.repair_full_converges [OF run demo_drift_keyed obj demo_drift_edges(1)] by metis
  have "repair_gotcha_indexes mem_store jvalue_api demo_gotcha_serde demo_marker_serde \<lparr> st_now = 9, st_device = 1 \<rparr>
       demo_drift Full = (S', Ok rep)" using r by (simp add: repair_gotcha_indexes_def)
  from repair_verified_no_drift [OF mem_repair.repair_laws_axioms demo_drift_sound demo_drift_keyed this v] this
  show ?thesis by blast
qed

end
