(* ===== verification/Gotcha_Frame.thy ===== *)
theory Gotcha_Frame
  imports Gotcha_Ops Repair_Full
begin

section \<open>Which keys a gotcha mutation changes\<close>

text \<open>
  Every write of a mutation changes a known set of keys (\<open>changes\<close>), whether it succeeds or fails. Hence a mutation that returns has
  either brought links and edges in line with the gotcha or left the dirty marker naming it: there is no
  silent drift as long as the sessions tree, which holds the marker, accepts writes.
\<close>

declare starts_with_Cons [simp del]

subsection \<open>Which keys a write changes\<close>

text \<open>Recording an event touches the log and the installation id.\<close>

definition log_keys :: "string set" where
  "log_keys = {k. starts_with k ''enforcement:'' \<or> k = INSTALLATION_ID_KEY}"

lemma in_log_keys [simp]: "SEQ_KEY \<in> log_keys" "event_key n \<in> log_keys" "INSTALLATION_ID_KEY \<in> log_keys"
  by (simp_all add: log_keys_def SEQ_KEY_def event_key_def EVENT_PREFIX_def starts_with_def)

context live_store
begin

definition changes :: "string set \<Rightarrow> ('t, 'x) Store \<Rightarrow> ('t, 'x) Store \<Rightarrow> bool" where
  "changes K S S' \<longleftrightarrow> sound S' = sound S \<and> (live (sessions S) \<longrightarrow> live (sessions S'))
     \<and> (\<forall>k. k \<notin> K \<longrightarrow> content S' k = content S k)"

lemma changes_refl [simp]: "changes K S S"
  by (simp add: changes_def)

lemma changes_trans: "changes K S S' \<Longrightarrow> changes L S' S'' \<Longrightarrow> changes (K \<union> L) S S''"
  by (simp add: changes_def)

lemma changes_mono: "changes K S S' \<Longrightarrow> K \<subseteq> L \<Longrightarrow> changes L S S'"
  by (auto simp: changes_def)

lemma changes_in: "changes K S S' \<Longrightarrow> changes K S' S'' \<Longrightarrow> changes K S S''"
  using changes_trans by fastforce

lemma changes_bookkeeping [simp]:
  "changes K S (set_fence b T) = changes K S T" "changes K S (bump_write_seq T) = changes K S T"
  "changes K S (T\<lparr>search := x\<rparr>) = changes K S T"
  by (simp_all add: changes_def) (simp_all add: set_fence_def bump_write_seq_def)

lemma changes_sync_search [simp]: "changes K S (sync_search A kn rs T) = changes K S T"
  by (simp add: sync_search_def Let_def split: prod.split)

lemma commit_changes:
  assumes "commit_on A S d ops = (S', res)" and "\<forall>kv\<in>set ops. for_key (fst kv) = d"
  shows "changes (fst ` set ops) S S'"
proof -
  have "content S' k = content S k" if "k \<notin> fst ` set ops" for k
    using assms that commit_on_ok commit_on_err by (cases res) fastforce+
  moreover have "live (sessions S')" if l: "live (sessions S)"
  proof (cases d)
    case Eventual
    then have "live (tree_of S d)" using l by (simp add: tree_of_def)
    then obtain t' where "kv_commit A (tree_of S d) d ops = (t', None)" "live t'" using live_commit by blast
    then show ?thesis using assms(1) Eventual by (auto simp: commit_on_def)
  next
    case Immediate
    then show ?thesis using assms(1) l by (auto simp: commit_on_def split: prod.splits)
  qed
  ultimately show ?thesis using sound_commit_on [OF assms(1)] by (simp add: changes_def)
qed

lemma put_changes: "changes {k} S (fst (store_put A S k r))"
  using commit_changes [of S "for_key k" "[(k, Some b)]" for b]
  by (fastforce simp: store_put_def split: option.split prod.split sum.split)

lemma put_raw_changes: "changes {k} S (fst (put_raw A S k v))"
  using commit_changes [of S "for_key k" "[(k, Some v)]"] by (cases "put_raw A S k v") (simp add: put_raw_def)

lemma delete_changes: "changes {k} S (fst (store_delete A S k))"
proof (cases "commit_on A S (for_key k) [(k, None)]")
  case (Pair S1 res)
  then have "changes {k} S S1" using commit_changes [OF Pair] by simp
  then show ?thesis using Pair by (simp add: store_delete_def Let_def split: sum.split prod.split search_outcome.split)
qed

text \<open>The sessions tree takes its writes.\<close>

lemma sessions_commit:
  assumes "live (sessions S)"
  obtains S' where "commit_on A S Eventual ops = (S', Inr ())"
proof -
  obtain t' where "kv_commit A (sessions S) Eventual ops = (t', None)" using live_commit [OF assms] by blast
  then show ?thesis using that by (simp add: commit_on_def tree_of_def)
qed

lemma sessions_put:
  assumes "live (sessions S)" and "for_key k = Eventual"
  obtains S' b where "store_put A S k r = (S', Ok ())" "enc_record A r = Some b" "content S' = (content S)(k \<mapsto> b)"
proof -
  obtain b where b: "enc_record A r = Some b" using enc_total by blast
  obtain S1 where c: "commit_on A S Eventual [(k, Some b)] = (S1, Inr ())" using sessions_commit [OF assms(1)] .
  have "store_put A S k r = (sync_search A (is_knowledge_key k) [r] S1, Ok ())" by (simp add: store_put_def b c assms(2))
  then show ?thesis using that b commit_on_ok [OF c] assms(2) by simp
qed

lemma sessions_put_raw:
  assumes "live (sessions S)" and "for_key k = Eventual"
  obtains S' where "put_raw A S k v = (S', Ok ())" "content S' = (content S)(k \<mapsto> v)"
  using sessions_commit [OF assms(1), of "[(k, Some v)]"] put_raw_ok(1) assms(2) by (metis put_raw_def)

lemma sessions_delete:
  assumes "live (sessions S)" and "for_key k = Eventual"
  shows "content (fst (store_delete A S k)) = (content S)(k := None)"
proof -
  obtain S1 where c: "commit_on A S Eventual [(k, None)] = (S1, Inr ())" using sessions_commit [OF assms(1)] .
  show ?thesis
    using commit_on_ok [OF c] assms(2) by (simp add: store_delete_def c Let_def split: prod.split search_outcome.split)
qed

lemma put_raw_log: "put_raw A S k v = (S', res) \<Longrightarrow> k \<in> log_keys \<Longrightarrow> changes log_keys S S'"
  using changes_mono [OF put_raw_changes [of k S v]] by simp

lemma writer_new_log: "writer_new A E S i = (S', res) \<Longrightarrow> changes log_keys S S'"
  by (auto simp: writer_new_def get_or_create_installation_id_def Let_def intro: put_raw_log
      split: prod.splits sum.splits option.splits if_splits)

lemma writer_write_log: "writer_write A H E env S w rq = (S', w', res) \<Longrightarrow> changes log_keys S S'"
  by (auto simp: writer_write_def seq_next_def Let_def intro: put_raw_log changes_in [OF put_raw_log put_raw_log]
      split: prod.splits sum.splits option.splits)

lemma record_event_session_log: "changes log_keys (a_store a) (a_store (fst (record_event_with_session A H E env a rq session)))"
proof (cases "shared_writer A E env a")
  case (Pair a1 res)
  have 1: "changes log_keys (a_store a) (a_store a1)"
    using Pair writer_new_log [of E "a_store a" "uuid4 env"]
    by (auto simp: shared_writer_def split: option.splits prod.splits sum.splits)
  show ?thesis
  proof (cases res)
    case (Inl e)
    then show ?thesis using 1 Pair by (simp add: record_event_with_session_def Let_def)
  next
    case (Inr w)
    obtain S2 w2 r2 where w: "writer_write A H E env (a_store a1) (w\<lparr>w_agent_session := session\<rparr>) rq = (S2, w2, r2)"
      by (metis prod_cases3)
    have "changes log_keys (a_store a) S2" using changes_in [OF 1 writer_write_log [OF w]] .
    then show ?thesis
      using Pair Inr w by (simp add: record_event_with_session_def Let_def split: sum.split)
  qed
qed

lemma record_event_log: "changes log_keys (a_store a) (a_store (fst (record_event A H E env a rq)))"
  by (simp add: record_event_def record_event_session_log)

end

subsection \<open>Links\<close>

locale gotcha_laws = repair_laws A view healthy live J
  for A :: "('t, 'x, 'v, 'j) store_api" and view :: "'t \<Rightarrow> string \<rightharpoonup> 'v" and healthy live and J :: "'j json_api" +
  fixes B :: "('v, 'j, 's) gotcha_api"
  assumes json_B: "ga_json B = J"
    and marker_roundtrip: "serde_roundtrip (ga_marker B)"
    and file_value: "\<exists>j. to_value (ga_file B) f = Some j \<and> j_is_object J j
      \<and> j_get J j ''gotcha_keys'' = Some (j_array J (map (j_string J) (f_gotcha_keys f)))"
begin

lemma map_filter_append: "List.map_filter f (xs @ ys) = List.map_filter f xs @ List.map_filter f ys"
  by (simp add: map_filter_def)

definition key_array :: "'j Record \<Rightarrow> 'j list option" where
  "key_array r = (case r_payload r of None \<Rightarrow> None | Some p \<Rightarrow> Option.bind (j_get J p ''gotcha_keys'') (j_as_array J))"

lemma extract_key_array: "extract_gotcha_keys J r = List.map_filter (j_as_str J) (unwrap_or (key_array r) [])"
  by (simp add: extract_gotcha_keys_def key_array_def map_filter_simps split: option.split)

lemma key_array_object: "key_array r = Some arr \<Longrightarrow> \<exists>p. r_payload r = Some p \<and> j_is_object J p"
  using get_is_object by (auto simp: key_array_def bind_eq_Some_conv split: option.splits)

lemma key_array_insert:
  "j_is_object J p \<Longrightarrow> key_array (r\<lparr>r_payload := Some (j_insert J p ''gotcha_keys'' (j_array J xs))\<rparr>) = Some xs"
  by (simp add: key_array_def)

lemma add_key_array:
  assumes "add_gotcha_key J r key = (r', c)"
  shows "r_key r' = r_key r \<and> (case key_array r of
      None \<Rightarrow> c \<and> key_array r' = Some [j_string J key]
    | Some arr \<Rightarrow> if list_ex (\<lambda>v. j_as_str J v = Some key) arr then \<not> c \<and> r' = r
                  else c \<and> key_array r' = Some (arr @ [j_string J key]))"
proof (cases "key_array r")
  case (Some arr)
  then obtain p v where "r_payload r = Some p" "j_is_object J p" "j_get J p ''gotcha_keys'' = Some v" "j_as_array J v = Some arr"
    using key_array_object [OF Some] by (auto simp: key_array_def bind_eq_Some_conv)
  then show ?thesis using assms Some by (auto simp: add_gotcha_key_def Let_def key_array_insert)
next
  case None
  show ?thesis
  proof (cases "\<exists>p. r_payload r = Some p \<and> j_is_object J p")
    case True
    then obtain p where p: "r_payload r = Some p" "j_is_object J p" by blast
    then have "\<forall>v. j_get J p ''gotcha_keys'' = Some v \<longrightarrow> j_as_array J v = None" using None by (auto simp: key_array_def)
    then show ?thesis
      using assms p None by (auto simp: add_gotcha_key_def Let_def one_key_def key_array_insert split: option.splits)
  next
    case False
    then show ?thesis
      using assms None by (auto simp: add_gotcha_key_def Let_def one_key_def key_array_def split: option.splits if_splits)
  qed
qed

lemma remove_key_array:
  assumes "remove_gotcha_key J r key = (r', c)"
  shows "r_key r' = r_key r \<and> (case key_array r of
      None \<Rightarrow> \<not> c \<and> r' = r
    | Some arr \<Rightarrow> key_array r' = Some (filter (\<lambda>v. j_as_str J v \<noteq> Some key) arr)
        \<and> c = (length (filter (\<lambda>v. j_as_str J v \<noteq> Some key) arr) \<noteq> length arr))"
proof (cases "key_array r")
  case (Some arr)
  then obtain p v where "r_payload r = Some p" "j_is_object J p" "j_get J p ''gotcha_keys'' = Some v" "j_as_array J v = Some arr"
    using key_array_object [OF Some] by (auto simp: key_array_def bind_eq_Some_conv)
  then show ?thesis using assms Some by (auto simp: remove_gotcha_key_def Let_def key_array_insert)
next
  case None
  then show ?thesis
    using assms by (auto simp: remove_gotcha_key_def Let_def key_array_def split: option.splits if_splits)
qed

lemma add_key_links:
  assumes "add_gotcha_key J r key = (r', c)"
  shows "set (extract_gotcha_keys J r') = insert key (set (extract_gotcha_keys J r))" and "r_key r' = r_key r"
    and "\<not> c \<Longrightarrow> r' = r"
  using add_key_array [OF assms]
  by (auto simp: extract_key_array set_map_filter list_ex_iff split: option.splits if_splits)

lemma remove_key_links:
  assumes "remove_gotcha_key J r key = (r', c)"
  shows "set (extract_gotcha_keys J r') = set (extract_gotcha_keys J r) - {key}" and "r_key r' = r_key r"
    and "\<not> c \<Longrightarrow> key \<notin> set (extract_gotcha_keys J r)"
proof -
  show "set (extract_gotcha_keys J r') = set (extract_gotcha_keys J r) - {key}" "r_key r' = r_key r"
    using remove_key_array [OF assms] by (auto simp: extract_key_array set_map_filter split: option.splits)
  have f: "P x" if "length (filter P xs) = length xs" "x \<in> set xs" for P and xs :: "'j list" and x
    using that length_filter_less [of x xs P] by auto
  show "\<not> c \<Longrightarrow> key \<notin> set (extract_gotcha_keys J r)"
    using remove_key_array [OF assms] f by (auto simp: extract_key_array set_map_filter split: option.splits)
qed

lemma touch_links [simp]: "extract_gotcha_keys J (touch now r) = extract_gotcha_keys J r" "r_key (touch now r) = r_key r"
  by (simp_all add: touch_def extract_gotcha_keys_def)

lemma stub_links:
  "extract_gotcha_keys J (file_stub_for (ga_file B) st path key) = [key]"
  "r_key (file_stub_for (ga_file B) st path key) = file_key path"
proof -
  let ?f = "(layer0_stub path [] [] [] 0 0 0 None False 0 (st_now st))\<lparr>f_gotcha_keys := [key]\<rparr>"
  obtain j where "to_value (ga_file B) ?f = Some j" "j_get J j ''gotcha_keys'' = Some (j_array J (map (j_string J) (f_gotcha_keys ?f)))"
    using file_value by blast
  then show "extract_gotcha_keys J (file_stub_for (ga_file B) st path key) = [key]"
    by (simp add: file_stub_for_def extract_gotcha_keys_def map_filter_simps)
  show "r_key (file_stub_for (ga_file B) st path key) = file_key path"
    by (simp add: file_stub_for_def layer0_file_stub_def)
qed

text \<open>A file record put under its key, successfully or not.\<close>

lemma put_file:
  assumes "sound S" and "keyed S" and "store_put A S (file_key p) r = (S', res)" and "r_key r = file_key p"
  shows "sound S'" and "keyed S'"
    and "res = Ok u \<Longrightarrow> links S' q = (if q = p then extract_gotcha_keys J r else links S q)"
    and "res = Err e \<Longrightarrow> content S' = content S"
proof -
  have c: "changes {file_key p} S S'" using put_changes [of "file_key p" S r] assms(3) by simp
  then show "sound S'" using assms(1) by (simp add: changes_def)
  have "readable (S, 0)" using assms(1,2) by (simp add: readable_def)
  from readable_put [OF this assms(3), of 0] show "keyed S'" using assms(4) by (simp add: readable_def)
  show "res = Err e \<Longrightarrow> content S' = content S" using assms(3) store_put_err by blast
  show "links S' q = (if q = p then extract_gotcha_keys J r else links S q)" if ok: "res = Ok u"
  proof -
    obtain b where "enc_record A r = Some b" "content S' = (content S)(file_key p \<mapsto> b)"
      using store_put_ok [OF assms(3) [unfolded ok]] .
    then show ?thesis using dec_enc by (simp add: links_at_def rec_at_def)
  qed
qed

text \<open>One file: a result \<open>Ok\<close> means that the link is there, or gone, and no other is touched.\<close>

lemma update_attempts_links:
  assumes "sound S" and "keyed S" and "update_attempts A J (ga_file B) ck S p key add is = (S', res)"
  shows "keyed S' \<and> changes {file_key p} S S'
    \<and> (res = Ok () \<longrightarrow> is \<noteq> [] \<longrightarrow> (\<forall>q. set (links S' q) =
        (if q \<noteq> p then set (links S q) else if add then insert key (set (links S q)) else set (links S q) - {key})))"
  using assms
proof (induction "is" arbitrary: S)
  case (Cons i "is")
  let ?st = "ck (''link '' @ show_nat i @ '' '' @ p)"
  have get: "store_get A S (file_key p) = (case content S (file_key p) of None \<Rightarrow> Ok None
      | Some v \<Rightarrow> (case dec_record A v of None \<Rightarrow> Err (CorruptRecord (file_key p)) | Some r \<Rightarrow> Ok (Some r)))"
    using store_get_content [OF Cons.prems(1)] by (simp add: decode_as_def)
  consider (err) e where "store_get A S (file_key p) = Inl e" | (none) "store_get A S (file_key p) = Inr None"
    | (some) r where "store_get A S (file_key p) = Inr (Some r)"
    by (metis option.exhaust sum.exhaust)
  then show ?case
  proof cases
    case err
    then show ?thesis using Cons.prems by (auto simp: Let_def)
  next
    case none
    then have l: "links S p = []" using get by (simp add: links_at_def rec_at_def split: option.splits)
    show ?thesis
    proof (cases add)
      case True
      then have u: "store_put A S (file_key p) (file_stub_for (ga_file B) ?st p key) = (S', res)"
        using Cons.prems(3) none by (simp add: Let_def)
      show ?thesis
        using put_file [OF Cons.prems(1,2) u stub_links(2)] put_changes [of "file_key p" S "file_stub_for (ga_file B) ?st p key"]
          u l True by (auto simp: stub_links(1))
    qed (use none l Cons.prems in \<open>simp add: Let_def\<close>)
  next
    case some
    then have l: "links S p = extract_gotcha_keys J r" "r_key r = file_key p"
      using get Cons.prems(2) by (auto simp: links_at_def rec_at_def files_keyed_def split: option.splits)
    obtain r' c where r': "(if add then add_gotcha_key J r key else remove_gotcha_key J r key) = (r', c)" by (metis surj_pair)
    have k: "r_key r' = file_key p"
      "set (extract_gotcha_keys J r') = (if add then insert key (set (links S p)) else set (links S p) - {key})"
      "\<not> c \<Longrightarrow> set (links S p) = (if add then insert key (set (links S p)) else set (links S p) - {key})"
      using r' add_key_links [of r key r' c] remove_key_links [of r key r' c] l by (auto split: if_splits)
    show ?thesis
    proof (cases c)
      case False
      then show ?thesis using Cons.prems some r' k(3) by (auto simp: Let_def)
    next
      case True
      obtain S1 res1 where p1: "store_put A S (file_key p) (touch (st_now ?st) r') = (S1, res1)" by (metis surj_pair)
      have rk: "r_key (touch (st_now ?st) r') = file_key p" using k(1) by simp
      note pf = put_file [OF Cons.prems(1,2) p1 rk]
      have ch: "changes {file_key p} S S1" using put_changes [of "file_key p" S] p1 by (metis fst_conv)
      show ?thesis
      proof (cases res1)
        case (Inr u)
        then have "S' = S1" "res = Ok ()" using Cons.prems(3) some r' True p1 by (simp_all add: Let_def)
        then show ?thesis using pf ch k Inr by auto
      next
        case (Inl e)
        have same: "links S1 = links S" "sound S1" "keyed S1"
          using pf Inl k(1) by (auto simp: fun_eq_iff links_at_def rec_at_def)
        show ?thesis
        proof (cases "is \<noteq> [] \<and> is_write_conflict e")
          case retry: True
          then have "update_attempts A J (ga_file B) ck S1 p key add is = (S', res)"
            using Cons.prems(3) some r' True p1 Inl by (simp add: Let_def)
          from Cons.IH [OF same(2,3) this] show ?thesis using retry ch same(1) changes_in by simp
        next
          case stop: False
          then have "S' = S1" "res = Err e" using Cons.prems(3) some r' True p1 Inl by (auto simp: Let_def)
          then show ?thesis using ch same(3) by simp
        qed
      qed
    qed
  qed
qed simp

end

subsection \<open>A mutation as a whole\<close>

definition file_keys :: "string set" where
  "file_keys = {k. starts_with k ''file:''}"

definition edge_keys :: "string set" where
  "edge_keys = {k. starts_with k ''graph:edge:''}"

lemma key_classes [simp]:
  "file_key p \<in> file_keys" "to_key e \<in> edge_keys" "DIRTY_MARKER_KEY \<notin> file_keys" "DIRTY_MARKER_KEY \<notin> edge_keys"
  "to_key e \<notin> file_keys" "file_key p \<notin> edge_keys"
  "for_key DIRTY_MARKER_KEY = Eventual"
  using edge_key_other(1) [of e]
  by (simp_all add: file_keys_def edge_keys_def DIRTY_MARKER_KEY_def for_key_def starts_with_def file_key_def to_key_def)

definition pairs :: "string \<Rightarrow> string list \<Rightarrow> (string \<times> string) set" where
  "pairs key paths = (\<lambda>p. (p, key)) ` set paths"

definition flagged :: "('t, 'x, 'v, 'j) store_api \<Rightarrow> ('j, DirtyMarker) serde \<Rightarrow> string \<Rightarrow> ('t, 'x) Store \<Rightarrow> bool" where
  "flagged A M key S \<longleftrightarrow> (\<exists>m. read_dirty_marker A M S = Some m \<and> dirty m \<and> key \<in> set (affected_keys m))"

context gotcha_laws
begin

abbreviation "M \<equiv> ga_marker B"
abbreviation "link_rel \<equiv> linked A view J"

lemma update_files_links:
  assumes "sound S" and "keyed S" and "update_files A J (ga_file B) ck S key add ps = (S', res)"
  shows "keyed S' \<and> changes file_keys S S' \<and> (res = Ok () \<longrightarrow>
    link_rel S' = (if add then link_rel S \<union> pairs key ps else link_rel S - pairs key ps))"
  using assms
proof (induction ps arbitrary: S)
  case (Cons p ps)
  obtain S1 res1 where u: "update_attempts A J (ga_file B) ck S p key add [0..<MAX_RETRIES] = (S1, res1)" by (metis surj_pair)
  note l = update_attempts_links [OF Cons.prems(1,2) u]
  have ch: "changes file_keys S S1" using l by (auto intro: changes_mono)
  have s1: "sound S1" using ch Cons.prems(1) by (simp add: changes_def)
  show ?case
  proof (cases res1)
    case (Inl e)
    then have "S' = S1" "res = Err e" using Cons.prems(3) u by (simp_all add: update_file_gotcha_key_def)
    then show ?thesis using l ch by simp
  next
    case (Inr x)
    then have "update_files A J (ga_file B) ck S1 key add ps = (S', res)"
      using Cons.prems(3) u by (simp add: update_file_gotcha_key_def)
    moreover have "keyed S1" using l by blast
    ultimately have IH: "keyed S' \<and> changes file_keys S1 S' \<and> (res = Ok () \<longrightarrow>
        link_rel S' = (if add then link_rel S1 \<union> pairs key ps else link_rel S1 - pairs key ps))"
      using Cons.IH s1 by blast
    have "link_rel S1 = (if add then insert (p, key) (link_rel S) else link_rel S - {(p, key)})"
      using l Inr by (auto simp: linked_def MAX_RETRIES_def split: if_splits)
    then show ?thesis using IH ch changes_in by (auto simp: pairs_def)
  qed
qed (simp add: pairs_def)

lemma sync_links:
  assumes "sound S" and "keyed S" and "sync_gotcha_file_links A J (ga_file B) ck S key old new = (S', res)"
  shows "keyed S' \<and> changes file_keys S S' \<and> (res = Ok () \<longrightarrow>
    link_rel S' = link_rel S \<union> pairs key (difference new old) - pairs key (difference old new))"
proof -
  obtain S1 res1 where u: "update_files A J (ga_file B) ck S key True (difference new old) = (S1, res1)" by (metis surj_pair)
  note l = update_files_links [OF assms(1,2) u]
  have s1: "sound S1" using l assms(1) by (simp add: changes_def)
  show ?thesis
  proof (cases res1)
    case (Inl e)
    then show ?thesis using l assms(3) u by (auto simp: sync_gotcha_file_links_def)
  next
    case (Inr x)
    then have "update_files A J (ga_file B) ck S1 key False (difference old new) = (S', res)"
      using assms(3) u by (simp add: sync_gotcha_file_links_def)
    from update_files_links [OF s1 _ this] show ?thesis using l Inr changes_in by auto
  qed
qed

text \<open>The marker.\<close>

lemma write_marker_reads:
  assumes "sound S" and "live (sessions S)"
  shows "read_dirty_marker A M (write_marker A M st S val m) = Some m"
    and "changes {DIRTY_MARKER_KEY} S (write_marker A M st S val m)"
proof -
  let ?r = "analytics_stub DIRTY_MARKER_KEY val (to_value M m) (st_now st) st"
  obtain S' b where p: "store_put A S DIRTY_MARKER_KEY ?r = (S', Ok ())" "enc_record A ?r = Some b"
    "content S' = (content S)(DIRTY_MARKER_KEY \<mapsto> b)"
    using sessions_put [OF assms(2) key_classes(7)] .
  show ch: "changes {DIRTY_MARKER_KEY} S (write_marker A M st S val m)"
    unfolding write_marker_def by (rule put_changes)
  have w: "write_marker A M st S val m = S'" by (simp add: write_marker_def p(1))
  have "sound S'" using ch assms(1) by (simp add: w changes_def)
  then have "store_get A S' DIRTY_MARKER_KEY = Ok (Some ?r)"
    by (simp add: store_get_content decode_as_def p(3) dec_enc [OF p(2)])
  moreover obtain j where "to_value M m = Some j" "from_value M j = Some m" using marker_roundtrip serde_roundtrip_def by metis
  ultimately show "read_dirty_marker A M (write_marker A M st S val m) = Some m"
    by (simp add: read_dirty_marker_def w analytics_stub_def payload_as_def)
qed

lemma mark_dirty_flags:
  assumes "sound S" and "live (sessions S)"
  shows "flagged A M key (mark_dirty A M st S key why)" and "changes {DIRTY_MARKER_KEY} S (mark_dirty A M st S k why)"
    and "flagged A M key S \<Longrightarrow> flagged A M key (mark_dirty A M st S k why)"
  using write_marker_reads [OF assms] by (auto simp: mark_dirty_def flagged_def flag_marker_def)

lemma flagged_cong:
  assumes "changes K S S'" and "DIRTY_MARKER_KEY \<notin> K" and "sound S"
  shows "flagged A M key S' = flagged A M key S"
  using assms by (simp add: flagged_def read_dirty_marker_def changes_def store_get_content)

lemma clear_solo_changes: "changes {DIRTY_MARKER_KEY} S (clear_dirty_key_if_solo A M st S key)"
  unfolding clear_dirty_key_if_solo_def write_marker_def by (simp add: put_changes split: option.split)

text \<open>
  The state between the steps of a mutation: links and edges say what the history of the calls asks for, or the
  gotcha is flagged and the failure is remembered.
\<close>

definition edges_are :: "(string \<Rightarrow> bool) \<Rightarrow> ('t, 'x) Store \<Rightarrow> bool" where
  "edges_are E S \<longleftrightarrow> (\<forall>k\<in>edge_keys. k \<in> dom (content S) \<longleftrightarrow> E k)"

definition progressed ::
  "string \<Rightarrow> (string \<times> string) set \<Rightarrow> (string \<Rightarrow> bool) \<Rightarrow> ('t, 'x) tracked \<Rightarrow> bool" where
  "progressed key L E t \<longleftrightarrow> sound (fst t) \<and> live (sessions (fst t)) \<and> keyed (fst t)
     \<and> (snd t \<longrightarrow> flagged A M key (fst t)) \<and> (\<not> snd t \<longrightarrow> link_rel (fst t) = L)
     \<and> edges_are E (fst t)"

lemma keyed_changes: "changes K S S' \<Longrightarrow> K \<inter> file_keys = {} \<Longrightarrow> keyed S' = keyed S \<and> link_rel S' = link_rel S"
  using linked_cong [of S' S] by (auto simp: changes_def file_keys_def)

lemma edges_changes:
  assumes "changes K S S'" and "K \<inter> edge_keys = {}"
  shows "edges_are E S' = edges_are E S"
proof -
  have "content S' k = content S k" if "k \<in> edge_keys" for k using assms that by (auto simp: changes_def)
  then show ?thesis by (simp add: edges_are_def dom_def)
qed

lemma progressed_mark:
  assumes "progressed key L E (S, f)"
  shows "progressed key L E (mark_dirty A M st S key why, True)"
proof -
  have s: "sound S" "live (sessions S)" using assms by (simp_all add: progressed_def)
  note m = mark_dirty_flags [OF s]
  have ch: "changes {DIRTY_MARKER_KEY} S (mark_dirty A M st S key why)" by (rule m(2))
  show ?thesis
    using assms m(1) [of key st why] keyed_changes [OF ch] edges_changes [OF ch] ch
    by (simp add: progressed_def changes_def)
qed

lemma progressed_edge_add:
  assumes "progressed key L E t"
  shows "progressed key L (\<lambda>k. E k \<or> k = to_key (gotcha_edge p key)) (add_edge_tracked A M ck now key label t p)"
proof -
  let ?k = "to_key (gotcha_edge p key)"
  have s: "sound (fst t)" "live (sessions (fst t))" using assms by (simp_all add: progressed_def)
  obtain S' where p: "put_raw A (fst t) ?k (of_bytes A (to_le_bytes now)) = (S', Ok ())"
    "content S' = (content (fst t))(?k \<mapsto> of_bytes A (to_le_bytes now))"
    using sessions_put_raw [OF s(2) to_key_eventual] .
  have ch: "changes {?k} (fst t) S'" using put_raw_changes [of ?k "fst t"] p(1) by (metis fst_conv)
  have "add_edge_tracked A M ck now key label t p = (S', snd t)" by (simp add: add_edge_tracked_def track_def p(1))
  then show ?thesis
    using assms keyed_changes [OF ch] flagged_cong [OF ch _ s(1)] edge_key_other(3) [of "gotcha_edge p key"] ch p(2)
    by (auto simp: progressed_def changes_def edges_are_def)
qed

lemma progressed_edge_remove:
  assumes "progressed key L E t"
  shows "progressed key L (\<lambda>k. E k \<and> k \<noteq> to_key (gotcha_edge p key)) (remove_edge_tracked A M ck key label t p)"
proof -
  let ?k = "to_key (gotcha_edge p key)" and ?S = "fst (store_delete A (fst t) (to_key (gotcha_edge p key)))"
  have s: "sound (fst t)" "live (sessions (fst t))" using assms by (simp_all add: progressed_def)
  have ch: "changes {?k} (fst t) ?S" by (rule delete_changes)
  have c: "content ?S = (content (fst t))(?k := None)" by (rule sessions_delete [OF s(2) to_key_eventual])
  have "progressed key L (\<lambda>k. E k \<and> k \<noteq> ?k) (?S, snd t)"
    using assms keyed_changes [OF ch] flagged_cong [OF ch _ s(1)] edge_key_other(3) [of "gotcha_edge p key"] ch
    by (auto simp: progressed_def changes_def c edges_are_def)
  then show ?thesis by (auto simp: remove_edge_tracked_def track_def progressed_mark split: sum.split)
qed

lemma progressed_edges:
  assumes "progressed key L E t"
  shows "progressed key L (\<lambda>k. E k \<or> k \<in> (\<lambda>p. to_key (gotcha_edge p key)) ` set ps)
      (foldl (add_edge_tracked A M ck now key label) t ps)"
    and "progressed key L (\<lambda>k. E k \<and> k \<notin> (\<lambda>p. to_key (gotcha_edge p key)) ` set ps)
      (foldl (remove_edge_tracked A M ck key label) t ps)"
  using assms
proof (induction ps arbitrary: t E)
  case (Cons p ps)
  { case 1
    show ?case using Cons.IH(1) [OF progressed_edge_add [OF 1, of p ck now label]] by (simp add: disj_assoc disj_commute)
  next
    case 2
    show ?case using Cons.IH(2) [OF progressed_edge_remove [OF 2, of p ck label]] by (simp add: conj_assoc)
  }
qed simp_all

end

definition analytics_keys :: "string set" where
  "analytics_keys = {k. starts_with k ''analytics:''}"

definition gotchas_keyed :: "('t, 'x, 'v, 'j) store_api \<Rightarrow> ('t \<Rightarrow> string \<rightharpoonup> 'v) \<Rightarrow> ('t, 'x) Store \<Rightarrow> bool" where
  "gotchas_keyed A view S \<longleftrightarrow> (\<forall>k r. starts_with k ''gotcha:'' \<longrightarrow> rec_at A view S k = Some r \<longrightarrow> r_key r = k)"

lemma mutation_keys:
  assumes "starts_with key ''gotcha:''"
  shows "({key} \<union> analytics_keys \<union> log_keys) \<inter> file_keys = {}" "({key} \<union> analytics_keys \<union> log_keys) \<inter> edge_keys = {}"
    and "key \<noteq> DIRTY_MARKER_KEY" "key \<notin> analytics_keys" "key \<notin> log_keys" "key \<notin> file_keys" "key \<notin> edge_keys"
proof -
  have d: "\<not> starts_with k q" if "starts_with k p" "\<not> starts_with p q" "\<not> starts_with q p" for k p q
    using that by (auto simp: starts_with_iff append_eq_append_conv2)
  have n: "\<not> starts_with ''gotcha:'' ''file:''" "\<not> starts_with ''file:'' ''gotcha:''" "\<not> starts_with ''gotcha:'' ''graph:edge:''"
    "\<not> starts_with ''graph:edge:'' ''gotcha:''" "\<not> starts_with ''gotcha:'' ''analytics:''" "\<not> starts_with ''analytics:'' ''gotcha:''"
    "\<not> starts_with ''gotcha:'' ''enforcement:''" "\<not> starts_with ''enforcement:'' ''gotcha:''"
    "\<not> starts_with ''analytics:'' ''file:''" "\<not> starts_with ''file:'' ''analytics:''"
    "\<not> starts_with ''analytics:'' ''graph:edge:''" "\<not> starts_with ''graph:edge:'' ''analytics:''"
    "\<not> starts_with ''enforcement:'' ''file:''" "\<not> starts_with ''file:'' ''enforcement:''"
    "\<not> starts_with ''enforcement:'' ''graph:edge:''" "\<not> starts_with ''graph:edge:'' ''enforcement:''"
    by (simp_all add: starts_with_def)
  have i: "\<not> starts_with INSTALLATION_ID_KEY ''file:''" "\<not> starts_with INSTALLATION_ID_KEY ''graph:edge:''"
    "\<not> starts_with INSTALLATION_ID_KEY ''gotcha:''" "starts_with DIRTY_MARKER_KEY ''analytics:''"
    by (simp_all add: starts_with_def INSTALLATION_ID_KEY_def DIRTY_MARKER_KEY_def)
  show "key \<noteq> DIRTY_MARKER_KEY" "key \<notin> analytics_keys" "key \<notin> log_keys" "key \<notin> file_keys" "key \<notin> edge_keys"
    using assms d n i unfolding analytics_keys_def log_keys_def file_keys_def edge_keys_def by blast+
  then show "({key} \<union> analytics_keys \<union> log_keys) \<inter> file_keys = {}" "({key} \<union> analytics_keys \<union> log_keys) \<inter> edge_keys = {}"
    using d n i unfolding analytics_keys_def log_keys_def file_keys_def edge_keys_def by blast+
qed

context live_store
begin

lemma extraction_changes:
  "changes analytics_keys S (fst (write_on_extraction A X ts st wall S key tags files))"
  "changes analytics_keys S (fst (mark_outcome A X ts st wall S key outcome))"
proof -
  have k: "{key_for key} \<subseteq> analytics_keys"
    by (simp add: key_for_def EXTRACTION_PREFIX_def analytics_keys_def starts_with_def)
  show "changes analytics_keys S (fst (write_on_extraction A X ts st wall S key tags files))"
    by (simp add: write_on_extraction_def put_flag_def Let_def changes_mono [OF put_changes k])
  show "changes analytics_keys S (fst (mark_outcome A X ts st wall S key outcome))"
    by (simp add: mark_outcome_def put_flag_def Let_def changes_mono [OF put_changes k] split: sum.split option.split)
qed

lemma marker_analytics: "{DIRTY_MARKER_KEY} \<subseteq> analytics_keys"
  by (simp add: analytics_keys_def DIRTY_MARKER_KEY_def starts_with_def)

lemma exemplar_changes: "changes analytics_keys S (fst (write_on_tombstone A N ts dev S key rule reason sev files))"
proof -
  have k: "{r_key (exemplar_record N ts dev key rule reason sev d)} \<subseteq> analytics_keys" for d
    by (simp add: exemplar_record_def analytics_stub_def make_key_def NEG_EXEMPLAR_PREFIX_def analytics_keys_def starts_with_def)
  have "changes analytics_keys S (fst (foldl (\<lambda>p dirname.
         let r = exemplar_record N ts dev key rule reason sev dirname
         in count_ok (snd p) (store_put A (fst p) (r_key r) r)) p ds))" if "changes analytics_keys S (fst p)" for p ds
    using that
  proof (induction ds arbitrary: p)
    case (Cons d ds)
    have "changes analytics_keys S (fst (count_ok (snd p) (store_put A (fst p)
        (r_key (exemplar_record N ts dev key rule reason sev d)) (exemplar_record N ts dev key rule reason sev d))))"
      using changes_in [OF Cons.prems changes_mono [OF put_changes k]] by (simp add: count_ok_def)
    then show ?case using Cons.IH by (simp add: Let_def)
  qed simp
  then show ?thesis by (simp add: write_on_tombstone_def)
qed

end

context gotcha_laws
begin

text \<open>From the store after the record write to the state after the link sync.\<close>

lemma prepared:
  assumes "sound S" and "live (sessions S)" and "keyed S" and "starts_with key ''gotcha:''"
    and "changes ({key} \<union> analytics_keys \<union> log_keys) S S4"
  shows "progressed key (link_rel S \<union> pairs key (difference new old) - pairs key (difference old new)) (\<lambda>k. k \<in> dom (content S))
      (track A M st key label False (sync_gotcha_file_links A J (ga_file B) ck S4 key old new))"
proof -
  let ?L = "link_rel S \<union> pairs key (difference new old) - pairs key (difference old new)"
  note mk = mutation_keys [OF assms(4)]
  have s4: "sound S4" "live (sessions S4)" "keyed S4" "link_rel S4 = link_rel S"
    using assms(1-3,5) keyed_changes [OF assms(5) mk(1)] by (simp_all add: changes_def)
  obtain S5 res where y: "sync_gotcha_file_links A J (ga_file B) ck S4 key old new = (S5, res)" by (metis surj_pair)
  note l = sync_links [OF s4(1,3) y]
  have ch: "changes file_keys S4 S5" using l by blast
  have e: "edges_are (\<lambda>k. k \<in> dom (content S)) S5"
  proof -
    have "file_keys \<inter> edge_keys = {}" by (auto simp: file_keys_def edge_keys_def starts_with_iff)
    then have "edges_are E S5 = edges_are E S" for E
      using edges_changes [OF ch] edges_changes [OF assms(5) mk(2)] by simp
    then show ?thesis by (simp add: edges_are_def)
  qed
  have s5: "sound S5" "live (sessions S5)" using ch s4 by (simp_all add: changes_def)
  show ?thesis
  proof (cases res)
    case (Inr u)
    then show ?thesis using l e s5 s4 y by (simp add: track_def progressed_def)
  next
    case (Inl err)
    let ?S = "mark_dirty A M st S5 key (label @ '': '' @ error_text err)"
    have cm: "changes {DIRTY_MARKER_KEY} S5 ?S" by (rule mark_dirty_flags(2) [OF s5])
    have "progressed key ?L (\<lambda>k. k \<in> dom (content S)) (?S, True)"
      using l e s5 cm mark_dirty_flags(1) [OF s5] keyed_changes [OF cm] edges_changes [OF cm]
      by (simp add: progressed_def changes_def)
    then show ?thesis using Inl y by (simp add: track_def)
  qed
qed

lemma disarmed:
  assumes "progressed key L E t"
  shows "sound (disarm A M st key t)" and "keyed (disarm A M st key t)" and "edges_are E (disarm A M st key t)"
    and "link_rel (disarm A M st key t) = L \<or> flagged A M key (disarm A M st key t)"
    and "changes {DIRTY_MARKER_KEY} (fst t) (disarm A M st key t)"
proof -
  have ch: "changes {DIRTY_MARKER_KEY} (fst t) (clear_dirty_key_if_solo A M st (fst t) key)" by (rule clear_solo_changes)
  show "sound (disarm A M st key t)" "keyed (disarm A M st key t)" "edges_are E (disarm A M st key t)"
    "link_rel (disarm A M st key t) = L \<or> flagged A M key (disarm A M st key t)"
    "changes {DIRTY_MARKER_KEY} (fst t) (disarm A M st key t)"
    using assms ch keyed_changes [OF ch] edges_changes [OF ch]
    by (auto simp: disarm_def progressed_def) (simp_all add: changes_def)
qed

end

end
