(* ===== verification/Session_Spec.thy ===== *)
theory Session_Spec
  imports Session Gotcha_Frame
begin

section \<open>Receipts are minted by consultations only\<close>

text \<open>
  The operations of \<open>store/session.rs\<close> as steps on the store together with the set of consultations since the last time the
  receipts were cleared, each with the time it was stamped with. Every step, failing or not, keeps the invariant that a stored receipt belongs to a
  consultation of that set.
\<close>

declare starts_with_Cons [simp del]

definition receipt_keys :: "string set" where
  "receipt_keys = {k. starts_with k ''session:consulted:''}"

definition gotcha_keys_ns :: "string set" where
  "gotcha_keys_ns = {k. starts_with k ''gotcha:''}"

lemma receipt_key_in [simp]: "receipt_key key actor \<in> receipt_keys"
  by (simp add: receipt_key_def receipt_keys_def starts_with_def split: option.split)

lemma other_ns:
  assumes "starts_with k p" and "p \<in> {''analytics:'', ''compliance:'', ''file:'', ''stage:current'', ''session:current'', ''enforcement:'', ''audit:''}"
  shows "k \<notin> receipt_keys" and "k \<notin> gotcha_keys_ns"
proof -
  have "\<not> starts_with k q" if "\<not> starts_with p q" "\<not> starts_with q p" for q
    using assms(1) that by (auto simp: starts_with_iff append_eq_append_conv2)
  moreover have "\<forall>q \<in> {''session:consulted:'', ''gotcha:''}. \<not> starts_with p q \<and> \<not> starts_with q p"
    using assms(2) by (auto simp: starts_with_def)
  ultimately show "k \<notin> receipt_keys" "k \<notin> gotcha_keys_ns" by (auto simp: receipt_keys_def gotcha_keys_ns_def)
qed

lemma archive_ns: "''session:'' @ show_u64 n \<notin> receipt_keys" "''session:'' @ show_u64 n \<notin> gotcha_keys_ns"
proof -
  obtain c cs where s: "show_u64 n = c # cs" "is_digit c"
    using show_nat_nonempty [of "unat n"] show_nat_digits [of "unat n"] by (cases "show_u64 n") (auto simp: show_u64_def)
  then have "c \<noteq> CHR ''c''" by (auto simp: is_digit_def)
  then show "''session:'' @ show_u64 n \<notin> receipt_keys" "''session:'' @ show_u64 n \<notin> gotcha_keys_ns"
    using s by (simp_all add: receipt_keys_def gotcha_keys_ns_def starts_with_def)
qed

lemma log_ns: "log_keys \<inter> (receipt_keys \<union> gotcha_keys_ns) = {}"
proof -
  have "INSTALLATION_ID_KEY \<notin> receipt_keys \<union> gotcha_keys_ns"
    by (simp add: INSTALLATION_ID_KEY_def receipt_keys_def gotcha_keys_ns_def starts_with_def)
  then show ?thesis using other_ns [of _ "''enforcement:''"] by (auto simp: log_keys_def)
qed

lemma receipts_prefix: "ascii_prefix ''session:consulted:''" "starts_with k ''session:consulted:'' \<Longrightarrow> for_key k = for_key ''session:consulted:''"
  "starts_with k ''gotcha:'' \<Longrightarrow> for_key k = for_key ''gotcha:''"
  by (auto simp: ascii_prefix_def for_key_def starts_with_iff)

subsection \<open>The invariant\<close>

definition receipts_earned ::
  "('t, 'x, 'v, 'j) store_api \<Rightarrow> ('t \<Rightarrow> string \<rightharpoonup> 'v) \<Rightarrow> ('t, 'x) Store \<Rightarrow> (string \<times> u64) set \<Rightarrow> bool" where
  "receipts_earned A view S H \<longleftrightarrow>
     (\<forall>k r. starts_with k ''gotcha:'' \<longrightarrow> rec_at A view S k = Some r \<longrightarrow> r_key r = k)
     \<and> (\<forall>k r. k \<in> receipt_keys \<longrightarrow> rec_at A view S k = Some r \<longrightarrow> utf8_ok k \<and> (k, r_updated_at r) \<in> H)"

context live_store
begin

abbreviation "earned \<equiv> receipts_earned A view"
abbreviation "recs \<equiv> rec_at A view"

lemma put_rec:
  assumes "store_put A S k r = (S', res)"
  shows "recs S' k' = recs S k' \<or> k' = k \<and> recs S' k' = Some r"
proof (cases res)
  case (Inl e)
  then show ?thesis using assms store_put_err by (simp add: rec_at_def)
next
  case (Inr u)
  then obtain b where b: "enc_record A r = Some b" "content S' = (content S)(k \<mapsto> b)"
    using store_put_ok assms by blast
  then have "dec_record A b = Some r" using dec_enc by blast
  then show ?thesis by (simp add: rec_at_def b(2))
qed

lemma earned_put:
  assumes "earned S H" and "store_put A S k r = (S', res)"
    and "k \<in> receipt_keys \<Longrightarrow> utf8_ok k \<and> (k, r_updated_at r) \<in> H" and "k \<in> gotcha_keys_ns \<Longrightarrow> r_key r = k"
  shows "earned S' H"
  unfolding receipts_earned_def
proof (intro conjI allI impI)
  fix k' r' assume k: "starts_with k' ''gotcha:''" "recs S' k' = Some r'"
  then have "recs S k' = Some r' \<or> k' = k \<and> r' = r" using put_rec [OF assms(2), of k'] by auto
  then show "r_key r' = k'" using k(1) assms(1,4) unfolding receipts_earned_def gotcha_keys_ns_def by blast
next
  fix k' r' assume k: "k' \<in> receipt_keys" "recs S' k' = Some r'"
  then have "recs S k' = Some r' \<or> k' = k \<and> r' = r" using put_rec [OF assms(2), of k'] by auto
  then show "utf8_ok k'" "(k', r_updated_at r') \<in> H" using k(1) assms(1,3) unfolding receipts_earned_def by blast+
qed

lemma earned_elsewhere:
  assumes "earned S H" and "store_put A S k r = (S', res)" and "starts_with k p"
    and "p \<in> {''analytics:'', ''compliance:'', ''file:'', ''stage:current'', ''session:current'', ''enforcement:'', ''audit:''}"
  shows "earned S' H"
  using earned_put [OF assms(1,2)] other_ns [OF assms(3,4)] by blast

lemma earned_changes:
  assumes "earned S H" and "changes K S S'" and "K \<inter> (receipt_keys \<union> gotcha_keys_ns) = {}"
  shows "earned S' H"
proof -
  have "recs S' k = recs S k" if "k \<in> receipt_keys \<union> gotcha_keys_ns" for k
    using assms(2,3) that by (auto simp: changes_def rec_at_def)
  then show ?thesis using assms(1) by (simp add: receipts_earned_def gotcha_keys_ns_def)
qed

lemma earned_mono: "earned S H \<Longrightarrow> H \<subseteq> H' \<Longrightarrow> earned S H'"
  by (auto simp: receipts_earned_def)

lemma get_recs: "store_get A S k = Inr (Some r) \<Longrightarrow> recs S k = Some r"
  using get_view [of "tree_for S k" k]
  by (cases "kv_get A (tree_for S k) k") (auto simp: store_get_def read_record_def rec_at_def content_def tree_for_def split: option.splits)

text \<open>Counters.\<close>

lemma earned_agg:
  assumes "earned S H" and "upsert_daily_agg A D st S (today_key env p) key = (S', res)" and "starts_with p q"
    and "q \<in> {''analytics:'', ''compliance:''}"
  shows "earned S' H"
proof -
  have "starts_with (today_key env p) q" using assms(3) by (auto simp: today_key_def starts_with_iff)
  note put = earned_elsewhere [OF assms(1) _ this, of "bumped_agg D st (today_key env p) key m" for m]
  show ?thesis
    using assms(1,2,4) put by (cases "store_get A S (today_key env p)") (auto simp: upsert_daily_agg_def)
qed

text \<open>A consultation.\<close>

lemma earned_hit:
  assumes "earned (a_store a) H" and "log_hit A B env a key = (a', res)" and "utf8_ok (receipt_key key None)"
  shows "earned (a_store a') (insert (receipt_key key None, st_now (se_ck env ''receipt'')) H)"
proof -
  let ?H = "insert (receipt_key key None, st_now (se_ck env ''receipt'')) H"
  let ?c = "receipt_key key None"
  obtain S1 r1 where u: "upsert_daily_agg A (sa_agg B) (se_ck env ''hit agg'') (a_store a) (today_key env ''analytics:hit_'') key = (S1, r1)"
    by fastforce
  have 1: "earned S1 ?H"
    using earned_mono [OF earned_agg [OF assms(1) u, of "''analytics:''"]] by (auto simp: starts_with_def)
  obtain S2 r2 where p: "store_put A S1 ?c (session_record (se_ck env ''receipt'') ?c []) = (S2, r2)" by fastforce
  have 2: "earned S2 ?H"
  proof (rule earned_put [OF 1 p])
    show "?c \<in> gotcha_keys_ns \<Longrightarrow> r_key (session_record (se_ck env ''receipt'') ?c []) = ?c" by (simp add: session_record_def)
    show "utf8_ok ?c \<and> (?c, r_updated_at (session_record (se_ck env ''receipt'') ?c [])) \<in> ?H"
      using assms(3) by (simp add: session_record_def)
  qed
  define bump where "bump r = r\<lparr>r_access_count := r_access_count r + 1, r_last_accessed := st_now (se_ck env ''hit'')\<rparr>" for r :: "'j Record"
  have 3: "earned S3 ?H" if g: "store_get A S2 key = Inr (Some r)" and q: "store_put A S2 key (bump r) = (S3, r3)" for r S3 r3
  proof (rule earned_put [OF 2 q])
    note r = get_recs [OF g]
    show "key \<in> receipt_keys \<Longrightarrow> utf8_ok key \<and> (key, r_updated_at (bump r)) \<in> ?H"
      using 2 r unfolding receipts_earned_def bump_def by simp
    show "key \<in> gotcha_keys_ns \<Longrightarrow> r_key (bump r) = key"
      using 2 r unfolding receipts_earned_def bump_def gotcha_keys_ns_def by simp
  qed
  have 4: "earned (a_store (fst (record_event A h E en (a\<lparr>a_store := S3\<rparr>) rq))) ?H" if "earned S3 ?H" for h E en S3 rq
    using earned_changes [OF that record_event_log [of "a\<lparr>a_store := S3\<rparr>", simplified] log_ns] .
  show ?thesis
    using assms(2) u p 1 2
    by (auto simp: log_hit_def Let_def intro: 4 3 [unfolded bump_def] split: sum.splits option.splits prod.splits)
qed

text \<open>Receipts minted in one transaction with other writes of the sessions tree, as the daemon does it.\<close>

lemma earned_staged:
  assumes "earned S H" and "consultation_receipt_staged A st key actor = Inr w" and "utf8_ok (receipt_key key actor)"
    and "transact_sessions_raw A S (w # ws) = (S', res)" and "fst ` set ws \<inter> (receipt_keys \<union> gotcha_keys_ns) = {}"
  shows "earned S' (insert (receipt_key key actor, st_now st) H)"
proof -
  let ?k = "receipt_key key actor"
  obtain b where w: "w = (?k, b)" and b: "enc_record A (session_record st ?k []) = Some b"
    using assms(2) by (auto simp: consultation_receipt_staged_def staged_def Let_def split: option.splits)
  let ?ops = "map (\<lambda>kv. (fst kv, Some (snd kv))) (w # ws)"
  have "dec_record A b = Some (session_record st ?k [])" using dec_enc [OF b] .
  have c: "content S' = content S \<or> content S' = apply_ops ?ops (content S)"
  proof (cases "find (\<lambda>kv. for_key (fst kv) \<noteq> Eventual) (w # ws)")
    case None
    then have run: "commit_on A S Eventual ?ops = (S', res)" using assms(4) by (simp add: transact_sessions_raw_def)
    have "\<forall>kv\<in>set ?ops. for_key (fst kv) = Eventual" using None by (auto simp: find_None_iff split: if_splits)
    then show ?thesis using commit_on_ok [of S Eventual ?ops] commit_on_err run by (cases res) blast+
  next
    case (Some kv)
    then show ?thesis using assms(4) by (simp add: transact_sessions_raw_def)
  qed
  have o: "apply_ops ?ops m k = (if k = ?k then Some b else m k)" if "k \<in> receipt_keys \<union> gotcha_keys_ns" for m k
  proof -
    have "k \<notin> fst ` set (map (\<lambda>kv. (fst kv, Some (snd kv))) ws)" using assms(5) that by force
    then show ?thesis by (simp add: w)
  qed
  have "recs S' k = recs S k \<or> k = ?k \<and> recs S' k = Some (session_record st ?k [])" if "k \<in> receipt_keys \<union> gotcha_keys_ns" for k
    using c o [OF that] dec_enc [OF b] by (auto simp: rec_at_def split: if_splits)
  moreover have "?k \<notin> gotcha_keys_ns"
    by (simp add: receipt_key_def gotcha_keys_ns_def starts_with_def split: option.split)
  ultimately show ?thesis
    using assms(1,3) unfolding receipts_earned_def gotcha_keys_ns_def
    by (smt (verit) Un_iff insertCI mem_Collect_eq option.inject session_record_def Record.select_convs(7))
qed

text \<open>Clearing, completely or until an error.\<close>

lemma earned_delete: "earned S H \<Longrightarrow> store_delete A S k = (S', res) \<Longrightarrow> earned S' H"
proof -
  assume e: "earned S H" and d: "store_delete A S k = (S', res)"
  have "recs S' k' = recs S k' \<or> recs S' k' = None" for k'
    using store_delete_content [OF d] by (auto simp: rec_at_def split: sum.splits store_error.splits)
  then show ?thesis using e unfolding receipts_earned_def by (metis option.discI)
qed

lemma earned_deletes: "earned S H \<Longrightarrow> delete_keys A S ks = (S', res) \<Longrightarrow> earned S' H"
  by (induction ks arbitrary: S) (auto split: prod.splits sum.splits dest: earned_delete)

lemma deletes_gone:
  assumes "delete_keys A S ks = (S', Inr u)"
  shows "content S' k = (if k \<in> set ks then None else content S k)"
  using assms
proof (induction ks arbitrary: S)
  case (Cons x ks)
  then obtain S1 v where d: "store_delete A S x = (S1, Inr v)" "delete_keys A S1 ks = (S', Inr u)"
    by (auto split: prod.splits sum.splits)
  then show ?case using Cons.IH [OF d(2)] store_delete_content [OF d(1)] by simp
qed simp

lemma receipts_cleared:
  assumes "earned S H" and "delete_all_receipts A S = (S', Inr u)"
  shows "k \<in> receipt_keys \<Longrightarrow> recs S' k = None" and "earned S' {}"
proof -
  obtain ks where ks: "scan_keys A S ''session:consulted:'' = Inr ks" "delete_keys A S ks = (S', Inr u)"
    using assms(2) by (auto simp: delete_all_receipts_def split: sum.splits)
  note set_ks = scan_keys_set(1) [OF ks(1) receipts_prefix(1,2)]
  have none: "recs S' k = None" if k: "k \<in> receipt_keys" for k
  proof (cases "recs S k")
    case None
    then show ?thesis by (simp add: rec_at_def deletes_gone [OF ks(2)])
  next
    case (Some r)
    then have "utf8_ok k" using assms(1) k by (auto simp: receipts_earned_def)
    moreover have "k \<in> dom (content S)" using Some by (auto simp: rec_at_def bind_eq_Some_conv)
    ultimately have "k \<in> set ks" using k by (simp add: set_ks receipt_keys_def)
    then show ?thesis by (simp add: rec_at_def deletes_gone [OF ks(2)])
  qed
  then show "k \<in> receipt_keys \<Longrightarrow> recs S' k = None" .
  have "earned S' H" using earned_deletes [OF assms(1) ks(2)] .
  then show "earned S' {}" using none by (simp add: receipts_earned_def)
qed

text \<open>The other operations write elsewhere.\<close>

lemma earned_flush: "earned S H \<Longrightarrow> session_flush A J env S = (S', res) \<Longrightarrow> earned S' H"
  using earned_elsewhere [of S H "''session:current''" _ S' res "''session:current''"]
  by (auto simp: session_flush_def starts_with_def split: sum.splits)

lemma earned_doc:
  assumes "earned S H" and "doc_capture A F now S path doc = (S', res)"
  shows "earned S' H"
proof -
  have "earned (fst (store_put A S (file_key path) r)) H" for r
    using earned_elsewhere [OF assms(1), of "file_key path" r _ _ "''file:''"]
    by (cases "store_put A S (file_key path) r") (simp add: file_key_def starts_with_def)
  then show ?thesis using assms by (auto simp: doc_capture_def Let_def split: if_splits sum.splits option.splits)
qed

lemma earned_promote_all:
  assumes "earned S H" and "\<forall>r\<in>set rs. r_key r \<in> gotcha_keys_ns" and "promote_all A G now S n rs = (S', res)"
  shows "earned S' H"
  using assms
proof (induction rs arbitrary: S n)
  case (Cons r rs)
  have "r_key r \<notin> receipt_keys"
    using Cons.prems(2) by (auto simp: receipt_keys_def gotcha_keys_ns_def starts_with_iff)
  then have put: "earned S1 H" if "store_put A S (r_key r) (promoted G now r g) = (S1, q)" for g S1 q
    using earned_put [OF Cons.prems(1) that] by (simp add: promoted_def touch_def)
  show ?case
  proof (cases "promotable G r")
    case (Some g)
    obtain S1 q where p: "store_put A S (r_key r) (promoted G now r g) = (S1, q)" by fastforce
    show ?thesis using Cons.prems Cons.IH [OF put [OF p]] put [OF p] Some p by (cases q) auto
  qed (use Cons in auto)
qed simp

lemma earned_promote:
  assumes "earned S H" and "promote_gotcha_candidates A G now S = (S', res)"
  shows "earned S' H"
proof (cases "scan_prefix A S ''gotcha:''")
  case (Inl e)
  then show ?thesis using assms by (simp add: promote_gotcha_candidates_def)
next
  case (Inr rs)
  have "set rs = {r. \<exists>k v. starts_with k ''gotcha:'' \<and> content S k = Some v \<and> dec_record A v = Some r}"
    by (rule scan_prefix_set [OF Inr link_prefixes(2) receipts_prefix(3)])
  then have "\<forall>r\<in>set rs. r_key r \<in> gotcha_keys_ns"
    using assms(1) by (auto simp: receipts_earned_def gotcha_keys_ns_def rec_at_def)
  then show ?thesis using earned_promote_all [OF assms(1)] assms(2) Inr by (simp add: promote_gotcha_candidates_def)
qed

lemma earned_review:
  assumes "earned S H"
  shows "earned (fst (collect_and_store_stale_reviews A B env S v now)) H"
proof -
  have put: "earned S1 H" if "store_put A S (''analytics:stale_review_'' @ d) r = (S1, q)" for d r S1 q
    using earned_elsewhere [OF assms that, of "''analytics:''"] by (simp add: starts_with_def)
  show ?thesis
    using assms by (auto simp: collect_and_store_stale_reviews_def Let_def intro: put split: option.split sum.split prod.split)
qed

lemma earned_stage: "earned S H \<Longrightarrow> update_stage A now S key = (S', res) \<Longrightarrow> earned S' H"
  using earned_elsewhere [of S H "''stage:current''" _ S' res "''stage:current''"]
  by (auto simp: update_stage_def starts_with_def split: sum.splits option.splits)

lemma earned_harvest:
  assumes "earned S H" and "\<And>T. earned T H \<Longrightarrow> earned (analyze T) H" and "session_harvest A B analyze env S = (S', res)"
  shows "earned S' H"
proof -
  obtain S1 q1 where p: "promote_gotcha_candidates A (sa_gotcha B) (st_now (se_ck env ''promote'')) S = (S1, q1)" by fastforce
  have 2: "earned (analyze S1) H" using assms(2) earned_promote [OF assms(1) p] .
  have 4: "earned S4 H" if "store_put A (fst (collect_and_store_stale_reviews A B env (analyze S1) v n)) (''session:'' @ show_u64 m) r = (S4, q)"
    for v n m r S4 q
    using earned_put [OF earned_review [OF 2] that] archive_ns by blast
  have 5: "earned S5 H" if "earned S4 H" "delete_all_receipts A S4 = (S5, q)" for S4 S5 q
    using that earned_deletes by (auto simp: delete_all_receipts_def split: sum.splits)
  note 6 = earned_stage [OF 5 [OF 4]]
  show ?thesis
    using assms(3) p 2
    by (auto simp: session_harvest_def Let_def simp del: append_Cons append_Nil intro: 4 5 [OF 4] 6
        split: sum.splits option.splits prod.splits)
qed

end

subsection \<open>Runs\<close>

text \<open>
  The state is the store with the event writer, and the consultations since the receipts were last cleared without an error. The
  prefixes of \<open>counted\<close> are those of the six counters. \<open>elsewhere\<close> is any other operation of the program: it leaves the receipts
  alone and stores gotchas under their own key.
\<close>

inductive session_step ::
  "('t, 'x, 'v, 'j) store_api \<Rightarrow> ('t \<Rightarrow> string \<rightharpoonup> 'v) \<Rightarrow> ('v, 'j, 's) session_api
   \<Rightarrow> ('t, 'x) Audit \<times> (string \<times> u64) set \<Rightarrow> ('t, 'x) Audit \<times> (string \<times> u64) set \<Rightarrow> bool"
  for A view B where
  hit: "log_hit A B env a key = (a', res) \<Longrightarrow> utf8_ok (receipt_key key None)
    \<Longrightarrow> session_step A view B (a, H) (a', insert (receipt_key key None, st_now (se_ck env ''receipt'')) H)"
| staged_hit: "consultation_receipt_staged A st key actor = Ok w \<Longrightarrow> utf8_ok (receipt_key key actor)
    \<Longrightarrow> transact_sessions_raw A (a_store a) (w # ws) = (S', res) \<Longrightarrow> fst ` set ws \<inter> (receipt_keys \<union> gotcha_keys_ns) = {}
    \<Longrightarrow> session_step A view B (a, H) (a\<lparr>a_store := S'\<rparr>, insert (receipt_key key actor, st_now st) H)"
| counted: "upsert_daily_agg A (sa_agg B) st (a_store a) (today_key env p) key = (S', res)
    \<Longrightarrow> p \<in> {''analytics:miss_'', ''compliance:miss_'', ''compliance:allow_after_receipt_'', ''compliance:codex_shell_miss_'',
             ''analytics:codex_prompt_nudge_'', ''analytics:bootstrap_''}
    \<Longrightarrow> session_step A view B (a, H) (a\<lparr>a_store := S'\<rparr>, H)"
| flushed: "session_flush A (sa_json B) env (a_store a) = (S', res) \<Longrightarrow> session_step A view B (a, H) (a\<lparr>a_store := S'\<rparr>, H)"
| cleared: "session_clear_consults A (a_store a) = (S', Ok u) \<Longrightarrow> session_step A view B (a, H) (a\<lparr>a_store := S'\<rparr>, {})"
| clear_failed: "session_clear_consults A (a_store a) = (S', Err e) \<Longrightarrow> session_step A view B (a, H) (a\<lparr>a_store := S'\<rparr>, H)"
| harvested: "session_harvest_no_staleness A B env (a_store a) = (S', res) \<Longrightarrow> session_step A view B (a, H) (a\<lparr>a_store := S'\<rparr>, H)"
| captured: "doc_capture A (sa_file B) now (a_store a) path doc = (S', res) \<Longrightarrow> session_step A view B (a, H) (a\<lparr>a_store := S'\<rparr>, H)"
| elsewhere: "\<forall>k\<in>receipt_keys. rec_at A view (a_store a') k = rec_at A view (a_store a) k
    \<Longrightarrow> \<forall>k r. starts_with k ''gotcha:'' \<longrightarrow> rec_at A view (a_store a') k = Some r \<longrightarrow> r_key r = k
    \<Longrightarrow> session_step A view B (a, H) (a', H)"

context live_store
begin

lemma step_earned:
  assumes "session_step A view B x y"
  shows "earned (a_store (fst x)) (snd x) \<Longrightarrow> earned (a_store (fst y)) (snd y)"
  using assms
proof (induction rule: session_step.induct)
  case (counted st a env p key S' res H)
  have "starts_with p ''analytics:'' \<or> starts_with p ''compliance:''" using counted(2) by (auto simp: starts_with_def)
  then show ?case using counted(1,3) earned_agg [of "a_store a" H "sa_agg B" st env p key S' res] by auto
next
  case (clear_failed a S' e H)
  then show ?case
    using earned_deletes by (auto simp: session_clear_consults_def delete_all_receipts_def split: sum.splits)
next
  case (cleared a S' u H)
  then show ?case using receipts_cleared(2) [of "a_store a" H S' u] by (simp add: session_clear_consults_def)
next
  case (harvested env a S' res H)
  then show ?case using earned_harvest [of "a_store a" H "\<lambda>S. S"] by (simp add: session_harvest_no_staleness_def)
next
  case (elsewhere a' a H)
  then show ?case by (simp add: receipts_earned_def)
next
  case (hit env a key a' res H)
  then show ?case using earned_hit [of a H B env key a' res] by simp
next
  case (staged_hit st key actor w a ws S' res H)
  then show ?case using earned_staged [of "a_store a" H st key actor w ws S' res] by simp
next
  case (flushed env a S' res H)
  then show ?case using earned_flush [of "a_store a" H "sa_json B" env S' res] by simp
next
  case (captured now a path doc S' res H)
  then show ?case using earned_doc [of "a_store a" H "sa_file B" now path doc S' res] by simp
qed

lemma run_earned:
  "(session_step A view B)\<^sup>*\<^sup>* x y \<Longrightarrow> earned (a_store (fst x)) (snd x) \<Longrightarrow> earned (a_store (fst y)) (snd y)"
  by (induction rule: rtranclp_induct) (auto dest: step_earned)

lemma recent_earned:
  assumes "earned S H" and "check_consulted_recent A now S key ttl actor = Inr True"
  shows "\<exists>t. (receipt_key key actor, t) \<in> H \<and> sat_sub now t \<le> ttl"
proof -
  obtain r where r: "store_get A S (receipt_key key actor) = Inr (Some r)" "sat_sub now (r_updated_at r) \<le> ttl"
    using assms(2) by (auto simp: check_consulted_recent_def rbind_def split: sum.splits option.splits)
  then show ?thesis using assms(1) get_recs receipt_key_in unfolding receipts_earned_def by blast
qed

text \<open>A consultation that returns is recognised from then on, and touches no other receipt.\<close>

lemma upsert_changes: "changes {k} S (fst (upsert_daily_agg A D st S k key))"
  by (simp add: upsert_daily_agg_def put_changes split: sum.split)

lemma hit_recent:
  assumes "sound (a_store a)" and "log_hit A B env a key = (a', Inr ())" and "starts_with key ''file:''"
  shows "check_consulted_recent A now (a_store a') key ttl None = Inr (sat_sub now (st_now (se_ck env ''receipt'')) \<le> ttl)"
    and "receipt_key key' actor \<noteq> receipt_key key None
      \<Longrightarrow> check_consulted_recent A now (a_store a') key' ttl actor = check_consulted_recent A now (a_store a) key' ttl actor"
proof -
  let ?c = "receipt_key key None" and ?agg = "today_key env ''analytics:hit_''"
  obtain S1 where u: "upsert_daily_agg A (sa_agg B) (se_ck env ''hit agg'') (a_store a) ?agg key = (S1, Inr ())"
    using assms(2) by (auto simp: log_hit_def Let_def split: sum.splits prod.splits)
  obtain S2 where p: "store_put A S1 ?c (session_record (se_ck env ''receipt'') ?c []) = (S2, Inr ())"
    using assms(2) u by (auto simp: log_hit_def Let_def split: sum.splits prod.splits)
  obtain S3 where 23: "changes {key} S2 S3"
    and a': "a' = fst (record_event A (sa_hash B) (sa_event B) (se_audit env) (a\<lparr>a_store := S3\<rparr>) (receipt_request key))"
  proof (cases "store_get A S2 key")
    case (Inr m)
    then show ?thesis
    proof (cases m)
      case (Some r)
      let ?r = "r\<lparr>r_access_count := r_access_count r + 1, r_last_accessed := st_now (se_ck env ''hit'')\<rparr>"
      have "changes {key} S2 (fst (store_put A S2 key ?r))" by (rule put_changes)
      then show ?thesis using that assms(2) u p Inr Some by (auto simp: log_hit_def Let_def split: sum.splits prod.splits)
    qed (use that [of S2] assms(2) u p in \<open>auto simp: log_hit_def Let_def\<close>)
  qed (use assms(2) u p in \<open>auto simp: log_hit_def Let_def\<close>)
  have 3: "changes log_keys S3 (a_store a')" using record_event_log [of "a\<lparr>a_store := S3\<rparr>"] by (simp add: a')
  have 1: "changes {?agg} (a_store a) S1" using upsert_changes u by (metis fst_conv)
  obtain b where b: "enc_record A (session_record (se_ck env ''receipt'') ?c []) = Some b" "content S2 = (content S1)(?c \<mapsto> b)" "sound S2 = sound S1"
    using store_put_ok [OF p] .
  have snd: "sound (a_store a')" using assms(1) 1 23 3 b(3) by (simp add: changes_def)
  have k: "key \<notin> receipt_keys" "?agg \<notin> receipt_keys"
    using other_ns(1) [OF assms(3)] other_ns(1) [of ?agg "''analytics:''"] by (auto simp: today_key_def starts_with_def)
  have later: "content (a_store a') q = content S2 q" if q: "q \<in> receipt_keys" for q
  proof -
    have "q \<notin> log_keys" using q log_ns by blast
    moreover have "q \<noteq> key" using q k by blast
    ultimately show ?thesis using 3 23 by (simp add: changes_def)
  qed
  have "store_get A (a_store a') ?c = Inr (Some (session_record (se_ck env ''receipt'') ?c []))"
    using later [of ?c] b(2) dec_enc [OF b(1)] by (simp add: store_get_content [OF snd] decode_as_def)
  then show "check_consulted_recent A now (a_store a') key ttl None = Inr (sat_sub now (st_now (se_ck env ''receipt'')) \<le> ttl)"
    by (simp add: check_consulted_recent_def session_record_def)
  show "check_consulted_recent A now (a_store a') key' ttl actor = check_consulted_recent A now (a_store a) key' ttl actor"
    if "receipt_key key' actor \<noteq> ?c"
  proof -
    let ?k = "receipt_key key' actor"
    have "?k \<noteq> ?agg" using k(2) receipt_key_in by metis
    then have "content S1 ?k = content (a_store a) ?k" using 1 by (simp add: changes_def)
    then have "store_get A (a_store a') ?k = store_get A (a_store a) ?k"
      using later [of ?k] b(2) that by (simp add: store_get_content [OF snd] store_get_content [OF assms(1)])
    then show ?thesis by (simp add: check_consulted_recent_def)
  qed
qed

end

end
