(* ===== verification/Session_Thms.thy ===== *)
theory Session_Thms
  imports Session_Spec Repair_Full
begin

section \<open>Properties of sessions\<close>

text \<open>
  A receipt that the gate accepts stems from a consultation within the time limit and after the last clearing; a
  consultation that returns is accepted until it expires; the daily counters count every event and list the first hundred distinct keys.
\<close>

declare starts_with_Cons [simp del]

subsection \<open>Counters\<close>

fun upsert_all ::
  "('t, 'x, 'v, 'j) store_api \<Rightarrow> ('j, DailyAgg) serde \<Rightarrow> ('t, 'x) Store \<Rightarrow> string \<Rightarrow> (stamp \<times> string) list
   \<Rightarrow> ('t, 'x, unit) store_result" where
  "upsert_all A D S k [] = (S, Ok ())"
| "upsert_all A D S k (x # xs) =
     (case upsert_daily_agg A D (fst x) S k (snd x) of
        (S1, Inl e) \<Rightarrow> (S1, Err e)
      | (S1, Inr _) \<Rightarrow> upsert_all A D S1 k xs)"

definition first_keys :: "string list \<Rightarrow> string list" where
  "first_keys ks = rev (remdups (rev ks))"

lemma first_keys_snoc: "first_keys (ks @ [k]) = (if k \<in> set ks then first_keys ks else first_keys ks @ [k])"
  by (simp add: first_keys_def)

lemma set_first_keys [simp]: "set (first_keys ks) = set ks"
  by (simp add: first_keys_def)

lemma count_keys_spec:
  "foldl (\<lambda>agg k. count_key k agg) \<lparr> da_count = 0, da_keys = [] \<rparr> ks
     = \<lparr> da_count = of_nat (length ks), da_keys = take MAX_AGG_KEYS (first_keys ks) \<rparr>"
proof (induction ks rule: rev_induct)
  case Nil
  then show ?case by (simp add: first_keys_def)
next
  case (snoc k ks)
  have "length (take MAX_AGG_KEYS (first_keys ks)) < MAX_AGG_KEYS \<longleftrightarrow> length (first_keys ks) < MAX_AGG_KEYS" by (simp add: min_def)
  moreover have "set (take MAX_AGG_KEYS (first_keys ks)) = set ks" if "length (first_keys ks) < MAX_AGG_KEYS" using that by simp
  ultimately show ?case using snoc by (auto simp: count_key_def first_keys_snoc)
qed

context store_laws
begin

definition holds_agg :: "('j, DailyAgg) serde \<Rightarrow> ('t, 'x) Store \<Rightarrow> string \<Rightarrow> DailyAgg \<Rightarrow> bool" where
  "holds_agg D S k agg \<longleftrightarrow> (\<exists>r. store_get A S k = Inr (Some r) \<and> payload_as (from_value D) r = Some agg)"

lemma upsert_counts:
  assumes "sound S" and "serde_roundtrip D" and "upsert_daily_agg A D st S k t = (S', Inr u)"
    and "content S k = None \<and> agg = \<lparr> da_count = 0, da_keys = [] \<rparr> \<or> holds_agg D S k agg"
  shows "sound S'" and "holds_agg D S' k (count_key t agg)"
proof -
  obtain m where m: "store_get A S k = Inr m" and p: "store_put A S k (bumped_agg D st k t m) = (S', Inr u)"
    using assms(3) by (auto simp: upsert_daily_agg_def split: sum.splits)
  obtain b where b: "enc_record A (bumped_agg D st k t m) = Some b" "content S' = (content S)(k \<mapsto> b)" "sound S' = sound S"
    using store_put_ok [OF p] .
  show snd: "sound S'" using assms(1) b(3) by simp
  have "m = None \<and> agg = \<lparr> da_count = 0, da_keys = [] \<rparr> \<or> (\<exists>r. m = Some r \<and> payload_as (from_value D) r = Some agg)"
    using assms(4) m by (auto simp: holds_agg_def store_get_content [OF assms(1)] decode_as_def)
  moreover obtain j where "to_value D (count_key t agg) = Some j" "from_value D j = Some (count_key t agg)"
    using assms(2) by (auto simp: serde_roundtrip_def)
  ultimately have "payload_as (from_value D) (bumped_agg D st k t m) = Some (count_key t agg)"
    by (auto simp: bumped_agg_def payload_as_def touch_def count_key_def MAX_AGG_KEYS_def)
  then show "holds_agg D S' k (count_key t agg)"
    using b dec_enc [OF b(1)] by (simp add: holds_agg_def store_get_content [OF snd] decode_as_def)
qed

lemma upserts_count:
  assumes "sound S" and "serde_roundtrip D" and "upsert_all A D S k xs = (S', Inr u)" and "holds_agg D S k agg"
  shows "holds_agg D S' k (foldl (\<lambda>agg t. count_key t agg) agg (map snd xs))"
  using assms
proof (induction xs arbitrary: S agg)
  case (Cons x xs)
  then obtain S1 v where u: "upsert_daily_agg A D (fst x) S k (snd x) = (S1, Inr v)" "upsert_all A D S1 k xs = (S', Inr u)"
    by (auto split: sum.splits prod.splits)
  note s = upsert_counts [OF Cons.prems(1,2) u(1) disjI2 [OF Cons.prems(4)]]
  show ?case using Cons.IH [OF s(1) Cons.prems(2) u(2) s(2)] by simp
qed simp

end

text \<open>
  The daily counter of a key namespace counts every event and lists the distinct keys in the order of their first event, up to a
  hundred: after a non-empty sequence of upserts that all return \<open>Ok\<close>, starting with no record for the day, the record holds the number of events
  (modulo the 64-bit word) and the first hundred distinct keys.
\<close>

theorem daily_agg_counts:
  assumes "store_laws A view healthy" and "store_sound healthy S" and "serde_roundtrip D"
    and "store_content view S k = None" and "xs \<noteq> []" and "upsert_all A D S k xs = (S', Ok ())"
  shows "\<exists>r. store_get A S' k = Ok (Some r) \<and> payload_as (from_value D) r
    = Some \<lparr> da_count = of_nat (length xs), da_keys = take 100 (first_keys (map snd xs)) \<rparr>"
proof -
  obtain x ys where xs: "xs = x # ys" using assms(5) by (cases xs) auto
  obtain S1 v where u: "upsert_daily_agg A D (fst x) S k (snd x) = (S1, Inr v)" "upsert_all A D S1 k ys = (S', Inr ())"
    using assms(6) xs by (auto split: sum.splits prod.splits)
  note s = store_laws.upsert_counts [OF assms(1-3) u(1), of "\<lparr> da_count = 0, da_keys = [] \<rparr>"]
  have "store_laws.holds_agg A D S' k (foldl (\<lambda>agg t. count_key t agg) \<lparr> da_count = 0, da_keys = [] \<rparr> (map snd xs))"
    using store_laws.upserts_count [OF assms(1) s(1) assms(3) u(2) s(2)] assms(4) xs by simp
  then show ?thesis
    unfolding count_keys_spec store_laws.holds_agg_def [OF assms(1)] by (simp add: MAX_AGG_KEYS_def)
qed

text \<open>The instance: the encodings keep what the sessions read.\<close>

definition demo_agg_of :: "jvalue \<Rightarrow> DailyAgg option" where
  "demo_agg_of j =
     Option.bind (Option.bind (jv_get j ''count'') jv_as_u64) (\<lambda>n.
     Option.bind (Option.bind (jv_get j ''keys'') jv_as_array) (\<lambda>ks.
       Some \<lparr> da_count = n, da_keys = List.map_filter jv_as_str ks \<rparr>))"

definition demo_agg_serde :: "(jvalue, DailyAgg) serde" where
  "demo_agg_serde = \<lparr> to_value = (\<lambda>a. Some (JObj [(''count'', JPos (da_count a)), (''keys'', JArr (map JStr (da_keys a)))])),
     from_value = demo_agg_of \<rparr>"

lemma demo_agg_roundtrip: "serde_roundtrip demo_agg_serde"
  using jv.strings_roundtrip by (simp add: serde_roundtrip_def demo_agg_serde_def demo_agg_of_def)

context live_store
begin

lemma upsert_live:
  assumes "running S" and "content S k = None"
  obtains S' b where "upsert_daily_agg A D st S k t = (S', Ok ())" "content S' = (content S)(k \<mapsto> b)" "running S'"
proof -
  have "store_get A S k = Inr None" using assms by (simp add: store_get_content [OF running_sound [OF assms(1)]] decode_as_def)
  moreover obtain S' b where "store_put A S k (bumped_agg D st k t None) = (S', Ok ())" "content S' = (content S)(k \<mapsto> b)" "running S'"
    using put_live [OF assms(1)] by metis
  ultimately show ?thesis using that by (simp add: upsert_daily_agg_def)
qed

lemma hit_live:
  assumes "running (a_store a)" and "content (a_store a) = Map.empty" and "starts_with key ''file:''"
  shows "\<exists>a'. log_hit A B env a key = (a', Ok ())"
proof -
  obtain S1 b where 1: "upsert_daily_agg A (sa_agg B) (se_ck env ''hit agg'') (a_store a) (today_key env ''analytics:hit_'') key = (S1, Ok ())"
    "content S1 = (content (a_store a))(today_key env ''analytics:hit_'' \<mapsto> b)" "running S1"
    using upsert_live [OF assms(1), of "today_key env ''analytics:hit_''"] assms(2) by (metis option.distinct(1))
  obtain S2 c where 2: "store_put A S1 (receipt_key key None) (session_record (se_ck env ''receipt'') (receipt_key key None) []) = (S2, Ok ())"
    "content S2 = (content S1)(receipt_key key None \<mapsto> c)" "running S2"
    using put_live [OF 1(3)] by metis
  have "key \<noteq> receipt_key key None" "key \<noteq> today_key env ''analytics:hit_''"
    using assms(3) by (auto simp: receipt_key_def today_key_def starts_with_def)
  then have "store_get A S2 key = Inr None"
    using assms(2) 1(2) 2(2) by (simp add: store_get_content [OF running_sound [OF 2(3)]] decode_as_def)
  then show ?thesis using 1(1) 2(1) by (simp add: log_hit_def Let_def)
qed

end

theorem daily_agg_counts_witness:
  "\<exists>S' r. upsert_all mem_store demo_agg_serde (demo_empty :: demo_state) ''analytics:hit_d'' [(\<lparr> st_now = 5, st_device = 1 \<rparr>, ''file:a'')] = (S', Ok ())
    \<and> store_get mem_store S' ''analytics:hit_d'' = Ok (Some r) \<and> payload_as (from_value demo_agg_serde) r
      = Some \<lparr> da_count = 1, da_keys = [''file:a''] \<rparr>"
proof -
  let ?xs = "[(\<lparr> st_now = 5, st_device = 1 \<rparr>, ''file:a'')]"
  obtain S' :: demo_state where "upsert_daily_agg mem_store demo_agg_serde \<lparr> st_now = 5, st_device = 1 \<rparr> demo_empty ''analytics:hit_d'' ''file:a'' = (S', Ok ())"
    using mem_live.upsert_live [OF demo_empty_running, of "''analytics:hit_d''" demo_agg_serde] demo_empty_content by metis
  then have u: "upsert_all mem_store demo_agg_serde demo_empty ''analytics:hit_d'' ?xs = (S', Ok ())" by simp
  have "\<exists>r. store_get mem_store S' ''analytics:hit_d'' = Ok (Some r) \<and> payload_as (from_value demo_agg_serde) r
      = Some \<lparr> da_count = of_nat (length ?xs), da_keys = take 100 (first_keys (map snd ?xs)) \<rparr>"
    by (rule daily_agg_counts [OF mem.store_laws_axioms _ demo_agg_roundtrip _ _ u])
      (use demo_empty_running in \<open>simp_all add: mem_live.running_def demo_empty_content\<close>)
  then show ?thesis using u by (auto simp: first_keys_def)
qed

subsection \<open>Receipts\<close>


text \<open>
  C18. A consultation that returns is recognised: after \<open>log_hit\<close> on a file key, the gate accepts the key as long as the receipt is not
  older than the limit and no longer, and its answer for every other key or actor is the one it gave before.
\<close>

theorem consultation_recognised:
  assumes "live_store A view healthy live" and "store_sound healthy (a_store a)" and "starts_with key ''file:''"
    and "log_hit A B env a key = (a', Ok ())"
  shows "check_consulted_recent A now (a_store a') key' ttl actor
    = (if receipt_key key' actor = receipt_key key None then Ok (sat_sub now (st_now (se_ck env ''receipt'')) \<le> ttl)
       else check_consulted_recent A now (a_store a) key' ttl actor)"
proof (cases "receipt_key key' actor = receipt_key key None")
  case True
  then show ?thesis
    using live_store.hit_recent(1) [OF assms(1,2,4,3), of now ttl] by (simp add: check_consulted_recent_def)
next
  case False
  then show ?thesis using live_store.hit_recent(2) [OF assms(1,2,4,3)] by simp
qed

definition demo_session_api :: "((unit, jvalue) cell, jvalue, CanonicalEvent + CanonicalEventV2) session_api" where
  "demo_session_api = \<lparr> sa_hash = demo_hash,
     sa_event = \<lparr> ev_encode = (\<lambda>e. Some (BytesCell (event_hash e))), ev_decode = (\<lambda>_. None) \<rparr>,
     sa_json = jvalue_api, sa_agg = demo_agg_serde,
     sa_file = \<lparr> to_value = (\<lambda>_. None), from_value = (\<lambda>_. None) \<rparr>, sa_gotcha = demo_gotcha_serde,
     sa_review = \<lparr> to_value = (\<lambda>_. None), from_value = (\<lambda>_. None) \<rparr>,
     sa_to_string = (\<lambda>_. None), sa_from_str = (\<lambda>_. None) \<rparr>"

definition demo_session_env :: session_env where
  "demo_session_env = \<lparr> se_audit = \<lparr> now_ms = 9, uuid7 = ''u7'', uuid4 = ''u4'', env_user = None, env_username = None, env_uid = None \<rparr>,
     se_ck = (\<lambda>_. \<lparr> st_now = 1000, st_device = 1 \<rparr>), se_today = ''2026-01-01'', se_date = (\<lambda>_. ''2026-01-01'') \<rparr>"

definition demo_session :: "((unit, jvalue) cell mem_tree, bool \<times> string list) Audit" where
  "demo_session = \<lparr> a_store = demo_empty, a_writer = None \<rparr>"

lemma demo_session_facts:
  "mem_live.running (a_store demo_session)" "store_content mem_view (a_store demo_session) = Map.empty" "starts_with ''file:a'' ''file:''"
  using demo_empty_running demo_empty_content by (simp_all add: demo_session_def starts_with_def)

theorem consultation_recognised_witness:
  "\<exists>a'. log_hit mem_store demo_session_api demo_session_env demo_session ''file:a'' = (a', Ok ())
    \<and> check_consulted_recent mem_store 1900 (a_store a') ''file:a'' 900 None = Ok True
    \<and> check_consulted_recent mem_store 1901 (a_store a') ''file:a'' 900 None = Ok False"
proof -
  obtain a' where h: "log_hit mem_store demo_session_api demo_session_env demo_session ''file:a'' = (a', Ok ())"
    using mem_live.hit_live [OF demo_session_facts] by blast
  have "store_sound mem_healthy (a_store demo_session)" using demo_session_facts(1) by (simp add: mem_live.running_def)
  note c = consultation_recognised [OF mem_live.live_store_axioms this demo_session_facts(3) h, of _ "''file:a''" 900 None]
  show ?thesis using h by (simp add: c demo_session_env_def sat_sub_def)
qed


end
