(* ===== verification/Gate.thy ===== *)
theory Gate
  imports Evaluate Graph_Sync Session_Thms
begin

section \<open>From the stored gotcha to the denied call\<close>

text \<open>
  The components together: the records in the store, the graph in memory, the daemon's answer, the decision and the line the hook prints.
\<close>

declare starts_with_Cons [simp del]

text \<open>
  C1. A confirmed gotcha stops an unconsulted access, end to end. Let the hook run for a tool call that touches a file, with a daemon that answers from a store
  and a graph. When the store holds a record of the file that is neither a liability nor tombstoned, and one of the keys linked to the file (by its record, by an edge, or
  by the gotcha itself when neither names one) is an active gotcha record whose encoding is confirmed with confidence at least 0.6 and quality at least 0.4, and
  the acting agent has no receipt for the file (no recent one for edits and shell commands of Codex), and no linked record is unreadable, then what the hook prints denies the call.
\<close>

theorem unconsulted_access_denied:
  assumes "json_paths J" and "gating v" and "he_mati_root env" and "he_daemon env"
    and "\<And>key recent actor. \<exists>resp. he_evaluate env key recent actor = Some resp
      \<and> j_get J resp ''data'' = Some (hook_evaluate A J P R G now g key recent actor)"
    and "input = unwrap_or (he_parse env stdin) (j_null J)" and "extract_path J input v = Some raw_path"
    and "rel \<in> set (touched_files J env v input raw_path)"
    and "store_get A (g_store g) (file_key rel) = Ok (Some fr)" and "to_value R fr = Some w" and "j_is_object J w"
    and "j_get J w ''payload'' = Some p" and "j_is_object J p"
    and "json_str J w ''/staleness/tier'' \<notin> {''tombstone'', ''liability''}"
    and "ks = linked_keys A J G (g_store g) (neighbors P g (file_key rel) HasGotcha) (file_key rel) (Some w)"
    and "k \<in> set ks" and "store_get A (g_store g) k = Ok (Some gr)" and "r_lifecycle gr = Active"
    and "to_value R gr = Some x" and "j_is_object J x" and "injectable J x"
    and "\<forall>k'\<in>set ks. \<exists>m. store_get A (g_store g) k' = Ok m"
    and "(if v = CodexPreBash \<or> v = ClaudePreEdit
          then check_consulted_recent A now (g_store g) (file_key rel) 900 (field_str J input ''agent_id'')
          else check_consulted A (g_store g) (file_key rel) (field_str J input ''agent_id'')) \<noteq> Ok True"
  shows "denies v (ho_stdout (hook_run J env False v stdin)) (ho_exit (hook_run J env False v stdin))"
proof -
  let ?actor = "field_str J input ''agent_id''" and ?recent = "v = CodexPreBash \<or> v = ClaudePreEdit"
  have u: "uses_recent v \<longleftrightarrow> ?recent" using assms(2) by (auto simp: uses_recent_def gating_def)
  have judged: "\<exists>a. gate_judge J env v input r = Some a
      \<and> (is_deny (ar_decision (process_eval_response J v r (hook_evaluate A J P R G now g (file_key r) ?recent ?actor)))
         \<longrightarrow> is_deny (ar_decision a))" for r
  proof -
    obtain resp where resp: "he_evaluate env (file_key r) ?recent ?actor = Some resp"
      "j_get J resp ''data'' = Some (hook_evaluate A J P R G now g (file_key r) ?recent ?actor)" using assms(5) by blast
    then show ?thesis
      by (auto simp: gate_judge_def judge_def response_data_def apply_consult_mandate_def Let_def split: option.split prod.split)
  qed
  have "is_deny (ar_decision (process_eval_response J v rel (hook_evaluate A J P R G now g (file_key rel) ?recent ?actor)))"
    by (rule json_paths.answer_denies [OF assms(1,9-22)]) (use assms(23) u in simp)
  then have "judged_deny (gate_judge J env v input) rel" using judged by (auto simp: judged_deny_def)
  moreover have n: "gate_judge J env v input (normalize_path raw_path (discover_repo_root env)) \<noteq> None" using judged by (metis option.distinct(1))
  ultimately show ?thesis
    using gate_output [OF assms(2) n] hook_run_gate [OF assms(2-4,6,7)] assms(8) by auto
qed

subsection \<open>An instance\<close>

text \<open>A store with a file and a confirmed gotcha that its record lists; the encoding keeps what the decision reads.\<close>

fun demo_number :: "flt \<Rightarrow> jvalue" where
  "demo_number (Fin q) = JFloat q"
| "demo_number _ = JNull"

fun demo_tier :: "StalenessTier \<Rightarrow> string" where
  "demo_tier Fresh = ''fresh''"
| "demo_tier Aging = ''aging''"
| "demo_tier Stale = ''stale''"
| "demo_tier Liability = ''liability''"
| "demo_tier Tombstone = ''tombstone''"

definition demo_record_serde :: "(jvalue, jvalue Record) serde" where
  "demo_record_serde = \<lparr> to_value = (\<lambda>r. Some (JObj
       [(''value'', JStr (r_value r)), (''payload'', unwrap_or (r_payload r) JNull),
        (''staleness'', JObj [(''tier'', JStr (demo_tier (s_tier (r_staleness r)))), (''value'', demo_number (s_value (r_staleness r)))]),
        (''confidence'', JObj [(''value'', demo_number (c_value (r_confidence r)))]),
        (''quality'', JObj [(''value'', demo_number (q_value (r_quality r)))])])),
     from_value = (\<lambda>_. None) \<rparr>"

definition demo_gated_file :: "jvalue Record" where
  "demo_gated_file = (demo_record ''file:a.rs'' 5)\<lparr>r_payload := Some (JObj [(''gotcha_keys'', JArr [JStr ''gotcha:g''])])\<rparr>"

definition demo_confirmed :: "jvalue Record" where
  "demo_confirmed = (demo_record ''gotcha:g'' 5)\<lparr>r_payload := Some (JObj [(''confirmed'', JBool True)]),
     r_confidence := (r_confidence (demo_record ''gotcha:g'' 5))\<lparr>c_value := Fin 1\<rparr>,
     r_quality := (r_quality (demo_record ''gotcha:g'' 5))\<lparr>q_value := Fin 1\<rparr>\<rparr>"

definition demo_gated :: demo_state where
  "demo_gated = demo_empty\<lparr>knowledge := empty_tree\<lparr>mt_cells :=
     [(''gotcha:g'', RecordCell demo_confirmed), (''file:a.rs'', RecordCell demo_gated_file)]\<rparr>\<rparr>"

definition demo_gated_graph :: "(list_graph, (unit, jvalue) cell mem_tree, bool \<times> string list) Graph" where
  "demo_gated_graph = empty_graph list_digraph demo_gated"

definition demo_gate_env :: "(jvalue, unit) hook_env" where
  "demo_gate_env = demo_hook_env\<lparr>he_consult_globs := None,
     he_evaluate := (\<lambda>key recent actor. Some (JObj [(''data'', hook_evaluate mem_store jvalue_api list_digraph demo_record_serde
       demo_gotcha_serde 1000 demo_gated_graph key recent actor)]))\<rparr>"

lemma demo_gated_get:
  "store_get mem_store demo_gated ''file:a.rs'' = Ok (Some demo_gated_file)"
  "store_get mem_store demo_gated ''gotcha:g'' = Ok (Some demo_confirmed)"
  "store_get mem_store demo_gated (receipt_key ''file:a.rs'' None) = Ok None"
  by (simp_all add: store_get_def read_record_def tree_for_def tree_of_def demo_gated_def empty_store_def empty_tree_def mem_store_def mem_get_def
      for_key_def starts_with_def receipt_key_def)

lemma demo_gated_values:
  "demo_tier (s_tier (r_staleness demo_gated_file)) = ''fresh''"
  "r_payload demo_gated_file = Some (JObj [(''gotcha_keys'', JArr [JStr ''gotcha:g''])])"
  "r_payload demo_confirmed = Some (JObj [(''confirmed'', JBool True)])" "r_lifecycle demo_confirmed = Active"
  "c_value (r_confidence demo_confirmed) = Fin 1" "q_value (r_quality demo_confirmed) = Fin 1"
  by (simp_all add: demo_gated_file_def demo_confirmed_def demo_record_def layer0_file_stub_def fresh_def)

lemma demo_neighbors: "neighbors list_digraph demo_gated_graph key kind = []"
  by (simp add: neighbors_def traverse_def traverse_by_def demo_gated_graph_def empty_graph_def)

definition demo_file_json :: jvalue where
  "demo_file_json = the (to_value demo_record_serde demo_gated_file)"

definition demo_gotcha_json :: jvalue where
  "demo_gotcha_json = the (to_value demo_record_serde demo_confirmed)"

lemma demo_jsons:
  "to_value demo_record_serde demo_gated_file = Some demo_file_json" "to_value demo_record_serde demo_confirmed = Some demo_gotcha_json"
  "jv_is_object demo_file_json" "jv_is_object demo_gotcha_json"
  "jv_get demo_file_json ''payload'' = Some (JObj [(''gotcha_keys'', JArr [JStr ''gotcha:g''])])"
  by (simp_all add: demo_file_json_def demo_gotcha_json_def demo_record_serde_def demo_gated_values)

lemma demo_pointers:
  "jv_pointer demo_file_json ''/staleness/tier'' = Some (JStr ''fresh'')"
  "jv_pointer demo_file_json ''/payload/gotcha_keys'' = Some (JArr [JStr ''gotcha:g''])"
  "jv_pointer demo_gotcha_json ''/payload/confirmed'' = Some (JBool True)"
  "jv_pointer demo_gotcha_json ''/confidence/value'' = Some (JFloat 1)"
  "jv_pointer demo_gotcha_json ''/quality/value'' = Some (JFloat 1)"
  by (simp_all add: jv_pointer_def demo_file_json_def demo_gotcha_json_def demo_record_serde_def demo_gated_values)

lemma demo_injectable: "injectable jvalue_api demo_gotcha_json"
  using r32_mono [of "6/10" 1] r32_mono [of "4/10" 1]
  by (simp add: injectable_def json_bool_def json_f32_def demo_pointers del: r32_one)

lemma demo_linked_keys:
  "linked_keys mem_store jvalue_api demo_gotcha_serde demo_gated [] ''file:a.rs'' (Some demo_file_json) = [''gotcha:g'']"
  by (simp add: linked_keys_def pointer_keys_def insert_all_def demo_pointers map_filter_simps List.insort_insert_key_def)

theorem unconsulted_access_denied_witness:
  "denies ClaudePreRead (ho_stdout (hook_run jvalue_api demo_gate_env False ClaudePreRead []))
     (ho_exit (hook_run jvalue_api demo_gate_env False ClaudePreRead []))"
proof -
  let ?i = "JObj [(''tool_input'', JObj [(''file_path'', JStr ''a.rs'')])]"
  have e: "he_mati_root demo_gate_env" "he_daemon demo_gate_env" by (simp_all add: demo_gate_env_def demo_hook_env_def)
  have a: "\<exists>resp. he_evaluate demo_gate_env key recent actor = Some resp \<and> j_get jvalue_api resp ''data''
      = Some (hook_evaluate mem_store jvalue_api list_digraph demo_record_serde demo_gotcha_serde 1000 demo_gated_graph key recent actor)" for key recent actor
    by (simp add: demo_gate_env_def)
  have i: "?i = unwrap_or (he_parse demo_gate_env []) (j_null jvalue_api)" by (simp add: demo_gate_env_def demo_hook_env_def)
  have r: "discover_repo_root demo_gate_env = None" by (simp add: demo_gate_env_def demo_hook_env_def discover_repo_root_def)
  have t: "''a.rs'' \<in> set (touched_files jvalue_api demo_gate_env ClaudePreRead ?i ''a.rs'')"
    by (simp add: touched_files_def r demo_hook_input Let_def)
  have k: "file_key ''a.rs'' = ''file:a.rs''" by (simp add: file_key_def)
  have g: "g_store demo_gated_graph = demo_gated" by (simp add: demo_gated_graph_def empty_graph_def)
  have n: "check_consulted mem_store demo_gated ''file:a.rs'' None \<noteq> Ok True" by (simp add: check_consulted_def demo_gated_get)
  have c: "[''gotcha:g''] = linked_keys mem_store jvalue_api demo_gotcha_serde (g_store demo_gated_graph)
      (neighbors list_digraph demo_gated_graph (file_key ''a.rs'') HasGotcha) (file_key ''a.rs'') (Some demo_file_json)"
    by (simp add: g k demo_neighbors demo_linked_keys)
  have p: "j_is_object jvalue_api (JObj [(''gotcha_keys'', JArr [JStr ''gotcha:g''])])" by simp
  have s: "store_get mem_store (g_store demo_gated_graph) ''gotcha:g'' = Ok (Some demo_confirmed)" by (simp add: g demo_gated_get)
  show ?thesis
    by (rule unconsulted_access_denied [OF jv_paths.json_paths_axioms _ e a i demo_hook_input(2) t _ demo_jsons(1) _ _ p _ c
          _ s demo_gated_values(4) demo_jsons(2)])
      (use n in \<open>simp_all add: gating_def k g demo_gated_get demo_jsons demo_injectable json_str_def demo_pointers field_str_def non_empty_def\<close>)
qed

end
