(* ===== verification/Audit_Spec.thy ===== *)
theory Audit_Spec
  imports Audit_Writer Store_Spec
begin

section \<open>The recorded log is a valid chain\<close>

text \<open>
  The invariant that ties the store, the persisted counter and the shared writer to a ghost list of
  events, the log: the keys under \<open>enforcement:event:\<close> hold exactly the events of the log, the log is a
  chain in sequence order, no sequence number exceeds the persisted counter, and the writer continues
  the last event. Every operation of the audit component keeps it, whether it succeeds or fails.
\<close>

subsection \<open>Keys and counters\<close>

lemma utf8_ok_ascii: "list_all (\<lambda>c. (of_char c :: nat) < 0x80) s \<Longrightarrow> utf8_ok s"
  by (induction s) (simp_all add: Let_def)

lemma digits_ascii: "list_all is_digit s \<Longrightarrow> list_all (\<lambda>c. (of_char c :: nat) < 0x80) s"
  by (auto simp: list_all_iff is_digit_def)

lemma event_key_utf8 [simp]: "utf8_ok (event_key n)"
proof -
  have "list_all (\<lambda>c. (of_char c :: nat) < 0x80) (zero_pad 20 (show_u64 n))"
    by (simp add: digits_ascii zero_pad_digits show_nat_digits show_u64_def)
  then show ?thesis by (intro utf8_ok_ascii) (simp add: event_key_def EVENT_PREFIX_def)
qed

lemma key_seq_event_key [simp]: "key_seq (event_key n) = Some n"
  by (simp add: key_seq_def event_key_def)

lemma event_key_inject [simp]: "event_key m = event_key n \<longleftrightarrow> m = n"
  by (metis key_seq_event_key option.inject)

lemma event_key_prefix [simp]: "starts_with (event_key n) EVENT_PREFIX"
  by (simp add: event_key_def)

lemma event_prefix_ascii: "ascii_prefix EVENT_PREFIX"
  by (simp add: ascii_prefix_def EVENT_PREFIX_def)

lemma event_prefix_class: "starts_with k EVENT_PREFIX \<Longrightarrow> for_key k = for_key EVENT_PREFIX"
  by (auto simp: starts_with_iff EVENT_PREFIX_def for_key_def)

lemma event_key_not_knowledge: "starts_with k EVENT_PREFIX \<Longrightarrow> \<not> is_knowledge_key k"
  by (auto simp: starts_with_iff EVENT_PREFIX_def is_knowledge_key_def)

lemma other_keys [simp]:
  "\<not> starts_with SEQ_KEY EVENT_PREFIX" "\<not> starts_with INSTALLATION_ID_KEY EVENT_PREFIX"
  "\<not> starts_with ENFORCEMENT_MODE_KEY EVENT_PREFIX" "\<not> starts_with RETENTION_DAYS_KEY EVENT_PREFIX"
  "INSTALLATION_ID_KEY \<noteq> SEQ_KEY" "ENFORCEMENT_MODE_KEY \<noteq> SEQ_KEY" "RETENTION_DAYS_KEY \<noteq> SEQ_KEY"
  by (simp_all add: SEQ_KEY_def INSTALLATION_ID_KEY_def ENFORCEMENT_MODE_KEY_def RETENTION_DAYS_KEY_def
      EVENT_PREFIX_def starts_with_def)

lemma event_key_not_seq [simp]: "event_key n \<noteq> SEQ_KEY"
  using event_key_prefix [of n] other_keys(1) by metis

lemma max_by_key_Some:
  assumes "max_by_key f xs = Some m"
  shows "m \<in> set xs \<and> (\<forall>x\<in>set xs. f x \<le> f m)"
proof -
  have "foldl (\<lambda>m y. if f m \<le> f y then y else m) x ys \<in> set (x # ys)
      \<and> (\<forall>z\<in>set (x # ys). f z \<le> f (foldl (\<lambda>m y. if f m \<le> f y then y else m) x ys))" for x ys
    by (induction ys arbitrary: x) (auto, (meson linorder_linear order_trans)+)
  then show ?thesis using assms by (cases xs) auto
qed

lemma max_by_key_None [simp]: "max_by_key f xs = None \<longleftrightarrow> xs = []"
  by (cases xs) simp_all

lemma map_filter_map_id: "(\<And>x. x \<in> set xs \<Longrightarrow> f (g x) = Some x) \<Longrightarrow> List.map_filter f (map g xs) = xs"
  by (induction xs) (simp_all add: map_filter_simps)

lemma mset_map_filter_cong:
  assumes "mset xs = mset ys" shows "mset (List.map_filter f xs) = mset (List.map_filter f ys)"
  using assms by (simp add: map_filter_def mset_map mset_filter)

subsection \<open>The log\<close>

definition log_holds :: "'v event_api \<Rightarrow> (string \<rightharpoonup> 'v) \<Rightarrow> EnforcementEvent list \<Rightarrow> bool" where
  "log_holds E m hist \<longleftrightarrow>
     (\<forall>e\<in>set hist. \<exists>v. m (event_key (seq_no e)) = Some v \<and> ev_decode E v = Some e)
     \<and> (\<forall>k. starts_with k EVENT_PREFIX \<and> k \<in> dom m \<longrightarrow> k \<in> (\<lambda>e. event_key (seq_no e)) ` set hist)
     \<and> sorted_wrt (<) (map seq_no hist)"

lemma log_holds_cong:
  assumes "log_holds E m hist" and "\<And>k. starts_with k EVENT_PREFIX \<Longrightarrow> m' k = m k"
  shows "log_holds E m' hist"
  using assms by (auto simp: log_holds_def dom_def) 

lemma log_holds_snoc:
  assumes "log_holds E m hist" and "ev_decode E v = Some e" and "\<forall>h\<in>set hist. seq_no h < seq_no e"
  shows "log_holds E (m(event_key (seq_no e) \<mapsto> v)) (hist @ [e])"
  using assms by (fastforce simp: log_holds_def sorted_wrt_append)

lemma log_holds_tail:
  assumes "log_holds E m (h # hist)"
  shows "log_holds E (m(event_key (seq_no h) := None)) hist"
  using assms by (fastforce simp: log_holds_def)

locale audit_laws = store_laws A view healthy
  for A :: "('t, 'x, 'v, 'j) store_api" and view healthy +
  fixes H :: "'s hash_api" and E :: "'v event_api"
  assumes codec: "ev_encode E e = Some v \<Longrightarrow> ev_decode E v = Some e"
begin

lemma sound_tree: "sound S \<Longrightarrow> healthy (tree_for S k)"
  by (simp add: sound_def tree_for_def tree_of_def split: Durability.split)

lemma scan_keys_log:
  assumes "sound S" and "log_holds E (content S) hist"
  obtains ks where "scan_keys A S EVENT_PREFIX = Inr ks"
    and "mset ks = mset (map (\<lambda>e. event_key (seq_no e)) hist)"
proof -
  obtain kvs where "kv_range A (tree_for S EVENT_PREFIX) EVENT_PREFIX (prefix_end EVENT_PREFIX) = Inr kvs"
    using range_healthy [OF sound_tree [OF assms(1)]] by blast
  then obtain ks where ks: "scan_keys A S EVENT_PREFIX = Inr ks" by (simp add: scan_keys_def)
  note s = scan_keys_set [OF ks event_prefix_ascii event_prefix_class]
  have "set ks = (\<lambda>e. event_key (seq_no e)) ` set hist"
    using s(1) assms(2) by (fastforce simp: log_holds_def)
  moreover have "distinct ks" using s(2) by (simp add: strict_sorted_iff)
  moreover have "distinct (map (\<lambda>e. event_key (seq_no e)) hist)"
    using assms(2) by (auto simp: log_holds_def strict_sorted_iff distinct_map inj_on_def)
  ultimately have "mset ks = mset (map (\<lambda>e. event_key (seq_no e)) hist)"
    by (metis set_eq_iff_mset_eq_distinct set_map)
  with ks that show ?thesis by blast
qed

lemma scan_log:
  assumes "sound S" and "log_holds E (content S) hist"
  shows "scan_enforcement_events A E S 0 (- 1) = Ok hist"
proof -
  obtain ks where ks: "scan_keys A S EVENT_PREFIX = Inr ks"
    and m: "mset ks = mset (map (\<lambda>e. event_key (seq_no e)) hist)"
    using scan_keys_log [OF assms] .
  let ?f = "scan_event A E S 0 (- 1)"
  have "?f (event_key (seq_no e)) = Some e" if "e \<in> set hist" for e
    using assms that by (auto simp: scan_event_def get_raw_content log_holds_def)
  then have "List.map_filter ?f (map (\<lambda>e. event_key (seq_no e)) hist) = hist"
    by (rule map_filter_map_id)
  then have p: "mset hist = mset (List.map_filter ?f ks)" using mset_map_filter_cong [OF m, of ?f] by simp
  have s: "sorted_wrt (<) (map seq_no hist)" using assms(2) by (simp add: log_holds_def)
  then have "sort_key seq_no hist = sort_key seq_no (List.map_filter ?f ks)"
    by (intro sort_key_perm p) (simp add: strict_sorted_iff)
  then show ?thesis using sorted_distinct_sort_key [OF s] ks by (simp add: scan_enforcement_events_def)
qed

lemma load_last_hash_log:
  assumes "sound S" and "log_holds E (content S) hist"
  shows "load_last_hash A E S = (if hist = [] then [] else event_hash (last hist))"
proof -
  obtain ks where ks: "scan_keys A S EVENT_PREFIX = Inr ks"
    and m: "mset ks = mset (map (\<lambda>e. event_key (seq_no e)) hist)"
    using scan_keys_log [OF assms] .
  have set: "set ks = (\<lambda>e. event_key (seq_no e)) ` set hist" using mset_eq_setD [OF m] by simp
  let ?f = "\<lambda>k. unwrap_or (key_seq k) 0"
  show ?thesis
  proof (cases "hist = []")
    case True
    then show ?thesis using ks set by (simp add: load_last_hash_def)
  next
    case False
    then obtain k where k: "max_by_key ?f ks = Some k"
      using set max_by_key_None [of ?f ks] by fastforce
    then obtain e where e: "e \<in> set hist" "k = event_key (seq_no e)"
      and mx: "\<forall>h\<in>set hist. seq_no h \<le> seq_no e"
      using max_by_key_Some [OF k] set by auto
    have srt: "sorted_wrt (<) (map seq_no hist)" using assms(2) by (simp add: log_holds_def)
    obtain pre where h: "hist = pre @ [last hist]" using False by (metis append_butlast_last_id)
    have "\<forall>x\<in>set pre. seq_no x < seq_no (last hist)"
      using srt by (subst (asm) h) (simp add: sorted_wrt_append)
    moreover have "seq_no (last hist) \<le> seq_no e" using mx False by simp
    ultimately have "e \<notin> set pre" by (meson not_less)
    with e(1) have "e = last hist" by (subst (asm) h) simp
    moreover obtain v where "content S (event_key (seq_no e)) = Some v" "ev_decode E v = Some e"
      using assms(2) e(1) by (auto simp: log_holds_def)
    ultimately show ?thesis
      using assms(1) ks k e(2) False by (simp add: load_last_hash_def get_raw_content)
  qed
qed

end

subsection \<open>The invariant\<close>

text \<open>The counter as a restarted writer would read it, and as the next recorded event will find it.\<close>

definition persisted_seq :: "('t, 'x, 'v, 'j) store_api \<Rightarrow> ('t, 'x) Store \<Rightarrow> u64" where
  "persisted_seq A S = current (seq_load A S)"

definition next_seq_base :: "('t, 'x, 'v, 'j) store_api \<Rightarrow> ('t, 'x) Audit \<Rightarrow> u64" where
  "next_seq_base A a =
     (case a_writer a of None \<Rightarrow> persisted_seq A (a_store a) | Some w \<Rightarrow> current (w_seq w))"

definition writer_continues ::
  "('t, 'x, 'v, 'j) store_api \<Rightarrow> ('t, 'x) Store \<Rightarrow> EnforcementEvent list \<Rightarrow> EnforcementEventWriter \<Rightarrow> bool" where
  "writer_continues A S hist w \<longleftrightarrow>
     (hist \<noteq> [] \<longrightarrow> w_prev_hash w = event_hash (last hist)) \<and> persisted_seq A S \<le> current (w_seq w)"

definition log_invariant ::
  "('t, 'x, 'v, 'j) store_api \<Rightarrow> ('t \<Rightarrow> string \<rightharpoonup> 'v) \<Rightarrow> ('t \<Rightarrow> bool) \<Rightarrow> 's hash_api \<Rightarrow> 'v event_api
   \<Rightarrow> ('t, 'x) Store \<Rightarrow> EnforcementEvent list \<Rightarrow> bool" where
  "log_invariant A view healthy H E S hist \<longleftrightarrow>
     store_sound healthy S \<and> log_holds E (store_content view S) hist \<and> chained H hist
     \<and> sorted (map recorded_at_ms hist) \<and> (\<forall>e\<in>set hist. seq_no e \<le> persisted_seq A S)"

definition audit_invariant ::
  "('t, 'x, 'v, 'j) store_api \<Rightarrow> ('t \<Rightarrow> string \<rightharpoonup> 'v) \<Rightarrow> ('t \<Rightarrow> bool) \<Rightarrow> 's hash_api \<Rightarrow> 'v event_api
   \<Rightarrow> ('t, 'x) Audit \<Rightarrow> EnforcementEvent list \<Rightarrow> bool" where
  "audit_invariant A view healthy H E a hist \<longleftrightarrow>
     log_invariant A view healthy H E (a_store a) hist
     \<and> (case a_writer a of None \<Rightarrow> True | Some w \<Rightarrow> writer_continues A (a_store a) hist w)"

context audit_laws
begin

abbreviation persisted :: "('t, 'x) Store \<Rightarrow> u64" where
  "persisted \<equiv> persisted_seq A"

abbreviation next_base :: "('t, 'x) Audit \<Rightarrow> u64" where
  "next_base \<equiv> next_seq_base A"

abbreviation writer_ok :: "('t, 'x) Store \<Rightarrow> EnforcementEvent list \<Rightarrow> EnforcementEventWriter \<Rightarrow> bool" where
  "writer_ok \<equiv> writer_continues A"

abbreviation store_ok :: "('t, 'x) Store \<Rightarrow> EnforcementEvent list \<Rightarrow> bool" where
  "store_ok \<equiv> log_invariant A view healthy H E"

abbreviation audit_inv :: "('t, 'x) Audit \<Rightarrow> EnforcementEvent list \<Rightarrow> bool" where
  "audit_inv \<equiv> audit_invariant A view healthy H E"

lemmas persisted_def = persisted_seq_def
lemmas next_base_def = next_seq_base_def
lemmas writer_ok_def = writer_continues_def
lemmas store_ok_def = log_invariant_def
lemmas audit_inv_def = audit_invariant_def

lemma persisted_cong:
  assumes "sound S" "sound S'" "content S' SEQ_KEY = content S SEQ_KEY"
  shows "persisted S' = persisted S"
  using assms by (simp add: persisted_def seq_load_def get_raw_content)

lemma store_ok_cong:
  assumes "store_ok S hist" and "sound S'"
    and "\<And>k. starts_with k EVENT_PREFIX \<or> k = SEQ_KEY \<Longrightarrow> content S' k = content S k"
  shows "store_ok S' hist" and "persisted S' = persisted S"
proof -
  show p: "persisted S' = persisted S"
    by (rule persisted_cong) (use assms in \<open>auto simp: store_ok_def\<close>)
  show "store_ok S' hist"
    using assms p log_holds_cong [of E "content S" hist "content S'"] by (auto simp: store_ok_def)
qed

text \<open>A raw write to any key outside the log and the counter, successful or not.\<close>

lemma put_raw_sound: "put_raw A S k v = (S', r) \<Longrightarrow> sound S' = sound S"
  by (auto simp: put_raw_def dest: sound_commit_on)

lemma put_raw_other:
  assumes "store_ok S hist" and "put_raw A S k v = (S', r)"
    and "\<not> starts_with k EVENT_PREFIX" and "k \<noteq> SEQ_KEY"
  shows "store_ok S' hist" and "persisted S' = persisted S"
proof -
  have "sound S'" using assms(1) put_raw_sound [OF assms(2)] by (simp add: store_ok_def)
  moreover have "content S' k' = content S k'" if "starts_with k' EVENT_PREFIX \<or> k' = SEQ_KEY" for k'
    using assms that put_raw_ok(1) [of S k v S'] put_raw_err [of S k v S'] by (cases r) fastforce+
  ultimately show "store_ok S' hist" "persisted S' = persisted S"
    using store_ok_cong [OF assms(1), of S'] by blast+
qed

text \<open>Advancing the counter.\<close>

lemma seq_next_inv:
  assumes "store_ok S hist" and "writer_ok S hist w" and "current (w_seq w) \<noteq> - 1"
    and "seq_next A S (w_seq w) = (S', q, r)"
  shows "store_ok S' hist" and "writer_ok S' hist (w\<lparr>w_seq := q\<rparr>)"
    and "r = Inr n \<Longrightarrow> n = persisted S' \<and> n = current q \<and> (\<forall>e\<in>set hist. seq_no e < n)"
proof -
  let ?n = "current (w_seq w) + 1"
  have lt: "current (w_seq w) < ?n" using assms(3) by (rule word_less_add_one)
  have q: "q = w_seq w\<lparr>current := ?n\<rparr>"
    and put: "\<exists>r'. put_raw A S SEQ_KEY (of_bytes A (to_be_bytes ?n)) = (S', r')
       \<and> r = (case r' of Inl e \<Rightarrow> Inl e | Inr _ \<Rightarrow> Inr ?n)"
    using assms(4) by (auto simp: seq_next_def Let_def split: prod.splits sum.splits)
  then obtain r' where put: "put_raw A S SEQ_KEY (of_bytes A (to_be_bytes ?n)) = (S', r')"
    and r: "r = (case r' of Inl e \<Rightarrow> Inl e | Inr _ \<Rightarrow> Inr ?n)" by blast
  have snd: "sound S" "sound S'" using assms(1) put_raw_sound [OF put] by (simp_all add: store_ok_def)
  have old: "\<forall>e\<in>set hist. seq_no e \<le> persisted S" "persisted S \<le> current (w_seq w)"
    using assms(1,2) by (simp_all add: store_ok_def writer_ok_def)
  have ev: "content S' k = content S k" if "starts_with k EVENT_PREFIX" for k
    using that put put_raw_ok(1) [of S SEQ_KEY _ S'] put_raw_err [of S SEQ_KEY _ S']
    by (cases r') fastforce+
  have p: "persisted S' = (case r' of Inl _ \<Rightarrow> persisted S | Inr _ \<Rightarrow> ?n)"
  proof (cases r')
    case (Inl e)
    then show ?thesis using put put_raw_err persisted_cong [OF snd] by simp
  next
    case (Inr u)
    then have "content S' SEQ_KEY = Some (of_bytes A (to_be_bytes ?n))" using put put_raw_ok(1) by simp
    then show ?thesis using snd(2) Inr by (simp add: persisted_def seq_load_def get_raw_content bytes_id)
  qed
  then have pp: "persisted S \<le> persisted S'" "persisted S' \<le> ?n"
    using old(2) lt by (cases r'; simp; order)+
  have lg: "log_holds E (content S') hist"
    using log_holds_cong [of E "content S" hist "content S'"] ev assms(1) by (auto simp: store_ok_def)
  show "store_ok S' hist"
    using assms(1) snd lg old(1) pp(1) by (auto simp: store_ok_def intro: order_trans)
  show "writer_ok S' hist (w\<lparr>w_seq := q\<rparr>)"
    using assms(2) pp(2) by (simp add: writer_ok_def q)
  show "n = persisted S' \<and> n = current q \<and> (\<forall>e\<in>set hist. seq_no e < n)" if "r = Inr n"
    using that r p q old lt by (auto split: sum.splits intro: order.strict_trans1 order_trans)
qed

text \<open>Writing an event: the log grows by the event that is returned, and by nothing on an error.\<close>

lemma writer_write_inv:
  assumes "store_ok S hist" and "writer_ok S hist w" and "current (w_seq w) \<noteq> - 1"
    and "\<forall>e\<in>set hist. recorded_at_ms e \<le> now_ms env"
    and "writer_write A H E env S w rq = (S', w', r)"
  shows "store_ok S' (hist @ (case r of Inl _ \<Rightarrow> [] | Inr e \<Rightarrow> [e]))"
    and "writer_ok S' (hist @ (case r of Inl _ \<Rightarrow> [] | Inr e \<Rightarrow> [e])) w'"
proof -
  obtain S1 q r1 where nx: "seq_next A S (w_seq w) = (S1, q, r1)" by (metis prod_cases3)
  note n1 = seq_next_inv [OF assms(1-3) nx]
  let ?w1 = "w\<lparr>w_seq := q\<rparr>"
  have "store_ok S' (hist @ (case r of Inl _ \<Rightarrow> [] | Inr e \<Rightarrow> [e])) \<and> writer_ok S' (hist @ (case r of Inl _ \<Rightarrow> [] | Inr e \<Rightarrow> [e])) w'"
  proof (cases r1)
    case (Inl err)
    then show ?thesis using assms(5) n1(1,2) by (auto simp: writer_write_def nx)
  next
    case (Inr n)
    define e where "e = (unhashed_event H env ?w1 n rq)\<lparr>event_hash := compute_hash H (unhashed_event H env ?w1 n rq)\<rparr>"
    have ef: "seq_no e = n" "recorded_at_ms e = now_ms env" "prev_hash e = w_prev_hash w"
      "schema_version e = SCHEMA_VERSION"
      by (simp_all add: e_def unhashed_event_def)
    have "compute_hash H e = compute_hash H (unhashed_event H env ?w1 n rq)"
      by (simp add: e_def compute_hash_def canonical_json_def canonical_v1_def canonical_v2_def)
    moreover have "event_hash e = compute_hash H (unhashed_event H env ?w1 n rq)" by (simp add: e_def)
    ultimately have int: "intact H e" by (simp add: intact_def ef)
    note n = n1(3) [OF Inr]
    show ?thesis
    proof (cases "ev_encode E e")
      case None
      then show ?thesis using assms(5) n1(1,2) by (auto simp: writer_write_def nx Inr Let_def e_def [symmetric])
    next
      case (Some v)
      obtain S2 r2 where put: "put_raw A S1 (event_key n) v = (S2, r2)" by (metis surj_pair)
      have snd: "sound S1" "sound S2" using n1(1) put_raw_sound [OF put] by (simp_all add: store_ok_def)
      show ?thesis
      proof (cases r2)
        case (Inl err)
        then have "content S2 = content S1" using put put_raw_err by simp
        then have "store_ok S2 hist" "persisted S2 = persisted S1" using store_ok_cong [OF n1(1) snd(2)] by simp_all
        then show ?thesis using assms(5) n1(2) Some put Inl Inr
          by (auto simp: writer_write_def nx Let_def e_def [symmetric] writer_ok_def)
      next
        case Ok: (Inr u)
        then have c: "content S2 = (content S1)(event_key n \<mapsto> v)" using put put_raw_ok(1) by simp
        then have p: "persisted S2 = persisted S1"
          using persisted_cong [OF snd] event_key_not_seq [of n] by (simp add: eq_commute)
        have res: "S' = S2" "w' = ?w1\<lparr>w_prev_hash := event_hash e\<rparr>" "r = Inr e"
          using assms(5) Some put Ok Inr by (auto simp: writer_write_def nx Let_def e_def [symmetric])
        have "log_holds E (content S2) (hist @ [e])"
          unfolding c ef(1) [symmetric]
          by (rule log_holds_snoc) (use n1(1) n codec [OF Some] in \<open>auto simp: store_ok_def ef\<close>)
        moreover have "chained H (hist @ [e])"
          using n1(1) int assms(2) by (auto simp: chained_snoc store_ok_def links_def ef writer_ok_def)
        moreover have "sorted (map recorded_at_ms (hist @ [e]))"
          using n1(1) assms(4) by (auto simp: store_ok_def sorted_append ef)
        moreover have "\<forall>h\<in>set (hist @ [e]). seq_no h \<le> persisted S2"
          using n1(1) n by (auto simp: store_ok_def p ef)
        moreover have "persisted S1 = current q" using n by metis
        ultimately show ?thesis using snd by (simp add: res store_ok_def writer_ok_def p)
      qed
    qed
  qed
  then show "store_ok S' (hist @ (case r of Inl _ \<Rightarrow> [] | Inr e \<Rightarrow> [e]))"
    "writer_ok S' (hist @ (case r of Inl _ \<Rightarrow> [] | Inr e \<Rightarrow> [e])) w'" by blast+
qed

text \<open>Creating the writer: it continues the log it finds.\<close>

lemma installation_id_inv:
  assumes "store_ok S hist" and "get_or_create_installation_id A S i = (S', r)"
  shows "store_ok S' hist" and "persisted S' = persisted S"
proof -
  have "S' = S \<or> (\<exists>v r'. put_raw A S INSTALLATION_ID_KEY v = (S', r'))"
    using assms(2)
    by (auto simp: get_or_create_installation_id_def Let_def split: sum.splits option.splits if_splits prod.splits)
  then show "store_ok S' hist" "persisted S' = persisted S"
    using assms(1) put_raw_other [OF assms(1), of INSTALLATION_ID_KEY] by auto
qed

lemma writer_new_inv:
  assumes "store_ok S hist" and "writer_new A E S i = (S', r)"
  shows "store_ok S' hist" and "r = Inr w \<Longrightarrow> writer_ok S' hist w \<and> current (w_seq w) = persisted S"
proof -
  obtain S1 r1 where i: "get_or_create_installation_id A S i = (S1, r1)" by (metis surj_pair)
  note i' = installation_id_inv [OF assms(1) i]
  have S': "S' = S1" using assms(2) by (auto simp: writer_new_def i Let_def split: sum.splits)
  then show ok: "store_ok S' hist" using i' by simp
  show "writer_ok S' hist w \<and> current (w_seq w) = persisted S" if "r = Inr w"
    using assms(2) that i' load_last_hash_log [of S1 hist]
    by (auto simp: writer_new_def i Let_def writer_ok_def persisted_def store_ok_def split: sum.splits)
qed

lemma shared_writer_inv:
  assumes "audit_inv a hist" and "shared_writer A E env a = (a', r)"
  shows "audit_inv a' hist"
    and "r = Inr w \<Longrightarrow> writer_ok (a_store a') hist w \<and> current (w_seq w) = next_base a"
  using assms writer_new_inv [of "a_store a" hist "uuid4 env"]
  by (auto simp: shared_writer_def audit_inv_def next_base_def split: option.splits prod.splits sum.splits)

lemma write_through_inv:
  assumes "store_ok S hist" and "writer_ok S hist w" and "current (w_seq w) \<noteq> - 1"
    and "\<forall>e\<in>set hist. recorded_at_ms e \<le> now_ms env"
    and "writer_write A H E env S (w\<lparr>w_agent_session := s\<rparr>) rq = (S', w', r)"
  shows "audit_inv \<lparr> a_store = S', a_writer = Some w' \<rparr> (hist @ (case r of Inl _ \<Rightarrow> [] | Inr e \<Rightarrow> [e]))"
  using writer_write_inv [OF assms(1) _ _ assms(4,5)] assms(2,3)
  by (simp add: audit_inv_def writer_ok_def)

lemma record_event_inv:
  assumes "audit_inv a hist" and "next_base a \<noteq> - 1" and "\<forall>e\<in>set hist. recorded_at_ms e \<le> now_ms env"
    and "record_event_with_session A H E env a rq s = (a', r)"
  obtains "r = Inr None \<or> (\<exists>err. r = Inl err)" "audit_inv a' hist"
  | e where "r = Inr (Some e)" "audit_inv a' (hist @ [e])"
proof -
  obtain a1 r1 where sw: "shared_writer A E env a = (a1, r1)" by (metis surj_pair)
  note i1 = shared_writer_inv [OF assms(1) sw]
  show ?thesis
  proof (cases r1)
    case (Inl err)
    then show ?thesis using assms(4) i1(1) that(1)
      by (auto simp: record_event_with_session_def Let_def sw split: EnforcementMode.splits)
  next
    case (Inr w)
    obtain S2 w2 r2 where wr: "writer_write A H E env (a_store a1) (w\<lparr>w_agent_session := s\<rparr>) rq = (S2, w2, r2)"
      by (metis prod_cases3)
    have "audit_inv \<lparr> a_store = S2, a_writer = Some w2 \<rparr> (hist @ (case r2 of Inl _ \<Rightarrow> [] | Inr e \<Rightarrow> [e]))"
      using write_through_inv [OF _ _ _ assms(3) wr] i1(1) i1(2) [OF Inr] assms(2)
      by (simp add: audit_inv_def)
    then show ?thesis using assms(4) that wr Inr
      by (auto simp: record_event_with_session_def Let_def sw split: sum.splits EnforcementMode.splits)
  qed
qed

text \<open>Pruning: deleting the events of a prefix in order leaves a tail of the log.\<close>

lemma store_delete_sound: "store_delete A S k = (S', r) \<Longrightarrow> sound S' = sound S"
  by (auto simp: store_delete_def Let_def sound_commit_on
      split: prod.splits sum.splits search_outcome.splits if_splits dest: sound_commit_on)

lemma delete_event_inv:
  assumes "store_ok S (h # hist)" and "store_delete A S (event_key (seq_no h)) = (S', r)"
  shows "(store_ok S' hist \<or> store_ok S' (h # hist) \<and> (\<exists>e. r = Inl e)) \<and> persisted S' = persisted S"
proof -
  have snd: "sound S" "sound S'" using assms store_delete_sound by (auto simp: store_ok_def)
  have c: "content S' = content S \<and> (\<exists>e. r = Inl e) \<or> content S' = (content S)(event_key (seq_no h) := None)"
    using store_delete_content [OF assms(2)] by (auto split: sum.splits store_error.splits)
  have p: "persisted S' = persisted S"
    by (rule persisted_cong [OF snd]) (use c event_key_not_seq [of "seq_no h"] in \<open>auto simp: eq_commute\<close>)
  from c show ?thesis
  proof
    assume "content S' = (content S)(event_key (seq_no h) := None)"
    then have "store_ok S' hist"
      using assms(1) snd p log_holds_tail [of E "content S" h hist]
      by (auto simp: store_ok_def chained_def successively_Cons)
    with p show ?thesis by blast
  qed (use assms(1) snd p in \<open>auto simp: store_ok_def\<close>)
qed

lemma delete_events_inv:
  assumes "store_ok S (old @ rest)" and "delete_events A S old = (S', r)"
  shows "(\<exists>del keep. old = del @ keep \<and> store_ok S' (keep @ rest) \<and> (r = Inr () \<longrightarrow> keep = []))
       \<and> persisted S' = persisted S"
  using assms
proof (induction old arbitrary: S)
  case (Cons h old)
  obtain S1 r1 where d: "store_delete A S (event_key (seq_no h)) = (S1, r1)" by (metis surj_pair)
  have d': "(store_ok S1 (old @ rest) \<or> store_ok S1 (h # old @ rest) \<and> (\<exists>e. r1 = Inl e)) \<and> persisted S1 = persisted S"
    using delete_event_inv [OF _ d] Cons.prems(1) by simp
  show ?case
  proof (cases r1)
    case (Inl e)
    then have S': "S' = S1" "r = Inl e" using Cons.prems(2) d by simp_all
    from d' consider "store_ok S1 (old @ rest)" | "store_ok S1 ((h # old) @ rest)" by auto
    then show ?thesis
    proof cases
      case 1
      then have "h # old = [h] @ old \<and> store_ok S' (old @ rest) \<and> (r = Inr () \<longrightarrow> old = [])" by (simp add: S')
      with d' S' show ?thesis by blast
    next
      case 2
      then have "h # old = [] @ (h # old) \<and> store_ok S' ((h # old) @ rest) \<and> (r = Inr () \<longrightarrow> h # old = [])" by (simp add: S')
      with d' S' show ?thesis by blast
    qed
  next
    case (Inr u)
    then have "delete_events A S1 old = (S', r)" using Cons.prems(2) d by simp
    then obtain del keep where "old = del @ keep" "store_ok S' (keep @ rest)" "r = Inr () \<longrightarrow> keep = []"
      and p: "persisted S' = persisted S1"
      using Cons.IH [of S1] d' Inr by auto
    then have "h # old = (h # del) @ keep \<and> store_ok S' (keep @ rest) \<and> (r = Inr () \<longrightarrow> keep = [])" by simp
    with d' p show ?thesis by metis
  qed
qed simp

lemma audit_inv_delete:
  assumes "audit_inv a (old @ rest)" and "delete_events A (a_store a) old = (S', r)"
  shows "\<exists>keep. audit_inv (a\<lparr>a_store := S'\<rparr>) (keep @ rest) \<and> set keep \<subseteq> set old \<and> (r = Inr () \<longrightarrow> keep = [])"
    and "next_base (a\<lparr>a_store := S'\<rparr>) = next_base a"
proof -
  have ok: "store_ok (a_store a) (old @ rest)" using assms(1) by (simp add: audit_inv_def)
  obtain del keep where d: "old = del @ keep" "store_ok S' (keep @ rest)" "r = Inr () \<longrightarrow> keep = []"
    and p: "persisted S' = persisted (a_store a)"
    using delete_events_inv [OF ok assms(2)] by auto
  have "writer_ok S' (keep @ rest) w" if "a_writer a = Some w" for w
    using assms(1) that d(1) p by (auto simp: audit_inv_def writer_ok_def)
  then have "audit_inv (a\<lparr>a_store := S'\<rparr>) (keep @ rest)"
    using d(2) by (simp add: audit_inv_def split: option.split)
  then show "\<exists>keep. audit_inv (a\<lparr>a_store := S'\<rparr>) (keep @ rest) \<and> set keep \<subseteq> set old \<and> (r = Inr () \<longrightarrow> keep = [])"
    using d(1,3) by auto
  show "next_base (a\<lparr>a_store := S'\<rparr>) = next_base a"
    using p by (simp add: next_base_def split: option.split)
qed

lemma audit_inv_scan: "audit_inv a hist \<Longrightarrow> scan_enforcement_events A E (a_store a) 0 (- 1) = Ok hist"
  by (rule scan_log) (simp_all add: audit_inv_def store_ok_def)

lemma enforce_retention_inv:
  assumes "audit_inv a hist" and "next_base a \<noteq> - 1" and "\<forall>e\<in>set hist. recorded_at_ms e \<le> now_ms env"
    and "enforce_retention A H E now env a = (a', r)"
  obtains hist' where "audit_inv a' hist'"
proof -
  define cutoff where "cutoff = retention_cutoff now (get_retention_days A (a_store a))"
  define old where "old = filter (\<lambda>e. recorded_at_ms e < cutoff) hist"
  define rest where "rest = filter (\<lambda>e. cutoff \<le> recorded_at_ms e) hist"
  have hist: "hist = old @ rest"
    using assms(1) filter_ge_tail [of recorded_at_ms hist cutoff]
    by (simp add: old_def rest_def audit_inv_def store_ok_def)
  show ?thesis
  proof (cases "old = []")
    case True
    then have "a' = a" using assms(4)
      by (simp add: enforce_retention_def audit_inv_scan [OF assms(1)] Let_def cutoff_def [symmetric] old_def)
    then show ?thesis using that assms(1) by blast
  next
    case False
    obtain S1 r1 where d: "delete_events A (a_store a) old = (S1, r1)" by (metis surj_pair)
    let ?a1 = "a\<lparr>a_store := S1\<rparr>"
    obtain keep where k: "audit_inv ?a1 (keep @ rest)" "set keep \<subseteq> set old"
      using audit_inv_delete(1) [of a old rest S1 r1] assms(1) hist d by auto
    have nb: "next_base ?a1 \<noteq> - 1"
      using audit_inv_delete(2) [of a old rest S1 r1] assms(1,2) hist d by simp
    have tm: "\<forall>e\<in>set (keep @ rest). recorded_at_ms e \<le> now_ms env" using k(2) assms(3) hist by auto
    obtain a2 r2 where rec: "record_event_with_session A H E env ?a1 (prune_request old) None = (a2, r2)"
      by (metis surj_pair)
    obtain hist2 where "audit_inv a2 hist2" using record_event_inv [OF k(1) nb tm rec] by metis
    moreover have "a' = ?a1 \<or> a' = a2"
      using assms(4) False d rec
      by (auto simp: enforce_retention_def audit_inv_scan [OF assms(1)] Let_def cutoff_def [symmetric] old_def [symmetric]
          record_event_def split: sum.splits)
    ultimately show ?thesis using that k(1) by auto
  qed
qed

lemma detect_startup_gap_inv:
  assumes "audit_inv a hist" and "next_base a \<noteq> - 1" and "\<forall>e\<in>set hist. recorded_at_ms e \<le> now_ms env"
    and "detect_startup_gap A H E now env a thr = (a', r)"
  obtains hist' where "audit_inv a' hist'"
proof -
  obtain a1 r1 where sw: "shared_writer A E env a = (a1, r1)" by (metis surj_pair)
  note i1 = shared_writer_inv [OF assms(1) sw]
  consider "a' = a" | "a' = a1" | w S2 w2 r2 t where "r1 = Inr w"
      "detect_and_record_gap A H E env (a_store a1) w t now UnknownCause = (S2, w2, r2)"
      "a' = \<lparr> a_store = S2, a_writer = Some w2 \<rparr>"
    using assms(4)
    by (auto simp: detect_startup_gap_def audit_inv_scan [OF assms(1)] Let_def sw split: if_splits sum.splits prod.splits)
  then show ?thesis
  proof cases
    case 3
    note w = i1(2) [OF 3(1)]
    have "store_ok (a_store a1) hist" using i1(1) by (simp add: audit_inv_def)
    then have "store_ok S2 (hist @ (case r2 of Inl _ \<Rightarrow> [] | Inr e \<Rightarrow> [e]))"
      "writer_ok S2 (hist @ (case r2 of Inl _ \<Rightarrow> [] | Inr e \<Rightarrow> [e])) w2"
      using writer_write_inv [OF _ _ _ assms(3) 3(2) [unfolded detect_and_record_gap_def]] w assms(2) by simp_all
    then show ?thesis using that 3(3) by (simp add: audit_inv_def)
  qed (use that assms(1) i1(1) in blast)+
qed

lemma put_other_inv:
  assumes "audit_inv a hist" and "put_raw A (a_store a) k v = (S', r)"
    and "\<not> starts_with k EVENT_PREFIX" and "k \<noteq> SEQ_KEY"
  shows "audit_inv (a\<lparr>a_store := S'\<rparr>) hist" and "next_base (a\<lparr>a_store := S'\<rparr>) = next_base a"
proof -
  have "store_ok (a_store a) hist" using assms(1) by (simp add: audit_inv_def)
  note p = put_raw_other [OF this assms(2-4)]
  show "audit_inv (a\<lparr>a_store := S'\<rparr>) hist"
    using p assms(1) by (auto simp: audit_inv_def writer_ok_def split: option.splits)
  show "next_base (a\<lparr>a_store := S'\<rparr>) = next_base a"
    using p by (simp add: next_base_def split: option.split)
qed

lemma set_mode_inv:
  assumes "audit_inv a hist" and "next_base a \<noteq> - 1" and "\<forall>e\<in>set hist. recorded_at_ms e \<le> now_ms env"
    and "set_enforcement_mode A H E env a m = (a', r)"
  obtains hist' where "audit_inv a' hist'"
proof -
  obtain S1 r1 where p: "put_raw A (a_store a) ENFORCEMENT_MODE_KEY (of_bytes A (mode_value m)) = (S1, r1)"
    by (metis surj_pair)
  let ?a1 = "a\<lparr>a_store := S1\<rparr>" and ?rq = "mode_request (get_enforcement_mode A (a_store a)) m"
  note i1 = put_other_inv [OF assms(1) p other_keys(3,6)]
  obtain a2 r2 where rec: "record_event_with_session A H E env ?a1 ?rq None = (a2, r2)" by (metis surj_pair)
  obtain hist2 where "audit_inv a2 hist2"
    using record_event_inv [OF i1(1) _ assms(3) rec] i1(2) assms(2) by metis
  moreover have "a' = ?a1 \<or> a' = a2"
    using assms(4) p rec by (auto simp: set_enforcement_mode_def Let_def record_event_def split: sum.splits if_splits)
  ultimately show ?thesis using that i1(1) by auto
qed

end

end
