(* ===== verification/Audit_Steps.thy ===== *)
theory Audit_Steps
  imports Audit_Spec
begin

section \<open>The audit component as a state machine\<close>

text \<open>
  The step relation of the audit component, the preservation of the invariant along every run, and the
  properties of recording, of the settings and of retention, with their witnesses over the in-memory
  store.
\<close>

subsection \<open>Every reachable log is valid\<close>

text \<open>
  The audit component as a state machine. A call is made with the counter not exhausted and with a
  clock that does not run behind the last recorded event; any call may fail at any of its writes.
  A restart forgets the shared writer.
\<close>

definition audit_ready :: "('t, 'x, 'v, 'j) store_api \<Rightarrow> 'v event_api \<Rightarrow> audit_env \<Rightarrow> ('t, 'x) Audit \<Rightarrow> bool" where
  "audit_ready A E env a \<longleftrightarrow> next_seq_base A a \<noteq> - 1 \<and>
     (case scan_enforcement_events A E (a_store a) 0 (- 1) of
        Inl _ \<Rightarrow> True | Inr es \<Rightarrow> list_all (\<lambda>e. recorded_at_ms e \<le> now_ms env) es)"

inductive audit_step ::
  "('t, 'x, 'v, 'j) store_api \<Rightarrow> 's hash_api \<Rightarrow> 'v event_api \<Rightarrow> ('t, 'x) Audit \<Rightarrow> ('t, 'x) Audit \<Rightarrow> bool"
  for A :: "('t, 'x, 'v, 'j) store_api" and H :: "'s hash_api" and E :: "'v event_api" where
  step_record: "audit_ready A E env a \<Longrightarrow> record_event_with_session A H E env a rq s = (a', r) \<Longrightarrow> audit_step A H E a a'"
| step_mode: "audit_ready A E env a \<Longrightarrow> set_enforcement_mode A H E env a m = (a', rm) \<Longrightarrow> audit_step A H E a a'"
| step_days: "set_retention_days A (a_store a) d = (S', ru) \<Longrightarrow> audit_step A H E a (a\<lparr>a_store := S'\<rparr>)"
| step_retain: "audit_ready A E env a \<Longrightarrow> enforce_retention A H E now env a = (a', rp) \<Longrightarrow> audit_step A H E a a'"
| step_gap: "audit_ready A E env a \<Longrightarrow> detect_startup_gap A H E now env a thr = (a', ru) \<Longrightarrow> audit_step A H E a a'"
| step_restart: "audit_step A H E a (a\<lparr>a_writer := None\<rparr>)"

inductive_cases audit_stepE: "audit_step A H E a a'"

context audit_laws
begin

lemma ready_log:
  assumes "audit_inv a hist" and "audit_ready A E env a"
  shows "next_base a \<noteq> - 1" and "\<forall>e\<in>set hist. recorded_at_ms e \<le> now_ms env"
  using assms by (auto simp: audit_ready_def audit_inv_scan list_all_iff)

lemma step_inv:
  assumes "audit_step A H E a a'" and "audit_inv a hist"
  shows "\<exists>hist'. audit_inv a' hist'"
  using assms(1)
proof cases
  case (step_record env rq s r)
  then show ?thesis
    using record_event_inv [OF assms(2) ready_log [OF assms(2)]] by metis
next
  case (step_mode env m rm)
  then show ?thesis using set_mode_inv [OF assms(2) ready_log [OF assms(2)]] by metis
next
  case (step_days d S' ru)
  then show ?thesis
    using put_other_inv(1) [OF assms(2), of RETENTION_DAYS_KEY] by (auto simp: set_retention_days_def)
next
  case (step_retain env now rp)
  then show ?thesis using enforce_retention_inv [OF assms(2) ready_log [OF assms(2)]] by metis
next
  case (step_gap env now thr ru)
  then show ?thesis using detect_startup_gap_inv [OF assms(2) ready_log [OF assms(2)]] by metis
next
  case step_restart
  then show ?thesis using assms(2) by (auto simp: audit_inv_def)
qed

lemma run_inv:
  assumes "(audit_step A H E)\<^sup>*\<^sup>* a a'" and "audit_inv a hist"
  shows "\<exists>hist'. audit_inv a' hist'"
  using assms by (induction rule: rtranclp_induct) (use step_inv in blast)+

lemma chained_valid:
  assumes "audit_inv a hist" shows "is_valid (verify_chain H hist)"
proof -
  have "sort_key seq_no hist = hist"
    using assms by (intro sorted_distinct_sort_key) (simp add: audit_inv_def store_ok_def log_holds_def)
  then show ?thesis using assms by (simp add: is_valid_chained audit_inv_def store_ok_def)
qed

lemma run_valid:
  assumes "(audit_step A H E)\<^sup>*\<^sup>* a a'" and "audit_inv a hist"
  shows "\<exists>es. scan_enforcement_events A E (a_store a') 0 (- 1) = Ok es \<and> is_valid (verify_chain H es)"
  using run_inv [OF assms] audit_inv_scan chained_valid by blast

lemma record_effect:
  assumes "audit_inv a hist" and "audit_ready A E env a"
    and "record_event_with_session A H E env a rq s = (a', r)"
  shows "\<exists>hist'. audit_inv a' hist' \<and> hist' = hist @ (case r of Inr (Some e) \<Rightarrow> [e] | _ \<Rightarrow> [])"
  by (rule record_event_inv [OF assms(1) ready_log [OF assms(1,2)] assms(3)]) auto

lemma fresh_inv:
  assumes "sound S" and "\<And>k. starts_with k EVENT_PREFIX \<Longrightarrow> content S k = None"
  shows "audit_inv \<lparr> a_store = S, a_writer = None \<rparr> []"
  using assms by (auto simp: audit_inv_def store_ok_def log_holds_def)

end

subsection \<open>An in-memory log\<close>

fun cell_event :: "('e, 'j) cell \<Rightarrow> 'e option" where
  "cell_event (DataCell e) = Some e"
| "cell_event _ = None"

definition mem_events :: "(EnforcementEvent, 'j) cell event_api" where
  "mem_events = \<lparr> ev_encode = (\<lambda>e. Some (DataCell e)), ev_decode = cell_event \<rparr>"

interpretation mem_log: audit_laws mem_store mem_view mem_healthy H mem_events for H
  by unfold_locales (simp add: mem_events_def)

subsection \<open>Demonstration data\<close>

type_synonym demo_audit = "((EnforcementEvent, jvalue) cell mem_tree, bool \<times> string list) Audit"

abbreviation audit_api ::
  "((EnforcementEvent, jvalue) cell mem_tree, bool \<times> string list, (EnforcementEvent, jvalue) cell, jvalue) store_api" where
  "audit_api \<equiv> mem_store"

abbreviation audit_events :: "(EnforcementEvent, jvalue) cell event_api" where
  "audit_events \<equiv> mem_events"

definition audit_start :: demo_audit where
  "audit_start = \<lparr> a_store = empty_store, a_writer = None \<rparr>"

definition audit_clock :: "u64 \<Rightarrow> audit_env" where
  "audit_clock t = \<lparr> now_ms = t, uuid7 = ''u7'', uuid4 = ''u4'', env_user = None, env_username = None, env_uid = None \<rparr>"

definition deny_request :: event_request where
  "deny_request = \<lparr> rq_event_type = DenyEvent, rq_subject_kind = SubjectControl, rq_subject_key = ''k'',
     rq_agent_type = ''claude'', rq_receipt_id = None, rq_reason_code = ''r'', rq_basis_hash = None \<rparr>"

lemma start_inv: "audit_invariant audit_api mem_view mem_healthy demo_hash audit_events audit_start []"
  unfolding audit_start_def
  by (rule mem_log.fresh_inv)
     (simp_all add: store_sound_def mem_healthy_def store_content_def mem_view_def empty_store_def empty_tree_def
       tree_for_def tree_of_def split: Durability.split)

lemma start_ready: "audit_ready audit_api audit_events (audit_clock 5) audit_start"
  using mem_log.audit_inv_scan [OF start_inv]
  by (simp add: audit_ready_def next_seq_base_def persisted_seq_def seq_load_def get_raw_bytes_def audit_start_def
      mem_store_def mem_get_def empty_store_def empty_tree_def tree_for_def tree_of_def split: Durability.split)

subsection \<open>Properties of recording\<close>

text \<open>
  C3. Whatever calls are made, in whatever order, with failures at any write, restarts, mode changes,
  startup gaps and retention runs in between: scanning the log succeeds and what it returns passes
  \<open>verify_chain\<close>. (The counter is not exhausted and the clock does not run behind the last event.)
\<close>

theorem audit_log_always_valid:
  assumes "audit_laws A view healthy E" and "audit_invariant A view healthy H E a hist"
    and "(audit_step A H E)\<^sup>*\<^sup>* a a'"
  shows "\<exists>es. scan_enforcement_events A E (a_store a') 0 (- 1) = Ok es \<and> is_valid (verify_chain H es)"
  using audit_laws.run_valid [OF assms(1,3,2)] .

theorem audit_log_always_valid_witness:
  "\<exists>es. scan_enforcement_events audit_api audit_events
       (a_store (fst (record_event audit_api demo_hash audit_events (audit_clock 5) audit_start deny_request))) 0 (- 1) = Ok es
     \<and> is_valid (verify_chain demo_hash es)"
  by (rule audit_log_always_valid [OF mem_log.audit_laws_axioms start_inv])
     (rule r_into_rtranclp, rule audit_step.step_record [OF start_ready], unfold record_event_def, rule prod.collapse [symmetric])

text \<open>
  C6. Recording appends: an event that is returned is the log's new last event, with a larger sequence
  number than all others, linked to the event before it; a call that returns no event leaves the log
  as it was. Either way every earlier event is still there, unchanged.
\<close>

theorem record_event_appends:
  assumes "audit_laws A view healthy E" and "audit_invariant A view healthy H E a hist"
    and "audit_ready A E env a" and "record_event_with_session A H E env a rq s = (a', r)"
  shows "\<exists>new. scan_enforcement_events A E (a_store a') 0 (- 1) = Ok (hist @ new)
           \<and> audit_invariant A view healthy H E a' (hist @ new)
           \<and> new = (case r of Inr (Some e) \<Rightarrow> [e] | _ \<Rightarrow> [])"
  using audit_laws.record_effect [OF assms] audit_laws.audit_inv_scan [OF assms(1)] by blast

theorem record_event_appends_witness:
  "\<exists>e. scan_enforcement_events audit_api audit_events
       (a_store (fst (record_event_with_session audit_api demo_hash audit_events (audit_clock 5) audit_start deny_request None))) 0 (- 1) = Ok [e]
     \<and> seq_no e = 1"
proof -
  let ?r = "record_event_with_session audit_api demo_hash audit_events (audit_clock 5) audit_start deny_request None"
  have "\<exists>e. snd ?r = Inr (Some e) \<and> seq_no e = 1"
    by (simp add: record_event_with_session_def shared_writer_def writer_new_def get_or_create_installation_id_def
        seq_load_def load_last_hash_def scan_keys_def prefix_end_def writer_write_def seq_next_def put_raw_def
        unhashed_event_def get_enforcement_mode_def get_raw_bytes_def mem_events_def audit_start_def
        SEQ_KEY_def INSTALLATION_ID_KEY_def EVENT_PREFIX_def ENFORCEMENT_MODE_KEY_def event_key_def
        map_filter_simps mem_eval)
  then show ?thesis
    using record_event_appends [OF mem_log.audit_laws_axioms start_inv start_ready prod.collapse [symmetric], of deny_request None]
    by auto
qed

text \<open>
  The enforcement mode decides what a failed write means: in advisory mode recording never returns an
  error (the event is dropped and the caller sees \<open>None\<close>), in strict mode it never returns without an event.
\<close>

theorem record_event_mode:
  assumes "record_event_with_session A H E env a rq s = (a', r)"
  shows "case get_enforcement_mode A (a_store a) of
           Advisory \<Rightarrow> \<exists>x. r = Ok x
         | Strict \<Rightarrow> (\<exists>e. r = Ok (Some e)) \<or> (\<exists>err. r = Err err)"
  using assms
  by (auto simp: record_event_with_session_def Let_def split: prod.splits sum.splits EnforcementMode.splits)

theorem record_event_mode_witness:
  "\<exists>x. snd (record_event_with_session audit_api demo_hash audit_events (audit_clock 5) audit_start deny_request None) = Ok x"
  using record_event_mode [OF prod.collapse [symmetric], of audit_api demo_hash audit_events "audit_clock 5" audit_start deny_request None]
  by (simp add: get_enforcement_mode_def get_raw_bytes_def audit_start_def ENFORCEMENT_MODE_KEY_def mem_eval)

subsection \<open>Settings and retention\<close>

text \<open>
  A retention period that was set is the one that is read back, for every 64-bit number of days.
\<close>

theorem retention_days_roundtrip:
  assumes "store_laws A view healthy" and "store_sound healthy S"
    and "set_retention_days A S d = (S', Ok ())"
  shows "get_retention_days A S' = d"
proof -
  have "store_content view S' RETENTION_DAYS_KEY = Some (of_bytes A (show_u64 d))" "store_sound healthy S'"
    using store_laws.put_raw_ok [OF assms(1) assms(3) [unfolded set_retention_days_def]] assms(2) by simp_all
  then have "get_raw_bytes A S' RETENTION_DAYS_KEY = Ok (Some (of_bytes A (show_u64 d)))"
    using store_laws.get_raw_content [OF assms(1)] by metis
  moreover have "utf8_ok (show_u64 d)"
    by (intro utf8_ok_ascii digits_ascii) (simp add: show_u64_def show_nat_digits)
  moreover have "parse_u64 (show_u64 d) = Some d" using parse_u64_pad_show [of 0 d] by (simp add: zero_pad_def)
  ultimately show ?thesis by (simp add: get_retention_days_def store_laws.bytes_id [OF assms(1)])
qed

theorem retention_days_roundtrip_witness:
  "get_retention_days demo_api (fst (set_retention_days demo_api demo_empty 30)) = 30"
proof -
  have "set_retention_days demo_api demo_empty 30 = (fst (set_retention_days demo_api demo_empty 30), Ok ())"
    by (simp add: set_retention_days_def put_raw_def RETENTION_DAYS_KEY_def mem_eval)
  then show ?thesis by (rule retention_days_roundtrip [OF mem.store_laws_axioms demo_sound(1)])
qed

text \<open>
  As long as the retention period in milliseconds fits in 64 bits, no event younger than the period
  is older than the cutoff, so none is pruned.
\<close>

theorem retention_keeps_recent:
  assumes "unat days * 86400000 < 2 ^ 64" and "unat now - unat t \<le> unat days * 86400000"
  shows "\<not> t < retention_cutoff now days"
proof -
  have "unat (days * 86400000) = unat days * 86400000"
    using assms(1) by (simp add: unat_word_ariths)
  then have "unat (retention_cutoff now days) = unat now - unat days * 86400000"
    by (simp add: retention_cutoff_def unat_sat_sub)
  then show ?thesis using assms(2) by (simp add: word_less_nat_alt)
qed

theorem retention_keeps_recent_witness:
  "\<not> (1700000000000 :: u64) < retention_cutoff 1700000500000 365"
  by (rule retention_keeps_recent) simp_all

text \<open>
  Beyond that bound the multiplication wraps: with a period of 213503982335 days the cutoff is less
  than ten hours in the past, so the next retention run deletes everything older than that.
\<close>

theorem retention_wraps:
  "retention_cutoff now 213503982335 = sat_sub now 34448384"
proof -
  have "(213503982335 * 86400000 :: u64) = 34448384" by (simp add: word_uint_eq_iff uint_word_ariths)
  then show ?thesis unfolding retention_cutoff_def by (rule arg_cong)
qed

end
