(* ===== verification/Impact.thy ===== *)
theory Impact
  imports Graph_Spec
begin

section \<open>Impact analysis (\<open>analysis/blast_radius.rs\<close>, \<open>analysis/propagation.rs\<close>)\<close>

text \<open>
  How many files depend on a file, and how much of a file's staleness its importers inherit, both
  over the \<open>Imports\<close> edges of the graph. Hash sets of keys are sets, hash maps are maps; their iteration
  order is not observable in the results.
\<close>

subsection \<open>Blast radius\<close>

definition TRANSITIVE_WEIGHT :: f32 where "TRANSITIVE_WEIGHT = r32 (3/10)"
definition TRANSITIVE_DEPTH :: nat where "TRANSITIVE_DEPTH = 3"

definition from_direct_count :: "u32 \<Rightarrow> BlastTier" where
  "from_direct_count direct =
     (if direct = 0 then Isolated
      else if direct \<le> 5 then BlastLow
      else if direct \<le> 15 then Moderate
      else if direct \<le> 40 then BlastHigh
      else BlastCritical)"

fun blast_label :: "BlastTier \<Rightarrow> string" where
  "blast_label Isolated = ''isolated''"
| "blast_label BlastLow = ''low''"
| "blast_label Moderate = ''moderate''"
| "blast_label BlastHigh = ''high''"
| "blast_label BlastCritical = ''critical''"

text \<open>Score and tier from the two counts, as both computations end.\<close>

definition blast_of :: "u32 \<Rightarrow> u32 \<Rightarrow> BlastRadius" where
  "blast_of direct transitive =
     \<lparr> b_direct = direct, b_transitive = transitive,
       b_score = f32_add (f32_of_nat (unat direct)) (f32_mul (f32_of_nat (unat transitive)) TRANSITIVE_WEIGHT),
       b_tier = from_direct_count direct \<rparr>"

definition blast_compute :: "'g digraph_api \<Rightarrow> string \<Rightarrow> ('g, 't, 'x) Graph \<Rightarrow> BlastRadius" where
  "blast_compute P file_key g =
     (let direct_set = set (neighbors_incoming P g file_key Imports);
          all_ancestors = set (traverse_incoming P g file_key Imports TRANSITIVE_DEPTH)
      in blast_of (word_of_nat (card direct_set)) (word_of_nat (card (all_ancestors - direct_set))))"

text \<open>One level of the batch computation: the importers of the frontier that are new.\<close>

fun add_parents :: "string list \<Rightarrow> string set \<Rightarrow> string list \<Rightarrow> string set \<times> string list" where
  "add_parents [] ancestors next_frontier = (ancestors, next_frontier)"
| "add_parents (p # ps) ancestors next_frontier =
     (if p \<in> ancestors then add_parents ps ancestors next_frontier
      else add_parents ps (insert p ancestors) (next_frontier @ [p]))"

fun gather ::
  "(string \<rightharpoonup> string list) \<Rightarrow> string list \<Rightarrow> string set \<Rightarrow> string list \<Rightarrow> string set \<times> string list" where
  "gather adj [] ancestors next_frontier = (ancestors, next_frontier)"
| "gather adj (node # nodes) ancestors next_frontier =
     (let r = add_parents (unwrap_or (adj node) []) ancestors next_frontier
      in gather adj nodes (fst r) (snd r))"

fun ancestor_levels :: "(string \<rightharpoonup> string list) \<Rightarrow> nat \<Rightarrow> string list \<Rightarrow> string set \<Rightarrow> string set" where
  "ancestor_levels adj 0 frontier ancestors = ancestors"
| "ancestor_levels adj (Suc k) frontier ancestors =
     (let r = gather adj frontier ancestors []
      in if snd r = [] then fst r else ancestor_levels adj k (snd r) (fst r))"

definition blast_compute_one :: "(string \<rightharpoonup> string list) \<Rightarrow> string \<Rightarrow> BlastRadius" where
  "blast_compute_one adj file_key =
     (let direct_vec = unwrap_or (adj file_key) [];
          direct_set = set direct_vec;
          all_ancestors = ancestor_levels adj (TRANSITIVE_DEPTH - 1) direct_vec direct_set
      in blast_of (word_of_nat (card direct_set)) (word_of_nat (card all_ancestors - card direct_set)))"

definition blast_compute_all ::
  "'g digraph_api \<Rightarrow> ('g, 't, 'x) Graph \<Rightarrow> string list \<Rightarrow> string \<rightharpoonup> BlastRadius" where
  "blast_compute_all P g file_keys =
     (let adj = reverse_adjacency P g Imports
      in foldl (\<lambda>m k. m(k \<mapsto> blast_compute_one adj k)) Map.empty file_keys)"

subsection \<open>Staleness propagation\<close>

definition STALE_THRESHOLD :: f32 where "STALE_THRESHOLD = r32 (4/10)"
definition PROPAGATION_D1 :: f32 where "PROPAGATION_D1 = r32 (15/100)"
definition PROPAGATION_D2 :: f32 where "PROPAGATION_D2 = r32 (5/100)"
definition TOMBSTONE_THRESHOLD :: f32 where "TOMBSTONE_THRESHOLD = r32 (8/10)"

definition propagated_default :: PropagatedStaleness where
  "propagated_default = \<lparr> ps_value = Fin 0, ps_source_count = 0, ps_primary_source = None \<rparr>"

definition apply_propagation ::
  "(string \<rightharpoonup> PropagatedStaleness) \<Rightarrow> string \<Rightarrow> f32 \<Rightarrow> string \<Rightarrow> (string \<rightharpoonup> PropagatedStaleness)" where
  "apply_propagation res target_key bump source_path =
     (let entry = unwrap_or (res target_key) propagated_default;
          counted = entry\<lparr>ps_source_count := ps_source_count entry + 1\<rparr>
      in res(target_key \<mapsto>
           if flt_lt (ps_value counted) bump
           then counted\<lparr>ps_value := bump, ps_primary_source := Some source_path\<rparr> else counted))"

definition propagate_from ::
  "'g digraph_api \<Rightarrow> ('g, 't, 'x) Graph \<Rightarrow> (string \<rightharpoonup> PropagatedStaleness) \<Rightarrow> 'j Record
   \<Rightarrow> (string \<rightharpoonup> PropagatedStaleness)" where
  "propagate_from P g res rec =
     (let s = s_value (r_staleness rec)
      in if flt_lt s STALE_THRESHOLD then res
         else if flt_ge s TOMBSTONE_THRESHOLD then res
         else let source_key = r_key rec;
                  source_path = unwrap_or (strip_prefix source_key ''file:'') source_key;
                  d1 = neighbors_incoming P g source_key Imports;
                  d1_bump = f32_mul s PROPAGATION_D1;
                  res1 = foldl (\<lambda>m i. apply_propagation m i d1_bump source_path) res d1;
                  d2_bump = f32_mul s PROPAGATION_D2
              in foldl (\<lambda>m i.
                     foldl (\<lambda>m j. if j = source_key then m
                                  else if j \<in> set d1 then m
                                  else apply_propagation m j d2_bump source_path)
                       m (neighbors_incoming P g i Imports))
                   res1 d1)"

definition compute_propagation ::
  "'g digraph_api \<Rightarrow> 'j Record list \<Rightarrow> ('g, 't, 'x) Graph \<Rightarrow> string \<rightharpoonup> PropagatedStaleness" where
  "compute_propagation P file_records g = foldl (propagate_from P g) Map.empty file_records"

end
