(* ===== verification/Impact_Spec.thy ===== *)
theory Impact_Spec
  imports Impact Graph_Sync Store_Spec
begin

section \<open>Properties of the impact analysis\<close>

text \<open>
  The batch computation of the blast radius agrees with the single one on files that are not on a
  short import cycle, and counts such a file as its own importer otherwise. Propagated staleness is the
  maximum of the contributions, and stays below the threshold at which it would spread further.
\<close>

subsection \<open>Importers\<close>

context digraph_laws
begin

abbreviation importers :: "('g, 't, 'x) Graph \<Rightarrow> string \<Rightarrow> string set" where
  "importers g t \<equiv> {f. (f, t) \<in> edge_rel g Imports}"

lemma reverse_adjacency_foldl:
  "set (unwrap_or (foldl (\<lambda>adj (a, k, b). if k = kind then adj(w b \<mapsto> unwrap_or (adj (w b)) [] @ [w a]) else adj) adj es t) [])
     = set (unwrap_or (adj t) []) \<union> {w a | a b. (a, kind, b) \<in> set es \<and> w b = t}"
proof (induction es arbitrary: adj)
  case (Cons e es)
  obtain a k b where e: "e = (a, k, b)" by (metis prod_cases3)
  show ?case by (cases "k = kind"; cases "w b = t") (auto simp: Cons.IH e)
qed simp

lemma reverse_adjacency_set:
  assumes "ok g"
  shows "set (unwrap_or (reverse_adjacency P g Imports t) []) = importers g t"
proof -
  have s: "set (dg_edge_references P (inner g)) = set_mset (dedges (inner g))"
    using edge_refs by (metis set_mset_mset)
  have "f \<in> importers g t \<longleftrightarrow> (\<exists>a b. (a, Imports, b) \<in># dedges (inner g) \<and> dg_weight P (inner g) b = t \<and> dg_weight P (inner g) a = f)" for f
  proof
    assume "f \<in> importers g t"
    then obtain a b where ab: "node_index g f = Some a" "node_index g t = Some b" "(a, b, Imports) \<in> edge_set g"
      by (auto simp: edge_rel_def has_edge_iff)
    then have "(a, Imports, b) \<in># dedges (inner g)" using assms by (simp add: graph_ok_def)
    then show "\<exists>a b. (a, Imports, b) \<in># dedges (inner g) \<and> dg_weight P (inner g) b = t \<and> dg_weight P (inner g) a = f"
      using ab ok_index [OF assms] by blast
  next
    assume "\<exists>a b. (a, Imports, b) \<in># dedges (inner g) \<and> dg_weight P (inner g) b = t \<and> dg_weight P (inner g) a = f"
    then obtain a b where ab: "(a, Imports, b) \<in># dedges (inner g)" "dg_weight P (inner g) b = t" "dg_weight P (inner g) a = f" by blast
    then have "a < dg_node_count P (inner g)" "b < dg_node_count P (inner g)" using assms unfolding graph_ok_def by blast+
    then show "f \<in> importers g t" using edge_rel_index(1) [OF assms, of a t] ab by blast
  qed
  then show ?thesis
    unfolding reverse_adjacency_def reverse_adjacency_foldl s by auto
qed

end

subsection \<open>Levels of ancestors\<close>

definition parents :: "(string \<rightharpoonup> string list) \<Rightarrow> string \<Rightarrow> string set" where
  "parents adj x = set (unwrap_or (adj x) [])"

definition reach :: "(string \<Rightarrow> string set) \<Rightarrow> string \<Rightarrow> nat \<Rightarrow> string set" where
  "reach par k d = {t. \<exists>m. 1 \<le> m \<and> m \<le> d \<and> (k, t) \<in> {(x, y). y \<in> par x} ^^ m}"

lemma reach_1: "reach par k 1 = par k"
  by (auto simp: reach_def le_Suc_eq)

lemma reach_Suc:
  assumes "1 \<le> d" shows "reach par k (Suc d) = reach par k d \<union> (\<Union>x\<in>reach par k d. par x)"
proof (intro set_eqI iffI)
  let ?R = "{(x, y). y \<in> par x}"
  fix t
  { assume "t \<in> reach par k (Suc d)"
    then obtain m where m: "1 \<le> m" "m \<le> Suc d" "(k, t) \<in> ?R ^^ m" by (auto simp: reach_def)
    show "t \<in> reach par k d \<union> (\<Union>x\<in>reach par k d. par x)"
    proof (cases "m \<le> d")
      case False
      with m obtain x where "(k, x) \<in> ?R ^^ d" "(x, t) \<in> ?R" by (metis le_Suc_eq relpow_Suc_E)
      then show ?thesis using assms by (auto simp: reach_def)
    qed (use m in \<open>auto simp: reach_def\<close>)
  next
    assume "t \<in> reach par k d \<union> (\<Union>x\<in>reach par k d. par x)"
    then show "t \<in> reach par k (Suc d)"
    proof
      assume "t \<in> (\<Union>x\<in>reach par k d. par x)"
      then obtain x m where "1 \<le> m" "m \<le> d" "(k, x) \<in> ?R ^^ m" "(x, t) \<in> ?R" by (auto simp: reach_def)
      then have "1 \<le> Suc m" "Suc m \<le> Suc d" "(k, t) \<in> ?R ^^ Suc m" by (auto intro: relpow_Suc_I)
      then show ?thesis unfolding reach_def by blast
    qed (auto simp: reach_def)
  }
qed

lemma reach_mono: "d \<le> d' \<Longrightarrow> reach par k d \<subseteq> reach par k d'"
  by (auto simp: reach_def intro: le_trans)

lemma reach_closed:
  assumes "1 \<le> d" and "(\<Union>x\<in>reach par k d. par x) \<subseteq> reach par k d"
  shows "reach par k (d + n) = reach par k d"
  by (induction n) (use assms in \<open>auto simp: reach_Suc\<close>)

lemma add_parents_spec:
  "fst (add_parents ps anc nf) = anc \<union> set ps \<and> set (snd (add_parents ps anc nf)) = set nf \<union> (set ps - anc)"
  by (induction ps anc nf rule: add_parents.induct) auto

lemma gather_spec:
  "fst (gather adj ns anc nf) = anc \<union> (\<Union>x\<in>set ns. parents adj x)
   \<and> set (snd (gather adj ns anc nf)) = set nf \<union> ((\<Union>x\<in>set ns. parents adj x) - anc)"
proof (induction adj ns anc nf rule: gather.induct)
  case (2 adj n ns anc nf)
  then show ?case using add_parents_spec [of "unwrap_or (adj n) []" anc nf] by (auto simp: Let_def parents_def)
qed simp

lemma ancestor_levels_reach:
  assumes "1 \<le> d" and "anc = reach (parents adj) k d" and "set frontier \<subseteq> anc"
    and "\<And>x. x \<in> anc \<Longrightarrow> x \<notin> set frontier \<Longrightarrow> parents adj x \<subseteq> anc"
  shows "ancestor_levels adj n frontier anc = reach (parents adj) k (d + n)"
  using assms
proof (induction n arbitrary: d frontier anc)
  case (Suc n)
  let ?r = "gather adj frontier anc []"
  have f: "fst ?r = anc \<union> (\<Union>x\<in>set frontier. parents adj x)"
    and s: "set (snd ?r) = (\<Union>x\<in>set frontier. parents adj x) - anc"
    using gather_spec [of adj frontier anc "[]"] by auto
  have fr: "fst ?r = reach (parents adj) k (Suc d)"
  proof -
    have "(\<Union>x\<in>anc. parents adj x) \<subseteq> anc \<union> (\<Union>x\<in>set frontier. parents adj x)" using Suc.prems(4) by blast
    moreover have "(\<Union>x\<in>set frontier. parents adj x) \<subseteq> (\<Union>x\<in>anc. parents adj x)" using Suc.prems(3) by blast
    ultimately show ?thesis unfolding f reach_Suc [OF Suc.prems(1)] Suc.prems(2) [symmetric] by blast
  qed
  show ?case
  proof (cases "snd ?r = []")
    case True
    then have "fst ?r = anc" using f s by auto
    then have "reach (parents adj) k (Suc d) = reach (parents adj) k d" using fr Suc.prems(2) by simp
    then have "(\<Union>x\<in>reach (parents adj) k d. parents adj x) \<subseteq> reach (parents adj) k d"
      using reach_Suc [OF Suc.prems(1), of "parents adj" k] by blast
    then have "reach (parents adj) k (d + Suc n) = reach (parents adj) k d"
      by (rule reach_closed [OF Suc.prems(1)])
    then show ?thesis using True \<open>fst ?r = anc\<close> Suc.prems(2) by (simp add: Let_def)
  next
    case False
    have "ancestor_levels adj n (snd ?r) (fst ?r) = reach (parents adj) k (Suc d + n)"
    proof (rule Suc.IH [OF _ fr])
      show "parents adj x \<subseteq> fst ?r" if "x \<in> fst ?r" "x \<notin> set (snd ?r)" for x
        using that Suc.prems(4) [of x] unfolding f s by blast
    qed (use f s in auto)
    then show ?thesis using False by (simp add: Let_def)
  qed
qed simp

lemma compute_one_reach:
  "blast_compute_one adj k = blast_of (word_of_nat (card (parents adj k)))
     (word_of_nat (card (reach (parents adj) k 3) - card (parents adj k)))"
proof -
  have "ancestor_levels adj 2 (unwrap_or (adj k) []) (set (unwrap_or (adj k) [])) = reach (parents adj) k (1 + 2)"
    by (rule ancestor_levels_reach) (use reach_1 [of "parents adj" k] in \<open>auto simp: parents_def\<close>)
  then show ?thesis
    by (simp add: blast_compute_one_def Let_def TRANSITIVE_DEPTH_def parents_def numeral_2_eq_2 numeral_3_eq_3)
qed

lemma foldl_map_upd: "foldl (\<lambda>m k. m(k \<mapsto> f k)) m ks k = (if k \<in> set ks then Some (f k) else m k)"
  by (induction ks arbitrary: m) auto

subsection \<open>Both computations\<close>

context digraph_laws
begin

lemma importers_parents:
  assumes "ok g" shows "parents (reverse_adjacency P g Imports) = importers g"
  using reverse_adjacency_set [OF assms] by (simp add: parents_def fun_eq_iff)

lemma relpow_importers:
  "{(x, y). (y, x) \<in> edge_rel g Imports} = (edge_rel g Imports)\<inverse>"
  by auto

lemma traverse_incoming_set:
  assumes "ok g" and "1 \<le> d"
  shows "set (traverse_incoming P g k Imports d) = reach (importers g) k d - {k}"
proof -
  have "(\<exists>m\<le>d. (k, f) \<in> ((edge_rel g Imports)\<inverse>) ^^ m) \<longleftrightarrow> f = k \<or> (\<exists>m. 1 \<le> m \<and> m \<le> d \<and> (k, f) \<in> ((edge_rel g Imports)\<inverse>) ^^ m)" for f
    by (metis Nat.le0 One_nat_def Suc_leI bot_nat_0.not_eq_extremum pair_in_Id_conv relpow.simps(1))
  then show ?thesis
    using traverse_incoming_reach [OF assms(1), of k Imports d]
    by (auto simp: reach_def relpow_importers)
qed

lemma finite_importers:
  assumes "ok g" shows "finite (importers g t)"
  using reverse_adjacency_set [OF assms] by (metis List.finite_set)

lemma finite_reach:
  assumes "ok g" and "1 \<le> d" shows "finite (reach (importers g) k d)"
  using assms(2)
proof (induction d rule: nat_induct_at_least)
  case base
  then show ?case using finite_importers [OF assms(1)] by (simp add: reach_1 [simplified])
next
  case (Suc d)
  then show ?case using finite_importers [OF assms(1)] by (simp add: reach_Suc)
qed

text \<open>Both computations in terms of the importers within three steps.\<close>

lemma compute_counts:
  assumes "ok g"
  shows "blast_compute P k g = blast_of (word_of_nat (card (importers g k - {k})))
      (word_of_nat (card (reach (importers g) k 3 - {k} - (importers g k - {k}))))"
  using traverse_incoming_set [OF assms, of 1 k] traverse_incoming_set [OF assms, of 3 k]
  by (simp add: blast_compute_def neighbors_incoming_def TRANSITIVE_DEPTH_def Let_def reach_1 [simplified])

lemma compute_all_counts:
  assumes "ok g" and "k \<in> set ks"
  shows "blast_compute_all P g ks k = Some (blast_of (word_of_nat (card (importers g k)))
      (word_of_nat (card (reach (importers g) k 3 - importers g k))))"
proof -
  have sub: "importers g k \<subseteq> reach (importers g) k 3"
    using reach_mono [of 1 3 "importers g" k] by (simp add: reach_1 [simplified])
  have "card (reach (importers g) k 3 - importers g k) = card (reach (importers g) k 3) - card (importers g k)"
    using card_Diff_subset [OF finite_importers [OF assms(1)] sub] .
  then show ?thesis
    using assms(2) by (simp add: blast_compute_all_def Let_def foldl_map_upd compute_one_reach importers_parents [OF assms(1)])
qed

lemma compute_all_same:
  assumes "ok g" and "k \<in> set ks" and "k \<notin> reach (importers g) k 3"
  shows "blast_compute_all P g ks k = Some (blast_compute P k g)"
proof -
  have "k \<notin> importers g k"
    using assms(3) reach_mono [of 1 3 "importers g" k] by (auto simp: reach_1 [simplified])
  then show ?thesis using assms(3) by (simp add: compute_counts [OF assms(1)] compute_all_counts [OF assms(1,2)])
qed

lemma compute_all_cycle:
  assumes "ok g" and "k \<in> set ks" and "k \<in> reach (importers g) k 3" and "k \<notin> importers g k"
  shows "\<exists>b. blast_compute_all P g ks k = Some b \<and> b_direct b = b_direct (blast_compute P k g)
      \<and> b_transitive b = b_transitive (blast_compute P k g) + 1"
proof -
  let ?R = "reach (importers g) k 3" and ?I = "importers g k"
  have "finite ?R" by (rule finite_reach [OF assms(1)]) simp
  moreover have "?R - ?I = insert k (?R - {k} - ?I)" using assms(3,4) by blast
  ultimately have "card (?R - ?I) = Suc (card (?R - {k} - ?I))" by simp
  then show ?thesis using assms(4)
    by (simp add: compute_counts [OF assms(1)] compute_all_counts [OF assms(1,2)] blast_of_def)
qed

end

subsection \<open>Propagation as a list of contributions\<close>

definition sources :: "'j Record \<Rightarrow> bool" where
  "sources rec \<longleftrightarrow> \<not> flt_lt (s_value (r_staleness rec)) STALE_THRESHOLD
                 \<and> \<not> flt_ge (s_value (r_staleness rec)) TOMBSTONE_THRESHOLD"

definition contributions :: "'g digraph_api \<Rightarrow> ('g, 't, 'x) Graph \<Rightarrow> 'j Record \<Rightarrow> (string \<times> f32 \<times> string) list" where
  "contributions P g rec =
     (let s = s_value (r_staleness rec); path = unwrap_or (strip_prefix (r_key rec) ''file:'') (r_key rec);
          d1 = neighbors_incoming P g (r_key rec) Imports
      in if sources rec
         then map (\<lambda>i. (i, f32_mul s PROPAGATION_D1, path)) d1
            @ concat (map (\<lambda>i. map (\<lambda>j. (j, f32_mul s PROPAGATION_D2, path))
                (filter (\<lambda>j. j \<noteq> r_key rec \<and> j \<notin> set d1) (neighbors_incoming P g i Imports))) d1)
         else [])"

definition apply_contribution ::
  "(string \<rightharpoonup> PropagatedStaleness) \<Rightarrow> string \<times> f32 \<times> string \<Rightarrow> (string \<rightharpoonup> PropagatedStaleness)" where
  "apply_contribution m c = apply_propagation m (fst c) (fst (snd c)) (snd (snd c))"

lemma foldl_concat_map: "foldl f a (concat (map h xs)) = foldl (\<lambda>b x. foldl f b (h x)) a xs"
  by (induction xs arbitrary: a) simp_all

lemma foldl_filter: "foldl f a (filter p xs) = foldl (\<lambda>b x. if p x then f b x else b) a xs"
  by (induction xs arbitrary: a) simp_all

lemma propagate_from_contributions:
  "propagate_from P g m rec = foldl apply_contribution m (contributions P g rec)"
proof -
  have c: "(\<lambda>m j. if j = s then m else if j \<in> D then m else F m j) = (\<lambda>m j. if j \<noteq> s \<and> j \<notin> D then F m j else m)"
    for s D and F :: "(string \<rightharpoonup> PropagatedStaleness) \<Rightarrow> string \<Rightarrow> (string \<rightharpoonup> PropagatedStaleness)"
    by (intro ext) simp
  show ?thesis
    by (simp add: propagate_from_def contributions_def sources_def Let_def foldl_concat_map foldl_map foldl_filter
        apply_contribution_def c)
qed

lemma compute_propagation_contributions:
  "compute_propagation P recs g = foldl apply_contribution Map.empty (concat (map (contributions P g) recs))"
  by (simp add: compute_propagation_def foldl_concat_map propagate_from_contributions [abs_def])

text \<open>What the contributions to one target do to its entry.\<close>

definition bump_entry :: "PropagatedStaleness \<Rightarrow> string \<times> f32 \<times> string \<Rightarrow> PropagatedStaleness" where
  "bump_entry e c =
     (let counted = e\<lparr>ps_source_count := ps_source_count e + 1\<rparr>
      in if flt_lt (ps_value counted) (fst (snd c))
         then counted\<lparr>ps_value := fst (snd c), ps_primary_source := Some (snd (snd c))\<rparr> else counted)"

lemma apply_contribution_at:
  "apply_contribution m c t = (if fst c = t then Some (bump_entry (unwrap_or (m t) propagated_default) c) else m t)"
  by (simp add: apply_contribution_def apply_propagation_def bump_entry_def Let_def)

lemma fold_contributions:
  "foldl apply_contribution m cs t =
     (let fs = filter (\<lambda>c. fst c = t) cs
      in if fs = [] then m t else Some (foldl bump_entry (unwrap_or (m t) propagated_default) fs))"
  by (induction cs rule: rev_induct) (simp_all add: apply_contribution_at Let_def)

lemma bump_entry_value: "ps_value (bump_entry e c) = (if flt_lt (ps_value e) (fst (snd c)) then fst (snd c) else ps_value e)"
  by (simp add: bump_entry_def Let_def)

lemma bump_entries_max:
  assumes "ps_value e \<noteq> NaN"
  shows "ps_value (foldl bump_entry e cs) \<noteq> NaN
    \<and> flt_le (ps_value e) (ps_value (foldl bump_entry e cs))
    \<and> (\<forall>c\<in>set cs. fst (snd c) \<noteq> NaN \<longrightarrow> flt_le (fst (snd c)) (ps_value (foldl bump_entry e cs)))
    \<and> ps_value (foldl bump_entry e cs) \<in> insert (ps_value e) ((\<lambda>c. fst (snd c)) ` set cs)"
  using assms
proof (induction cs arbitrary: e)
  case (Cons c cs)
  have e': "ps_value (bump_entry e c) \<noteq> NaN"
    using Cons.prems by (auto simp: bump_entry_value flt_lt_iff)
  have le: "flt_le (ps_value e) (ps_value (bump_entry e c))"
    using Cons.prems by (auto simp: bump_entry_value flt_lt_def)
  have ge: "fst (snd c) \<noteq> NaN \<Longrightarrow> flt_le (fst (snd c)) (ps_value (bump_entry e c))"
    using Cons.prems by (auto simp: bump_entry_value flt_lt_iff)
  let ?v = "ps_value (foldl bump_entry (bump_entry e c) cs)"
  note IH = Cons.IH [OF e']
  have "flt_le (ps_value e) ?v" using IH le flt_le_trans by blast
  moreover have "fst (snd c) \<noteq> NaN \<Longrightarrow> flt_le (fst (snd c)) ?v" using IH ge flt_le_trans by blast
  moreover have "?v \<in> insert (ps_value e) ((\<lambda>c. fst (snd c)) ` set (c # cs))"
    using IH by (auto simp: bump_entry_value split: if_splits)
  ultimately show ?case using IH by simp
qed simp

subsection \<open>Size of a contribution\<close>

lemma propagation_constants:
  "STALE_THRESHOLD = Fin (13421773 / 33554432)" "TOMBSTONE_THRESHOLD = Fin (13421773 / 16777216)"
  "PROPAGATION_D1 = Fin (5033165 / 33554432)" "PROPAGATION_D2 = Fin (13421773 / 268435456)"
  unfolding STALE_THRESHOLD_def TOMBSTONE_THRESHOLD_def PROPAGATION_D1_def PROPAGATION_D2_def
  using r32_near [of "2/5" 25 13421773] r32_near [of "4/5" 24 13421773]
    r32_near [of "3/20" 26 10066330] r32_near [of "1/20" 28 13421773]
  by simp_all

lemma source_value:
  assumes "sources rec" and "s_value (r_staleness rec) \<noteq> NaN"
  obtains x where "s_value (r_staleness rec) = Fin x" "13421773 / 33554432 \<le> x" "x \<le> 13421773 / 16777216"
proof (cases "s_value (r_staleness rec)")
  case (Fin x)
  then show ?thesis using that assms(1) by (simp add: sources_def propagation_constants)
qed (use assms in \<open>auto simp: sources_def propagation_constants flt_lt_def\<close>)

lemma contribution_range:
  assumes "(t, b, p) \<in> set (contributions P g rec)"
  shows "b = NaN \<and> s_value (r_staleness rec) = NaN \<or> (\<exists>z. b = Fin z \<and> 1 / 64 \<le> z \<and> z \<le> 1 / 8)"
proof -
  have src: "sources rec" using assms by (auto simp: contributions_def Let_def split: if_splits)
  let ?s = "s_value (r_staleness rec)"
  have b: "b = f32_mul ?s PROPAGATION_D1 \<or> b = f32_mul ?s PROPAGATION_D2"
    using assms by (auto simp: contributions_def Let_def split: if_splits)
  show ?thesis
  proof (cases "?s = NaN")
    case True
    then show ?thesis using b by (auto simp: propagation_constants inf_of_sign_def)
  next
    case False
    then obtain x where x: "?s = Fin x" "13421773 / 33554432 \<le> x" "x \<le> 13421773 / 16777216"
      using source_value [OF src] by blast
    have r: "r32 (1/64) = Fin (1/64)" "r32 (1/8) = Fin (1/8)"
      using r32_near [of "1/64" 29 8388608] r32_near [of "1/8" 26 8388608] by simp_all
    have "\<exists>z. f32_mul ?s PROPAGATION_D1 = Fin z \<and> 1/64 \<le> z \<and> z \<le> 1/8"
      unfolding x(1) propagation_constants f32_mul.simps by (rule r32_between [OF _ _ r]) (use x(2,3) in simp_all)
    moreover have "\<exists>z. f32_mul ?s PROPAGATION_D2 = Fin z \<and> 1/64 \<le> z \<and> z \<le> 1/8"
      unfolding x(1) propagation_constants f32_mul.simps by (rule r32_between [OF _ _ r]) (use x(2,3) in simp_all)
    ultimately show ?thesis using b by metis
  qed
qed

subsection \<open>The result\<close>

text \<open>The bumps a file receives: from each source it imports directly, and through one file in between.\<close>

definition bumps :: "'g digraph_api \<Rightarrow> ('g, 't, 'x) Graph \<Rightarrow> 'j Record list \<Rightarrow> string \<Rightarrow> f32 set" where
  "bumps P g recs t =
     {f32_mul (s_value (r_staleness rec)) PROPAGATION_D1 | rec. rec \<in> set recs \<and> sources rec
        \<and> t \<in> set (neighbors_incoming P g (r_key rec) Imports)}
   \<union> {f32_mul (s_value (r_staleness rec)) PROPAGATION_D2 | rec. rec \<in> set recs \<and> sources rec
        \<and> t \<noteq> r_key rec \<and> t \<notin> set (neighbors_incoming P g (r_key rec) Imports)
        \<and> (\<exists>i\<in>set (neighbors_incoming P g (r_key rec) Imports). t \<in> set (neighbors_incoming P g i Imports))}"

lemma in_contributions:
  "(\<exists>p. (t, b, p) \<in> set (contributions P g rec)) \<longleftrightarrow> sources rec
     \<and> (b = f32_mul (s_value (r_staleness rec)) PROPAGATION_D1 \<and> t \<in> set (neighbors_incoming P g (r_key rec) Imports)
      \<or> b = f32_mul (s_value (r_staleness rec)) PROPAGATION_D2 \<and> t \<noteq> r_key rec
        \<and> t \<notin> set (neighbors_incoming P g (r_key rec) Imports)
        \<and> (\<exists>i\<in>set (neighbors_incoming P g (r_key rec) Imports). t \<in> set (neighbors_incoming P g i Imports)))"
  by (auto simp: contributions_def Let_def)

lemma bumps_contributions:
  "bumps P g recs t = (\<lambda>c. fst (snd c)) ` set (filter (\<lambda>c. fst c = t) (concat (map (contributions P g) recs)))"
proof (rule set_eqI)
  fix b
  have "b \<in> bumps P g recs t \<longleftrightarrow> (\<exists>rec\<in>set recs. \<exists>p. (t, b, p) \<in> set (contributions P g rec))"
    unfolding in_contributions bumps_def by blast
  also have "\<dots> \<longleftrightarrow> b \<in> (\<lambda>c. fst (snd c)) ` set (filter (\<lambda>c. fst c = t) (concat (map (contributions P g) recs)))"
    by force
  finally show "b \<in> bumps P g recs t
      \<longleftrightarrow> b \<in> (\<lambda>c. fst (snd c)) ` set (filter (\<lambda>c. fst c = t) (concat (map (contributions P g) recs)))" .
qed

lemma compute_propagation_at:
  "compute_propagation P recs g t =
     (let fs = filter (\<lambda>c. fst c = t) (concat (map (contributions P g) recs))
      in if fs = [] then None else Some (foldl bump_entry propagated_default fs))"
  by (simp add: compute_propagation_contributions fold_contributions Let_def)

lemma bump_range:
  assumes "b \<in> bumps P g recs t"
  shows "b = NaN \<and> (\<exists>rec\<in>set recs. s_value (r_staleness rec) = NaN) \<or> (\<exists>z. b = Fin z \<and> 1 / 64 \<le> z \<and> z \<le> 1 / 8)"
proof -
  obtain rec t' p where "rec \<in> set recs" "(t', b, p) \<in> set (contributions P g rec)"
    using assms unfolding bumps_contributions by auto
  then show ?thesis using contribution_range by metis
qed

lemma compute_propagation_None: "compute_propagation P recs g t = None \<longleftrightarrow> bumps P g recs t = {}"
  unfolding compute_propagation_at Let_def bumps_contributions image_is_empty set_empty
  by (rule if_split [THEN iffD2]) (metis option.distinct(1))

lemma compute_propagation_value:
  assumes "compute_propagation P recs g t = Some p"
  shows "flt_le (Fin 0) (ps_value p)"
    and "b \<in> bumps P g recs t \<Longrightarrow> b \<noteq> NaN \<Longrightarrow> flt_le b (ps_value p)"
    and "ps_value p \<in> insert (Fin 0) (bumps P g recs t)"
proof -
  let ?fs = "filter (\<lambda>c. fst c = t) (concat (map (contributions P g) recs))"
  have p: "p = foldl bump_entry propagated_default ?fs"
    using assms by (simp add: compute_propagation_at Let_def split: if_splits)
  have d: "ps_value propagated_default = Fin 0" by (simp add: propagated_default_def)
  note m = bump_entries_max [of propagated_default ?fs, unfolded d, folded p]
  show "flt_le (Fin 0) (ps_value p)" "ps_value p \<in> insert (Fin 0) (bumps P g recs t)"
    using m unfolding bumps_contributions by simp_all
  show "b \<in> bumps P g recs t \<Longrightarrow> b \<noteq> NaN \<Longrightarrow> flt_le b (ps_value p)"
    using m unfolding bumps_contributions by blast
qed

subsection \<open>Properties\<close>

text \<open>
  C36. The batch computation of blast radii, which builds the reverse adjacency once and walks it level by
  level, agrees with the per-file computation by graph traversal: for each requested file that is not its
  own importer within three import steps, the map holds exactly the radius of the single computation.
\<close>

theorem compute_all_is_compute:
  assumes "digraph_laws P dedges" and "graph_ok P dedges g" and "k \<in> set ks"
    and "\<forall>m. 1 \<le> m \<and> m \<le> 3 \<longrightarrow> (k, k) \<notin> {(t, f). has_edge g \<lparr> from_node = f, edge_kind = Imports, to_node = t \<rparr>} ^^ m"
  shows "blast_compute_all P g ks k = Some (blast_compute P k g)"
  using digraph_laws.compute_all_same [OF assms(1-3)] assms(4)
  by (simp add: reach_def digraph_laws.edge_rel_def [OF assms(1)])

theorem compute_all_is_compute_witness:
  "blast_compute_all list_digraph (insert_edge_in_memory list_digraph demo_start demo_edge) [''file:b''] ''file:b''
     = Some (blast_compute list_digraph ''file:b'' (insert_edge_in_memory list_digraph demo_start demo_edge))"
proof -
  have ok0: "graph_ok list_digraph list_edges demo_start" by (simp add: demo_start_def lg.ok_empty)
  note i = lg.insert_edge_ok [OF ok0, of demo_edge]
  let ?g = "insert_edge_in_memory list_digraph demo_start demo_edge"
  let ?R = "{(t, f). has_edge ?g \<lparr> from_node = f, edge_kind = Imports, to_node = t \<rparr>}"
  have R: "?R = {(''file:b'', ''file:a'')}"
    unfolding i(2) by (auto simp: demo_edge_def demo_start_def lg.no_edges_empty)
  have "(''file:b'', ''file:b'') \<notin> ?R ^^ m" if "1 \<le> m" for m
    using that by (cases m) (auto simp: R elim!: relpow_Suc_E)
  then show ?thesis
    by (intro compute_all_is_compute [OF lg.digraph_laws_axioms i(1)]) simp_all
qed

text \<open>
  On an import cycle of two or three files the two computations differ: the batch computation counts
  the file among its own transitive importers, the single one does not.
\<close>

theorem compute_all_counts_self:
  assumes "digraph_laws P dedges" and "graph_ok P dedges g" and "k \<in> set ks" and "2 \<le> m" and "m \<le> 3"
    and "(k, k) \<in> {(t, f). has_edge g \<lparr> from_node = f, edge_kind = Imports, to_node = t \<rparr>} ^^ m"
    and "\<not> has_edge g \<lparr> from_node = k, edge_kind = Imports, to_node = k \<rparr>"
  shows "\<exists>b. blast_compute_all P g ks k = Some b \<and> b_direct b = b_direct (blast_compute P k g)
      \<and> b_transitive b = b_transitive (blast_compute P k g) + 1"
proof (rule digraph_laws.compute_all_cycle [OF assms(1-3)])
  have "1 \<le> m" using assms(4) by simp
  then show "k \<in> reach (digraph_laws.importers g) k 3"
    using assms(5,6) by (auto simp: reach_def digraph_laws.edge_rel_def [OF assms(1)])
qed (use assms(1,7) in \<open>simp add: digraph_laws.edge_rel_def\<close>)

definition demo_cycle :: demo_graph where
  "demo_cycle = insert_edge_in_memory list_digraph (insert_edge_in_memory list_digraph demo_start demo_edge)
     \<lparr> from_node = ''file:b'', edge_kind = Imports, to_node = ''file:a'' \<rparr>"

lemma demo_cycle_ok: "graph_ok list_digraph list_edges demo_cycle"
  and demo_cycle_edges: "has_edge demo_cycle e \<longleftrightarrow>
        e = demo_edge \<or> e = \<lparr> from_node = ''file:b'', edge_kind = Imports, to_node = ''file:a'' \<rparr>"
proof -
  have ok0: "graph_ok list_digraph list_edges demo_start" by (simp add: demo_start_def lg.ok_empty)
  note i = lg.insert_edge_ok [OF ok0, of demo_edge]
  note j = lg.insert_edge_ok [OF i(1), of "\<lparr> from_node = ''file:b'', edge_kind = Imports, to_node = ''file:a'' \<rparr>"]
  show "graph_ok list_digraph list_edges demo_cycle" using j(1) by (simp add: demo_cycle_def)
  show "has_edge demo_cycle e \<longleftrightarrow>
        e = demo_edge \<or> e = \<lparr> from_node = ''file:b'', edge_kind = Imports, to_node = ''file:a'' \<rparr>"
    unfolding demo_cycle_def j(2) i(2) by (auto simp: demo_start_def lg.no_edges_empty)
qed

theorem compute_all_counts_self_witness:
  "\<exists>b. blast_compute_all list_digraph demo_cycle [''file:b''] ''file:b'' = Some b
      \<and> b_direct b = b_direct (blast_compute list_digraph ''file:b'' demo_cycle)
      \<and> b_transitive b = b_transitive (blast_compute list_digraph ''file:b'' demo_cycle) + 1"
proof (rule compute_all_counts_self [OF lg.digraph_laws_axioms demo_cycle_ok, where m = 2])
  let ?R = "{(t, f). has_edge demo_cycle \<lparr> from_node = f, edge_kind = Imports, to_node = t \<rparr>}"
  have "(''file:b'', ''file:a'') \<in> ?R" "(''file:a'', ''file:b'') \<in> ?R" by (simp_all add: demo_cycle_edges demo_edge_def)
  then show "(''file:b'', ''file:b'') \<in> ?R ^^ 2" unfolding numeral_2_eq_2 relpow.simps by blast
qed (simp_all add: demo_cycle_edges demo_edge_def)

text \<open>
  The staleness a file inherits is the maximum of what its sources contribute, and not their sum:
  when no staleness is NaN, the value of each entry is one of the bumps of the file and at least every other, where
  the bumps are 0.15 of the staleness of each source it imports and 0.05 of each source two imports away,
  and a file has an entry only when it has a bump.
\<close>

theorem propagation_max:
  assumes "\<forall>rec\<in>set recs. s_value (r_staleness rec) \<noteq> NaN"
  shows "case compute_propagation P recs g t of
           None \<Rightarrow> bumps P g recs t = {}
         | Some p \<Rightarrow> ps_value p \<in> bumps P g recs t \<and> (\<forall>b\<in>bumps P g recs t. flt_le b (ps_value p))"
proof (cases "compute_propagation P recs g t")
  case (Some p)
  note v = compute_propagation_value [OF Some]
  have fin: "\<exists>z. b = Fin z \<and> 1 / 64 \<le> z" if "b \<in> bumps P g recs t" for b
    using bump_range [OF that] assms by blast
  obtain b where b: "b \<in> bumps P g recs t" using Some compute_propagation_None [of P recs g t] by fastforce
  then have "ps_value p \<noteq> Fin 0" using v(2) [OF b] fin [OF b] by auto
  then show ?thesis using v fin Some by fastforce
qed (use compute_propagation_None [of P recs g t] in simp)

definition demo_stale :: "jvalue Record" where
  "demo_stale = (demo_record ''file:b'' 5)\<lparr>r_staleness := fresh\<lparr>s_value := Fin (1/2)\<rparr>\<rparr>"

lemma demo_stale_source: "sources demo_stale" "s_value (r_staleness demo_stale) = Fin (1/2)" "r_key demo_stale = ''file:b''"
  by (simp_all add: sources_def demo_stale_def propagation_constants demo_record_def layer0_file_stub_def)

lemma demo_importers: "set (neighbors_incoming list_digraph demo_cycle ''file:b'' Imports) = {''file:a''}"
proof -
  have "set (neighbors_incoming list_digraph demo_cycle ''file:b'' Imports)
      = {f. (f, ''file:b'') \<in> lg.edge_rel demo_cycle Imports} - {''file:b''}"
    using lg.traverse_incoming_set [OF demo_cycle_ok, of 1 "''file:b''"]
    by (simp add: neighbors_incoming_def reach_1 [simplified])
  then show ?thesis by (auto simp: lg.edge_rel_def demo_cycle_edges demo_edge_def)
qed

lemma demo_bumps: "f32_mul (Fin (1/2)) PROPAGATION_D1 \<in> bumps list_digraph demo_cycle [demo_stale] ''file:a''"
  unfolding bumps_def using demo_stale_source demo_importers by auto

theorem propagation_max_witness:
  "case compute_propagation list_digraph [demo_stale] demo_cycle ''file:a'' of
     None \<Rightarrow> False
   | Some p \<Rightarrow> flt_le (f32_mul (Fin (1/2)) PROPAGATION_D1) (ps_value p)"
  using propagation_max [of "[demo_stale]" list_digraph demo_cycle "''file:a''"] demo_bumps
  by (auto simp: demo_stale_source split: option.splits)

text \<open>
  Inherited staleness cannot spread further: whatever the records and the graph, NaN included, every
  propagated value lies between 0 and 1/8, below the threshold at which a file becomes a source.
\<close>

theorem propagation_no_cascade:
  assumes "compute_propagation P recs g t = Some p"
  shows "flt_le (Fin 0) (ps_value p) \<and> flt_le (ps_value p) (Fin (1/8)) \<and> flt_lt (ps_value p) STALE_THRESHOLD"
proof -
  note v = compute_propagation_value [OF assms]
  obtain z where z: "ps_value p = Fin z" "0 \<le> z" "z \<le> 1 / 8"
  proof (cases "ps_value p = Fin 0")
    case False
    then have "ps_value p \<in> bumps P g recs t" using v(3) by simp
    from bump_range [OF this] show ?thesis using v(1) that by fastforce
  qed (use that in simp)
  then show ?thesis by (simp add: propagation_constants)
qed

theorem propagation_no_cascade_witness:
  "flt_lt (ps_value (the (compute_propagation list_digraph [demo_stale] demo_cycle ''file:a''))) STALE_THRESHOLD"
proof -
  have "compute_propagation list_digraph [demo_stale] demo_cycle ''file:a'' \<noteq> None"
    using compute_propagation_None [of list_digraph "[demo_stale]" demo_cycle "''file:a''"] demo_bumps by blast
  then obtain p where "compute_propagation list_digraph [demo_stale] demo_cycle ''file:a'' = Some p" by blast
  from propagation_no_cascade [OF this] this show ?thesis by simp
qed

end
