(* ===== verification/Gotcha_Spec.thy ===== *)
theory Gotcha_Spec
  imports Gotcha_Frame
begin

section \<open>Gotcha mutations keep the indexes consistent\<close>

text \<open>
  What a mutation of \<open>store/gotcha_ops.rs\<close> leaves behind: from a store whose links and edges agree with its gotchas, writing or deleting a
  gotcha ends in such a store again or in one whose dirty marker names the gotcha. The frame lemmas are in \<open>Gotcha_Frame\<close>.
\<close>

declare starts_with_Cons [simp del]

context gotcha_laws
begin

lemma mark_dirty_changes: "changes {DIRTY_MARKER_KEY} S (mark_dirty A M st S key why)"
  unfolding mark_dirty_def write_marker_def by (rule put_changes)

lemma track_changes: "changes K S (fst res) \<Longrightarrow> changes (K \<union> analytics_keys) S (fst (track A M st key label f res))"
  using changes_trans [of K S "fst res" analytics_keys] changes_mono [OF mark_dirty_changes marker_analytics]
  by (auto simp: track_def split: sum.split)

lemma tracked_edges_changes:
  "changes (edge_keys \<union> analytics_keys) (fst t) (fst (foldl (add_edge_tracked A M ck now key label) t ps))"
  "changes (edge_keys \<union> analytics_keys) (fst t) (fst (foldl (remove_edge_tracked A M ck key label) t ps))"
proof -
  have a: "changes (edge_keys \<union> analytics_keys) (fst t) (fst (add_edge_tracked A M ck now key label t p))" for t p
    unfolding add_edge_tracked_def by (rule track_changes, rule changes_mono [OF put_raw_changes]) simp
  have r: "changes (edge_keys \<union> analytics_keys) (fst t) (fst (remove_edge_tracked A M ck key label t p))" for t p
    unfolding remove_edge_tracked_def by (rule track_changes, rule changes_mono [OF delete_changes]) simp
  show "changes (edge_keys \<union> analytics_keys) (fst t) (fst (foldl (add_edge_tracked A M ck now key label) t ps))"
    by (induction ps rule: rev_induct) (auto intro: changes_in a)
  show "changes (edge_keys \<union> analytics_keys) (fst t) (fst (foldl (remove_edge_tracked A M ck key label) t ps))"
    by (induction ps rule: rev_induct) (auto intro: changes_in r)
qed

lemma track_sync_changes:
  assumes "sound S" and "keyed S"
  shows "changes (file_keys \<union> analytics_keys) S
    (fst (track A M st key label f (sync_gotcha_file_links A J (ga_file B) ck S key old new)))"
  by (rule track_changes) (use sync_links [OF assms] in \<open>metis prod.collapse\<close>)

lemma record_control_changes: "changes log_keys (a_store a) (a_store (record_control A B env a rq))"
  unfolding record_control_def by (rule record_event_log)

definition side_keys :: "string set" where
  "side_keys = analytics_keys \<union> log_keys \<union> file_keys \<union> edge_keys"

lemma side_not_gotcha: "starts_with k ''gotcha:'' \<Longrightarrow> k \<notin> side_keys"
  using mutation_keys(4-7) by (simp add: side_keys_def)

lemma wanted_update:
  assumes "gotchas_keyed A view S" and "starts_with key ''gotcha:''" and "record_of S' key = Some r" and "r_key r = key"
    and "\<And>k. starts_with k ''gotcha:'' \<Longrightarrow> k \<noteq> key \<Longrightarrow> content S' k = content S k"
  shows "wanted A view G S' = {x \<in> wanted A view G S. snd x \<noteq> key} \<union> asks G r"
proof (intro set_eqI iffI)
  have rec: "record_of S' k = record_of S k" if "starts_with k ''gotcha:''" "k \<noteq> key" for k
    using assms(5) [OF that] by (simp add: rec_at_def)
  have w: "x \<in> wanted A view G T \<longleftrightarrow> (\<exists>k r. starts_with k ''gotcha:'' \<and> record_of T k = Some r \<and> x \<in> asks G r)" for T x
    by (cases x) (auto simp: wanted_def asks_def)
  fix x
  { assume "x \<in> wanted A view G S'"
    then obtain k q where q: "starts_with k ''gotcha:''" "record_of S' k = Some q" "x \<in> asks G q" unfolding w by blast
    show "x \<in> {x \<in> wanted A view G S. snd x \<noteq> key} \<union> asks G r"
    proof (cases "k = key")
      case False
      then have "record_of S k = Some q" using rec q by simp
      moreover from this have "r_key q = k" using assms(1) q(1) by (simp add: gotchas_keyed_def)
      ultimately show ?thesis using q False unfolding w by (auto simp: asks_def)
    qed (use q assms(3) in simp)
  next
    assume "x \<in> {x \<in> wanted A view G S. snd x \<noteq> key} \<union> asks G r"
    then show "x \<in> wanted A view G S'"
    proof
      assume "x \<in> {x \<in> wanted A view G S. snd x \<noteq> key}"
      then obtain k q where q: "starts_with k ''gotcha:''" "record_of S k = Some q" "x \<in> asks G q" "snd x \<noteq> key" unfolding w by blast
      then have "k \<noteq> key" using assms(1) by (auto simp: gotchas_keyed_def asks_def)
      then show ?thesis using q rec unfolding w by metis
    next
      assume "x \<in> asks G r"
      then show ?thesis unfolding w using assms(2,3) by blast
    qed
  }
qed

text \<open>The relation of persisted edges when the edge keys are known.\<close>

lemma edged_update:
  assumes "file_edges view S" and "edges_are E S'"
    and "\<And>k. E k \<Longrightarrow> k \<in> dom (content S) \<or> (\<exists>p q. k = to_key (gotcha_edge p q) \<and> storable (gotcha_edge p q))"
  shows "edged view S' = {(p, k). storable (gotcha_edge p k) \<and> E (to_key (gotcha_edge p k))}" and "file_edges view S'"
proof -
  have ek: "k \<in> edge_keys" if "from_key k = Some e" for k e
    using to_key_from_key(1) [OF that] key_classes(2) by metis
  show fe: "file_edges view S'"
    unfolding file_edges_def
  proof (intro ballI allI impI)
    fix k e assume k: "k \<in> dom (content S')" and e: "from_key k = Some e" "edge_kind e = HasGotcha"
    then have "E k" using assms(2) ek by (simp add: edges_are_def)
    from assms(3) [OF this] show "starts_with (from_node e) ''file:''"
    proof
      assume "\<exists>p q. k = to_key (gotcha_edge p q) \<and> storable (gotcha_edge p q)"
      then have "\<exists>p q. e = gotcha_edge p q" using e(1) by (auto simp: storable_def)
      then show ?thesis by auto
    qed (use assms(1) e in \<open>auto simp: file_edges_def\<close>)
  qed
  have "to_key (gotcha_edge p k) \<in> dom (content S') \<longleftrightarrow> E (to_key (gotcha_edge p k))" for p k
    using assms(2) by (simp add: edges_are_def)
  then show "edged view S' = {(p, k). storable (gotcha_edge p k) \<and> E (to_key (gotcha_edge p k))}"
    using edged_iff [OF fe] by auto
qed

end

definition indexes_consistent ::
  "('t, 'x, 'v, 'j) store_api \<Rightarrow> ('t \<Rightarrow> string \<rightharpoonup> 'v) \<Rightarrow> ('t \<Rightarrow> bool) \<Rightarrow> 'j json_api \<Rightarrow> ('j, GotchaRecord) serde
   \<Rightarrow> ('t, 'x) Store \<Rightarrow> bool" where
  "indexes_consistent A view healthy J G S \<longleftrightarrow> store_sound healthy S \<and> files_keyed A view S \<and> gotchas_keyed A view S
     \<and> file_edges view S \<and> linked A view J S = wanted A view G S \<and> edged view S = wanted A view G S"

context gotcha_laws
begin

abbreviation consistent :: "('t, 'x) Store \<Rightarrow> bool" where
  "consistent \<equiv> indexes_consistent A view healthy J (ga_gotcha B)"

text \<open>A mutation that leaves links, edges and the record of one gotcha changed in step is consistent again.\<close>

lemma consistent_again:
  assumes con: "consistent S" and key: "starts_with key ''gotcha:''"
    and rec: "record_of S' key = Some r" "r_key r = key" and snd: "sound S'" "keyed S'"
    and frame: "\<And>k. starts_with k ''gotcha:'' \<Longrightarrow> k \<noteq> key \<Longrightarrow> content S' k = content S k"
    and old: "set old = {p. (p, key) \<in> wanted A view (ga_gotcha B) S}"
    and asks: "asks (ga_gotcha B) r = pairs key new" and stor: "\<forall>p\<in>set new. storable (gotcha_edge p key)"
    and edges: "edges_are (\<lambda>k. (k \<in> dom (content S) \<or> k \<in> (\<lambda>p. to_key (gotcha_edge p key)) ` (set new - set old))
      \<and> k \<notin> (\<lambda>p. to_key (gotcha_edge p key)) ` (set old - set new)) S'"
    and links: "link_rel S' = link_rel S \<union> pairs key (difference new old) - pairs key (difference old new) \<or> flagged A M key S'"
  shows "consistent S' \<or> flagged A M key S'" and "edged view S' = wanted A view (ga_gotcha B) S'"
proof -
  let ?W = "wanted A view (ga_gotcha B) S" and ?W' = "wanted A view (ga_gotcha B) S'"
  have W': "?W' = {x \<in> ?W. snd x \<noteq> key} \<union> pairs key new"
    using wanted_update [OF _ key rec frame] con asks by (simp add: indexes_consistent_def)
  have R: "?W \<union> pairs key (difference new old) - pairs key (difference old new) = ?W'"
    unfolding W' pairs_def difference_def using old by auto
  have fe: "file_edges view S" using con by (simp add: indexes_consistent_def)
  have so: "storable (gotcha_edge p q)" if "(p, q) \<in> ?W" for p q
    using that edged_iff [OF fe] con by (metis indexes_consistent_def)
  note eu = edged_update [OF fe edges]
  have E: "edged view S' = {(p, q). storable (gotcha_edge p q)
      \<and> (to_key (gotcha_edge p q) \<in> dom (content S) \<or> to_key (gotcha_edge p q) \<in> (\<lambda>p. to_key (gotcha_edge p key)) ` (set new - set old))
      \<and> to_key (gotcha_edge p q) \<notin> (\<lambda>p. to_key (gotcha_edge p key)) ` (set old - set new)}"
    and fe': "file_edges view S'"
    using eu stor by blast+
  show ed: "edged view S' = ?W'"
  proof (rule set_eqI)
    fix x :: "string \<times> string"
    obtain p q where x: "x = (p, q)" by (cases x)
    show "x \<in> edged view S' \<longleftrightarrow> x \<in> ?W'"
    proof (cases "storable (gotcha_edge p q)")
      case True
      have i: "to_key (gotcha_edge p q) \<in> (\<lambda>p. to_key (gotcha_edge p key)) ` X \<longleftrightarrow> q = key \<and> p \<in> X"
        if "\<forall>p\<in>X. storable (gotcha_edge p key)" for X
        using that storable_key_inject [OF True] by (auto simp: image_iff)
      have n: "\<forall>p\<in>set new - set old. storable (gotcha_edge p key)" "\<forall>p\<in>set old - set new. storable (gotcha_edge p key)"
        using stor so old by auto
      have "(p, q) \<in> ?W \<longleftrightarrow> to_key (gotcha_edge p q) \<in> dom (content S)"
        using edged_iff [OF fe, of p q] con True by (simp add: indexes_consistent_def)
      then show ?thesis
        unfolding E R [symmetric] x pairs_def difference_def using True i [OF n(1)] i [OF n(2)] by auto
    next
      case False
      then have "(p, q) \<notin> ?W'" using so stor unfolding W' pairs_def by auto
      then show ?thesis using False unfolding E x by blast
    qed
  qed
  have gk: "gotchas_keyed A view S'"
    unfolding gotchas_keyed_def
  proof (intro allI impI)
    fix k q assume k: "starts_with k ''gotcha:''" "record_of S' k = Some q"
    show "r_key q = k"
    proof (cases "k = key")
      case False
      then have "record_of S k = Some q" using k frame [of k] by (simp add: rec_at_def)
      then show ?thesis using con k(1) by (simp add: indexes_consistent_def gotchas_keyed_def)
    qed (use rec k in simp)
  qed
  show "consistent S' \<or> flagged A M key S'"
    using links R con gk fe' ed snd by (auto simp: indexes_consistent_def)
qed

text \<open>The parts two mutations share: after the record write only side keys change.\<close>

lemma mutation_sides:
  assumes "changes (analytics_keys \<union> log_keys) S1 S4" and "sound S4" and "keyed S4"
    and "t5 = track A M st key label False (sync_gotcha_file_links A J (ga_file B) ck S4 key old new)"
    and "changes (edge_keys \<union> analytics_keys) (fst t5) (fst t7)"
    and "changes {DIRTY_MARKER_KEY} (fst t7) S'"
  shows "changes side_keys S1 S'"
proof -
  have "changes side_keys S1 S4" by (rule changes_mono [OF assms(1)]) (auto simp: side_keys_def)
  moreover have "changes side_keys S4 (fst t5)"
    unfolding assms(4) by (rule changes_mono [OF track_sync_changes [OF assms(2,3)]]) (auto simp: side_keys_def)
  moreover have "changes side_keys (fst t5) (fst t7)" by (rule changes_mono [OF assms(5)]) (auto simp: side_keys_def)
  moreover have "changes side_keys (fst t7) S'" using changes_mono [OF assms(6)] marker_analytics by (auto simp: side_keys_def)
  ultimately show ?thesis using changes_in by blast
qed

lemma mutation_record:
  assumes "store_put A S key r = (S1, Inr u)" and "starts_with key ''gotcha:''" and "changes side_keys S1 S'"
  shows "record_of S' key = Some r" and "starts_with k ''gotcha:'' \<Longrightarrow> k \<noteq> key \<Longrightarrow> content S' k = content S k"
proof -
  obtain b where b: "enc_record A r = Some b" "content S1 = (content S)(key \<mapsto> b)" using store_put_ok [OF assms(1)] .
  have "content S' key = content S1 key" using assms(3) side_not_gotcha [OF assms(2)] by (simp add: changes_def)
  then show "record_of S' key = Some r" using b dec_enc by (simp add: rec_at_def)
  show "content S' k = content S k" if "starts_with k ''gotcha:''" "k \<noteq> key"
    using assms(3) side_not_gotcha [OF that(1)] b(2) that(2) by (simp add: changes_def)
qed

lemma before_sync:
  assumes "store_put A S key r = (S1, Inr u)" and "changes (analytics_keys \<union> log_keys) S1 S4" and "starts_with key ''gotcha:''"
    and "sound S" and "keyed S"
  shows "changes ({key} \<union> analytics_keys \<union> log_keys) S S4" and "sound S4" and "keyed S4"
proof -
  have "changes {key} S S1" using put_changes [of key S r] assms(1) by simp
  from changes_trans [OF this assms(2)] show c: "changes ({key} \<union> analytics_keys \<union> log_keys) S S4" by (simp add: Un_assoc)
  show "sound S4" "keyed S4"
    using c assms(4,5) keyed_changes [OF c mutation_keys(1) [OF assms(3)]] by (simp_all add: changes_def)
qed

lemma write_consistent:
  assumes con: "consistent (a_store a)" and live: "live (sessions (a_store a))" and key: "starts_with (r_key r) ''gotcha:''"
    and old: "set old = {p. (p, r_key r) \<in> wanted A view (ga_gotcha B) (a_store a)}"
    and asks: "asks (ga_gotcha B) r = pairs (r_key r) new" and stor: "\<forall>p\<in>set new. storable (gotcha_edge p (r_key r))"
    and run: "apply_gotcha_write A B env a r old new is_new = (a', Ok ())"
  shows "record_of (a_store a') (r_key r) = Some r"
    and "edged view (a_store a') = wanted A view (ga_gotcha B) (a_store a')"
    and "consistent (a_store a') \<or> flagged A M (r_key r) (a_store a')"
proof -
  let ?S = "a_store a" and ?key = "r_key r"
  obtain S1 u where p: "store_put A ?S ?key r = (S1, Inr u)"
    using run by (auto simp: apply_gotcha_write_def Let_def split: sum.splits prod.splits)
  define S2 where "S2 = mark_dirty A M (ge_ck env ''pre-arm'') S1 ?key ''gotcha_write: pre-arm cancellation guard''"
  define a3 where "a3 = record_control A B env (a\<lparr>a_store := S2\<rparr>) (control_request (if is_new then Created else Updated) ?key
     (if is_new then ''control_created'' else ''control_updated''))"
  define S4 where "S4 = (if is_new then fst (write_on_extraction A (ga_extraction B) (st_now (ge_ck env ''extraction''))
      (ge_ck env ''extraction record'') (st_now (ge_ck env ''extraction wall'')) (a_store a3) ?key (r_tags r) new) else a_store a3)"
  define t5 where "t5 = track A M (ge_ck env ''link sync'') ?key ''link sync failed'' False
      (sync_gotcha_file_links A J (ga_file B) (ge_ck env) S4 ?key old new)"
  define t6 where "t6 = foldl (add_edge_tracked A M (ge_ck env) (st_now (ge_ck env ''edges'')) ?key ''edge add failed'') t5 (difference new old)"
  define t7 where "t7 = foldl (remove_edge_tracked A M (ge_ck env) ?key ''edge remove failed'') t6 (difference old new)"
  have a': "a_store a' = disarm A M (ge_ck env ''disarm'') ?key t7"
    using run p unfolding apply_gotcha_write_def Let_def json_B S2_def a3_def S4_def t5_def t6_def t7_def
    by (auto split: sum.splits)
  have 12: "changes (analytics_keys \<union> log_keys) S1 S2"
    unfolding S2_def using changes_mono [OF mark_dirty_changes] marker_analytics by blast
  have 23: "changes (analytics_keys \<union> log_keys) S2 (a_store a3)"
    using changes_mono [OF record_control_changes [of "a\<lparr>a_store := S2\<rparr>"]] by (simp add: a3_def)
  have 34: "changes (analytics_keys \<union> log_keys) (a_store a3) S4"
    unfolding S4_def using changes_mono [OF extraction_changes(1)] by simp
  have 14: "changes (analytics_keys \<union> log_keys) S1 S4" using 12 23 34 changes_in by blast
  have snd: "sound ?S" "keyed ?S" using con by (simp_all add: indexes_consistent_def)
  note 4 = before_sync [OF p 14 key snd]
  note p5 = prepared [OF snd(1) live snd(2) key 4(1), of new old "ge_ck env ''link sync''" "''link sync failed''" "ge_ck env", folded t5_def]
  note p6 = progressed_edges(1) [OF p5, of "difference new old" "ge_ck env" "st_now (ge_ck env ''edges'')" "''edge add failed''", folded t6_def]
  note p7 = progressed_edges(2) [OF p6, of "difference old new" "ge_ck env" "''edge remove failed''", folded t7_def]
  note d = disarmed [OF p7, of "ge_ck env ''disarm''", folded a']
  have 57: "changes (edge_keys \<union> analytics_keys) (fst t5) (fst t7)"
    unfolding t7_def t6_def by (rule changes_in [OF tracked_edges_changes(1) tracked_edges_changes(2)])
  note side = mutation_sides [OF 14 4(2,3) t5_def 57 d(5)]
  note rec = mutation_record(1) [OF p key side] and frame = mutation_record(2) [OF p key side]
  show "record_of (a_store a') ?key = Some r" by (rule rec)
  have ds: "set (difference x y) = set x - set y" for x y by (auto simp: difference_def)
  have e: "edges_are (\<lambda>k. (k \<in> dom (content ?S) \<or> k \<in> (\<lambda>p. to_key (gotcha_edge p ?key)) ` (set new - set old))
      \<and> k \<notin> (\<lambda>p. to_key (gotcha_edge p ?key)) ` (set old - set new)) (a_store a')"
    using d(3) by (simp only: ds)
  note c = consistent_again [OF con key rec refl d(1,2) frame old asks stor e d(4)]
  show "edged view (a_store a') = wanted A view (ga_gotcha B) (a_store a')" by (rule c(2))
  show "consistent (a_store a') \<or> flagged A M ?key (a_store a')" by (rule c(1))
qed

end

context gotcha_laws
begin

lemma tombstone_consistent:
  assumes con: "consistent (a_store a)" and live: "live (sessions (a_store a))" and key: "starts_with key ''gotcha:''"
    and old: "set old = {p. (p, key) \<in> wanted A view (ga_gotcha B) (a_store a)}"
    and run: "apply_gotcha_tombstone A B env dev a key old = (a', Ok ())"
  shows "\<exists>r t. record_of (a_store a') key = Some r \<and> r_lifecycle r = Tombstoned ManualDeletion t"
    and "edged view (a_store a') = wanted A view (ga_gotcha B) (a_store a')"
    and "consistent (a_store a') \<or> flagged A M key (a_store a')"
proof -
  let ?S = "a_store a"
  have snd: "sound ?S" "keyed ?S" "gotchas_keyed A view ?S" using con by (simp_all add: indexes_consistent_def)
  obtain r0 where g: "store_get A ?S key = Inr (Some r0)"
    using run by (auto simp: apply_gotcha_tombstone_def Let_def split: sum.splits option.splits)
  then have k0: "r_key r0 = key"
    using snd key by (auto simp: store_get_content decode_as_def gotchas_keyed_def rec_at_def split: option.splits)
  define r where "r = tombstone_record (st_now (ge_ck env ''tombstone'')) r0"
  have rk: "r_key r = key" "r_lifecycle r = Tombstoned ManualDeletion (st_now (ge_ck env ''tombstone''))"
    by (simp_all add: r_def tombstone_record_def touch_def k0)
  obtain S1 u where p: "store_put A ?S key r = (S1, Inr u)"
    using run g by (auto simp: apply_gotcha_tombstone_def Let_def r_def split: sum.splits prod.splits)
  define S2 where "S2 = mark_dirty A M (ge_ck env ''pre-arm'') S1 key ''gotcha_tombstone: pre-arm cancellation guard''"
  define a3 where "a3 = record_control A B env (a\<lparr>a_store := S2\<rparr>) (control_request Deleted key ''control_deleted'')"
  define S4 where "S4 = (case payload_as (from_value (ga_gotcha B)) r0 of None \<Rightarrow> a_store a3
     | Some g \<Rightarrow> fst (write_on_tombstone A (ga_exemplar B) (st_now (ge_ck env ''exemplar'')) dev (a_store a3) key
         (g_rule g) (g_reason g) (g_severity g) old))"
  define S5 where "S5 = fst (mark_outcome A (ga_extraction B) (st_now (ge_ck env ''outcome'')) (ge_ck env ''outcome record'')
     (st_now (ge_ck env ''outcome wall'')) S4 key OutcomeTombstoned)"
  define t6 where "t6 = track A M (ge_ck env ''link sync'') key ''tombstone link cleanup failed'' False
     (sync_gotcha_file_links A J (ga_file B) (ge_ck env) S5 key old [])"
  define t7 where "t7 = foldl (remove_edge_tracked A M (ge_ck env) key ''tombstone edge remove failed'') t6 old"
  have a': "a_store a' = disarm A M (ge_ck env ''disarm'') key t7"
    using run g p unfolding apply_gotcha_tombstone_def Let_def json_B r_def S2_def a3_def S4_def S5_def t6_def t7_def by auto
  have 12: "changes (analytics_keys \<union> log_keys) S1 S2"
    unfolding S2_def using changes_mono [OF mark_dirty_changes] marker_analytics by blast
  have 23: "changes (analytics_keys \<union> log_keys) S2 (a_store a3)"
    using changes_mono [OF record_control_changes [of "a\<lparr>a_store := S2\<rparr>"]] by (simp add: a3_def)
  have 34: "changes (analytics_keys \<union> log_keys) (a_store a3) S4"
    unfolding S4_def using changes_mono [OF exemplar_changes] by (simp split: option.split)
  have 45: "changes (analytics_keys \<union> log_keys) S4 S5"
    unfolding S5_def using changes_mono [OF extraction_changes(2)] by simp
  have 15: "changes (analytics_keys \<union> log_keys) S1 S5" using 12 23 34 45 changes_in by blast
  note 5 = before_sync [OF p 15 key snd(1,2)]
  note p6 = prepared [OF snd(1) live snd(2) key 5(1), of "[]" old "ge_ck env ''link sync''" "''tombstone link cleanup failed''" "ge_ck env", folded t6_def]
  note p7 = progressed_edges(2) [OF p6, of old "ge_ck env" "''tombstone edge remove failed''", folded t7_def]
  note d = disarmed [OF p7, of "ge_ck env ''disarm''", folded a']
  note side = mutation_sides [OF 15 5(2,3) t6_def tracked_edges_changes(2) [of t6 "ge_ck env" key "''tombstone edge remove failed''" old, folded t7_def] d(5)]
  note rec = mutation_record(1) [OF p key side] and frame = mutation_record(2) [OF p key side]
  from rec show "\<exists>r t. record_of (a_store a') key = Some r \<and> r_lifecycle r = Tombstoned ManualDeletion t" using rk by blast
  have asks: "asks (ga_gotcha B) r = pairs key []" by (simp add: asks_def rk pairs_def)
  have e: "edges_are (\<lambda>k. (k \<in> dom (content ?S) \<or> k \<in> (\<lambda>p. to_key (gotcha_edge p key)) ` (set [] - set old))
      \<and> k \<notin> (\<lambda>p. to_key (gotcha_edge p key)) ` (set old - set [])) (a_store a')"
    using d(3) by simp
  have st: "\<forall>p\<in>set []. storable (gotcha_edge p key)" by (simp only: list.set ball_empty)
  note c = consistent_again [OF con key rec rk(1) d(1,2) frame old asks st e d(4)]
  show "edged view (a_store a') = wanted A view (ga_gotcha B) (a_store a')" by (rule c(2))
  show "consistent (a_store a') \<or> flagged A M key (a_store a')" by (rule c(1))
qed

end

subsection \<open>An instance\<close>

definition demo_file_serde :: "(jvalue, FileRecord) serde" where
  "demo_file_serde = \<lparr> to_value = (\<lambda>f. Some (JObj [(''path'', JStr (f_path f)), (''gotcha_keys'', JArr (map JStr (f_gotcha_keys f)))])),
     from_value = (\<lambda>_. None) \<rparr>"

definition demo_gotcha_api :: "((unit, jvalue) cell, jvalue, CanonicalEvent + CanonicalEventV2) gotcha_api" where
  "demo_gotcha_api = \<lparr> ga_hash = demo_hash,
     ga_event = \<lparr> ev_encode = (\<lambda>e. Some (BytesCell (event_hash e))), ev_decode = (\<lambda>_. None) \<rparr>,
     ga_json = jvalue_api, ga_marker = demo_marker_serde, ga_file = demo_file_serde, ga_gotcha = demo_gotcha_serde,
     ga_extraction = \<lparr> to_value = (\<lambda>_. None), from_value = (\<lambda>_. None) \<rparr>,
     ga_exemplar = \<lparr> to_value = (\<lambda>_. None), from_value = (\<lambda>_. None) \<rparr> \<rparr>"

interpretation mem_gotcha:
  gotcha_laws mem_store mem_view mem_healthy "\<lambda>t. \<not> mt_commit_fails t" jvalue_api demo_gotcha_api
  by unfold_locales (simp_all add: demo_gotcha_api_def demo_marker_roundtrip demo_file_serde_def)

definition demo_gotcha_env :: gotcha_env where
  "demo_gotcha_env = \<lparr> ge_audit = \<lparr> now_ms = 9, uuid7 = ''u7'', uuid4 = ''u4'', env_user = None, env_username = None, env_uid = None \<rparr>,
     ge_ck = (\<lambda>_. \<lparr> st_now = 9, st_device = 1 \<rparr>) \<rparr>"

definition demo_audit :: "((unit, jvalue) cell mem_tree, bool \<times> string list) Audit" where
  "demo_audit = \<lparr> a_store = demo_empty, a_writer = None \<rparr>"

lemma demo_empty_consistent:
  "indexes_consistent mem_store mem_view mem_healthy jvalue_api demo_gotcha_serde demo_empty"
  "wanted mem_store mem_view demo_gotcha_serde demo_empty = {}"
  by (auto simp: indexes_consistent_def wanted_def linked_def links_at_def edged_def rec_at_def files_keyed_def gotchas_keyed_def
      file_edges_def demo_empty_content)

lemma demo_gotcha_facts:
  "r_lifecycle demo_gotcha_rec = Active" "r_key demo_gotcha_rec = ''gotcha:g''" "starts_with ''gotcha:g'' ''gotcha:''"
  "payload_as (from_value demo_gotcha_serde) demo_gotcha_rec = Some (demo_gotcha_of [''a.rs''])"
  by (simp_all add: demo_gotcha_rec_def demo_record_def layer0_file_stub_def payload_as_def demo_gotcha_serde_def map_filter_simps
      starts_with_def)

text \<open>A write that gets past the collision guard and the record itself returns \<open>Ok\<close>.\<close>

lemma write_returns:
  assumes "is_new \<Longrightarrow> ensure_gotcha_key_available A (a_store a) (r_key r) = Ok ()" and "store_put A (a_store a) (r_key r) r = (S1, Ok ())"
  shows "\<exists>a'. apply_gotcha_write A B env a r old new is_new = (a', Ok ())"
  using assms by (simp add: apply_gotcha_write_def Let_def)

lemma tombstone_returns:
  assumes "store_get A (a_store a) key = Ok (Some r)"
    and "store_put A (a_store a) key (tombstone_record (st_now (ge_ck env ''tombstone'')) r) = (S1, Ok ())"
  shows "\<exists>a'. apply_gotcha_tombstone A B env dev a key files = (a', Ok ())"
  using assms by (simp add: apply_gotcha_tombstone_def Let_def)

text \<open>A store that holds a gotcha with its link and its edge.\<close>

definition demo_linked_rec :: "jvalue Record" where
  "demo_linked_rec = (demo_record ''file:a.rs'' 5)\<lparr>r_payload := Some (JObj [(''gotcha_keys'', JArr [JStr ''gotcha:g''])])\<rparr>"

definition demo_linked :: "((unit, jvalue) cell mem_tree, bool \<times> string list) Store" where
  "demo_linked = demo_empty\<lparr>knowledge := empty_tree\<lparr>mt_cells :=
     [(''gotcha:g'', RecordCell demo_gotcha_rec), (''file:a.rs'', RecordCell demo_linked_rec)]\<rparr>,
     sessions := empty_tree\<lparr>mt_cells := [(to_key (gotcha_edge ''a.rs'' ''gotcha:g''), BytesCell [])]\<rparr>\<rparr>"

lemma demo_edge_key: "starts_with (to_key e) ''graph:edge:''" "for_key (to_key e) = Eventual"
    "to_key e \<noteq> ''gotcha:g''" "to_key e \<noteq> ''file:a.rs''" "''gotcha:g'' \<noteq> to_key e" "''file:a.rs'' \<noteq> to_key e"
  by (simp_all add: to_key_def starts_with_def for_key_def)

lemma demo_linked_content:
  "store_content mem_view demo_linked k = (if k = ''gotcha:g'' then Some (RecordCell demo_gotcha_rec)
     else if k = ''file:a.rs'' then Some (RecordCell demo_linked_rec)
     else if k = to_key (gotcha_edge ''a.rs'' ''gotcha:g'') then Some (BytesCell []) else None)"
  by (cases "for_key k") (auto simp: store_content_def tree_for_def tree_of_def demo_linked_def mem_view_def empty_tree_def
      empty_store_def demo_edge_key for_key_def [of "''gotcha:g''"] for_key_def [of "''file:a.rs''"] starts_with_def [of "''gotcha:g''"] starts_with_def [of "''file:a.rs''"])

subsection \<open>Properties\<close>

text \<open>
  C8. Writing a gotcha never causes silent drift. Start from a store whose file links and edges agree with its gotchas and in which
  the sessions tree accepts writes, while any write to the knowledge tree may fail. When \<open>apply_gotcha_write\<close> returns \<open>Ok\<close> for a
  record and its old and new files, the record is stored, the persisted edges agree with the gotchas, and the file links agree
  too or the dirty marker names the gotcha, so that a repair will find it.
\<close>

theorem gotcha_write_no_silent_drift:
  assumes "gotcha_laws A view healthy live J B"
    and "indexes_consistent A view healthy J (ga_gotcha B) (a_store a)" and "live (sessions (a_store a))"
    and "starts_with (r_key r) ''gotcha:''" and "r_lifecycle r = Active" and "payload_as (from_value (ga_gotcha B)) r = Some g"
    and "set old = {p. (p, r_key r) \<in> wanted A view (ga_gotcha B) (a_store a)}"
    and "\<forall>p\<in>set (g_affected_files g). storable (gotcha_edge p (r_key r))"
    and "apply_gotcha_write A B env a r old (g_affected_files g) is_new = (a', Ok ())"
  shows "rec_at A view (a_store a') (r_key r) = Some r
    \<and> edged view (a_store a') = wanted A view (ga_gotcha B) (a_store a')
    \<and> (indexes_consistent A view healthy J (ga_gotcha B) (a_store a') \<or> flagged A (ga_marker B) (r_key r) (a_store a'))"
proof -
  have "asks (ga_gotcha B) r = pairs (r_key r) (g_affected_files g)" using assms(5,6) by (auto simp: asks_def pairs_def)
  from gotcha_laws.write_consistent [OF assms(1-4,7) this assms(8,9)] show ?thesis by blast
qed

theorem gotcha_write_no_silent_drift_witness:
  "\<exists>a'. apply_gotcha_write mem_store demo_gotcha_api demo_gotcha_env demo_audit demo_gotcha_rec [] [''a.rs''] True = (a', Ok ())
    \<and> edged mem_view (a_store a') = wanted mem_store mem_view demo_gotcha_serde (a_store a')"
proof -
  have S: "a_store demo_audit = demo_empty" "ga_gotcha demo_gotcha_api = demo_gotcha_serde"
    by (simp_all add: demo_audit_def demo_gotcha_api_def)
  have get: "store_get mem_store demo_empty ''gotcha:g'' = Ok None"
    using mem.store_get_content [OF demo_sound(1), of "''gotcha:g''"] by (simp add: demo_empty_content decode_as_def)
  have run: "mem_live.running demo_empty" by (simp add: mem_live.running_def empty_store_def empty_tree_def store_sound_def mem_healthy_def)
  obtain S1 b where p: "store_put mem_store demo_empty (r_key demo_gotcha_rec) demo_gotcha_rec = (S1, Ok ())"
    using mem_live.put_live [OF run] by metis
  have "\<exists>a'. apply_gotcha_write mem_store demo_gotcha_api demo_gotcha_env demo_audit demo_gotcha_rec [] [''a.rs''] True = (a', Ok ())"
    by (rule write_returns [where ?S1.0 = S1]) (use p get in \<open>simp_all add: S ensure_gotcha_key_available_def demo_gotcha_facts\<close>)
  then obtain a' where r: "apply_gotcha_write mem_store demo_gotcha_api demo_gotcha_env demo_audit demo_gotcha_rec [] [''a.rs''] True = (a', Ok ())"
    by blast
  have l: "\<not> mt_commit_fails (sessions (a_store demo_audit))" by (simp add: demo_audit_def empty_store_def empty_tree_def)
  have f: "g_affected_files (demo_gotcha_of [''a.rs'']) = [''a.rs'']" by (simp add: demo_gotcha_of_def)
  have "edged mem_view (a_store a') = wanted mem_store mem_view (ga_gotcha demo_gotcha_api) (a_store a')"
    using gotcha_write_no_silent_drift [OF mem_gotcha.gotcha_laws_axioms _ l, where r = demo_gotcha_rec and g = "demo_gotcha_of [''a.rs'']"
        and old = "[]" and a' = a' and env = demo_gotcha_env and is_new = True] r
    by (simp add: S f demo_empty_consistent demo_gotcha_facts demo_gotcha_edge)
  then show ?thesis using r S by auto
qed

text \<open>
  C12. Deleting a gotcha never causes silent drift: under the same conditions, when \<open>apply_gotcha_tombstone\<close> returns \<open>Ok\<close>, the
  record is tombstoned, no edge of the gotcha is left, and every other link and edge is as before, or
  the dirty marker names the gotcha.
\<close>

theorem gotcha_tombstone_no_silent_drift:
  assumes "gotcha_laws A view healthy live J B"
    and "indexes_consistent A view healthy J (ga_gotcha B) (a_store a)" and "live (sessions (a_store a))"
    and "starts_with key ''gotcha:''" and "set files = {p. (p, key) \<in> wanted A view (ga_gotcha B) (a_store a)}"
    and "apply_gotcha_tombstone A B env dev a key files = (a', Ok ())"
  shows "(\<exists>r t. rec_at A view (a_store a') key = Some r \<and> r_lifecycle r = Tombstoned ManualDeletion t)
    \<and> edged view (a_store a') = wanted A view (ga_gotcha B) (a_store a')
    \<and> (indexes_consistent A view healthy J (ga_gotcha B) (a_store a') \<or> flagged A (ga_marker B) key (a_store a'))"
  using gotcha_laws.tombstone_consistent [OF assms] by blast

lemma demo_linked_rec_at:
  "rec_at mem_store mem_view demo_linked k = (if k = ''gotcha:g'' then Some demo_gotcha_rec
     else if k = ''file:a.rs'' then Some demo_linked_rec else None)"
  by (simp add: rec_at_def demo_linked_content mem_store_def demo_edge_key)

lemma demo_linked_wanted: "wanted mem_store mem_view demo_gotcha_serde demo_linked = {(''a.rs'', ''gotcha:g'')}"
proof -
  have sw: "\<not> starts_with ''file:a.rs'' ''gotcha:''" by (simp add: starts_with_def)
  have rec: "starts_with k ''gotcha:'' \<and> rec_at mem_store mem_view demo_linked k = Some r \<longleftrightarrow> k = ''gotcha:g'' \<and> r = demo_gotcha_rec" for k r
    unfolding demo_linked_rec_at using sw demo_gotcha_facts(3) by (auto split: if_splits)
  have "(p, k) \<in> wanted mem_store mem_view demo_gotcha_serde demo_linked \<longleftrightarrow> p = ''a.rs'' \<and> k = ''gotcha:g''" for p k
    unfolding wanted_def mem_Collect_eq case_prod_conv conj_assoc [symmetric] rec
    by (simp add: demo_gotcha_facts demo_gotcha_of_def)
  then show ?thesis by auto
qed

lemma demo_linked_links: "linked mem_store mem_view jvalue_api demo_linked = {(''a.rs'', ''gotcha:g'')}"
proof -
  have "extract_gotcha_keys jvalue_api demo_linked_rec = [''gotcha:g'']"
    by (simp add: extract_gotcha_keys_def demo_linked_rec_def map_filter_simps)
  then have "links_at mem_store mem_view jvalue_api demo_linked p = (if p = ''a.rs'' then [''gotcha:g''] else [])" for p
    by (simp add: links_at_def demo_linked_rec_at file_key_def)
  then show ?thesis by (auto simp: linked_def split: if_splits)
qed

lemma demo_linked_edges: "file_edges mem_view demo_linked" "edged mem_view demo_linked = {(''a.rs'', ''gotcha:g'')}"
proof -
  have n: "from_key ''gotcha:g'' = None" "from_key ''file:a.rs'' = None"
    by (simp_all add: from_key_def strip_prefix_def starts_with_def)
  have s: "utf8_ok (to_key (gotcha_edge ''a.rs'' ''gotcha:g''))"
    "from_key (to_key (gotcha_edge ''a.rs'' ''gotcha:g'')) = Some (gotcha_edge ''a.rs'' ''gotcha:g'')"
    using demo_gotcha_edge by (simp_all add: storable_def)
  then show f: "file_edges mem_view demo_linked"
    using n by (auto simp: file_edges_def demo_linked_content gotcha_edge_def file_key_def starts_with_def split: if_splits)
  have k: "edge_pair (to_key (gotcha_edge ''a.rs'' ''gotcha:g'')) = Some (''a.rs'', ''gotcha:g'')"
    unfolding edge_pair_def s by (simp add: gotcha_edge_def file_path_of_def file_key_def strip_prefix_def starts_with_def)
  have d: "dom (store_content mem_view demo_linked) = {''gotcha:g'', ''file:a.rs'', to_key (gotcha_edge ''a.rs'' ''gotcha:g'')}"
    by (auto simp: dom_def demo_linked_content split: if_splits)
  have "edge_pair ''gotcha:g'' = None" "edge_pair ''file:a.rs'' = None" by (simp_all add: edge_pair_def n)
  then show "edged mem_view demo_linked = {(''a.rs'', ''gotcha:g'')}"
    unfolding edged_def d using k s(1) by auto
qed

lemma demo_linked_consistent:
  "indexes_consistent mem_store mem_view mem_healthy jvalue_api demo_gotcha_serde demo_linked"
proof -
  have "store_sound mem_healthy demo_linked"
    by (simp add: store_sound_def demo_linked_def mem_healthy_def empty_tree_def empty_store_def)
  moreover have "files_keyed mem_store mem_view demo_linked" "gotchas_keyed mem_store mem_view demo_linked"
    by (auto simp: files_keyed_def gotchas_keyed_def demo_linked_rec_at demo_gotcha_rec_def demo_linked_rec_def demo_record_def layer0_file_stub_def)
  ultimately show ?thesis
    by (simp add: indexes_consistent_def demo_linked_wanted demo_linked_links demo_linked_edges)
qed

theorem gotcha_tombstone_no_silent_drift_witness:
  "\<exists>a'. apply_gotcha_tombstone mem_store demo_gotcha_api demo_gotcha_env (\<lambda>_. 1) (demo_audit\<lparr>a_store := demo_linked\<rparr>)
       ''gotcha:g'' [''a.rs''] = (a', Ok ())
    \<and> edged mem_view (a_store a') = wanted mem_store mem_view demo_gotcha_serde (a_store a')"
proof -
  let ?a = "demo_audit\<lparr>a_store := demo_linked\<rparr>"
  have S: "ga_gotcha demo_gotcha_api = demo_gotcha_serde" by (simp add: demo_gotcha_api_def)
  have run: "mem_live.running demo_linked"
    by (simp add: mem_live.running_def demo_linked_def empty_store_def empty_tree_def store_sound_def mem_healthy_def)
  then have "store_get mem_store demo_linked ''gotcha:g'' = Ok (Some demo_gotcha_rec)"
    using mem.store_get_content [of demo_linked "''gotcha:g''"]
    by (simp add: mem_live.running_def demo_linked_content decode_as_def mem_store_def)
  moreover obtain S1 where "store_put mem_store demo_linked ''gotcha:g''
       (tombstone_record (st_now (ge_ck demo_gotcha_env ''tombstone'')) demo_gotcha_rec) = (S1, Ok ())"
    using mem_live.put_live [OF run] by metis
  ultimately have "\<exists>a'. apply_gotcha_tombstone mem_store demo_gotcha_api demo_gotcha_env (\<lambda>_. 1) ?a ''gotcha:g'' [''a.rs''] = (a', Ok ())"
    by (intro tombstone_returns [where r = demo_gotcha_rec and ?S1.0 = S1]) simp_all
  then obtain a' where r: "apply_gotcha_tombstone mem_store demo_gotcha_api demo_gotcha_env (\<lambda>_. 1) ?a ''gotcha:g'' [''a.rs''] = (a', Ok ())"
    by blast
  have l: "\<not> mt_commit_fails (sessions (a_store ?a))" by (simp add: demo_linked_def empty_store_def empty_tree_def)
  have "edged mem_view (a_store a') = wanted mem_store mem_view (ga_gotcha demo_gotcha_api) (a_store a')"
    using gotcha_tombstone_no_silent_drift [OF mem_gotcha.gotcha_laws_axioms _ l demo_gotcha_facts(3) _ r]
    by (simp add: S demo_linked_wanted demo_linked_consistent)
  then show ?thesis using r S by auto
qed

end
