(* ===== verification/Quality.thy ===== *)
theory Quality
  imports Decide Feedback
begin

section \<open>Record quality (\<open>health/quality.rs\<close>)\<close>

text \<open>
  The score that decides whether a gotcha is injected: what its text contains, weighted, with multiplicative
  penalties. \<open>unicode_api\<close> is what the code asks of the Unicode tables: \<open>str::to_lowercase\<close> and three classes of a
  character, which is given by its UTF-8 bytes. The printed messages for the command line are not modelled.
\<close>

record unicode_api =
  u_to_lowercase :: "string \<Rightarrow> string"
  u_alphanumeric :: "string \<Rightarrow> bool"
  u_uppercase :: "string \<Rightarrow> bool"
  u_lowercase :: "string \<Rightarrow> bool"

definition IMPERATIVE_VERBS :: "string list" where
  "IMPERATIVE_VERBS =
     [''never'', ''always'', ''avoid'', ''use'', ''ensure'', ''do'', ''call'', ''wrap'', ''handle'', ''add'', ''remove'',
      ''set'', ''pass'', ''return'', ''check'', ''run'', ''test'', ''import'', ''export'', ''create'', ''delete'', ''update'',
      ''replace'', ''disable'', ''enable'', ''require'', ''prefer'', ''pin'', ''lock'', ''bump'', ''drop'', ''close'', ''open'',
      ''flush'', ''retry'', ''skip'', ''guard'', ''validate'', ''sanitize'', ''escape'', ''encode'', ''decode'', ''serialize'',
      ''deserialize'', ''convert'', ''cast'', ''assert'', ''verify'', ''confirm'', ''reject'', ''deny'', ''allow'', ''block'',
      ''keep'', ''move'', ''copy'', ''clone'', ''initialize'', ''reset'', ''clear'']"

definition CAUSALITY_MARKERS :: "string list" where
  "CAUSALITY_MARKERS =
     [''because'', ''since'', ''otherwise'', ''to avoid'', ''to prevent'', ''due to'', ''leads to'', ''results in'', ''causes'', ''reason:'']"

definition VAGUE_PHRASES :: "string list" where
  "VAGUE_PHRASES =
     [''be careful'', ''watch out'', ''might'', ''maybe'', ''probably'', ''should work'', ''seems to'', ''i think'', ''not sure'']"

definition W_IMPERATIVE :: f32 where "W_IMPERATIVE = r32 (20/100)"
definition W_CAUSALITY :: f32 where "W_CAUSALITY = r32 (25/100)"
definition W_SEVERITY :: f32 where "W_SEVERITY = r32 (10/100)"
definition W_REFERENCE :: f32 where "W_REFERENCE = r32 (15/100)"
definition W_LENGTH :: f32 where "W_LENGTH = r32 (15/100)"
definition W_SPECIFICITY :: f32 where "W_SPECIFICITY = r32 (15/100)"
definition PENALTY_VAGUE :: f32 where "PENALTY_VAGUE = r32 (5/10)"
definition PENALTY_NO_REASON :: f32 where "PENALTY_NO_REASON = r32 (6/10)"
definition PENALTY_TOO_SHORT :: f32 where "PENALTY_TOO_SHORT = r32 (4/10)"

subsection \<open>Detectors\<close>

definition bool_weight :: "bool \<Rightarrow> f32" where
  "bool_weight b = (if b then Fin 1 else Fin 0)"

definition trim_end_chars :: "(string \<Rightarrow> bool) \<Rightarrow> string \<Rightarrow> string" where
  "trim_end_chars p s = concat (rev (dropWhile p (rev (utf8_chars s))))"

definition detect_imperative_verb :: "unicode_api \<Rightarrow> string \<Rightarrow> bool" where
  "detect_imperative_verb U s =
     (let rest = trim_start s; first_word = u_to_lowercase U (take (find_ws rest) rest)
      in trim_end_chars (\<lambda>c. \<not> u_alphanumeric U c) first_word \<in> set IMPERATIVE_VERBS)"

definition detect_causality :: "string \<Rightarrow> bool" where
  "detect_causality lower = list_ex (contains_str lower) CAUSALITY_MARKERS"

definition detect_vague_phrase :: "string \<Rightarrow> bool" where
  "detect_vague_phrase lower = list_ex (contains_str lower) VAGUE_PHRASES"

definition length_score :: "string \<Rightarrow> f32" where
  "length_score s =
     (let len = f32_of_nat (length s)
      in if flt_lt len (Fin 20) then Fin 0
         else if flt_le (Fin 100) len then Fin 1
         else f32_div (f32_sub len (Fin 20)) (Fin 80))"

text \<open>\<open>text.split(p)\<close> for a class of characters.\<close>

fun split_chars :: "(string \<Rightarrow> bool) \<Rightarrow> string list \<Rightarrow> string list list" where
  "split_chars p [] = [[]]"
| "split_chars p (c # cs) =
     (if p c then [] # split_chars p cs
      else case split_chars p cs of w # ws \<Rightarrow> (c # w) # ws | [] \<Rightarrow> [[c]])"

definition has_camel_case :: "unicode_api \<Rightarrow> string \<Rightarrow> bool" where
  "has_camel_case U s =
     list_ex (\<lambda>word. 2 \<le> length (filter (u_uppercase U) word) \<and> 1 \<le> length (filter (u_lowercase U) word)
                     \<and> 4 \<le> length (concat word))
       (split_chars (\<lambda>c. \<not> u_alphanumeric U c \<and> c \<noteq> ''_'') (utf8_chars s))"

definition specificity_score :: "unicode_api \<Rightarrow> string \<Rightarrow> f32" where
  "specificity_score U s =
     (let checks = [contains_str s ''::'', contains_str s ''()'',
                    contains_str s ''/'' \<and> list_ex (contains_str s) [''.rs'', ''.ts'', ''.py'', ''.go'', ''.js'', ''.json'', ''.toml''],
                    has_camel_case U s]
      in f32_min (f32_add (Fin 0) (f32_mul (f32_of_nat (length (filter id checks))) (r32 (25/100)))) (Fin 1))"

subsection \<open>The score\<close>

definition quality_base :: "unicode_api \<Rightarrow> string \<Rightarrow> bool \<Rightarrow> bool \<Rightarrow> f32" where
  "quality_base U s has_severity has_reference =
     f32_add (f32_add (f32_add (f32_add (f32_add
       (f32_mul (bool_weight (detect_imperative_verb U s)) W_IMPERATIVE)
       (f32_mul (bool_weight (detect_causality (u_to_lowercase U s))) W_CAUSALITY))
       (f32_mul (bool_weight has_severity) W_SEVERITY))
       (f32_mul (bool_weight has_reference) W_REFERENCE))
       (f32_mul (length_score s) W_LENGTH))
       (f32_mul (specificity_score U s) W_SPECIFICITY)"

definition lacks_reason :: "unicode_api \<Rightarrow> 'j Record \<Rightarrow> bool" where
  "lacks_reason U r =
     (let lower = u_to_lowercase U (r_value r)
      in r_category r = Gotcha \<and> \<not> detect_causality lower \<and> \<not> contains_str lower ''because'' \<and> \<not> contains_str lower ''reason:'')"

definition penalty :: "bool \<Rightarrow> f32 \<Rightarrow> f32 \<Rightarrow> f32" where
  "penalty b p x = (if b then f32_mul x p else x)"

definition analyze :: "unicode_api \<Rightarrow> u64 \<Rightarrow> 'j Record \<Rightarrow> QualityScore" where
  "analyze U now r =
     (let s = r_value r; lower = u_to_lowercase U s;
          has_severity = (r_priority r \<noteq> Normal); has_reference = (r_ref_url r \<noteq> None);
          signals = (if detect_imperative_verb U s then [HasImperativeVerb] else [])
            @ (if detect_causality lower then [HasCausality] else [])
            @ (if has_severity then [HasSeveritySet] else [])
            @ (if has_reference then [HasReference] else [])
            @ (if flt_le (r32 (5/10)) (length_score s) then [RuleLengthAdequate] else [])
            @ (if flt_le (r32 (5/10)) (specificity_score U s) then [HasSpecificIdentifier] else [])
            @ (if detect_vague_phrase lower then [VaguePhrasing] else [])
            @ (if length s < 30 then [TooShort] else [])
            @ (if lacks_reason U r then [NoReason] else []);
          v = penalty (lacks_reason U r) PENALTY_NO_REASON
                (penalty (length s < 30) PENALTY_TOO_SHORT
                  (penalty (detect_vague_phrase lower) PENALTY_VAGUE (quality_base U s has_severity has_reference)));
          clamped = f32_clamp (Fin 0) (Fin 1) v
      in \<lparr> q_value = clamped, q_tier = quality_tier_from_value clamped, q_signals = signals, q_computed_at = now \<rparr>)"

definition below_quality_gate :: "QualityScore \<Rightarrow> bool" where
  "below_quality_gate score \<longleftrightarrow> flt_lt (q_value score) (r32 (2/10))"

definition generate_improvement_hints :: "QualityScore \<Rightarrow> string list" where
  \<open>generate_improvement_hints score =
     (let has = (\<lambda>s. s \<in> set (q_signals score))
      in (if \<not> has HasImperativeVerb then [''Start with an imperative verb (Never, Always, Avoid, Use, Ensure, ...)''] else [])
       @ (if \<not> has HasCausality then [''Add a reason: use "because", "otherwise", "to avoid", or "to prevent"''] else [])
       @ (if \<not> has HasSeveritySet then [''Set severity to high or critical if this gotcha can cause real damage''] else [])
       @ (if \<not> has HasReference then [''Add a reference URL (PR, issue, or doc that explains the context)''] else [])
       @ (if \<not> has RuleLengthAdequate then [''Expand the rule text '' @ dash @ '' aim for at least 100 characters''] else [])
       @ (if \<not> has HasSpecificIdentifier then [''Include specific identifiers: function names (foo()), paths (src/), types (CamelCase)''] else [])
       @ (if has VaguePhrasing then [''Remove vague phrases: "be careful", "might", "probably", "should work"''] else [])
       @ (if has TooShort then [''Record is too short (<30 chars) '' @ dash @ '' add detail''] else []))\<close>

subsection \<open>Bounds\<close>

lemma bounded_bool: "bounded 1 (bool_weight b)"
  by (simp add: bool_weight_def bounded_Fin)

lemma bounded_specificity: "bounded 1 (specificity_score U s)"
proof -
  have n: "length (filter id [a, b, c, d]) \<le> 4" for a b c d :: bool by simp
  have "bounded 1 (f32_min (f32_add (Fin 0) (f32_mul (f32_of_nat n) (r32 (25/100)))) (Fin 1))" if "n \<le> 4" for n
  proof -
    have four: "r32 4 = Fin 4" "r32 (1/4) = Fin (1/4)" by code_simp+
    have "bounded 4 (f32_of_nat n)" using that four by (auto simp: f32_of_nat_def intro!: bounded_r32)
    moreover have "bounded (1/4) (r32 (25/100))" using four by (simp add: bounded_def)
    ultimately have "bounded (4 * (1/4)) (f32_mul (f32_of_nat n) (r32 (25/100)))" by (intro bounded_mul) simp_all
    moreover have "bounded 0 (Fin 0)" by (simp add: bounded_Fin)
    ultimately have "bounded (0 + 4 * (1/4)) (f32_add (Fin 0) (f32_mul (f32_of_nat n) (r32 (25/100))))" by (intro bounded_add) simp_all
    then show ?thesis by (auto simp: bounded_Fin f32_min_def)
  qed
  then show ?thesis using n by (simp add: specificity_score_def Let_def)
qed

lemma length_score_tiny:
  assumes "length s < 20"
  shows "length_score s = Fin 0"
proof -
  have "r32 19 = Fin 19" by code_simp
  then have "flt_le (f32_of_nat (length s)) (Fin 19)" using r32_mono [of "of_nat (length s)" 19] assms by (simp add: f32_of_nat_def)
  then have "flt_lt (f32_of_nat (length s)) (Fin 20)" by (cases "f32_of_nat (length s)") (auto simp: flt_lt_def)
  then show ?thesis by (simp add: length_score_def)
qed

lemma length_score_ramp:
  assumes "20 \<le> length s" "of_nat (length s) \<le> 20 + (m :: rat)" "20 + m \<le> 100" "m / 80 \<le> b" "b \<le> 1"
    and "r32 (20 + m) = Fin (20 + m)" "r32 m = Fin m" "r32 b = Fin b"
  shows "bounded b (if flt_le (Fin 100) (f32_of_nat (length s)) then Fin 0 else length_score s)"
proof -
  have r: "r32 20 = Fin 20" by code_simp
  obtain z where z: "f32_of_nat (length s) = Fin z" "20 \<le> z" "z \<le> 20 + m"
    using r32_between [of 20 "of_nat (length s)" "20 + m"] assms r by (auto simp: f32_of_nat_def)
  obtain w where w: "r32 (z - 20) = Fin w" "0 \<le> w" "w \<le> m"
    using r32_between [of 0 "z - 20" m] z assms by auto
  have "bounded b (r32 (w / 80))" using w assms by (intro bounded_r32) (simp_all add: field_simps)
  moreover have "0 \<le> b" using assms(4) w by (simp add: field_simps)
  ultimately show ?thesis using z w by (auto simp: length_score_def f32_sub_def Let_def bounded_Fin)
qed

lemma bounded_length: "bounded 1 (length_score s)"
proof -
  have r: "r32 100 = Fin 100" "r32 80 = Fin 80" by code_simp+
  have full: "bounded 1 (length_score s)" if "flt_le (Fin 100) (f32_of_nat (length s))"
    using that by (cases "f32_of_nat (length s)") (auto simp: length_score_def bounded_Fin flt_lt_def)
  consider "length s < 20" | "20 \<le> length s" "length s \<le> 100" | "100 \<le> length s" by linarith
  then show ?thesis
  proof cases
    case 1
    then show ?thesis by (simp add: length_score_tiny bounded_Fin)
  next
    case 2
    then show ?thesis using length_score_ramp [of s 80 1] full r by (auto split: if_splits)
  next
    case 3
    then show ?thesis using full r32_mono [of 100 "of_nat (length s)"] r by (simp add: f32_of_nat_def)
  qed
qed

lemma bounded_short_length:
  assumes "length s < 30"
  shows "bounded (1/8) (length_score s)"
proof (cases "20 \<le> length s")
  case True
  have r: "r32 29 = Fin 29" "r32 9 = Fin 9" "r32 (1/8) = Fin (1/8)" by code_simp+
  have "flt_le (f32_of_nat (length s)) (Fin 29)" using r32_mono [of "of_nat (length s)" 29] assms r by (simp add: f32_of_nat_def)
  then have "\<not> flt_le (Fin 100) (f32_of_nat (length s))" by (cases "f32_of_nat (length s)") auto
  then show ?thesis using length_score_ramp [of s 9 "1/8"] True assms r by simp
next
  case False
  then show ?thesis by (simp add: length_score_tiny bounded_Fin)
qed

lemma bounded_penalty: "bounded hi x \<Longrightarrow> 0 \<le> p \<Longrightarrow> p \<le> 1 \<Longrightarrow> r32 hi = Fin hi \<Longrightarrow> bounded hi (penalty b (r32 p) x)"
  using bounded_mul [of hi x 1 "r32 p"] bounded_r32 [of p 1] by (simp add: penalty_def)

lemmas weight_defs = W_IMPERATIVE_def W_CAUSALITY_def W_SEVERITY_def W_REFERENCE_def W_LENGTH_def W_SPECIFICITY_def

text \<open>The base score, with a bound on the part the length contributes.\<close>

lemma bounded_base:
  assumes "bounded b (length_score s)" and "c = b * (5/32)"
    and "r32 c = Fin c" "r32 (23/32 + c) = Fin (23/32 + c)" "r32 (23/32 + c + 5/32) = Fin (23/32 + c + 5/32)"
  shows "bounded (23/32 + c + 5/32) (quality_base U s has_severity has_reference)"
proof -
  have e: "r32 (13/64) = Fin (13/64)" "r32 (1/4) = Fin (1/4)" "r32 (7/64) = Fin (7/64)" "r32 (5/32) = Fin (5/32)"
    "r32 (13/64 + 1/4) = Fin (13/64 + 1/4)" "r32 (13/64 + 1/4 + 7/64) = Fin (13/64 + 1/4 + 7/64)"
    "r32 (13/64 + 1/4 + 7/64 + 5/32) = Fin (13/64 + 1/4 + 7/64 + 5/32)" by code_simp+
  have weigh: "bounded hi (f32_mul (bool_weight x) (r32 w))" if "0 \<le> w" "w \<le> hi" "r32 hi = Fin hi" for x w hi
    using bounded_mul [OF bounded_bool bounded_r32 [OF that]] that by simp
  have "bounded (13/64 + 1/4 + 7/64 + 5/32) (f32_add (f32_add (f32_add
      (f32_mul (bool_weight (detect_imperative_verb U s)) W_IMPERATIVE)
      (f32_mul (bool_weight (detect_causality (u_to_lowercase U s))) W_CAUSALITY))
      (f32_mul (bool_weight has_severity) W_SEVERITY)) (f32_mul (bool_weight has_reference) W_REFERENCE))"
    unfolding weight_defs by (intro bounded_add weigh e) simp_all
  moreover have "bounded c (f32_mul (length_score s) W_LENGTH)"
    unfolding assms(2) W_LENGTH_def using assms(1,3) unfolding assms(2) by (intro bounded_mul bounded_r32 e) simp_all
  moreover have "bounded (5/32) (f32_mul (specificity_score U s) W_SPECIFICITY)"
    using bounded_mul [OF bounded_specificity bounded_r32 [of "15/100" "5/32"]] e(4) by (simp add: weight_defs)
  ultimately show ?thesis
    unfolding quality_base_def using assms(4,5) by (intro bounded_add) simp_all
qed

lemma analyze_value:
  assumes "bounded hi (quality_base U (r_value r) (r_priority r \<noteq> Normal) (r_ref_url r \<noteq> None))" and "r32 hi = Fin hi"
    and "m = (if length (r_value r) < 30 then hi * (13/32) else hi)" and "r32 m = Fin m"
  shows "\<exists>x. q_value (analyze U now r) = Fin x \<and> 0 \<le> x \<and> x \<le> m \<and> x \<le> 1"
proof -
  let ?v = "penalty (detect_vague_phrase (u_to_lowercase U (r_value r))) PENALTY_VAGUE
    (quality_base U (r_value r) (r_priority r \<noteq> Normal) (r_ref_url r \<noteq> None))"
  have "r32 (13/32) = Fin (13/32)" by code_simp
  moreover have "bounded hi ?v" unfolding PENALTY_VAGUE_def using assms(1,2) by (intro bounded_penalty) simp_all
  ultimately have "bounded m (penalty (length (r_value r) < 30) PENALTY_TOO_SHORT ?v)"
    using bounded_mul [of hi ?v "13/32" "r32 (4/10)"] bounded_r32 [of "4/10" "13/32"] assms(3,4)
    by (auto simp: penalty_def PENALTY_TOO_SHORT_def split: if_splits)
  then have "bounded m (penalty (lacks_reason U r) PENALTY_NO_REASON (penalty (length (r_value r) < 30) PENALTY_TOO_SHORT ?v))"
    unfolding PENALTY_NO_REASON_def using assms(4) by (intro bounded_penalty) simp_all
  then show ?thesis by (auto simp: analyze_def Let_def bounded_Fin f32_clamp_def)
qed

subsection \<open>Properties\<close>

text \<open>
  The quality of a record is a number between 0 and 1, and its tier is the tier of that number.
\<close>

theorem quality_bounds:
  "\<exists>x. q_value (analyze U now r) = Fin x \<and> 0 \<le> x \<and> x \<le> 1 \<and> q_tier (analyze U now r) = quality_tier_from_value (Fin x)"
proof -
  have e: "r32 (5/32) = Fin (5/32)" "r32 (23/32 + 5/32) = Fin (23/32 + 5/32)" "r32 (23/32 + 5/32 + 5/32) = Fin (23/32 + 5/32 + 5/32)"
    "r32 ((23/32 + 5/32 + 5/32) * (13/32)) = Fin ((23/32 + 5/32 + 5/32) * (13/32))" by code_simp+
  have "bounded (23/32 + 5/32 + 5/32) (quality_base U s a c)" for s a c
    by (rule bounded_base [OF bounded_length _ e(1-3)]) simp
  from analyze_value [OF this e(3) refl, of r now] e(3,4)
  have "\<exists>x. q_value (analyze U now r) = Fin x \<and> 0 \<le> x \<and> x \<le> 1" by (cases "length (r_value r) < 30") auto
  then show ?thesis by (auto simp: analyze_def Let_def)
qed

text \<open>
  A text of fewer than 30 bytes is never enforced: whatever words it has and whatever severity and reference it carries, its quality stays below
  the threshold 0.4 at which \<open>evaluate\<close> starts to deny.
\<close>

theorem short_rule_not_enforceable:
  assumes "length (r_value r) < 30"
  shows "flt_lt (q_value (analyze U now r)) (r32 (4/10))"
proof -
  have e: "r32 (5/256) = Fin (5/256)" "r32 (23/32 + 5/256) = Fin (23/32 + 5/256)" "r32 (23/32 + 5/256 + 5/32) = Fin (23/32 + 5/256 + 5/32)"
    "r32 ((23/32 + 5/256 + 5/32) * (13/32)) = Fin ((23/32 + 5/256 + 5/32) * (13/32))" "r32 (25/64) = Fin (25/64)" by code_simp+
  have b: "bounded (23/32 + 5/256 + 5/32) (quality_base U (r_value r) s c)" for s c
    by (rule bounded_base [OF bounded_short_length [OF assms] _ e(1-3)]) simp
  obtain x where x: "q_value (analyze U now r) = Fin x" "x \<le> (23/32 + 5/256 + 5/32) * (13/32)"
    using analyze_value [OF b e(3) refl] e(4) assms by auto
  obtain y where "r32 (4/10) = Fin y" "25/64 \<le> y"
    using r32_between [of "25/64" "4/10" 1] e(5) by auto
  then show ?thesis using x by simp
qed

definition ascii_unicode :: unicode_api where
  "ascii_unicode = \<lparr> u_to_lowercase = map (\<lambda>c. if CHR ''A'' \<le> c \<and> c \<le> CHR ''Z'' then char_of (of_char c + 32 :: nat) else c),
     u_alphanumeric = (\<lambda>s. list_all ascii_alnum s), u_uppercase = (\<lambda>s. list_all (\<lambda>c. CHR ''A'' \<le> c \<and> c \<le> CHR ''Z'') s),
     u_lowercase = (\<lambda>s. list_all (\<lambda>c. CHR ''a'' \<le> c \<and> c \<le> CHR ''z'') s) \<rparr>"

theorem short_rule_not_enforceable_witness:
  "flt_lt (q_value (analyze ascii_unicode 7 ((layer0_file_stub ''gotcha:g'' 1 1 5)\<lparr>r_value := ''never call foo() because of x''\<rparr>))) (r32 (4/10))"
  by (rule short_rule_not_enforceable) (simp add: layer0_file_stub_def)

end
