(* ===== verification/Staleness.thy ===== *)
theory Staleness
  imports Session
begin

section \<open>Staleness (\<open>health/staleness.rs\<close>)\<close>

text \<open>
  How stale a record is: the increments that follow a re-parse of a file, their cascade to linked gotchas, and the analysis of all
  records from time, git history, dependencies and linked records. git2 is a parameter: an opened repository is a record of what its calls
  return. Which paths exist, and when the time budget is used up, are read from an environment.
\<close>

subsection \<open>Constants\<close>

definition MAX_REPARSE_INCREMENT :: f32 where "MAX_REPARSE_INCREMENT = r32 (4/10)"
definition ENTRY_POINT_WEIGHT :: f32 where "ENTRY_POINT_WEIGHT = r32 (15/100)"
definition IMPORT_WEIGHT :: f32 where "IMPORT_WEIGHT = r32 (10/100)"
definition TODOS_WEIGHT :: f32 where "TODOS_WEIGHT = r32 (5/100)"
definition UNSAFE_WEIGHT :: f32 where "UNSAFE_WEIGHT = r32 (10/100)"
definition UNWRAP_WEIGHT :: f32 where "UNWRAP_WEIGHT = r32 (5/100)"
definition CASCADE_WEIGHT :: f32 where "CASCADE_WEIGHT = r32 (10/100)"
definition TIME_WEIGHT :: f32 where "TIME_WEIGHT = r32 (20/100)"
definition GIT_WEIGHT :: f32 where "GIT_WEIGHT = r32 (35/100)"
definition SEMANTIC_WEIGHT :: f32 where "SEMANTIC_WEIGHT = r32 (25/100)"
definition DEP_WEIGHT :: f32 where "DEP_WEIGHT = r32 (10/100)"
definition CASCADE_WEIGHT_FACTOR :: f32 where "CASCADE_WEIGHT_FACTOR = r32 (10/100)"
definition SECS_PER_DAY :: f64 where "SECS_PER_DAY = r64 86400"
definition TIME_STALE_DAYS :: f64 where "TIME_STALE_DAYS = r64 90"
definition GIT_REVWALK_LIMIT :: nat where "GIT_REVWALK_LIMIT = 2000"
definition GIT_CAP_HIT_COMMITS :: u32 where "GIT_CAP_HIT_COMMITS = 3"
definition MAX_RECOMPUTE_SIGNALS :: nat where "MAX_RECOMPUTE_SIGNALS = 10"
definition MAX_SIGNALS :: nat where "MAX_SIGNALS = 20"
definition REPARSE_WINDOW_SECS :: u64 where "REPARSE_WINDOW_SECS = 86400"

definition STALENESS_PREFIXES :: "string list" where
  "STALENESS_PREFIXES = [''file:'', ''gotcha:'', ''decision:'', ''dep:'', ''dev_note:'']"

subsection \<open>Increments of a re-parse\<close>

record ReparseDiff =
  entry_points_added :: "string list"
  entry_points_removed :: "string list"
  imports_added :: "string list"
  imports_removed :: "string list"
  todos_changed :: bool
  unsafe_delta :: i32
  unwrap_delta :: i32

definition diff_is_empty :: "ReparseDiff \<Rightarrow> bool" where
  "diff_is_empty d \<longleftrightarrow> entry_points_added d = [] \<and> entry_points_removed d = [] \<and> imports_added d = [] \<and> imports_removed d = []
     \<and> \<not> todos_changed d \<and> unsafe_delta d = 0 \<and> unwrap_delta d = 0"

text \<open>\<open>as f32\<close> of a 32-bit count and of the magnitude of a signed one.\<close>

definition f32_of_u32 :: "u32 \<Rightarrow> f32" where "f32_of_u32 n = f32_of_nat (unat n)"
definition unsigned_abs :: "i32 \<Rightarrow> u32" where "unsigned_abs d = word_of_int \<bar>sint d\<bar>"

text \<open>The signals of a diff, each with the increment it adds.\<close>

definition reparse_signals :: "ReparseDiff \<Rightarrow> (StalenessSignal \<times> f32) list" where
  "reparse_signals d =
     (let ep = word_of_nat (length (entry_points_added d) + length (entry_points_removed d)) :: u32;
          im = word_of_nat (length (imports_added d) + length (imports_removed d)) :: u32
      in (if 0 < ep then [(EntryPointsChanged ep, f32_mul (f32_of_u32 ep) ENTRY_POINT_WEIGHT)] else [])
         @ (if 0 < im then [(ImportsChanged im, f32_mul (f32_of_u32 im) IMPORT_WEIGHT)] else [])
         @ (if todos_changed d then [(TodosChanged, TODOS_WEIGHT)] else [])
         @ (if unsafe_delta d \<noteq> 0
            then [(UnsafeCountChanged (unsafe_delta d), f32_mul (f32_of_u32 (unsigned_abs (unsafe_delta d))) UNSAFE_WEIGHT)] else [])
         @ (if unwrap_delta d \<noteq> 0
            then [(UnwrapCountChanged (unwrap_delta d), f32_mul (f32_of_u32 (unsigned_abs (unwrap_delta d))) UNWRAP_WEIGHT)] else []))"

definition reparse_increment :: "ReparseDiff \<Rightarrow> f32" where
  "reparse_increment d = f32_min (foldl (\<lambda>acc s. f32_add acc (snd s)) (r32 0) (reparse_signals d)) MAX_REPARSE_INCREMENT"

definition last_signals :: "StalenessSignal list \<Rightarrow> StalenessSignal list" where
  "last_signals ss = drop (length ss - MAX_SIGNALS) ss"

text \<open>A score raised by an increment, with new signals at the end of its capped history.\<close>

definition raised :: "u64 \<Rightarrow> f32 \<Rightarrow> StalenessSignal list \<Rightarrow> StalenessScore \<Rightarrow> StalenessScore" where
  "raised now inc new s =
     (let v = f32_min (f32_add (s_value s) inc) (r32 1)
      in s\<lparr> s_value := v, s_tier := staleness_tier_from_value v, s_computed_at := now, s_signals := last_signals (s_signals s @ new) \<rparr>)"

definition apply_reparse_staleness :: "u64 \<Rightarrow> ReparseDiff \<Rightarrow> 'j Record \<Rightarrow> 'j Record \<times> StalenessSignal list" where
  "apply_reparse_staleness now d r =
     (if diff_is_empty d then (r, [])
      else let new = map fst (reparse_signals d)
           in (r\<lparr>r_staleness := raised now (reparse_increment d) new (r_staleness r)\<rparr>, new))"

fun cascade_from ::
  "('t, 'x, 'v, 'j) store_api \<Rightarrow> u64 \<Rightarrow> string \<Rightarrow> ('t, 'x) Store \<Rightarrow> u32 \<Rightarrow> string list \<Rightarrow> ('t, 'x, u32) store_result" where
  "cascade_from A now path S n [] = (S, Ok n)"
| "cascade_from A now path S n (k # ks) =
     (case store_get A S k of
        Inl e \<Rightarrow> (S, Err e)
      | Inr None \<Rightarrow> cascade_from A now path S n ks
      | Inr (Some r) \<Rightarrow>
          (case store_put A S k (touch now (r\<lparr>r_staleness := raised now CASCADE_WEIGHT [LinkedFileChanged path] (r_staleness r)\<rparr>)) of
             (S1, Inl e) \<Rightarrow> (S1, Err e)
           | (S1, Inr _) \<Rightarrow> cascade_from A now path S1 (n + 1) ks))"

definition cascade_staleness_to_gotchas ::
  "('t, 'x, 'v, 'j) store_api \<Rightarrow> u64 \<Rightarrow> ('t, 'x) Store \<Rightarrow> FileRecord \<Rightarrow> ('t, 'x, u32) store_result" where
  "cascade_staleness_to_gotchas A now S fr = cascade_from A now (f_path fr) S 0 (f_gotcha_keys fr)"

subsection \<open>Git\<close>

text \<open>
  A tree gives the object name of the entry at a path. A commit has its tree, the number of its parents and the tree of the first parent, each absent when git2 fails.
  The walk lists the commits from the head in topological order, with \<open>None\<close> for a step that fails.
\<close>

type_synonym git_tree = "string \<Rightarrow> string option"

record git_commit =
  gc_tree :: "git_tree option"
  gc_parent_count :: nat
  gc_parent_tree :: "git_tree option"

record git_repo =
  gr_target :: "string option"
  gr_head_tree :: "git_tree option"
  gr_find :: "string \<Rightarrow> git_commit option"
  gr_revwalk :: "string option list option"

definition head_commit_sha :: "git_repo \<Rightarrow> string option" where
  "head_commit_sha g = gr_target g"

definition blob_sha_at_head :: "git_repo \<Rightarrow> string \<Rightarrow> string option" where
  "blob_sha_at_head g path = Option.bind (gr_head_tree g) (\<lambda>t. t path)"

definition blob_sha_at_commit :: "git_repo \<Rightarrow> string \<Rightarrow> string \<Rightarrow> string option" where
  "blob_sha_at_commit g path sha = Option.bind (Option.bind (gr_find g sha) gc_tree) (\<lambda>t. t path)"

definition commit_touches_file :: "git_repo \<Rightarrow> string \<Rightarrow> string \<Rightarrow> bool" where
  "commit_touches_file g oid path =
     (case gr_find g oid of
        None \<Rightarrow> False
      | Some c \<Rightarrow>
          (case gc_tree c of
             None \<Rightarrow> False
           | Some t \<Rightarrow>
               (if gc_parent_count c = 0 then t path \<noteq> None
                else case gc_parent_tree c of
                       None \<Rightarrow> t path \<noteq> None
                     | Some p \<Rightarrow> t path \<noteq> p path)))"

text \<open>The commits that touch the path before the commit is reached, at most as many steps as the limit; the flag tells whether it was reached.\<close>

fun walk_commits :: "git_repo \<Rightarrow> string \<Rightarrow> string \<Rightarrow> nat \<Rightarrow> u32 \<Rightarrow> string option list \<Rightarrow> u32 \<times> bool" where
  "walk_commits g path since 0 n steps = (n, False)"
| "walk_commits g path since (Suc left) n [] = (n, False)"
| "walk_commits g path since (Suc left) n (None # steps) = walk_commits g path since left n steps"
| "walk_commits g path since (Suc left) n (Some oid # steps) =
     (if oid = since then (n, True)
      else walk_commits g path since left (if commit_touches_file g oid path then n + 1 else n) steps)"

definition count_commits_since :: "git_repo \<Rightarrow> string \<Rightarrow> string \<Rightarrow> u32" where
  "count_commits_since g path since =
     (case gr_target g of
        None \<Rightarrow> 0
      | Some _ \<Rightarrow>
          (case gr_revwalk g of
             None \<Rightarrow> 0
           | Some steps \<Rightarrow>
               (case walk_commits g path since GIT_REVWALK_LIMIT 0 steps of
                  (n, found) \<Rightarrow> if \<not> found \<and> n = 0 \<and> GIT_REVWALK_LIMIT \<le> length steps then GIT_CAP_HIT_COMMITS else n)))"

definition commits_to_factor :: "u32 \<Rightarrow> f32" where
  "commits_to_factor n =
     (if n = 0 then r32 0 else if n = 1 then r32 (15/100) else if n = 2 then r32 (30/100) else if n = 3 then r32 (50/100)
      else if n = 4 then r32 (70/100) else r32 1)"

definition git_factor :: "string option \<Rightarrow> git_repo \<Rightarrow> string \<Rightarrow> string \<Rightarrow> f32 \<times> string option" where
  "git_factor head g path last_sha =
     (case head of
        None \<Rightarrow> (r32 0, None)
      | Some head_sha \<Rightarrow>
          (if last_sha = [] then (r32 0, Some head_sha)
           else if last_sha = head_sha then (r32 0, None)
           else case blob_sha_at_head g path of
                  None \<Rightarrow> (r32 0, Some head_sha)
                | Some h \<Rightarrow>
                    (if blob_sha_at_commit g path last_sha = Some h then (r32 0, Some head_sha)
                     else (commits_to_factor (count_commits_since g path last_sha), Some head_sha))))"

subsection \<open>The other factors\<close>

definition time_factor :: "'j Record \<Rightarrow> u64 \<Rightarrow> f32" where
  "time_factor r now =
     (let last_touch = max (r_updated_at r) (r_last_accessed r)
      in if last_touch = 0 \<or> now \<le> last_touch then r32 0
         else f32_of_f64 (f32_min (f64_div (f64_div (r64 (of_nat (unat (now - last_touch)))) SECS_PER_DAY) TIME_STALE_DAYS) (r64 1)))"

definition semantic_factor :: f32 where "semantic_factor = r32 0"

text \<open>\<open>split("::").next()\<close>: the part before the first double colon.\<close>

fun before_colons :: "string \<Rightarrow> string" where
  "before_colons [] = []"
| "before_colons (c # cs) = (if starts_with (c # cs) ''::'' then [] else c # before_colons cs)"

definition push_dep_key :: "string \<Rightarrow> string \<Rightarrow> string list \<Rightarrow> string list" where
  "push_dep_key ecosystem name keys =
     (let key = ''dep:'' @ ecosystem @ '':'' @ name in if key \<in> set keys then keys else keys @ [key])"

definition first_path_segment :: "string \<Rightarrow> string option" where
  "first_path_segment import = (case split_char (CHR ''/'') import of [] \<Rightarrow> None | seg # _ \<Rightarrow> if seg = [] then None else Some seg)"

definition dotted_first :: "string \<Rightarrow> bool" where
  "dotted_first import = (case first_path_segment import of Some seg \<Rightarrow> CHR ''.'' \<in> set seg | None \<Rightarrow> False)"

definition local_or_rust :: "string \<Rightarrow> bool" where
  "local_or_rust import \<longleftrightarrow> import = [] \<or> starts_with import ''.'' \<or> starts_with import ''/'' \<or> contains_str import ''::''"

definition npm_package_name :: "string \<Rightarrow> string option" where
  "npm_package_name import =
     (if local_or_rust import \<or> dotted_first import then None
      else if starts_with import ''@''
      then (case split_char (CHR ''/'') import of
              scope # package # _ \<Rightarrow> Some (take (length scope + 1 + length package) import)
            | _ \<Rightarrow> None)
      else first_path_segment import)"

text \<open>From the whole path down to two segments; prefixes of different length are different.\<close>

definition go_module_candidates :: "string \<Rightarrow> string list" where
  "go_module_candidates import =
     (if local_or_rust import \<or> \<not> dotted_first import then []
      else let segments = split_char (CHR ''/'') import
           in remdups (map (\<lambda>len. join ''/'' (take len segments)) (rev [2..<Suc (length segments)])))"

definition dep_lookup_keys :: "string \<Rightarrow> string list" where
  "dep_lookup_keys import =
     (let crate = before_colons import;
          keys1 = (if crate \<noteq> import \<or> contains_str import ''::'' then push_dep_key ''cargo'' crate [] @ [''dep:'' @ crate] else []);
          keys2 = (case npm_package_name import of
                     Some package \<Rightarrow> push_dep_key ''npm'' package keys1 @ [''dep:'' @ package]
                   | None \<Rightarrow> keys1)
      in foldl (\<lambda>keys m. push_dep_key ''go'' m keys @ [''dep:'' @ m]) keys2 (go_module_candidates import))"

definition is_dependency_bumped :: "StalenessSignal \<Rightarrow> bool" where
  "is_dependency_bumped s \<longleftrightarrow> (case s of DependencyBumped _ _ _ \<Rightarrow> True | _ \<Rightarrow> False)"

text \<open>The first key of an import that names a dependency record decides; the sum with one wraps at the last second of the clock.\<close>

definition dep_bumped :: "FileRecord \<Rightarrow> 'j Record \<Rightarrow> bool" where
  "dep_bumped fr dep \<longleftrightarrow> f_last_modified_session fr < r_updated_at dep
     \<and> (list_ex is_dependency_bumped (s_signals (r_staleness dep)) \<or> f_last_modified_session fr + 1 < r_updated_at dep)"

definition ratio_capped :: "nat \<Rightarrow> nat \<Rightarrow> f32" where
  "ratio_capped a b = f32_min (f32_div (f32_of_nat a) (f32_of_nat b)) (r32 1)"

definition dep_factor :: "FileRecord option \<Rightarrow> (string \<rightharpoonup> 'j Record) \<Rightarrow> f32" where
  "dep_factor file_record dep_cache =
     (case file_record of
        None \<Rightarrow> r32 0
      | Some fr \<Rightarrow>
          (if f_imports fr = [] then r32 0
           else let found = List.map_filter (\<lambda>import. Option.bind (find (\<lambda>k. dep_cache k \<noteq> None) (dep_lookup_keys import)) dep_cache) (f_imports fr)
                in if found = [] then r32 0 else ratio_capped (length (filter (dep_bumped fr) found)) (length found)))"

definition is_stale_record :: "('t, 'x, 'v, 'j) store_api \<Rightarrow> ('t, 'x) Store \<Rightarrow> string \<Rightarrow> bool" where
  "is_stale_record A S key =
     (case store_get A S key of Inr (Some r) \<Rightarrow> flt_le (r32 (4/10)) (s_value (r_staleness r)) | _ \<Rightarrow> False)"

definition stale_share :: "('t, 'x, 'v, 'j) store_api \<Rightarrow> ('t, 'x) Store \<Rightarrow> string list \<Rightarrow> f32" where
  "stale_share A S keys =
     (let stale = length (filter (is_stale_record A S) keys)
      in if stale = 0 then r32 0 else ratio_capped stale (length keys))"

definition cascade_factor ::
  "('t, 'x, 'v, 'j) store_api \<Rightarrow> ('j, GotchaRecord) serde \<Rightarrow> 'j Record \<Rightarrow> FileRecord option \<Rightarrow> ('t, 'x) Store \<Rightarrow> f32" where
  "cascade_factor A G r file_record S =
     (case r_category r of
        File \<Rightarrow> (case file_record of None \<Rightarrow> r32 0 | Some fr \<Rightarrow> stale_share A S (f_gotcha_keys fr @ f_decision_keys fr))
      | Gotcha \<Rightarrow>
          (case payload_as (from_value G) r of None \<Rightarrow> r32 0 | Some g \<Rightarrow> stale_share A S (map file_key (g_affected_files g)))
      | _ \<Rightarrow> r32 0)"

subsection \<open>The analyzer\<close>

record staleness_env =
  sv_exists :: "string \<Rightarrow> bool"
  sv_expired :: "string \<Rightarrow> string option \<Rightarrow> bool"

record StalenessAnalyzer =
  an_repo :: "git_repo option"
  an_now :: u64
  an_head_commit :: "string option"

definition analyzer_new :: "git_repo option \<Rightarrow> u64 \<Rightarrow> StalenessAnalyzer" where
  "analyzer_new repo now = \<lparr> an_repo = repo, an_now = now, an_head_commit = Option.bind repo head_commit_sha \<rparr>"

record StalenessReport =
  rep_scanned :: u32
  rep_updated :: u32
  rep_tombstoned :: u32
  rep_liability :: u32
  rep_stale :: u32

fun is_reparse_signal :: "StalenessSignal \<Rightarrow> bool" where
  "is_reparse_signal (EntryPointsChanged _) = True"
| "is_reparse_signal (ImportsChanged _) = True"
| "is_reparse_signal TodosChanged = True"
| "is_reparse_signal (UnsafeCountChanged _) = True"
| "is_reparse_signal (UnwrapCountChanged _) = True"
| "is_reparse_signal _ = False"

definition renamed_to_existing :: "staleness_env \<Rightarrow> StalenessSignal list \<Rightarrow> bool" where
  "renamed_to_existing env ss = list_ex (\<lambda>s. case s of FileRenamed p \<Rightarrow> sv_exists env p | _ \<Rightarrow> False) ss"

definition overridden :: "u64 \<Rightarrow> f32 \<Rightarrow> StalenessTier \<Rightarrow> StalenessSignal list \<Rightarrow> StalenessScore \<Rightarrow> StalenessScore" where
  "overridden now v tier signals s = s\<lparr> s_value := v, s_tier := tier, s_computed_at := now, s_signals := signals \<rparr>"

text \<open>The weighted sum of the five factors, in the order of the source.\<close>

definition weighted_sum :: "f32 \<Rightarrow> f32 \<Rightarrow> f32 \<Rightarrow> f32 \<Rightarrow> f32 \<Rightarrow> f32" where
  "weighted_sum time_f git_f semantic_f dep_f cascade_f =
     f32_add (f32_add (f32_add (f32_add (f32_mul time_f TIME_WEIGHT) (f32_mul git_f GIT_WEIGHT)) (f32_mul semantic_f SEMANTIC_WEIGHT))
       (f32_mul dep_f DEP_WEIGHT)) (f32_mul cascade_f CASCADE_WEIGHT_FACTOR)"

text \<open>Signals of a re-parse within the last day keep a score from falling.\<close>

definition recent_reparse :: "u64 \<Rightarrow> StalenessScore \<Rightarrow> bool" where
  "recent_reparse now s \<longleftrightarrow> 0 < s_computed_at s \<and> sat_sub now (s_computed_at s) < REPARSE_WINDOW_SECS
     \<and> filter is_reparse_signal (s_signals s) \<noteq> []"

text \<open>The score of a record whose file is neither gone nor renamed; \<open>s\<close> is its score, without a signal of a deletion that was undone.\<close>

definition recomputed ::
  "('t, 'x, 'v, 'j) store_api \<Rightarrow> ('j, GotchaRecord) serde \<Rightarrow> StalenessAnalyzer \<Rightarrow> ('t, 'x) Store \<Rightarrow> (string \<rightharpoonup> 'j Record) \<Rightarrow> FileRecord option
   \<Rightarrow> 'j Record \<Rightarrow> StalenessScore \<Rightarrow> StalenessScore" where
  "recomputed A G an S deps file_record r s =
     (let now = an_now an;
          kept = filter is_reparse_signal (s_signals s);
          recent = recent_reparse now s;
          (git_f, new_sha) = (case an_repo an of
              Some g \<Rightarrow> git_factor (an_head_commit an) g (unwrap_or (strip_prefix (r_key r) ''file:'') (r_key r)) (s_last_record_sha s)
            | None \<Rightarrow> (r32 0, None));
          clamped = f32_clamp (r32 0) (r32 1)
            (weighted_sum (time_factor r now) git_f semantic_factor (dep_factor file_record deps) (cascade_factor A G r file_record S));
          final_value = (if recent \<and> flt_lt clamped (s_value s) then s_value s else clamped);
          new_signals = (if recent then take MAX_RECOMPUTE_SIGNALS kept else []) @ (if flt_lt (r32 0) git_f then [LinesChangedPct git_f] else [])
      in \<lparr> s_value = final_value, s_tier = staleness_tier_from_value final_value, s_signals = last_signals new_signals,
           s_computed_at = now, s_last_record_sha = unwrap_or new_sha (s_last_record_sha s) \<rparr>)"

definition compute_staleness ::
  "('t, 'x, 'v, 'j) store_api \<Rightarrow> ('j, FileRecord) serde \<Rightarrow> ('j, GotchaRecord) serde \<Rightarrow> staleness_env \<Rightarrow> StalenessAnalyzer \<Rightarrow> ('t, 'x) Store
   \<Rightarrow> (string \<rightharpoonup> 'j Record) \<Rightarrow> 'j Record \<Rightarrow> 'j Record" where
  "compute_staleness A F G env an S deps r =
     (let key = r_key r; s = r_staleness r; now = an_now an;
          path = unwrap_or (strip_prefix key ''file:'') key;
          is_file = starts_with key ''file:'';
          file_record = (if is_file then payload_as (from_value F) r else None);
          deleted = (FileDeleted \<in> set (s_signals s));
          s1 = (if deleted then s\<lparr>s_signals := filter (\<lambda>x. x \<noteq> FileDeleted) (s_signals s)\<rparr> else s)
      in if deleted \<and> \<not> sv_exists env path
         then r\<lparr>r_staleness := overridden now (r32 1) Tombstone (s_signals s) s\<rparr>
         else if is_file \<and> path \<noteq> [] \<and> \<not> sv_exists env path
         then r\<lparr>r_staleness := overridden now (r32 1) Tombstone (s_signals s1 @ [FileDeleted]) s1\<rparr>
         else if renamed_to_existing env (s_signals s1)
         then r\<lparr>r_staleness := overridden now (r32 (85/100)) Liability (s_signals s1) s1\<rparr>
         else r\<lparr>r_staleness := recomputed A G an S deps file_record r s1\<rparr>)"

definition staleness_changed :: "'j Record \<Rightarrow> 'j Record \<Rightarrow> bool" where
  "staleness_changed old new =
     (let a = r_staleness old; b = r_staleness new
      in flt_lt (r32 (1/100)) (f32_abs (f32_sub (s_value a) (s_value b))) \<or> s_tier a \<noteq> s_tier b
         \<or> length (s_signals a) \<noteq> length (s_signals b) \<or> s_last_record_sha a \<noteq> s_last_record_sha b)"

definition count_staleness_tier :: "StalenessTier \<Rightarrow> StalenessReport \<Rightarrow> StalenessReport" where
  "count_staleness_tier t rep =
     (case t of
        Tombstone \<Rightarrow> rep\<lparr>rep_tombstoned := rep_tombstoned rep + 1\<rparr>
      | Liability \<Rightarrow> rep\<lparr>rep_liability := rep_liability rep + 1\<rparr>
      | Stale \<Rightarrow> rep\<lparr>rep_stale := rep_stale rep + 1\<rparr>
      | _ \<Rightarrow> rep)"

text \<open>The records of one prefix, until the time budget is used up: the report and the updates so far.\<close>

fun analyze_records ::
  "('j Record \<Rightarrow> 'j Record) \<Rightarrow> staleness_env \<Rightarrow> u64 \<Rightarrow> string \<Rightarrow> 'j Record list \<Rightarrow> StalenessReport \<times> (string \<times> 'j Record) list
   \<Rightarrow> StalenessReport \<times> (string \<times> 'j Record) list" where
  "analyze_records f env now pre [] acc = acc"
| "analyze_records f env now pre (r # rs) (rep, updates) =
     (if sv_expired env pre (Some (r_key r)) then (rep, updates)
      else let rep1 = rep\<lparr>rep_scanned := rep_scanned rep + 1\<rparr>; r' = f r
           in analyze_records f env now pre rs
                (if r_lifecycle r = Active \<and> staleness_changed r r'
                 then ((count_staleness_tier (s_tier (r_staleness r')) rep1)\<lparr>rep_updated := rep_updated rep1 + 1\<rparr>, updates @ [(r_key r', touch now r')])
                 else (rep1, updates)))"

fun analyze_prefixes ::
  "('t, 'x, 'v, 'j) store_api \<Rightarrow> ('j Record \<Rightarrow> 'j Record) \<Rightarrow> staleness_env \<Rightarrow> u64 \<Rightarrow> ('t, 'x) Store \<Rightarrow> string list
   \<Rightarrow> StalenessReport \<times> (string \<times> 'j Record) list \<Rightarrow> StalenessReport \<times> (string \<times> 'j Record) list" where
  "analyze_prefixes A f env now S [] acc = acc"
| "analyze_prefixes A f env now S (pre # pres) acc =
     (if sv_expired env pre None then acc
      else case scan_prefix A S pre of
             Inl _ \<Rightarrow> analyze_prefixes A f env now S pres acc
           | Inr rs \<Rightarrow> analyze_prefixes A f env now S pres (analyze_records f env now pre rs acc))"

definition analyze_all ::
  "('t, 'x, 'v, 'j) store_api \<Rightarrow> ('j, FileRecord) serde \<Rightarrow> ('j, GotchaRecord) serde \<Rightarrow> staleness_env \<Rightarrow> StalenessAnalyzer \<Rightarrow> ('t, 'x) Store
   \<Rightarrow> ('t, 'x, StalenessReport) store_result" where
  "analyze_all A F G env an S =
     (let deps = (case scan_prefix A S ''dep:'' of Inr rs \<Rightarrow> map_of (rev (map (\<lambda>r. (r_key r, r)) rs)) | Inl _ \<Rightarrow> Map.empty);
          zero = \<lparr> rep_scanned = 0, rep_updated = 0, rep_tombstoned = 0, rep_liability = 0, rep_stale = 0 \<rparr>;
          (rep, updates) = analyze_prefixes A (compute_staleness A F G env an S deps) env (an_now an) S STALENESS_PREFIXES (zero, [])
      in if updates = [] then (S, Ok rep)
         else case put_batch A S updates of
                (S1, Inl e) \<Rightarrow> (S1, Err e)
              | (S1, Inr _) \<Rightarrow> (S1, Ok rep))"

end
