(* ===== verification/Reparse.thy ===== *)
theory Reparse
  imports Staleness
begin

section \<open>Re-parsing a file (\<open>analysis/reparse.rs\<close>)\<close>

text \<open>
  After an edit the file is parsed again and its record updated: structural fields are replaced, what people and agents added is kept, and
  changes raise the staleness of the record and of the gotchas linked to it. The walk and tree-sitter are parameters: whether the file exists,
  its size, and what language detection and the parser make of it.
\<close>

datatype ImportKind = ImportNormal | ImportWildcard | ImportRelative | ImportExternal | ImportInherits | ImportIncludes

record ImportStatement =
  im_path :: string
  im_kind :: ImportKind
  im_line :: u32

text \<open>\<open>StaticFileAnalysis\<close> without the path and the language, which nothing here reads.\<close>

record StaticFileAnalysis =
  an_entry_points :: "string list"
  an_exported_types :: "string list"
  an_imports :: "ImportStatement list"
  an_todos :: "TodoComment list"
  an_unsafe_count :: u32
  an_unwrap_count :: u32
  an_panic_count :: u32
  an_branch_count :: u32
  an_module_doc :: "string option"
  an_content_hash :: "string option"
  an_line_count :: u32

record reparse_env =
  rv_exists :: "string \<Rightarrow> bool"
  rv_size :: "string \<Rightarrow> u64"
  rv_parse :: "string \<Rightarrow> StaticFileAnalysis option"

text \<open>Entry points, then exported types, each name once, in the order of first appearance.\<close>

definition public_api_symbols :: "StaticFileAnalysis \<Rightarrow> string list" where
  "public_api_symbols a = rev (remdups (rev (an_entry_points a @ an_exported_types a)))"

definition token_cost :: "u64 \<Rightarrow> u32" where
  "token_cost size_bytes = ucast (min (size_bytes div 4) 0xFFFFFFFF)"

definition build_file_record_from_analysis :: "string \<Rightarrow> StaticFileAnalysis \<Rightarrow> u64 \<Rightarrow> u64 \<Rightarrow> FileRecord" where
  "build_file_record_from_analysis rel_path a size_bytes now =
     \<lparr> f_path = rel_path, f_purpose = [], f_entry_points = public_api_symbols a, f_imports = map im_path (an_imports a),
       f_gotcha_keys = [], f_decision_keys = [], f_todos = an_todos a, f_unsafe_count = an_unsafe_count a,
       f_unwrap_count = an_unwrap_count a, f_change_frequency = 0, f_last_author = None, f_is_hotspot = False,
       f_token_cost_estimate = token_cost size_bytes, f_last_modified_session = now, f_content_hash = an_content_hash a,
       f_line_count = an_line_count a, f_blast_radius = None, f_propagated_staleness = None \<rparr>"

text \<open>The set differences have no order in the source; only their sizes are used.\<close>

definition compute_diff :: "FileRecord \<Rightarrow> StaticFileAnalysis \<Rightarrow> ReparseDiff" where
  "compute_diff old new =
     (let eps = public_api_symbols new; imps = map im_path (an_imports new)
      in \<lparr> entry_points_added = difference eps (f_entry_points old),
           entry_points_removed = difference (f_entry_points old) eps,
           imports_added = difference imps (f_imports old),
           imports_removed = difference (f_imports old) imps,
           todos_changed = (length (f_todos old) \<noteq> length (an_todos new)
             \<or> list_ex (\<lambda>(a, b). t_text a \<noteq> t_text b \<or> t_line a \<noteq> t_line b) (zip (f_todos old) (an_todos new))),
           unsafe_delta = an_unsafe_count new - f_unsafe_count old,
           unwrap_delta = an_unwrap_count new - f_unwrap_count old \<rparr>)"

definition merged_file :: "string \<Rightarrow> FileRecord \<Rightarrow> StaticFileAnalysis \<Rightarrow> u64 \<Rightarrow> u64 \<Rightarrow> FileRecord" where
  "merged_file rel_path old a size_bytes now =
     \<lparr> f_path = rel_path, f_purpose = f_purpose old, f_entry_points = public_api_symbols a, f_imports = map im_path (an_imports a),
       f_gotcha_keys = f_gotcha_keys old, f_decision_keys = f_decision_keys old, f_todos = an_todos a,
       f_unsafe_count = an_unsafe_count a, f_unwrap_count = an_unwrap_count a, f_change_frequency = f_change_frequency old,
       f_last_author = f_last_author old, f_is_hotspot = f_is_hotspot old, f_token_cost_estimate = token_cost size_bytes,
       f_last_modified_session = now, f_content_hash = an_content_hash a, f_line_count = an_line_count a,
       f_blast_radius = f_blast_radius old, f_propagated_staleness = f_propagated_staleness old \<rparr>"

text \<open>The record of a file that is gone.\<close>

definition gone_record :: "u64 \<Rightarrow> 'j Record \<Rightarrow> 'j Record" where
  "gone_record now r =
     touch now (r\<lparr>r_staleness := (r_staleness r)\<lparr> s_value := r32 1, s_tier := Tombstone,
       s_signals := s_signals (r_staleness r) @ [FileDeleted], s_computed_at := now \<rparr>\<rparr>)"

definition new_file_record :: "('j, FileRecord) serde \<Rightarrow> stamp \<Rightarrow> string \<Rightarrow> FileRecord \<Rightarrow> 'j Record" where
  "new_file_record F st key fr =
     \<lparr> r_key = key, r_value = f_purpose fr, r_category = File, r_priority = Normal, r_tags = [],
       r_created_at = st_now st, r_updated_at = st_now st, r_ref_url = None, r_staleness = fresh, r_lifecycle = Active,
       r_version = \<lparr> device_id = st_device st, logical_clock = 1, wall_clock = st_now st \<rparr>,
       r_quality = quality_layer0_default, r_access_count = 0, r_last_accessed = 0, r_source = StaticAnalysis,
       r_confidence = confidence_for_new_record StaticAnalysis, r_gap_analysis_score = r32 0, r_payload = to_value F fr \<rparr>"

text \<open>
  The record to write for an analysis, if any, and the file record whose gotchas are affected: only a change of a record that could be read raises staleness.
\<close>

definition reparsed ::
  "('j, FileRecord) serde \<Rightarrow> (string \<Rightarrow> stamp) \<Rightarrow> string \<Rightarrow> StaticFileAnalysis \<Rightarrow> u64 \<Rightarrow> 'j Record option \<Rightarrow> ('j Record \<times> FileRecord option) option" where
  "reparsed F ck rel_path a size_bytes existing =
     (let now = st_now (ck ''now''); built = build_file_record_from_analysis rel_path a size_bytes now
      in case existing of
           None \<Rightarrow> Some (new_file_record F (ck ''now'') (file_key rel_path) built, None)
         | Some r \<Rightarrow>
             (case payload_as (from_value F) r of
                None \<Rightarrow> Some (touch now (r\<lparr>r_value := f_purpose built, r_payload := to_value F built\<rparr>), None)
              | Some old \<Rightarrow>
                  (let d = compute_diff old a; merged = merged_file rel_path old a size_bytes now
                   in if diff_is_empty d then None
                      else case apply_reparse_staleness (st_now (ck ''staleness'')) d (r\<lparr>r_value := f_purpose merged, r_payload := to_value F merged\<rparr>) of
                             (r', signals) \<Rightarrow> Some (touch now r', if signals = [] then None else Some merged))))"

definition reparse_impl ::
  "('t, 'x, 'v, 'j) store_api \<Rightarrow> ('j, FileRecord) serde \<Rightarrow> reparse_env \<Rightarrow> (string \<Rightarrow> stamp) \<Rightarrow> ('t, 'x) Store \<Rightarrow> string \<Rightarrow> ('t, 'x, unit) store_result" where
  "reparse_impl A F env ck S rel_path =
     (let key = file_key rel_path
      in if \<not> rv_exists env rel_path
         then (case store_get A S key of
                 Inl e \<Rightarrow> (S, Err e)
               | Inr None \<Rightarrow> (S, Ok ())
               | Inr (Some r) \<Rightarrow> store_put A S key (gone_record (st_now (ck ''now'')) r))
         else case rv_parse env rel_path of
                None \<Rightarrow> (S, Ok ())
              | Some a \<Rightarrow>
                  (case store_get A S key of
                     Inl e \<Rightarrow> (S, Err e)
                   | Inr existing \<Rightarrow>
                       (case reparsed F ck rel_path a (rv_size env rel_path) existing of
                          None \<Rightarrow> (S, Ok ())
                        | Some (r, cascade) \<Rightarrow>
                            (let S1 = (case cascade of
                                         Some merged \<Rightarrow> fst (cascade_staleness_to_gotchas A (st_now (ck ''cascade'')) S merged)
                                       | None \<Rightarrow> S)
                             in store_put A S1 key r))))"

definition reparse_staged ::
  "('t, 'x, 'v, 'j) store_api \<Rightarrow> ('j, FileRecord) serde \<Rightarrow> reparse_env \<Rightarrow> (string \<Rightarrow> stamp) \<Rightarrow> ('t, 'x) Store \<Rightarrow> string
   \<Rightarrow> (store_error, (string \<times> 'j Record) option) result" where
  "reparse_staged A F env ck S rel_path =
     (let key = file_key rel_path
      in if \<not> rv_exists env rel_path
         then rbind (store_get A S key) (\<lambda>m. Ok (map_option (\<lambda>r. (key, gone_record (st_now (ck ''now'')) r)) m))
         else case rv_parse env rel_path of
                None \<Rightarrow> Ok None
              | Some a \<Rightarrow>
                  rbind (store_get A S key) (\<lambda>existing.
                    Ok (map_option (\<lambda>rc. (key, fst rc)) (reparsed F ck rel_path a (rv_size env rel_path) existing))))"

end
