(* ===== verification/Handlers.thy ===== *)
theory Handlers
  imports Quality Protocol Reparse
begin

section \<open>Command handlers of the daemon (\<open>mcp/handlers.rs\<close>)\<close>

text \<open>
  The handlers behind the daemon's commands. A knowledge-side mutation reads what it changes, stages the new records, the
  links in file records and an audit entry, and commits them in one transaction, again when another writer interferes. Graph edges, receipts and
  enforcement events follow on a best-effort basis. The handlers run on the store together with the registry of the event writer.
  \<open>daemon_env\<close> holds what a request reads from outside: the environment of the session operations (clock and UUIDs by the name of the call
  site), the clock in nanoseconds at the places where an audit key is made, and the files below the repository root with what the parser makes of them.
  \<open>daemon_api\<close> adds to the encodings of the session operations those of the audit entry and of the analytics records, and the Unicode tables.
\<close>

record RequestContext =
  rc_peer_uid :: u32
  rc_peer_pid :: "u32 option"
  rc_daemon_session :: uuid

record daemon_env =
  dv_session :: session_env
  dv_nanos :: "string \<Rightarrow> nat"
  dv_read_file :: "string \<Rightarrow> string option"
  dv_files :: reparse_env

record ('v, 'j, 's) daemon_api =
  dm_session :: "('v, 'j, 's) session_api"
  dm_extraction :: "('j, ExtractionRecord) serde"
  dm_exemplar :: "('j, NegativeExemplar) serde"
  dm_audit :: "AuditEntry \<Rightarrow> 'v option"
  dm_unicode :: unicode_api

abbreviation dv_ck :: "daemon_env \<Rightarrow> string \<Rightarrow> stamp" where
  "dv_ck env \<equiv> se_ck (dv_session env)"

abbreviation dm_json :: "('v, 'j, 's) daemon_api \<Rightarrow> 'j json_api" where
  "dm_json B \<equiv> sa_json (dm_session B)"

type_synonym ('s, 'a) handled = "'s \<times> (ErrorCode \<times> string, 'a) result"

subsection \<open>Audit entries\<close>

definition AUDIT_KNOWLEDGE_PREFIX :: string where "AUDIT_KNOWLEDGE_PREFIX = ''audit:knowledge:''"
definition AUDIT_SESSION_PREFIX :: string where "AUDIT_SESSION_PREFIX = ''audit:session:''"

definition build_audit_entry ::
  "RequestContext \<Rightarrow> u64 \<Rightarrow> uuid \<Rightarrow> string \<Rightarrow> string \<Rightarrow> bool \<Rightarrow> ErrorCode option \<Rightarrow> AuditEntry" where
  "build_audit_entry ctx now request_id kind target acc error_code =
     \<lparr> ae_ts = now, ae_peer_uid = rc_peer_uid ctx, ae_peer_pid = rc_peer_pid ctx, ae_daemon_session = rc_daemon_session ctx,
       ae_request_id = request_id, ae_command_kind = kind, ae_target_key = target, ae_accepted = acc, ae_error_code = error_code \<rparr>"

definition audit_nanos_key :: "daemon_env \<Rightarrow> string \<Rightarrow> string \<Rightarrow> string" where
  "audit_nanos_key env site pre = pre @ show_nat (dv_nanos env site)"

definition make_audit_with_prefix ::
  "('v, 'j, 's) daemon_api \<Rightarrow> daemon_env \<Rightarrow> RequestContext \<Rightarrow> string \<Rightarrow> uuid \<Rightarrow> string \<Rightarrow> string \<Rightarrow> bool \<Rightarrow> ErrorCode option
   \<Rightarrow> string \<Rightarrow> (string \<times> 'v) option" where
  "make_audit_with_prefix B env ctx site request_id kind target acc error_code pre =
     map_option (\<lambda>bytes. (audit_nanos_key env site pre, bytes))
       (dm_audit B (build_audit_entry ctx (st_now (dv_ck env site)) request_id kind target acc error_code))"

definition make_audit ::
  "('v, 'j, 's) daemon_api \<Rightarrow> daemon_env \<Rightarrow> RequestContext \<Rightarrow> string \<Rightarrow> uuid \<Rightarrow> string \<Rightarrow> string \<Rightarrow> bool \<Rightarrow> ErrorCode option
   \<Rightarrow> (string \<times> 'v) option" where
  "make_audit B env ctx site request_id kind target acc error_code =
     make_audit_with_prefix B env ctx site request_id kind target acc error_code AUDIT_KNOWLEDGE_PREFIX"

definition make_session_audit ::
  "('v, 'j, 's) daemon_api \<Rightarrow> daemon_env \<Rightarrow> RequestContext \<Rightarrow> string \<Rightarrow> uuid \<Rightarrow> string \<Rightarrow> string \<Rightarrow> bool \<Rightarrow> ErrorCode option
   \<Rightarrow> (string \<times> 'v) option" where
  "make_session_audit B env ctx site request_id kind target acc error_code =
     make_audit_with_prefix B env ctx site request_id kind target acc error_code AUDIT_SESSION_PREFIX"

subsection \<open>Small helpers\<close>

fun map_priority :: "ProtoPriority \<Rightarrow> Priority" where
  "map_priority PrioCritical = Critical"
| "map_priority PrioHigh = High"
| "map_priority PrioNormal = Normal"
| "map_priority PrioLow = Low"

fun map_severity :: "Severity \<Rightarrow> Priority" where
  "map_severity SevCritical = Critical"
| "map_severity SevHigh = High"
| "map_severity SevNormal = Normal"
| "map_severity SevLow = Low"

fun tier_label :: "QualityTier \<Rightarrow> string" where
  "tier_label Suppressed = ''Suppressed''"
| "tier_label Poor = ''Poor''"
| "tier_label Acceptable = ''Acceptable''"
| "tier_label Good = ''Good''"
| "tier_label Excellent = ''Excellent''"

definition WRITE_CONFLICT_RETRIES :: nat where "WRITE_CONFLICT_RETRIES = 4"

text \<open>The attempts after the current one; the last attempt is returned as it is. The back-off is not modelled.\<close>

fun retry_from :: "('s \<Rightarrow> nat \<Rightarrow> ('s, 'a) handled) \<Rightarrow> 's \<Rightarrow> nat \<Rightarrow> nat \<Rightarrow> ('s, 'a) handled" where
  "retry_from op s i 0 = op s i"
| "retry_from op s i (Suc left) =
     (case op s i of
        (s1, Inl (code, msg)) \<Rightarrow>
          (if contains_str (map lower_char msg) ''write conflict'' then retry_from op s1 (Suc i) left else (s1, Err (code, msg)))
      | done \<Rightarrow> done)"

definition retry_on_write_conflict :: "('s \<Rightarrow> nat \<Rightarrow> ('s, 'a) handled) \<Rightarrow> 's \<Rightarrow> ('s, 'a) handled" where
  "retry_on_write_conflict op s = retry_from op s 0 (WRITE_CONFLICT_RETRIES - 1)"

definition commit_ops ::
  "('t, 'x, 'v, 'j) store_api \<Rightarrow> ('t, 'x) Store \<Rightarrow> string \<Rightarrow> ('v, 'j) KnowledgeWriteOp list \<Rightarrow> 'a \<Rightarrow> (('t, 'x) Store, 'a) handled" where
  "commit_ops A S label ops val =
     (case transact_knowledge A S ops of
        (S1, Inl e) \<Rightarrow> (S1, Err (StoreError, label @ '': '' @ error_text e))
      | (S1, Inr _) \<Rightarrow> (S1, Ok val))"

definition audit_missing :: "ErrorCode \<times> string" where
  "audit_missing = (Internal, ''audit serialization failed'')"

subsection \<open>File links and edges\<close>

definition link_added ::
  "('t, 'x, 'v, 'j) store_api \<Rightarrow> 'j json_api \<Rightarrow> ('j, FileRecord) serde \<Rightarrow> (string \<Rightarrow> stamp) \<Rightarrow> u64 \<Rightarrow> ('t, 'x) Store \<Rightarrow> string \<Rightarrow> string
   \<Rightarrow> (string \<times> 'j Record) option" where
  "link_added A J F ck now S key path =
     (case store_get A S (file_key path) of
        Inr (Some r) \<Rightarrow>
          (case add_gotcha_key J r key of (r', changed) \<Rightarrow> if changed then Some (file_key path, touch now r') else None)
      | Inr None \<Rightarrow> Some (file_key path, file_stub_for F \<lparr> st_now = now, st_device = st_device (ck (''stub '' @ path)) \<rparr> path key)
      | Inl _ \<Rightarrow> None)"

definition link_removed ::
  "('t, 'x, 'v, 'j) store_api \<Rightarrow> 'j json_api \<Rightarrow> u64 \<Rightarrow> ('t, 'x) Store \<Rightarrow> string \<Rightarrow> string \<Rightarrow> (string \<times> 'j Record) option" where
  "link_removed A J now S key path =
     (case store_get A S (file_key path) of
        Inr (Some r) \<Rightarrow>
          (case remove_gotcha_key J r key of (r', changed) \<Rightarrow> if changed then Some (file_key path, touch now r') else None)
      | _ \<Rightarrow> None)"

definition compute_file_link_updates ::
  "('t, 'x, 'v, 'j) store_api \<Rightarrow> 'j json_api \<Rightarrow> ('j, FileRecord) serde \<Rightarrow> (string \<Rightarrow> stamp) \<Rightarrow> ('t, 'x) Store \<Rightarrow> string
   \<Rightarrow> string list \<Rightarrow> string list \<Rightarrow> (string \<times> 'j Record) list" where
  "compute_file_link_updates A J F ck S key old_files new_files =
     (let now = st_now (ck ''links'')
      in List.map_filter (link_added A J F ck now S key) (difference new_files old_files)
         @ List.map_filter (link_removed A J now S key) (difference old_files new_files))"

definition compute_confirmation_propagation ::
  "('t, 'x, 'v, 'j) store_api \<Rightarrow> (string \<Rightarrow> stamp) \<Rightarrow> ('t, 'x) Store \<Rightarrow> string list \<Rightarrow> (string \<times> 'j Record) list" where
  "compute_confirmation_propagation A ck S affected_files =
     List.map_filter (\<lambda>path.
         case store_get A S (file_key path) of
           Inr (Some r) \<Rightarrow> Some (file_key path, touch (st_now (ck ''propagation''))
             (r\<lparr>r_confidence := (r_confidence r)\<lparr>c_confirmation_count := c_confirmation_count (r_confidence r) + 1\<rparr>\<rparr>))
         | _ \<Rightarrow> None) affected_files"

text \<open>Edges are written to the store only; a failure is logged.\<close>

definition sync_has_gotcha_edges ::
  "('t, 'x, 'v, 'j) store_api \<Rightarrow> u64 \<Rightarrow> ('t, 'x) Store \<Rightarrow> string \<Rightarrow> string list \<Rightarrow> string list \<Rightarrow> ('t, 'x) Store" where
  "sync_has_gotcha_edges A now S key old_files new_files =
     foldl (\<lambda>S1 path. fst (store_delete A S1 (to_key (gotcha_edge path key))))
       (foldl (\<lambda>S1 path. fst (put_raw A S1 (to_key (gotcha_edge path key)) (of_bytes A (to_le_bytes now))))
          S (difference new_files old_files))
       (difference old_files new_files)"

definition put_all :: "(string \<times> 'j Record) list \<Rightarrow> ('v, 'j) KnowledgeWriteOp list" where
  "put_all updates = map (\<lambda>(k, r). PutRecord k r) updates"

definition record_logged ::
  "('t, 'x, 'v, 'j) store_api \<Rightarrow> ('v, 'j, 's) daemon_api \<Rightarrow> daemon_env \<Rightarrow> ('t, 'x) Audit \<Rightarrow> event_request \<Rightarrow> string option \<Rightarrow> ('t, 'x) Audit" where
  "record_logged A B env a rq session =
     fst (record_event_with_session A (sa_hash (dm_session B)) (sa_event (dm_session B)) (se_audit (dv_session env)) a rq session)"

subsection \<open>Creating and editing a gotcha\<close>

text \<open>The record that a handler starts from when there is none.\<close>

definition blank_record :: "stamp \<Rightarrow> string \<Rightarrow> Category \<Rightarrow> RecordSource \<Rightarrow> 'j Record" where
  "blank_record st key cat source =
     \<lparr> r_key = key, r_value = [], r_category = cat, r_priority = Normal, r_tags = [],
       r_created_at = st_now st, r_updated_at = st_now st, r_ref_url = None, r_staleness = fresh, r_lifecycle = Active,
       r_version = \<lparr> device_id = st_device st, logical_clock = 1, wall_clock = st_now st \<rparr>,
       r_quality = quality_layer0_default, r_access_count = 0, r_last_accessed = 0, r_source = source,
       r_confidence = confidence_for_new_record source, r_gap_analysis_score = r32 0, r_payload = None \<rparr>"

definition is_tombstoned :: "'j Record \<Rightarrow> bool" where
  "is_tombstoned r \<longleftrightarrow> (case r_lifecycle r of Tombstoned _ _ \<Rightarrow> True | _ \<Rightarrow> False)"

definition draft_source :: "string option \<Rightarrow> RecordSource" where
  "draft_source s =
     (if s = Some ''developer_manual'' then DeveloperManual else if s = Some ''import'' then Import else ClaudeEnrich)"

text \<open>A record with fresh quality; \<open>rescored\<close> is the assignment of \<open>quality::analyze\<close>.\<close>

definition rescored :: "unicode_api \<Rightarrow> u64 \<Rightarrow> 'j Record \<Rightarrow> 'j Record" where
  "rescored U now r = r\<lparr>r_quality := analyze U now r\<rparr>"

definition draft_record ::
  "('v, 'j, 's) daemon_api \<Rightarrow> (string \<Rightarrow> stamp) \<Rightarrow> u64 \<Rightarrow> GotchaDraftInput \<Rightarrow> 'j Record option \<Rightarrow> 'j Record" where
  "draft_record B ck now input existing =
     (let G = sa_gotcha (dm_session B);
          live = (case existing of Some r \<Rightarrow> if is_tombstoned r then None else Some r | None \<Rightarrow> None);
          gotcha = \<lparr> g_rule = gd_rule input, g_reason = gd_reason input, g_severity = map_severity (gd_severity input),
                     g_affected_files = gd_affected_files input, g_ref_url = gd_ref_url input,
                     g_discovered_session = (case live of
                         Some r \<Rightarrow> unwrap_or (map_option g_discovered_session (payload_as (from_value G) r)) now
                       | None \<Rightarrow> now),
                     g_confirmed = False \<rparr>;
          base = (case live of
                    Some r \<Rightarrow> touch now r
                  | None \<Rightarrow> blank_record \<lparr> st_now = now, st_device = st_device (ck ''device'') \<rparr> (gd_key input) Gotcha StaticAnalysis);
          source = draft_source (gd_source input)
      in rescored (dm_unicode B) (st_now (ck ''quality''))
           (base\<lparr>r_value := gd_rule input @ '' because '' @ gd_reason input, r_category := Gotcha, r_lifecycle := Active,
                 r_priority := map_priority (gd_priority input), r_tags := gd_tags input, r_source := source,
                 r_confidence := confidence_for_new_record source, r_payload := to_value G gotcha\<rparr>))"

definition upsert_commit_once ::
  "('t, 'x, 'v, 'j) store_api \<Rightarrow> ('v, 'j, 's) daemon_api \<Rightarrow> daemon_env \<Rightarrow> RequestContext \<Rightarrow> uuid \<Rightarrow> GotchaDraftInput \<Rightarrow> u64
   \<Rightarrow> ('t, 'x) Store \<Rightarrow> nat \<Rightarrow> (('t, 'x) Store, 'j Record \<times> bool \<times> string list) handled" where
  "upsert_commit_once A B env ctx request_id input now S i =
     (let ck = (\<lambda>site. dv_ck env (site @ show_nat i)); key = gd_key input
      in case store_get A S key of
           Inl e \<Rightarrow> (S, Err (StoreError, ''store read failed: '' @ error_text e))
         | Inr existing \<Rightarrow>
             (let live = (case existing of Some r \<Rightarrow> if is_tombstoned r then None else Some r | None \<Rightarrow> None);
                  is_new = (live = None);
                  old_files = (case Option.bind live (payload_as (from_value (sa_gotcha (dm_session B)))) of
                                 Some g \<Rightarrow> g_affected_files g | None \<Rightarrow> []);
                  r = draft_record B ck now input existing;
                  links = compute_file_link_updates A (dm_json B) (sa_file (dm_session B)) ck S key old_files (gd_affected_files input)
              in case make_audit B env ctx (''accepted '' @ show_nat i) request_id ''gotcha_upsert'' key True None of
                   None \<Rightarrow> (S, Err audit_missing)
                 | Some (audit_key, audit_bytes) \<Rightarrow>
                     commit_ops A S ''transact failed'' (PutRecord key r # put_all links @ [PutRaw audit_key audit_bytes])
                       (r, is_new, old_files)))"

definition upsert_response :: "'j json_api \<Rightarrow> string \<Rightarrow> 'j Record \<Rightarrow> 'j" where
  "upsert_response J key r =
     j_object J [(''ok'', j_bool J True), (''key'', j_string J key), (''confidence'', j_f32 J (c_value (r_confidence r))),
                 (''quality'', j_f32 J (q_value (r_quality r))), (''tier'', j_string J (tier_label (q_tier (r_quality r))))]"

definition handle_gotcha_upsert ::
  "('t, 'x, 'v, 'j) store_api \<Rightarrow> ('v, 'j, 's) daemon_api \<Rightarrow> daemon_env \<Rightarrow> RequestContext \<Rightarrow> uuid \<Rightarrow> GotchaDraftInput
   \<Rightarrow> ('t, 'x) Audit \<Rightarrow> (('t, 'x) Audit, 'j) handled" where
  "handle_gotcha_upsert A B env ctx request_id input a =
     (let key = gd_key input; now = st_now (dv_ck env ''now'')
      in if \<not> starts_with key ''gotcha:'' then (a, Err (ValidationFailed, ''key must start with gotcha:''))
         else if gd_rule input = [] then (a, Err (ValidationFailed, ''rule must not be empty''))
         else case retry_on_write_conflict (upsert_commit_once A B env ctx request_id input now) (a_store a) of
                (S1, Inl err) \<Rightarrow> (a\<lparr>a_store := S1\<rparr>, Err err)
              | (S1, Inr (r, is_new, old_files)) \<Rightarrow>
                  (let S2 = sync_has_gotcha_edges A (st_now (dv_ck env ''edges'')) S1 key old_files (gd_affected_files input);
                       a3 = record_logged A B env (a\<lparr>a_store := S2\<rparr>) (control_request (if is_new then Created else Updated) key
                              (if is_new then ''control_created'' else ''control_updated'')) None;
                       S4 = (if is_new
                             then fst (write_on_extraction A (dm_extraction B) (st_now (dv_ck env ''extraction''))
                                    (dv_ck env ''extraction record'') (st_now (dv_ck env ''extraction wall'')) (a_store a3) key
                                    (gd_tags input) (gd_affected_files input))
                             else a_store a3)
                   in (a3\<lparr>a_store := S4\<rparr>, Ok (upsert_response (dm_json B) key r))))"

subsection \<open>Confirming a gotcha\<close>

definition confirm_payload :: "'j json_api \<Rightarrow> unicode_api \<Rightarrow> 'j option \<Rightarrow> 'j option" where
  "confirm_payload J U payload =
     map_option (\<lambda>p.
       if j_is_object J p
       then (let p1 = (case Option.bind (j_get J p ''severity'') (j_as_str J) of
                         Some s \<Rightarrow> j_insert J p ''severity'' (j_string J (u_to_lowercase U s))
                       | None \<Rightarrow> p)
             in j_insert J p1 ''confirmed'' (j_bool J True))
       else p) payload"

definition confirmed_record :: "('v, 'j, 's) daemon_api \<Rightarrow> (string \<Rightarrow> stamp) \<Rightarrow> u64 \<Rightarrow> 'j Record \<Rightarrow> 'j Record" where
  "confirmed_record B ck now r =
     touch now (rescored (dm_unicode B) (st_now (ck ''quality''))
       (r\<lparr>r_payload := confirm_payload (dm_json B) (dm_unicode B) (r_payload r), r_source := DeveloperManual,
          r_confidence := (r_confidence r)\<lparr>c_value := base_for_source DeveloperManual,
                                           c_confirmation_count := c_confirmation_count (r_confidence r) + 1\<rparr>\<rparr>))"

definition confirm_commit_once ::
  "('t, 'x, 'v, 'j) store_api \<Rightarrow> ('v, 'j, 's) daemon_api \<Rightarrow> daemon_env \<Rightarrow> RequestContext \<Rightarrow> uuid \<Rightarrow> string \<Rightarrow> u64
   \<Rightarrow> ('t, 'x) Store \<Rightarrow> nat \<Rightarrow> (('t, 'x) Store, 'j Record \<times> string list) handled" where
  "confirm_commit_once A B env ctx request_id key now S i =
     (let ck = (\<lambda>site. dv_ck env (site @ show_nat i))
      in case store_get A S key of
           Inl e \<Rightarrow> (S, Err (StoreError, ''store read: '' @ error_text e))
         | Inr None \<Rightarrow> (S, Err (EC_NotFound, ''record not found: '' @ key))
         | Inr (Some r) \<Rightarrow>
             (if r_category r \<noteq> Gotcha then (S, Err (ValidationFailed, key @ '' is not a gotcha record''))
              else if r_lifecycle r \<noteq> Active then (S, Err (InvalidStateTransition, key @ '' is tombstoned '' @ dash @ '' cannot confirm''))
              else let r' = confirmed_record B ck now r;
                       affected_files = (case payload_as (from_value (sa_gotcha (dm_session B))) r' of
                                           Some g \<Rightarrow> g_affected_files g | None \<Rightarrow> []);
                       links = compute_file_link_updates A (dm_json B) (sa_file (dm_session B)) ck S key [] affected_files;
                       counts = compute_confirmation_propagation A ck S affected_files
                   in case make_audit B env ctx (''accepted '' @ show_nat i) request_id ''gotcha_confirm'' key True None of
                        None \<Rightarrow> (S, Err audit_missing)
                      | Some (audit_key, audit_bytes) \<Rightarrow>
                          commit_ops A S ''transact failed''
                            (PutRecord key r' # put_all links @ put_all counts @ [PutRaw audit_key audit_bytes]) (r', affected_files)))"

definition handle_gotcha_confirm ::
  "('t, 'x, 'v, 'j) store_api \<Rightarrow> ('v, 'j, 's) daemon_api \<Rightarrow> daemon_env \<Rightarrow> RequestContext \<Rightarrow> uuid \<Rightarrow> string
   \<Rightarrow> ('t, 'x) Audit \<Rightarrow> (('t, 'x) Audit, 'j) handled" where
  "handle_gotcha_confirm A B env ctx request_id key a =
     (let J = dm_json B; now = st_now (dv_ck env ''now'')
      in if \<not> starts_with key ''gotcha:'' then (a, Err (ValidationFailed, ''confirm only applies to gotcha: keys''))
         else case retry_on_write_conflict (confirm_commit_once A B env ctx request_id key now) (a_store a) of
                (S1, Inl err) \<Rightarrow> (a\<lparr>a_store := S1\<rparr>, Err err)
              | (S1, Inr (r, affected_files)) \<Rightarrow>
                  (let S2 = sync_has_gotcha_edges A (st_now (dv_ck env ''edges'')) S1 key [] affected_files;
                       S3 = foldl (\<lambda>S path. fst (store_delete A S (''session:consulted:file:'' @ path))) S2 affected_files;
                       a4 = record_logged A B env (a\<lparr>a_store := S3\<rparr>) (control_request Confirmed key ''control_confirmed'') None;
                       S5 = fst (mark_outcome A (dm_extraction B) (st_now (dv_ck env ''outcome'')) (dv_ck env ''outcome record'')
                              (st_now (dv_ck env ''outcome wall'')) (a_store a4) key OutcomeConfirmed)
                   in (a4\<lparr>a_store := S5\<rparr>, Ok (j_object J [(''ok'', j_bool J True), (''key'', j_string J key), (''confirmed'', j_bool J True),
                         (''confidence'', j_f32 J (c_value (r_confidence r))), (''quality'', j_f32 J (q_value (r_quality r)))]))))"

subsection \<open>Deleting a gotcha\<close>

definition tombstone_commit_once ::
  "('t, 'x, 'v, 'j) store_api \<Rightarrow> ('v, 'j, 's) daemon_api \<Rightarrow> daemon_env \<Rightarrow> RequestContext \<Rightarrow> uuid \<Rightarrow> string \<Rightarrow> u64
   \<Rightarrow> ('t, 'x) Store \<Rightarrow> nat \<Rightarrow> (('t, 'x) Store, string list \<times> (string \<times> string \<times> Priority) option) handled" where
  "tombstone_commit_once A B env ctx request_id key now S i =
     (let ck = (\<lambda>site. dv_ck env (site @ show_nat i))
      in case store_get A S key of
           Inl e \<Rightarrow> (S, Err (StoreError, ''store read: '' @ error_text e))
         | Inr None \<Rightarrow> (S, Err (EC_NotFound, ''record not found: '' @ key))
         | Inr (Some r) \<Rightarrow>
             (let snapshot = payload_as (from_value (sa_gotcha (dm_session B))) r;
                  affected_files = (case snapshot of Some g \<Rightarrow> g_affected_files g | None \<Rightarrow> []);
                  exemplar = map_option (\<lambda>g. (g_rule g, g_reason g, g_severity g)) snapshot;
                  links = compute_file_link_updates A (dm_json B) (sa_file (dm_session B)) ck S key affected_files []
              in case make_audit B env ctx (''accepted '' @ show_nat i) request_id ''gotcha_tombstone'' key True None of
                   None \<Rightarrow> (S, Err audit_missing)
                 | Some (audit_key, audit_bytes) \<Rightarrow>
                     commit_ops A S ''transact failed''
                       (PutRecord key (tombstone_record now r) # put_all links @ [PutRaw audit_key audit_bytes]) (affected_files, exemplar)))"

definition handle_gotcha_tombstone ::
  "('t, 'x, 'v, 'j) store_api \<Rightarrow> ('v, 'j, 's) daemon_api \<Rightarrow> daemon_env \<Rightarrow> RequestContext \<Rightarrow> uuid \<Rightarrow> string
   \<Rightarrow> ('t, 'x) Audit \<Rightarrow> (('t, 'x) Audit, 'j) handled" where
  "handle_gotcha_tombstone A B env ctx request_id key a =
     (let J = dm_json B; now = st_now (dv_ck env ''now'')
      in if \<not> starts_with key ''gotcha:'' then (a, Err (ValidationFailed, ''tombstone only applies to gotcha: keys''))
         else case retry_on_write_conflict (tombstone_commit_once A B env ctx request_id key now) (a_store a) of
                (S1, Inl err) \<Rightarrow> (a\<lparr>a_store := S1\<rparr>, Err err)
              | (S1, Inr (affected_files, exemplar)) \<Rightarrow>
                  (let S2 = sync_has_gotcha_edges A (st_now (dv_ck env ''edges'')) S1 key affected_files [];
                       a3 = record_logged A B env (a\<lparr>a_store := S2\<rparr>) (control_request Deleted key ''control_deleted'') None;
                       S4 = (case exemplar of
                               None \<Rightarrow> a_store a3
                             | Some (rule, reason, severity) \<Rightarrow>
                                 fst (write_on_tombstone A (dm_exemplar B) (st_now (dv_ck env ''exemplar''))
                                   (\<lambda>d. st_device (dv_ck env (''exemplar '' @ d))) (a_store a3) key rule reason severity affected_files));
                       S5 = fst (mark_outcome A (dm_extraction B) (st_now (dv_ck env ''outcome'')) (dv_ck env ''outcome record'')
                              (st_now (dv_ck env ''outcome wall'')) S4 key OutcomeTombstoned)
                   in (a3\<lparr>a_store := S5\<rparr>, Ok (j_object J [(''ok'', j_bool J True), (''key'', j_string J key), (''tombstoned'', j_bool J True)]))))"

subsection \<open>Enriching a file\<close>

definition insert_unless_empty :: "'j json_api \<Rightarrow> string \<Rightarrow> string list \<Rightarrow> 'j \<Rightarrow> 'j" where
  "insert_unless_empty J field xs p = (if xs = [] then p else j_insert J p field (j_array J (map (j_string J) xs)))"

definition enrich_payload :: "'j json_api \<Rightarrow> FileEnrichInput \<Rightarrow> 'j \<Rightarrow> 'j" where
  "enrich_payload J input p =
     (if \<not> j_is_object J p then p
      else insert_unless_empty J ''todos'' (fe_todos input)
             (insert_unless_empty J ''decision_keys'' (fe_decision_keys input)
               (insert_unless_empty J ''entry_points'' (fe_entry_points input)
                 (if fe_purpose input = [] then p else j_insert J p ''purpose'' (j_string J (fe_purpose input))))))"

definition was_confirmed :: "'j Record \<Rightarrow> bool" where
  "was_confirmed r \<longleftrightarrow> r_source r = DeveloperManual \<or> flt_le (r32 (80/100)) (c_value (r_confidence r))"

definition as_enriched :: "'j Record \<Rightarrow> 'j Record" where
  "as_enriched r = r\<lparr>r_source := ClaudeEnrich, r_confidence := confidence_for_new_record ClaudeEnrich\<rparr>"

definition enriched_file :: "('v, 'j, 's) daemon_api \<Rightarrow> daemon_env \<Rightarrow> u64 \<Rightarrow> FileEnrichInput \<Rightarrow> 'j Record \<Rightarrow> 'j Record" where
  "enriched_file B env now input r =
     (let r1 = touch now (r\<lparr>r_payload := map_option (enrich_payload (dm_json B) input) (r_payload r),
                              r_value := (if fe_purpose input = [] then r_value r else fe_purpose input),
                              r_priority := map_priority (fe_priority input),
                              r_tags := (if fe_tags input = [] then r_tags r else fe_tags input)\<rparr>);
          r2 = (if was_confirmed r then r1 else as_enriched r1)
      in rescored (dm_unicode B) (st_now (dv_ck env ''quality'')) r2)"

text \<open>The transaction of a handler that writes one record and its audit entry.\<close>

definition commit_audited ::
  "('t, 'x, 'v, 'j) store_api \<Rightarrow> ('v, 'j, 's) daemon_api \<Rightarrow> daemon_env \<Rightarrow> RequestContext \<Rightarrow> uuid \<Rightarrow> string \<Rightarrow> string \<Rightarrow> ('t, 'x) Audit
   \<Rightarrow> (string \<times> 'j Record) list \<Rightarrow> 'a \<Rightarrow> (('t, 'x) Audit, 'a) handled" where
  "commit_audited A B env ctx request_id kind target a puts val =
     (case make_audit B env ctx ''accepted'' request_id kind target True None of
        None \<Rightarrow> (a, Err audit_missing)
      | Some (audit_key, audit_bytes) \<Rightarrow>
          (case commit_ops A (a_store a) ''transact failed'' (put_all puts @ [PutRaw audit_key audit_bytes]) val of
             (S1, res) \<Rightarrow> (a\<lparr>a_store := S1\<rparr>, res)))"

definition handle_file_enrich ::
  "('t, 'x, 'v, 'j) store_api \<Rightarrow> ('v, 'j, 's) daemon_api \<Rightarrow> daemon_env \<Rightarrow> RequestContext \<Rightarrow> uuid \<Rightarrow> FileEnrichInput
   \<Rightarrow> ('t, 'x) Audit \<Rightarrow> (('t, 'x) Audit, 'j) handled" where
  "handle_file_enrich A B env ctx request_id input a =
     (let key = file_key (fe_path input); now = st_now (dv_ck env ''now'')
      in case store_get A (a_store a) key of
           Inl e \<Rightarrow> (a, Err (StoreError, ''store read: '' @ error_text e))
         | Inr None \<Rightarrow> (a, Err (EC_NotFound, ''file record not found: '' @ key @ '' (must be created by init/reparse)''))
         | Inr (Some r) \<Rightarrow>
             (if fe_purpose input = [] \<and> r_value r = [] then (a, Err (ValidationFailed, ''purpose must not be empty''))
              else if r_lifecycle r \<noteq> Active then (a, Err (InvalidStateTransition, key @ '' is tombstoned''))
              else let r' = enriched_file B env now input r
                   in commit_audited A B env ctx request_id ''file_enrich'' key a [(key, r')] (upsert_response (dm_json B) key r')))"

definition ok_json :: "'j json_api \<Rightarrow> 'j" where
  "ok_json J = j_object J [(''ok'', j_bool J True)]"

subsection \<open>Re-parsing a file\<close>

text \<open>The audit entry is required even when there is nothing to write; the cascade to linked gotchas follows the transaction.\<close>

definition handle_file_reparse ::
  "('t, 'x, 'v, 'j) store_api \<Rightarrow> ('v, 'j, 's) daemon_api \<Rightarrow> daemon_env \<Rightarrow> RequestContext \<Rightarrow> uuid \<Rightarrow> string
   \<Rightarrow> ('t, 'x) Audit \<Rightarrow> (('t, 'x) Audit, 'j) handled" where
  "handle_file_reparse A B env ctx request_id path a =
     (let F = sa_file (dm_session B)
      in if path = [] then (a, Err (ValidationFailed, ''path must not be empty''))
         else case reparse_staged A F (dv_files env) (\<lambda>site. dv_ck env (''reparse '' @ site)) (a_store a) path of
                Inl e \<Rightarrow> (a, Err (StoreError, ''reparse failed: '' @ error_text e))
              | Inr todo \<Rightarrow>
                  (case make_audit B env ctx ''reparse accepted'' request_id ''file_reparse'' path True None of
                     None \<Rightarrow> (a, Err audit_missing)
                   | Some (audit_key, audit_bytes) \<Rightarrow>
                       (case todo of
                          None \<Rightarrow>
                            (case commit_ops A (a_store a) ''audit write failed'' [PutRaw audit_key audit_bytes] (ok_json (dm_json B)) of
                               (S1, res) \<Rightarrow> (a\<lparr>a_store := S1\<rparr>, res))
                        | Some (key, r) \<Rightarrow>
                            (case commit_ops A (a_store a) ''transact failed'' [PutRecord key r, PutRaw audit_key audit_bytes] () of
                               (S1, Inl e) \<Rightarrow> (a\<lparr>a_store := S1\<rparr>, Err e)
                             | (S1, Inr _) \<Rightarrow>
                                 (let S2 = (case payload_as (from_value F) r of
                                              Some fr \<Rightarrow> fst (cascade_staleness_to_gotchas A (st_now (dv_ck env ''reparse cascade'')) S1 fr)
                                            | None \<Rightarrow> S1)
                                  in (a\<lparr>a_store := S2\<rparr>, Ok (ok_json (dm_json B))))))))"

subsection \<open>Doc comments, decisions and notes\<close>

text \<open>The audit entry of a request that changes nothing; its failure is ignored.\<close>

definition audit_only ::
  "('t, 'x, 'v, 'j) store_api \<Rightarrow> ('v, 'j, 's) daemon_api \<Rightarrow> daemon_env \<Rightarrow> RequestContext \<Rightarrow> uuid \<Rightarrow> string \<Rightarrow> string \<Rightarrow> ('t, 'x) Audit
   \<Rightarrow> ('t, 'x) Audit" where
  "audit_only A B env ctx request_id kind target a =
     (case make_audit B env ctx ''accepted'' request_id kind target True None of
        None \<Rightarrow> a
      | Some (k, v) \<Rightarrow> a\<lparr>a_store := fst (put_raw A (a_store a) k v)\<rparr>)"

definition captured_file :: "('v, 'j, 's) daemon_api \<Rightarrow> u64 \<Rightarrow> string \<Rightarrow> 'j Record \<Rightarrow> 'j Record" where
  "captured_file B now purpose r =
     (let F = sa_file (dm_session B);
          r1 = (case payload_as (from_value F) r of
                  Some fr \<Rightarrow> r\<lparr>r_payload := to_value F (fr\<lparr>f_purpose := purpose\<rparr>)\<rparr>
                | None \<Rightarrow> r)
      in touch now (r1\<lparr>r_value := purpose, r_source := SessionHook,
                       r_confidence := (r_confidence r1)\<lparr>c_value := r32 (65/100)\<rparr>, r_quality := doc_comment_default\<rparr>))"

definition handle_doc_capture ::
  "('t, 'x, 'v, 'j) store_api \<Rightarrow> ('v, 'j, 's) daemon_api \<Rightarrow> daemon_env \<Rightarrow> RequestContext \<Rightarrow> uuid \<Rightarrow> string
   \<Rightarrow> ('t, 'x) Audit \<Rightarrow> (('t, 'x) Audit, 'j) handled" where
  "handle_doc_capture A B env ctx request_id path a =
     (let purpose = extract_doc_comment path (unwrap_or (dv_read_file env path) []);
          skip = (audit_only A B env ctx request_id ''doc_capture'' path a, Ok (ok_json (dm_json B)))
      in if path = [] then (a, Err (ValidationFailed, ''path must not be empty''))
         else if purpose = [] then skip
         else case store_get A (a_store a) (file_key path) of
                Inr (Some r) \<Rightarrow>
                  (if r_source r \<noteq> StaticAnalysis then skip
                   else commit_audited A B env ctx request_id ''doc_capture'' path a
                          [(file_key path, captured_file B (st_now (dv_ck env ''now'')) purpose r)] (ok_json (dm_json B)))
              | _ \<Rightarrow> skip)"

definition decided_record ::
  "('v, 'j, 's) daemon_api \<Rightarrow> daemon_env \<Rightarrow> u64 \<Rightarrow> DecisionUpsertInput \<Rightarrow> 'j Record option \<Rightarrow> 'j Record" where
  "decided_record B env now input existing =
     (let J = dm_json B;
          base = (case existing of
                    Some r \<Rightarrow> touch now r
                  | None \<Rightarrow> blank_record \<lparr> st_now = now, st_device = st_device (dv_ck env ''device'') \<rparr>
                              (''decision:'' @ du_slug input) Decision StaticAnalysis);
          r1 = base\<lparr>r_value := du_value input, r_category := Decision, r_lifecycle := Active,
                    r_priority := map_priority (du_priority input), r_tags := du_tags input,
                    r_payload := Some (j_object J [(''summary'', j_string J (du_summary input)), (''rationale'', j_string J (du_rationale input))])\<rparr>;
          keep = (case existing of Some r \<Rightarrow> was_confirmed r | None \<Rightarrow> False)
      in rescored (dm_unicode B) (st_now (dv_ck env ''quality'')) (if keep then r1 else as_enriched r1))"

definition handle_decision_upsert ::
  "('t, 'x, 'v, 'j) store_api \<Rightarrow> ('v, 'j, 's) daemon_api \<Rightarrow> daemon_env \<Rightarrow> RequestContext \<Rightarrow> uuid \<Rightarrow> DecisionUpsertInput
   \<Rightarrow> ('t, 'x) Audit \<Rightarrow> (('t, 'x) Audit, 'j) handled" where
  "handle_decision_upsert A B env ctx request_id input a =
     (let key = ''decision:'' @ du_slug input
      in if du_slug input = [] then (a, Err (ValidationFailed, ''slug must not be empty''))
         else if du_value input = [] then (a, Err (ValidationFailed, ''value must not be empty''))
         else case store_get A (a_store a) key of
                Inl e \<Rightarrow> (a, Err (StoreError, ''store read: '' @ error_text e))
              | Inr existing \<Rightarrow>
                  (let r = decided_record B env (st_now (dv_ck env ''now'')) input existing
                   in commit_audited A B env ctx request_id ''decision_upsert'' key a [(key, r)] (upsert_response (dm_json B) key r)))"

text \<open>The first 30 characters in lower case, every other character than a letter or digit replaced.\<close>

definition note_slug :: "unicode_api \<Rightarrow> string \<Rightarrow> string" where
  "note_slug U s =
     concat (map (\<lambda>c. if u_alphanumeric U c then c else ''-'') (utf8_chars (u_to_lowercase U (concat (take 30 (utf8_chars s))))))"

definition noted_record ::
  "('v, 'j, 's) daemon_api \<Rightarrow> daemon_env \<Rightarrow> u64 \<Rightarrow> string \<Rightarrow> DevNoteUpsertInput \<Rightarrow> 'j Record option \<Rightarrow> 'j Record" where
  "noted_record B env now key input existing =
     (let base = (case existing of
                    Some r \<Rightarrow> touch now r
                  | None \<Rightarrow> blank_record \<lparr> st_now = now, st_device = st_device (dv_ck env ''device'') \<rparr> key DevNote DeveloperManual)
      in rescored (dm_unicode B) (st_now (dv_ck env ''quality''))
           (base\<lparr>r_value := dn_text input, r_category := DevNote, r_lifecycle := Active, r_priority := map_priority (dn_priority input),
                 r_tags := (if dn_tags input = [] then r_tags base else dn_tags input)\<rparr>))"

definition handle_dev_note_upsert ::
  "('t, 'x, 'v, 'j) store_api \<Rightarrow> ('v, 'j, 's) daemon_api \<Rightarrow> daemon_env \<Rightarrow> RequestContext \<Rightarrow> uuid \<Rightarrow> DevNoteUpsertInput
   \<Rightarrow> ('t, 'x) Audit \<Rightarrow> (('t, 'x) Audit, 'j) handled" where
  "handle_dev_note_upsert A B env ctx request_id input a =
     (let J = dm_json B; now = st_now (dv_ck env ''now'')
      in if dn_text input = [] then (a, Err (ValidationFailed, ''text must not be empty''))
         else if \<not> starts_with (unwrap_or (dn_key input) ''dev_note:'') ''dev_note:''
         then (a, Err (ValidationFailed, ''key must start with dev_note:''))
         else let key = (case dn_key input of
                           Some k \<Rightarrow> k
                         | None \<Rightarrow> ''dev_note:'' @ note_slug (dm_unicode B) (dn_text input) @ ''-'' @ show_u64 now)
              in case store_get A (a_store a) key of
                   Inl e \<Rightarrow> (a, Err (StoreError, ''store read: '' @ error_text e))
                 | Inr existing \<Rightarrow>
                     (let r = noted_record B env now key input existing
                      in commit_audited A B env ctx request_id ''dev_note_upsert'' key a [(key, r)]
                           (j_object J [(''ok'', j_bool J True), (''key'', j_string J key), (''quality'', j_f32 J (q_value (r_quality r))),
                                        (''tier'', j_string J (tier_label (q_tier (r_quality r))))])))"

subsection \<open>Import\<close>

definition IMPORT_PREFIXES :: "string list" where
  "IMPORT_PREFIXES = [''gotcha:'', ''decision:'', ''dev_note:'', ''file:'', ''stage:'', ''dep:'']"

definition IMPORT_CHUNK :: nat where "IMPORT_CHUNK = 200"

definition importable :: "'j Record \<Rightarrow> bool" where
  "importable r \<longleftrightarrow> list_ex (starts_with (r_key r)) IMPORT_PREFIXES \<and> for_key (r_key r) = Immediate"

function chunks :: "nat \<Rightarrow> 'a list \<Rightarrow> 'a list list" where
  "chunks n xs = (if xs = [] then [] else if n = 0 then [xs] else take n xs # chunks n (drop n xs))"
  by pat_completeness auto
termination by (relation "measure (\<lambda>(n, xs). length xs)") auto

declare chunks.simps [simp del]

text \<open>The chunks are numbered for the audit keys; each is one transaction.\<close>

fun import_chunks ::
  "('t, 'x, 'v, 'j) store_api \<Rightarrow> ('v, 'j, 's) daemon_api \<Rightarrow> daemon_env \<Rightarrow> RequestContext \<Rightarrow> uuid \<Rightarrow> nat \<Rightarrow> u64 \<Rightarrow> 'j Record list list
   \<Rightarrow> ('t, 'x) Store \<Rightarrow> (('t, 'x) Store, u64) handled" where
  "import_chunks A B env ctx request_id i imported [] S = (S, Ok imported)"
| "import_chunks A B env ctx request_id i imported (rs # rss) S =
     (case make_audit B env ctx (''chunk '' @ show_nat i) request_id ''record_import''
             (''record_import:'' @ show_nat (length rs) @ ''records'') True None of
        None \<Rightarrow> (S, Err audit_missing)
      | Some (audit_key, audit_bytes) \<Rightarrow>
          (case commit_ops A S ''import transact failed''
                  (map (\<lambda>r. PutRecord (r_key r) r) rs @ [PutRaw audit_key audit_bytes]) () of
             (S1, Inl e) \<Rightarrow> (S1, Err e)
           | (S1, Inr _) \<Rightarrow> import_chunks A B env ctx request_id (Suc i) (imported + word_of_nat (length rs)) rss S1))"

definition handle_record_import ::
  "('t, 'x, 'v, 'j) store_api \<Rightarrow> ('v, 'j, 's) daemon_api \<Rightarrow> daemon_env \<Rightarrow> RequestContext \<Rightarrow> uuid \<Rightarrow> 'j Record list
   \<Rightarrow> ('t, 'x) Audit \<Rightarrow> (('t, 'x) Audit, 'j) handled" where
  "handle_record_import A B env ctx request_id records a =
     (let J = dm_json B; accepted = filter importable records
      in case import_chunks A B env ctx request_id 0 0 (chunks IMPORT_CHUNK accepted) (a_store a) of
           (S1, Inl e) \<Rightarrow> (a\<lparr>a_store := S1\<rparr>, Err e)
         | (S1, Inr n) \<Rightarrow>
             (a\<lparr>a_store := S1\<rparr>, Ok (j_object J [(''ok'', j_bool J True), (''imported'', j_u64 J n),
                 (''skipped'', j_u64 J (word_of_nat (length records - length accepted)))])))"

end
