(* ===== verification/Packet.thy ===== *)
theory Packet
  imports Handlers Impact
begin

section \<open>The start-up packet (\<open>assemble_context_packet\<close> in \<open>mcp/tools.rs\<close>)\<close>

text \<open>
  At the start of a session the daemon gives an agent one text with the stage, the gotchas of the files it is about to work on, their
  purposes, warnings and decisions, cut to a token budget. \<open>graph_view\<close> is what it asks of the graph in memory (\<open>neighbors\<close>) and the order in
  which a hash set of the process lists its entries.
\<close>

record graph_view =
  gv_neighbors :: "string \<Rightarrow> EdgeKind \<Rightarrow> string list"
  gv_set_order :: "string list \<Rightarrow> string list"

definition graph_view_of :: "'g digraph_api \<Rightarrow> ('g, 't, 'x) Graph \<Rightarrow> (string list \<Rightarrow> string list) \<Rightarrow> graph_view" where
  "graph_view_of P g order = \<lparr> gv_neighbors = neighbors P g, gv_set_order = order \<rparr>"

datatype GapType =
    HotFileNoRecord
  | HotFileNoPurpose
  | HotFileNoGotchas
  | FrequentlyReadNoEnrich
  | OrphanedDecision
  | DependencyUnknown
  | CoChangePairUnmapped

record KnowledgeGap =
  kg_key :: string
  kg_gap_type :: GapType
  kg_risk_score :: f32
  kg_description :: string
  kg_action_hint :: string

record 'j ContextPacket =
  cp_stage :: "'j Record option"
  cp_critical_gotchas :: "'j Record list"
  cp_file_records :: "FileRecord list"
  cp_related_decisions :: "'j Record list"
  cp_recent_session :: "string option"
  cp_token_estimate :: u32
  cp_stale_warnings :: "string list"
  cp_unconfirmed_candidates :: "string list"
  cp_knowledge_gaps :: "KnowledgeGap list"
  cp_compliance_rate :: "f32 option"
  cp_injection_string :: string

subsection \<open>Constants and scores\<close>

definition nl :: string where "nl = [CHR 0x0A]"

definition quoted :: "string \<Rightarrow> string" where "quoted s = [CHR 0x22] @ s @ [CHR 0x22]"

text \<open>The arrows U+2192 and U+2194.\<close>

definition arrow :: string where "arrow = [CHR 0xE2, CHR 0x86, CHR 0x92]"
definition both_ways :: string where "both_ways = [CHR 0xE2, CHR 0x86, CHR 0x94]"

definition VECTOR_B :: string where
  "VECTOR_B = nl @ nl @ ''[mati] Before reading any file: call mem_get('' @ quoted ''file:<path>'' @ '').'' @ nl
     @ ''confidence>=0.6 + confirmed=true '' @ arrow @ '' use record, skip file read.'' @ nl
     @ ''confidence<0.3 '' @ arrow @ '' read file, consider mem_set to improve.'' @ nl
     @ quoted ''add gotcha'' @ '' '' @ arrow @ '' mem_set(Gotcha) then mati gotcha confirm <key>.''"

definition TOKEN_BUDGET :: nat where "TOKEN_BUDGET = 2000"
definition VECTOR_B_TOKENS :: nat where "VECTOR_B_TOKENS = 77"

definition estimate_tokens :: "string \<Rightarrow> nat" where "estimate_tokens s = length s div 4"

fun priority_weight :: "Priority \<Rightarrow> f32" where
  "priority_weight Low = r32 (1/4)"
| "priority_weight Normal = r32 (1/2)"
| "priority_weight High = r32 (3/4)"
| "priority_weight Critical = r32 1"

definition is_injectable_gotcha :: "('j, GotchaRecord) serde \<Rightarrow> 'j Record \<Rightarrow> bool" where
  "is_injectable_gotcha G r \<longleftrightarrow>
     r_lifecycle r = Active \<and> s_tier (r_staleness r) \<noteq> Tombstone \<and> \<not> flt_lt (q_value (r_quality r)) (r32 (4/10))
     \<and> ((case payload_as (from_value G) r of Some g \<Rightarrow> g_confirmed g | None \<Rightarrow> False)
        \<or> starts_with (r_key r) ''gotcha:cochange:'' \<or> starts_with (r_key r) ''gotcha:revert:'' \<or> starts_with (r_key r) ''gotcha:ownership:'')"

text \<open>
  The stable sort by a falling score. On a score that is not a number the comparison of the code is not an order and the result of the real sort is
  not specified.
\<close>

fun insert_by :: "('a \<Rightarrow> flt) \<Rightarrow> 'a \<Rightarrow> 'a list \<Rightarrow> 'a list" where
  "insert_by f x [] = [x]"
| "insert_by f x (y # ys) = (if flt_lt (f x) (f y) then y # insert_by f x ys else x # y # ys)"

definition sort_by_desc :: "('a \<Rightarrow> flt) \<Rightarrow> 'a list \<Rightarrow> 'a list" where
  "sort_by_desc f xs = foldr (insert_by f) xs []"

definition gotcha_score :: "'j Record \<Rightarrow> f32" where
  "gotcha_score r = f32_mul (c_value (r_confidence r)) (priority_weight (r_priority r))"

subsection \<open>The files of the context\<close>

record packet_scan =
  ps_files :: "FileRecord list"
  ps_gotchas :: "string list"
  ps_decisions :: "string list"
  ps_candidates :: "string list"
  ps_warnings :: "string list"
  ps_seen :: "string list"

definition context_key :: "string \<Rightarrow> string" where
  "context_key file = (if starts_with file ''file:'' then file else ''file:'' @ file)"

definition key_path :: "string \<Rightarrow> string" where
  "key_path key = unwrap_or (strip_prefix key ''file:'') key"

definition set_insert :: "string list \<Rightarrow> string list \<Rightarrow> string list" where
  "set_insert ks acc = foldl (\<lambda>acc k. if k \<in> set acc then acc else acc @ [k]) acc ks"

definition ticked :: "string \<Rightarrow> string" where "ticked s = ''`'' @ s @ ''`''"

definition stale_warning :: "string \<Rightarrow> 'j Record \<Rightarrow> string option" where
  "stale_warning key r =
     (case s_tier (r_staleness r) of
        Stale \<Rightarrow> Some (ticked (key_path key) @ '' record is stale (staleness '' @ fmt2 (s_value (r_staleness r)) @ '') '' @ dash
                        @ '' verify before trusting'')
      | Liability \<Rightarrow> Some (ticked (key_path key) @ '' record is a liability (staleness '' @ fmt2 (s_value (r_staleness r)) @ '') '' @ dash
                        @ '' do not trust, read the file'')
      | _ \<Rightarrow> None)"

definition scan_warning :: "string \<Rightarrow> 'j Record \<Rightarrow> packet_scan \<Rightarrow> packet_scan" where
  "scan_warning key r st =
     (case stale_warning key r of
        None \<Rightarrow> st
      | Some w \<Rightarrow> if key \<in> set (ps_seen st) then st
                  else st\<lparr>ps_seen := ps_seen st @ [key], ps_warnings := ps_warnings st @ [w]\<rparr>)"

definition scan_payload :: "('j, FileRecord) serde \<Rightarrow> string \<Rightarrow> 'j Record \<Rightarrow> packet_scan \<Rightarrow> packet_scan" where
  "scan_payload F key r st =
     (case payload_as (from_value F) r of
        None \<Rightarrow> st
      | Some fr \<Rightarrow>
          st\<lparr>ps_gotchas := set_insert (f_gotcha_keys fr) (ps_gotchas st), ps_files := ps_files st @ [fr],
             ps_candidates := (if 3 \<le> r_access_count r \<and> f_gotcha_keys fr = [] then ps_candidates st @ [key] else ps_candidates st)\<rparr>)"

definition scan_edges :: "graph_view \<Rightarrow> string \<Rightarrow> packet_scan \<Rightarrow> packet_scan" where
  "scan_edges V key st =
     (let N = gv_neighbors V
      in st\<lparr>ps_gotchas := set_insert (concat (map (\<lambda>imported. N imported HasGotcha) (N key Imports))) (set_insert (N key HasGotcha) (ps_gotchas st)),
            ps_decisions := set_insert (N key AffectedBy) (ps_decisions st)\<rparr>)"

definition hidden_file :: "'j Record \<Rightarrow> bool" where
  "hidden_file r \<longleftrightarrow> s_tier (r_staleness r) = Tombstone \<or> r_lifecycle r \<noteq> Active"

definition scan_file ::
  "('t, 'x, 'v, 'j) store_api \<Rightarrow> ('j, FileRecord) serde \<Rightarrow> graph_view \<Rightarrow> ('t, 'x) Store \<Rightarrow> packet_scan \<Rightarrow> string \<Rightarrow> packet_scan" where
  "scan_file A F V S st file =
     (let key = context_key file
      in case store_get A S key of
           Inr (Some r) \<Rightarrow> if hidden_file r then st else scan_edges V key (scan_payload F key r (scan_warning key r st))
         | _ \<Rightarrow> scan_edges V key st)"

definition scan_files ::
  "('t, 'x, 'v, 'j) store_api \<Rightarrow> ('j, FileRecord) serde \<Rightarrow> graph_view \<Rightarrow> ('t, 'x) Store \<Rightarrow> string list \<Rightarrow> packet_scan" where
  "scan_files A F V S files =
     foldl (scan_file A F V S) \<lparr> ps_files = [], ps_gotchas = [], ps_decisions = [], ps_candidates = [], ps_warnings = [], ps_seen = [] \<rparr> files"

subsection \<open>Records for the packet\<close>

definition get_records :: "('t, 'x, 'v, 'j) store_api \<Rightarrow> ('t, 'x) Store \<Rightarrow> string list \<Rightarrow> 'j Record list" where
  "get_records A S keys = List.map_filter (\<lambda>k. case store_get A S k of Inr (Some r) \<Rightarrow> Some r | _ \<Rightarrow> None) keys"

definition injectable_gotchas ::
  "('t, 'x, 'v, 'j) store_api \<Rightarrow> ('j, GotchaRecord) serde \<Rightarrow> graph_view \<Rightarrow> ('t, 'x) Store \<Rightarrow> string list \<Rightarrow> string list
   \<Rightarrow> (store_error, 'j Record list) result" where
  "injectable_gotchas A G V S files keys =
     (if files = [] then rbind (scan_prefix A S ''gotcha:'') (\<lambda>rs. Ok (filter (is_injectable_gotcha G) rs))
      else Ok (filter (is_injectable_gotcha G) (get_records A S (gv_set_order V keys))))"

fun tier_debug :: "StalenessTier \<Rightarrow> string" where
  "tier_debug Fresh = ''Fresh''"
| "tier_debug Aging = ''Aging''"
| "tier_debug Stale = ''Stale''"
| "tier_debug Liability = ''Liability''"
| "tier_debug Tombstone = ''Tombstone''"

text \<open>The stale reviews of today and of yesterday.\<close>

definition review_entry :: "packet_scan \<Rightarrow> StaleReviewEntry \<Rightarrow> packet_scan" where
  "review_entry st e =
     (if sr_key e \<in> set (ps_seen st) then st
      else st\<lparr>ps_seen := ps_seen st @ [sr_key e],
              ps_warnings := ps_warnings st @ [ticked (key_path (sr_key e)) @ '' staleness '' @ fmt2 (sr_staleness_value e) @ '' (''
                @ tier_debug (sr_tier e) @ '') '' @ dash @ '' review recommended'']\<rparr>)"

definition review_day ::
  "('t, 'x, 'v, 'j) store_api \<Rightarrow> ('j, StaleReviewPayload) serde \<Rightarrow> ('t, 'x) Store \<Rightarrow> packet_scan \<Rightarrow> string \<Rightarrow> packet_scan" where
  "review_day A R S st date =
     (case store_get A S (''analytics:stale_review_'' @ date) of
        Inr (Some r) \<Rightarrow> (case payload_as (from_value R) r of Some p \<Rightarrow> foldl review_entry st (srp_entries p) | None \<Rightarrow> st)
      | _ \<Rightarrow> st)"

definition DECISION_FALLBACK_LIMIT :: nat where "DECISION_FALLBACK_LIMIT = 5"

definition decisions_for ::
  "('t, 'x, 'v, 'j) store_api \<Rightarrow> graph_view \<Rightarrow> ('t, 'x) Store \<Rightarrow> string list \<Rightarrow> 'j Record list" where
  "decisions_for A V S keys =
     (let related = get_records A S (gv_set_order V keys)
      in if related \<noteq> [] then related
         else case scan_prefix A S ''decision:'' of
                Inl _ \<Rightarrow> []
              | Inr rs \<Rightarrow> take DECISION_FALLBACK_LIMIT (sort_by_desc (\<lambda>r. c_value (r_confidence r)) (filter (\<lambda>r. r_lifecycle r = Active) rs)))"

subsection \<open>Sections within the budget\<close>

definition available_tokens :: nat where "available_tokens = TOKEN_BUDGET - VECTOR_B_TOKENS"

text \<open>Lines as long as they fit; the first that does not ends the section.\<close>

fun fit_lines :: "nat \<Rightarrow> string list \<Rightarrow> string \<times> nat" where
  "fit_lines used [] = ([], used)"
| "fit_lines used (l # ls) =
     (if available_tokens < used + estimate_tokens l then ([], used)
      else case fit_lines (used + estimate_tokens l) ls of (text_rest, u) \<Rightarrow> (l @ text_rest, u))"

definition section_of :: "string \<Rightarrow> string list \<Rightarrow> nat \<Rightarrow> string list \<times> nat" where
  "section_of header ls used =
     (case fit_lines used ls of (body, u) \<Rightarrow> (if body = [] then [] else [header @ nl @ body], u))"

definition bold :: "string \<Rightarrow> string" where "bold s = ''**'' @ s @ ''**''"

definition gotcha_line :: "'j Record \<Rightarrow> string" where
  "gotcha_line r =
     ''- '' @ bold (r_key r)
     @ (if s_tier (r_staleness r) = Liability then '' [STALE '' @ dash @ '' verify]''
        else if q_tier (r_quality r) = Poor then '' [LOW QUALITY '' @ dash @ '' verify]'' else [])
     @ '': '' @ r_value r @ nl"

text \<open>\<open>split_once\<close>, and the text between the last opening parenthesis and the next closing one.\<close>

definition split_once :: "char \<Rightarrow> string \<Rightarrow> (string \<times> string) option" where
  "split_once c s = (if c \<in> set s then Some (takeWhile (\<lambda>x. x \<noteq> c) s, drop 1 (dropWhile (\<lambda>x. x \<noteq> c) s)) else None)"

definition percentage :: "string \<Rightarrow> string" where
  "percentage val =
     (if CHR ''('' \<in> set val
      then let after = rev (takeWhile (\<lambda>x. x \<noteq> CHR ''('') (rev val))
           in if CHR '')'' \<in> set after then takeWhile (\<lambda>x. x \<noteq> CHR '')'') after else ''?''
      else ''?'')"

definition cochange_entry :: "'j Record \<Rightarrow> (string \<times> string) option" where
  "cochange_entry r =
     Option.bind (strip_prefix (r_key r) ''gotcha:cochange:'') (\<lambda>pair.
       map_option (\<lambda>(src, tgt). (src, src @ both_ways @ tgt @ '' ('' @ percentage (r_value r) @ '')'')) (split_once CHR ''|'' pair))"

definition cochange_pairs :: "'j Record list \<Rightarrow> string list" where
  "cochange_pairs rs =
     (let es = List.map_filter cochange_entry rs
      in concat (map (\<lambda>src. map snd (filter (\<lambda>e. fst e = src) es)) (sort (remdups (map fst es)))))"

definition cochange_line :: "string list \<Rightarrow> string" where
  "cochange_line ps =
     ''- **Co-change partners**: '' @ join '', '' (take 10 ps)
     @ (if 10 < length ps then '', +'' @ show_nat (length ps - 10) @ '' more'' else []) @ nl"

definition gotcha_section :: "'j Record list \<Rightarrow> nat \<Rightarrow> string list \<times> nat" where
  "gotcha_section rs used =
     (case fit_lines used (map gotcha_line (filter (\<lambda>r. \<not> starts_with (r_key r) ''gotcha:cochange:'') rs)) of (body, u) \<Rightarrow>
        (let ps = cochange_pairs rs; l = cochange_line ps; fits = (ps \<noteq> [] \<and> u + estimate_tokens l \<le> available_tokens);
             body1 = (if fits then body @ l else body)
         in (if body1 = [] then [] else [''## Gotchas'' @ nl @ body1], if fits then u + estimate_tokens l else u)))"

definition stage_section :: "'j Record option \<Rightarrow> nat \<Rightarrow> string list \<times> nat" where
  "stage_section stage used =
     (case stage of
        None \<Rightarrow> ([], used)
      | Some r \<Rightarrow>
          (let s = ''## Current Stage'' @ nl @ r_value r @ nl
           in if used + estimate_tokens s \<le> available_tokens then ([s], used + estimate_tokens s) else ([], used)))"

definition impact_files :: "FileRecord list \<Rightarrow> (FileRecord \<times> BlastRadius) list" where
  "impact_files frs =
     take 3 (sort_by_desc (\<lambda>(fr, br). b_score br)
       (List.map_filter (\<lambda>fr. Option.bind (f_blast_radius fr) (\<lambda>br. if b_tier br = Isolated then None else Some (fr, br))) frs))"

definition impact_line :: "FileRecord \<times> BlastRadius \<Rightarrow> string" where
  "impact_line p = (case p of (fr, br) \<Rightarrow>
     ''- '' @ ticked (f_path fr) @ '': '' @ show_u32 (b_direct br) @ '' direct importers ('' @ blast_label (b_tier br) @ '')'' @ nl)"

definition nudge_line :: "string \<Rightarrow> string" where
  "nudge_line key =
     ''- '' @ ticked (key_path key) @ '' is read frequently but has no recorded gotchas. The developer may want to run '' @ ticked (''mati gotcha add '' @ key_path key)
     @ ''.'' @ nl"

text \<open>The sections in their order; each starts with the tokens that those before it have used.\<close>

definition sections_of ::
  "'j Record option \<Rightarrow> 'j Record list \<Rightarrow> packet_scan \<Rightarrow> 'j Record list \<Rightarrow> string list" where
  "sections_of stage gotchas st decisions =
     (case stage_section stage 0 of (s1, u1) \<Rightarrow>
      case gotcha_section gotchas u1 of (s2, u2) \<Rightarrow>
      case section_of ''## Context Files'' (map (\<lambda>fr. ''- '' @ bold (f_path fr) @ '': '' @ f_purpose fr @ nl) (filter (\<lambda>fr. f_purpose fr \<noteq> []) (ps_files st))) u2
        of (s3, u3) \<Rightarrow>
      case section_of ''## Highest Impact Files'' (map impact_line (impact_files (ps_files st))) u3 of (s4, u4) \<Rightarrow>
      case section_of ''## Stale Warnings'' (map (\<lambda>w. ''- '' @ w @ nl) (ps_warnings st)) u4 of (s5, u5) \<Rightarrow>
      case section_of ''## Decisions'' (map (\<lambda>r. ''- '' @ bold (r_key r) @ '': '' @ r_value r @ nl) decisions) u5 of (s6, u6) \<Rightarrow>
      case section_of ''## Suggested Actions'' (map nudge_line (ps_candidates st)) u6 of (s7, u7) \<Rightarrow>
        s1 @ s2 @ s3 @ s4 @ s5 @ s6 @ s7)"

subsection \<open>The packet\<close>

definition critical_of :: "'j Record list \<Rightarrow> 'j Record list" where
  "critical_of rs = filter (\<lambda>r. q_tier (r_quality r) \<noteq> Suppressed) (sort_by_desc gotcha_score rs)"

definition assemble_context_packet ::
  "('t, 'x, 'v, 'j) store_api \<Rightarrow> ('v, 'j, 's) daemon_api \<Rightarrow> graph_view \<Rightarrow> daemon_env \<Rightarrow> ('t, 'x) Store \<Rightarrow> string list
   \<Rightarrow> (store_error, 'j ContextPacket) result" where
  "assemble_context_packet A B V env S files =
     rbind (store_get A S ''stage:current'') (\<lambda>stage.
       (let st = scan_files A (sa_file (dm_session B)) V S files; now = st_now (dv_ck env ''packet'')
        in rbind (injectable_gotchas A (sa_gotcha (dm_session B)) V S files (ps_gotchas st)) (\<lambda>gotchas.
             (let st1 = foldl (review_day A (sa_review (dm_session B)) S) st
                          [se_date (dv_session env) now, se_date (dv_session env) (now - 86400)];
                  decisions = decisions_for A V S (ps_decisions st);
                  critical = critical_of gotchas;
                  injection = join nl (sections_of stage critical st1 decisions) @ VECTOR_B
              in Ok \<lparr> cp_stage = stage, cp_critical_gotchas = critical, cp_file_records = ps_files st, cp_related_decisions = decisions,
                      cp_recent_session = None, cp_token_estimate = word_of_nat (estimate_tokens injection), cp_stale_warnings = ps_warnings st1,
                      cp_unconfirmed_candidates = ps_candidates st, cp_knowledge_gaps = [], cp_compliance_rate = None,
                      cp_injection_string = injection \<rparr>))))"

end
