(* ===== verification/Agent_Reads.thy ===== *)
theory Agent_Reads
  imports Packet
begin

section \<open>What agents read (\<open>mcp/tools.rs\<close>, \<open>mcp/handlers.rs\<close>)\<close>

text \<open>
  The JSON form of a record for an agent, the query modes over the index, the tags and the graph, and the start of a session, which
  hands out the packet of theory \<open>Packet\<close> and records the context files as consulted.
\<close>

subsection \<open>Records for agents\<close>

fun category_name :: "Category \<Rightarrow> string" where
  "category_name Gotcha = ''gotcha''" | "category_name File = ''file''" | "category_name Decision = ''decision''"
| "category_name Stage = ''stage''" | "category_name Dependency = ''dependency''" | "category_name DevNote = ''dev_note''"
| "category_name Session = ''session''" | "category_name Analytics = ''analytics''"

fun priority_name :: "Priority \<Rightarrow> string" where
  "priority_name Low = ''low''" | "priority_name Normal = ''normal''" | "priority_name High = ''high''" | "priority_name Critical = ''critical''"

fun source_name :: "RecordSource \<Rightarrow> string" where
  "source_name StaticAnalysis = ''static_analysis''" | "source_name ClaudeEnrich = ''claude_enrich''"
| "source_name SessionHook = ''session_hook''" | "source_name DeveloperManual = ''developer_manual''" | "source_name Import = ''import''"

fun quality_tier_name :: "QualityTier \<Rightarrow> string" where
  "quality_tier_name Suppressed = ''suppressed''" | "quality_tier_name Poor = ''poor''" | "quality_tier_name Acceptable = ''acceptable''"
| "quality_tier_name Good = ''good''" | "quality_tier_name Excellent = ''excellent''"

fun staleness_tier_name :: "StalenessTier \<Rightarrow> string" where
  "staleness_tier_name Fresh = ''fresh''" | "staleness_tier_name Aging = ''aging''" | "staleness_tier_name Stale = ''stale''"
| "staleness_tier_name Liability = ''liability''" | "staleness_tier_name Tombstone = ''tombstone''"

fun quality_signal_name :: "QualitySignal \<Rightarrow> string" where
  "quality_signal_name HasImperativeVerb = ''has_imperative_verb''" | "quality_signal_name HasCausality = ''has_causality''"
| "quality_signal_name HasSeveritySet = ''has_severity_set''" | "quality_signal_name HasReference = ''has_reference''"
| "quality_signal_name RuleLengthAdequate = ''rule_length_adequate''" | "quality_signal_name ReasonLengthAdequate = ''reason_length_adequate''"
| "quality_signal_name AffectedFilesSpecified = ''affected_files_specified''"
| "quality_signal_name HasSpecificIdentifier = ''has_specific_identifier''" | "quality_signal_name VaguePhrasing = ''vague_phrasing''"
| "quality_signal_name NoActionableRule = ''no_actionable_rule''" | "quality_signal_name NoReason = ''no_reason''"
| "quality_signal_name TooShort = ''too_short''" | "quality_signal_name DuplicatesFilePurpose = ''duplicates_file_purpose''"

fun internal_fields :: "Category \<Rightarrow> string list" where
  "internal_fields File = [''token_cost_estimate'', ''last_modified_session'', ''content_hash'']"
| "internal_fields Gotcha = [''discovered_session'']"
| "internal_fields _ = []"

definition strip_payload :: "'j json_api \<Rightarrow> 'j \<Rightarrow> Category \<Rightarrow> 'j" where
  "strip_payload J payload cat =
     (case j_entries J payload of
        None \<Rightarrow> payload
      | Some ms \<Rightarrow>
          (if internal_fields cat = [] then payload
           else let kept = filter (\<lambda>(k, _). k \<notin> set (internal_fields cat)) ms
                in j_object J (if cat = File then filter (\<lambda>(_, v). j_as_array J v \<noteq> Some []) kept else kept)))"

definition record_to_agent_json :: "'j json_api \<Rightarrow> 'j Record \<Rightarrow> 'j" where
  "record_to_agent_json J r =
     j_object J
       ([(''key'', j_string J (r_key r)), (''value'', j_string J (r_value r)), (''category'', j_string J (category_name (r_category r))),
         (''priority'', j_string J (priority_name (r_priority r)))]
        @ (if r_tags r = [] then [] else [(''tags'', j_array J (map (j_string J) (r_tags r)))])
        @ [(''confidence'', j_f32 J (c_value (r_confidence r))),
           (''confirmation_count'', j_u64 J (ucast (c_confirmation_count (r_confidence r)))),
           (''quality'', j_f32 J (q_value (r_quality r))), (''quality_tier'', j_string J (quality_tier_name (q_tier (r_quality r))))]
        @ (if q_signals (r_quality r) = [] then []
           else [(''quality_signals'', j_array J (map (\<lambda>s. j_string J (quality_signal_name s)) (q_signals (r_quality r))))])
        @ [(''source'', j_string J (source_name (r_source r))),
           (''staleness_tier'', j_string J (staleness_tier_name (s_tier (r_staleness r))))]
        @ (case r_ref_url r of None \<Rightarrow> [] | Some url \<Rightarrow> [(''ref_url'', j_string J url)])
        @ (case r_payload r of None \<Rightarrow> [] | Some p \<Rightarrow> [(''payload'', strip_payload J p (r_category r))]))"

subsection \<open>Queries (\<open>handle_mem_query\<close>)\<close>

definition MAX_QUERY_LIMIT :: nat where "MAX_QUERY_LIMIT = 50"

text \<open>\<open>f32::round\<close>: to the nearest integer, halves away from zero.\<close>

fun f32_round :: "f32 \<Rightarrow> f32" where
  "f32_round (Fin x) = r32 (sgn x * of_int \<lfloor>\<bar>x\<bar> + 1 / 2\<rfloor>)"
| "f32_round x = x"

definition is_active :: "'j Record \<Rightarrow> bool" where "is_active r \<longleftrightarrow> r_lifecycle r = Active"

definition agent_visible :: "'j Record \<Rightarrow> bool" where
  "agent_visible r \<longleftrightarrow> is_active r \<and> r_category r \<noteq> Session \<and> r_category r \<noteq> Analytics"

definition query_text ::
  "('t, 'x, 'v, 'j) store_api \<Rightarrow> 'j json_api \<Rightarrow> ('t, 'x) Store \<Rightarrow> string \<Rightarrow> nat \<Rightarrow> (ErrorCode \<times> string, 'j) result" where
  "query_text A J S q limit =
     (case search_scored A S q limit of
        Inl e \<Rightarrow> Err (StoreError, ''search: '' @ error_text e)
      | Inr scored \<Rightarrow>
          Ok (j_array J (map (\<lambda>(score, r). j_insert J (record_to_agent_json J r) ''relevance''
                 (j_f32 J (f32_div (f32_round (f32_mul score (r32 1000))) (r32 1000))))
               (filter (\<lambda>(_, r). agent_visible r) scored))))"

definition TAG_NAMESPACES :: "string list" where
  "TAG_NAMESPACES = [''gotcha:'', ''decision:'', ''file:'', ''stage:'', ''dev_note:'', ''dep:'']"

definition tag_match :: "unicode_api \<Rightarrow> string \<Rightarrow> 'j Record \<Rightarrow> bool" where
  "tag_match U query_lower r \<longleftrightarrow> is_active r \<and> (\<exists>t\<in>set (r_tags r). contains_str (u_to_lowercase U t) query_lower)"

fun tag_scan ::
  "('t, 'x, 'v, 'j) store_api \<Rightarrow> unicode_api \<Rightarrow> ('t, 'x) Store \<Rightarrow> string \<Rightarrow> nat \<Rightarrow> string list \<Rightarrow> 'j Record list
   \<Rightarrow> (ErrorCode \<times> string, 'j Record list) result" where
  "tag_scan A U S query_lower limit [] matched = Ok matched"
| "tag_scan A U S query_lower limit (ns # nss) matched =
     (if limit \<le> length matched then Ok matched
      else case scan_prefix A S ns of
             Inl e \<Rightarrow> Err (StoreError, ''scan '' @ ns @ '': '' @ error_text e)
           | Inr rs \<Rightarrow> tag_scan A U S query_lower limit nss (matched @ take (limit - length matched) (filter (tag_match U query_lower) rs)))"

text \<open>The slots of the groups: one round gives each group that has more keys one slot, while there are any.\<close>

fun hand_out :: "nat list \<Rightarrow> nat list \<Rightarrow> nat \<Rightarrow> nat list \<times> nat" where
  "hand_out (n # ns) (q # qs) remaining =
     (if 0 < remaining \<and> q < n
      then (case hand_out ns qs (remaining - 1) of (qs1, left) \<Rightarrow> ((q + 1) # qs1, left))
      else (case hand_out ns qs remaining of (qs1, left) \<Rightarrow> (q # qs1, left)))"
| "hand_out _ qs remaining = (qs, remaining)"

lemma hand_out_less: "hand_out ns qs remaining = (qs1, left) \<Longrightarrow> left \<le> remaining"
  by (induction ns qs remaining arbitrary: qs1 left rule: hand_out.induct) (fastforce split: if_splits prod.splits)+

function allocate :: "nat list \<Rightarrow> nat list \<Rightarrow> nat \<Rightarrow> nat list \<times> nat" where
  "allocate ns qs remaining =
     (if remaining = 0 then (qs, 0)
      else let step = hand_out ns qs remaining
           in if snd step = remaining then (qs, remaining) else allocate ns (fst step) (snd step))"
  by pat_completeness auto
termination
proof (relation "measure (\<lambda>(_, _, remaining). remaining)")
  fix ns qs :: "nat list" and remaining step
  assume "step = hand_out ns qs remaining" "snd step \<noteq> remaining"
  then have "snd step < remaining" using hand_out_less [of ns qs remaining "fst step" "snd step"] by simp
  then show "((ns, fst step, snd step), ns, qs, remaining) \<in> measure (\<lambda>(_, _, remaining). remaining)" by (simp add: case_prod_unfold)
qed simp

declare allocate.simps [simp del]

definition EDGE_GROUPS :: "(EdgeKind \<times> string \<times> nat) list" where
  "EDGE_GROUPS =
     [(HasGotcha, ''gotchas'', 10), (CoChanges, ''co_changes'', 5), (Imports, ''imports'', 5), (AffectedBy, ''decisions'', 3), (HasNote, ''notes'', 3)]"

definition DECISION_LIMIT :: nat where "DECISION_LIMIT = 3"

fun kind_debug :: "EdgeKind \<Rightarrow> string" where
  "kind_debug HasGotcha = ''HasGotcha''"
| "kind_debug Imports = ''Imports''"
| "kind_debug AffectedBy = ''AffectedBy''"
| "kind_debug HasNote = ''HasNote''"
| "kind_debug DiscoveredIn = ''DiscoveredIn''"
| "kind_debug CausedBy = ''CausedBy''"
| "kind_debug Supersedes = ''Supersedes''"
| "kind_debug Touched = ''Touched''"
| "kind_debug DependencyAffects = ''DependencyAffects''"
| "kind_debug CoChanges = ''CoChanges''"

definition graph_entry :: "'j json_api \<Rightarrow> EdgeKind \<Rightarrow> 'j Record \<Rightarrow> (string \<times> 'j) list" where
  "graph_entry J kind r =
     [(''key'', j_string J (r_key r)), (''relationship'', j_string J (kind_debug kind)), (''value'', j_string J (r_value r)),
      (''confidence'', j_f32 J (c_value (r_confidence r))), (''quality'', j_f32 J (q_value (r_quality r)))]"

definition confirmed_entry :: "'j json_api \<Rightarrow> 'j Record \<Rightarrow> (string \<times> 'j) list" where
  "confirmed_entry J r =
     (case Option.bind (r_payload r) (\<lambda>p. j_get J p ''confirmed'') of Some c \<Rightarrow> [(''confirmed'', c)] | None \<Rightarrow> [])"

definition active_records :: "('t, 'x, 'v, 'j) store_api \<Rightarrow> ('t, 'x) Store \<Rightarrow> string list \<Rightarrow> 'j Record list" where
  "active_records A S keys = filter is_active (get_records A S keys)"

text \<open>What each group shows, in the order of \<open>EDGE_GROUPS\<close>, and the records that a dependency affects.\<close>

definition group_keys :: "graph_view \<Rightarrow> string \<Rightarrow> string list list" where
  "group_keys V q = map (\<lambda>(kind, _, cap). take cap (gv_neighbors V q kind)) EDGE_GROUPS"

definition group_slots :: "graph_view \<Rightarrow> string \<Rightarrow> nat \<Rightarrow> nat list \<times> nat" where
  "group_slots V q limit = allocate (map length (group_keys V q)) (replicate (length EDGE_GROUPS) 0) limit"

definition group_records :: "('t, 'x, 'v, 'j) store_api \<Rightarrow> graph_view \<Rightarrow> ('t, 'x) Store \<Rightarrow> string \<Rightarrow> nat \<Rightarrow> 'j Record list list" where
  "group_records A V S q limit =
     map (\<lambda>(keys, slots). active_records A S (take slots keys)) (zip (group_keys V q) (fst (group_slots V q limit)))"

definition dependency_records :: "('t, 'x, 'v, 'j) store_api \<Rightarrow> graph_view \<Rightarrow> ('t, 'x) Store \<Rightarrow> string \<Rightarrow> nat \<Rightarrow> 'j Record list" where
  "dependency_records A V S q limit =
     active_records A S (take (min DECISION_LIMIT (snd (group_slots V q limit))) (gv_neighbors V q DependencyAffects))"

definition query_graph ::
  "('t, 'x, 'v, 'j) store_api \<Rightarrow> 'j json_api \<Rightarrow> graph_view \<Rightarrow> ('t, 'x) Store \<Rightarrow> string \<Rightarrow> nat \<Rightarrow> 'j" where
  "query_graph A J V S q limit =
     (let groups = zip EDGE_GROUPS (group_records A V S q limit);
          deps = map (\<lambda>r. j_object J (graph_entry J DependencyAffects r)) (dependency_records A V S q limit);
          members = map (\<lambda>((kind, gname, _), rs).
             (gname, j_array J (map (\<lambda>r. j_object J (graph_entry J kind r @ confirmed_entry J r)) rs @ (if gname = ''decisions'' then deps else [])))) groups;
          parts = List.map_filter (\<lambda>((_, gname, _), rs). if rs = [] then None else Some (show_nat (length rs) @ '' '' @ gname)) groups
      in j_object J ((''seed'', j_string J q) # members
           @ [(''summary'', j_string J (if parts = [] then ''No related records found'' else join '', '' parts))]))"

definition handle_mem_query ::
  "('t, 'x, 'v, 'j) store_api \<Rightarrow> ('v, 'j, 's) daemon_api \<Rightarrow> graph_view \<Rightarrow> ('t, 'x) Store \<Rightarrow> string \<Rightarrow> QueryMode \<Rightarrow> u32
   \<Rightarrow> (ErrorCode \<times> string, 'j) result" where
  "handle_mem_query A B V S q mode limit =
     (let n = min (unat limit) MAX_QUERY_LIMIT; J = dm_json B; U = dm_unicode B
      in case mode of
           QueryText \<Rightarrow> query_text A J S q n
         | QueryTag \<Rightarrow> rbind (tag_scan A U S (u_to_lowercase U q) n TAG_NAMESPACES []) (\<lambda>rs. Ok (j_array J (map (record_to_agent_json J) rs)))
         | QueryGraph \<Rightarrow> Ok (query_graph A J V S q n)
         | QuerySemantic \<Rightarrow> Err (ValidationFailed, ''semantic search requires --features semantic (not enabled)''))"

text \<open>The access counter of the consulted record, best effort.\<close>

definition bump_access :: "('t, 'x, 'v, 'j) store_api \<Rightarrow> u64 \<Rightarrow> string \<Rightarrow> ('t, 'x) Store \<Rightarrow> ('t, 'x) Store" where
  "bump_access A now key S =
     (case store_get A S key of
        Inr (Some r) \<Rightarrow> fst (store_put A S key (r\<lparr>r_access_count := r_access_count r + 1, r_last_accessed := now\<rparr>))
      | _ \<Rightarrow> S)"

subsection \<open>The start of a session (\<open>handle_mem_bootstrap\<close>)\<close>

text \<open>The staged writes of one context file: its receipt and the daily counter, each left out when it cannot be staged.\<close>

definition staged_opt :: "('e, 'a) result \<Rightarrow> 'a list" where
  "staged_opt m = (case m of Inr kv \<Rightarrow> [kv] | Inl _ \<Rightarrow> [])"

definition context_writes ::
  "('t, 'x, 'v, 'j) store_api \<Rightarrow> ('v, 'j, 's) daemon_api \<Rightarrow> daemon_env \<Rightarrow> ('t, 'x) Store \<Rightarrow> string \<Rightarrow> (string \<times> 'v) list" where
  "context_writes A B env S file =
     (let key = context_key file
      in staged_opt (consultation_receipt_staged A (dv_ck env (''receipt '' @ file)) key None)
         @ staged_opt (upsert_daily_agg_staged A (sa_agg (dm_session B)) (dv_ck env (''agg '' @ file)) S (today_key (dv_session env) ''analytics:hit_'') key))"

definition bootstrap_writes ::
  "('t, 'x, 'v, 'j) store_api \<Rightarrow> ('v, 'j, 's) daemon_api \<Rightarrow> daemon_env \<Rightarrow> ('t, 'x) Store \<Rightarrow> string list \<Rightarrow> (string \<times> 'v) list" where
  "bootstrap_writes A B env S files =
     staged_opt (upsert_daily_agg_staged A (sa_agg (dm_session B)) (dv_ck env ''bootstrap'') S (today_key (dv_session env) ''analytics:bootstrap_'') ''__bootstrap__'')
     @ concat (map (context_writes A B env S) files)"

text \<open>The access counters are written after the answer, for the files of a packet that could be assembled.\<close>

definition handle_mem_bootstrap ::
  "('t, 'x, 'v, 'j) store_api \<Rightarrow> ('v, 'j, 's) daemon_api \<Rightarrow> graph_view \<Rightarrow> daemon_env \<Rightarrow> RequestContext \<Rightarrow> uuid \<Rightarrow> string list
   \<Rightarrow> ('t, 'x) Audit \<Rightarrow> (('t, 'x) Audit, string) handled" where
  "handle_mem_bootstrap A B V env ctx request_id files a =
     (let S = a_store a; assembly = assemble_context_packet A B V env S files; acc = (case assembly of Inr _ \<Rightarrow> True | Inl _ \<Rightarrow> False)
      in case make_session_audit B env ctx ''accepted'' request_id ''mem_bootstrap'' [] acc (if acc then None else Some Internal) of
           None \<Rightarrow> (a, Err audit_missing)
         | Some kv \<Rightarrow>
             (let S1 = fst (transact_sessions_raw A S (bootstrap_writes A B env S files @ [kv]))
              in case assembly of
                   Inl e \<Rightarrow> (a\<lparr>a_store := S1\<rparr>, Err (Internal, ''bootstrap assembly: '' @ error_text e))
                 | Inr packet \<Rightarrow>
                     (a\<lparr>a_store := foldl (\<lambda>S file. bump_access A (st_now (dv_ck env (''access '' @ file))) (context_key file) S) S1 files\<rparr>,
                      Ok (cp_injection_string packet))))"

end
