(* ===== verification/Union_Find.thy ===== *)
theory Union_Find
  imports Prelude
begin

section \<open>Union-find (\<open>find\<close> and \<open>union\<close> in \<open>analysis/clusters.rs\<close>)\<close>

text \<open>
  Disjoint sets with union by rank and path compression. An index out of range, which panics, is \<open>None\<close>, and so is a search that does
  not end; \<open>disjoint_sets\<close> states what the clusters rely on and the interpretation at the end discharges it for this code.
\<close>

partial_function (option) uf_find :: "nat list \<Rightarrow> nat \<Rightarrow> (nat list \<times> nat) option" where
  "uf_find parent x =
     (if length parent \<le> x then None
      else if parent ! x = x then Some (parent, x)
      else Option.bind (uf_find parent (parent ! x)) (\<lambda>(parent1, r). Some (parent1[x := r], r)))"

definition uf_union :: "nat list \<times> nat list \<Rightarrow> nat \<Rightarrow> nat \<Rightarrow> (nat list \<times> nat list) option" where
  "uf_union uf a b = (case uf of (parent, rank) \<Rightarrow>
     Option.bind (uf_find parent a) (\<lambda>(parent1, ra).
     Option.bind (uf_find parent1 b) (\<lambda>(parent2, rb).
       Some (if ra = rb then (parent2, rank)
             else if rank ! ra < rank ! rb then (parent2[ra := rb], rank)
             else if rank ! rb < rank ! ra then (parent2[rb := ra], rank)
             else (parent2[rb := ra], rank[ra := rank ! ra + 1])))))"

fun foldM :: "('s \<Rightarrow> 'a \<Rightarrow> 's option) \<Rightarrow> 's \<Rightarrow> 'a list \<Rightarrow> 's option" where
  "foldM f s [] = Some s"
| "foldM f s (x # xs) = Option.bind (f s x) (\<lambda>s1. foldM f s1 xs)"

text \<open>The least equivalence with the given pairs.\<close>

definition connected_by :: "('a \<times> 'a) list \<Rightarrow> ('a \<times> 'a) set" where
  "connected_by es = (set es \<union> (set es)\<inverse>)\<^sup>*"

lemma connected_Nil [simp]: "connected_by [] = Id"
  by (simp add: connected_by_def)

lemma connected_sym: "(x, y) \<in> connected_by es \<Longrightarrow> (y, x) \<in> connected_by es"
  unfolding connected_by_def by (metis converse_Un converse_converse rtrancl_converseI sup_commute)

lemma connected_snoc:
  "(x, y) \<in> connected_by (es @ [(a, b)]) \<longleftrightarrow>
     (x, y) \<in> connected_by es \<or> (x, a) \<in> connected_by es \<and> (b, y) \<in> connected_by es \<or> (x, b) \<in> connected_by es \<and> (a, y) \<in> connected_by es"
proof -
  define r where "r = set es \<union> (set es)\<inverse>"
  have "set (es @ [(a, b)]) \<union> (set (es @ [(a, b)]))\<inverse> = insert (a, b) (insert (b, a) r)" by (auto simp: r_def)
  moreover have "(u, v) \<in> r\<^sup>* \<Longrightarrow> (v, u) \<in> r\<^sup>*" for u v using connected_sym [of u v es] by (simp add: connected_by_def r_def)
  ultimately show ?thesis
    unfolding connected_by_def r_def [symmetric] by (simp add: rtrancl_insert) (meson rtrancl_trans)
qed

subsection \<open>The interface\<close>

locale disjoint_sets =
  fixes wf :: "'s \<Rightarrow> bool" and n :: nat and rt :: "'s \<Rightarrow> nat \<Rightarrow> nat" and link :: "'s \<Rightarrow> nat \<Rightarrow> nat \<Rightarrow> 's option"
  assumes link_joins: "wf s \<Longrightarrow> a < n \<Longrightarrow> b < n \<Longrightarrow>
     \<exists>t. link s a b = Some t \<and> wf t \<and>
       (\<forall>x<n. \<forall>y<n. rt t x = rt t y \<longleftrightarrow>
          rt s x = rt s y \<or> rt s x = rt s a \<and> rt s b = rt s y \<or> rt s x = rt s b \<and> rt s a = rt s y)"
begin

lemma links_step:
  assumes "wf s" "\<forall>x<n. \<forall>y<n. rt s x = rt s y \<longleftrightarrow> (x, y) \<in> connected_by past" "set es \<subseteq> {..<n} \<times> {..<n}"
  shows "\<exists>t. foldM (\<lambda>s (a, b). link s a b) s es = Some t \<and> wf t \<and> (\<forall>x<n. \<forall>y<n. rt t x = rt t y \<longleftrightarrow> (x, y) \<in> connected_by (past @ es))"
  using assms
proof (induction es arbitrary: s past)
  case (Cons e es)
  obtain a b where e: "e = (a, b)" by force
  then have ab: "a < n" "b < n" using Cons.prems(3) by auto
  obtain t where t: "link s a b = Some t" "wf t" "\<forall>x<n. \<forall>y<n. rt t x = rt t y \<longleftrightarrow>
      rt s x = rt s y \<or> rt s x = rt s a \<and> rt s b = rt s y \<or> rt s x = rt s b \<and> rt s a = rt s y"
    using link_joins [OF Cons.prems(1) ab] by blast
  have "\<forall>x<n. \<forall>y<n. rt t x = rt t y \<longleftrightarrow> (x, y) \<in> connected_by (past @ [(a, b)])"
    using t(3) Cons.prems(2) ab by (simp add: connected_snoc)
  from Cons.IH [OF t(2) this] Cons.prems(3) show ?case by (simp add: e t(1))
qed simp

lemma links_connect:
  "wf s \<Longrightarrow> \<forall>x<n. \<forall>y<n. rt s x = rt s y \<longleftrightarrow> x = y \<Longrightarrow> set es \<subseteq> {..<n} \<times> {..<n} \<Longrightarrow>
   \<exists>t. foldM (\<lambda>s (a, b). link s a b) s es = Some t \<and> wf t \<and> (\<forall>x<n. \<forall>y<n. rt t x = rt t y \<longleftrightarrow> (x, y) \<in> connected_by es)"
  using links_step [of s "[]" es] by simp

end

subsection \<open>Representatives\<close>

inductive rep :: "nat list \<Rightarrow> nat \<Rightarrow> nat \<Rightarrow> bool" for p where
  rep_root: "x < length p \<Longrightarrow> p ! x = x \<Longrightarrow> rep p x x"
| rep_step: "x < length p \<Longrightarrow> p ! x \<noteq> x \<Longrightarrow> rep p (p ! x) r \<Longrightarrow> rep p x r"

inductive_simps rep_simp: "rep p x r"

lemma rep_is_root: "rep p x r \<Longrightarrow> r < length p \<and> p ! r = r"
  by (induction rule: rep.induct) auto

lemma rep_of_root: "p ! x = x \<Longrightarrow> rep p x r \<longleftrightarrow> x < length p \<and> r = x"
  using rep_simp [of p x r] by auto

lemma rep_unique: "rep p x r \<Longrightarrow> rep p x s \<Longrightarrow> s = r"
proof (induction arbitrary: s rule: rep.induct)
  case (rep_root x)
  then show ?case by (simp add: rep_of_root)
next
  case (rep_step x r)
  from rep_step(5) rep_step(2) have "rep p (p ! x) s" using rep_simp [of p x s] by blast
  then show ?case by (rule rep_step(4))
qed

lemma rep_compress_intro:
  assumes "rep p x y" "x \<noteq> y" "rep p z s"
  shows "rep (p[x := y]) z s"
  using assms(3)
proof (induction rule: rep.induct)
  case (rep_root z)
  then have "z \<noteq> x" using assms(1,2) by (auto simp: rep_of_root)
  then show ?case using rep_root by (auto intro: rep.rep_root)
next
  case (rep_step z r)
  show ?case
  proof (cases "z = x")
    case True
    then have "r = y" using rep_unique [OF rep.rep_step [OF rep_step(1,2,3)], of y] assms(1) by simp
    moreover have "rep (p[x := y]) y y" using rep_is_root [OF assms(1)] assms(2) by (auto intro: rep.rep_root)
    ultimately show ?thesis using True assms(2) rep_step(1) rep.rep_step [of x "p[x := y]" y] by simp
  next
    case False
    then show ?thesis using rep_step rep.rep_step [of z "p[x := y]" r] by simp
  qed
qed

lemma rep_total_compress:
  assumes "rep (p[x := y]) z s" "rep p x y" "x \<noteq> y"
  shows "\<exists>t. rep p z t"
  using assms(1)
proof (induction rule: rep.induct)
  case (rep_root z)
  then have "z \<noteq> x" using assms(3) rep_is_root [OF assms(2)] by auto
  then show ?case using rep_root by (auto intro: rep.rep_root)
next
  case (rep_step z r)
  then show ?case using assms(2) by (cases "z = x") (auto intro: rep.rep_step)
qed

lemma rep_compress:
  assumes "rep p x y" "x \<noteq> y"
  shows "rep (p[x := y]) z s \<longleftrightarrow> rep p z s"
  using rep_compress_intro [OF assms] rep_total_compress [OF _ assms] rep_unique by blast

lemma rep_link_intro:
  assumes "a < length p" "p ! a = a" "b < length p" "p ! b = b" "a \<noteq> b" "rep p z t"
  shows "rep (p[a := b]) z (if t = a then b else t)"
  using assms(6)
proof (induction rule: rep.induct)
  case (rep_root z)
  have b: "rep (p[a := b]) b b" using assms by (auto intro: rep.rep_root)
  show ?case
  proof (cases "z = a")
    case True
    then show ?thesis using rep.rep_step [of a "p[a := b]" b] b assms(1,5) by simp
  qed (use rep_root in \<open>auto intro: rep.rep_root\<close>)
next
  case (rep_step z r)
  then have "z \<noteq> a" using assms(2) by auto
  then show ?case using rep_step rep.rep_step [of z "p[a := b]" "if r = a then b else r"] by simp
qed

subsection \<open>The invariant: ranks rise towards the roots\<close>

definition uf_wf :: "nat \<Rightarrow> nat list \<times> nat list \<Rightarrow> bool" where
  "uf_wf n uf = (case uf of (p, rank) \<Rightarrow>
     length p = n \<and> length rank = n \<and> (\<forall>x<n. p ! x < n \<and> (p ! x \<noteq> x \<longrightarrow> rank ! x < rank ! (p ! x))))"

lemma rep_rank: "rep p x r \<Longrightarrow> uf_wf n (p, rank) \<Longrightarrow> x \<noteq> r \<Longrightarrow> rank ! x < rank ! r"
  by (induction rule: rep.induct) (force simp: uf_wf_def)+

lemma uf_wfI:
  assumes "length p = n" "length rank = n"
    and "\<And>x. x < n \<Longrightarrow> p ! x < n" "\<And>x. x < n \<Longrightarrow> p ! x \<noteq> x \<Longrightarrow> rank ! x < rank ! (p ! x)"
  shows "uf_wf n (p, rank)"
  using assms by (simp add: uf_wf_def)

lemma uf_wfD:
  assumes "uf_wf n (p, rank)"
  shows "length p = n" "length rank = n" "x < n \<Longrightarrow> p ! x < n" "x < n \<Longrightarrow> p ! x \<noteq> x \<Longrightarrow> rank ! x < rank ! (p ! x)"
  using assms by (simp_all add: uf_wf_def)

lemma uf_wf_set:
  assumes "uf_wf n (p, rank)" "y < n" "rank ! x < rank ! y"
  shows "uf_wf n (p[x := y], rank)"
proof (rule uf_wfI)
  fix z assume z: "z < n"
  show "p[x := y] ! z < n" using z assms(2) uf_wfD(1,3) [OF assms(1)] by (cases "z = x") simp_all
  show "rank ! z < rank ! (p[x := y] ! z)" if "p[x := y] ! z \<noteq> z"
    using z that assms(3) uf_wfD(1,4) [OF assms(1)] by (cases "z = x") simp_all
qed (simp_all add: uf_wfD(1,2) [OF assms(1)])

lemma uf_find_ok:
  assumes "uf_wf n (p, rank)" "x < n"
  shows "\<exists>p1 r. uf_find p x = Some (p1, r) \<and> rep p x r \<and> uf_wf n (p1, rank) \<and> (\<forall>z s. rep p1 z s \<longleftrightarrow> rep p z s)"
  using assms(2)
proof (induction "Max (set rank) - rank ! x" arbitrary: x rule: less_induct)
  case less
  have wf: "length p = n" "length rank = n" "p ! x < n" "p ! x \<noteq> x \<Longrightarrow> rank ! x < rank ! (p ! x)"
    using assms(1) less.prems by (auto simp: uf_wf_def)
  show ?case
  proof (cases "p ! x = x")
    case True
    then show ?thesis using less.prems wf(1) assms(1) by (subst uf_find.simps) (auto intro: rep_root)
  next
    case False
    have "rank ! (p ! x) \<le> Max (set rank)" using wf(2,3) by (auto intro: Max_ge)
    then have "Max (set rank) - rank ! (p ! x) < Max (set rank) - rank ! x" using wf(4) [OF False] by linarith
    from less.hyps [OF this wf(3)] obtain p1 r
      where h: "uf_find p (p ! x) = Some (p1, r)" "rep p (p ! x) r" "uf_wf n (p1, rank)" "\<forall>z s. rep p1 z s \<longleftrightarrow> rep p z s"
      by blast
    have x: "rep p x r" using False less.prems wf(1) h(2) by (auto intro: rep_step)
    have ne: "x \<noteq> r" using rep_is_root [OF x] False by auto
    have "r < n" using rep_is_root [OF x] wf(1) by simp
    then have "uf_wf n (p1[x := r], rank)" using uf_wf_set [OF h(3)] rep_rank [OF x assms(1) ne] by blast
    moreover have "rep (p1[x := r]) z s \<longleftrightarrow> rep p z s" for z s using rep_compress [of p1 x r z s] h(4) x ne by simp
    ultimately show ?thesis using False less.prems wf(1) h(1) x by (subst uf_find.simps) auto
  qed
qed

definition uf_root :: "nat list \<times> nat list \<Rightarrow> nat \<Rightarrow> nat" where
  "uf_root uf x = snd (the (uf_find (fst uf) x))"

lemma uf_root_rep: "uf_wf n (p, rank) \<Longrightarrow> x < n \<Longrightarrow> rep p x r \<longleftrightarrow> r = uf_root (p, rank) x"
  using uf_find_ok [of n p rank x] rep_unique [of p x] by (auto simp: uf_root_def)

lemma uf_find_root:
  assumes "uf_wf n (p, rank)" "x < n"
  shows "\<exists>p1. uf_find p x = Some (p1, uf_root (p, rank) x) \<and> uf_wf n (p1, rank) \<and> (\<forall>z<n. uf_root (p1, rank) z = uf_root (p, rank) z)"
proof -
  obtain p1 r where h: "uf_find p x = Some (p1, r)" "rep p x r" "uf_wf n (p1, rank)" "\<forall>z s. rep p1 z s \<longleftrightarrow> rep p z s"
    using uf_find_ok [OF assms] by blast
  have "uf_root (p1, rank) z = uf_root (p, rank) z" if "z < n" for z
    using uf_root_rep [OF h(3) that] uf_root_rep [OF assms(1) that] h(4) by blast
  then show ?thesis using h uf_root_rep [OF assms] by auto
qed

lemma uf_root_link:
  assumes "uf_wf n (p, rank)" "a < n" "p ! a = a" "b < n" "p ! b = b" "a \<noteq> b" "uf_wf n (p[a := b], rank1)" "z < n"
  shows "uf_root (p[a := b], rank1) z = (if uf_root (p, rank) z = a then b else uf_root (p, rank) z)"
proof -
  have len: "length p = n" using assms(1) by (simp add: uf_wf_def)
  have "rep (p[a := b]) z (if uf_root (p, rank) z = a then b else uf_root (p, rank) z)"
    using rep_link_intro [of a p b z] assms len uf_root_rep [OF assms(1,8)] by simp
  then show ?thesis using uf_root_rep [OF assms(7,8)] by simp
qed

lemma uf_wf_link:
  assumes "uf_wf n (p, rank)" "a < n" "p ! a = a" "b < n" "p ! b = b" "a \<noteq> b" "rank ! a \<le> rank ! b"
  shows "uf_wf n (p[a := b], if rank ! a < rank ! b then rank else rank[b := rank ! b + 1])"
proof -
  note d = uf_wfD [OF assms(1)]
  define rank1 where "rank1 = (if rank ! a < rank ! b then rank else rank[b := rank ! b + 1])"
  have r: "length rank1 = n" "rank1 ! a < rank1 ! b" using assms d(2) by (auto simp: rank1_def)
  have ge: "rank ! z \<le> rank1 ! z" if "z < n" for z using that d(2) by (cases "z = b") (simp_all add: rank1_def)
  have eq: "rank1 ! z = rank ! z" if "z \<noteq> b" for z using that by (simp add: rank1_def)
  have "uf_wf n (p[a := b], rank1)"
  proof (rule uf_wfI)
    fix z assume z: "z < n"
    show "p[a := b] ! z < n" using z assms(4) d(1,3) by (cases "z = a") simp_all
    show "rank1 ! z < rank1 ! (p[a := b] ! z)" if ne: "p[a := b] ! z \<noteq> z"
    proof (cases "z = a")
      case True
      then show ?thesis using r(2) z d(1) by simp
    next
      case False
      then have "p ! z \<noteq> z" using ne by simp
      then have "rank ! z < rank ! (p ! z)" "z \<noteq> b" using d(4) [OF z] assms(5) by auto
      then show ?thesis using ge [OF d(3) [OF z]] eq [of z] False by simp
    qed
  qed (simp_all add: d(1) r(1))
  then show ?thesis by (simp only: rank1_def)
qed

lemma uf_union_joins:
  assumes "uf_wf n uf" "a < n" "b < n"
  shows "\<exists>t. uf_union uf a b = Some t \<and> uf_wf n t \<and>
    (\<forall>x<n. \<forall>y<n. uf_root t x = uf_root t y \<longleftrightarrow>
       uf_root uf x = uf_root uf y \<or> uf_root uf x = uf_root uf a \<and> uf_root uf b = uf_root uf y
       \<or> uf_root uf x = uf_root uf b \<and> uf_root uf a = uf_root uf y)"
proof -
  obtain p rank where uf: "uf = (p, rank)" by force
  note w = assms(1) [unfolded uf]
  obtain p1 where f1: "uf_find p a = Some (p1, uf_root uf a)" "uf_wf n (p1, rank)" "\<forall>z<n. uf_root (p1, rank) z = uf_root uf z"
    using uf_find_root [OF w assms(2)] uf by blast
  obtain p2 where f2: "uf_find p1 b = Some (p2, uf_root uf b)" "uf_wf n (p2, rank)" "\<forall>z<n. uf_root (p2, rank) z = uf_root uf z"
    using uf_find_root [OF f1(2) assms(3)] f1(3) assms(3) by auto
  define ra rb where "ra = uf_root uf a" and "rb = uf_root uf b"
  have "rep p2 a ra" "rep p2 b rb"
    using uf_root_rep [OF f2(2) assms(2)] uf_root_rep [OF f2(2) assms(3)] f2(3) assms(2,3) by (auto simp: ra_def rb_def)
  then have r: "ra < n" "p2 ! ra = ra" "rb < n" "p2 ! rb = rb"
    using rep_is_root f2(2) by (auto simp: uf_wf_def)
  have u: "uf_union uf a b = Some (if ra = rb then (p2, rank)
      else if rank ! ra < rank ! rb then (p2[ra := rb], rank)
      else if rank ! rb < rank ! ra then (p2[rb := ra], rank) else (p2[rb := ra], rank[ra := rank ! ra + 1]))"
    using f1(1) f2(1) by (simp add: uf_union_def uf ra_def rb_def)
  consider "ra = rb" | "ra \<noteq> rb" "rank ! ra < rank ! rb" | "ra \<noteq> rb" "rank ! rb \<le> rank ! ra" by linarith
  then show ?thesis
  proof cases
    case 1
    then show ?thesis using u f2(2,3) by (auto simp: ra_def rb_def)
  next
    case 2
    then have w3: "uf_wf n (p2[ra := rb], rank)" using uf_wf_link [OF f2(2) r] by simp
    have "\<forall>z<n. uf_root (p2[ra := rb], rank) z = (if uf_root uf z = ra then rb else uf_root uf z)"
      using uf_root_link [OF f2(2) r 2(1) w3] f2(3) by simp
    then show ?thesis using u 2 w3 by (auto simp: ra_def rb_def)
  next
    case 3
    define rank1 where "rank1 = (if rank ! rb < rank ! ra then rank else rank[ra := rank ! ra + 1])"
    have w3: "uf_wf n (p2[rb := ra], rank1)"
      unfolding rank1_def using uf_wf_link [OF f2(2) r(3,4,1,2)] 3 by auto
    have "\<forall>z<n. uf_root (p2[rb := ra], rank1) z = (if uf_root uf z = rb then ra else uf_root uf z)"
      using uf_root_link [OF f2(2) r(3,4,1,2) _ w3] 3 f2(3) by auto
    moreover have "uf_union uf a b = Some (p2[rb := ra], rank1)" using u 3 by (auto simp: rank1_def)
    ultimately show ?thesis using w3 by (auto simp: ra_def rb_def)
  qed
qed

interpretation uf: disjoint_sets "uf_wf n" n uf_root uf_union for n
  by unfold_locales (rule uf_union_joins)

lemma uf_start: "uf_wf n ([0..<n], replicate n 0)" "x < n \<Longrightarrow> uf_root ([0..<n], replicate n 0) x = x"
  by (simp_all add: uf_wf_def uf_root_def uf_find.simps)

end
