(* ===== verification/Clusters.thy ===== *)
theory Clusters
  imports Record_Types Union_Find "HOL-Library.AList" "HOL-Library.List_Lexorder" "HOL-Library.Char_ord" "HOL-Library.Product_Lexorder"
begin

section \<open>Co-change clusters (\<open>analysis/clusters.rs\<close>)\<close>

text \<open>
  Files that often change together form a cluster: the connected components of the pairs with a large enough count, found by union-find with ranks and
  path compression (theory \<open>Union_Find\<close>). The order in which a hash table lists its entries is a parameter; a panic is \<open>None\<close>.
\<close>

definition MIN_COCHANGE_COUNT :: u32 where "MIN_COCHANGE_COUNT = 5"

record Cluster =
  cl_id :: string
  cl_label :: string
  cl_members :: "string list"
  cl_cohesion :: f32
  cl_centroid :: string
  cl_size :: u32

record ClusterIndex =
  ci_clusters :: "Cluster list"
  ci_total :: u32
  ci_clustered_files :: u32
  ci_isolated_files :: u32

type_synonym co_change = "string \<times> string \<times> u32"

record hash_order =
  ho_nodes :: "string list \<Rightarrow> string list"
  ho_components :: "string list list \<Rightarrow> string list list"

subsection \<open>Nodes and groups\<close>

definition node_to_idx :: "string list \<Rightarrow> string \<Rightarrow> nat" where
  "node_to_idx nodes n = length (takeWhile (\<lambda>m. m \<noteq> n) nodes)"

definition union_all :: "string list \<Rightarrow> nat list \<times> nat list \<Rightarrow> co_change list \<Rightarrow> (nat list \<times> nat list) option" where
  "union_all nodes uf pairs = foldM (\<lambda>uf (a, b, n). uf_union uf (node_to_idx nodes a) (node_to_idx nodes b)) uf pairs"

text \<open>The nodes from index \<open>i\<close> on, grouped by their roots.\<close>

fun group_nodes :: "nat list \<Rightarrow> nat \<Rightarrow> string list \<Rightarrow> (nat \<times> string list) list \<Rightarrow> (nat \<times> string list) list option" where
  "group_nodes parent i [] components = Some components"
| "group_nodes parent i (n # nodes) components =
     Option.bind (uf_find parent i) (\<lambda>(parent1, r).
       group_nodes parent1 (i + 1) nodes (AList.map_default r [n] (\<lambda>ns. ns @ [n]) components))"

subsection \<open>Names\<close>

text \<open>\<open>Path::file_stem\<close>: the last normal component up to its last dot, unless that is its first character.\<close>

definition file_name :: "string \<Rightarrow> string option" where
  "file_name path =
     (let cs = filter (\<lambda>c. c \<noteq> [] \<and> c \<noteq> ''.'') (split_char (CHR ''/'') path)
      in if cs = [] \<or> last cs = ''..'' then None else Some (last cs))"

definition before_last_dot :: "string \<Rightarrow> string" where
  "before_last_dot name =
     (let stem = rev (drop 1 (dropWhile (\<lambda>c. c \<noteq> CHR ''.'') (rev name)))
      in if CHR ''.'' \<notin> set name \<or> stem = [] then name else stem)"

definition stem :: "string \<Rightarrow> string" where
  "stem path = (case file_name path of None \<Rightarrow> path | Some name \<Rightarrow> before_last_dot name)"

definition common_segments :: "string list list \<Rightarrow> nat" where
  "common_segments segments =
     (if segments = [] then 0
      else length (takeWhile (\<lambda>i. \<forall>s\<in>set segments. s ! i = hd segments ! i) [0..<Min (set (map length segments))]))"

definition compute_label :: "string list \<Rightarrow> string \<Rightarrow> string" where
  "compute_label members centroid =
     (if length members < 2 then stem centroid
      else let segments = map (split_char (CHR ''/'')) members; n = common_segments segments
           in if 2 \<le> n then hd segments ! (n - 1) else stem centroid)"

subsection \<open>Clusters of components\<close>

definition strong_pairs :: "co_change list \<Rightarrow> co_change list" where
  "strong_pairs pairs = filter (\<lambda>(a, b, n). MIN_COCHANGE_COUNT \<le> n) pairs"

definition pair_nodes :: "co_change list \<Rightarrow> string list" where
  "pair_nodes pairs = remdups (concat (map (\<lambda>(a, b, n). [a, b]) pairs))"

definition cluster_edges :: "co_change list \<Rightarrow> (string \<times> string) list" where
  "cluster_edges pairs = remdups (map (\<lambda>(a, b, n). (a, b)) pairs)"

definition intra :: "(string \<times> string) list \<Rightarrow> string list \<Rightarrow> (string \<times> string) list" where
  "intra edges members = filter (\<lambda>(a, b). a \<in> set members \<and> b \<in> set members) edges"

definition degree :: "(string \<times> string) list \<Rightarrow> string \<Rightarrow> u32" where
  "degree edges m = word_of_nat (length (filter (\<lambda>(a, b). a = m) edges) + length (filter (\<lambda>(a, b). b = m) edges))"

text \<open>\<open>max_by_key\<close>: the last of the largest.\<close>

fun max_from :: "('a \<Rightarrow> 'b :: linorder) \<Rightarrow> 'a \<Rightarrow> 'a list \<Rightarrow> 'a" where
  "max_from k best [] = best"
| "max_from k best (x # xs) = max_from k (if k best \<le> k x then x else best) xs"

definition cohesion :: "u32 \<Rightarrow> nat \<Rightarrow> f32" where
  "cohesion edges n =
     (let max_edges = f32_of_nat (n * (n - 1) div 2)
      in if flt_lt (r32 0) max_edges then f32_div (f32_of_nat (unat edges)) max_edges else r32 0)"

definition build_cluster :: "(string \<times> string) list \<Rightarrow> string list \<Rightarrow> Cluster" where
  "build_cluster edges component =
     (let members = sort component; inner = intra edges members; centroid = max_from (degree inner) (hd members) (tl members)
      in \<lparr> cl_id = stem centroid, cl_label = compute_label members centroid, cl_members = members,
           cl_cohesion = cohesion (word_of_nat (length inner)) (length members), cl_centroid = centroid, cl_size = word_of_nat (length members) \<rparr>)"

text \<open>Of the clusters with the same label, all but the first get a suffix.\<close>

fun disambiguate :: "(string \<Rightarrow> nat) \<Rightarrow> string list \<Rightarrow> Cluster list \<Rightarrow> Cluster list" where
  "disambiguate counts seen [] = []"
| "disambiguate counts seen (c # cs) =
     (if 1 < counts (cl_label c)
      then (if cl_label c \<in> set seen then c\<lparr>cl_label := cl_label c @ '' ('' @ stem (cl_centroid c) @ '')''\<rparr> else c)
           # disambiguate counts (cl_label c # seen) cs
      else c # disambiguate counts seen cs)"

definition index_of :: "nat \<Rightarrow> Cluster list \<Rightarrow> ClusterIndex" where
  "index_of total_files built =
     (let sorted = sort_key (\<lambda>c. (- uint (cl_size c), cl_label c)) built;
          clusters = disambiguate (\<lambda>l. length (filter (\<lambda>c. cl_label c = l) sorted)) [] sorted;
          clustered = sum_list (map cl_size clusters)
      in \<lparr> ci_clusters = clusters, ci_total = word_of_nat (length clusters), ci_clustered_files = clustered,
           ci_isolated_files = word_of_nat (total_files - unat clustered) \<rparr>)"

definition compute_clusters :: "hash_order \<Rightarrow> co_change list \<Rightarrow> nat \<Rightarrow> ClusterIndex option" where
  "compute_clusters ho pairs total_files =
     (let strong = strong_pairs pairs
      in if strong = [] then Some \<lparr> ci_clusters = [], ci_total = 0, ci_clustered_files = 0, ci_isolated_files = word_of_nat total_files \<rparr>
         else let nodes = ho_nodes ho (pair_nodes strong)
              in Option.bind (union_all nodes ([0..<length nodes], replicate (length nodes) 0) strong) (\<lambda>(parent, rank).
                 Option.bind (group_nodes parent 0 nodes []) (\<lambda>components.
                   Some (index_of total_files
                     (map (build_cluster (cluster_edges strong)) (filter (\<lambda>ns. 2 \<le> length ns) (ho_components ho (map snd components))))))))"

definition cluster_for :: "ClusterIndex \<Rightarrow> string \<Rightarrow> Cluster option" where
  "cluster_for idx path = find (\<lambda>c. path \<in> set (cl_members c)) (ci_clusters idx)"

end
