(* ===== verification/Dispatch.thy ===== *)
theory Dispatch
  imports Agent_Reads Clusters
begin

section \<open>Dispatch of the daemon's commands (\<open>mcp/dispatch_v2.rs\<close>)\<close>

text \<open>
  What the daemon does with a decoded request: the version and session fences, the classification, and the native
  handlers of the session side, of the configuration and of the reads. The pure reads that the model does not spell out are a field of
  \<open>other_handlers\<close>, beside what the daemon sees of its graph. The metrics of a request are not modelled.
\<close>

subsection \<open>Session-side audit\<close>

definition write_session_audit ::
  "('t, 'x, 'v, 'j) store_api \<Rightarrow> ('v, 'j, 's) daemon_api \<Rightarrow> daemon_env \<Rightarrow> AuditEntry \<Rightarrow> ('t, 'x) Store \<Rightarrow> ('t, 'x) Store" where
  "write_session_audit A B env entry S =
     (case dm_audit B entry of
        None \<Rightarrow> S
      | Some bytes \<Rightarrow> fst (put_raw A S (audit_nanos_key env ''session audit'' AUDIT_SESSION_PREFIX) bytes))"

text \<open>A refused session command: a rejection entry, then the error.\<close>

definition session_reject ::
  "('t, 'x, 'v, 'j) store_api \<Rightarrow> ('v, 'j, 's) daemon_api \<Rightarrow> daemon_env \<Rightarrow> RequestContext \<Rightarrow> 'j Request \<Rightarrow> ('t, 'x) Audit \<Rightarrow> store_error
   \<Rightarrow> ('t, 'x) Audit \<times> 'j Response" where
  "session_reject A B env ctx req a e =
     (a\<lparr>a_store := write_session_audit A B env (build_audit_entry ctx (st_now (dv_ck env ''rejected'')) (req_id req)
          (command_kind (req_cmd req)) (target_key (req_cmd req)) False (Some StoreError)) (a_store a)\<rparr>,
      RespErr (req_id req) StoreError (error_text e))"

text \<open>
  The staged writes of a session command and its accepted audit entry in one transaction. The audit is required: without its
  bytes nothing is written.
\<close>

definition session_commit ::
  "('t, 'x, 'v, 'j) store_api \<Rightarrow> ('v, 'j, 's) daemon_api \<Rightarrow> daemon_env \<Rightarrow> RequestContext \<Rightarrow> 'j Request \<Rightarrow> ('t, 'x) Audit
   \<Rightarrow> (string \<times> 'v) list \<Rightarrow> (('t, 'x) Audit \<Rightarrow> ('t, 'x) Audit) \<Rightarrow> ('t, 'x) Audit \<times> 'j Response" where
  "session_commit A B env ctx req a writes after =
     (case dm_audit B (build_audit_entry ctx (st_now (dv_ck env ''accepted'')) (req_id req)
             (command_kind (req_cmd req)) (target_key (req_cmd req)) True None) of
        None \<Rightarrow> (a, RespErr (req_id req) Internal ''audit serialization failed'')
      | Some audit_bytes \<Rightarrow>
          (case transact_sessions_raw A (a_store a) (writes @ [(audit_nanos_key env ''accepted'' AUDIT_SESSION_PREFIX, audit_bytes)]) of
             (S1, Inl e) \<Rightarrow> session_reject A B env ctx req (a\<lparr>a_store := S1\<rparr>) e
           | (S1, Inr _) \<Rightarrow> (after (a\<lparr>a_store := S1\<rparr>), RespOk (req_id req) (j_null (dm_json B)))))"

subsection \<open>Session commands\<close>

fun agg_prefix :: "SessionEvent \<Rightarrow> string" where
  "agg_prefix SE_Miss = ''analytics:miss_''"
| "agg_prefix SE_ComplianceMiss = ''compliance:miss_''"
| "agg_prefix SE_ComplianceHit = ''compliance:allow_after_receipt_''"
| "agg_prefix SE_CodexShellMiss = ''compliance:codex_shell_miss_''"
| "agg_prefix SE_Bootstrap = ''analytics:bootstrap_''"
| "agg_prefix SE_PromptNudge = ''analytics:codex_prompt_nudge_''"
| "agg_prefix SE_EditConsulted = ''compliance:allow_after_receipt_''"
| "agg_prefix SE_EditBlocked = ''compliance:miss_''"
| "agg_prefix SE_FloorConsultMiss = ''compliance:miss_''"

definition file_request :: "EnforcementEventType \<Rightarrow> string \<Rightarrow> string \<Rightarrow> string \<Rightarrow> event_request" where
  "file_request ty key agent reason =
     \<lparr> rq_event_type = ty, rq_subject_kind = SubjectFile, rq_subject_key = key, rq_agent_type = agent,
       rq_receipt_id = None, rq_reason_code = reason, rq_basis_hash = None \<rparr>"

text \<open>The enforcement event of a session event, with the session it is attributed to.\<close>

definition session_event_request :: "SessionEvent \<Rightarrow> string \<Rightarrow> string option \<Rightarrow> (event_request \<times> string option) option" where
  "session_event_request ev key session_id =
     (case ev of
        SE_ComplianceMiss \<Rightarrow> Some (file_request DenyEvent key ''claude'' ''gotcha_above_threshold'', session_id)
      | SE_ComplianceHit \<Rightarrow> Some (file_request AllowAfterReceipt key ''claude'' ''receipt_valid'', session_id)
      | SE_CodexShellMiss \<Rightarrow> Some (file_request BypassDetected key ''codex'' ''codex_shell_pre_consult_miss'', None)
      | SE_EditConsulted \<Rightarrow> Some (file_request AllowAfterReceipt key ''claude'' ''edit_after_receipt'', session_id)
      | SE_EditBlocked \<Rightarrow> Some (file_request DenyEvent key ''claude'' ''edit_blocked_unconsulted'', session_id)
      | SE_FloorConsultMiss \<Rightarrow> Some (file_request DenyEvent key ''claude'' ''floor_consult_required'', session_id)
      | _ \<Rightarrow> None)"

definition log_session_event ::
  "('t, 'x, 'v, 'j) store_api \<Rightarrow> ('v, 'j, 's) daemon_api \<Rightarrow> daemon_env \<Rightarrow> SessionEvent \<Rightarrow> string \<Rightarrow> string option
   \<Rightarrow> ('t, 'x) Audit \<Rightarrow> ('t, 'x) Audit" where
  "log_session_event A B env ev key session_id a =
     (case session_event_request ev key session_id of
        None \<Rightarrow> a
      | Some (rq, session) \<Rightarrow> record_logged A B env a rq session)"

definition consultation_recorded ::
  "('t, 'x, 'v, 'j) store_api \<Rightarrow> ('v, 'j, 's) daemon_api \<Rightarrow> daemon_env \<Rightarrow> string \<Rightarrow> string option \<Rightarrow> ('t, 'x) Audit \<Rightarrow> ('t, 'x) Audit" where
  "consultation_recorded A B env key session a =
     record_logged A B env (a\<lparr>a_store := bump_access A (st_now (dv_ck env ''access'')) key (a_store a)\<rparr>)
       (file_request ReceiptMinted key ''claude'' ''consultation_requested'') session"

definition dispatch_session_side ::
  "('t, 'x, 'v, 'j) store_api \<Rightarrow> ('v, 'j, 's) daemon_api \<Rightarrow> daemon_env \<Rightarrow> RequestContext \<Rightarrow> 'j Request \<Rightarrow> ('t, 'x) Audit
   \<Rightarrow> ('t, 'x) Audit \<times> 'j Response" where
  "dispatch_session_side A B env ctx req a =
     (let D = sa_agg (dm_session B); J = dm_json B; ck = dv_ck env; S = a_store a
      in case req_cmd req of
           SessionLog ev key session_id \<Rightarrow>
             (case upsert_daily_agg_staged A D (ck ''agg'') S (today_key (dv_session env) (agg_prefix ev)) key of
                Inl e \<Rightarrow> session_reject A B env ctx req a e
              | Inr agg \<Rightarrow> session_commit A B env ctx req a [agg] (log_session_event A B env ev key session_id))
         | ConsultationHit key actor session_id agent_id \<Rightarrow>
             (case upsert_daily_agg_staged A D (ck ''agg'') S (today_key (dv_session env) ''analytics:hit_'') key of
                Inl e \<Rightarrow> session_reject A B env ctx req a e
              | Inr agg \<Rightarrow>
                  (case consultation_receipt_staged A (ck ''receipt'') key actor of
                     Inl e \<Rightarrow> session_reject A B env ctx req a e
                   | Inr receipt \<Rightarrow>
                       session_commit A B env ctx req a [agg, receipt]
                         (consultation_recorded A B env key (case session_id of Some s \<Rightarrow> Some s | None \<Rightarrow> agent_id))))
         | SessionFlush \<Rightarrow>
             (case session_flush_staged A J (dv_session env) S of
                Inl e \<Rightarrow> session_reject A B env ctx req a e
              | Inr flush \<Rightarrow> session_commit A B env ctx req a [flush] (\<lambda>a1. a1))
         | SessionHarvest \<Rightarrow>
             (case session_harvest_no_staleness A (dm_session B) (dv_session env) S of
                (S1, res) \<Rightarrow>
                  (let accepted = (case res of Inr _ \<Rightarrow> True | Inl _ \<Rightarrow> False);
                       entry = build_audit_entry ctx (st_now (ck ''harvest audit'')) (req_id req) (command_kind (req_cmd req))
                                 (target_key (req_cmd req)) accepted (if accepted then None else Some StoreError)
                   in (a\<lparr>a_store := write_session_audit A B env entry S1\<rparr>,
                       (case res of
                          Inr _ \<Rightarrow> RespOk (req_id req) (j_null J)
                        | Inl e \<Rightarrow> RespErr (req_id req) StoreError (error_text e)))))
         | SessionClearConsults \<Rightarrow>
             (case session_clear_consults A S of
                (S1, Inr _) \<Rightarrow> (a\<lparr>a_store := S1\<rparr>, RespOk (req_id req) (j_null J))
              | (S1, Inl e) \<Rightarrow> (a\<lparr>a_store := S1\<rparr>, RespErr (req_id req) StoreError (error_text e)))
         | _ \<Rightarrow> (a, RespErr (req_id req) Internal ''unreachable''))"

subsection \<open>Configuration\<close>

definition config_error :: "'j Request \<Rightarrow> string \<Rightarrow> 'j Response" where
  "config_error req msg = RespErr (req_id req) ValidationFailed msg"

definition unknown_key :: "string \<Rightarrow> string" where
  "unknown_key k = ''unknown config key: '' @ k @ ''; valid keys: audit.write_durability, enforcement.retention''"

definition sandbox_request :: "string \<Rightarrow> string \<Rightarrow> string \<Rightarrow> event_request" where
  "sandbox_request sname val reason =
     \<lparr> rq_event_type = EnforcementConfigChanged sname [] val, rq_subject_kind = SubjectConfig, rq_subject_key = sname,
       rq_agent_type = ''cli'', rq_receipt_id = None, rq_reason_code = reason, rq_basis_hash = None \<rparr>"

definition dispatch_config ::
  "('t, 'x, 'v, 'j) store_api \<Rightarrow> ('v, 'j, 's) daemon_api \<Rightarrow> daemon_env \<Rightarrow> 'j Request \<Rightarrow> ('t, 'x) Audit \<Rightarrow> ('t, 'x) Audit \<times> 'j Response" where
  "dispatch_config A B env req a =
     (let J = dm_json B
      in case req_cmd req of
           ConfigGet key \<Rightarrow>
             (a, if key = ''audit.write_durability'' then RespOk (req_id req) (j_string J (user_label (get_enforcement_mode A (a_store a))))
                 else if key = ''enforcement.retention'' then RespOk (req_id req) (j_string J (show_u64 (get_retention_days A (a_store a))))
                 else config_error req (unknown_key key))
         | ConfigSet key val \<Rightarrow>
             (if key = ''audit.write_durability''
              then (if val \<noteq> ''best_effort'' \<and> val \<noteq> ''strict''
                    then (a, config_error req (''invalid audit.write_durability: '' @ val @ ''; valid values: best_effort, strict''))
                    else case set_enforcement_mode A (sa_hash (dm_session B)) (sa_event (dm_session B)) (se_audit (dv_session env)) a
                                (if val = ''strict'' then Strict else Advisory) of
                           (a1, Inr old) \<Rightarrow> (a1, RespOk (req_id req) (j_object J [(''old'', j_string J (user_label old))]))
                         | (a1, Inl e) \<Rightarrow> (a1, RespErr (req_id req) StoreError (error_text e)))
              else if key = ''enforcement.retention''
              then (case parse_u64 val of
                      None \<Rightarrow> (a, config_error req (''invalid retention value: '' @ val @ '' (expected integer days)''))
                    | Some days \<Rightarrow>
                        (if days = 0 then (a, config_error req ''retention must be at least 1 day'')
                         else case set_retention_days A (a_store a) days of
                                (S1, Inr _) \<Rightarrow> (a\<lparr>a_store := S1\<rparr>, RespOk (req_id req) (j_null J))
                              | (S1, Inl e) \<Rightarrow> (a\<lparr>a_store := S1\<rparr>, RespErr (req_id req) StoreError (error_text e))))
              else (a, config_error req (unknown_key key)))
         | SandboxAudit sname val reason \<Rightarrow>
             (record_logged A B env a (sandbox_request sname val reason) None, RespOk (req_id req) (j_null J))
         | _ \<Rightarrow> (a, RespErr (req_id req) Internal ''unreachable''))"

subsection \<open>Classification\<close>

definition is_side_effecting_read :: "'j Command \<Rightarrow> bool" where
  "is_side_effecting_read cmd = (case cmd of MemGet _ \<Rightarrow> True | MemBootstrap _ \<Rightarrow> True | _ \<Rightarrow> False)"

definition is_mem_query :: "'j Command \<Rightarrow> bool" where
  "is_mem_query cmd = (case cmd of MemQuery _ _ _ \<Rightarrow> True | _ \<Rightarrow> False)"

definition is_session_side :: "'j Command \<Rightarrow> bool" where
  "is_session_side cmd =
     (case cmd of
        SessionLog _ _ _ \<Rightarrow> True | ConsultationHit _ _ _ _ \<Rightarrow> True | SessionFlush \<Rightarrow> True | SessionHarvest \<Rightarrow> True
      | SessionClearConsults \<Rightarrow> True | _ \<Rightarrow> False)"

definition is_knowledge_mutation :: "'j Command \<Rightarrow> bool" where
  "is_knowledge_mutation cmd =
     (case cmd of
        GotchaUpsert _ \<Rightarrow> True | GotchaConfirm _ \<Rightarrow> True | GotchaTombstone _ \<Rightarrow> True | FileEnrich _ \<Rightarrow> True | FileReparse _ \<Rightarrow> True
      | DocCapture _ \<Rightarrow> True | DecisionUpsert _ \<Rightarrow> True | DevNoteUpsert _ \<Rightarrow> True | RecordImport _ \<Rightarrow> True | _ \<Rightarrow> False)"

definition is_compound :: "'j Command \<Rightarrow> bool" where
  "is_compound cmd = (case cmd of FileEditHook _ \<Rightarrow> True | _ \<Rightarrow> False)"

definition is_config_command :: "'j Command \<Rightarrow> bool" where
  "is_config_command cmd = (case cmd of ConfigGet _ \<Rightarrow> True | ConfigSet _ _ \<Rightarrow> True | SandboxAudit _ _ _ \<Rightarrow> True | _ \<Rightarrow> False)"

subsection \<open>Reading a record with a receipt (\<open>handle_mem_get\<close>, \<open>mcp/tools.rs\<close>)\<close>

definition cluster_size ::
  "('t, 'x, 'v, 'j) store_api \<Rightarrow> ('j, ClusterIndex) serde \<Rightarrow> ('t, 'x) Store \<Rightarrow> string \<Rightarrow> u32" where
  "cluster_size A C S key =
     (let path = unwrap_or (strip_prefix key ''file:'') key
      in case store_get A S ''cluster:index'' of
           Inr (Some r) \<Rightarrow>
             (case payload_as (from_value C) r of
                Some idx \<Rightarrow> (case cluster_for idx path of Some c \<Rightarrow> cl_size c | None \<Rightarrow> 0)
              | None \<Rightarrow> 0)
         | _ \<Rightarrow> 0)"

definition impact_warning :: "BlastRadius \<Rightarrow> string" where
  "impact_warning br = ''HIGH IMPACT FILE: '' @ show_u32 (b_direct br) @ '' files directly depend on this. Modify with extra care.''"

definition agent_response ::
  "('t, 'x, 'v, 'j) store_api \<Rightarrow> ('v, 'j, 's) daemon_api \<Rightarrow> ('j, ClusterIndex) serde \<Rightarrow> ('t, 'x) Store \<Rightarrow> string \<Rightarrow> 'j Record \<Rightarrow> 'j" where
  "agent_response A B C S key r =
     (let J = dm_json B; j = record_to_agent_json J r
      in if r_category r \<noteq> File then j
         else case payload_as (from_value (sa_file (dm_session B))) r of
                None \<Rightarrow> j
              | Some fr \<Rightarrow>
                  (let j1 = (case f_blast_radius fr of
                               Some br \<Rightarrow> if b_tier br = BlastHigh \<or> b_tier br = BlastCritical
                                          then j_insert J j ''warnings'' (j_array J [j_string J (impact_warning br)]) else j
                             | None \<Rightarrow> j);
                       tier = (case f_blast_radius fr of Some br \<Rightarrow> b_tier br | None \<Rightarrow> Isolated);
                       depth = enrichment_depth (f_line_count fr) tier (cluster_size A C S key) (length (f_gotcha_keys fr)) None
                   in j_insert J j1 ''enrichment_depth_hint'' (j_string J (depth_as_str depth))))"

text \<open>The deferred write of the access counter and of the daily counter runs after the answer was sent.\<close>

definition mem_get_deferred ::
  "('t, 'x, 'v, 'j) store_api \<Rightarrow> ('v, 'j, 's) daemon_api \<Rightarrow> daemon_env \<Rightarrow> string \<Rightarrow> 'j Record \<Rightarrow> ('t, 'x) Store \<Rightarrow> ('t, 'x) Store" where
  "mem_get_deferred A B env key r S =
     fst (upsert_daily_agg A (sa_agg (dm_session B)) (dv_ck env ''agg'') (fst (store_put A S key (r\<lparr>r_access_count := r_access_count r + 1\<rparr>)))
       (today_key (dv_session env) ''analytics:hit_'') key)"

text \<open>A transaction that fails is only logged: the answer is given without a receipt.\<close>

definition handle_mem_get ::
  "('t, 'x, 'v, 'j) store_api \<Rightarrow> ('v, 'j, 's) daemon_api \<Rightarrow> ('j, ClusterIndex) serde \<Rightarrow> daemon_env \<Rightarrow> RequestContext \<Rightarrow> uuid \<Rightarrow> string
   \<Rightarrow> ('t, 'x) Audit \<Rightarrow> (('t, 'x) Audit, 'j) handled" where
  "handle_mem_get A B C env ctx request_id key a =
     (let S = a_store a; J = dm_json B;
          accepted = make_session_audit B env ctx ''accepted'' request_id ''mem_get'' key True None
      in if key = [] then (a, Err (ValidationFailed, ''key must not be empty''))
         else case store_get A S key of
                Inl e \<Rightarrow> (a, Err (StoreError, ''store read: '' @ error_text e))
              | Inr found \<Rightarrow>
                  (let r = (case found of Some r \<Rightarrow> if is_tombstoned r then None else Some r | None \<Rightarrow> None);
                       response = (case r of Some r1 \<Rightarrow> agent_response A B C S key r1 | None \<Rightarrow> j_null J)
                   in case consultation_receipt_staged A (dv_ck env ''receipt'') key None of
                        Inl _ \<Rightarrow>
                          (a\<lparr>a_store := (case accepted of Some kv \<Rightarrow> fst (transact_sessions_raw A S [kv]) | None \<Rightarrow> S)\<rparr>, Ok response)
                      | Inr receipt \<Rightarrow>
                          (case accepted of
                             None \<Rightarrow> (a, Err audit_missing)
                           | Some kv \<Rightarrow>
                               (let S1 = fst (transact_sessions_raw A S [receipt, kv]);
                                    a2 = record_logged A B env (a\<lparr>a_store := S1\<rparr>) (file_request ReceiptMinted key ''claude'' ''consultation_requested'') None
                                in (case r of
                                      Some r1 \<Rightarrow> (a2\<lparr>a_store := mem_get_deferred A B env key r1 (a_store a2)\<rparr>, Ok response)
                                    | None \<Rightarrow> (a2, Ok response))))))"

subsection \<open>The compound command of the edit hook\<close>

text \<open>The graph in memory, and the pure reads that are not spelled out here.\<close>

record ('t, 'x, 'j) other_handlers =
  oh_view :: graph_view
  oh_read :: "'j Command \<Rightarrow> ('t, 'x) Store \<Rightarrow> (string, 'j) result"

definition dispatch_file_edit_hook ::
  "('t, 'x, 'v, 'j) store_api \<Rightarrow> ('v, 'j, 's) daemon_api \<Rightarrow> daemon_env \<Rightarrow> RequestContext \<Rightarrow> uuid \<Rightarrow> string
   \<Rightarrow> ('t, 'x) Audit \<Rightarrow> ('t, 'x) Audit \<times> 'j Response" where
  "dispatch_file_edit_hook A B env ctx request_id path a =
     (let S = a_store a; key = file_key path; opt = (\<lambda>m. case m of Inr kv \<Rightarrow> [kv] | Inl _ \<Rightarrow> []);
          writes = opt (upsert_daily_agg_staged A (sa_agg (dm_session B)) (dv_ck env ''agg'') S (today_key (dv_session env) ''analytics:hit_'') key)
            @ opt (consultation_receipt_staged A (dv_ck env ''receipt'') key None)
            @ (case dm_audit B (build_audit_entry ctx (st_now (dv_ck env ''accepted'')) request_id ''file_edit_hook:consultation'' key True None) of
                 Some v \<Rightarrow> [(audit_nanos_key env ''accepted'' AUDIT_SESSION_PREFIX, v)] | None \<Rightarrow> []);
          S1 = fst (transact_sessions_raw A S writes);
          S2 = bump_access A (st_now (dv_ck env ''access'')) key S1
      in (fst (handle_file_reparse A B env ctx request_id path (a\<lparr>a_store := S2\<rparr>)), RespOk request_id (j_null (dm_json B))))"

subsection \<open>Knowledge-side mutations\<close>

definition run_mutation ::
  "('t, 'x, 'v, 'j) store_api \<Rightarrow> ('v, 'j, 's) daemon_api \<Rightarrow> daemon_env \<Rightarrow> RequestContext \<Rightarrow> uuid
   \<Rightarrow> 'j Command \<Rightarrow> ('t, 'x) Audit \<Rightarrow> (('t, 'x) Audit, 'j) handled" where
  "run_mutation A B env ctx request_id cmd a =
     (case cmd of
        GotchaUpsert input \<Rightarrow> handle_gotcha_upsert A B env ctx request_id input a
      | GotchaConfirm key \<Rightarrow> handle_gotcha_confirm A B env ctx request_id key a
      | GotchaTombstone key \<Rightarrow> handle_gotcha_tombstone A B env ctx request_id key a
      | FileEnrich input \<Rightarrow> handle_file_enrich A B env ctx request_id input a
      | FileReparse path \<Rightarrow> handle_file_reparse A B env ctx request_id path a
      | DocCapture path \<Rightarrow> handle_doc_capture A B env ctx request_id path a
      | DecisionUpsert input \<Rightarrow> handle_decision_upsert A B env ctx request_id input a
      | DevNoteUpsert input \<Rightarrow> handle_dev_note_upsert A B env ctx request_id input a
      | RecordImport records \<Rightarrow> handle_record_import A B env ctx request_id records a
      | _ \<Rightarrow> (a, Err (Internal, ''unreachable'')))"

definition dispatch_knowledge_mutation ::
  "('t, 'x, 'v, 'j) store_api \<Rightarrow> ('v, 'j, 's) daemon_api \<Rightarrow> daemon_env \<Rightarrow> RequestContext \<Rightarrow> 'j Request
   \<Rightarrow> ('t, 'x) Audit \<Rightarrow> ('t, 'x) Audit \<times> 'j Response" where
  "dispatch_knowledge_mutation A B env ctx req a =
     (case run_mutation A B env ctx (req_id req) (req_cmd req) a of
        (a1, Inr data) \<Rightarrow> (a1, RespOk (req_id req) data)
      | (a1, Inl (code, msg)) \<Rightarrow>
          ((case make_audit B env ctx ''rejected'' (req_id req) (command_kind (req_cmd req)) (target_key (req_cmd req)) False (Some code) of
              Some (k, v) \<Rightarrow> a1\<lparr>a_store := fst (put_raw A (a_store a1) k v)\<rparr>
            | None \<Rightarrow> a1),
           RespErr (req_id req) code msg))"

definition dispatch_side_effecting_read ::
  "('t, 'x, 'v, 'j) store_api \<Rightarrow> ('v, 'j, 's) daemon_api \<Rightarrow> ('j, ClusterIndex) serde \<Rightarrow> ('t, 'x, 'j) other_handlers \<Rightarrow> daemon_env
   \<Rightarrow> RequestContext \<Rightarrow> 'j Request \<Rightarrow> ('t, 'x) Audit \<Rightarrow> ('t, 'x) Audit \<times> 'j Response" where
  "dispatch_side_effecting_read A B C H env ctx req a =
     (case req_cmd req of
        MemGet key \<Rightarrow>
          (case handle_mem_get A B C env ctx (req_id req) key a of
             (a1, Inr data) \<Rightarrow> (a1, RespOk (req_id req) data)
           | (a1, Inl (code, msg)) \<Rightarrow>
               (a1\<lparr>a_store := write_session_audit A B env (build_audit_entry ctx (st_now (dv_ck env ''rejected'')) (req_id req)
                    ''mem_get'' key False (Some code)) (a_store a1)\<rparr>, RespErr (req_id req) code msg))
      | MemBootstrap files \<Rightarrow>
          (case handle_mem_bootstrap A B (oh_view H) env ctx (req_id req) files a of
             (a1, Inr injection) \<Rightarrow> (a1, RespOk (req_id req) (j_string (dm_json B) injection))
           | (a1, Inl (code, msg)) \<Rightarrow> (a1, RespErr (req_id req) code msg))
      | _ \<Rightarrow> (a, RespErr (req_id req) Internal ''unreachable''))"

definition classify_v1_error :: "string \<Rightarrow> ErrorCode" where
  "classify_v1_error message =
     (if contains_str message ''not found'' then EC_NotFound
      else if contains_str message ''already exists'' then Conflict
      else if contains_str message ''tombstoned'' \<or> contains_str message ''cannot confirm'' then InvalidStateTransition
      else if contains_str message ''store'' then StoreError
      else Internal)"

subsection \<open>The entry point\<close>

definition best_effort_audit ::
  "('t, 'x, 'v, 'j) store_api \<Rightarrow> ('v, 'j, 's) daemon_api \<Rightarrow> daemon_env \<Rightarrow> RequestContext \<Rightarrow> 'j Request \<Rightarrow> ErrorCode \<Rightarrow> ('t, 'x) Audit \<Rightarrow> ('t, 'x) Audit" where
  "best_effort_audit A B env ctx req code a =
     a\<lparr>a_store := write_session_audit A B env (build_audit_entry ctx (st_now (dv_ck env ''rejected'')) (req_id req)
        (command_kind (req_cmd req)) (target_key (req_cmd req)) False (Some code)) (a_store a)\<rparr>"

definition fence_response ::
  "('t, 'x, 'v, 'j) store_api \<Rightarrow> ('v, 'j, 's) daemon_api \<Rightarrow> daemon_env \<Rightarrow> RequestContext \<Rightarrow> 'j Request \<Rightarrow> ErrorCode \<Rightarrow> string \<Rightarrow> ('t, 'x) Audit
   \<Rightarrow> ('t, 'x) Audit \<times> 'j Response" where
  "fence_response A B env ctx req code msg a =
     ((if is_mutation (req_cmd req) then best_effort_audit A B env ctx req code a else a), RespErr (req_id req) code msg)"

text \<open>\<open>show_uuid\<close> is the printed form of a UUID.\<close>

definition dispatch_v2 ::
  "('t, 'x, 'v, 'j) store_api \<Rightarrow> ('v, 'j, 's) daemon_api \<Rightarrow> ('j, ClusterIndex) serde \<Rightarrow> ('t, 'x, 'j) other_handlers \<Rightarrow> (uuid \<Rightarrow> string)
   \<Rightarrow> daemon_env \<Rightarrow> RequestContext \<Rightarrow> 'j Request \<Rightarrow> ('t, 'x) Audit \<Rightarrow> ('t, 'x) Audit \<times> 'j Response" where
  "dispatch_v2 A B C H show_uuid env ctx req a =
     (if req_v req \<noteq> PROTOCOL_VERSION
      then fence_response A B env ctx req VersionMismatch (''protocol version mismatch: client='' @ show_nat (unat (req_v req)) @ '' server=''
             @ show_nat (unat PROTOCOL_VERSION)) a
      else if req_session req \<noteq> rc_daemon_session ctx
      then fence_response A B env ctx req SessionMismatch (''session mismatch: request='' @ show_uuid (req_session req) @ '' daemon=''
             @ show_uuid (rc_daemon_session ctx) @ ''; re-read daemon metadata and retry'') a
      else if is_side_effecting_read (req_cmd req) then dispatch_side_effecting_read A B C H env ctx req a
      else case req_cmd req of
             MemQuery q mode limit \<Rightarrow>
               (a, case handle_mem_query A B (oh_view H) (a_store a) q mode limit of
                     Inr data \<Rightarrow> RespOk (req_id req) data | Inl (code, msg) \<Rightarrow> RespErr (req_id req) code msg)
           | cmd \<Rightarrow>
               (if is_session_side cmd then dispatch_session_side A B env ctx req a
                else if is_knowledge_mutation cmd then dispatch_knowledge_mutation A B env ctx req a
                else case cmd of
                       FileEditHook path \<Rightarrow> dispatch_file_edit_hook A B env ctx (req_id req) path a
                     | _ \<Rightarrow>
                         (if is_config_command cmd then dispatch_config A B env req a
                          else (a, case oh_read H cmd (a_store a) of
                                     Inr data \<Rightarrow> RespOk (req_id req) data
                                   | Inl msg \<Rightarrow> RespErr (req_id req) (classify_v1_error msg) msg))))"

end
