(* ===== verification/Dispatch_Spec.thy ===== *)
theory Dispatch_Spec
  imports Dispatch Session_Thms Hook_Spec
begin

section \<open>Properties of the session side and of the fences\<close>

text \<open>
  A request from a stale client reaches no handler; a consultation is recorded with its audit entry or not at all; the retry loop of
  the mutation handlers is bounded; what the enforcement log says about a denial of the hook.
\<close>

declare starts_with_Cons [simp del]

definition audit_session_keys :: "string set" where
  "audit_session_keys = {k. starts_with k ''audit:session:''}"

lemma audit_session_key [simp]: "audit_nanos_key env site AUDIT_SESSION_PREFIX \<in> audit_session_keys"
  by (simp add: audit_nanos_key_def AUDIT_SESSION_PREFIX_def audit_session_keys_def starts_with_def)

lemma receipt_not_audit [simp]: "receipt_key key actor \<notin> audit_session_keys"
  by (simp add: receipt_key_def audit_session_keys_def starts_with_def split: option.split)

lemma receipt_not_log [simp]: "receipt_key key actor \<notin> log_keys"
  using log_ns receipt_key_in by blast

lemma audit_not_log [simp]: "k \<in> audit_session_keys \<Longrightarrow> k \<notin> log_keys"
  by (auto simp: audit_session_keys_def log_keys_def starts_with_iff INSTALLATION_ID_KEY_def)

lemma receipt_key_longer [simp]: "receipt_key key actor \<noteq> key"
proof
  assume "receipt_key key actor = key"
  then have "length (receipt_key key actor) = length key" by simp
  then show False by (simp add: receipt_key_def split: option.splits)
qed

lemma eventual_keys [simp]:
  "for_key (receipt_key key actor) = Eventual" "k \<in> audit_session_keys \<Longrightarrow> for_key k = Eventual"
  "for_key (today_key env (agg_prefix ev)) = Eventual" "for_key (today_key env ''analytics:hit_'') = Eventual"
  "for_key ''session:current'' = Eventual"
  by (simp_all add: for_key_def receipt_key_def today_key_def audit_session_keys_def starts_with_def split: option.split)
     (cases ev; simp)

context live_store
begin

lemma session_audit_changes: "changes audit_session_keys S (write_session_audit A B env entry S)"
  by (auto simp: write_session_audit_def intro: changes_mono [OF put_raw_changes] split: option.split)

lemma logged_changes: "changes log_keys (a_store a) (a_store (record_logged A B env a rq session))"
  by (simp add: record_logged_def record_event_session_log)

lemma bump_access_changes: "changes {key} S (bump_access A now key S)"
  by (auto simp: bump_access_def put_changes split: sum.split option.split)

lemma transact_sessions_ok:
  assumes "transact_sessions_raw A S ws = (S', Inr u)"
  shows "content S' = apply_ops (map (\<lambda>kv. (fst kv, Some (snd kv))) ws) (content S)"
proof (cases "ws = []")
  case False
  then have "find (\<lambda>kv. for_key (fst kv) \<noteq> Eventual) ws = None" using assms by (auto simp: transact_sessions_raw_def split: option.splits)
  moreover from this have "\<forall>kv\<in>set ws. for_key (fst kv) = Eventual" by (auto simp: find_None_iff)
  ultimately show ?thesis
    using commit_on_ok [of S Eventual "map (\<lambda>kv. (fst kv, Some (snd kv))) ws" S' u] assms False by (auto simp: transact_sessions_raw_def)
qed (use assms in \<open>simp add: transact_sessions_raw_def\<close>)

lemma changes_same: "changes K S S' \<Longrightarrow> content S' = content S \<Longrightarrow> changes {} S S'"
  by (simp add: changes_def)

lemma changes_content: "changes K S S' \<Longrightarrow> k \<notin> K \<Longrightarrow> content S' k = content S k"
  by (simp add: changes_def)

lemma transact_sessions_changes:
  assumes "transact_sessions_raw A S ws = (S', res)"
  shows "changes (fst ` set ws) S S'" and "res = Inl e \<Longrightarrow> changes {} S S'"
proof -
  show c: "changes (fst ` set ws) S S'"
  proof (cases "ws = [] \<or> find (\<lambda>kv. for_key (fst kv) \<noteq> Eventual) ws \<noteq> None")
    case False
    then have n: "ws \<noteq> []" "find (\<lambda>kv. for_key (fst kv) \<noteq> Eventual) ws = None" by blast+
    then have "commit_on A S Eventual (map (\<lambda>kv. (fst kv, Some (snd kv))) ws) = (S', res)" using assms by (simp add: transact_sessions_raw_def)
    moreover have "\<forall>kv\<in>set ws. for_key (fst kv) = Eventual" using n(2) by (auto simp: find_None_iff)
    ultimately show ?thesis using commit_changes by (fastforce simp: image_image)
  qed (use assms in \<open>auto simp: transact_sessions_raw_def split: option.splits if_splits\<close>)
  show "changes {} S S'" if "res = Inl e"
  proof (rule changes_same [OF c])
    show "content S' = content S"
      using assms that commit_on_err(1) by (auto simp: transact_sessions_raw_def split: option.splits if_splits)
  qed
qed

lemma session_reject_changes: "changes audit_session_keys (a_store a) (a_store (fst (session_reject A B env ctx req a e)))"
  "a_writer (fst (session_reject A B env ctx req a e)) = a_writer a"
  by (simp_all add: session_reject_def session_audit_changes)

text \<open>A session command commits its writes with the audit entry, or nothing but a rejection is written.\<close>

lemma session_commit_cases:
  assumes "session_commit A B env ctx req a ws after = (a', resp)"
  obtains (ok) S1 v where "resp = RespOk (req_id req) (j_null (dm_json B))" "a' = after (a\<lparr>a_store := S1\<rparr>)"
      "dm_audit B (build_audit_entry ctx (st_now (dv_ck env ''accepted'')) (req_id req) (command_kind (req_cmd req)) (target_key (req_cmd req)) True None) = Some v"
      "transact_sessions_raw A (a_store a) (ws @ [(audit_nanos_key env ''accepted'' AUDIT_SESSION_PREFIX, v)]) = (S1, Inr ())"
  | (err) code msg where "resp = RespErr (req_id req) code msg" "changes audit_session_keys (a_store a) (a_store a')"
proof -
  let ?v = "dm_audit B (build_audit_entry ctx (st_now (dv_ck env ''accepted'')) (req_id req) (command_kind (req_cmd req)) (target_key (req_cmd req)) True None)"
  show ?thesis
  proof (cases ?v)
    case None
    then show ?thesis using assms err by (auto simp: session_commit_def)
  next
    case (Some v)
    obtain S1 res where t: "transact_sessions_raw A (a_store a) (ws @ [(audit_nanos_key env ''accepted'' AUDIT_SESSION_PREFIX, v)]) = (S1, res)"
      by (metis surj_pair)
    show ?thesis
    proof (cases res)
      case (Inl e)
      then have r: "session_reject A B env ctx req (a\<lparr>a_store := S1\<rparr>) e = (a', resp)" using assms Some t by (simp add: session_commit_def)
      then have "changes audit_session_keys S1 (a_store a')" using session_reject_changes(1) [of "a\<lparr>a_store := S1\<rparr>" B env ctx req e] by simp
      then have "changes audit_session_keys (a_store a) (a_store a')"
        using changes_trans [OF transact_sessions_changes(2) [OF t Inl]] by fastforce
      then show ?thesis using err r by (auto simp: session_reject_def)
    next
      case (Inr u)
      then show ?thesis using assms Some t ok by (auto simp: session_commit_def)
    qed
  qed
qed

end

context live_store
begin

lemma staged_cases: "staged A k r = Inr kv \<Longrightarrow> \<exists>b. kv = (k, b) \<and> enc_record A r = Some b"
  by (auto simp: staged_def split: option.splits)

lemma session_commit_live:
  assumes "live (sessions (a_store a))" and "\<forall>kv\<in>set ws. for_key (fst kv) = Eventual"
    and "dm_audit B (build_audit_entry ctx (st_now (dv_ck env ''accepted'')) (req_id req) (command_kind (req_cmd req)) (target_key (req_cmd req)) True None) = Some v"
  shows "snd (session_commit A B env ctx req a ws after) = RespOk (req_id req) (j_null (dm_json B))"
proof -
  let ?ws = "ws @ [(audit_nanos_key env ''accepted'' AUDIT_SESSION_PREFIX, v)]"
  obtain S' where "commit_on A (a_store a) Eventual (map (\<lambda>kv. (fst kv, Some (snd kv))) ?ws) = (S', Inr ())" using sessions_commit [OF assms(1)] .
  moreover have "find (\<lambda>kv. for_key (fst kv) \<noteq> Eventual) ?ws = None" using assms(2) by (auto simp: find_None_iff)
  ultimately show ?thesis using assms(3) by (simp add: session_commit_def transact_sessions_raw_def)
qed

lemma consultation_live:
  assumes "running (a_store a)" and "content (a_store a) (today_key (dv_session env) ''analytics:hit_'') = None"
    and "req_cmd req = ConsultationHit key actor sid aid"
    and "dm_audit B (build_audit_entry ctx (st_now (dv_ck env ''accepted'')) (req_id req) ''consultation_hit'' key True None) = Some v"
  shows "snd (dispatch_session_side A B env ctx req a) = RespOk (req_id req) (j_null (dm_json B))"
proof -
  have s: "sound (a_store a)" "live (sessions (a_store a))" using assms(1) by (simp_all add: running_def)
  have enc: "staged A k r = Inr (k, the (enc_record A r))" for k r using enc_total [of r] by (auto simp: staged_def)
  have "upsert_daily_agg_staged A D st (a_store a) (today_key (dv_session env) ''analytics:hit_'') key
      = Inr (today_key (dv_session env) ''analytics:hit_'', the (enc_record A (bumped_agg D st (today_key (dv_session env) ''analytics:hit_'') key None)))" for D st
    using s assms(2) by (simp add: upsert_daily_agg_staged_def store_get_content decode_as_def rbind_def enc)
  moreover have "snd (session_commit A B env ctx req a ws after) = RespOk (req_id req) (j_null (dm_json B))"
    if "\<forall>kv\<in>set ws. for_key (fst kv) = Eventual" for ws after
    by (rule session_commit_live [OF s(2) that]) (simp add: assms(3,4))
  ultimately show ?thesis using assms(3) by (simp add: dispatch_session_side_def Let_def consultation_receipt_staged_def enc)
qed

lemma consultation_committed:
  assumes "dispatch_session_side A B env ctx req a = (a', resp)" and "req_cmd req = ConsultationHit key actor sid aid"
    and "sound (a_store a)" and "key \<notin> audit_session_keys"
  shows "case resp of
      RespOk i d \<Rightarrow> check_consulted A (a_store a') key actor = Ok True \<and>
        (\<exists>v. dm_audit B (build_audit_entry ctx (st_now (dv_ck env ''accepted'')) (req_id req) ''consultation_hit'' key True None) = Some v
           \<and> content (a_store a') (audit_nanos_key env ''accepted'' AUDIT_SESSION_PREFIX) = Some v)
    | RespErr i c m \<Rightarrow> changes audit_session_keys (a_store a) (a_store a')"
proof -
  let ?rk = "receipt_key key actor" and ?ak = "audit_nanos_key env ''accepted'' AUDIT_SESSION_PREFIX"
  let ?agg = "upsert_daily_agg_staged A (sa_agg (dm_session B)) (dv_ck env ''agg'') (a_store a) (today_key (dv_session env) ''analytics:hit_'') key"
  let ?after = "consultation_recorded A B env key (case sid of Some s \<Rightarrow> Some s | None \<Rightarrow> aid)"
  have rejected: ?thesis if "session_reject A B env ctx req a e = (a', resp)" for e
  proof -
    have "changes audit_session_keys (a_store a) (a_store a')" using session_reject_changes(1) [of a B env ctx req e] that by simp
    moreover have "\<exists>i c m. resp = RespErr i c m" using that by (auto simp: session_reject_def)
    ultimately show ?thesis by (auto split: Response.split)
  qed
  show ?thesis
  proof (cases ?agg)
    case (Inl e)
    then show ?thesis using rejected assms(1,2) by (simp add: dispatch_session_side_def Let_def)
  next
    case (Inr agg)
    obtain b where b: "enc_record A (session_record (dv_ck env ''receipt'') ?rk []) = Some b" using enc_total by blast
    then have "session_commit A B env ctx req a [agg, (?rk, b)] ?after = (a', resp)"
      using assms(1,2) Inr by (simp add: dispatch_session_side_def consultation_receipt_staged_def staged_def Let_def)
    then show ?thesis
    proof (cases rule: session_commit_cases)
      case (ok S1 v)
      let ?a2 = "?after (a\<lparr>a_store := S1\<rparr>)"
      have "?rk \<noteq> ?ak" using receipt_not_audit audit_session_key by metis
      then have c: "content S1 ?rk = Some b" "content S1 ?ak = Some v" using transact_sessions_ok [OF ok(4)] by auto
      have frame: "changes ({key} \<union> log_keys) S1 (a_store ?a2)"
        unfolding consultation_recorded_def using changes_trans [OF bump_access_changes [of key S1 "st_now (dv_ck env ''access'')"]
            logged_changes [of "a\<lparr>a_store := bump_access A (st_now (dv_ck env ''access'')) key S1\<rparr>", simplified]] by simp
      have "?ak \<noteq> key" "?ak \<notin> log_keys" using assms(4) audit_session_key audit_not_log by metis+
      then have k: "content (a_store ?a2) ?rk = Some b" "content (a_store ?a2) ?ak = Some v"
        using changes_content [OF frame] c by simp_all
      have "sound (a_store ?a2)"
        using frame transact_sessions_changes(1) [OF ok(4)] assms(3) by (simp add: changes_def)
      then have "check_consulted A (a_store ?a2) key actor = Ok True"
        using k(1) b dec_enc by (simp add: check_consulted_def store_get_content decode_as_def)
      then show ?thesis using ok k(2) assms(2) by simp
    qed simp
  qed
qed

end

subsection \<open>The fences\<close>

text \<open>
  C21. A stale client has no effect. A request with another protocol version or with the session of an earlier daemon is answered with the
  matching error, whatever the command and whatever the handlers do; nothing in either tree changes but entries of the session audit, the event writer
  is untouched, and for a command that is no mutation the state is the same.
\<close>

theorem stale_request_no_effect:
  assumes "live_store A view healthy live" and "req_v req \<noteq> PROTOCOL_VERSION \<or> req_session req \<noteq> rc_daemon_session ctx"
    and "dispatch_v2 A B C H show_uuid env ctx req a = (a', resp)"
  shows "(\<exists>msg. resp = RespErr (req_id req) (if req_v req \<noteq> PROTOCOL_VERSION then VersionMismatch else SessionMismatch) msg)
    \<and> a_writer a' = a_writer a \<and> (is_mutation (req_cmd req) \<or> a' = a)
    \<and> (\<forall>k. \<not> starts_with k ''audit:session:'' \<longrightarrow> store_content view (a_store a') k = store_content view (a_store a) k)"
proof -
  have c: "\<forall>k. \<not> starts_with k ''audit:session:'' \<longrightarrow> store_content view (write_session_audit A B env entry S) k = store_content view S k" for entry S
    using live_store.session_audit_changes [OF assms(1), of S B env entry]
    by (simp add: live_store.changes_def [OF assms(1)] audit_session_keys_def)
  show ?thesis using assms(2,3)
    by (auto simp: dispatch_v2_def fence_response_def best_effort_audit_def c split: if_splits)
qed

subsection \<open>Consultations\<close>


subsection \<open>Retries\<close>

definition conflicting :: "('s, 'a) handled \<Rightarrow> bool" where
  "conflicting res \<longleftrightarrow> (case snd res of Inl (code, msg) \<Rightarrow> contains_str (map lower_char msg) ''write conflict'' | Inr _ \<Rightarrow> False)"

text \<open>The state after a number of attempts, each numbered.\<close>

fun after_attempts :: "('s \<Rightarrow> nat \<Rightarrow> ('s, 'a) handled) \<Rightarrow> 's \<Rightarrow> nat \<Rightarrow> nat \<Rightarrow> 's" where
  "after_attempts op s i 0 = s"
| "after_attempts op s i (Suc n) = after_attempts op (fst (op s i)) (Suc i) n"

lemma retry_from_attempts:
  "\<exists>n\<le>left. (\<forall>m<n. conflicting (op (after_attempts op s i m) (i + m)))
     \<and> retry_from op s i left = op (after_attempts op s i n) (i + n) \<and> (n = left \<or> \<not> conflicting (retry_from op s i left))"
proof (induction left arbitrary: s i)
  case (Suc left)
  show ?case
  proof (cases "conflicting (op s i)")
    case False
    then have "retry_from op s i (Suc left) = op s i" by (auto simp: conflicting_def split: prod.splits sum.splits)
    then show ?thesis using False by (intro exI [of _ 0]) auto
  next
    case True
    then have r: "retry_from op s i (Suc left) = retry_from op (fst (op s i)) (Suc i) left"
      by (auto simp: conflicting_def split: prod.splits sum.splits)
    obtain n where n: "n \<le> left" "\<forall>m<n. conflicting (op (after_attempts op (fst (op s i)) (Suc i) m) (Suc i + m))"
      "retry_from op (fst (op s i)) (Suc i) left = op (after_attempts op (fst (op s i)) (Suc i) n) (Suc i + n)"
      "n = left \<or> \<not> conflicting (retry_from op (fst (op s i)) (Suc i) left)"
      using Suc.IH [of "fst (op s i)" "Suc i"] by blast
    have "conflicting (op (after_attempts op s i m) (i + m))" if "m < Suc n" for m
      using that n(2) True by (cases m) auto
    then show ?thesis using n r by (intro exI [of _ "Suc n"]) auto
  qed
qed simp

text \<open>
  C23. The retry loop of the mutation handlers ends after at most four attempts: it returns what the first attempt without a write conflict returns, each
  attempt run on the state its predecessors left, or what the fourth attempt returns.
\<close>

theorem retry_bounded:
  "\<exists>n<WRITE_CONFLICT_RETRIES. (\<forall>m<n. conflicting (op (after_attempts op s 0 m) m))
     \<and> retry_on_write_conflict op s = op (after_attempts op s 0 n) n
     \<and> (Suc n = WRITE_CONFLICT_RETRIES \<or> \<not> conflicting (retry_on_write_conflict op s))"
proof -
  obtain n where "n \<le> 3" "\<forall>m<n. conflicting (op (after_attempts op s 0 m) (0 + m))"
    "retry_from op s 0 3 = op (after_attempts op s 0 n) (0 + n)" "n = 3 \<or> \<not> conflicting (retry_from op s 0 3)"
    using retry_from_attempts [of 3 op s 0] by blast
  then show ?thesis by (intro exI [of _ n]) (auto simp: retry_on_write_conflict_def WRITE_CONFLICT_RETRIES_def)
qed

text \<open>What every conflicting attempt keeps holds when the last attempt starts.\<close>

lemma after_attempts_induct:
  assumes "P s" and "\<And>t j t' e. P t \<Longrightarrow> op t j = (t', Inl e) \<Longrightarrow> P t'"
    and "\<forall>m<n. conflicting (op (after_attempts op s i m) (i + m))"
  shows "P (after_attempts op s i n)"
  using assms
proof (induction n arbitrary: s i)
  case (Suc n)
  have "conflicting (op s i)" using Suc.prems(3) [rule_format, of 0] by simp
  then obtain t' e where "op s i = (t', Inl e)" by (cases "op s i") (auto simp: conflicting_def split: sum.splits)
  then have "P (fst (op s i))" using Suc.prems(1,2) by fastforce
  moreover have "\<forall>m<n. conflicting (op (after_attempts op (fst (op s i)) (Suc i) m) (Suc i + m))"
    using Suc.prems(3) by (auto simp: Suc_less_eq dest: spec [of _ "Suc _"])
  ultimately show ?case using Suc.IH [of "fst (op s i)" "Suc i"] Suc.prems(2) by simp
qed simp

lemma retry_from_state:
  assumes "retry_on_write_conflict op s = (s', res)" and "P s" and "\<And>t j t' e. P t \<Longrightarrow> op t j = (t', Inl e) \<Longrightarrow> P t'"
  obtains t j where "P t" "op t j = (s', res)" "j < 4"
proof -
  obtain n where n: "n \<le> 3" "\<forall>m<n. conflicting (op (after_attempts op s 0 m) (0 + m))"
    "retry_from op s 0 3 = op (after_attempts op s 0 n) (0 + n)" using retry_from_attempts [of 3 op s 0] by blast
  have "P (after_attempts op s 0 n)" by (rule after_attempts_induct [where P = P, OF assms(2) _ n(2)]) (use assms(3) in blast)
  then show ?thesis using that [of "after_attempts op s 0 n" n] n assms(1) by (simp add: retry_on_write_conflict_def WRITE_CONFLICT_RETRIES_def)
qed

subsection \<open>What the log says about a denial\<close>

text \<open>The enforcement events that the commands of a hook lead to, with the subject and the reason.\<close>

fun command_event :: "'j Command \<Rightarrow> event_request option" where
  "command_event (SessionLog ev key sid) = map_option fst (session_event_request ev key sid)"
| "command_event (ConsultationHit key _ _ _) = Some (file_request ReceiptMinted key ''claude'' ''consultation_requested'')"
| "command_event _ = None"

lemma evaluate_deny_events:
  "is_deny (decision (evaluate J input)) \<Longrightarrow> events (evaluate J input) = [BlockedUnconsultedRead (''file:'' @ rel_path input)]"
proof (cases "\<exists>fr. live_record J input fr")
  case True
  then obtain fr where "live_record J input fr" ..
  then show "is_deny (decision (evaluate J input)) \<Longrightarrow> ?thesis"
    by (cases "has_enforcing_gotcha J input fr") (auto simp: evaluate_live Let_def is_deny_def split: if_split_asm)
next
  case False
  then show "is_deny (decision (evaluate J input)) \<Longrightarrow> ?thesis" using evaluate_not_live [of J input] by (auto simp: is_deny_def)
qed

lemma check_eval_rel: "check_eval_data J v rel eval_data = Inr input \<Longrightarrow> rel_path input = rel"
  by (auto simp: check_eval_data_def Let_def split: if_splits)

text \<open>
  C32. What the audit trail records of a denial that a gotcha causes. For Claude Code the hook's denial of a file becomes one \<open>Deny\<close> event of that file, with a
  reason that tells an edit from a read. For Codex the same denial, which the hook enforces with exit code 2, becomes a
  \<open>BypassDetected\<close> event: the log counts it among the accesses that went past the gate.
\<close>

theorem denial_evidence:
  assumes "gating v \<or> v = CodexPreApplyPatch"
    and "is_deny (ar_decision (process_eval_response J v rel eval_data))"
  shows "map command_event (fire_events (ar_events (process_eval_response J v rel eval_data)) sid)
    = [Some (if v = CodexPreBash \<or> v = CodexPreApplyPatch
             then file_request BypassDetected (file_key rel) ''codex'' ''codex_shell_pre_consult_miss''
             else file_request DenyEvent (file_key rel) ''claude''
                    (if v = ClaudePreEdit then ''edit_blocked_unconsulted'' else ''gotcha_above_threshold''))]"
proof (cases "check_eval_data J v rel eval_data")
  case (Inl e)
  then show ?thesis using assms(2) by (simp add: process_eval_response_def is_deny_def)
next
  case (Inr input)
  let ?r = "evaluate J input"
  have d: "ar_decision (process_eval_response J v rel eval_data) = decision ?r"
    and e: "ar_events (process_eval_response J v rel eval_data) = platform_events v (decision ?r) (events ?r)"
    using Inr by (simp_all add: process_eval_response_def Let_def split: prod.split)
  have b: "events ?r = [BlockedUnconsultedRead (file_key rel)]"
    using evaluate_deny_events [of J input] assms(2) check_eval_rel [OF Inr] by (simp add: d file_key_def)
  show ?thesis
    unfolding e using assms(1) b
    by (auto simp: gating_def platform_events_def codex_event_def edit_event_def map_filter_simps fire_events_def event_command_def
        session_event_request_def)
qed

subsection \<open>Instances\<close>

definition demo_daemon_api :: "((unit, jvalue) cell, jvalue, CanonicalEvent + CanonicalEventV2) daemon_api" where
  "demo_daemon_api = \<lparr> dm_session = demo_session_api,
     dm_extraction = \<lparr> to_value = (\<lambda>_. None), from_value = (\<lambda>_. None) \<rparr>, dm_exemplar = \<lparr> to_value = (\<lambda>_. None), from_value = (\<lambda>_. None) \<rparr>,
     dm_audit = (\<lambda>e. Some (BytesCell (ae_command_kind e))), dm_unicode = ascii_unicode \<rparr>"

definition demo_daemon_env :: daemon_env where
  "demo_daemon_env = \<lparr> dv_session = demo_session_env, dv_nanos = length, dv_read_file = (\<lambda>_. None),
     dv_files = \<lparr> rv_exists = (\<lambda>_. False), rv_size = (\<lambda>_. 0), rv_parse = (\<lambda>_. None) \<rparr> \<rparr>"

definition demo_ctx :: RequestContext where
  "demo_ctx = \<lparr> rc_peer_uid = 501, rc_peer_pid = None, rc_daemon_session = 7 \<rparr>"

definition demo_request :: "jvalue Request" where
  "demo_request = \<lparr> req_v = 2, req_id = 1, req_session = 7, req_agent = None, req_cmd = ConsultationHit ''file:a'' None None None \<rparr>"

definition demo_other :: "((unit, jvalue) cell mem_tree, bool \<times> string list, jvalue) other_handlers" where
  "demo_other = \<lparr> oh_view = \<lparr> gv_neighbors = \<lambda>_ _. [], gv_set_order = id \<rparr>, oh_read = (\<lambda>_ _. Ok JNull) \<rparr>"

definition demo_clusters :: "(jvalue, ClusterIndex) serde" where
  "demo_clusters = \<lparr> to_value = (\<lambda>_. None), from_value = (\<lambda>_. None) \<rparr>"

theorem stale_request_no_effect_witness:
  "\<exists>msg. snd (dispatch_v2 mem_store demo_daemon_api demo_clusters demo_other (\<lambda>_. []) demo_daemon_env demo_ctx
     (demo_request\<lparr>req_session := 8\<rparr>) demo_session) = RespErr 1 SessionMismatch msg"
proof -
  let ?q = "demo_request\<lparr>req_session := 8\<rparr>"
  have "req_v ?q \<noteq> PROTOCOL_VERSION \<or> req_session ?q \<noteq> rc_daemon_session demo_ctx" "req_id ?q = 1" "req_v ?q = PROTOCOL_VERSION"
    by (simp_all add: demo_request_def demo_ctx_def PROTOCOL_VERSION_def)
  then show ?thesis
    using stale_request_no_effect [OF mem_live.live_store_axioms _ prod.collapse [symmetric], of ?q demo_ctx demo_daemon_api
        demo_clusters demo_other "\<lambda>_. []" demo_daemon_env demo_session] by simp
qed


theorem retry_bounded_witness:
  "retry_on_write_conflict (\<lambda>(s :: nat) i. (Suc s, if i < 2 then Err (StoreError, ''a write conflict'') else Ok i)) 0 = (3, Ok 2)"
proof -
  let ?op = "\<lambda>(s :: nat) (i :: nat). (Suc s, if i < 2 then Err (StoreError, ''a write conflict'') else Ok i)"
  have c: "conflicting (?op s i) \<longleftrightarrow> i < 2" for s i by (simp add: conflicting_def lower_char_def starts_with_def)
  have a: "after_attempts ?op 0 0 2 = 2" by (simp add: numeral_2_eq_2)
  obtain n where n: "n < WRITE_CONFLICT_RETRIES" "\<forall>m<n. conflicting (?op (after_attempts ?op 0 0 m) m)"
    "retry_on_write_conflict ?op 0 = ?op (after_attempts ?op 0 0 n) n"
    "Suc n = WRITE_CONFLICT_RETRIES \<or> \<not> conflicting (retry_on_write_conflict ?op 0)"
    using retry_bounded [of ?op 0] by blast
  have "n \<le> 2" using n(2) by (auto simp: c dest: spec [of _ 2])
  then have "n = 2" using n(1,3,4) by (auto simp: c WRITE_CONFLICT_RETRIES_def)
  then show ?thesis using n(3) a by simp
qed

definition demo_answer :: jvalue where
  "demo_answer = JObj [(''file_record'', JObj [(''payload'', JObj [(''gotcha_keys'', JArr [JStr ''gotcha:g''])])]),
     (''gotcha_records'', JObj [(''gotcha:g'', JObj [(''payload'', JObj [(''confirmed'', JBool True)]),
        (''confidence'', JObj [(''value'', JFloat 1)]), (''quality'', JObj [(''value'', JFloat 1)])])])]"

lemma demo_answer_denied: "is_deny (ar_decision (process_eval_response jvalue_api CodexPreBash ''a.rs'' demo_answer))"
  using r32_mono [of "6/10" 1] r32_mono [of "4/10" 1]
  by (simp add: process_eval_response_def check_eval_data_def demo_answer_def json_flag_def extract_gotcha_map_def evaluate_def injectable_def
      json_f32_def json_str_def json_bool_def json_string_array_def is_deny_def map_filter_simps Let_def jv_pointer_def del: r32_one split: prod.split)

theorem denial_evidence_witness:
  "map command_event (fire_events (ar_events (process_eval_response jvalue_api CodexPreBash ''a.rs'' demo_answer)) None)
   = [Some (file_request BypassDetected (file_key ''a.rs'') ''codex'' ''codex_shell_pre_consult_miss'')]"
  using denial_evidence [OF _ demo_answer_denied] by (simp add: gating_def)

end
