(* ===== verification/Handlers_Spec.thy ===== *)
theory Handlers_Spec
  imports Dispatch_Spec Gotcha_Spec
begin

section \<open>Properties of the mutation handlers\<close>

text \<open>
  Creating, confirming and deleting a gotcha through the daemon: a transaction takes the record, the links and the audit entry together
  or leaves the store as it was; a draft is never confirmed; what a confirmation does to links and receipts.
\<close>

declare starts_with_Cons [simp del]

definition audit_knowledge_keys :: "string set" where
  "audit_knowledge_keys = {k. starts_with k ''audit:knowledge:''}"

lemma audit_knowledge_key [simp]: "audit_nanos_key env site AUDIT_KNOWLEDGE_PREFIX \<in> audit_knowledge_keys"
  by (simp add: audit_nanos_key_def AUDIT_KNOWLEDGE_PREFIX_def audit_knowledge_keys_def starts_with_def)

text \<open>The namespaces a mutation writes after its transaction, disjoint from records and from the audit.\<close>

definition follow_up_keys :: "string set" where
  "follow_up_keys = edge_keys \<union> log_keys \<union> analytics_keys \<union> receipt_keys"

lemma follow_up_other:
  assumes "starts_with k ''gotcha:'' \<or> starts_with k ''file:'' \<or> k \<in> audit_knowledge_keys"
  shows "k \<notin> follow_up_keys"
  using assms
  by (auto simp: follow_up_keys_def edge_keys_def log_keys_def analytics_keys_def receipt_keys_def audit_knowledge_keys_def starts_with_iff
      INSTALLATION_ID_KEY_def)

lemma distinct_spaces [simp]:
  "starts_with k ''gotcha:'' \<Longrightarrow> k \<noteq> file_key p" "starts_with k ''gotcha:'' \<Longrightarrow> k \<notin> audit_knowledge_keys"
  "file_key p \<notin> audit_knowledge_keys"
  by (auto simp: starts_with_iff file_key_def audit_knowledge_keys_def)

lemma gotcha_not_audit [simp]: "\<not> starts_with (audit_nanos_key env site AUDIT_KNOWLEDGE_PREFIX) ''gotcha:''"
  using distinct_spaces(2) audit_knowledge_key by blast

text \<open>The last write to a key decides; here all its writes in the middle part agree.\<close>

lemma apply_ops_agree:
  assumes "k \<in> fst ` set ys" and "\<forall>kv\<in>set ys. fst kv = k \<longrightarrow> snd kv = v" and "k \<notin> fst ` set zs"
  shows "apply_ops (xs @ ys @ zs) m k = v"
proof -
  have "apply_ops ys m' k = v" for m'
    using assms(1,2)
  proof (induction ys arbitrary: m')
    case (Cons kv ys)
    then show ?case by (cases "k \<in> fst ` set ys") auto
  qed simp
  then show ?thesis using assms(3) by (simp add: apply_ops_append)
qed

text \<open>What a draft holds, whatever was there before.\<close>

lemma analyze_quality: "analyze U t (r\<lparr>r_quality := q\<rparr>) = analyze U t r"
  by (simp add: analyze_def quality_base_def penalty_def lacks_reason_def)

lemma rescored_analyze: "r_quality (rescored U t r) = analyze U t (rescored U t r)"
  by (simp add: rescored_def analyze_quality)

lemma draft_record_fields:
  "r_category (draft_record B ck now input existing) = Gotcha" "r_lifecycle (draft_record B ck now input existing) = Active"
  "\<exists>t. r_quality (draft_record B ck now input existing) = analyze (dm_unicode B) t (draft_record B ck now input existing)"
  unfolding draft_record_def Let_def by (rule exI rescored_analyze | simp add: rescored_def)+

lemma draft_record_payload:
  "\<exists>g. r_payload (draft_record B ck now input existing) = to_value (sa_gotcha (dm_session B)) g
     \<and> \<not> g_confirmed g \<and> g_affected_files g = gd_affected_files input"
  by (auto simp: draft_record_def Let_def rescored_def intro!: exI)

context live_store
begin

lemma transact_knowledge_changes:
  assumes "transact_knowledge A S ops = (S', res)"
  shows "changes (op_key ` set ops) S S'" and "res = Inl e \<Longrightarrow> changes {} S S'"
proof -
  show c: "changes (op_key ` set ops) S S'"
  proof (cases "ops = [] \<or> find (\<lambda>op. for_key (op_key op) \<noteq> Immediate) ops \<noteq> None")
    case True
    then have "S' = S" using assms by (auto simp: transact_knowledge_def split: option.splits if_splits)
    then show ?thesis by simp
  next
    case False
    then have n: "ops \<noteq> []" "find (\<lambda>op. for_key (op_key op) \<noteq> Immediate) ops = None" by blast+
    then have k: "\<forall>op\<in>set ops. for_key (op_key op) = Immediate" by (auto simp: find_None_iff)
    show ?thesis
    proof (cases "encode_ops A ops")
      case (Inl k')
      then show ?thesis using assms n by (auto simp: transact_knowledge_def)
    next
      case (Inr ws)
      then have ws: "ws = op_writes A ops" by (rule encode_ops_ok)
      obtain S1 r1 where t: "commit_on A S Immediate ws = (S1, r1)" by (metis surj_pair)
      have "changes (op_key ` set ops) S S1"
        using commit_changes [OF t] k by (simp add: ws op_writes_def image_image)
      then show ?thesis using assms n Inr t by (auto simp: transact_knowledge_def Let_def split: sum.splits if_splits)
    qed
  qed
  show "changes {} S S'" if "res = Inl e"
    using changes_same [OF c] transact_knowledge_err assms that by blast
qed

lemma commit_ops_err: "commit_ops A S label ops val = (S', Inl e) \<Longrightarrow> changes {} S S'"
  by (auto simp: commit_ops_def intro: transact_knowledge_changes(2) split: prod.splits sum.splits)

lemma commit_ops_ok:
  assumes "commit_ops A S label ops val = (S', Inr val')"
  shows "val' = val" and "content S' = apply_ops (op_writes A ops) (content S)" and "changes (op_key ` set ops) S S'"
  using assms transact_knowledge_ok transact_knowledge_changes(1)
  by (auto simp: commit_ops_def split: prod.splits sum.splits)

text \<open>The transactions of the three handlers leave the store unchanged on error.\<close>

lemma upsert_once_err: "upsert_commit_once A B env ctx rid input now S i = (S', Inl e) \<Longrightarrow> changes {} S S'"
  by (auto simp: upsert_commit_once_def Let_def dest: commit_ops_err split: sum.splits option.splits prod.splits)

lemma confirm_once_err: "confirm_commit_once A B env ctx rid key now S i = (S', Inl e) \<Longrightarrow> changes {} S S'"
  by (auto simp: confirm_commit_once_def Let_def dest: commit_ops_err split: sum.splits option.splits prod.splits if_splits)

lemma tombstone_once_err: "tombstone_commit_once A B env ctx rid key now S i = (S', Inl e) \<Longrightarrow> changes {} S S'"
  by (auto simp: tombstone_commit_once_def Let_def dest: commit_ops_err split: sum.splits option.splits prod.splits)

lemma retried:
  assumes "retry_on_write_conflict op S = (S', res)" and "\<And>T j T' e. op T j = (T', Inl e) \<Longrightarrow> changes {} T T'"
  obtains T j where "changes {} S T" "op T j = (S', res)" "j < 4"
proof (rule retry_from_state [OF assms(1), where P = "changes {} S"])
  show "changes {} S S" by simp
  show "changes {} S T'" if "changes {} S T" "op T j = (T', Inl e)" for T j T' e
    using changes_in [OF that(1) assms(2) [OF that(2)]] .
qed

text \<open>What follows the transactions.\<close>

lemma edge_sync_changes: "changes edge_keys S (sync_has_gotcha_edges A now S key old new)"
proof -
  have p: "changes edge_keys S (fst (put_raw A S (to_key e) v))" for S e v by (rule changes_mono [OF put_raw_changes]) simp
  have d: "changes edge_keys S (fst (store_delete A S (to_key e)))" for S e by (rule changes_mono [OF delete_changes]) simp
  have f: "changes edge_keys S (foldl f S xs)" if "\<And>S x. changes edge_keys S (f S x)" for f :: "('t, 'x) Store \<Rightarrow> string \<Rightarrow> ('t, 'x) Store" and S xs
    by (induction xs arbitrary: S) (auto intro: changes_in that)
  show ?thesis unfolding sync_has_gotcha_edges_def
    by (rule changes_in [OF f f]) (rule p d)+
qed

lemma fold_deletes_in: "f ` set xs \<subseteq> K \<Longrightarrow> changes K S (foldl (\<lambda>S x. fst (store_delete A S (f x))) S xs)"
proof (induction xs arbitrary: S)
  case (Cons x xs)
  then have "changes K S (fst (store_delete A S (f x)))" by (intro changes_mono [OF delete_changes]) simp
  then show ?case using changes_in Cons by simp
qed simp

lemma follow_ups:
  "changes follow_up_keys S (sync_has_gotcha_edges A now S key old new)"
  "changes follow_up_keys (a_store a) (a_store (record_logged A B env a rq session))"
  "changes follow_up_keys S (fst (write_on_extraction A X ts st wall S key tags files))"
  "changes follow_up_keys S (fst (mark_outcome A X ts st wall S key outcome))"
  "changes follow_up_keys S (fst (write_on_tombstone A N ts dev S key rule reason sev files))"
  "changes follow_up_keys S (foldl (\<lambda>S path. fst (store_delete A S (''session:consulted:file:'' @ path))) S paths)"
proof -
  have k: "edge_keys \<subseteq> follow_up_keys" "log_keys \<subseteq> follow_up_keys" "analytics_keys \<subseteq> follow_up_keys"
    by (auto simp: follow_up_keys_def)
  show "changes follow_up_keys S (sync_has_gotcha_edges A now S key old new)"
    by (rule changes_mono [OF edge_sync_changes k(1)])
  show "changes follow_up_keys (a_store a) (a_store (record_logged A B env a rq session))"
    by (rule changes_mono [OF logged_changes k(2)])
  show "changes follow_up_keys S (fst (write_on_extraction A X ts st wall S key tags files))"
    by (rule changes_mono [OF extraction_changes(1) k(3)])
  show "changes follow_up_keys S (fst (mark_outcome A X ts st wall S key outcome))"
    by (rule changes_mono [OF extraction_changes(2) k(3)])
  show "changes follow_up_keys S (fst (write_on_tombstone A N ts dev S key rule reason sev files))"
    by (rule changes_mono [OF exemplar_changes k(3)])
  show "changes follow_up_keys S (foldl (\<lambda>S path. fst (store_delete A S (''session:consulted:file:'' @ path))) S paths)"
    by (rule fold_deletes_in) (auto simp: follow_up_keys_def receipt_keys_def starts_with_def)
qed

lemma logged_after:
  assumes "changes follow_up_keys S T"
  shows "changes follow_up_keys S (a_store (record_logged A B env (a\<lparr>a_store := T\<rparr>) rq session))"
  using changes_in [OF assms] follow_ups(2) [of "a\<lparr>a_store := T\<rparr>" B env rq session] by simp

lemma upsert_committed:
  assumes "handle_gotcha_upsert A B env ctx rid input a = (a', res)"
  obtains (err) e where "res = Inl e" "changes {} (a_store a) (a_store a')" "a_writer a' = a_writer a"
  | (ok) d T S1 j r is_new old where "res = Inr d" "starts_with (gd_key input) ''gotcha:''" "changes {} (a_store a) T"
      "upsert_commit_once A B env ctx rid input (st_now (dv_ck env ''now'')) T j = (S1, Inr (r, is_new, old))" "j < 4"
      "changes follow_up_keys S1 (a_store a')"
proof (cases "starts_with (gd_key input) ''gotcha:'' \<and> gd_rule input \<noteq> []")
  case False
  then show ?thesis using assms err by (auto simp: handle_gotcha_upsert_def Let_def split: if_splits)
next
  case True
  obtain S1 r1 where r: "retry_on_write_conflict (upsert_commit_once A B env ctx rid input (st_now (dv_ck env ''now''))) (a_store a) = (S1, r1)"
    by (metis surj_pair)
  obtain T j where T: "changes {} (a_store a) T" "upsert_commit_once A B env ctx rid input (st_now (dv_ck env ''now'')) T j = (S1, r1)" "j < 4"
    by (rule retried [OF r upsert_once_err])
  show ?thesis
  proof (cases r1)
    case (Inl e)
    have "changes {} (a_store a) S1" using changes_in [OF T(1) upsert_once_err] T(2) Inl by blast
    then show ?thesis using assms r Inl True by (intro err [of e]) (auto simp: handle_gotcha_upsert_def Let_def)
  next
    case (Inr v)
    obtain r is_new old where v: "v = (r, is_new, old)" by (metis prod_cases3)
    let ?S2 = "sync_has_gotcha_edges A (st_now (dv_ck env ''edges'')) S1 (gd_key input) old (gd_affected_files input)"
    let ?a3 = "record_logged A B env (a\<lparr>a_store := ?S2\<rparr>) (control_request (if is_new then Created else Updated) (gd_key input)
        (if is_new then ''control_created'' else ''control_updated'')) None"
    have c: "changes follow_up_keys S1 (a_store ?a3)" by (rule logged_after [OF follow_ups(1)])
    have "changes follow_up_keys S1 (a_store a')" "\<exists>d. res = Inr d"
      using assms True r Inr v c changes_in [OF c follow_ups(3)]
      by (auto simp: handle_gotcha_upsert_def Let_def split: if_splits)
    then show ?thesis using ok T Inr v True by blast
  qed
qed

lemma links_at_files:
  assumes "kr \<in> set (compute_file_link_updates A J F ck S key old new)"
  shows "\<exists>p. fst kr = file_key p"
proof -
  obtain now path where "link_added A J F ck now S key path = Some kr \<or> link_removed A J now S key path = Some kr"
    using assms by (auto simp: compute_file_link_updates_def Let_def map_filter_def) blast+
  then show ?thesis
    by (auto simp: link_added_def link_removed_def split: sum.splits option.splits prod.splits if_splits)
qed

lemma put_all_writes: "op_writes A (put_all updates) = map (\<lambda>(k, r). (k, enc_record A r)) updates"
  by (simp add: op_writes_def put_all_def case_prod_beta)

lemma link_writes: "fst ` set (op_writes A (put_all (compute_file_link_updates A J F ck S key old new))) \<subseteq> range file_key"
proof
  fix k
  assume "k \<in> fst ` set (op_writes A (put_all (compute_file_link_updates A J F ck S key old new)))"
  then obtain kr where "kr \<in> set (compute_file_link_updates A J F ck S key old new)" "k = fst kr" by (auto simp: put_all_writes)
  then show "k \<in> range file_key" using links_at_files by blast
qed

text \<open>A committed draft: the record and the accepted audit entry are in the store.\<close>

lemma upsert_once_ok:
  assumes "upsert_commit_once A B env ctx rid input now S j = (S1, Inr (r, is_new, old))" and "starts_with (gd_key input) ''gotcha:''"
  obtains ck existing v where "r = draft_record B ck now input existing"
    "dm_audit B (build_audit_entry ctx (st_now (dv_ck env (''accepted '' @ show_nat j))) rid ''gotcha_upsert'' (gd_key input) True None) = Some v"
    "content S1 (gd_key input) = enc_record A r" "content S1 (audit_nanos_key env (''accepted '' @ show_nat j) AUDIT_KNOWLEDGE_PREFIX) = Some v"
    "sound S1 = sound S"
proof -
  let ?ak = "audit_nanos_key env (''accepted '' @ show_nat j) AUDIT_KNOWLEDGE_PREFIX"
  let ?ck = "\<lambda>site. dv_ck env (site @ show_nat j)"
  obtain existing where g: "store_get A S (gd_key input) = Inr existing"
    using assms(1) by (auto simp: upsert_commit_once_def Let_def split: sum.splits)
  obtain v where v: "dm_audit B (build_audit_entry ctx (st_now (dv_ck env (''accepted '' @ show_nat j))) rid ''gotcha_upsert'' (gd_key input) True None) = Some v"
    using assms(1) by (auto simp: upsert_commit_once_def Let_def g make_audit_def make_audit_with_prefix_def split: option.splits)
  obtain files n old' where c: "commit_ops A S ''transact failed'' (PutRecord (gd_key input) (draft_record B ?ck now input existing)
      # put_all (compute_file_link_updates A (dm_json B) (sa_file (dm_session B)) ?ck S (gd_key input) files (gd_affected_files input))
        @ [PutRaw ?ak v]) (draft_record B ?ck now input existing, n, old') = (S1, Inr (r, is_new, old))"
    using assms(1) v by (simp add: upsert_commit_once_def Let_def g make_audit_def make_audit_with_prefix_def)
  define links where "links = compute_file_link_updates A (dm_json B) (sa_file (dm_session B)) ?ck S (gd_key input) files (gd_affected_files input)"
  have r: "r = draft_record B ?ck now input existing" using commit_ops_ok(1) [OF c] by simp
  note c = c [folded links_def r]
  have w: "content S1 = apply_ops ([] @ [(gd_key input, enc_record A r)] @ op_writes A (put_all links) @ [(?ak, Some v)]) (content S)"
    using commit_ops_ok(2) [OF c] by (simp add: op_writes_def)
  have "gd_key input \<notin> fst ` set (op_writes A (put_all links) @ [(?ak, Some v)])"
    using link_writes [of "dm_json B" "sa_file (dm_session B)" ?ck S "gd_key input" files "gd_affected_files input"] assms(2)
    by (auto simp: links_def)
  then have "content S1 (gd_key input) = enc_record A r" unfolding w by (intro apply_ops_agree) simp_all
  moreover have "content S1 ?ak = Some v" unfolding w by (simp add: apply_ops_append)
  moreover have "sound S1 = sound S" using commit_ops_ok(3) [OF c] by (simp add: changes_def)
  ultimately show ?thesis using that r v by blast
qed

lemma upsert_atomic:
  assumes "handle_gotcha_upsert A B env ctx rid input a = (a', res)" and "sound (a_store a)"
  shows "case res of
      Inl e \<Rightarrow> changes {} (a_store a) (a_store a') \<and> a_writer a' = a_writer a
    | Inr d \<Rightarrow> \<exists>ck existing j v. j < 4 \<and> store_get A (a_store a') (gd_key input) = Ok (Some (draft_record B ck (st_now (dv_ck env ''now'')) input existing))
        \<and> dm_audit B (build_audit_entry ctx (st_now (dv_ck env (''accepted '' @ show_nat j))) rid ''gotcha_upsert'' (gd_key input) True None) = Some v
        \<and> content (a_store a') (audit_nanos_key env (''accepted '' @ show_nat j) AUDIT_KNOWLEDGE_PREFIX) = Some v"
  using assms(1)
proof (cases rule: upsert_committed)
  case (ok d T S1 j r is_new old)
  obtain ck existing v where u: "r = draft_record B ck (st_now (dv_ck env ''now'')) input existing"
    "dm_audit B (build_audit_entry ctx (st_now (dv_ck env (''accepted '' @ show_nat j))) rid ''gotcha_upsert'' (gd_key input) True None) = Some v"
    "content S1 (gd_key input) = enc_record A r" "content S1 (audit_nanos_key env (''accepted '' @ show_nat j) AUDIT_KNOWLEDGE_PREFIX) = Some v"
    "sound S1 = sound T" by (rule upsert_once_ok [OF ok(4,2)])
  have f: "content (a_store a') (gd_key input) = enc_record A r"
    "content (a_store a') (audit_nanos_key env (''accepted '' @ show_nat j) AUDIT_KNOWLEDGE_PREFIX) = Some v"
    using u(3,4) changes_content [OF ok(6)] follow_up_other ok(2) by simp_all
  have s: "sound (a_store a')" using ok(3,6) u(5) assms(2) by (simp add: changes_def)
  obtain b where b: "enc_record A r = Some b" using enc_total by blast
  then have "store_get A (a_store a') (gd_key input) = Ok (Some r)"
    using f(1) by (simp add: store_get_content [OF s] decode_as_def dec_enc)
  then show ?thesis using ok(1,5) u(1,2) f(2) by auto
qed simp

end

subsection \<open>Drafts\<close>

text \<open>
  C14. Creating or editing a gotcha through the daemon is atomic and never confirms. When the handler answers with an error, nothing in the store has changed and
  no event was written. When it answers with success, the key holds an active gotcha record whose payload is a rule for the given files that is not
  confirmed, scored by the quality analysis, and the accepted audit entry of the request, of one of the four attempts, is stored with it.
\<close>

theorem gotcha_upsert_atomic:
  assumes "live_store A view healthy live" and "store_sound healthy (a_store a)"
    and "handle_gotcha_upsert A B env ctx rid input a = (a', res)"
  shows "case res of
      Inl e \<Rightarrow> (\<forall>k. store_content view (a_store a') k = store_content view (a_store a) k) \<and> a_writer a' = a_writer a
    | Inr d \<Rightarrow>
        (\<exists>r g. store_get A (a_store a') (gd_key input) = Ok (Some r) \<and> r_category r = Gotcha \<and> r_lifecycle r = Active
           \<and> r_payload r = to_value (sa_gotcha (dm_session B)) g \<and> \<not> g_confirmed g \<and> g_affected_files g = gd_affected_files input
           \<and> (\<exists>now. r_quality r = analyze (dm_unicode B) now r))
        \<and> (\<exists>j<WRITE_CONFLICT_RETRIES. \<exists>v.
           dm_audit B (build_audit_entry ctx (st_now (dv_ck env (''accepted '' @ show_nat j))) rid ''gotcha_upsert'' (gd_key input) True None) = Some v
           \<and> store_content view (a_store a') (audit_nanos_key env (''accepted '' @ show_nat j) AUDIT_KNOWLEDGE_PREFIX) = Some v)"
proof (cases res)
  case (Inl e)
  then show ?thesis
    using live_store.upsert_atomic [OF assms(1,3,2)] by (simp add: live_store.changes_def [OF assms(1)])
next
  case (Inr d)
  obtain ck existing j v where u: "j < 4"
    "store_get A (a_store a') (gd_key input) = Ok (Some (draft_record B ck (st_now (dv_ck env ''now'')) input existing))"
    "dm_audit B (build_audit_entry ctx (st_now (dv_ck env (''accepted '' @ show_nat j))) rid ''gotcha_upsert'' (gd_key input) True None) = Some v"
    "store_content view (a_store a') (audit_nanos_key env (''accepted '' @ show_nat j) AUDIT_KNOWLEDGE_PREFIX) = Some v"
    using live_store.upsert_atomic [OF assms(1,3,2)] Inr by (simp del: append.simps) blast
  obtain g where "r_payload (draft_record B ck (st_now (dv_ck env ''now'')) input existing) = to_value (sa_gotcha (dm_session B)) g" "\<not> g_confirmed g"
    "g_affected_files g = gd_affected_files input"
    using draft_record_payload by blast
  then show ?thesis using Inr u draft_record_fields by (fastforce simp del: append.simps simp: WRITE_CONFLICT_RETRIES_def)
qed

subsection \<open>Confirmations\<close>

definition global_receipt :: "string \<Rightarrow> string" where
  "global_receipt path = ''session:consulted:file:'' @ path"

definition confirm_keys :: "string list \<Rightarrow> string set" where
  "confirm_keys files = edge_keys \<union> log_keys \<union> analytics_keys \<union> global_receipt ` set files"

lemma confirm_other:
  "starts_with k ''gotcha:'' \<Longrightarrow> k \<notin> confirm_keys files"
  "k \<in> receipt_keys \<Longrightarrow> k \<notin> range global_receipt \<Longrightarrow> k \<notin> confirm_keys files"
  "k \<in> receipt_keys \<Longrightarrow> starts_with key ''gotcha:'' \<Longrightarrow> k \<notin> insert key (range file_key \<union> audit_knowledge_keys)"
  "file_key path \<notin> confirm_keys files"
  by (auto simp: confirm_keys_def receipt_keys_def edge_keys_def log_keys_def analytics_keys_def audit_knowledge_keys_def global_receipt_def
      file_key_def starts_with_iff INSTALLATION_ID_KEY_def)

context live_store
begin

lemma delete_eventual:
  assumes "live (sessions S)" and "for_key k = Eventual"
  shows "content (fst (store_delete A S k)) k = None"
proof -
  obtain t' where "kv_commit A (sessions S) Eventual [(k, None)] = (t', None)" using live_commit [OF assms(1)] by blast
  then obtain S1 where c: "commit_on A S Eventual [(k, None)] = (S1, Inr ())" by (simp add: commit_on_def tree_of_def)
  then have "content S1 k = None" using commit_on_ok [OF c] assms(2) by simp
  then show ?thesis using assms(2) by (simp add: store_delete_def c Let_def split: prod.split search_outcome.split)
qed

lemma receipts_dropped:
  assumes "live (sessions S)" and "path \<in> set files"
  shows "content (foldl (\<lambda>S path. fst (store_delete A S (global_receipt path))) S files) (global_receipt path) = None"
proof -
  have keep: "content (foldl (\<lambda>S path. fst (store_delete A S (global_receipt path))) T fs) k = None" if "content T k = None" for T fs k
    using that
  proof (induction fs arbitrary: T)
    case (Cons f fs)
    have "content (fst (store_delete A T (global_receipt f))) k = None"
      using store_delete_content [OF prod.collapse [symmetric], of T "global_receipt f"] Cons.prems
      by (auto split: sum.splits store_error.splits)
    then show ?case using Cons.IH by simp
  qed simp
  show ?thesis using assms
  proof (induction files arbitrary: S)
    case (Cons f fs)
    have l: "live (sessions (fst (store_delete A S (global_receipt f))))"
      using delete_changes Cons.prems(1) by (simp add: changes_def)
    show ?case
    proof (cases "path = f")
      case True
      have "for_key (global_receipt f) = Eventual" by (simp add: for_key_def global_receipt_def starts_with_def)
      then show ?thesis using keep delete_eventual [OF Cons.prems(1)] True by simp
    qed (use Cons.IH [OF l] Cons.prems(2) in simp)
  qed simp
qed

lemma count_writes:
  "fst ` set (op_writes A (put_all (compute_confirmation_propagation A ck S files))) \<subseteq> range file_key"
  by (auto simp: put_all_writes compute_confirmation_propagation_def map_filter_def split: sum.splits option.splits)

text \<open>A committed confirmation: the updates of the counters are the last writes to the file records.\<close>

lemma confirm_once_ok:
  assumes "confirm_commit_once A B env ctx rid key now S j = (S1, Inr (r', files))" and "starts_with key ''gotcha:''"
  obtains r ck ws ak v where "store_get A S key = Ok (Some r)" "r' = confirmed_record B ck now r"
    "files = (case payload_as (from_value (sa_gotcha (dm_session B))) r' of Some g \<Rightarrow> g_affected_files g | None \<Rightarrow> [])"
    "content S1 = apply_ops (((key, enc_record A r') # ws)
       @ op_writes A (put_all (compute_confirmation_propagation A ck S files)) @ [(ak, Some v)]) (content S)"
    "fst ` set ws \<subseteq> range file_key" "ak \<in> audit_knowledge_keys" "changes (insert key (range file_key \<union> audit_knowledge_keys)) S S1"
proof -
  let ?ak = "audit_nanos_key env (''accepted '' @ show_nat j) AUDIT_KNOWLEDGE_PREFIX" and ?ck = "\<lambda>site. dv_ck env (site @ show_nat j)"
  let ?files = "\<lambda>r'. case payload_as (from_value (sa_gotcha (dm_session B))) r' of Some g \<Rightarrow> g_affected_files g | None \<Rightarrow> []"
  let ?links = "\<lambda>r'. put_all (compute_file_link_updates A (dm_json B) (sa_file (dm_session B)) ?ck S key [] (?files r'))"
  let ?counts = "\<lambda>r'. put_all (compute_confirmation_propagation A ?ck S (?files r'))"
  obtain r where g: "store_get A S key = Inr (Some r)" "r_category r = Gotcha" "r_lifecycle r = Active"
    using assms(1) by (auto simp: confirm_commit_once_def Let_def split: sum.splits option.splits if_splits)
  obtain v where v: "dm_audit B (build_audit_entry ctx (st_now (dv_ck env (''accepted '' @ show_nat j))) rid ''gotcha_confirm'' key True None) = Some v"
    using assms(1) by (auto simp: confirm_commit_once_def Let_def g make_audit_def make_audit_with_prefix_def split: option.splits)
  define r0 where "r0 = confirmed_record B ?ck now r"
  have c: "commit_ops A S ''transact failed'' (PutRecord key r0 # ?links r0 @ ?counts r0 @ [PutRaw ?ak v]) (r0, ?files r0) = (S1, Inr (r', files))"
    using assms(1) v by (simp add: confirm_commit_once_def Let_def g make_audit_def make_audit_with_prefix_def r0_def)
  have r: "r' = r0" "files = ?files r'" using commit_ops_ok(1) [OF c] by simp_all
  have "content S1 = apply_ops (((key, enc_record A r') # op_writes A (?links r')) @ op_writes A (?counts r') @ [(?ak, Some v)]) (content S)"
    using commit_ops_ok(2) [OF c] r by (simp add: op_writes_def)
  moreover have l: "fst ` set (op_writes A (?links r')) \<subseteq> range file_key" by (rule link_writes)
  moreover have "changes (insert key (range file_key \<union> audit_knowledge_keys)) S S1"
  proof (rule changes_mono [OF commit_ops_ok(3) [OF c]])
    have "op_key ` set ops = fst ` set (op_writes A ops)" for ops by (simp add: op_writes_def image_image)
    then show "op_key ` set (PutRecord key r0 # ?links r0 @ ?counts r0 @ [PutRaw ?ak v]) \<subseteq> insert key (range file_key \<union> audit_knowledge_keys)"
      using l count_writes [of ?ck S "?files r0"] r by (simp add: image_Un) blast
  qed
  ultimately show ?thesis using that g(1) r r0_def audit_knowledge_key by blast
qed

lemma confirm_first_write:
  assumes "fst ` set ws \<subseteq> range file_key" "fst ` set ys \<subseteq> range file_key" "ak \<in> audit_knowledge_keys" "starts_with key ''gotcha:''"
  shows "apply_ops (((key, v) # ws) @ ys @ [(ak, w)]) m key = v"
proof -
  have "key \<notin> range file_key" "key \<noteq> ak" using assms(3,4) distinct_spaces(1,2) by blast+
  then have "key \<notin> fst ` set (ws @ ys @ [(ak, w)])" using assms(1,2) by auto
  then show ?thesis by simp
qed

lemma confirm_committed:
  assumes "handle_gotcha_confirm A B env ctx rid key a = (a', Inr d)" and "live (sessions (a_store a))"
  obtains T j S1 r' files where "starts_with key ''gotcha:''" "changes {} (a_store a) T"
    "confirm_commit_once A B env ctx rid key (st_now (dv_ck env ''now'')) T j = (S1, Inr (r', files))"
    "changes (confirm_keys files) S1 (a_store a')" "\<forall>path\<in>set files. content (a_store a') (global_receipt path) = None"
proof -
  have p: "starts_with key ''gotcha:''" using assms(1) by (auto simp: handle_gotcha_confirm_def Let_def split: if_splits)
  obtain S1 r1 where r: "retry_on_write_conflict (confirm_commit_once A B env ctx rid key (st_now (dv_ck env ''now''))) (a_store a) = (S1, r1)"
    by (metis surj_pair)
  obtain r' files where r1: "r1 = Inr (r', files)"
    using assms(1) p r by (cases r1) (auto simp: handle_gotcha_confirm_def Let_def)
  obtain T j where T: "changes {} (a_store a) T" "confirm_commit_once A B env ctx rid key (st_now (dv_ck env ''now'')) T j = (S1, r1)"
    by (rule retried [OF r confirm_once_err])
  let ?S2 = "sync_has_gotcha_edges A (st_now (dv_ck env ''edges'')) S1 key [] files"
  let ?S3 = "foldl (\<lambda>S path. fst (store_delete A S (global_receipt path))) ?S2 files"
  let ?a4 = "record_logged A B env (a\<lparr>a_store := ?S3\<rparr>) (control_request Confirmed key ''control_confirmed'') None"
  let ?S5 = "fst (mark_outcome A (dm_extraction B) (st_now (dv_ck env ''outcome'')) (dv_ck env ''outcome record'') (st_now (dv_ck env ''outcome wall'')) (a_store ?a4) key OutcomeConfirmed)"
  have a': "a_store a' = ?S5" using assms(1) p r r1 by (auto simp: handle_gotcha_confirm_def Let_def global_receipt_def)
  have l: "live (sessions ?S2)"
    using confirm_once_ok [OF T(2) [unfolded r1] p] T(1) assms(2) edge_sync_changes by (metis changes_def)
  have e: "changes edge_keys S1 ?S2" by (rule edge_sync_changes)
  have d: "changes (global_receipt ` set files) ?S2 ?S3" by (rule fold_deletes_in) simp
  have g: "changes log_keys ?S3 (a_store ?a4)" using logged_changes [of "a\<lparr>a_store := ?S3\<rparr>"] by simp
  have m: "changes analytics_keys (a_store ?a4) ?S5" by (rule extraction_changes(2))
  have "changes (confirm_keys files) S1 ?S5"
    by (rule changes_mono [OF changes_trans [OF changes_trans [OF changes_trans [OF e d] g] m]]) (auto simp: confirm_keys_def)
  moreover have "content ?S5 (global_receipt path) = None" if "path \<in> set files" for path
  proof -
    have n: "global_receipt path \<notin> log_keys" "global_receipt path \<notin> analytics_keys"
      by (simp_all add: global_receipt_def log_keys_def analytics_keys_def starts_with_def INSTALLATION_ID_KEY_def)
    show ?thesis using receipts_dropped [OF l that] changes_content [OF m n(2)] changes_content [OF g n(1)] by simp
  qed
  ultimately show ?thesis using that p T r1 a' by metis
qed

lemma confirm_stored:
  assumes "handle_gotcha_confirm A B env ctx rid key a = (a', Inr d)" and "running (a_store a)" and "store_get A (a_store a) key = Ok (Some r)"
  obtains ck where "store_get A (a_store a') key = Ok (Some (confirmed_record B ck (st_now (dv_ck env ''now'')) r))"
proof -
  have l: "sound (a_store a)" "live (sessions (a_store a))" using assms(2) by (simp_all add: running_def)
  obtain T j S1 r' files where c: "starts_with key ''gotcha:''" "changes {} (a_store a) T"
    "confirm_commit_once A B env ctx rid key (st_now (dv_ck env ''now'')) T j = (S1, Inr (r', files))"
    "changes (confirm_keys files) S1 (a_store a')" by (rule confirm_committed [OF assms(1) l(2)])
  obtain r0 ck ws ak v where o: "store_get A T key = Ok (Some r0)" "r' = confirmed_record B ck (st_now (dv_ck env ''now'')) r0"
    "content S1 = apply_ops (((key, enc_record A r') # ws)
       @ op_writes A (put_all (compute_confirmation_propagation A ck T files)) @ [(ak, Some v)]) (content T)"
    "fst ` set ws \<subseteq> range file_key" "ak \<in> audit_knowledge_keys" "changes (insert key (range file_key \<union> audit_knowledge_keys)) T S1"
    by (rule confirm_once_ok [OF c(3,1)])
  have s: "sound T" "sound (a_store a')" using c(2,4) o(6) l(1) by (simp_all add: changes_def)
  have "r0 = r" using o(1) assms(3) c(2) by (simp add: changes_def store_get_content [OF s(1)] store_get_content [OF l(1)])
  moreover have "content (a_store a') key = enc_record A r'"
    unfolding changes_content [OF c(4) confirm_other(1) [OF c(1)]] o(3) by (rule confirm_first_write [OF o(4) count_writes o(5) c(1)])
  ultimately show ?thesis using that [of ck] o(2) enc_total [of r'] by (auto simp: store_get_content [OF s(2)] decode_as_def dec_enc)
qed

text \<open>The stored record of a confirmed gotcha and what the confirmation did around it.\<close>

lemma confirm_effect:
  assumes "handle_gotcha_confirm A B env ctx rid key a = (a', Inr d)" and "live (sessions (a_store a))" and "sound (a_store a)"
    and "store_get A (a_store a') key = Ok (Some r)" and "payload_as (from_value (sa_gotcha (dm_session B))) r = Some g"
    and "path \<in> set (g_affected_files g)"
  shows "content (a_store a') (global_receipt path) = None" and "sound (a_store a')"
    and "k \<in> receipt_keys \<Longrightarrow> k \<notin> range global_receipt \<Longrightarrow> content (a_store a') k = content (a_store a) k"
    and "store_get A (a_store a) (file_key path) = Ok (Some f) \<Longrightarrow>
      \<exists>now. store_get A (a_store a') (file_key path) = Ok (Some (touch now
        (f\<lparr>r_confidence := (r_confidence f)\<lparr>c_confirmation_count := c_confirmation_count (r_confidence f) + 1\<rparr>\<rparr>)))"
proof -
  obtain T j S1 r' files where c: "starts_with key ''gotcha:''" "changes {} (a_store a) T"
    "confirm_commit_once A B env ctx rid key (st_now (dv_ck env ''now'')) T j = (S1, Inr (r', files))"
    "changes (confirm_keys files) S1 (a_store a')" "\<forall>path\<in>set files. content (a_store a') (global_receipt path) = None"
    by (rule confirm_committed [OF assms(1,2)])
  obtain r0 ck ws ak v where "store_get A T key = Ok (Some r0)" "r' = confirmed_record B ck (st_now (dv_ck env ''now'')) r0"
    and o: "files = (case payload_as (from_value (sa_gotcha (dm_session B))) r' of Some g \<Rightarrow> g_affected_files g | None \<Rightarrow> [])"
    "content S1 = apply_ops (((key, enc_record A r') # ws)
       @ op_writes A (put_all (compute_confirmation_propagation A ck T files)) @ [(ak, Some v)]) (content T)"
    "fst ` set ws \<subseteq> range file_key" "ak \<in> audit_knowledge_keys" "changes (insert key (range file_key \<union> audit_knowledge_keys)) T S1"
    by (rule confirm_once_ok [OF c(3,1)])
  show s: "sound (a_store a')" using c(2,4) o(5) assms(3) by (simp add: changes_def)
  have "content (a_store a') key = enc_record A r'"
    unfolding changes_content [OF c(4) confirm_other(1) [OF c(1)]] o(2) by (rule confirm_first_write [OF o(3) count_writes o(4) c(1)])
  then have r: "r' = r" using assms(4) enc_total [of r'] by (auto simp: store_get_content [OF s] decode_as_def dec_enc)
  then have f: "files = g_affected_files g" using o(1) assms(5) by simp
  show "content (a_store a') (global_receipt path) = None" using c(5) f assms(6) by blast
  show "content (a_store a') k = content (a_store a) k" if "k \<in> receipt_keys" "k \<notin> range global_receipt"
    using changes_content [OF c(4) confirm_other(2) [OF that]] changes_content [OF o(5) confirm_other(3) [OF that(1) c(1)]] changes_content [OF c(2)]
    by simp
  show "\<exists>now. store_get A (a_store a') (file_key path) = Ok (Some (touch now
        (f\<lparr>r_confidence := (r_confidence f)\<lparr>c_confirmation_count := c_confirmation_count (r_confidence f) + 1\<rparr>\<rparr>)))"
    if g: "store_get A (a_store a) (file_key path) = Ok (Some f)"
  proof -
    let ?f = "touch (st_now (ck ''propagation'')) (f\<lparr>r_confidence := (r_confidence f)\<lparr>c_confirmation_count := c_confirmation_count (r_confidence f) + 1\<rparr>\<rparr>)"
    have t: "store_get A T (file_key path) = Ok (Some f)"
      using g c(2) assms(3) by (simp add: changes_def store_get_content)
    have "content S1 (file_key path) = enc_record A ?f" unfolding o(2)
    proof (rule apply_ops_agree)
      show "file_key path \<in> fst ` set (op_writes A (put_all (compute_confirmation_propagation A ck T files)))"
        using assms(6) f t by (force simp: put_all_writes compute_confirmation_propagation_def map_filter_def)
      show "\<forall>kv\<in>set (op_writes A (put_all (compute_confirmation_propagation A ck T files))). fst kv = file_key path \<longrightarrow> snd kv = enc_record A ?f"
        using t by (auto simp: put_all_writes compute_confirmation_propagation_def map_filter_def file_key_def
          split: sum.splits option.splits)
      show "file_key path \<notin> fst ` set [(ak, Some v)]" using o(4) by auto
    qed
    then have "content (a_store a') (file_key path) = enc_record A ?f"
      using changes_content [OF c(4) confirm_other(4)] by simp
    then show ?thesis using enc_total [of ?f] by (auto simp: store_get_content [OF s] decode_as_def dec_enc)
  qed
qed

end

text \<open>The receipt of an actor is not one of those without an actor, unless the actor's name imitates a file key.\<close>

lemma actor_receipt:
  assumes "actor \<noteq> ''file''" and "\<not> starts_with actor ''file:''"
  shows "receipt_key (file_key path) (Some actor) \<notin> range global_receipt"
proof
  assume "receipt_key (file_key path) (Some actor) \<in> range global_receipt"
  then obtain p where "actor @ '':file:'' @ path = ''file:'' @ p" by (auto simp: receipt_key_def global_receipt_def file_key_def)
  then show False using assms by (auto simp: append_eq_append_conv2 append_eq_Cons_conv starts_with_iff)
qed

lemma receipt_keys_mem [simp]: "receipt_key key actor \<in> receipt_keys"
  by (simp add: receipt_key_def receipt_keys_def starts_with_def split: option.split)

text \<open>
  C22. A confirmation takes back what was granted before it, but only the receipts without an actor. After the daemon has confirmed a gotcha with a working
  session tree, no affected file counts as consulted any more when no actor is named; for an actor, such as a sub-agent, the answer
  is the same as before the confirmation, so that a receipt from before the rule was confirmed still opens the gate.
\<close>

theorem confirm_receipts:
  assumes "live_store A view healthy live" and "store_sound healthy (a_store a)" and "live (sessions (a_store a))"
    and "handle_gotcha_confirm A B env ctx rid key a = (a', Inr d)" and "store_get A (a_store a') key = Ok (Some r)"
    and "payload_as (from_value (sa_gotcha (dm_session B))) r = Some g" and "path \<in> set (g_affected_files g)"
  shows "check_consulted A (a_store a') (file_key path) None = Ok False
    \<and> (actor \<noteq> ''file'' \<and> \<not> starts_with actor ''file:'' \<longrightarrow>
       check_consulted A (a_store a') (file_key path) (Some actor) = check_consulted A (a_store a) (file_key path) (Some actor))"
proof -
  note e = live_store.confirm_effect [OF assms(1,4,3,2,5,6,7)]
  note get = store_laws.store_get_content [OF live_store.axioms(1) [OF assms(1)]]
  have "receipt_key (file_key path) None = global_receipt path" by (simp add: receipt_key_def file_key_def global_receipt_def)
  then have "check_consulted A (a_store a') (file_key path) None = Ok False"
    using e(1) by (simp add: check_consulted_def get [OF e(2)] decode_as_def)
  moreover have "check_consulted A (a_store a') (file_key path) (Some actor) = check_consulted A (a_store a) (file_key path) (Some actor)"
    if "actor \<noteq> ''file''" "\<not> starts_with actor ''file:''"
    using e(3) [OF receipt_keys_mem actor_receipt [OF that]] by (simp add: check_consulted_def get [OF e(2)] get [OF assms(2)])
  ultimately show ?thesis by blast
qed

text \<open>
  C37. A confirmation does not link the gotcha to a file record that exists. The transaction holds an update of the record with the new link and, after it,
  an update of the confirmation counter computed from the record as it was read: what is stored is the record from before the
  request with its counter raised, and its payload, with the list of gotcha keys that the gate reads, is unchanged.
\<close>

theorem confirm_link_lost:
  assumes "live_store A view healthy live" and "store_sound healthy (a_store a)" and "live (sessions (a_store a))"
    and "handle_gotcha_confirm A B env ctx rid key a = (a', Inr d)" and "store_get A (a_store a') key = Ok (Some r)"
    and "payload_as (from_value (sa_gotcha (dm_session B))) r = Some g" and "path \<in> set (g_affected_files g)"
    and "store_get A (a_store a) (file_key path) = Ok (Some f)"
  shows "\<exists>f'. store_get A (a_store a') (file_key path) = Ok (Some f') \<and> r_payload f' = r_payload f
    \<and> c_confirmation_count (r_confidence f') = c_confirmation_count (r_confidence f) + 1"
  using live_store.confirm_effect(4) [OF assms(1,4,3,2,5,6,7,8)] by (auto simp: touch_def)

subsection \<open>Instances\<close>

context live_store
begin

lemma transact_knowledge_live:
  assumes "running S" and "ops \<noteq> []" and "\<forall>op\<in>set ops. for_key (op_key op) = Immediate"
  shows "\<exists>S'. transact_knowledge A S ops = (S', Inr ())"
proof -
  have "\<exists>ws. encode_ops A xs = Inr ws" for xs
  proof (induction xs)
    case (Cons op xs)
    then obtain ws where "encode_ops A xs = Inr ws" by blast
    moreover obtain b where "\<And>k r. op = PutRecord k r \<Longrightarrow> enc_record A r = Some b" using enc_total by (cases op) auto
    ultimately show ?case by (cases op) (auto simp: rbind_def)
  qed simp
  then obtain ws where ws: "encode_ops A ops = Inr ws" by blast
  obtain S1 where "commit_on A S Immediate ws = (S1, Inr ())" by (rule commit_on_live [OF assms(1)])
  moreover have "find (\<lambda>op. for_key (op_key op) \<noteq> Immediate) ops = None" using assms(3) by (auto simp: find_None_iff)
  ultimately show ?thesis using assms(2) ws by (auto simp: transact_knowledge_def Let_def)
qed

lemma commit_ops_live:
  assumes "running S" and "ops \<noteq> []" and "\<forall>op\<in>set ops. for_key (op_key op) = Immediate"
  shows "\<exists>S'. commit_ops A S label ops val = (S', Inr val)"
  using transact_knowledge_live [OF assms] by (auto simp: commit_ops_def)

lemma retry_first: "op S 0 = (S', Inr val) \<Longrightarrow> retry_on_write_conflict op S = (S', Inr val)"
  by (simp add: retry_on_write_conflict_def WRITE_CONFLICT_RETRIES_def numeral_3_eq_3)

lemma knowledge_keys_immediate:
  "starts_with k ''gotcha:'' \<Longrightarrow> for_key k = Immediate" "k \<in> range file_key \<Longrightarrow> for_key k = Immediate"
  "k \<in> audit_knowledge_keys \<Longrightarrow> for_key k = Immediate"
  by (auto simp: for_key_def file_key_def audit_knowledge_keys_def starts_with_iff)

lemma mutation_live:
  assumes "running S" and "starts_with key ''gotcha:''" and "fst ` set (op_writes A (put_all xs)) \<subseteq> range file_key" and "ak \<in> audit_knowledge_keys"
  shows "snd (commit_ops A S label (PutRecord key r # put_all xs @ [PutRaw ak v]) val) = Inr val"
proof -
  have "for_key (op_key op) = Immediate" if "op \<in> set (put_all xs)" for op :: "('v, 'j) KnowledgeWriteOp"
  proof (rule knowledge_keys_immediate(2))
    have "op_key op \<in> fst ` set (op_writes A (put_all xs))" using that by (simp add: op_writes_def image_image)
    then show "op_key op \<in> range file_key" using assms(3) by blast
  qed
  then have "\<forall>op\<in>set (PutRecord key r # put_all xs @ [PutRaw ak v]). for_key (op_key op) = Immediate"
    using knowledge_keys_immediate(1) [OF assms(2)] knowledge_keys_immediate(3) [OF assms(4)] by auto
  then show ?thesis using commit_ops_live [OF assms(1)] by (metis list.distinct(1) snd_conv)
qed

lemma audit_made:
  assumes "\<And>e. dm_audit B e \<noteq> None"
  obtains v where "make_audit B env ctx site rid kind key True None = Some (audit_nanos_key env site AUDIT_KNOWLEDGE_PREFIX, v)"
  using assms by (auto simp: make_audit_def make_audit_with_prefix_def)

lemma upsert_answers:
  assumes "running (a_store a)" and "store_get A (a_store a) (gd_key input) = Inr existing" and "starts_with (gd_key input) ''gotcha:''"
    and "gd_rule input \<noteq> []" and "\<And>e. dm_audit B e \<noteq> None"
  shows "\<exists>a' d. handle_gotcha_upsert A B env ctx rid input a = (a', Inr d)"
proof -
  let ?now = "st_now (dv_ck env ''now'')"
  obtain v where v: "make_audit B env ctx (''accepted '' @ show_nat 0) rid ''gotcha_upsert'' (gd_key input) True None
      = Some (audit_nanos_key env (''accepted '' @ show_nat 0) AUDIT_KNOWLEDGE_PREFIX, v)" by (rule audit_made [OF assms(5)])
  have "\<exists>val. snd (upsert_commit_once A B env ctx rid input ?now (a_store a) 0) = Inr val"
    unfolding upsert_commit_once_def Let_def assms(2) v sum.case option.case prod.case
      mutation_live [OF assms(1,3) link_writes audit_knowledge_key] by blast
  then obtain S' r n old where "upsert_commit_once A B env ctx rid input ?now (a_store a) 0 = (S', Inr (r, n, old))"
    by (metis prod_cases3 prod.collapse)
  then show ?thesis using retry_first assms(3,4) by (fastforce simp: handle_gotcha_upsert_def Let_def)
qed

lemma confirm_answers:
  assumes "running (a_store a)" and "store_get A (a_store a) key = Inr (Some r)" and "starts_with key ''gotcha:''"
    and "r_category r = Gotcha" and "r_lifecycle r = Active" and "\<And>e. dm_audit B e \<noteq> None"
  shows "\<exists>a' d. handle_gotcha_confirm A B env ctx rid key a = (a', Inr d)"
proof -
  let ?now = "st_now (dv_ck env ''now'')"
  obtain v where v: "make_audit B env ctx (''accepted '' @ show_nat 0) rid ''gotcha_confirm'' key True None
      = Some (audit_nanos_key env (''accepted '' @ show_nat 0) AUDIT_KNOWLEDGE_PREFIX, v)" by (rule audit_made [OF assms(6)])
  have p: "put_all xs @ put_all ys @ zs = put_all (xs @ ys) @ zs" for xs ys :: "(string \<times> 'j Record) list" and zs :: "('v, 'j) KnowledgeWriteOp list"
    by (simp add: put_all_def)
  have w: "fst ` set (op_writes A (put_all (compute_file_link_updates A J F ck S k old new @ compute_confirmation_propagation A ck S files))) \<subseteq> range file_key"
    for J F ck S k old new files
    using link_writes [of J F ck S k old new] count_writes [of ck S files] by (simp add: put_all_writes image_Un)
  have "\<exists>val. snd (confirm_commit_once A B env ctx rid key ?now (a_store a) 0) = Inr val"
    unfolding confirm_commit_once_def Let_def assms(2,4,5) v sum.case option.case prod.case p
      mutation_live [OF assms(1,3) w audit_knowledge_key] by (simp add: mutation_live [OF assms(1,3) w audit_knowledge_key] del: append.simps)
  then obtain S' r' files where "confirm_commit_once A B env ctx rid key ?now (a_store a) 0 = (S', Inr (r', files))"
    by (metis surj_pair prod.collapse)
  then show ?thesis using retry_first assms(3) by (fastforce simp: handle_gotcha_confirm_def Let_def)
qed

end

definition demo_draft :: GotchaDraftInput where
  "demo_draft = \<lparr> gd_key = ''gotcha:g'', gd_rule = ''Never block'', gd_reason = ''it stalls'', gd_severity = SevHigh,
     gd_affected_files = [''a.rs''], gd_ref_url = None, gd_tags = [], gd_priority = PrioHigh, gd_source = None \<rparr>"

lemma demo_audits: "dm_audit demo_daemon_api e \<noteq> None"
  by (simp add: demo_daemon_api_def)

theorem gotcha_upsert_atomic_witness:
  "\<exists>a' d r g. handle_gotcha_upsert mem_store demo_daemon_api demo_daemon_env demo_ctx 1 demo_draft demo_session = (a', Inr d)
     \<and> store_get mem_store (a_store a') ''gotcha:g'' = Ok (Some r)
     \<and> r_payload r = to_value demo_gotcha_serde g \<and> \<not> g_confirmed g \<and> g_affected_files g = [''a.rs'']"
proof -
  have s: "store_sound mem_healthy (a_store demo_session)" using demo_session_facts(1) by (simp add: mem_live.running_def)
  have f: "gd_key demo_draft = ''gotcha:g''" "gd_affected_files demo_draft = [''a.rs'']" "gd_rule demo_draft \<noteq> []"
    "sa_gotcha (dm_session demo_daemon_api) = demo_gotcha_serde"
    by (simp_all add: demo_draft_def demo_daemon_api_def demo_session_api_def)
  have "store_get mem_store (a_store demo_session) (gd_key demo_draft) = Inr None"
    by (simp add: mem.store_get_content [OF s] demo_session_facts(2) decode_as_def)
  then obtain a' d where h: "handle_gotcha_upsert mem_store demo_daemon_api demo_daemon_env demo_ctx 1 demo_draft demo_session = (a', Inr d)"
    using mem_live.upsert_answers [OF demo_session_facts(1) _ _ f(3) demo_audits] f(1) by (fastforce simp: starts_with_def)
  show ?thesis using gotcha_upsert_atomic [OF mem_live.live_store_axioms s h] h by (auto simp: f)
qed

text \<open>A gotcha for a file whose record does not list it, and a receipt of a sub-agent from before the confirmation.\<close>

definition demo_unconfirmed :: "jvalue Record" where
  "demo_unconfirmed = (demo_record ''gotcha:g'' 5)\<lparr>r_category := Gotcha, r_payload := Some (JArr [JStr ''a.rs''])\<rparr>"

definition demo_unlinked :: "jvalue Record" where
  "demo_unlinked = (demo_record ''file:a.rs'' 5)\<lparr>r_payload := Some (JObj [(''gotcha_keys'', JArr [])])\<rparr>"

definition demo_before :: "((unit, jvalue) cell mem_tree, bool \<times> string list) Audit" where
  "demo_before = \<lparr> a_store = demo_empty\<lparr>knowledge := empty_tree\<lparr>mt_cells :=
       [(''gotcha:g'', RecordCell demo_unconfirmed), (''file:a.rs'', RecordCell demo_unlinked)]\<rparr>,
     sessions := empty_tree\<lparr>mt_cells := [(''session:consulted:agent-1:file:a.rs'', RecordCell (demo_record ''session:consulted:agent-1:file:a.rs'' 5))]\<rparr>\<rparr>,
     a_writer = None \<rparr>"

lemma demo_before_facts:
  "mem_live.running (a_store demo_before)"
  "store_get mem_store (a_store demo_before) ''gotcha:g'' = Inr (Some demo_unconfirmed)"
  "store_get mem_store (a_store demo_before) (file_key ''a.rs'') = Inr (Some demo_unlinked)"
  "check_consulted mem_store (a_store demo_before) (file_key ''a.rs'') (Some ''agent-1'') = Ok True"
  "r_category demo_unconfirmed = Gotcha" "r_lifecycle demo_unconfirmed = Active"
  by (simp_all add: mem_live.running_def store_sound_def mem_healthy_def demo_before_def empty_store_def empty_tree_def check_consulted_def
      store_get_def read_record_def tree_for_def tree_of_def mem_store_def mem_get_def for_key_def starts_with_def file_key_def receipt_key_def
      rbind_def demo_unconfirmed_def demo_record_def layer0_file_stub_def)

lemma demo_confirmation:
  obtains a' d r where "handle_gotcha_confirm mem_store demo_daemon_api demo_daemon_env demo_ctx 1 ''gotcha:g'' demo_before = (a', Inr d)"
    "store_get mem_store (a_store a') ''gotcha:g'' = Ok (Some r)"
    "payload_as (from_value (sa_gotcha (dm_session demo_daemon_api))) r = Some (demo_gotcha_of [''a.rs''])"
proof -
  have p: "starts_with ''gotcha:g'' ''gotcha:''" by (simp add: starts_with_def)
  obtain a' d where h: "handle_gotcha_confirm mem_store demo_daemon_api demo_daemon_env demo_ctx 1 ''gotcha:g'' demo_before = (a', Inr d)"
    using mem_live.confirm_answers [OF demo_before_facts(1,2) p demo_before_facts(5,6) demo_audits] by blast
  obtain ck where "store_get mem_store (a_store a') ''gotcha:g'' = Ok (Some (confirmed_record demo_daemon_api ck (st_now (dv_ck demo_daemon_env ''now'')) demo_unconfirmed))"
    by (rule mem_live.confirm_stored [OF h demo_before_facts(1,2)])
  then show ?thesis using that h
    by (fastforce simp: confirmed_record_def touch_def rescored_def confirm_payload_def demo_unconfirmed_def payload_as_def demo_daemon_api_def
        demo_session_api_def demo_gotcha_serde_def map_filter_simps)
qed

theorem confirm_receipts_witness:
  "\<exists>a' d. handle_gotcha_confirm mem_store demo_daemon_api demo_daemon_env demo_ctx 1 ''gotcha:g'' demo_before = (a', Inr d)
     \<and> check_consulted mem_store (a_store a') (file_key ''a.rs'') None = Ok False
     \<and> check_consulted mem_store (a_store a') (file_key ''a.rs'') (Some ''agent-1'') = Ok True"
proof -
  obtain a' d r where h: "handle_gotcha_confirm mem_store demo_daemon_api demo_daemon_env demo_ctx 1 ''gotcha:g'' demo_before = (a', Inr d)"
    "store_get mem_store (a_store a') ''gotcha:g'' = Ok (Some r)"
    "payload_as (from_value (sa_gotcha (dm_session demo_daemon_api))) r = Some (demo_gotcha_of [''a.rs''])" by (rule demo_confirmation)
  have s: "store_sound mem_healthy (a_store demo_before)" "\<not> mt_commit_fails (sessions (a_store demo_before))"
    using demo_before_facts(1) by (simp_all add: mem_live.running_def)
  have "''a.rs'' \<in> set (g_affected_files (demo_gotcha_of [''a.rs'']))" by (simp add: demo_gotcha_of_def)
  from confirm_receipts [OF mem_live.live_store_axioms s h this, of "''agent-1''"] show ?thesis
    using h(1) demo_before_facts(4) by (simp add: starts_with_def)
qed

theorem confirm_link_lost_witness:
  "\<exists>a' d f'. handle_gotcha_confirm mem_store demo_daemon_api demo_daemon_env demo_ctx 1 ''gotcha:g'' demo_before = (a', Inr d)
     \<and> store_get mem_store (a_store a') (file_key ''a.rs'') = Ok (Some f') \<and> r_payload f' = Some (JObj [(''gotcha_keys'', JArr [])])"
proof -
  obtain a' d r where h: "handle_gotcha_confirm mem_store demo_daemon_api demo_daemon_env demo_ctx 1 ''gotcha:g'' demo_before = (a', Inr d)"
    "store_get mem_store (a_store a') ''gotcha:g'' = Ok (Some r)"
    "payload_as (from_value (sa_gotcha (dm_session demo_daemon_api))) r = Some (demo_gotcha_of [''a.rs''])" by (rule demo_confirmation)
  have s: "store_sound mem_healthy (a_store demo_before)" "\<not> mt_commit_fails (sessions (a_store demo_before))"
    using demo_before_facts(1) by (simp_all add: mem_live.running_def)
  have "''a.rs'' \<in> set (g_affected_files (demo_gotcha_of [''a.rs'']))" by (simp add: demo_gotcha_of_def)
  from confirm_link_lost [OF mem_live.live_store_axioms s h this demo_before_facts(3)] show ?thesis
    using h(1) by (auto simp: demo_unlinked_def)
qed

end
