(* ===== verification/Staleness_Spec.thy ===== *)
theory Staleness_Spec
  imports Reparse Gotcha_Spec
begin

section \<open>Properties of staleness scores\<close>

text \<open>
  Every operation that computes a score keeps it between 0 and 1 with the tier of its value, and only a missing file makes the analysis
  tombstone a record.
\<close>

definition staleness_ok :: "StalenessScore \<Rightarrow> bool" where
  "staleness_ok s \<longleftrightarrow> bounded 1 (s_value s) \<and> s_tier s = staleness_tier_from_value (s_value s)"

subsection \<open>Numbers that are not negative\<close>

abbreviation nonneg :: "flt \<Rightarrow> bool" where "nonneg x \<equiv> flt_le (Fin 0) x"

lemma nonneg_add: "nonneg x \<Longrightarrow> nonneg y \<Longrightarrow> nonneg (f32_add x y)"
  by (cases x; cases y) (use r32_mono [of 0] in auto)

lemma nonneg_weight:
  assumes "1/32 \<le> q" and "q \<le> 1"
  shows "nonneg (f32_mul (f32_of_nat n) (r32 q))"
proof -
  have "r32 (1/32) = Fin (1/32)" by code_simp
  then obtain w where w: "r32 q = Fin w" "0 < w" using r32_between [of "1/32" q 1] assms by auto
  show ?thesis using f32_of_nat_cases [of n]
  proof
    assume "\<exists>z\<ge>0. f32_of_nat n = Fin z"
    then obtain z where "0 \<le> z" "f32_of_nat n = Fin z" by blast
    then show ?thesis using w r32_mono [of 0 "z * w"] by simp
  qed (use w in \<open>simp add: inf_of_sign_def\<close>)
qed

lemma bounded_nonneg: "bounded b x \<Longrightarrow> nonneg x"
  by (simp add: bounded_def)

lemma reparse_increment_nonneg: "nonneg (reparse_increment d)"
proof -
  have "nonneg (snd s)" if "s \<in> set (reparse_signals d)" for s
    using that r32_mono [of 0 "5/100"]
    by (auto simp: reparse_signals_def Let_def f32_of_u32_def ENTRY_POINT_WEIGHT_def IMPORT_WEIGHT_def TODOS_WEIGHT_def UNSAFE_WEIGHT_def
        UNWRAP_WEIGHT_def intro!: nonneg_weight split: if_splits)
  moreover have "nonneg acc \<Longrightarrow> (\<forall>s\<in>set ss. nonneg (snd s)) \<Longrightarrow> nonneg (foldl (\<lambda>acc s. f32_add acc (snd s)) acc ss)" for acc ss
    by (induction ss arbitrary: acc) (auto intro: nonneg_add)
  ultimately have "nonneg (foldl (\<lambda>acc s. f32_add acc (snd s)) (r32 0) (reparse_signals d))" by (metis flt_le_Fin order_refl r32_zero)
  then show ?thesis using r32_mono [of 0 "4/10"] by (simp add: reparse_increment_def f32_min_def MAX_REPARSE_INCREMENT_def)
qed

lemma raised_ok: "bounded 1 (s_value s) \<Longrightarrow> nonneg inc \<Longrightarrow> staleness_ok (raised now inc new s)"
  using bounded_min_one [of "f32_add (s_value s) inc"] nonneg_add bounded_nonneg by (simp add: raised_def staleness_ok_def Let_def)

lemma tier_values:
  "staleness_tier_from_value (Fin 1) = Tombstone" "staleness_tier_from_value (r32 (17/20)) = Liability" "bounded 1 (r32 (17/20))"
proof -
  have "r32 (17/20) = Fin (14260634/16777216)" using r32_near [of "17/20" 24 14260634] by simp
  then show "staleness_tier_from_value (r32 (17/20)) = Liability"
    by (simp add: staleness_tier_from_value_def r32_literals)
  show "bounded 1 (r32 (17/20))" by (simp add: bounded_r32)
  show "staleness_tier_from_value (Fin 1) = Tombstone" by (simp add: staleness_tier_from_value_def r32_literals)
qed

subsection \<open>Factors\<close>

lemma r64_one: "r64 1 = Fin 1"
proof -
  have "ilog2 1 = 0" using ilog2_unique [of 0 1] by simp
  moreover have "grid (-52) 1 = 1" using grid_powi [of "-52" 52] by simp
  moreover have "\<not> (2::rat) powi 1024 \<le> 1" using power_int_strict_increasing [of 0 1024 "2::rat"] by simp
  moreover have "\<not> (1::rat) \<le> - (2 powi 1024)" using two_powi_pos [of 1024] by linarith
  ultimately show ?thesis by (simp add: r64_def fround_def fexp_def)
qed

lemma f64_div_not_negative:
  assumes "a = NaN \<or> nonneg a" "nonneg b"
  shows "f64_div a b = NaN \<or> nonneg (f64_div a b)"
  using assms r64_nonneg by (cases a; cases b) (auto simp: inf_of_sign_def sgn_if)

lemma bounded_time: "bounded 1 (time_factor r now)"
proof -
  have cut: "bounded 1 (f32_of_f64 (f32_min x (Fin 1)))" if "x = NaN \<or> nonneg x" for x
    using that r32_unit by (cases x) (auto simp: f32_min_def bounded_Fin)
  have "f64_div (f64_div (r64 (of_nat n)) SECS_PER_DAY) TIME_STALE_DAYS = NaN \<or> nonneg (f64_div (f64_div (r64 (of_nat n)) SECS_PER_DAY) TIME_STALE_DAYS)" for n
    by (intro f64_div_not_negative disjI2) (simp_all add: r64_nonneg SECS_PER_DAY_def TIME_STALE_DAYS_def)
  from cut [OF this] show ?thesis by (simp add: time_factor_def Let_def r64_one bounded_Fin [of 1 "Fin 0"] del: of_nat_unat)
qed

lemma bounded_commits: "bounded 1 (commits_to_factor n)"
  unfolding commits_to_factor_def by (auto intro!: bounded_r32 simp del: r32_zero r32_one) (simp_all add: bounded_Fin)

lemma bounded_git: "bounded 1 (fst (git_factor head g path sha))"
  using bounded_commits by (auto simp: git_factor_def bounded_Fin split: option.split)

lemma bounded_dep: "bounded 1 (dep_factor fr deps)"
  using bounded_ratio by (auto simp: dep_factor_def ratio_capped_def Let_def bounded_Fin [of 1 "Fin 0"] split: option.split)

lemma bounded_cascade: "bounded 1 (cascade_factor A G r fr S)"
  using bounded_ratio
  by (auto simp: cascade_factor_def stale_share_def ratio_capped_def Let_def bounded_Fin [of 1 "Fin 0"] split: option.split Category.split)

lemma bounded_sum:
  assumes "bounded 1 t" "bounded 1 g" "bounded 1 d" "bounded 1 c"
  shows "bounded (25/32) (weighted_sum t g semantic_factor d c)"
proof -
  have e: "r32 (13/64) = Fin (13/64)" "r32 (23/64) = Fin (23/64)" "r32 (7/64) = Fin (7/64)" "r32 (36/64) = Fin (36/64)" "r32 (43/64) = Fin (43/64)"
    "r32 (50/64) = Fin (50/64)" by code_simp+
  have weigh: "bounded hi (f32_mul x (r32 w))" if "bounded 1 x" "0 \<le> w" "w \<le> hi" "r32 hi = Fin hi" for x w hi
    using bounded_mul [OF that(1) bounded_r32 [OF that(2-4)]] that(4) by simp
  have "bounded (36/64) (f32_add (f32_mul t TIME_WEIGHT) (f32_mul g GIT_WEIGHT))"
    using bounded_add [of "13/64" _ "23/64"] weigh [OF assms(1), of "20/100" "13/64"] weigh [OF assms(2), of "35/100" "23/64"] e
    by (simp add: TIME_WEIGHT_def GIT_WEIGHT_def)
  moreover have z: "f32_mul semantic_factor SEMANTIC_WEIGHT = Fin 0"
    using bounded_r32 [of "25/100" 1] by (auto simp: semantic_factor_def SEMANTIC_WEIGHT_def bounded_Fin)
  ultimately have "bounded (36/64) (f32_add (f32_add (f32_mul t TIME_WEIGHT) (f32_mul g GIT_WEIGHT)) (f32_mul semantic_factor SEMANTIC_WEIGHT))"
    using bounded_add [of "36/64" _ 0 "Fin 0"] e by (simp add: bounded_Fin [of 0])
  then have "bounded (43/64) (f32_add (f32_add (f32_add (f32_mul t TIME_WEIGHT) (f32_mul g GIT_WEIGHT)) (f32_mul semantic_factor SEMANTIC_WEIGHT)) (f32_mul d DEP_WEIGHT))"
    using bounded_add [of "36/64" _ "7/64"] weigh [OF assms(3), of "10/100" "7/64"] e by (simp add: DEP_WEIGHT_def)
  then have "bounded (50/64) (weighted_sum t g semantic_factor d c)"
    using bounded_add [of "43/64" _ "7/64"] weigh [OF assms(4), of "10/100" "7/64"] e by (simp add: CASCADE_WEIGHT_FACTOR_def weighted_sum_def)
  then show ?thesis by simp
qed

subsection \<open>Scores\<close>

lemma bounded_factors:
  assumes "bounded 1 git_f"
  shows "bounded (25/32) (f32_clamp (r32 0) (r32 1)
    (weighted_sum (time_factor r now) git_f semantic_factor (dep_factor fr deps) (cascade_factor A G r' fr' S)))"
proof -
  have "f32_clamp (r32 0) (r32 1) x = x" if "bounded (25/32) x" for x using that by (auto simp: bounded_Fin f32_clamp_def)
  with bounded_sum [OF bounded_time assms bounded_dep bounded_cascade] show ?thesis by metis
qed

text \<open>The value of a score computed from the factors: at most 25/32, or the old value while a re-parse is recent.\<close>

lemma recomputed_value:
  "\<exists>v. bounded (25/32) v \<and> s_value (recomputed A G an S deps fr r s) = (if recent_reparse (an_now an) s \<and> flt_lt v (s_value s) then s_value s else v)
     \<and> s_tier (recomputed A G an S deps fr r s) = staleness_tier_from_value (s_value (recomputed A G an S deps fr r s))"
proof -
  define gf where "gf = fst (case an_repo an of
      Some g \<Rightarrow> git_factor (an_head_commit an) g (unwrap_or (strip_prefix (r_key r) ''file:'') (r_key r)) (s_last_record_sha s)
    | None \<Rightarrow> (r32 0, None))"
  have "bounded 1 gf" using bounded_git by (auto simp: gf_def bounded_Fin [of 1 "Fin 0"] split: option.split)
  from bounded_factors [OF this, of r "an_now an" fr deps A G r fr S] show ?thesis
    unfolding recomputed_def Let_def case_prod_unfold gf_def [symmetric] StalenessScore.simps by (intro exI conjI, assumption) (rule refl)+
qed

lemma staleness_ok_compute:
  assumes "bounded 1 (s_value (r_staleness r))"
  shows "staleness_ok (r_staleness (compute_staleness A F G env an S deps r))"
proof -
  have old: "s_value (if b then (r_staleness r)\<lparr>s_signals := ss\<rparr> else r_staleness r) = s_value (r_staleness r)" for b ss by simp
  have "staleness_ok (recomputed A G an S deps fr r' s)" if "s_value s = s_value (r_staleness r)" for fr r' s
    using recomputed_value [of A G an S deps fr r' s] bounded_mono [of "25/32" _ 1] assms that by (auto simp: staleness_ok_def)
  then show ?thesis
    using tier_values
    by (simp add: compute_staleness_def Let_def old overridden_def staleness_ok_def bounded_Fin [of 1 "Fin 1"])
qed

lemma staleness_ok_reparse: "staleness_ok (r_staleness r) \<Longrightarrow> staleness_ok (r_staleness (fst (apply_reparse_staleness now d r)))"
  using raised_ok [OF _ reparse_increment_nonneg] by (simp add: apply_reparse_staleness_def Let_def staleness_ok_def)

lemma staleness_ok_gone: "staleness_ok (r_staleness (gone_record now r))"
  using tier_values by (simp add: gone_record_def touch_def staleness_ok_def bounded_Fin)

lemma staleness_ok_cascade: "staleness_ok s \<Longrightarrow> staleness_ok (raised now CASCADE_WEIGHT new s)"
  using r32_mono [of 0 "10/100"] by (intro raised_ok) (simp_all add: staleness_ok_def CASCADE_WEIGHT_def)

lemma staleness_ok_fresh: "staleness_ok fresh"
  by (simp add: staleness_ok_def fresh_def staleness_tier_from_value_def r32_literals bounded_Fin)

lemma staleness_ok_reparsed:
  assumes "\<And>old. existing = Some old \<Longrightarrow> staleness_ok (r_staleness old)" and "reparsed F ck path a n existing = Some (r, c)"
  shows "staleness_ok (r_staleness r)"
proof (cases existing)
  case None
  then show ?thesis using assms(2) staleness_ok_fresh by (auto simp: reparsed_def new_file_record_def Let_def)
next
  case (Some old)
  have "staleness_ok (r_staleness (fst (apply_reparse_staleness now d (old\<lparr>r_value := v, r_payload := p\<rparr>))))" for now d v p
    using assms(1) [OF Some] by (intro staleness_ok_reparse) simp
  then show ?thesis
    using assms Some by (auto simp: reparsed_def touch_def Let_def case_prod_unfold split: option.splits if_splits)
qed

subsection \<open>All records of a store\<close>

definition all_records :: "('t, 'x, 'v, 'j) store_api \<Rightarrow> ('t \<Rightarrow> string \<rightharpoonup> 'v) \<Rightarrow> ('j Record \<Rightarrow> bool) \<Rightarrow> ('t, 'x) Store \<Rightarrow> bool" where
  "all_records A view P S \<longleftrightarrow> (\<forall>k v r. store_content view S k = Some v \<longrightarrow> dec_record A v = Some r \<longrightarrow> P r)"

context store_laws
begin

abbreviation "records_sat \<equiv> all_records A view"

lemma records_get: "records_sat P S \<Longrightarrow> store_get A S k = Inr (Some r) \<Longrightarrow> P r"
  using get_view [of "tree_for S k" k]
  by (fastforce simp: all_records_def store_get_def read_record_def content_def split: sum.splits option.splits)

lemma records_put:
  assumes "records_sat P S" "P r" "store_put A S k r = (S', res)"
  shows "records_sat P S'"
proof (cases res)
  case (Inl e)
  then show ?thesis using assms store_put_err by (auto simp: all_records_def)
next
  case (Inr u)
  then obtain b where "enc_record A r = Some b" "content S' = (content S)(k \<mapsto> b)" using store_put_ok [of S k r S' u] assms(3) by metis
  then show ?thesis using assms(1,2) dec_enc [of r b] by (auto simp: all_records_def)
qed

lemma records_apply:
  assumes "\<And>k v r. m k = Some v \<Longrightarrow> dec_record A v = Some r \<Longrightarrow> P r" "\<forall>kr\<in>set rs. P (snd kr)"
    "apply_ops (record_ops A rs) m k = Some v" "dec_record A v = Some r"
  shows "P r"
  using assms
proof (induction rs arbitrary: m)
  case (Cons kr rs)
  have "P r'" if "(m(fst kr := enc_record A (snd kr))) k = Some v" "dec_record A v = Some r'" for k v r'
    using that Cons.prems(1) [of k v r'] Cons.prems(2) dec_enc [of "snd kr"] by (auto split: if_splits)
  then show ?case using Cons.IH [of "m(fst kr := enc_record A (snd kr))"] Cons.prems by (simp add: record_ops_def del: fun_upd_apply)
qed (simp add: record_ops_def)

lemma records_put_batch:
  assumes "records_sat P S" "\<forall>kr\<in>set rs. P (snd kr)" "put_batch A S rs = (S', res)"
  shows "records_sat P S'"
proof -
  have "content S' = content S \<or> content S' = apply_ops (record_ops A (of_class Immediate rs)) (content S)
      \<or> content S' = apply_ops (record_ops A rs) (content S)"
    using assms(3) put_batch_ok [of S rs S'] put_batch_err [of S rs S'] by (cases res) auto
  moreover have "\<forall>kr\<in>set (of_class Immediate rs). P (snd kr)" using assms(2) by (simp add: of_class_def)
  ultimately show ?thesis
    using assms(1,2) records_apply [of "content S" P] unfolding all_records_def by metis
qed

lemma records_scan:
  assumes "records_sat P S" "scan_prefix A S p = Inr rs" "p \<in> set STALENESS_PREFIXES" "r \<in> set rs"
  shows "P r"
proof -
  have "p \<in> set KNOWLEDGE_NAMESPACES" using assms(3) by (auto simp: STALENESS_PREFIXES_def KNOWLEDGE_NAMESPACES_def)
  from scan_prefix_set [OF assms(2) knowledge_ns_closed [OF this]] show ?thesis using assms(1,4) by (auto simp: all_records_def)
qed

lemma cascade_scores:
  "records_sat (\<lambda>r. staleness_ok (r_staleness r)) S \<Longrightarrow> records_sat (\<lambda>r. staleness_ok (r_staleness r)) (fst (cascade_from A now path S n ks))"
proof (induction ks arbitrary: S n)
  case (Cons k ks)
  have "records_sat (\<lambda>r. staleness_ok (r_staleness r)) S'"
    if "store_get A S k = Inr (Some r)"
      "store_put A S k (touch now (r\<lparr>r_staleness := raised now CASCADE_WEIGHT new (r_staleness r)\<rparr>)) = (S', res)" for r new S' res
    using records_get [OF Cons.prems that(1)] records_put [OF Cons.prems _ that(2)] staleness_ok_cascade by (simp add: touch_def)
  then show ?case using Cons by (auto split: sum.split option.split prod.split)
qed simp

lemma reparse_scores:
  assumes "records_sat (\<lambda>r. staleness_ok (r_staleness r)) S"
  shows "records_sat (\<lambda>r. staleness_ok (r_staleness r)) (fst (reparse_impl A F env ck S path))"
proof (cases "rv_exists env path")
  case False
  have "records_sat (\<lambda>r. staleness_ok (r_staleness r)) (fst (store_put A S k (gone_record now r)))" for k now r
    using records_put [OF assms staleness_ok_gone] by (metis surjective_pairing)
  then show ?thesis using False assms by (simp add: reparse_impl_def Let_def split: option.split sum.split)
next
  case True
  have put: "records_sat (\<lambda>r. staleness_ok (r_staleness r)) (fst (store_put A S1 k r))"
    if "store_get A S k = Inr existing" "reparsed F ck path a n existing = Some (r, c)" "records_sat (\<lambda>r. staleness_ok (r_staleness r)) S1" for k existing a n r c S1
  proof -
    have "staleness_ok (r_staleness r)"
      by (rule staleness_ok_reparsed [OF _ that(2)]) (use records_get [OF assms] that(1) in blast)
    then show ?thesis using records_put [OF that(3)] by (metis surjective_pairing)
  qed
  show ?thesis
    using True assms put put [OF _ _ cascade_scores [OF assms]]
    by (simp add: reparse_impl_def cascade_staleness_to_gotchas_def Let_def split: option.split sum.split prod.split)
qed

lemma analyze_records_updates:
  assumes "\<And>r. P (touch now r) = P r"
  shows "\<forall>r\<in>set rs. P (f r) \<Longrightarrow> list_all (\<lambda>kr. P (snd kr)) (snd acc) \<Longrightarrow> list_all (\<lambda>kr. P (snd kr)) (snd (analyze_records f env now pre rs acc))"
proof (induction rs arbitrary: acc)
  case (Cons r rs)
  then show ?case by (cases acc) (simp add: assms Let_def)
qed simp

lemma analyze_prefixes_updates:
  assumes "records_sat Q S" "\<And>r. Q r \<Longrightarrow> P (f r)" "\<And>r. P (touch now r) = P r"
    "set pres \<subseteq> set STALENESS_PREFIXES" "list_all (\<lambda>kr. P (snd kr)) (snd acc)"
  shows "list_all (\<lambda>kr. P (snd kr)) (snd (analyze_prefixes A f env now S pres acc))"
  using assms(4,5)
proof (induction pres arbitrary: acc)
  case (Cons pre pres)
  have "list_all (\<lambda>kr. P (snd kr)) (snd (analyze_records f env now pre rs acc))" if "scan_prefix A S pre = Inr rs" for rs
    using records_scan [OF assms(1) that] Cons.prems assms(2,3) by (intro analyze_records_updates) auto
  then show ?case using Cons by (simp split: sum.split)
qed simp

lemma analyze_scores:
  assumes "records_sat (\<lambda>r. staleness_ok (r_staleness r)) S"
  shows "records_sat (\<lambda>r. staleness_ok (r_staleness r)) (fst (analyze_all A F G env an S))"
proof -
  have "staleness_ok (r_staleness (compute_staleness A F G env an S deps r))" if "staleness_ok (r_staleness r)" for deps r
    using that by (intro staleness_ok_compute) (simp add: staleness_ok_def)
  then have all: "list_all (\<lambda>kr. staleness_ok (r_staleness (snd kr)))
      (snd (analyze_prefixes A (compute_staleness A F G env an S deps) env (an_now an) S STALENESS_PREFIXES (zero, [])))" for deps zero
    by (intro analyze_prefixes_updates [OF assms]) (simp_all add: touch_def)
  have "records_sat (\<lambda>r. staleness_ok (r_staleness r))
      (fst (put_batch A S (snd (analyze_prefixes A (compute_staleness A F G env an S deps) env (an_now an) S STALENESS_PREFIXES (zero, [])))))" for deps zero
    using all [of deps zero] by (intro records_put_batch [OF assms _ prod.collapse [symmetric]]) (simp add: list_all_iff)
  then show ?thesis using assms unfolding analyze_all_def Let_def case_prod_unfold by (simp split: sum.split)
qed

end

subsection \<open>Tombstones\<close>








text \<open>
  C26. Scores stay well formed: if every record of the store has a staleness value between 0 and 1 with the tier of that value, then this holds again after a
  re-parse, after the cascade to linked gotchas and after the analysis of all records, whether they succeed or fail half-way.
\<close>

theorem staleness_well_formed:
  assumes "store_laws A view healthy" and "all_records A view (\<lambda>r. staleness_ok (r_staleness r)) S"
  shows "all_records A view (\<lambda>r. staleness_ok (r_staleness r)) (fst (reparse_impl A F renv ck S path))
    \<and> all_records A view (\<lambda>r. staleness_ok (r_staleness r)) (fst (cascade_staleness_to_gotchas A now S fr))
    \<and> all_records A view (\<lambda>r. staleness_ok (r_staleness r)) (fst (analyze_all A F G env an S))"
  using store_laws.reparse_scores [OF assms] store_laws.cascade_scores [OF assms] store_laws.analyze_scores [OF assms]
  by (simp_all add: cascade_staleness_to_gotchas_def)

theorem staleness_well_formed_witness:
  "all_records demo_api mem_view (\<lambda>r. staleness_ok (r_staleness r)) (fst (reparse_impl demo_api demo_file_serde
     \<lparr> rv_exists = \<lambda>_. False, rv_size = \<lambda>_. 0, rv_parse = \<lambda>_. None \<rparr> (\<lambda>_. \<lparr> st_now = 9, st_device = 1 \<rparr>) demo_store ''a.rs''))"
proof -
  have "all_records demo_api mem_view (\<lambda>r. staleness_ok (r_staleness r)) demo_store"
    using staleness_ok_fresh
    by (auto simp: all_records_def store_content_def mem_view_def mem_eval split: if_splits Durability.splits)
  from staleness_well_formed [OF mem.store_laws_axioms this, THEN conjunct1] show ?thesis .
qed

end
