(* ===== verification/Reparse_Spec.thy ===== *)
theory Reparse_Spec
  imports Handlers_Spec Staleness_Spec
begin

section \<open>What a re-parse keeps\<close>

text \<open>
  A re-parse rewrites the payload of a file record. It keeps the purpose and the links when the old payload can be read; when it cannot, the payload is rebuilt without
  them, which is what happens after an enrichment with todo items.
\<close>

declare starts_with_Cons [simp del]

text \<open>The codec of file records keeps purpose and links.\<close>

definition same_links :: "FileRecord \<Rightarrow> FileRecord \<Rightarrow> bool" where
  "same_links x y \<longleftrightarrow> f_purpose x = f_purpose y \<and> f_gotcha_keys x = f_gotcha_keys y \<and> f_decision_keys x = f_decision_keys y"

definition keeps_links :: "('j, FileRecord) serde \<Rightarrow> bool" where
  "keeps_links F \<longleftrightarrow> (\<forall>x. \<exists>j y. to_value F x = Some j \<and> from_value F j = Some y \<and> same_links y x)"

lemma reparsed_cases:
  assumes "reparsed F ck path a n existing = Some (r, c)"
  shows "\<And>old r0. existing = Some r0 \<Longrightarrow> payload_as (from_value F) r0 = Some old
      \<Longrightarrow> r_payload r = to_value F (merged_file path old a n (st_now (ck ''now'')))"
    and "\<And>r0. existing = Some r0 \<Longrightarrow> payload_as (from_value F) r0 = None
      \<Longrightarrow> r_value r = [] \<and> r_payload r = to_value F (build_file_record_from_analysis path a n (st_now (ck ''now'')))"
  using assms
  by (auto simp: reparsed_def touch_def Let_def apply_reparse_staleness_def build_file_record_from_analysis_def split: if_splits option.splits)

lemma same_links_merged: "same_links (merged_file path old a n now) old"
  by (simp add: same_links_def merged_file_def)

text \<open>Two states of the store in which the records have the same values and payloads.\<close>

context live_store
begin

definition same_payloads :: "('t, 'x) Store \<Rightarrow> ('t, 'x) Store \<Rightarrow> bool" where
  "same_payloads S S' \<longleftrightarrow> sound S' \<and>
     (\<forall>k r. store_get A S k = Inr (Some r) \<longrightarrow> (\<exists>r'. store_get A S' k = Inr (Some r') \<and> r_payload r' = r_payload r \<and> r_value r' = r_value r))"

lemma same_payloads_trans: "same_payloads S S' \<Longrightarrow> same_payloads S' S'' \<Longrightarrow> same_payloads S S''"
  unfolding same_payloads_def by metis

lemma put_same_payloads:
  assumes "sound S" "store_get A S k = Inr (Some r)" "store_put A S k r' = (S', res)" "r_payload r' = r_payload r" "r_value r' = r_value r"
  shows "same_payloads S S'"
proof (cases res)
  case (Inl e)
  then have "content S' = content S" "sound S'" using assms(1,3) store_put_err put_changes [of k S r'] by (simp_all add: changes_def)
  then show ?thesis using assms(1) by (simp add: same_payloads_def store_get_content)
next
  case (Inr u)
  then obtain b where b: "enc_record A r' = Some b" "content S' = (content S)(k \<mapsto> b)" "sound S' = sound S"
    using store_put_ok [of S k r' S' u] assms(3) by metis
  then show ?thesis using assms(1,2,4,5) dec_enc [OF b(1)] by (auto simp: same_payloads_def store_get_content decode_as_def)
qed

lemma cascade_same_payloads: "sound S \<Longrightarrow> same_payloads S (fst (cascade_from A now path S n ks))"
proof (induction ks arbitrary: S n)
  case (Cons k ks)
  show ?case
  proof (cases "store_get A S k")
    case (Inr m)
    show ?thesis
    proof (cases m)
      case (Some r)
      define r' where "r' = touch now (r\<lparr>r_staleness := raised now CASCADE_WEIGHT [LinkedFileChanged path] (r_staleness r)\<rparr>)"
      obtain S1 res where p: "store_put A S k r' = (S1, res)" by (metis surj_pair)
      have "same_payloads S S1"
        using put_same_payloads [OF Cons.prems _ p] Inr Some by (simp add: r'_def touch_def)
      moreover have "same_payloads S1 (fst (cascade_from A now path S1 (n + 1) ks))"
        using calculation Cons.IH by (simp add: same_payloads_def)
      ultimately show ?thesis using Inr Some p same_payloads_trans by (simp add: r'_def split: sum.split)
    qed (use Cons Inr in simp)
  qed (use Cons in \<open>simp add: same_payloads_def\<close>)
qed (simp add: same_payloads_def)

text \<open>A committed transaction of a record and its audit entry.\<close>

lemma committed_record:
  assumes "sound S" "commit_ops A S label [PutRecord (file_key path) r, PutRaw key bytes] val = (S', Inr val')" "key \<in> audit_knowledge_keys"
  shows "sound S'" "store_get A S' (file_key path) = Inr (Some r)"
proof -
  have k: "key \<noteq> file_key path" using assms(3) by auto
  show s: "sound S'" using commit_ops_ok(3) [OF assms(2)] assms(1) by (simp add: changes_def)
  obtain b where b: "enc_record A r = Some b" using enc_total by blast
  have "content S' (file_key path) = Some b" using commit_ops_ok(2) [OF assms(2)] k b by (simp add: op_writes_def)
  then show "store_get A S' (file_key path) = Inr (Some r)" using s dec_enc [OF b] by (simp add: store_get_content decode_as_def)
qed

lemma reparse_stores:
  assumes "sound (a_store a)" "handle_file_reparse A B env ctx rid path a = (a', Inr v)"
  shows "\<And>r. reparse_staged A (sa_file (dm_session B)) (dv_files env) (\<lambda>site. dv_ck env (''reparse '' @ site)) (a_store a) path = Inr (Some (file_key path, r))
      \<Longrightarrow> \<exists>r'. store_get A (a_store a') (file_key path) = Inr (Some r') \<and> r_payload r' = r_payload r \<and> r_value r' = r_value r"
    and "reparse_staged A (sa_file (dm_session B)) (dv_files env) (\<lambda>site. dv_ck env (''reparse '' @ site)) (a_store a) path = Inr None
      \<Longrightarrow> store_get A (a_store a') (file_key path) = store_get A (a_store a) (file_key path)"
proof -
  let ?F = "sa_file (dm_session B)" and ?key = "audit_nanos_key env ''reparse accepted'' AUDIT_KNOWLEDGE_PREFIX"
  let ?staged = "reparse_staged A ?F (dv_files env) (\<lambda>site. dv_ck env (''reparse '' @ site)) (a_store a) path"
  note d = assms(2) [unfolded handle_file_reparse_def make_audit_def make_audit_with_prefix_def Let_def]
  obtain bytes where bytes: "dm_audit B (build_audit_entry ctx (st_now (dv_ck env ''reparse accepted'')) rid ''file_reparse'' path True None) = Some bytes"
    using d by (auto split: if_splits sum.splits option.splits)
  have none: "\<exists>val. commit_ops A (a_store a) ''audit write failed'' [PutRaw ?key bytes] val = (a_store a', Inr v)" if "?staged = Inr None"
    using d that bytes by (auto split: if_splits prod.splits)
  have some: "\<exists>S1. commit_ops A (a_store a) ''transact failed'' [PutRecord (file_key path) r, PutRaw ?key bytes] () = (S1, Inr ())
      \<and> (a_store a' = S1 \<or> (\<exists>fr now. a_store a' = fst (cascade_staleness_to_gotchas A now S1 fr)))" if "?staged = Inr (Some (file_key path, r))" for r
    using d that bytes by (auto split: if_splits prod.splits sum.splits option.splits) blast+
  show "\<exists>r'. store_get A (a_store a') (file_key path) = Inr (Some r') \<and> r_payload r' = r_payload r \<and> r_value r' = r_value r"
    if staged: "?staged = Inr (Some (file_key path, r))" for r
  proof -
    obtain S1 where S1: "commit_ops A (a_store a) ''transact failed'' [PutRecord (file_key path) r, PutRaw ?key bytes] () = (S1, Inr ())"
      "a_store a' = S1 \<or> (\<exists>fr now. a_store a' = fst (cascade_staleness_to_gotchas A now S1 fr))" using some [OF staged] by blast
    note c = committed_record [OF assms(1) S1(1)]
    have "same_payloads S1 (a_store a')"
      using S1(2) c(1) cascade_same_payloads by (auto simp: cascade_staleness_to_gotchas_def same_payloads_def)
    then show "\<exists>r'. store_get A (a_store a') (file_key path) = Inr (Some r') \<and> r_payload r' = r_payload r \<and> r_value r' = r_value r"
      using c(2) by (auto simp: same_payloads_def)
  qed
  show "store_get A (a_store a') (file_key path) = store_get A (a_store a) (file_key path)" if staged: "?staged = Inr None"
  proof -
    obtain val where c: "commit_ops A (a_store a) ''audit write failed'' [PutRaw ?key bytes] val = (a_store a', Inr v)" using none [OF staged] by blast
    have s: "sound (a_store a')" using commit_ops_ok(3) [OF c] assms(1) by (simp add: changes_def)
    have "file_key path \<noteq> ?key" by (metis audit_knowledge_key distinct_spaces(3))
    then show "store_get A (a_store a') (file_key path) = store_get A (a_store a) (file_key path)"
      using commit_ops_ok(2) [OF c] s assms(1) by (simp add: store_get_content op_writes_def)
  qed
qed

lemma staged_record:
  assumes "store_get A S (file_key path) = Inr (Some r)" "reparse_staged A F env ck S path = Inr m"
  shows "m = None \<or> (\<exists>r'. m = Some (file_key path, r') \<and> (r_payload r' = r_payload r \<or> (\<exists>a n c. reparsed F ck path a n (Some r) = Some (r', c))))"
proof -
  consider "m = Some (file_key path, gone_record (st_now (ck ''now'')) r)" | "m = None"
    | a where "m = map_option (\<lambda>rc. (file_key path, fst rc)) (reparsed F ck path a (rv_size env path) (Some r))"
    using assms by (auto simp: reparse_staged_def Let_def split: if_splits option.splits)
  then show ?thesis
  proof cases
    case (3 a)
    then show ?thesis by (cases "reparsed F ck path a (rv_size env path) (Some r)") (auto simp: split_paired_all)
  qed (simp_all add: gone_record_def touch_def)
qed

lemma reparse_links:
  assumes "keeps_links (sa_file (dm_session B))" "sound (a_store a)"
    "store_get A (a_store a) (file_key path) = Inr (Some r)" "payload_as (from_value (sa_file (dm_session B))) r = Some old"
    "handle_file_reparse A B env ctx rid path a = (a', Inr v)"
  shows "\<exists>r' new. store_get A (a_store a') (file_key path) = Inr (Some r') \<and> payload_as (from_value (sa_file (dm_session B))) r' = Some new
    \<and> same_links new old"
proof -
  let ?F = "sa_file (dm_session B)" and ?ck = "\<lambda>site. dv_ck env (''reparse '' @ site)"
  obtain m where m: "reparse_staged A ?F (dv_files env) ?ck (a_store a) path = Inr m"
    using assms(5) by (auto simp: handle_file_reparse_def Let_def split: if_splits sum.splits)
  from staged_record [OF assms(3) m] show ?thesis
  proof (elim disjE exE conjE)
    assume "m = None"
    then show ?thesis using reparse_stores(2) [OF assms(2,5)] m assms(3,4) by (simp add: same_links_def)
  next
    fix r1 assume "m = Some (file_key path, r1)" "r_payload r1 = r_payload r"
    then show ?thesis using reparse_stores(1) [OF assms(2,5)] m assms(4) by (auto simp: payload_as_def same_links_def)
  next
    fix r1 sa n c assume r1: "m = Some (file_key path, r1)" "reparsed ?F ?ck path sa n (Some r) = Some (r1, c)"
    define merged where "merged = merged_file path old sa n (st_now (?ck ''now''))"
    have "r_payload r1 = to_value ?F merged" using reparsed_cases(1) [OF r1(2) refl assms(4)] by (simp add: merged_def)
    moreover obtain j y where "to_value ?F merged = Some j" "from_value ?F j = Some y" "same_links y merged"
      using assms(1) unfolding keeps_links_def by blast
    moreover have "same_links merged old" unfolding merged_def by (rule same_links_merged)
    ultimately show ?thesis
      using reparse_stores(1) [OF assms(2,5), of r1] m r1(1) by (auto simp: payload_as_def same_links_def)
  qed
qed

lemma enrich_stores:
  assumes "sound (a_store a)" "store_get A (a_store a) (file_key (fe_path input)) = Inr (Some r)" "handle_file_enrich A B env ctx rid input a = (a', Inr v)"
  shows "sound (a_store a')"
    and "\<exists>r'. store_get A (a_store a') (file_key (fe_path input)) = Inr (Some r')
      \<and> r_payload r' = map_option (enrich_payload (dm_json B) input) (r_payload r)"
proof -
  define r1 where "r1 = enriched_file B env (st_now (dv_ck env ''now'')) input r"
  note d = assms(3) [unfolded handle_file_enrich_def commit_audited_def make_audit_def make_audit_with_prefix_def Let_def assms(2) sum.case option.case, folded r1_def]
  obtain bytes S1 val where c: "commit_ops A (a_store a) ''transact failed''
      [PutRecord (file_key (fe_path input)) r1, PutRaw (audit_nanos_key env ''accepted'' AUDIT_KNOWLEDGE_PREFIX) bytes] val = (S1, Inr v)" "a_store a' = S1"
    using d by (auto simp: put_all_def split: if_splits option.splits prod.splits)
  note st = committed_record [OF assms(1) c(1) audit_knowledge_key]
  show "sound (a_store a')" using st(1) c(2) by simp
  have "r_payload r1 = map_option (enrich_payload (dm_json B) input) (r_payload r)"
    by (simp add: r1_def enriched_file_def Let_def rescored_def as_enriched_def touch_def)
  then show "\<exists>r'. store_get A (a_store a') (file_key (fe_path input)) = Inr (Some r')
      \<and> r_payload r' = map_option (enrich_payload (dm_json B) input) (r_payload r)"
    using st(2) c(2) by simp
qed

lemma enrich_reparse:
  assumes "sound (a_store a)" "store_get A (a_store a) (file_key (fe_path input)) = Inr (Some r)" "r_payload r = Some p" "j_is_object (dm_json B) p"
    and "fe_todos input \<noteq> []"
    and "\<And>q xs. xs \<noteq> [] \<Longrightarrow> from_value (sa_file (dm_session B)) (j_insert (dm_json B) q ''todos'' (j_array (dm_json B) (map (j_string (dm_json B)) xs))) = None"
    and "handle_file_enrich A B env ctx rid input a = (a1, Inr v1)" "handle_file_reparse A B env' ctx' rid' (fe_path input) a1 = (a2, Inr v2)"
    and "rv_exists (dv_files env') (fe_path input)" "rv_parse (dv_files env') (fe_path input) = Some sa"
  shows "\<exists>r' fr. store_get A (a_store a2) (file_key (fe_path input)) = Inr (Some r') \<and> r_value r' = []
    \<and> r_payload r' = to_value (sa_file (dm_session B)) fr \<and> f_gotcha_keys fr = [] \<and> f_decision_keys fr = [] \<and> f_purpose fr = []"
proof -
  let ?F = "sa_file (dm_session B)" and ?ck = "\<lambda>site. dv_ck env' (''reparse '' @ site)" and ?path = "fe_path input"
  note e = enrich_stores [OF assms(1,2,7)]
  obtain r1 where r1: "store_get A (a_store a1) (file_key ?path) = Inr (Some r1)" "r_payload r1 = Some (enrich_payload (dm_json B) input p)"
    using e(2) assms(3) by auto
  have bad: "payload_as (from_value ?F) r1 = None"
    using r1(2) assms(4-6) by (simp add: payload_as_def enrich_payload_def insert_unless_empty_def)
  obtain r2 c where r2: "reparsed ?F ?ck ?path sa (rv_size (dv_files env') ?path) (Some r1) = Some (r2, c)"
    using bad by (simp add: reparsed_def Let_def)
  have "reparse_staged A ?F (dv_files env') ?ck (a_store a1) ?path = Inr (Some (file_key ?path, r2))"
    using r1(1) r2 assms(9,10) by (simp add: reparse_staged_def Let_def)
  from reparse_stores(1) [OF e(1) assms(8) this] obtain r3 where
    "store_get A (a_store a2) (file_key ?path) = Inr (Some r3)" "r_payload r3 = r_payload r2" "r_value r3 = r_value r2" by blast
  then show ?thesis
    using reparsed_cases(2) [OF r2 refl bad]
    by (intro exI [of _ r3] exI [of _ "build_file_record_from_analysis ?path sa (rv_size (dv_files env') ?path) (st_now (?ck ''now''))"])
      (simp add: build_file_record_from_analysis_def)
qed

lemma commit_ops_running:
  assumes "running S" and "ops \<noteq> []" and "\<forall>op\<in>set ops. for_key (op_key op) = Immediate"
  obtains S' where "commit_ops A S label ops val = (S', Inr val)" "running S'"
proof -
  obtain S' where S': "transact_knowledge A S ops = (S', Inr ())" using transact_knowledge_live [OF assms] by blast
  obtain ws where "encode_ops A ops = Inr ws"
    using S' assms(2) by (auto simp: transact_knowledge_def split: option.splits sum.splits)
  moreover obtain S1 where "commit_on A S Immediate ws = (S1, Inr ())" "running S1" by (rule commit_on_live [OF assms(1)])
  moreover have "find (\<lambda>op. for_key (op_key op) \<noteq> Immediate) ops = None" using assms(3) by (auto simp: find_None_iff)
  ultimately have "running S'" using S' assms(2) by (auto simp: transact_knowledge_def Let_def split: if_splits)
  then show ?thesis using that S' by (simp add: commit_ops_def)
qed

lemma enrich_answers:
  assumes "running (a_store a)" "store_get A (a_store a) (file_key (fe_path input)) = Inr (Some r)" "fe_purpose input \<noteq> []" "r_lifecycle r = Active"
    "\<And>e. dm_audit B e \<noteq> None"
  obtains a' v where "handle_file_enrich A B env ctx rid input a = (a', Inr v)" "running (a_store a')"
proof -
  let ?now = "st_now (dv_ck env ''now'')"
  obtain bytes where m: "make_audit B env ctx ''accepted'' rid ''file_enrich'' (file_key (fe_path input)) True None
      = Some (audit_nanos_key env ''accepted'' AUDIT_KNOWLEDGE_PREFIX, bytes)" by (rule audit_made [OF assms(5)])
  obtain S' where "commit_ops A (a_store a) ''transact failed''
      (put_all [(file_key (fe_path input), enriched_file B env ?now input r)] @ [PutRaw (audit_nanos_key env ''accepted'' AUDIT_KNOWLEDGE_PREFIX) bytes])
      (upsert_response (dm_json B) (file_key (fe_path input)) (enriched_file B env ?now input r))
      = (S', Inr (upsert_response (dm_json B) (file_key (fe_path input)) (enriched_file B env ?now input r)))" "running S'"
    by (rule commit_ops_running [OF assms(1)]) (auto simp: put_all_def knowledge_keys_immediate)
  then show ?thesis using that assms(2-4) m by (simp add: handle_file_enrich_def commit_audited_def Let_def)
qed

lemma reparse_answers:
  assumes "running (a_store a)" "path \<noteq> []" "reparse_staged A (sa_file (dm_session B)) (dv_files env) (\<lambda>site. dv_ck env (''reparse '' @ site)) (a_store a) path = Inr m"
    "\<And>e. dm_audit B e \<noteq> None"
  shows "\<exists>a' v. handle_file_reparse A B env ctx rid path a = (a', Inr v)"
proof -
  obtain bytes where m: "make_audit B env ctx ''reparse accepted'' rid ''file_reparse'' path True None
      = Some (audit_nanos_key env ''reparse accepted'' AUDIT_KNOWLEDGE_PREFIX, bytes)" by (rule audit_made [OF assms(4)])
  have k: "fst (the m) = file_key path" if "m \<noteq> None"
    using assms(3) that by (auto simp: reparse_staged_def Let_def rbind_def split: if_splits option.splits sum.splits)
  let ?ak = "audit_nanos_key env ''reparse accepted'' AUDIT_KNOWLEDGE_PREFIX"
  show ?thesis
  proof (cases m)
    case None
    have "\<exists>S'. commit_ops A (a_store a) ''audit write failed'' [PutRaw ?ak bytes] (ok_json (dm_json B)) = (S', Inr (ok_json (dm_json B)))"
      by (rule commit_ops_live [OF assms(1)]) (simp_all add: knowledge_keys_immediate)
    then obtain S' where c: "commit_ops A (a_store a) ''audit write failed'' [PutRaw ?ak bytes] (ok_json (dm_json B)) = (S', Inr (ok_json (dm_json B)))"
      by blast
    show ?thesis using assms(2) unfolding handle_file_reparse_def Let_def assms(3) m None sum.case option.case prod.case c by simp
  next
    case (Some kr)
    then obtain r where r: "m = Some (file_key path, r)" using k by (cases kr) simp
    have "\<exists>S'. commit_ops A (a_store a) ''transact failed'' [PutRecord (file_key path) r, PutRaw ?ak bytes] () = (S', Inr ())"
      by (rule commit_ops_live [OF assms(1)]) (simp_all add: knowledge_keys_immediate)
    then obtain S' where c: "commit_ops A (a_store a) ''transact failed'' [PutRecord (file_key path) r, PutRaw ?ak bytes] () = (S', Inr ())"
      by blast
    show ?thesis using assms(2) unfolding handle_file_reparse_def Let_def assms(3) m r sum.case option.case prod.case c by simp
  qed
qed

end

subsection \<open>The theorems\<close>

text \<open>
  C16. Re-parsing keeps what was learnt about a file: when the daemon answers a re-parse request and the payload of the file record could be read,
  the record it stores has the same purpose, the same linked gotchas and the same linked decisions, whether the file changed, did not change, or is gone.
\<close>

theorem reparse_keeps_links:
  assumes "live_store A view healthy live" "keeps_links (sa_file (dm_session B))" "store_sound healthy (a_store a)"
    and "store_get A (a_store a) (file_key path) = Inr (Some r)" "payload_as (from_value (sa_file (dm_session B))) r = Some old"
    and "handle_file_reparse A B env ctx rid path a = (a', Inr v)"
  shows "\<exists>r' new. store_get A (a_store a') (file_key path) = Inr (Some r') \<and> payload_as (from_value (sa_file (dm_session B))) r' = Some new
    \<and> same_links new old"
  by (rule live_store.reparse_links [OF assms])

text \<open>
  C28. Enriching a file with todo items and editing it afterwards unlinks its gotchas: the enrichment stores the todo items as strings, which the codec of file
  records does not accept, so that the re-parse takes the payload for corrupt and rebuilds it with no purpose, no linked gotchas and no linked decisions.
\<close>

theorem enrich_then_edit_unlinks:
  assumes "live_store A view healthy live" "store_sound healthy (a_store a)" "store_get A (a_store a) (file_key (fe_path input)) = Inr (Some r)"
    and "r_payload r = Some p" "j_is_object (dm_json B) p" "fe_todos input \<noteq> []"
    and "\<And>q xs. xs \<noteq> [] \<Longrightarrow> from_value (sa_file (dm_session B)) (j_insert (dm_json B) q ''todos'' (j_array (dm_json B) (map (j_string (dm_json B)) xs))) = None"
    and "handle_file_enrich A B env ctx rid input a = (a1, Inr v1)" "handle_file_reparse A B env' ctx' rid' (fe_path input) a1 = (a2, Inr v2)"
    and "rv_exists (dv_files env') (fe_path input)" "rv_parse (dv_files env') (fe_path input) = Some sa"
  shows "\<exists>r' fr. store_get A (a_store a2) (file_key (fe_path input)) = Inr (Some r') \<and> r_value r' = []
    \<and> r_payload r' = to_value (sa_file (dm_session B)) fr \<and> f_gotcha_keys fr = [] \<and> f_decision_keys fr = [] \<and> f_purpose fr = []"
  by (rule live_store.enrich_reparse [OF assms])

subsection \<open>An instance\<close>

definition demo_todo :: "TodoComment \<Rightarrow> jvalue" where
  "demo_todo t = JObj [(''text'', JStr (t_text t))]"

definition demo_analysis :: StaticFileAnalysis where
  "demo_analysis = \<lparr> an_entry_points = [''main''], an_exported_types = [], an_imports = [], an_todos = [], an_unsafe_count = 0, an_unwrap_count = 0,
     an_panic_count = 0, an_branch_count = 0, an_module_doc = None, an_content_hash = None, an_line_count = 1 \<rparr>"

definition demo_links :: "(jvalue, FileRecord) serde" where
  "demo_links = \<lparr> to_value = (\<lambda>f. Some (JObj [(''purpose'', JStr (f_purpose f)), (''gotcha_keys'', JArr (map JStr (f_gotcha_keys f))),
       (''decision_keys'', JArr (map JStr (f_decision_keys f))), (''todos'', JArr (map demo_todo (f_todos f)))])),
     from_value = (\<lambda>j. case (jv_get j ''purpose'', jv_get j ''gotcha_keys'', jv_get j ''decision_keys'', jv_get j ''todos'') of
         (Some (JStr p), Some (JArr gs), Some (JArr ds), Some (JArr ts)) \<Rightarrow>
           (if list_all jv_is_object ts
            then Some ((build_file_record_from_analysis [] demo_analysis 0 0)\<lparr>f_purpose := p, f_gotcha_keys := List.map_filter jv_as_str gs,
                    f_decision_keys := List.map_filter jv_as_str ds\<rparr>)
            else None)
       | _ \<Rightarrow> None) \<rparr>"

lemma demo_links_keeps: "keeps_links demo_links"
proof -
  have "List.map_filter jv_as_str (map JStr xs) = xs" for xs by (induction xs) (simp_all add: map_filter_simps)
  then show ?thesis by (auto simp: keeps_links_def demo_links_def same_links_def demo_todo_def list_all_iff)
qed

lemma demo_links_todos: "xs \<noteq> [] \<Longrightarrow> from_value demo_links (jv_insert q ''todos'' (JArr (map JStr xs))) = None"
  by (cases q; cases xs) (auto simp: demo_links_def split: option.split jvalue.split)

definition demo_file_api :: "((unit, jvalue) cell, jvalue, CanonicalEvent + CanonicalEventV2) daemon_api" where
  "demo_file_api = demo_daemon_api\<lparr>dm_session := demo_session_api\<lparr>sa_file := demo_links\<rparr>\<rparr>"

definition demo_file_env :: daemon_env where
  "demo_file_env = demo_daemon_env\<lparr>dv_files := \<lparr> rv_exists = (\<lambda>_. True), rv_size = (\<lambda>_. 0), rv_parse = (\<lambda>_. Some demo_analysis) \<rparr>\<rparr>"

definition demo_linked_file :: "jvalue Record" where
  "demo_linked_file = (demo_record ''file:a.rs'' 5)\<lparr>r_payload := Some (JObj [(''purpose'', JStr ''Runs''), (''gotcha_keys'', JArr [JStr ''gotcha:g'']),
     (''decision_keys'', JArr []), (''todos'', JArr [])])\<rparr>"

definition demo_linked_state :: "((unit, jvalue) cell mem_tree, bool \<times> string list) Audit" where
  "demo_linked_state = \<lparr> a_store = demo_empty\<lparr>knowledge := empty_tree\<lparr>mt_cells := [(''file:a.rs'', RecordCell demo_linked_file)]\<rparr>\<rparr>, a_writer = None \<rparr>"

definition demo_enrichment :: FileEnrichInput where
  "demo_enrichment = \<lparr> fe_path = ''a.rs'', fe_purpose = ''Runs'', fe_entry_points = [], fe_decision_keys = [], fe_todos = [''tidy up''], fe_tags = [],
     fe_priority = PrioNormal \<rparr>"

lemma demo_linked_facts:
  "mem_live.running (a_store demo_linked_state)"
  "store_get mem_store (a_store demo_linked_state) (file_key ''a.rs'') = Inr (Some demo_linked_file)"
  "sa_file (dm_session demo_file_api) = demo_links" "dm_json demo_file_api = jvalue_api" "dm_audit demo_file_api e \<noteq> None"
  "r_lifecycle demo_linked_file = Active"
  by (simp_all add: mem_live.running_def store_sound_def mem_healthy_def demo_linked_state_def empty_store_def empty_tree_def
      store_get_def read_record_def tree_for_def tree_of_def mem_store_def mem_get_def for_key_def starts_with_def file_key_def
      demo_linked_file_def demo_record_def layer0_file_stub_def demo_file_api_def demo_daemon_api_def demo_session_api_def)

lemma demo_linked_payload:
  "\<exists>old. payload_as (from_value demo_links) demo_linked_file = Some old \<and> f_gotcha_keys old = [''gotcha:g'']"
  by (simp add: payload_as_def demo_linked_file_def demo_links_def map_filter_simps)

lemma demo_staged: "store_get mem_store S (file_key path) = Inr m \<Longrightarrow> \<exists>x. reparse_staged mem_store F (dv_files demo_file_env) ck S path = Inr x"
  by (simp add: reparse_staged_def Let_def demo_file_env_def)

theorem reparse_keeps_links_witness:
  "\<exists>a' v r' new. handle_file_reparse mem_store demo_file_api demo_file_env demo_ctx 1 ''a.rs'' demo_linked_state = (a', Inr v)
     \<and> store_get mem_store (a_store a') (file_key ''a.rs'') = Inr (Some r') \<and> payload_as (from_value demo_links) r' = Some new
     \<and> f_gotcha_keys new = [''gotcha:g'']"
proof -
  obtain old where old: "payload_as (from_value demo_links) demo_linked_file = Some old" "f_gotcha_keys old = [''gotcha:g'']"
    using demo_linked_payload by blast
  obtain x where "reparse_staged mem_store (sa_file (dm_session demo_file_api)) (dv_files demo_file_env) (\<lambda>site. dv_ck demo_file_env (''reparse '' @ site))
      (a_store demo_linked_state) ''a.rs'' = Inr x" using demo_staged [OF demo_linked_facts(2)] by blast
  then obtain a' v where h: "handle_file_reparse mem_store demo_file_api demo_file_env demo_ctx 1 ''a.rs'' demo_linked_state = (a', Inr v)"
    using mem_live.reparse_answers [OF demo_linked_facts(1) _ _ demo_linked_facts(5)] by blast
  have "keeps_links (sa_file (dm_session demo_file_api))" "payload_as (from_value (sa_file (dm_session demo_file_api))) demo_linked_file = Some old"
    using demo_links_keeps old(1) by (simp_all add: demo_linked_facts)
  from reparse_keeps_links [OF mem_live.live_store_axioms this(1) mem_live.running_sound [OF demo_linked_facts(1)] demo_linked_facts(2) this(2) h]
  show ?thesis using h old(2) by (auto simp: demo_linked_facts same_links_def)
qed

theorem enrich_then_edit_unlinks_witness:
  "\<exists>a1 v1 a2 v2 r' fr. handle_file_enrich mem_store demo_file_api demo_daemon_env demo_ctx 1 demo_enrichment demo_linked_state = (a1, Inr v1)
     \<and> handle_file_reparse mem_store demo_file_api demo_file_env demo_ctx 2 ''a.rs'' a1 = (a2, Inr v2)
     \<and> store_get mem_store (a_store a2) (file_key ''a.rs'') = Inr (Some r') \<and> r_payload r' = to_value demo_links fr \<and> f_gotcha_keys fr = []"
proof -
  have e: "fe_path demo_enrichment = ''a.rs''" "fe_purpose demo_enrichment \<noteq> []" "fe_todos demo_enrichment \<noteq> []" by (simp_all add: demo_enrichment_def)
  have got: "store_get mem_store (a_store demo_linked_state) (file_key (fe_path demo_enrichment)) = Inr (Some demo_linked_file)"
    using demo_linked_facts(2) e(1) by simp
  obtain a1 v1 where h1: "handle_file_enrich mem_store demo_file_api demo_daemon_env demo_ctx 1 demo_enrichment demo_linked_state = (a1, Inr v1)"
    "mem_live.running (a_store a1)"
    by (rule mem_live.enrich_answers [OF demo_linked_facts(1) got e(2) demo_linked_facts(6,5)])
  obtain r1 where "store_get mem_store (a_store a1) (file_key (fe_path demo_enrichment)) = Inr (Some r1)"
    using mem_live.enrich_stores(2) [OF mem_live.running_sound [OF demo_linked_facts(1)] got h1(1)] by blast
  then obtain x where "reparse_staged mem_store (sa_file (dm_session demo_file_api)) (dv_files demo_file_env) (\<lambda>site. dv_ck demo_file_env (''reparse '' @ site))
      (a_store a1) (fe_path demo_enrichment) = Inr x" using demo_staged by blast
  then obtain a2 v2 where h2: "handle_file_reparse mem_store demo_file_api demo_file_env demo_ctx 2 (fe_path demo_enrichment) a1 = (a2, Inr v2)"
    using mem_live.reparse_answers [OF h1(2) _ _ demo_linked_facts(5)] e(1) by (metis list.distinct(1))
  obtain p where p: "r_payload demo_linked_file = Some p" "j_is_object (dm_json demo_file_api) p" by (simp add: demo_linked_file_def demo_linked_facts(4))
  have bad: "from_value (sa_file (dm_session demo_file_api)) (j_insert (dm_json demo_file_api) q ''todos''
      (j_array (dm_json demo_file_api) (map (j_string (dm_json demo_file_api)) xs))) = None" if "xs \<noteq> []" for q xs
    using demo_links_todos [OF that] by (simp add: demo_linked_facts)
  have files: "rv_exists (dv_files demo_file_env) (fe_path demo_enrichment)" "rv_parse (dv_files demo_file_env) (fe_path demo_enrichment) = Some demo_analysis"
    by (simp_all add: demo_file_env_def)
  from enrich_then_edit_unlinks [OF mem_live.live_store_axioms mem_live.running_sound [OF demo_linked_facts(1)] got p e(3) bad h1(1) h2 files]
  show ?thesis using h1(1) h2 by (auto simp: e(1) demo_linked_facts(3))
qed

end
