(* ===== verification/Migrations.thy ===== *)
theory Migrations
  imports Gotcha_Ops
begin

section \<open>Schema migrations (\<open>store/migrations.rs\<close>)\<close>

text \<open>
  Opening a store brings it to the schema version of the binary: a fresh store is stamped, a newer one is refused, an older one is copied aside and
  migrated step by step, each step in one transaction. The file system is a parameter: whether the knowledge tree has a directory and how a copy of it ends; the
  copies are part of the state. The lifecycle log is not modelled.
\<close>

subsection \<open>Constants and payloads\<close>

definition CURRENT_SCHEMA_VERSION :: u32 where "CURRENT_SCHEMA_VERSION = 2"
definition SCHEMA_VERSION_KEY :: string where "SCHEMA_VERSION_KEY = ''system:schema_version''"
definition SENTINEL_KEY :: string where "SENTINEL_KEY = ''system:migration:in_progress''"
definition HISTORY_PREFIX :: string where "HISTORY_PREFIX = ''system:migration:applied:''"

record SchemaVersionPayload =
  sv_version :: u32
  sv_applied_at :: u64

record MigrationSentinelPayload =
  ms_target_version :: u32
  ms_started_at :: u64
  ms_pid :: u32
  ms_binary :: string

record MigrationHistoryPayload =
  mh_version :: u32
  mh_started_at :: u64
  mh_completed_at :: u64
  mh_records_migrated :: u64
  mh_binary :: string

record 'j migration_api =
  mg_version :: "('j, SchemaVersionPayload) serde"
  mg_sentinel :: "('j, MigrationSentinelPayload) serde"
  mg_history :: "('j, MigrationHistoryPayload) serde"
  mg_gotcha :: "('j, GotchaRecord) serde"

datatype migration_error =
  MigrationStore string store_error
| NewerStore u32
| MalformedVersion
| PayloadError string
| SnapshotFailed string
| UnknownMigration u32

text \<open>How the copy of the knowledge tree ends; a copy that fails has already made its directory.\<close>

datatype copy_outcome = CopyDone | CopyFailed | NoBackupDir

datatype 't backup = Complete 't | Partial

record migration_env =
  mv_now :: "string \<Rightarrow> u64"
  mv_pid :: u32
  mv_binary :: string
  mv_source :: bool
  mv_copy :: copy_outcome

record ('t, 'x) migrating =
  mt_store :: "('t, 'x) Store"
  mt_backups :: "u32 \<rightharpoonup> 't backup"

type_synonym ('t, 'x, 'a) migration_result = "('t, 'x) Store \<times> (migration_error, 'a) result"

subsection \<open>Records\<close>

definition internal_record :: "string \<Rightarrow> string \<Rightarrow> string list \<Rightarrow> u64 \<Rightarrow> u64 \<Rightarrow> 'j option \<Rightarrow> 'j Record" where
  "internal_record key val tags clock now payload =
     \<lparr> r_key = key, r_value = val, r_category = DevNote, r_priority = Normal, r_tags = tags,
       r_created_at = now, r_updated_at = now, r_ref_url = None, r_staleness = fresh, r_lifecycle = Active,
       r_version = \<lparr> device_id = 0, logical_clock = clock, wall_clock = now \<rparr>,
       r_quality = quality_layer0_default, r_access_count = 0, r_last_accessed = 0, r_source = StaticAnalysis,
       r_confidence = confidence_for_new_record StaticAnalysis, r_gap_analysis_score = r32 0, r_payload = payload \<rparr>"

definition history_key :: "u32 \<Rightarrow> string" where
  "history_key version = HISTORY_PREFIX @ zero_pad 6 (show_nat (unat version))"

definition schema_version_record :: "'j migration_api \<Rightarrow> u32 \<Rightarrow> u64 \<Rightarrow> (migration_error, 'j Record) result" where
  "schema_version_record M version applied_at =
     (case to_value (mg_version M) \<lparr> sv_version = version, sv_applied_at = applied_at \<rparr> of
        None \<Rightarrow> Err (PayloadError ''serialize schema_version payload'')
      | Some p \<Rightarrow> Ok (internal_record SCHEMA_VERSION_KEY (''schema_version='' @ show_nat (unat version)) [''mati-internal'', ''schema'']
                       (ucast version) applied_at (Some p)))"

definition history_record :: "'j migration_api \<Rightarrow> migration_env \<Rightarrow> u32 \<Rightarrow> u64 \<Rightarrow> u64 \<Rightarrow> u64 \<Rightarrow> (migration_error, 'j Record) result" where
  "history_record M env version started_at completed_at records_migrated =
     (case to_value (mg_history M) \<lparr> mh_version = version, mh_started_at = started_at, mh_completed_at = completed_at,
             mh_records_migrated = records_migrated, mh_binary = mv_binary env \<rparr> of
        None \<Rightarrow> Err (PayloadError ''serialize migration history payload'')
      | Some p \<Rightarrow> Ok (internal_record (history_key version) (''migrated to v'' @ show_nat (unat version)) [''mati-internal'', ''migration'']
                       (ucast version) completed_at (Some p)))"

subsection \<open>Reading and writing the bookkeeping\<close>

definition read_schema_version :: "('t, 'x, 'v, 'j) store_api \<Rightarrow> 'j migration_api \<Rightarrow> ('t, 'x) Store \<Rightarrow> (migration_error, u32) result" where
  "read_schema_version A M S =
     (case store_get A S SCHEMA_VERSION_KEY of
        Inl e \<Rightarrow> Err (MigrationStore ''reading system:schema_version'' e)
      | Inr None \<Rightarrow> Ok 0
      | Inr (Some r) \<Rightarrow>
          (case payload_as (from_value (mg_version M)) r of
             None \<Rightarrow> Err MalformedVersion
           | Some p \<Rightarrow> Ok (sv_version p)))"

text \<open>A sentinel that cannot be read is deleted, and a failure of that ignored. The age only decides what is logged.\<close>

definition read_sentinel ::
  "('t, 'x, 'v, 'j) store_api \<Rightarrow> 'j migration_api \<Rightarrow> ('t, 'x) Store \<Rightarrow> ('t, 'x, MigrationSentinelPayload option) migration_result" where
  "read_sentinel A M S =
     (case store_get A S SENTINEL_KEY of
        Inl e \<Rightarrow> (S, Err (MigrationStore ''reading system:migration:in_progress'' e))
      | Inr None \<Rightarrow> (S, Ok None)
      | Inr (Some r) \<Rightarrow>
          (case payload_as (from_value (mg_sentinel M)) r of
             None \<Rightarrow> (fst (store_delete A S SENTINEL_KEY), Ok None)
           | Some p \<Rightarrow> (S, Ok (Some p))))"

definition transact ::
  "('t, 'x, 'v, 'j) store_api \<Rightarrow> string \<Rightarrow> ('t, 'x) Store \<Rightarrow> ('v, 'j) KnowledgeWriteOp list \<Rightarrow> ('t, 'x, unit) migration_result" where
  "transact A label S ops =
     (case transact_knowledge A S ops of
        (S1, Inl e) \<Rightarrow> (S1, Err (MigrationStore label e))
      | (S1, Inr _) \<Rightarrow> (S1, Ok ()))"

definition write_sentinel ::
  "('t, 'x, 'v, 'j) store_api \<Rightarrow> 'j migration_api \<Rightarrow> migration_env \<Rightarrow> ('t, 'x) Store \<Rightarrow> u32 \<Rightarrow> ('t, 'x, unit) migration_result" where
  "write_sentinel A M env S target =
     (let now = mv_now env ''sentinel''
      in case to_value (mg_sentinel M) \<lparr> ms_target_version = target, ms_started_at = now, ms_pid = mv_pid env, ms_binary = mv_binary env \<rparr> of
           None \<Rightarrow> (S, Err (PayloadError ''serialize sentinel payload''))
         | Some p \<Rightarrow>
             transact A [] S [PutRecord SENTINEL_KEY
               (internal_record SENTINEL_KEY (''migration in progress '' @ [CHR 0xE2, CHR 0x86, CHR 0x92] @ '' v'' @ show_nat (unat target)) [''mati-internal'', ''migration''] 1 now (Some p))])"

definition clear_sentinel_op :: "('t, 'x, 'v, 'j) store_api \<Rightarrow> ('t, 'x) Store \<Rightarrow> ('t, 'x, unit) migration_result" where
  "clear_sentinel_op A S =
     (case store_delete A S SENTINEL_KEY of
        (S1, Inl e) \<Rightarrow> (S1, Err (MigrationStore ''clear migration sentinel'' e))
      | (S1, Inr _) \<Rightarrow> (S1, Ok ()))"

definition PROBE_PREFIXES :: "string list" where
  "PROBE_PREFIXES = [''gotcha:'', ''file:'', ''decision:'', ''dev_note:'', ''dep:'', ''stage:'', ''cluster:'']"

fun probe :: "('t, 'x, 'v, 'j) store_api \<Rightarrow> ('t, 'x) Store \<Rightarrow> string list \<Rightarrow> (migration_error, bool) result" where
  "probe A S [] = Ok True"
| "probe A S (p # ps) =
     (case scan_keys A S p of
        Inl e \<Rightarrow> Err (MigrationStore (''probe scan of '' @ p) e)
      | Inr keys \<Rightarrow> if keys \<noteq> [] then Ok False else probe A S ps)"

definition store_is_empty :: "('t, 'x, 'v, 'j) store_api \<Rightarrow> ('t, 'x) Store \<Rightarrow> (migration_error, bool) result" where
  "store_is_empty A S = probe A S PROBE_PREFIXES"

subsection \<open>The copy before a migration\<close>

definition snapshot_knowledge_tree ::
  "migration_env \<Rightarrow> ('t, 'x) migrating \<Rightarrow> u32 \<Rightarrow> ('t, 'x) migrating \<times> (migration_error, unit) result" where
  "snapshot_knowledge_tree env m target =
     (if \<not> mv_source env then (m, Ok ())
      else if mt_backups m target \<noteq> None then (m, Ok ())
      else case mv_copy env of
             NoBackupDir \<Rightarrow> (m, Err (SnapshotFailed ''create backup parent''))
           | CopyFailed \<Rightarrow> (m\<lparr>mt_backups := (mt_backups m)(target \<mapsto> Partial)\<rparr>, Err (SnapshotFailed ''copy''))
           | CopyDone \<Rightarrow> (m\<lparr>mt_backups := (mt_backups m)(target \<mapsto> Complete (knowledge (mt_store m)))\<rparr>, Ok ()))"

subsection \<open>The migrations\<close>

definition apply_v1_baseline :: "('v, 'j) KnowledgeWriteOp list" where
  "apply_v1_baseline = []"

definition AUTO_DERIVED_PREFIXES :: "string list" where
  "AUTO_DERIVED_PREFIXES = [''gotcha:cochange:'', ''gotcha:revert:'', ''gotcha:ownership:'']"

definition sat_inc :: "u64 \<Rightarrow> u64" where
  "sat_inc n = (if n = - 1 then n else n + 1)"

text \<open>The write of one record: none for a record that is not active, cannot be read, or is not confirmed.\<close>

definition unconfirm :: "('j, GotchaRecord) serde \<Rightarrow> u64 \<Rightarrow> 'j Record \<Rightarrow> (migration_error, 'j Record option) result" where
  "unconfirm G now r =
     (if r_lifecycle r \<noteq> Active then Ok None
      else case payload_as (from_value G) r of
             None \<Rightarrow> Ok None
           | Some g \<Rightarrow>
               (if \<not> g_confirmed g then Ok None
                else case to_value G (g\<lparr>g_confirmed := False\<rparr>) of
                       None \<Rightarrow> Err (PayloadError (''re-serialize '' @ r_key r @ '' payload''))
                     | Some p \<Rightarrow> Ok (Some (r\<lparr>r_payload := Some p, r_updated_at := now,
                         r_version := (r_version r)\<lparr> logical_clock := sat_inc (logical_clock (r_version r)), wall_clock := now \<rparr>\<rparr>))))"

fun unconfirm_all ::
  "('j, GotchaRecord) serde \<Rightarrow> u64 \<Rightarrow> 'j Record list \<Rightarrow> (migration_error, ('v, 'j) KnowledgeWriteOp list) result" where
  "unconfirm_all G now [] = Ok []"
| "unconfirm_all G now (r # rs) =
     rbind (unconfirm G now r) (\<lambda>m. rbind (unconfirm_all G now rs) (\<lambda>ops.
       Ok ((case m of None \<Rightarrow> [] | Some r' \<Rightarrow> [PutRecord (r_key r') r']) @ ops)))"

fun apply_v2_from ::
  "('t, 'x, 'v, 'j) store_api \<Rightarrow> ('j, GotchaRecord) serde \<Rightarrow> u64 \<Rightarrow> ('t, 'x) Store \<Rightarrow> string list
   \<Rightarrow> (migration_error, ('v, 'j) KnowledgeWriteOp list) result" where
  "apply_v2_from A G now S [] = Ok []"
| "apply_v2_from A G now S (p # ps) =
     (case scan_prefix A S p of
        Inl e \<Rightarrow> Err (MigrationStore (''scan '' @ p) e)
      | Inr rs \<Rightarrow> rbind (unconfirm_all G now rs) (\<lambda>ops. rbind (apply_v2_from A G now S ps) (\<lambda>rest. Ok (ops @ rest))))"

definition apply_v2_unconfirm_auto_derived_gotchas ::
  "('t, 'x, 'v, 'j) store_api \<Rightarrow> 'j migration_api \<Rightarrow> migration_env \<Rightarrow> ('t, 'x) Store \<Rightarrow> (migration_error, ('v, 'j) KnowledgeWriteOp list) result" where
  "apply_v2_unconfirm_auto_derived_gotchas A M env S = apply_v2_from A (mg_gotcha M) (mv_now env ''v2'') S AUTO_DERIVED_PREFIXES"

definition commit_migration ::
  "('t, 'x, 'v, 'j) store_api \<Rightarrow> 'j migration_api \<Rightarrow> migration_env \<Rightarrow> ('t, 'x) Store \<Rightarrow> u32 \<Rightarrow> ('v, 'j) KnowledgeWriteOp list
   \<Rightarrow> u64 \<Rightarrow> u64 \<Rightarrow> u64 \<Rightarrow> ('t, 'x, unit) migration_result" where
  "commit_migration A M env S version extra_ops started_at completed_at n =
     (case schema_version_record M version completed_at of
        Inl e \<Rightarrow> (S, Err e)
      | Inr v \<Rightarrow>
          (case history_record M env version started_at completed_at n of
             Inl e \<Rightarrow> (S, Err e)
           | Inr h \<Rightarrow> transact A ''schema migration commit failed'' S
                        (extra_ops @ [PutRecord SCHEMA_VERSION_KEY v, PutRecord (history_key version) h])))"

definition commit_bootstrap ::
  "('t, 'x, 'v, 'j) store_api \<Rightarrow> 'j migration_api \<Rightarrow> migration_env \<Rightarrow> ('t, 'x) Store \<Rightarrow> u32 \<Rightarrow> ('t, 'x, unit) migration_result" where
  "commit_bootstrap A M env S target =
     (let now = mv_now env ''bootstrap''
      in case schema_version_record M target now of
           Inl e \<Rightarrow> (S, Err e)
         | Inr v \<Rightarrow>
             (case history_record M env target now now 0 of
                Inl e \<Rightarrow> (S, Err e)
              | Inr h \<Rightarrow> transact A ''bootstrap stamp commit failed'' S [PutRecord SCHEMA_VERSION_KEY v, PutRecord (history_key target) h]))"

text \<open>The data writes of a step.\<close>

definition step_ops ::
  "('t, 'x, 'v, 'j) store_api \<Rightarrow> 'j migration_api \<Rightarrow> migration_env \<Rightarrow> ('t, 'x) Store \<Rightarrow> u32 \<Rightarrow> (migration_error, ('v, 'j) KnowledgeWriteOp list) result" where
  "step_ops A M env S v =
     (if v = 1 then Ok apply_v1_baseline
      else if v = 2 then apply_v2_unconfirm_auto_derived_gotchas A M env S
      else Err (UnknownMigration v))"

definition migration_step ::
  "('t, 'x, 'v, 'j) store_api \<Rightarrow> 'j migration_api \<Rightarrow> migration_env \<Rightarrow> ('t, 'x) Store \<Rightarrow> u32 \<Rightarrow> ('t, 'x, unit) migration_result" where
  "migration_step A M env S v =
     (case step_ops A M env S v of
        Inl e \<Rightarrow> (S, Err e)
      | Inr ops \<Rightarrow> commit_migration A M env S v ops (mv_now env (''started v'' @ show_nat (unat v))) (mv_now env (''completed v'' @ show_nat (unat v)))
                     (word_of_nat (length ops)))"

function migrate_from ::
  "('t, 'x, 'v, 'j) store_api \<Rightarrow> 'j migration_api \<Rightarrow> migration_env \<Rightarrow> ('t, 'x) Store \<Rightarrow> u32 \<Rightarrow> ('t, 'x, unit) migration_result" where
  "migrate_from A M env S ver =
     (if ver < CURRENT_SCHEMA_VERSION
      then case migration_step A M env S (ver + 1) of
             (S1, Inl e) \<Rightarrow> (S1, Err e)
           | (S1, Inr _) \<Rightarrow> migrate_from A M env S1 (ver + 1)
      else (S, Ok ()))"
  by pat_completeness auto

termination
proof (relation "measure (\<lambda>(A, M, env, S, ver). unat (CURRENT_SCHEMA_VERSION - ver))")
  fix env and S S1 :: "('t, 'x) Store" and A :: "('t, 'x, 'v, 'j) store_api" and M :: "'j migration_api" and ver :: u32
  assume "ver < CURRENT_SCHEMA_VERSION"
  then have "CURRENT_SCHEMA_VERSION - (ver + 1) < CURRENT_SCHEMA_VERSION - ver"
    unfolding CURRENT_SCHEMA_VERSION_def by unat_arith
  then show "((A, M, env, S1, ver + 1), A, M, env, S, ver) \<in> measure (\<lambda>(A, M, env, S, ver). unat (CURRENT_SCHEMA_VERSION - ver))"
    by (simp add: word_less_nat_alt)
qed simp

subsection \<open>Migrating\<close>

text \<open>The upgrade of a store with data, after the checks: copy, sentinel, steps, and the sentinel removed.\<close>

definition upgrade ::
  "('t, 'x, 'v, 'j) store_api \<Rightarrow> 'j migration_api \<Rightarrow> migration_env \<Rightarrow> ('t, 'x) migrating \<Rightarrow> u32 \<Rightarrow> ('t, 'x) migrating \<times> (migration_error, unit) result" where
  "upgrade A M env m ver =
     (case snapshot_knowledge_tree env m CURRENT_SCHEMA_VERSION of
        (m1, Inl e) \<Rightarrow> (m1, Err e)
      | (m1, Inr _) \<Rightarrow>
          (case write_sentinel A M env (mt_store m1) CURRENT_SCHEMA_VERSION of
             (S1, Inl e) \<Rightarrow> (m1\<lparr>mt_store := S1\<rparr>, Err e)
           | (S1, Inr _) \<Rightarrow>
               (case migrate_from A M env S1 ver of
                  (S2, Inl e) \<Rightarrow> (m1\<lparr>mt_store := S2\<rparr>, Err e)
                | (S2, Inr _) \<Rightarrow> (case clear_sentinel_op A S2 of (S3, res) \<Rightarrow> (m1\<lparr>mt_store := S3\<rparr>, res)))))"

definition migrate ::
  "('t, 'x, 'v, 'j) store_api \<Rightarrow> 'j migration_api \<Rightarrow> migration_env \<Rightarrow> ('t, 'x) migrating \<Rightarrow> ('t, 'x) migrating \<times> (migration_error, unit) result" where
  "migrate A M env m =
     (case read_schema_version A M (mt_store m) of
        Inl e \<Rightarrow> (m, Err e)
      | Inr ver \<Rightarrow>
          (if CURRENT_SCHEMA_VERSION < ver then (m, Err (NewerStore ver))
           else if ver = CURRENT_SCHEMA_VERSION then (m, Ok ())
           else case read_sentinel A M (mt_store m) of
                  (S1, Inl e) \<Rightarrow> (m\<lparr>mt_store := S1\<rparr>, Err e)
                | (S1, Inr stale) \<Rightarrow>
                    (let S2 = (if stale \<noteq> None then fst (clear_sentinel_op A S1) else S1); m2 = m\<lparr>mt_store := S2\<rparr>
                     in if ver \<noteq> 0 then upgrade A M env m2 ver
                        else case store_is_empty A S2 of
                               Inl e \<Rightarrow> (m2, Err e)
                             | Inr True \<Rightarrow>
                                 (case commit_bootstrap A M env S2 CURRENT_SCHEMA_VERSION of (S3, res) \<Rightarrow> (m2\<lparr>mt_store := S3\<rparr>, res))
                             | Inr False \<Rightarrow> upgrade A M env m2 ver)))"

end
