(* ===== verification/Migrations_Spec.thy ===== *)
theory Migrations_Spec
  imports Migrations Reparse_Spec
begin

section \<open>Properties of the migrations\<close>

text \<open>
  A migration is all or nothing: whatever fails, the user's records are as they were or all migrated, and the version tells which. The copy made before a
  migration is only as good as the first attempt to make it.
\<close>

declare starts_with_Cons [simp del] migrate_from.simps [simp del]

definition user_key :: "string \<Rightarrow> bool" where
  "user_key k \<longleftrightarrow> \<not> starts_with k ''system:''"

definition auto_key :: "string \<Rightarrow> bool" where
  "auto_key k \<longleftrightarrow> list_ex (starts_with k) AUTO_DERIVED_PREFIXES"

text \<open>The specification of the second migration: what a key holds afterwards.\<close>

definition unconfirmed_value :: "('t, 'x, 'v, 'j) store_api \<Rightarrow> ('j, GotchaRecord) serde \<Rightarrow> u64 \<Rightarrow> 'v \<Rightarrow> 'v option" where
  "unconfirmed_value A G now v =
     (case dec_record A v of
        None \<Rightarrow> Some v
      | Some r \<Rightarrow> (case unconfirm G now r of Inr (Some r') \<Rightarrow> enc_record A r' | _ \<Rightarrow> Some v))"

definition migrated_content :: "('t, 'x, 'v, 'j) store_api \<Rightarrow> ('j, GotchaRecord) serde \<Rightarrow> u64 \<Rightarrow> (string \<rightharpoonup> 'v) \<Rightarrow> string \<rightharpoonup> 'v" where
  "migrated_content A G now m k = (if auto_key k then Option.bind (m k) (unconfirmed_value A G now) else m k)"

definition auto_keyed :: "('t, 'x, 'v, 'j) store_api \<Rightarrow> (string \<rightharpoonup> 'v) \<Rightarrow> bool" where
  "auto_keyed A m \<longleftrightarrow> (\<forall>k v r. auto_key k \<longrightarrow> m k = Some v \<longrightarrow> dec_record A v = Some r \<longrightarrow> r_key r = k)"

text \<open>The user's keys of two states of the store: the same, or migrated.\<close>

definition user_same :: "('t \<Rightarrow> string \<rightharpoonup> 'v) \<Rightarrow> ('t, 'x) Store \<Rightarrow> ('t, 'x) Store \<Rightarrow> bool" where
  "user_same view S S' \<longleftrightarrow> (\<forall>k. user_key k \<longrightarrow> store_content view S' k = store_content view S k)"

definition user_migrated ::
  "('t, 'x, 'v, 'j) store_api \<Rightarrow> ('t \<Rightarrow> string \<rightharpoonup> 'v) \<Rightarrow> ('j, GotchaRecord) serde \<Rightarrow> u64 \<Rightarrow> ('t, 'x) Store \<Rightarrow> ('t, 'x) Store \<Rightarrow> bool" where
  "user_migrated A view G now S S' \<longleftrightarrow> (\<forall>k. user_key k \<longrightarrow> store_content view S' k = migrated_content A G now (store_content view S) k)"

text \<open>The codecs of the payloads decode what they encoded.\<close>

definition codecs :: "'j migration_api \<Rightarrow> bool" where
  "codecs M \<longleftrightarrow> serde_roundtrip (mg_version M) \<and> serde_roundtrip (mg_sentinel M) \<and> serde_roundtrip (mg_history M) \<and> serde_roundtrip (mg_gotcha M)"

subsection \<open>Keys\<close>

lemma system_keys [simp]:
  "for_key SCHEMA_VERSION_KEY = Immediate" "for_key SENTINEL_KEY = Immediate" "for_key (history_key v) = Immediate"
  "\<not> user_key SCHEMA_VERSION_KEY" "\<not> user_key SENTINEL_KEY" "\<not> user_key (history_key v)"
  "SCHEMA_VERSION_KEY \<noteq> SENTINEL_KEY" "SCHEMA_VERSION_KEY \<noteq> history_key v" "SENTINEL_KEY \<noteq> history_key v"
  by (auto simp: for_key_def user_key_def SCHEMA_VERSION_KEY_def SENTINEL_KEY_def history_key_def HISTORY_PREFIX_def starts_with_def)

lemma auto_keys:
  assumes "p \<in> set AUTO_DERIVED_PREFIXES"
  shows "ascii_prefix p" and "starts_with k p \<Longrightarrow> for_key k = for_key p"
  using assms by (auto simp: AUTO_DERIVED_PREFIXES_def starts_with_iff for_key_def ascii_prefix_def)

lemma auto_key_user [simp]: "auto_key k \<Longrightarrow> user_key k" "auto_key k \<Longrightarrow> for_key k = Immediate" "auto_key k \<Longrightarrow> k \<noteq> SCHEMA_VERSION_KEY"
  by (auto simp: auto_key_def user_key_def AUTO_DERIVED_PREFIXES_def starts_with_iff for_key_def SCHEMA_VERSION_KEY_def)

lemma unconfirm_key: "unconfirm G now r = Inr (Some r') \<Longrightarrow> r_key r' = r_key r"
  by (auto simp: unconfirm_def split: if_splits option.splits)

text \<open>The write the second migration makes for a record.\<close>

definition unconfirms :: "('j, GotchaRecord) serde \<Rightarrow> u64 \<Rightarrow> 'j Record \<Rightarrow> ('v, 'j) KnowledgeWriteOp \<Rightarrow> bool" where
  "unconfirms G now r op \<longleftrightarrow> (\<exists>r'. unconfirm G now r = Inr (Some r') \<and> op = PutRecord (r_key r') r')"

lemma unconfirm_all_set:
  "unconfirm_all G now rs = Inr ops \<Longrightarrow> (op \<in> set ops \<longleftrightarrow> (\<exists>r\<in>set rs. unconfirms G now r op)) \<and> (\<forall>r\<in>set rs. \<exists>m. unconfirm G now r = Inr m)"
proof (induction rs arbitrary: ops)
  case (Cons r rs)
  then obtain m rest where m: "unconfirm G now r = Inr m" "unconfirm_all G now rs = Inr rest"
    "ops = (case m of None \<Rightarrow> [] | Some r' \<Rightarrow> [PutRecord (r_key r') r']) @ rest" by (auto simp: rbind_Inr_iff)
  then show ?case using Cons.IH [OF m(2)] by (cases m) (auto simp: unconfirms_def)
qed simp

context live_store
begin

definition auto_records :: "('t, 'x) Store \<Rightarrow> string list \<Rightarrow> 'j Record set" where
  "auto_records S ps = {r. \<exists>p\<in>set ps. \<exists>k v. starts_with k p \<and> content S k = Some v \<and> dec_record A v = Some r}"

lemma v2_ops_set:
  assumes "apply_v2_from A G now S ps = Inr ops" "set ps \<subseteq> set AUTO_DERIVED_PREFIXES"
  shows "(op \<in> set ops \<longleftrightarrow> (\<exists>r\<in>auto_records S ps. unconfirms G now r op)) \<and> (\<forall>r\<in>auto_records S ps. \<exists>m. unconfirm G now r = Inr m)"
  using assms
proof (induction ps arbitrary: ops)
  case Nil
  then show ?case by (simp add: auto_records_def)
next
  case (Cons p ps)
  then obtain rs xs rest where s: "scan_prefix A S p = Inr rs" "unconfirm_all G now rs = Inr xs" "apply_v2_from A G now S ps = Inr rest" "ops = xs @ rest"
    by (auto simp: rbind_Inr_iff split: sum.splits)
  have p: "p \<in> set AUTO_DERIVED_PREFIXES" "set ps \<subseteq> set AUTO_DERIVED_PREFIXES" using Cons.prems(2) by simp_all
  have "auto_records S (p # ps) = set rs \<union> auto_records S ps"
    using scan_prefix_set [OF s(1) auto_keys [OF p(1)]] by (simp add: auto_records_def) blast
  moreover have "op \<in> set ops \<longleftrightarrow> op \<in> set xs \<or> op \<in> set rest" by (simp add: s(4))
  ultimately show ?case using Cons.IH [OF s(3) p(2)] unconfirm_all_set [OF s(2), of op] by blast
qed

text \<open>What the writes of the second migration make of the store.\<close>

lemma v2_content:
  assumes v2: "apply_v2_from A G now S AUTO_DERIVED_PREFIXES = Inr ops" and keyed: "auto_keyed A (content S)"
    and rest: "\<forall>op\<in>set rest. \<not> user_key (op_key op)" and k: "user_key k"
  shows "apply_ops (op_writes A (ops @ rest)) (content S) k = migrated_content A G now (content S) k"
proof -
  note ops = v2_ops_set [OF v2 order_refl]
  have rec: "r \<in> auto_records S AUTO_DERIVED_PREFIXES \<longleftrightarrow> (\<exists>k v. auto_key k \<and> content S k = Some v \<and> dec_record A v = Some r)" for r
    by (auto simp: auto_records_def auto_key_def list_ex_iff)
  have own: "auto_key j \<and> (\<exists>v r. content S j = Some v \<and> dec_record A v = Some r \<and> unconfirm G now r = Inr (Some r') \<and> r_key r' = j)"
    if "PutRecord j r' \<in> set ops" for j r'
    using that ops [of "PutRecord j r'"] keyed unconfirm_key by (fastforce simp: rec unconfirms_def auto_keyed_def)
  have put: "\<exists>r'. op = PutRecord (op_key op) r'" if "op \<in> set ops" for op
    using that ops [of op] by (auto simp: unconfirms_def)
  have away: "k \<notin> fst ` set (op_writes A rest)" using rest k by (auto simp: op_writes_def image_image)
  show ?thesis
  proof (cases "k \<in> op_key ` set ops")
    case True
    then obtain op where op: "op \<in> set ops" "op_key op = k" by blast
    obtain r' where r': "PutRecord k r' \<in> set ops" using put [OF op(1)] op by metis
    obtain v r where v: "auto_key k" "content S k = Some v" "dec_record A v = Some r" "unconfirm G now r = Inr (Some r')" using own [OF r'] by blast
    have "snd kv = enc_record A r'" if kv: "kv \<in> set (op_writes A ops)" "fst kv = k" for kv
    proof -
      obtain o' where o': "o' \<in> set ops" "kv = (op_key o', op_value A o')" using kv(1) by (auto simp: op_writes_def)
      then obtain r2 where "o' = PutRecord k r2" using put [OF o'(1)] kv(2) by auto
      then show ?thesis using own [of k r2] o' v by auto
    qed
    then have "apply_ops ([] @ op_writes A ops @ op_writes A rest) (content S) k = enc_record A r'"
      using True away by (intro apply_ops_agree) (auto simp: op_writes_def image_image)
    then show ?thesis using v by (simp add: migrated_content_def unconfirmed_value_def op_writes_def)
  next
    case False
    then have "k \<notin> fst ` set (op_writes A (ops @ rest))" using away by (auto simp: op_writes_def image_image)
    then have "apply_ops (op_writes A (ops @ rest)) (content S) k = content S k" by (rule apply_ops_other)
    moreover have "unconfirmed_value A G now v = Some v" if "auto_key k" "content S k = Some v" for v
    proof (cases "dec_record A v")
      case (Some r)
      have r: "r \<in> auto_records S AUTO_DERIVED_PREFIXES" using rec that Some by blast
      then obtain m where m: "unconfirm G now r = Inr m" using ops by blast
      have "m = None"
      proof (rule ccontr)
        assume "m \<noteq> None"
        then obtain r' where r': "m = Some r'" by blast
        then have "PutRecord (r_key r') r' \<in> set ops" using r m ops [of "PutRecord (r_key r') r'"] by (auto simp: unconfirms_def)
        moreover have "r_key r' = k" using unconfirm_key m r' keyed that Some by (metis auto_keyed_def)
        ultimately show False using False by (force simp: image_iff)
      qed
      then show ?thesis using m Some by (simp add: unconfirmed_value_def)
    qed (simp add: unconfirmed_value_def)
    ultimately show ?thesis by (cases "content S k") (auto simp: migrated_content_def)
  qed
qed

subsection \<open>Steps\<close>

abbreviation "same \<equiv> user_same view"
abbreviation "quiet \<equiv> changes {SENTINEL_KEY}"

lemma read_version_content:
  "sound S \<Longrightarrow> sound S' \<Longrightarrow> content S' SCHEMA_VERSION_KEY = content S SCHEMA_VERSION_KEY \<Longrightarrow> read_schema_version A M S' = read_schema_version A M S"
  by (simp add: read_schema_version_def store_get_content)

lemma quiet_facts:
  assumes "quiet S S'" "sound S"
  shows "sound S'" "same S S'" "read_schema_version A M S' = read_schema_version A M S"
proof -
  have "k \<noteq> SENTINEL_KEY" if "user_key k" for k using that by auto
  then show "sound S'" "same S S'" "read_schema_version A M S' = read_schema_version A M S"
    using assms read_version_content [of S S'] by (simp_all add: changes_def user_same_def)
qed

lemma transact_result:
  assumes "transact A label S ops = (S', res)"
  shows "changes (op_key ` set ops) S S'" and "res = Inl e \<Longrightarrow> changes {} S S'"
    and "res = Inr u \<Longrightarrow> content S' = apply_ops (op_writes A ops) (content S)"
  using assms transact_knowledge_changes [of S ops] transact_knowledge_ok [of S ops]
  by (auto simp: transact_def split: prod.splits sum.splits)

lemma sentinel_quiet:
  "quiet S (fst (write_sentinel A M env S t))" "quiet S (fst (clear_sentinel_op A S))" "quiet S (fst (read_sentinel A M S))"
proof -
  show "quiet S (fst (write_sentinel A M env S t))"
    using transact_result(1) [of "[]" S "[PutRecord SENTINEL_KEY r]" for r]
    by (simp add: write_sentinel_def Let_def split: option.split) (metis fst_conv surj_pair)
  show "quiet S (fst (clear_sentinel_op A S))"
    using delete_changes [of SENTINEL_KEY S] by (auto simp: clear_sentinel_op_def split: prod.split sum.split)
  show "quiet S (fst (read_sentinel A M S))"
    using delete_changes [of SENTINEL_KEY S] by (auto simp: read_sentinel_def split: sum.split option.split)
qed

lemma committed_step:
  assumes "commit_migration A M env S v ops st ct n = (S', res)" "serde_roundtrip (mg_version M)"
  shows "res = Inl e \<Longrightarrow> changes {} S S'"
    and "res = Inr u \<Longrightarrow> sound S' = sound S \<and> (\<exists>vr hr. content S' = apply_ops (op_writes A (ops @ [PutRecord SCHEMA_VERSION_KEY vr, PutRecord (history_key v) hr])) (content S))
      \<and> (sound S \<longrightarrow> read_schema_version A M S' = Ok v)"
proof -
  show "changes {} S S'" if "res = Inl e"
    using assms(1) that transact_result(2) by (auto simp: commit_migration_def split: sum.splits)
  show "sound S' = sound S \<and> (\<exists>vr hr. content S' = apply_ops (op_writes A (ops @ [PutRecord SCHEMA_VERSION_KEY vr, PutRecord (history_key v) hr])) (content S))
      \<and> (sound S \<longrightarrow> read_schema_version A M S' = Ok v)" if ok: "res = Inr u"
  proof -
    obtain vr hr where r: "schema_version_record M v ct = Inr vr"
      and t: "transact A ''schema migration commit failed'' S (ops @ [PutRecord SCHEMA_VERSION_KEY vr, PutRecord (history_key v) hr]) = (S', Inr u)"
      using assms(1) ok by (auto simp: commit_migration_def split: sum.splits)
    note c = transact_result(3) [OF t refl]
    have s: "sound S' = sound S" using transact_result(1) [OF t] by (simp add: changes_def)
    obtain b where b: "enc_record A vr = Some b" using enc_total by blast
    have "content S' SCHEMA_VERSION_KEY = Some b" using b by (simp add: c op_writes_def apply_ops_append)
    moreover have "payload_as (from_value (mg_version M)) vr = Some \<lparr> sv_version = v, sv_applied_at = ct \<rparr>"
      using r assms(2) by (auto simp: schema_version_record_def internal_record_def payload_as_def serde_roundtrip_def split: option.splits) (metis option.inject)
    ultimately have "sound S \<longrightarrow> read_schema_version A M S' = Ok v"
      using s dec_enc [OF b] by (simp add: read_schema_version_def store_get_content decode_as_def)
    then show ?thesis using s c by blast
  qed
qed

text \<open>A step of the first version keeps the user's records; one of the second migrates them.\<close>

lemma step_result:
  assumes st: "migration_step A M env S v = (S', res)" and M: "serde_roundtrip (mg_version M)" and S: "sound S"
  shows "sound S' \<and> ((\<exists>e. res = Inl e) \<and> same S S' \<and> read_schema_version A M S' = read_schema_version A M S
      \<or> (\<exists>u. res = Inr u) \<and> read_schema_version A M S' = Ok v
         \<and> (v = 1 \<and> same S S' \<or> v = 2 \<and> (auto_keyed A (content S) \<longrightarrow> user_migrated A view (mg_gotcha M) (mv_now env ''v2'') S S')))"
proof (cases "step_ops A M env S v")
  case (Inl e)
  then show ?thesis using st S by (auto simp: migration_step_def user_same_def)
next
  case (Inr ops)
  then obtain t1 t2 n where c: "commit_migration A M env S v ops t1 t2 n = (S', res)" using st by (simp add: migration_step_def)
  note r = committed_step [OF c M]
  show ?thesis
  proof (cases res)
    case (Inl e)
    then have "changes {} S S'" using r(1) by blast
    then have "sound S'" "content S' = content S" using S by (auto simp: changes_def)
    then show ?thesis using Inl S read_version_content [of S S'] by (simp add: user_same_def)
  next
    case (Inr u)
    then obtain vr hr where w: "sound S'" "read_schema_version A M S' = Ok v"
      "content S' = apply_ops (op_writes A (ops @ [PutRecord SCHEMA_VERSION_KEY vr, PutRecord (history_key v) hr])) (content S)"
      using r(2) S by blast
    have system: "\<forall>op\<in>set [PutRecord SCHEMA_VERSION_KEY vr, PutRecord (history_key v) hr]. \<not> user_key (op_key op)" by simp
    consider "v = 1" "ops = []" | "v = 2" "apply_v2_from A (mg_gotcha M) (mv_now env ''v2'') S AUTO_DERIVED_PREFIXES = Inr ops"
      using \<open>step_ops A M env S v = Inr ops\<close>
      by (auto simp: step_ops_def apply_v1_baseline_def apply_v2_unconfirm_auto_derived_gotchas_def split: if_splits)
    then show ?thesis
    proof cases
      case 1
      have "same S S'"
        unfolding user_same_def w(3) using 1 system by (auto simp: op_writes_def)
      then show ?thesis using w 1 Inr by blast
    next
      case 2
      have "user_migrated A view (mg_gotcha M) (mv_now env ''v2'') S S'" if "auto_keyed A (content S)"
        unfolding user_migrated_def w(3) using v2_content [OF 2(2) that system] by blast
      then show ?thesis using w 2 Inr by blast
    qed
  qed
qed

lemma same_trans: "same S S' \<Longrightarrow> same S' S'' \<Longrightarrow> same S S''"
  by (simp add: user_same_def)

lemma same_keyed: "same S S' \<Longrightarrow> auto_keyed A (content S') = auto_keyed A (content S)"
  by (auto simp: auto_keyed_def user_same_def)

lemma same_migrated: "same S1 S \<Longrightarrow> user_migrated A view G now S S' \<Longrightarrow> user_migrated A view G now S1 S'"
  by (simp add: user_migrated_def user_same_def migrated_content_def)

lemma migrated_same: "user_migrated A view G now S S' \<Longrightarrow> same S' S'' \<Longrightarrow> user_migrated A view G now S S''"
  by (simp add: user_migrated_def user_same_def)

definition all_or_nothing :: "'j migration_api \<Rightarrow> migration_env \<Rightarrow> ('t, 'x) Store \<Rightarrow> ('t, 'x) Store \<Rightarrow> bool" where
  "all_or_nothing M env S S' \<longleftrightarrow>
     same S S' \<and> (read_schema_version A M S' = read_schema_version A M S \<or> read_schema_version A M S = Ok 0 \<and> read_schema_version A M S' = Ok 1)
     \<or> read_schema_version A M S' = Ok 2 \<and> user_migrated A view (mg_gotcha M) (mv_now env ''v2'') S S'"

lemma migrate_from_1:
  assumes "migrate_from A M env S 1 = (S', res)" "serde_roundtrip (mg_version M)" "sound S" "auto_keyed A (content S)"
  shows "sound S' \<and> ((\<exists>e. res = Inl e) \<and> same S S' \<and> read_schema_version A M S' = read_schema_version A M S
      \<or> res = Inr () \<and> read_schema_version A M S' = Ok 2 \<and> user_migrated A view (mg_gotcha M) (mv_now env ''v2'') S S')"
proof -
  obtain S1 r1 where st: "migration_step A M env S 2 = (S1, r1)" by (metis surj_pair)
  have "(S', res) = (case r1 of Inl e \<Rightarrow> (S1, Inl e) | Inr u \<Rightarrow> (S1, Inr ()))"
    using assms(1) st by (simp add: migrate_from.simps [of A M env S 1] migrate_from.simps [of A M env S1 2] CURRENT_SCHEMA_VERSION_def split: sum.splits)
  then show ?thesis using step_result [OF st assms(2,3)] assms(4) by (cases r1) auto
qed

lemma migrate_from_0:
  assumes "migrate_from A M env S 0 = (S', res)" "serde_roundtrip (mg_version M)" "sound S" "auto_keyed A (content S)"
  shows "sound S' \<and> ((\<exists>e. res = Inl e) \<and> same S S' \<and> (read_schema_version A M S' = read_schema_version A M S \<or> read_schema_version A M S' = Ok 1)
      \<or> res = Inr () \<and> read_schema_version A M S' = Ok 2 \<and> user_migrated A view (mg_gotcha M) (mv_now env ''v2'') S S')"
proof -
  obtain S1 r1 where st: "migration_step A M env S 1 = (S1, r1)" by (metis surj_pair)
  note step = step_result [OF st assms(2,3)]
  show ?thesis
  proof (cases r1)
    case (Inl e)
    then have "S' = S1 \<and> res = Inl e" using assms(1) st by (simp add: migrate_from.simps [of A M env S 0] CURRENT_SCHEMA_VERSION_def)
    then show ?thesis using step Inl by auto
  next
    case (Inr u)
    then have m: "migrate_from A M env S1 1 = (S', res)" using assms(1) st by (simp add: migrate_from.simps [of A M env S 0] CURRENT_SCHEMA_VERSION_def)
    have s1: "sound S1" "same S S1" "read_schema_version A M S1 = Ok 1" using step Inr by auto
    have k1: "auto_keyed A (content S1)" using same_keyed [OF s1(2)] assms(4) by simp
    show ?thesis
      using migrate_from_1 [OF m assms(2) s1(1) k1] s1(2,3) same_trans [OF s1(2)] same_migrated [OF s1(2)] by metis
  qed
qed

subsection \<open>The whole migration\<close>

definition migrated_to_head :: "'j migration_api \<Rightarrow> migration_env \<Rightarrow> ('t, 'x) Store \<Rightarrow> ('t, 'x) Store \<Rightarrow> bool" where
  "migrated_to_head M env S S' \<longleftrightarrow> read_schema_version A M S' = Ok 2 \<and> user_migrated A view (mg_gotcha M) (mv_now env ''v2'') S S'"

lemma quiet_result:
  assumes "quiet S S1" "sound S" "sound S2 \<and> all_or_nothing M env S1 S2 \<and> (res = Inr () \<longrightarrow> migrated_to_head M env S1 S2)"
  shows "sound S2 \<and> all_or_nothing M env S S2 \<and> (res = Inr () \<longrightarrow> migrated_to_head M env S S2)"
  using quiet_facts [OF assms(1,2)] assms(3) same_trans [of S S1 S2] same_migrated [of S S1]
  unfolding all_or_nothing_def migrated_to_head_def by metis

lemma snapshot_store: "snapshot_knowledge_tree env m t = (m1, r) \<Longrightarrow> mt_store m1 = mt_store m"
  by (auto simp: snapshot_knowledge_tree_def split: if_splits copy_outcome.splits)

lemma upgrade_result:
  assumes u: "upgrade A M env m ver = (m', res)" and M: "serde_roundtrip (mg_version M)" and S: "sound (mt_store m)"
    and k: "auto_keyed A (content (mt_store m))" and v: "read_schema_version A M (mt_store m) = Ok ver" "ver = 0 \<or> ver = 1"
  shows "sound (mt_store m') \<and> all_or_nothing M env (mt_store m) (mt_store m') \<and> (res = Inr () \<longrightarrow> migrated_to_head M env (mt_store m) (mt_store m'))"
proof -
  obtain m1 r1 where sn: "snapshot_knowledge_tree env m CURRENT_SCHEMA_VERSION = (m1, r1)" by (metis surj_pair)
  show ?thesis
  proof (cases r1)
    case (Inl e)
    then have "mt_store m' = mt_store m" "res = Inl e" using u sn snapshot_store [OF sn] by (auto simp: upgrade_def)
    then show ?thesis using S by (auto simp: all_or_nothing_def user_same_def)
  next
    case (Inr u1)
    note [simp] = snapshot_store [OF sn]
    obtain S1 r2 where w: "write_sentinel A M env (mt_store m) CURRENT_SCHEMA_VERSION = (S1, r2)" by (metis surj_pair)
    have q: "quiet (mt_store m) S1" using sentinel_quiet(1) [of "mt_store m" M env CURRENT_SCHEMA_VERSION] w by simp
    note q1 = quiet_facts [OF q S]
    show ?thesis
    proof (rule quiet_result [OF q S], cases r2)
      case (Inl e)
      then have "mt_store m' = S1" "res = Inl e" using u sn Inr w by (auto simp: upgrade_def)
      then show "sound (mt_store m') \<and> all_or_nothing M env S1 (mt_store m') \<and> (res = Inr () \<longrightarrow> migrated_to_head M env S1 (mt_store m'))"
        using q1(1) by (simp add: all_or_nothing_def user_same_def)
    next
      case r2: (Inr u2)
      obtain S2 r3 where mf: "migrate_from A M env S1 ver = (S2, r3)" by (metis surj_pair)
      have k1: "auto_keyed A (content S1)" using same_keyed [OF q1(2)] k by simp
      have rv: "read_schema_version A M S1 = Ok ver" using q1(3) v(1) by simp
      have main: "sound S2 \<and> ((\<exists>e. r3 = Inl e) \<and> all_or_nothing M env S1 S2 \<or> r3 = Inr () \<and> migrated_to_head M env S1 S2)"
        using v(2) migrate_from_0 [OF _ M q1(1) k1] migrate_from_1 [OF _ M q1(1) k1] mf rv
        unfolding all_or_nothing_def migrated_to_head_def by metis
      show "sound (mt_store m') \<and> all_or_nothing M env S1 (mt_store m') \<and> (res = Inr () \<longrightarrow> migrated_to_head M env S1 (mt_store m'))"
      proof (cases r3)
        case (Inl e)
        then show ?thesis using u sn Inr w r2 mf main by (auto simp: upgrade_def)
      next
        case r3: (Inr u3)
        have m': "mt_store m' = fst (clear_sentinel_op A S2)" using u sn Inr w r2 mf r3 by (auto simp: upgrade_def split: prod.splits)
        have s2: "sound S2" "migrated_to_head M env S1 S2" using main r3 by auto
        note q2 = quiet_facts [OF sentinel_quiet(2) s2(1)]
        have "migrated_to_head M env S1 (mt_store m')" "sound (mt_store m')"
          using s2(2) q2 migrated_same unfolding m' migrated_to_head_def by auto
        then show ?thesis by (simp add: all_or_nothing_def migrated_to_head_def)
      qed
    qed
  qed
qed

lemma empty_store:
  assumes "store_is_empty A S = Inr True" "k \<in> dom (content S) \<Longrightarrow> utf8_ok k" "auto_key k"
  shows "content S k = None"
proof -
  obtain keys where keys: "scan_keys A S ''gotcha:'' = Inr keys" "keys = []"
    using assms(1) by (auto simp: store_is_empty_def PROBE_PREFIXES_def split: sum.splits if_splits)
  have "''gotcha:'' \<in> set KNOWLEDGE_NAMESPACES" by (simp add: KNOWLEDGE_NAMESPACES_def)
  from scan_keys_set(1) [OF keys(1) knowledge_ns_closed [OF this]]
  have "\<not> (starts_with k ''gotcha:'' \<and> utf8_ok k \<and> k \<in> dom (content S))" using keys(2) by auto
  moreover have "starts_with k ''gotcha:''" using assms(3) by (auto simp: auto_key_def AUTO_DERIVED_PREFIXES_def starts_with_iff)
  ultimately show ?thesis using assms(2) by blast
qed

lemma bootstrap_result:
  assumes "commit_bootstrap A M env S 2 = (S', res)" "serde_roundtrip (mg_version M)" "sound S"
  shows "sound S' \<and> same S S' \<and> ((\<exists>e. res = Inl e) \<and> read_schema_version A M S' = read_schema_version A M S \<or> res = Inr () \<and> read_schema_version A M S' = Ok 2)"
proof -
  let ?t = "mv_now env ''bootstrap''"
  obtain S1 r where c: "commit_migration A M env S 2 [] ?t ?t 0 = (S1, r)" by (metis surj_pair)
  have b: "S' = S1" "(\<exists>e. r = Inl e) = (\<exists>e. res = Inl e)"
    using assms(1) c by (auto simp: commit_bootstrap_def commit_migration_def transact_def Let_def split: sum.splits prod.splits)
  note st = committed_step [OF c assms(2)]
  show ?thesis
  proof (cases r)
    case (Inl e)
    then have "changes {} S S1" using st(1) by blast
    then have "sound S1" "content S1 = content S" using assms(3) by (auto simp: changes_def)
    then show ?thesis using b Inl assms(3) read_version_content [of S S1] by (auto simp: user_same_def)
  next
    case (Inr u)
    then obtain vr hr where w: "sound S1" "read_schema_version A M S1 = Ok 2"
      "content S1 = apply_ops (op_writes A ([] @ [PutRecord SCHEMA_VERSION_KEY vr, PutRecord (history_key 2) hr])) (content S)"
      using st(2) assms(3) by blast
    have "same S S1" unfolding user_same_def w(3) by (auto simp: op_writes_def)
    then show ?thesis using b Inr w by (cases res) auto
  qed
qed

lemma migrate_result:
  assumes mg: "migrate A M env m = (m', res)" and M: "serde_roundtrip (mg_version M)" and S: "sound (mt_store m)"
    and k: "auto_keyed A (content (mt_store m))" and u: "\<forall>k\<in>dom (content (mt_store m)). utf8_ok k"
  shows "sound (mt_store m') \<and> all_or_nothing M env (mt_store m) (mt_store m')
    \<and> (res = Inr () \<and> read_schema_version A M (mt_store m) \<noteq> Ok 2 \<longrightarrow> migrated_to_head M env (mt_store m) (mt_store m'))
    \<and> ((\<exists>v. read_schema_version A M (mt_store m) = Ok v \<and> 2 < v) \<longrightarrow> m' = m \<and> (\<exists>e. res = Inl e))"
proof (cases "read_schema_version A M (mt_store m)")
  case (Inl e)
  then show ?thesis using mg S by (auto simp: migrate_def all_or_nothing_def user_same_def)
next
  case (Inr ver)
  show ?thesis
  proof (cases "2 \<le> ver")
    case True
    then show ?thesis using mg S Inr by (auto simp: migrate_def CURRENT_SCHEMA_VERSION_def all_or_nothing_def user_same_def split: if_splits)
  next
    case False
    then have v: "ver = 0 \<or> ver = 1" "\<not> 2 < ver" "ver \<noteq> 2"
      by (simp_all add: word_le_nat_alt word_less_nat_alt word_unat_eq_iff [where 'a = 32] not_le) (auto simp: word_unat_eq_iff)
    obtain S1 r1 where rs: "read_sentinel A M (mt_store m) = (S1, r1)" by (metis surj_pair)
    have q: "quiet (mt_store m) S1" using sentinel_quiet(3) [of "mt_store m" M] rs by simp
    show ?thesis
    proof (cases r1)
      case (Inl e)
      then have "m' = m\<lparr>mt_store := S1\<rparr>" "res = Inl e" using mg Inr v rs by (simp_all add: migrate_def CURRENT_SCHEMA_VERSION_def)
      then show ?thesis using quiet_facts [OF q S] Inr v by (simp add: all_or_nothing_def)
    next
      case r1: (Inr stale)
      define S2 where "S2 = (if stale \<noteq> None then fst (clear_sentinel_op A S1) else S1)"
      define m2 where "m2 = m\<lparr>mt_store := S2\<rparr>"
      have q2: "quiet (mt_store m) S2" using q changes_in [OF q sentinel_quiet(2) [of S1]] by (simp add: S2_def)
      note f = quiet_facts [OF q2 S]
      have k2: "auto_keyed A (content S2)" using same_keyed [OF f(2)] k by simp
      have v2: "read_schema_version A M S2 = Ok ver" using f(3) Inr by simp
      have e2: "mt_store m2 = S2" by (simp add: m2_def)
      have main: "migrate A M env m = (if ver \<noteq> 0 then upgrade A M env m2 ver
          else case store_is_empty A S2 of
                 Inl e \<Rightarrow> (m2, Err e)
               | Inr True \<Rightarrow> (case commit_bootstrap A M env S2 2 of (S3, res) \<Rightarrow> (m2\<lparr>mt_store := S3\<rparr>, res))
               | Inr False \<Rightarrow> upgrade A M env m2 ver)"
        unfolding migrate_def CURRENT_SCHEMA_VERSION_def m2_def S2_def Let_def using Inr v rs r1 by simp
      have up: "sound (mt_store m') \<and> all_or_nothing M env S2 (mt_store m') \<and> (res = Inr () \<longrightarrow> migrated_to_head M env S2 (mt_store m'))"
        if "upgrade A M env m2 ver = (m', res)"
        using upgrade_result [OF that M] f(1) k2 v2 v(1) by (simp add: e2)
      have "sound (mt_store m') \<and> all_or_nothing M env S2 (mt_store m') \<and> (res = Inr () \<longrightarrow> migrated_to_head M env S2 (mt_store m'))"
      proof (cases "ver = 0 \<and> store_is_empty A S2 \<noteq> Inr False")
        case False
        then show ?thesis using up mg main by (auto split: if_splits)
      next
        case True
        show ?thesis
        proof (cases "store_is_empty A S2")
          case (Inl e)
          then have "m' = m2" "res = Inl e" using mg main True by simp_all
          then show ?thesis using f(1) e2 by (simp add: all_or_nothing_def user_same_def)
        next
          case (Inr b)
          then have empty: "store_is_empty A S2 = Inr True" using True by (cases b) auto
          obtain S3 r3 where cb: "commit_bootstrap A M env S2 2 = (S3, r3)" by (metis surj_pair)
          have m': "mt_store m' = S3" "res = r3" using mg main True empty cb by auto
          note b = bootstrap_result [OF cb M f(1)]
          have "utf8_ok k" if "k \<in> dom (content S2)" "auto_key k" for k
            using that u f(2) by (auto simp: user_same_def dom_def)
          then have "content S2 k = None" if "auto_key k" for k
            using empty_store [OF empty _ that] that by blast
          then have "user_migrated A view (mg_gotcha M) (mv_now env ''v2'') S2 S3" if "same S2 S3"
            using that by (auto simp: user_migrated_def migrated_content_def user_same_def)
          then show ?thesis using b m' by (auto simp: all_or_nothing_def migrated_to_head_def)
        qed
      qed
      from quiet_result [OF q2 S this] show ?thesis using Inr v by auto
    qed
  qed
qed

subsection \<open>When everything works\<close>

lemma transact_running:
  assumes "running S" "ops \<noteq> []" "\<forall>op\<in>set ops. for_key (op_key op) = Immediate"
  obtains S' where "transact A label S ops = (S', Inr ())" "running S'"
proof -
  obtain S' where "commit_ops A S [] ops () = (S', Inr ())" "running S'" by (rule commit_ops_running [OF assms])
  then show ?thesis using that by (auto simp: commit_ops_def transact_def split: prod.splits sum.splits)
qed

lemma scan_live:
  assumes "sound S"
  obtains rs ks where "scan_prefix A S p = Inr rs" "scan_keys A S p = Inr ks"
proof -
  have "healthy (tree_for S p)" using assms by (simp add: sound_def tree_for_def tree_of_def split: Durability.split)
  then obtain kvs where "kv_range A (tree_for S p) p (prefix_end p) = Inr kvs" using range_healthy by blast
  then show ?thesis using that by (simp add: scan_prefix_def scan_keys_def)
qed

lemma probe_live: "sound S \<Longrightarrow> \<exists>b. probe A S ps = Inr b"
proof (induction ps)
  case (Cons p ps)
  obtain ks where "scan_keys A S p = Inr ks" using scan_live [OF Cons.prems] by blast
  then show ?case using Cons by auto
qed auto

lemma encodes: "serde_roundtrip D \<Longrightarrow> \<exists>j. to_value D a = Some j"
  by (auto simp: serde_roundtrip_def)

lemma unconfirm_live: "serde_roundtrip G \<Longrightarrow> \<exists>m. unconfirm G now r = Inr m"
  using encodes [of G] by (auto simp: unconfirm_def split: option.split) (metis option.distinct(1))

lemma unconfirm_all_live: "serde_roundtrip G \<Longrightarrow> \<exists>ops. unconfirm_all G now rs = Inr ops"
proof (induction rs)
  case (Cons r rs)
  have "\<exists>m. unconfirm G now r = Inr m" by (rule unconfirm_live [OF Cons.prems])
  then show ?case using Cons by (auto simp: rbind_def)
qed simp

lemma v2_live:
  assumes "sound S" "serde_roundtrip G"
  shows "\<exists>ops :: ('v, 'j) KnowledgeWriteOp list. apply_v2_from A G now S ps = Inr ops"
proof (induction ps)
  case (Cons p ps)
  obtain rs where "scan_prefix A S p = Inr rs" using scan_live [OF assms(1)] by blast
  moreover obtain ops :: "('v, 'j) KnowledgeWriteOp list" where "unconfirm_all G now rs = Inr ops" using unconfirm_all_live [OF assms(2)] by blast
  ultimately show ?case using Cons by (auto simp: rbind_def)
qed simp

lemma commit_migration_live:
  assumes "running S" "codecs M" "\<forall>op\<in>set ops. for_key (op_key op) = Immediate"
  obtains S' where "commit_migration A M env S v ops t1 t2 n = (S', Inr ())" "running S'"
proof -
  obtain vr hr where r: "schema_version_record M v t2 = Inr vr" "history_record M env v t1 t2 n = Inr hr"
  proof -
    have "serde_roundtrip (mg_version M)" "serde_roundtrip (mg_history M)" using assms(2) by (simp_all add: codecs_def)
    from encodes [OF this(1), of "\<lparr> sv_version = v, sv_applied_at = t2 \<rparr>"]
      encodes [OF this(2), of "\<lparr> mh_version = v, mh_started_at = t1, mh_completed_at = t2, mh_records_migrated = n, mh_binary = mv_binary env \<rparr>"]
    obtain j1 j2 where "to_value (mg_version M) \<lparr> sv_version = v, sv_applied_at = t2 \<rparr> = Some j1"
      "to_value (mg_history M) \<lparr> mh_version = v, mh_started_at = t1, mh_completed_at = t2, mh_records_migrated = n, mh_binary = mv_binary env \<rparr> = Some j2"
      by blast
    then show ?thesis using that by (simp add: schema_version_record_def history_record_def)
  qed
  let ?ops = "ops @ [PutRecord SCHEMA_VERSION_KEY vr, PutRecord (history_key v) hr]"
  have "?ops \<noteq> []" "\<forall>op\<in>set ?ops. for_key (op_key op) = Immediate" using assms(3) by auto
  from transact_running [OF assms(1) this, of "''schema migration commit failed''"] obtain S' where
    "transact A ''schema migration commit failed'' S ?ops = (S', Inr ())" "running S'" .
  then show ?thesis using that r by (simp add: commit_migration_def)
qed

lemma step_live:
  assumes "running S" "codecs M" "auto_keyed A (content S)" "v = 1 \<or> v = 2"
  obtains S' where "migration_step A M env S v = (S', Inr ())" "running S'"
proof -
  have s: "sound S" using assms(1) by (rule running_sound)
  have "\<exists>ops. step_ops A M env S v = Inr ops \<and> (\<forall>op\<in>set ops. for_key (op_key op) = Immediate)"
  proof (cases "v = 1")
    case False
    obtain ops where ops: "apply_v2_from A (mg_gotcha M) (mv_now env ''v2'') S AUTO_DERIVED_PREFIXES = Inr ops"
      using v2_live [OF s] assms(2) unfolding codecs_def by blast
    have "for_key (op_key op) = Immediate" if op: "op \<in> set ops" for op
    proof -
      obtain r where r: "r \<in> auto_records S AUTO_DERIVED_PREFIXES" "unconfirms (mg_gotcha M) (mv_now env ''v2'') r op"
        using v2_ops_set [OF ops order_refl, of op] op by blast
      obtain k w where "auto_key k" "content S k = Some w" "dec_record A w = Some r"
        using r(1) by (auto simp: auto_records_def auto_key_def list_ex_iff)
      then have "auto_key (r_key r)" using assms(3) by (metis auto_keyed_def)
      then show ?thesis using r(2) by (auto simp: unconfirms_def unconfirm_key)
    qed
    then show ?thesis using ops False assms(4) by (simp add: step_ops_def apply_v2_unconfirm_auto_derived_gotchas_def)
  qed (simp add: step_ops_def apply_v1_baseline_def)
  then obtain ops where ops: "step_ops A M env S v = Inr ops" "\<forall>op\<in>set ops. for_key (op_key op) = Immediate" by blast
  obtain S' where "commit_migration A M env S v ops (mv_now env (''started v'' @ show_nat (unat v))) (mv_now env (''completed v'' @ show_nat (unat v)))
      (word_of_nat (length ops)) = (S', Inr ())" "running S'"
    by (rule commit_migration_live [OF assms(1,2) ops(2)])
  then show ?thesis using that ops(1) by (simp add: migration_step_def)
qed

lemma migrate_from_live:
  assumes "running S" "codecs M" "auto_keyed A (content S)" "v = 0 \<or> v = 1"
  obtains S' where "migrate_from A M env S v = (S', Inr ())" "running S'"
proof -
  have one: "\<exists>S'. migrate_from A M env T 1 = (S', Inr ()) \<and> running S'" if T: "running T" "auto_keyed A (content T)" for T
  proof -
    obtain S' where "migration_step A M env T 2 = (S', Inr ())" "running S'" using step_live [OF T(1) assms(2) T(2)] by blast
    then show ?thesis by (simp add: migrate_from.simps [of A M env T 1] migrate_from.simps [of A M env S' 2] CURRENT_SCHEMA_VERSION_def)
  qed
  have "\<exists>S'. migrate_from A M env S 0 = (S', Inr ()) \<and> running S'"
  proof -
    obtain S1 where st: "migration_step A M env S 1 = (S1, Inr ())" "running S1" using step_live [OF assms(1-3)] by blast
    have "same S S1"
      using step_result [OF st(1)] assms(1,2) running_sound by (auto simp: codecs_def)
    then have "auto_keyed A (content S1)" using same_keyed assms(3) by blast
    from one [OF st(2) this] show ?thesis using st(1) by (simp add: migrate_from.simps [of A M env S 0] CURRENT_SCHEMA_VERSION_def)
  qed
  then show ?thesis using one [OF assms(1,3)] assms(4) that by blast
qed

lemma clear_live:
  assumes "running S" "\<And>x m. snd (sx_delete A x SENTINEL_KEY) \<noteq> SearchFailed m"
  obtains S' where "clear_sentinel_op A S = (S', Inr ())" "running S'"
proof -
  obtain S1 where c: "commit_on A S Immediate [(SENTINEL_KEY, None)] = (S1, Inr ())" "running S1" by (rule commit_on_live [OF assms(1)])
  have "snd (store_delete A S SENTINEL_KEY) = Inr ()"
    using c(1) assms(2) by (auto simp: store_delete_def Let_def split: prod.split search_outcome.split) (metis snd_conv)+
  moreover have "running (fst (store_delete A S SENTINEL_KEY))" by (rule delete_live(2) [OF assms(1)])
  ultimately show ?thesis using that by (cases "store_delete A S SENTINEL_KEY") (simp add: clear_sentinel_op_def)
qed

lemma upgrade_live:
  assumes m: "running (mt_store m)" and M: "codecs M" and k: "auto_keyed A (content (mt_store m))" and v: "v = 0 \<or> v = 1"
    and b: "mv_source env \<Longrightarrow> mt_backups m 2 = None \<Longrightarrow> mv_copy env = CopyDone" and sx: "\<And>x m. snd (sx_delete A x SENTINEL_KEY) \<noteq> SearchFailed m"
  shows "\<exists>m'. upgrade A M env m v = (m', Inr ()) \<and> (mt_backups m 2 \<noteq> None \<longrightarrow> mt_backups m' 2 = mt_backups m 2)"
proof -
  have "\<exists>m1. snapshot_knowledge_tree env m CURRENT_SCHEMA_VERSION = (m1, Inr ()) \<and> (mt_backups m 2 \<noteq> None \<longrightarrow> mt_backups m1 2 = mt_backups m 2)"
  proof (cases "\<not> mv_source env \<or> mt_backups m 2 \<noteq> None")
    case True
    then have "snapshot_knowledge_tree env m 2 = (m, Inr ())" by (auto simp: snapshot_knowledge_tree_def)
    then show ?thesis unfolding CURRENT_SCHEMA_VERSION_def by blast
  next
    case False
    then have n: "mv_source env" "mt_backups m 2 = None" by simp_all
    have "mv_copy env = CopyDone" by (rule b [OF n])
    then have "snapshot_knowledge_tree env m 2 = (m\<lparr>mt_backups := (mt_backups m)(2 \<mapsto> Complete (knowledge (mt_store m)))\<rparr>, Inr ())"
      using n by (simp add: snapshot_knowledge_tree_def del: fun_upd_apply)
    then show ?thesis using n unfolding CURRENT_SCHEMA_VERSION_def by blast
  qed
  then obtain m1 where sn: "snapshot_knowledge_tree env m CURRENT_SCHEMA_VERSION = (m1, Inr ())" "mt_backups m 2 \<noteq> None \<longrightarrow> mt_backups m1 2 = mt_backups m 2" by blast
  obtain p where p: "to_value (mg_sentinel M) \<lparr> ms_target_version = CURRENT_SCHEMA_VERSION, ms_started_at = mv_now env ''sentinel'', ms_pid = mv_pid env,
      ms_binary = mv_binary env \<rparr> = Some p"
    using encodes [of "mg_sentinel M"] M by (auto simp: codecs_def)
  let ?op = "PutRecord SENTINEL_KEY (internal_record SENTINEL_KEY (''migration in progress '' @ [CHR 0xE2, CHR 0x86, CHR 0x92] @ '' v'' @
      show_nat (unat CURRENT_SCHEMA_VERSION)) [''mati-internal'', ''migration''] 1 (mv_now env ''sentinel'') (Some p)) :: ('v, 'j) KnowledgeWriteOp"
  have "[?op] \<noteq> []" "\<forall>op\<in>set [?op]. for_key (op_key op) = Immediate" by simp_all
  from transact_running [OF m this, of "[]"] obtain S1 where "transact A [] (mt_store m) [?op] = (S1, Inr ())" "running S1" .
  then have w: "write_sentinel A M env (mt_store m) CURRENT_SCHEMA_VERSION = (S1, Inr ())" "running S1" by (simp_all add: write_sentinel_def Let_def p)
  have "quiet (mt_store m) S1" using sentinel_quiet(1) [of "mt_store m" M env CURRENT_SCHEMA_VERSION] w(1) by simp
  then have "auto_keyed A (content S1)" using quiet_facts(2) [OF _ running_sound [OF m]] same_keyed k by blast
  from migrate_from_live [OF w(2) M this v] obtain S2 where mf: "migrate_from A M env S1 v = (S2, Inr ())" "running S2" .
  obtain S3 where "clear_sentinel_op A S2 = (S3, Inr ())" using clear_live [OF mf(2) sx] .
  then show ?thesis using sn w(1) mf(1) snapshot_store [OF sn(1)] by (simp add: upgrade_def)
qed

lemma migrate_live:
  assumes m: "running (mt_store m)" and M: "codecs M" and k: "auto_keyed A (content (mt_store m))" and u: "\<forall>k\<in>dom (content (mt_store m)). utf8_ok k"
    and rv: "read_schema_version A M (mt_store m) = Ok v" "v \<le> 2" and rs: "store_get A (mt_store m) SENTINEL_KEY = Inr x"
    and b: "mv_source env \<Longrightarrow> mt_backups m 2 = None \<Longrightarrow> mv_copy env = CopyDone" and sx: "\<And>x m. snd (sx_delete A x SENTINEL_KEY) \<noteq> SearchFailed m"
  shows "\<exists>m'. migrate A M env m = (m', Inr ()) \<and> read_schema_version A M (mt_store m') = Ok 2
    \<and> (v < 2 \<longrightarrow> migrated_to_head M env (mt_store m) (mt_store m')) \<and> (mt_backups m 2 \<noteq> None \<longrightarrow> mt_backups m' 2 = mt_backups m 2)"
proof (cases "v = 2")
  case True
  then show ?thesis using rv by (simp add: migrate_def CURRENT_SCHEMA_VERSION_def)
next
  case False
  then have v: "v = 0 \<or> v = 1" "\<not> 2 < v" using rv(2)
    by (simp_all add: word_le_nat_alt word_less_nat_alt) (auto simp: word_unat_eq_iff)
  have s: "sound (mt_store m)" by (rule running_sound [OF m])
  have "\<exists>S1 stale. read_sentinel A M (mt_store m) = (S1, Inr stale) \<and> running S1"
    using rs delete_live(2) [OF m, of SENTINEL_KEY] m by (simp add: read_sentinel_def split: option.split)
  then obtain S1 stale where r1: "read_sentinel A M (mt_store m) = (S1, Inr stale)" "running S1" by blast
  have q1: "quiet (mt_store m) S1" using sentinel_quiet(3) [of "mt_store m" M] r1 by simp
  obtain S1' where c1: "clear_sentinel_op A S1 = (S1', Inr ())" "running S1'" using clear_live [OF r1(2) sx] .
  define S2 where "S2 = (if stale \<noteq> None then fst (clear_sentinel_op A S1) else S1)"
  define m2 where "m2 = m\<lparr>mt_store := S2\<rparr>"
  have q2: "quiet (mt_store m) S2" using q1 changes_in [OF q1 sentinel_quiet(2) [of S1]] by (simp add: S2_def)
  have s2: "running S2" using r1(2) c1 by (simp add: S2_def)
  note f = quiet_facts [OF q2 s]
  have k2: "auto_keyed A (content (mt_store m2))" using same_keyed [OF f(2)] k by (simp add: m2_def)
  obtain m3 where m3: "upgrade A M env m2 v = (m3, Inr ())" "mt_backups m 2 \<noteq> None \<longrightarrow> mt_backups m3 2 = mt_backups m 2"
    using upgrade_live [OF _ M k2 v(1), of env] s2 b sx by (auto simp: m2_def)
  have main: "migrate A M env m = (if v \<noteq> 0 then upgrade A M env m2 v
      else case store_is_empty A S2 of
             Inl e \<Rightarrow> (m2, Err e)
           | Inr True \<Rightarrow> (case commit_bootstrap A M env S2 2 of (S3, res) \<Rightarrow> (m2\<lparr>mt_store := S3\<rparr>, res))
           | Inr False \<Rightarrow> upgrade A M env m2 v)"
    unfolding migrate_def CURRENT_SCHEMA_VERSION_def m2_def S2_def Let_def using rv v False r1 by simp
  have "\<exists>m'. migrate A M env m = (m', Inr ()) \<and> (mt_backups m 2 \<noteq> None \<longrightarrow> mt_backups m' 2 = mt_backups m 2)"
  proof (cases "v = 0 \<and> store_is_empty A S2 \<noteq> Inr False")
    case False
    then show ?thesis using main m3 by auto
  next
    case True
    have "\<exists>b. store_is_empty A S2 = Inr b" unfolding store_is_empty_def by (rule probe_live [OF f(1)])
    then have e: "store_is_empty A S2 = Inr True" using True by auto
    let ?t = "mv_now env ''bootstrap''"
    have "\<forall>op\<in>set ([] :: ('v, 'j) KnowledgeWriteOp list). for_key (op_key op) = Immediate" by simp
    from commit_migration_live [OF s2 M this, of env 2 ?t ?t 0] obtain S3 where "commit_migration A M env S2 2 [] ?t ?t 0 = (S3, Inr ())" "running S3" .
    then have "commit_bootstrap A M env S2 2 = (S3, Inr ())"
      by (auto simp: commit_bootstrap_def commit_migration_def transact_def Let_def split: sum.splits prod.splits)
    then show ?thesis using main True e by (simp add: m2_def)
  qed
  then obtain m' where mg: "migrate A M env m = (m', Inr ())" "mt_backups m 2 \<noteq> None \<longrightarrow> mt_backups m' 2 = mt_backups m 2" by blast
  have "read_schema_version A M (mt_store m) \<noteq> Ok 2" using rv False by simp
  then have "migrated_to_head M env (mt_store m) (mt_store m')"
    using migrate_result [OF mg(1) _ s k u] M by (simp add: codecs_def)
  then show ?thesis using mg by (auto simp: migrated_to_head_def)
qed

text \<open>A copy that failed is taken for a good one by the next attempt.\<close>

lemma failed_copy:
  assumes m: "running (mt_store m)" and rv: "read_schema_version A M (mt_store m) = Ok 1" and rs: "store_get A (mt_store m) SENTINEL_KEY = Inr x"
    and b: "mv_source env" "mv_copy env = CopyFailed" "mt_backups m 2 = None" and sx: "\<And>x m. snd (sx_delete A x SENTINEL_KEY) \<noteq> SearchFailed m"
    and mg: "migrate A M env m = (m1, res)"
  shows "res = Err (SnapshotFailed ''copy'') \<and> mt_backups m1 2 = Some Partial \<and> running (mt_store m1) \<and> quiet (mt_store m) (mt_store m1)
    \<and> (\<exists>y. store_get A (mt_store m1) SENTINEL_KEY = Inr y)"
proof -
  have s: "sound (mt_store m)" by (rule running_sound [OF m])
  have "\<exists>S1 stale. read_sentinel A M (mt_store m) = (S1, Inr stale) \<and> running S1 \<and> (\<exists>y. store_get A S1 SENTINEL_KEY = Inr y)"
    using rs delete_live [OF m, of SENTINEL_KEY] m running_sound
    by (auto simp: read_sentinel_def store_get_content decode_as_def split: option.split)
  then obtain S1 stale where r1: "read_sentinel A M (mt_store m) = (S1, Inr stale)" "running S1" "\<exists>y. store_get A S1 SENTINEL_KEY = Inr y" by blast
  have q1: "quiet (mt_store m) S1" using sentinel_quiet(3) [of "mt_store m" M] r1 by simp
  have cl: "fst (clear_sentinel_op A S1) = fst (store_delete A S1 SENTINEL_KEY)" by (simp add: clear_sentinel_op_def split: prod.split sum.split)
  define S2 where "S2 = (if stale \<noteq> None then fst (clear_sentinel_op A S1) else S1)"
  have q2: "quiet (mt_store m) S2" using q1 changes_in [OF q1 sentinel_quiet(2) [of S1]] by (simp add: S2_def)
  have s2: "running S2" using r1(2) delete_live(2) [OF r1(2), of SENTINEL_KEY] by (simp add: S2_def cl)
  have "\<exists>y. store_get A S2 SENTINEL_KEY = Inr y"
    using r1(3) delete_live [OF r1(2), of SENTINEL_KEY] running_sound by (auto simp: S2_def cl store_get_content decode_as_def)
  moreover have "migrate A M env m = upgrade A M env (m\<lparr>mt_store := S2\<rparr>) 1"
    unfolding migrate_def CURRENT_SCHEMA_VERSION_def S2_def Let_def using rv r1 by simp
  moreover have "upgrade A M env (m\<lparr>mt_store := S2\<rparr>) 1
      = (m\<lparr>mt_store := S2, mt_backups := (mt_backups m)(2 \<mapsto> Partial)\<rparr>, Err (SnapshotFailed ''copy''))"
    using b by (simp add: upgrade_def snapshot_knowledge_tree_def CURRENT_SCHEMA_VERSION_def)
  ultimately show ?thesis using mg q2 s2 by auto
qed

end

lemma unconfirm_payload:
  assumes "serde_roundtrip G" "unconfirm G now r = Inr (Some r')" "payload_as (from_value G) r' = Some g"
  shows "\<not> g_confirmed g"
proof -
  obtain g0 p where p: "to_value G (g0\<lparr>g_confirmed := False\<rparr>) = Some p" "r_payload r' = Some p"
    using assms(2) by (auto simp: unconfirm_def split: if_splits option.splits)
  then have "from_value G p = Some (g0\<lparr>g_confirmed := False\<rparr>)" using assms(1) by (metis option.inject serde_roundtrip_def)
  then show ?thesis using p(2) assms(3) by (auto simp: payload_as_def)
qed

lemma unconfirmed_sound:
  assumes "user_migrated A view G now S S'" "serde_roundtrip G" "live_store A view healthy live" "auto_key k" "rec_at A view S' k = Some r"
    and "r_lifecycle r = Active" "payload_as (from_value G) r = Some g"
  shows "\<not> g_confirmed g"
proof -
  obtain w where w: "store_content view S' k = Some w" "dec_record A w = Some r" using assms(5) by (auto simp: rec_at_def bind_eq_Some_conv)
  then obtain v where v: "store_content view S k = Some v" "unconfirmed_value A G now v = Some w"
    using assms(1,4) by (auto simp: user_migrated_def migrated_content_def bind_eq_Some_conv)
  show ?thesis
  proof (cases "dec_record A v")
    case None
    then show ?thesis using v(2) w(2) by (simp add: unconfirmed_value_def)
  next
    case (Some r0)
    obtain m where m: "unconfirm G now r0 = Inr m" using live_store.unconfirm_live [OF assms(3,2)] by blast
    show ?thesis
    proof (cases m)
      case None
      then have "r = r0" using v(2) w(2) Some m by (simp add: unconfirmed_value_def)
      then show ?thesis using m None assms(6,7) by (auto simp: unconfirm_def split: if_splits option.splits)
    next
      case (Some r')
      then have "enc_record A r' = Some w" using v(2) \<open>dec_record A v = Some r0\<close> m by (simp add: unconfirmed_value_def)
      then have "r = r'" using w(2) store_laws.dec_enc [OF live_store.axioms(1) [OF assms(3)]] by fastforce
      then show ?thesis using unconfirm_payload [OF assms(2)] m Some assms(7) by blast
    qed
  qed
qed

subsection \<open>The theorems\<close>

text \<open>
  C15. A migration is all or nothing: whichever reads, writes or copies fail, after opening a store either the user's records are as they were and the version
  is the old one (or 1, after the step that changes no data), or the version is 2 and every record is what the migration specifies. An
  opening that succeeds leaves version 2; a store of a newer version is refused and left alone.
\<close>

theorem migration_all_or_nothing:
  assumes "live_store A view healthy live" "serde_roundtrip (mg_version M)" "store_sound healthy (mt_store m)"
    and "auto_keyed A (store_content view (mt_store m))" "\<forall>k\<in>dom (store_content view (mt_store m)). utf8_ok k"
    and "migrate A M env m = (m', res)"
  shows "(user_same view (mt_store m) (mt_store m')
          \<and> (read_schema_version A M (mt_store m') = read_schema_version A M (mt_store m)
             \<or> read_schema_version A M (mt_store m) = Ok 0 \<and> read_schema_version A M (mt_store m') = Ok 1)
        \<or> read_schema_version A M (mt_store m') = Ok 2 \<and> user_migrated A view (mg_gotcha M) (mv_now env ''v2'') (mt_store m) (mt_store m'))
      \<and> (res = Ok () \<longrightarrow> read_schema_version A M (mt_store m') = Ok 2)
      \<and> (\<forall>v. read_schema_version A M (mt_store m) = Ok v \<longrightarrow> 2 < v \<longrightarrow> m' = m \<and> res \<noteq> Ok ())"
proof -
  note r = live_store.migrate_result [OF assms(1,6,2,3,4,5)]
  note d = live_store.all_or_nothing_def [OF assms(1)] live_store.migrated_to_head_def [OF assms(1)]
  have "user_same view (mt_store m) (mt_store m')
        \<and> (read_schema_version A M (mt_store m') = read_schema_version A M (mt_store m)
           \<or> read_schema_version A M (mt_store m) = Ok 0 \<and> read_schema_version A M (mt_store m') = Ok 1)
      \<or> read_schema_version A M (mt_store m') = Ok 2 \<and> user_migrated A view (mg_gotcha M) (mv_now env ''v2'') (mt_store m) (mt_store m')"
    using r unfolding d by blast
  moreover have "res = Ok () \<Longrightarrow> read_schema_version A M (mt_store m') = Ok 2" using r unfolding d by fastforce
  moreover have "read_schema_version A M (mt_store m) = Ok v \<Longrightarrow> 2 < v \<Longrightarrow> m' = m \<and> res \<noteq> Ok ()" for v using r by fastforce
  ultimately show ?thesis by blast
qed

text \<open>
  C25. An upgrade completes: when the trees accept writes, the bookkeeping can be read and a copy can be made, opening a store of version 0, 1 or 2 succeeds at
  version 2; afterwards no active gotcha derived from the history is confirmed, and opening the store again changes nothing.
\<close>

theorem migration_completes:
  assumes "live_store A view healthy live" "live_store.running healthy live (mt_store m)" "codecs M"
    and "auto_keyed A (store_content view (mt_store m))" "\<forall>k\<in>dom (store_content view (mt_store m)). utf8_ok k"
    and "read_schema_version A M (mt_store m) = Ok v" "v < 2" "store_get A (mt_store m) SENTINEL_KEY = Ok x"
    and "mv_source env \<Longrightarrow> mt_backups m 2 = None \<Longrightarrow> mv_copy env = CopyDone" "\<And>x e. snd (sx_delete A x SENTINEL_KEY) \<noteq> SearchFailed e"
  shows "\<exists>m'. migrate A M env m = (m', Ok ()) \<and> read_schema_version A M (mt_store m') = Ok 2
    \<and> (\<forall>k r g. auto_key k \<longrightarrow> rec_at A view (mt_store m') k = Some r \<longrightarrow> r_lifecycle r = Active \<longrightarrow> payload_as (from_value (mg_gotcha M)) r = Some g
         \<longrightarrow> \<not> g_confirmed g)
    \<and> migrate A M env' m' = (m', Ok ())"
proof -
  have "v \<le> 2" using assms(7) by simp
  from live_store.migrate_live [OF assms(1-6) this assms(8-10)] obtain m' where m': "migrate A M env m = (m', Ok ())"
    "read_schema_version A M (mt_store m') = Ok 2" "live_store.migrated_to_head A view M env (mt_store m) (mt_store m')" using assms(7) by blast
  have "user_migrated A view (mg_gotcha M) (mv_now env ''v2'') (mt_store m) (mt_store m')"
    using m'(3) by (simp add: live_store.migrated_to_head_def [OF assms(1)])
  then have "\<not> g_confirmed g" if "auto_key k" "rec_at A view (mt_store m') k = Some r" "r_lifecycle r = Active"
      "payload_as (from_value (mg_gotcha M)) r = Some g" for k r g
    using unconfirmed_sound [OF _ _ assms(1) that] assms(3) by (simp add: codecs_def)
  moreover have "migrate A M env' m' = (m', Ok ())" using m'(2) by (simp add: migrate_def CURRENT_SCHEMA_VERSION_def)
  ultimately show ?thesis using m'(1,2) by blast
qed

text \<open>
  C29. A copy that fails half-way is never replaced: when the copy made before an upgrade fails, the opening is refused, but its directory stays, the next
  opening takes it for a copy and upgrades the store, and no complete copy of the records exists.
\<close>

theorem partial_copy_trusted:
  assumes "live_store A view healthy live" "live_store.running healthy live (mt_store m)" "codecs M"
    and "auto_keyed A (store_content view (mt_store m))" "\<forall>k\<in>dom (store_content view (mt_store m)). utf8_ok k"
    and "read_schema_version A M (mt_store m) = Ok 1" "store_get A (mt_store m) SENTINEL_KEY = Ok x"
    and "mv_source env" "mv_copy env = CopyFailed" "mt_backups m 2 = None" "\<And>x e. snd (sx_delete A x SENTINEL_KEY) \<noteq> SearchFailed e"
    and "migrate A M env m = (m1, res)"
  shows "res = Err (SnapshotFailed ''copy'')
    \<and> (\<exists>m2. migrate A M env' m1 = (m2, Ok ()) \<and> mt_backups m2 2 = Some Partial
         \<and> user_migrated A view (mg_gotcha M) (mv_now env' ''v2'') (mt_store m) (mt_store m2))"
proof -
  note f = live_store.failed_copy [OF assms(1,2,6-12)]
  have s: "store_sound healthy (mt_store m)" by (rule live_store.running_sound [OF assms(1,2)])
  have q: "live_store.changes view healthy live {SENTINEL_KEY} (mt_store m) (mt_store m1)" using f by blast
  note q1 = live_store.quiet_facts [OF assms(1) q s]
  have k1: "auto_keyed A (store_content view (mt_store m1))" using live_store.same_keyed [OF assms(1) q1(2)] assms(4) by blast
  have u1: "\<forall>k\<in>dom (store_content view (mt_store m1)). utf8_ok k"
  proof
    fix k assume k: "k \<in> dom (store_content view (mt_store m1))"
    show "utf8_ok k"
    proof (cases "k = SENTINEL_KEY")
      case True
      have "utf8_ok SENTINEL_KEY" by code_simp
      then show ?thesis using True by simp
    next
      case False
      then have "store_content view (mt_store m1) k = store_content view (mt_store m) k"
        using q by (simp add: live_store.changes_def [OF assms(1)])
      then show ?thesis using k assms(5) by (metis domIff)
    qed
  qed
  obtain y where y: "store_get A (mt_store m1) SENTINEL_KEY = Ok y" using f by blast
  have "\<exists>m2. migrate A M env' m1 = (m2, Ok ()) \<and> live_store.migrated_to_head A view M env' (mt_store m1) (mt_store m2) \<and> mt_backups m2 2 = mt_backups m1 2"
    using live_store.migrate_live [OF assms(1) _ assms(3) k1 u1 _ _ y _ assms(11), of 1 env'] f q1(3) assms(6) by auto
  then show ?thesis
    using f live_store.same_migrated [OF assms(1) q1(2)] by (auto simp: live_store.migrated_to_head_def [OF assms(1)])
qed

subsection \<open>An instance\<close>

text \<open>Payloads as they are, so that every codec decodes what it encoded.\<close>

datatype demo_payload =
  PVersion SchemaVersionPayload
| PSentinel MigrationSentinelPayload
| PHistory MigrationHistoryPayload
| PGotcha GotchaRecord

definition demo_migrations :: "demo_payload migration_api" where
  "demo_migrations = \<lparr>
     mg_version = \<lparr> to_value = (\<lambda>p. Some (PVersion p)), from_value = (\<lambda>j. case j of PVersion p \<Rightarrow> Some p | _ \<Rightarrow> None) \<rparr>,
     mg_sentinel = \<lparr> to_value = (\<lambda>p. Some (PSentinel p)), from_value = (\<lambda>j. case j of PSentinel p \<Rightarrow> Some p | _ \<Rightarrow> None) \<rparr>,
     mg_history = \<lparr> to_value = (\<lambda>p. Some (PHistory p)), from_value = (\<lambda>j. case j of PHistory p \<Rightarrow> Some p | _ \<Rightarrow> None) \<rparr>,
     mg_gotcha = \<lparr> to_value = (\<lambda>p. Some (PGotcha p)), from_value = (\<lambda>j. case j of PGotcha p \<Rightarrow> Some p | _ \<Rightarrow> None) \<rparr> \<rparr>"

type_synonym demo_migrating = "((unit, demo_payload) cell mem_tree, bool \<times> string list) migrating"

definition demo_cochange :: "demo_payload Record" where
  "demo_cochange = (layer0_file_stub ''gotcha:cochange:a'' 7 1 5)\<lparr>r_category := Gotcha, r_payload := Some (PGotcha ((demo_gotcha_of [''a.rs''])\<lparr>g_confirmed := True\<rparr>))\<rparr>"

definition demo_version_1 :: "demo_payload Record" where
  "demo_version_1 = internal_record SCHEMA_VERSION_KEY [] [] 1 5 (Some (PVersion \<lparr> sv_version = 1, sv_applied_at = 5 \<rparr>))"

text \<open>A store of version 1 with a confirmed gotcha derived from the history.\<close>

definition demo_old :: demo_migrating where
  "demo_old = \<lparr> mt_store = empty_store\<lparr>knowledge := empty_tree\<lparr>mt_cells :=
       [(''gotcha:cochange:a'', RecordCell demo_cochange), (SCHEMA_VERSION_KEY, RecordCell demo_version_1)]\<rparr>\<rparr>, mt_backups = Map.empty \<rparr>"

definition demo_migration_env :: "copy_outcome \<Rightarrow> migration_env" where
  "demo_migration_env c = \<lparr> mv_now = (\<lambda>_. 9), mv_pid = 1, mv_binary = ''0.1'', mv_source = True, mv_copy = c \<rparr>"

text \<open>The in-memory store with a search index that takes every deletion.\<close>

definition calm_store :: "((unit, demo_payload) cell mem_tree, bool \<times> string list, (unit, demo_payload) cell, demo_payload) store_api" where
  "calm_store = mem_store\<lparr>sx_delete := (\<lambda>x k. (x, SearchDone))\<rparr>"

lemma calm_operations:
  "kv_get calm_store = kv_get mem_store" "kv_commit calm_store = kv_commit mem_store" "kv_range calm_store = kv_range mem_store"
  "enc_record calm_store = enc_record mem_store" "dec_record calm_store = dec_record mem_store" "of_bytes calm_store = of_bytes mem_store"
  "to_bytes calm_store = to_bytes mem_store"
  by (simp_all add: calm_store_def)

interpretation calm: live_store calm_store mem_view mem_healthy "\<lambda>t. \<not> mt_commit_fails t"
  by (unfold_locales; unfold calm_operations;
    fact mem.get_view mem.get_healthy mem.commit_view mem.commit_fail mem.commit_healthy mem.range_sorted
      mem.range_view mem.range_healthy mem.dec_enc mem.bytes_id mem_live.live_commit mem_live.enc_total)

lemma calm_deletes: "snd (sx_delete calm_store x k) \<noteq> SearchFailed e"
  by (simp add: calm_store_def)

lemma demo_codecs: "codecs demo_migrations"
  by (simp add: codecs_def demo_migrations_def serde_roundtrip_def)

lemma demo_old_facts:
  "live_store.running mem_healthy (\<lambda>t. \<not> mt_commit_fails t) (mt_store demo_old)"
  "read_schema_version calm_store demo_migrations (mt_store demo_old) = Ok 1"
  "store_get calm_store (mt_store demo_old) SENTINEL_KEY = Ok None"
  "mt_backups demo_old = Map.empty"
  by (simp_all add: calm.running_def store_sound_def mem_healthy_def demo_old_def empty_store_def empty_tree_def read_schema_version_def
      store_get_def read_record_def tree_for_def tree_of_def calm_store_def mem_store_def mem_get_def demo_version_1_def internal_record_def payload_as_def
      demo_migrations_def)
    (simp_all add: SCHEMA_VERSION_KEY_def SENTINEL_KEY_def)

lemma demo_old_content:
  "auto_keyed calm_store (store_content mem_view (mt_store demo_old))"
  "\<forall>k\<in>dom (store_content mem_view (mt_store demo_old)). utf8_ok k"
proof -
  have c: "store_content mem_view (mt_store demo_old) k = (if k = ''gotcha:cochange:a'' then Some (RecordCell demo_cochange)
      else if k = SCHEMA_VERSION_KEY then Some (RecordCell demo_version_1) else None)" for k
    by (auto simp: store_content_def tree_for_def tree_of_def demo_old_def empty_store_def empty_tree_def mem_view_def for_key_def starts_with_iff
        SCHEMA_VERSION_KEY_def split: Durability.split)
  have u: "utf8_ok ''gotcha:cochange:a''" "utf8_ok SCHEMA_VERSION_KEY" by code_simp+
  show "auto_keyed calm_store (store_content mem_view (mt_store demo_old))"
    by (auto simp: auto_keyed_def c calm_store_def mem_store_def demo_cochange_def layer0_file_stub_def split: if_splits)
  show "\<forall>k\<in>dom (store_content mem_view (mt_store demo_old)). utf8_ok k"
    using u by (auto simp: c split: if_splits)
qed

theorem migration_all_or_nothing_witness:
  "\<exists>m'. migrate calm_store demo_migrations (demo_migration_env CopyDone) demo_old = (m', Ok ())
     \<and> read_schema_version calm_store demo_migrations (mt_store m') = Ok 2
     \<and> user_migrated calm_store mem_view (mg_gotcha demo_migrations) 9 (mt_store demo_old) (mt_store m')"
proof -
  have e: "mv_source (demo_migration_env CopyDone) \<Longrightarrow> mt_backups demo_old 2 = None \<Longrightarrow> mv_copy (demo_migration_env CopyDone) = CopyDone"
    by (simp add: demo_migration_env_def)
  have "(1 :: u32) \<le> 2" by simp
  from calm.migrate_live [OF demo_old_facts(1) demo_codecs demo_old_content demo_old_facts(2) this demo_old_facts(3) e calm_deletes]
  obtain m' where m': "migrate calm_store demo_migrations (demo_migration_env CopyDone) demo_old = (m', Ok ())"
    "calm.migrated_to_head demo_migrations (demo_migration_env CopyDone) (mt_store demo_old) (mt_store m')" by auto
  have s: "store_sound mem_healthy (mt_store demo_old)" by (rule calm.running_sound [OF demo_old_facts(1)])
  have v: "serde_roundtrip (mg_version demo_migrations)" using demo_codecs by (simp add: codecs_def)
  have "read_schema_version calm_store demo_migrations (mt_store m') = Ok 2"
    using migration_all_or_nothing [OF calm.live_store_axioms v s demo_old_content m'(1)] by simp
  then show ?thesis
    using migration_all_or_nothing [OF calm.live_store_axioms v s demo_old_content m'(1)] m'(1) demo_old_facts(2)
    by (auto simp: demo_migration_env_def)
qed

theorem migration_completes_witness:
  "\<exists>m'. migrate calm_store demo_migrations (demo_migration_env CopyDone) demo_old = (m', Ok ())
     \<and> read_schema_version calm_store demo_migrations (mt_store m') = Ok 2
     \<and> migrate calm_store demo_migrations (demo_migration_env NoBackupDir) m' = (m', Ok ())"
proof -
  have e: "mv_source (demo_migration_env CopyDone) \<Longrightarrow> mt_backups demo_old 2 = None \<Longrightarrow> mv_copy (demo_migration_env CopyDone) = CopyDone"
    by (simp add: demo_migration_env_def)
  have "(1 :: u32) < 2" by simp
  from migration_completes [OF calm.live_store_axioms demo_old_facts(1) demo_codecs demo_old_content demo_old_facts(2) this demo_old_facts(3) e calm_deletes,
      of "demo_migration_env NoBackupDir"]
  show ?thesis by blast
qed

theorem partial_copy_trusted_witness:
  "\<exists>m1 m2. migrate calm_store demo_migrations (demo_migration_env CopyFailed) demo_old = (m1, Err (SnapshotFailed ''copy''))
     \<and> migrate calm_store demo_migrations (demo_migration_env CopyDone) m1 = (m2, Ok ()) \<and> mt_backups m2 2 = Some Partial"
proof -
  obtain m1 res where m1: "migrate calm_store demo_migrations (demo_migration_env CopyFailed) demo_old = (m1, res)" by (metis surj_pair)
  have b: "mv_source (demo_migration_env CopyFailed)" "mv_copy (demo_migration_env CopyFailed) = CopyFailed" "mt_backups demo_old 2 = None"
    by (simp_all add: demo_migration_env_def demo_old_facts(4))
  from partial_copy_trusted [OF calm.live_store_axioms demo_old_facts(1) demo_codecs demo_old_content demo_old_facts(2,3) b calm_deletes m1,
      of "demo_migration_env CopyDone"]
  show ?thesis using m1 by blast
qed

end
