(* ===== verification/Clusters_Spec.thy ===== *)
theory Clusters_Spec
  imports Clusters "HOL-Library.Multiset"
begin

section \<open>What the clusters are\<close>

text \<open>
  The groups are the classes of the least equivalence on the paths that contains the strong pairs, whatever order the hash tables list their
  entries in; the cohesion of a cluster is a number between 0 and 1; sorting and renaming keep the members.
\<close>

subsection \<open>From paths to indices\<close>

definition strong_links :: "co_change list \<Rightarrow> (string \<times> string) list" where
  "strong_links pairs = map (\<lambda>(a, b, n). (a, b)) (strong_pairs pairs)"

lemma connected_map_into:
  assumes "(u, v) \<in> connected_by (map (map_prod f f) es)" "u = f a" "a \<in> V" "inj_on f V" "set es \<subseteq> V \<times> V"
  shows "\<exists>b\<in>V. v = f b \<and> (a, b) \<in> connected_by es"
  using assms(1) unfolding connected_by_def
proof (induction rule: rtrancl_induct)
  case base
  then show ?case using assms(2,3) by blast
next
  case (step v w)
  then obtain b where b: "b \<in> V" "v = f b" "(a, b) \<in> (set es \<union> (set es)\<inverse>)\<^sup>*" by blast
  from step(2) obtain c d where cd: "(c, d) \<in> set es \<union> (set es)\<inverse>" "v = f c" "w = f d" by auto
  moreover have "c \<in> V" "d \<in> V" using cd(1) assms(5) by auto
  ultimately have "c = b" using b(1,2) assms(4) by (simp add: inj_on_eq_iff)
  then show ?case using b(3) cd \<open>d \<in> V\<close> by (auto intro: rtrancl_into_rtrancl)
qed

lemma connected_map_onto: "(a, b) \<in> connected_by es \<Longrightarrow> (f a, f b) \<in> connected_by (map (map_prod f f) es)"
  unfolding connected_by_def
proof (induction rule: rtrancl_induct)
  case (step v w)
  then have "(f v, f w) \<in> set (map (map_prod f f) es) \<union> (set (map (map_prod f f) es))\<inverse>" by force
  then show ?case using step(3) by (rule rtrancl_into_rtrancl [rotated])
qed simp

lemma connected_map:
  assumes "inj_on f V" "set es \<subseteq> V \<times> V" "a \<in> V" "b \<in> V"
  shows "(f a, f b) \<in> connected_by (map (map_prod f f) es) \<longleftrightarrow> (a, b) \<in> connected_by es"
  using connected_map_into [of "f a" "f b" f es a V] connected_map_onto [of a b es f] assms by (auto simp: inj_on_eq_iff)

lemma connected_nodes: "(a, b) \<in> connected_by es \<Longrightarrow> a \<noteq> b \<Longrightarrow> a \<in> fst ` set es \<union> snd ` set es \<and> b \<in> fst ` set es \<union> snd ` set es"
proof -
  assume h: "(a, b) \<in> connected_by es" "a \<noteq> b"
  let ?r = "set es \<union> (set es)\<inverse>"
  have "a \<in> Domain ?r" "b \<in> Range ?r"
    using h unfolding connected_by_def by (metis DomainI converse_rtranclE, metis RangeI rtranclE)
  then show ?thesis by force
qed

lemma node_to_idx_less: "a \<in> set nodes \<Longrightarrow> node_to_idx nodes a < length nodes"
  by (induction nodes) (auto simp: node_to_idx_def)

lemma nth_node_to_idx: "a \<in> set nodes \<Longrightarrow> nodes ! node_to_idx nodes a = a"
  by (induction nodes) (auto simp: node_to_idx_def)

lemma node_to_idx_nth: "distinct nodes \<Longrightarrow> i < length nodes \<Longrightarrow> node_to_idx nodes (nodes ! i) = i"
  using node_to_idx_less [of "nodes ! i" nodes] nth_node_to_idx [of "nodes ! i" nodes] by (simp add: nth_eq_iff_index_eq)

lemma inj_node_to_idx: "inj_on (node_to_idx nodes) (set nodes)"
  by (rule inj_on_inverseI [where g = "(!) nodes"]) (rule nth_node_to_idx)

lemma set_pair_nodes: "set (pair_nodes strong) = fst ` set (map (\<lambda>(a, b, n). (a, b)) strong) \<union> snd ` set (map (\<lambda>(a, b, n). (a, b)) strong)"
  by (force simp: pair_nodes_def)

lemma union_all_fold:
  "union_all nodes uf pairs =
     foldM (\<lambda>uf (a, b). uf_union uf a b) uf (map (map_prod (node_to_idx nodes) (node_to_idx nodes)) (map (\<lambda>(a, b, n). (a, b)) pairs))"
  unfolding union_all_def by (induction pairs arbitrary: uf) (auto split: bind_splits)

lemma union_all_connects:
  assumes "distinct nodes" "set (pair_nodes pairs) \<subseteq> set nodes"
  shows "\<exists>uf. union_all nodes ([0..<length nodes], replicate (length nodes) 0) pairs = Some uf \<and> uf_wf (length nodes) uf
    \<and> (\<forall>a\<in>set nodes. \<forall>b\<in>set nodes. uf_root uf (node_to_idx nodes a) = uf_root uf (node_to_idx nodes b)
         \<longleftrightarrow> (a, b) \<in> connected_by (map (\<lambda>(a, b, n). (a, b)) pairs))"
proof -
  let ?n = "length nodes" and ?ix = "node_to_idx nodes" and ?es = "map (\<lambda>(a, b, n). (a, b)) pairs"
  have es: "set ?es \<subseteq> set nodes \<times> set nodes"
    using assms(2) unfolding set_pair_nodes by force
  then have "set (map (map_prod ?ix ?ix) ?es) \<subseteq> {..<?n} \<times> {..<?n}" by (auto intro!: node_to_idx_less)
  then obtain uf where uf: "union_all nodes ([0..<?n], replicate ?n 0) pairs = Some uf" "uf_wf ?n uf"
    "\<forall>x<?n. \<forall>y<?n. uf_root uf x = uf_root uf y \<longleftrightarrow> (x, y) \<in> connected_by (map (map_prod ?ix ?ix) ?es)"
    using uf.links_connect [OF uf_start(1), of ?n "map (map_prod ?ix ?ix) ?es"] by (auto simp: union_all_fold uf_start(2))
  have "uf_root uf (?ix a) = uf_root uf (?ix b) \<longleftrightarrow> (a, b) \<in> connected_by ?es" if "a \<in> set nodes" "b \<in> set nodes" for a b
    using uf(3) node_to_idx_less that connected_map [OF inj_node_to_idx es that] by simp
  then show ?thesis using uf(1,2) by blast
qed

subsection \<open>Groups\<close>

definition members_of :: "(nat \<Rightarrow> nat) \<Rightarrow> nat \<Rightarrow> string list \<Rightarrow> nat \<Rightarrow> string list" where
  "members_of R i ns r = map snd (filter (\<lambda>(j, m). R j = r) (enumerate i ns))"

lemma members_of_simps [simp]:
  "members_of R i [] r = []"
  "members_of R i (m # ns) r = (if R i = r then m # members_of R (Suc i) ns r else members_of R (Suc i) ns r)"
  by (simp_all add: members_of_def)

definition add_members :: "string list option \<Rightarrow> string list \<Rightarrow> string list option" where
  "add_members old ns = (case old of None \<Rightarrow> if ns = [] then None else Some ns | Some l \<Rightarrow> Some (l @ ns))"

lemma group_nodes_ok:
  assumes "uf_wf n (p, rank)" "i + length ns \<le> n" "distinct (map fst comps)"
  shows "\<exists>c. group_nodes p i ns comps = Some c \<and> distinct (map fst c)
    \<and> (\<forall>r. map_of c r = add_members (map_of comps r) (members_of (uf_root (p, rank)) i ns r))"
  using assms
proof (induction ns arbitrary: p i comps)
  case Nil
  then show ?case by (auto simp: add_members_def split: option.splits)
next
  case (Cons m ns)
  let ?r = "uf_root (p, rank) i"
  obtain p1 where f: "uf_find p i = Some (p1, ?r)" "uf_wf n (p1, rank)" "\<forall>z<n. uf_root (p1, rank) z = uf_root (p, rank) z"
    using uf_find_root [OF Cons.prems(1), of i] Cons.prems(2) by auto
  let ?c = "AList.map_default ?r [m] (\<lambda>ns. ns @ [m]) comps"
  have "distinct (map fst ?c)" using Cons.prems(3) by (rule AList.distinct_map_default)
  moreover have "Suc i + length ns \<le> n" using Cons.prems(2) by simp
  ultimately obtain c where c: "group_nodes p1 (Suc i) ns ?c = Some c" "distinct (map fst c)"
    "\<forall>r. map_of c r = add_members (map_of ?c r) (members_of (uf_root (p1, rank)) (Suc i) ns r)"
    using Cons.IH [OF f(2)] by blast
  have "members_of (uf_root (p1, rank)) (Suc i) ns r = members_of (uf_root (p, rank)) (Suc i) ns r" for r
    unfolding members_of_def using f(3) Cons.prems(2)
    by (intro arg_cong [where f = "map snd"] filter_cong) (auto simp: in_set_enumerate_eq)
  then have "map_of c r = add_members (map_of comps r) (members_of (uf_root (p, rank)) i (m # ns) r)" for r
    using c(3) by (auto simp: AList.map_of_map_default add_members_def split: option.splits)
  then show ?case using f(1) c(1,2) by auto
qed

lemma set_members_of: "set (members_of R 0 nodes r) = {nodes ! i | i. i < length nodes \<and> R i = r}"
  by (force simp: members_of_def in_set_enumerate_eq)

lemma distinct_members_of: "distinct ns \<Longrightarrow> distinct (members_of R i ns r)"
proof -
  have "distinct (map snd (filter P (enumerate i ns)))" if "distinct ns" for P
    using that by (induction ns arbitrary: i) (auto simp: in_set_enumerate_eq)
  then show "distinct ns \<Longrightarrow> distinct (members_of R i ns r)" by (simp add: members_of_def)
qed

text \<open>The groups: every member list is a class of nodes with one root, and no node is in two.\<close>

definition classes :: "(nat \<Rightarrow> nat) \<Rightarrow> string list \<Rightarrow> string list list \<Rightarrow> bool" where
  "classes R nodes groups \<longleftrightarrow> (\<forall>l. l \<in> set groups \<longleftrightarrow> l \<noteq> [] \<and> (\<exists>r. l = members_of R 0 nodes r)) \<and> distinct (concat groups)"

lemma members_of_share: "distinct nodes \<Longrightarrow> a \<in> set (members_of R 0 nodes r) \<Longrightarrow> a \<in> set (members_of R 0 nodes s) \<Longrightarrow> r = s"
  by (auto simp: set_members_of nth_eq_iff_index_eq)

lemma group_nodes_classes:
  assumes "uf_wf (length nodes) (p, rank)" "distinct nodes"
  shows "\<exists>c. group_nodes p 0 nodes [] = Some c \<and> classes (uf_root (p, rank)) nodes (map snd c)"
proof -
  let ?M = "members_of (uf_root (p, rank)) 0 nodes"
  obtain c where c: "group_nodes p 0 nodes [] = Some c" "distinct (map fst c)" "\<forall>r. map_of c r = add_members None (?M r)"
    using group_nodes_ok [OF assms(1), of 0 nodes "[]"] by auto
  have mem: "(r, l) \<in> set c \<longleftrightarrow> l \<noteq> [] \<and> l = ?M r" for r l
    unfolding map_of_eq_Some_iff [OF c(2), symmetric] using c(3) by (auto simp: add_members_def)
  have "distinct (map snd c)"
    unfolding distinct_map
  proof (intro conjI inj_onI)
    show "distinct c" using c(2) by (simp add: distinct_map)
    fix x y assume x: "x \<in> set c" and y: "y \<in> set c" and e: "snd x = snd y"
    obtain r l s where xy: "x = (r, l)" "y = (s, l)" using e by (cases x, cases y) auto
    then have "hd l \<in> set (?M r)" "hd l \<in> set (?M s)" using x y mem by auto
    then show "x = y" using members_of_share [OF assms(2)] xy by blast
  qed
  moreover have "distinct l" if "l \<in> set (map snd c)" for l using that mem distinct_members_of [OF assms(2)] by auto
  moreover have "set k \<inter> set l = {}" if kl: "k \<in> set (map snd c)" "l \<in> set (map snd c)" "k \<noteq> l" for k l
  proof -
    obtain r s where "k = ?M r" "l = ?M s" using kl mem by auto
    then show ?thesis using members_of_share [OF assms(2)] kl(3) by blast
  qed
  ultimately have "distinct (concat (map snd c))" by (intro distinct_concat) blast+
  moreover have "l \<in> set (map snd c) \<longleftrightarrow> l \<noteq> [] \<and> (\<exists>r. l = ?M r)" for l
  proof -
    have "l \<in> set (map snd c) \<longleftrightarrow> (\<exists>r. (r, l) \<in> set c)" by force
    then show ?thesis by (simp add: mem)
  qed
  ultimately have "classes (uf_root (p, rank)) nodes (map snd c)" unfolding classes_def by blast
  then show ?thesis using c(1) by blast
qed

lemma nodes_member: "a \<in> set nodes \<Longrightarrow> a \<in> set (members_of R 0 nodes (R (node_to_idx nodes a)))"
  unfolding set_members_of
  by (intro CollectI exI [of _ "node_to_idx nodes a"]) (simp add: node_to_idx_less nth_node_to_idx)

lemma member_root: "distinct nodes \<Longrightarrow> a \<in> set (members_of R 0 nodes r) \<Longrightarrow> R (node_to_idx nodes a) = r"
proof -
  assume d: "distinct nodes" and "a \<in> set (members_of R 0 nodes r)"
  then obtain i where "a = nodes ! i" "i < length nodes" "R i = r" unfolding set_members_of by blast
  then show ?thesis using node_to_idx_nth [OF d] by simp
qed

lemma classes_share:
  assumes "classes R nodes groups" "distinct nodes" "a \<in> set nodes" "b \<in> set nodes"
  shows "(\<exists>l\<in>set groups. a \<in> set l \<and> b \<in> set l) \<longleftrightarrow> R (node_to_idx nodes a) = R (node_to_idx nodes b)"
proof
  assume "\<exists>l\<in>set groups. a \<in> set l \<and> b \<in> set l"
  then obtain r where "a \<in> set (members_of R 0 nodes r)" "b \<in> set (members_of R 0 nodes r)"
    using assms(1) by (auto simp: classes_def)
  then show "R (node_to_idx nodes a) = R (node_to_idx nodes b)"
    using member_root [OF assms(2)] by metis
next
  assume e: "R (node_to_idx nodes a) = R (node_to_idx nodes b)"
  let ?l = "members_of R 0 nodes (R (node_to_idx nodes a))"
  have "a \<in> set ?l" "b \<in> set ?l"
    using nodes_member [OF assms(3), of R] nodes_member [OF assms(4), of R] by (simp_all add: e)
  moreover have "?l \<noteq> []" using nodes_member [OF assms(3), of R] by force
  then have "?l \<in> set groups" using assms(1) unfolding classes_def by blast
  ultimately show "\<exists>l\<in>set groups. a \<in> set l \<and> b \<in> set l" by blast
qed

lemma members_of_nodes: "set (members_of R 0 nodes r) \<subseteq> set nodes"
  unfolding set_members_of by force

lemma classes_nodes: "classes R nodes groups \<Longrightarrow> l \<in> set groups \<Longrightarrow> set l \<subseteq> set nodes"
proof -
  assume "classes R nodes groups" "l \<in> set groups"
  then obtain r where "l = members_of R 0 nodes r" unfolding classes_def by blast
  then show ?thesis by (simp only: members_of_nodes)
qed

subsection \<open>Members survive sorting and renaming\<close>

lemma disambiguate_members [simp]: "map cl_members (disambiguate counts seen cs) = map cl_members cs"
  by (induction counts seen cs rule: disambiguate.induct) auto

lemma disambiguate_cohesion [simp]: "map cl_cohesion (disambiguate counts seen cs) = map cl_cohesion cs"
  by (induction counts seen cs rule: disambiguate.induct) auto

lemma disambiguate_size [simp]: "map cl_size (disambiguate counts seen cs) = map cl_size cs"
  by (induction counts seen cs rule: disambiguate.induct) auto

lemma index_of_members: "mset (map cl_members (ci_clusters (index_of total_files built))) = mset (map cl_members built)"
  by (simp add: index_of_def Let_def)

lemma index_of_cohesion: "mset (map cl_cohesion (ci_clusters (index_of total_files built))) = mset (map cl_cohesion built)"
  by (simp add: index_of_def Let_def)

lemma build_members [simp]: "cl_members (build_cluster es ns) = sort ns"
  by (simp add: build_cluster_def Let_def)

lemma build_cohesion: "cl_cohesion (build_cluster es ns) = cohesion (word_of_nat (length (intra es (sort ns)))) (length ns)"
  by (simp add: build_cluster_def Let_def)

lemma build_size [simp]: "cl_size (build_cluster es ns) = word_of_nat (length ns)"
  by (simp add: build_cluster_def Let_def)

text \<open>A hash table lists each of its entries once.\<close>

definition hash_order_ok :: "hash_order \<Rightarrow> bool" where
  "hash_order_ok ho \<longleftrightarrow> (\<forall>xs. mset (ho_nodes ho xs) = mset xs) \<and> (\<forall>gs. mset (ho_components ho gs) = mset gs)"

lemma hash_orderD:
  assumes "hash_order_ok ho"
  shows "set (ho_nodes ho xs) = set xs" "distinct (ho_nodes ho xs) \<longleftrightarrow> distinct xs"
    "mset (ho_components ho gs) = mset gs" "set (ho_components ho gs) = set gs"
proof -
  have m: "mset (ho_nodes ho xs) = mset xs" "mset (ho_components ho gs) = mset gs" using assms by (simp_all add: hash_order_ok_def)
  show "set (ho_nodes ho xs) = set xs" using m(1) by (rule mset_eq_setD)
  show "set (ho_components ho gs) = set gs" using m(2) by (rule mset_eq_setD)
  show "distinct (ho_nodes ho xs) \<longleftrightarrow> distinct xs" using m(1) by (rule mset_eq_imp_distinct_iff)
qed (use assms in \<open>simp add: hash_order_ok_def\<close>)

text \<open>The groups that become clusters.\<close>

definition pair_groups :: "co_change list \<Rightarrow> string list list \<Rightarrow> bool" where
  "pair_groups pairs groups \<longleftrightarrow> distinct (concat groups) \<and> (\<forall>l\<in>set groups. 2 \<le> length l)
     \<and> (\<forall>a b. a \<noteq> b \<longrightarrow> (\<exists>l\<in>set groups. a \<in> set l \<and> b \<in> set l) \<longleftrightarrow> (a, b) \<in> connected_by (strong_links pairs))
     \<and> \<Union> (set ` set groups) \<subseteq> fst ` set (strong_links pairs) \<union> snd ` set (strong_links pairs)"

lemma distinct_concat_filter: "distinct (concat gs) \<Longrightarrow> distinct (concat (filter P gs))"
  by (induction gs) auto

lemma distinct_concat_mset: "mset gs = mset hs \<Longrightarrow> distinct (concat gs) \<Longrightarrow> distinct (concat hs)"
proof -
  assume h: "mset gs = mset hs" "distinct (concat gs)"
  have "mset (concat xs) = \<Sum>\<^sub># (image_mset mset (mset xs))" for xs :: "'a list list" by (induction xs) simp_all
  then have "mset (concat gs) = mset (concat hs)" using h(1) by simp
  then show ?thesis using h(2) mset_eq_imp_distinct_iff by blast
qed

lemma two_members: "a \<noteq> b \<Longrightarrow> a \<in> set l \<Longrightarrow> b \<in> set l \<Longrightarrow> 2 \<le> length l"
  by (cases l; cases "tl l") auto

lemma connected_groups:
  assumes "hash_order_ok ho" "classes (uf_root uf) nodes gs" "distinct nodes" "set nodes = set (pair_nodes (strong_pairs pairs))"
    and root: "\<forall>a\<in>set nodes. \<forall>b\<in>set nodes. uf_root uf (node_to_idx nodes a) = uf_root uf (node_to_idx nodes b)
      \<longleftrightarrow> (a, b) \<in> connected_by (strong_links pairs)"
  shows "pair_groups pairs (filter (\<lambda>ns. 2 \<le> length ns) (ho_components ho gs))"
proof -
  let ?N = "fst ` set (strong_links pairs) \<union> snd ` set (strong_links pairs)"
  let ?gs = "ho_components ho gs"
  have nodes: "set nodes = ?N" using assms(4) by (simp only: set_pair_nodes strong_links_def)
  have gs: "set ?gs = set gs" "mset ?gs = mset gs" using hash_orderD [OF assms(1)] by blast+
  have sub: "set l \<subseteq> ?N" if "l \<in> set ?gs" for l using classes_nodes [OF assms(2)] that nodes gs(1) by blast
  have "distinct (concat ?gs)"
    using distinct_concat_mset [OF gs(2) [symmetric]] assms(2) by (simp add: classes_def)
  moreover have "(\<exists>l\<in>set ?gs. 2 \<le> length l \<and> a \<in> set l \<and> b \<in> set l) \<longleftrightarrow> (a, b) \<in> connected_by (strong_links pairs)" if ab: "a \<noteq> b" for a b
  proof (cases "a \<in> set nodes \<and> b \<in> set nodes")
    case True
    then have "(\<exists>l\<in>set gs. a \<in> set l \<and> b \<in> set l) \<longleftrightarrow> (a, b) \<in> connected_by (strong_links pairs)"
      using classes_share [OF assms(2,3)] root by blast
    then show ?thesis using two_members [OF ab] gs(1) by blast
  next
    case False
    then show ?thesis using connected_nodes [of a b "strong_links pairs"] ab nodes sub by blast
  qed
  ultimately show ?thesis
    unfolding pair_groups_def set_filter using sub distinct_concat_filter [of ?gs] by (intro conjI) blast+
qed

lemma compute_clusters_groups:
  assumes "hash_order_ok ho"
  shows "\<exists>groups. pair_groups pairs groups
    \<and> compute_clusters ho pairs total_files = Some (index_of total_files (map (build_cluster (cluster_edges (strong_pairs pairs))) groups))"
proof (cases "strong_pairs pairs = []")
  case True
  then have "pair_groups pairs []" by (simp add: pair_groups_def strong_links_def)
  moreover have "compute_clusters ho pairs total_files = Some (index_of total_files (map f []))" for f
    using True by (simp add: compute_clusters_def index_of_def)
  ultimately show ?thesis by blast
next
  case False
  let ?nodes = "ho_nodes ho (pair_nodes (strong_pairs pairs))"
  have nodes: "distinct ?nodes" "set ?nodes = set (pair_nodes (strong_pairs pairs))"
    using hash_orderD [OF assms] by (auto simp: pair_nodes_def)
  obtain uf where uf: "union_all ?nodes ([0..<length ?nodes], replicate (length ?nodes) 0) (strong_pairs pairs) = Some uf" "uf_wf (length ?nodes) uf"
    and root: "\<forall>a\<in>set ?nodes. \<forall>b\<in>set ?nodes. uf_root uf (node_to_idx ?nodes a) = uf_root uf (node_to_idx ?nodes b)
      \<longleftrightarrow> (a, b) \<in> connected_by (strong_links pairs)"
    using union_all_connects [OF nodes(1), of "strong_pairs pairs"] nodes(2) by (auto simp: strong_links_def)
  obtain p rank where p: "uf = (p, rank)" by force
  obtain c where c: "group_nodes p 0 ?nodes [] = Some c" "classes (uf_root uf) ?nodes (map snd c)"
    using group_nodes_classes [of ?nodes p rank] uf(2) nodes(1) p by blast
  have "compute_clusters ho pairs total_files = Some (index_of total_files (map (build_cluster (cluster_edges (strong_pairs pairs)))
      (filter (\<lambda>ns. 2 \<le> length ns) (ho_components ho (map snd c)))))"
    using False uf(1) c(1) p by (simp add: compute_clusters_def Let_def)
  then show ?thesis using connected_groups [OF assms c(2) nodes root] by blast
qed

subsection \<open>Cohesion\<close>

lemma card_ordered_pairs:
  fixes M :: "'a :: linorder set"
  assumes "finite M"
  shows "card {(a, b). a \<in> M \<and> b \<in> M \<and> a < b} = card M * (card M - 1) div 2"
proof -
  let ?lt = "{(a, b). a \<in> M \<and> b \<in> M \<and> a < b}"
  have fin: "finite ?lt" by (rule finite_subset [of _ "M \<times> M"]) (use assms in auto)
  have "M \<times> M = (?lt \<union> ?lt\<inverse>) \<union> Id_on M" by (auto simp: Id_on_iff not_less_iff_gr_or_eq)
  moreover have "?lt \<inter> ?lt\<inverse> = {}" "(?lt \<union> ?lt\<inverse>) \<inter> Id_on M = {}" by auto
  moreover have "Id_on M = (\<lambda>a. (a, a)) ` M" by auto
  then have "card (Id_on M) = card M" "finite (Id_on M)" using assms by (simp_all add: card_image inj_on_def)
  ultimately have "card (M \<times> M) = card ?lt + card (?lt\<inverse>) + card (Id_on M)"
    using fin by (simp only: card_Un_disjoint finite_Un finite_converse)
  then have "card M * card M = 2 * card ?lt + card M"
    using \<open>card (Id_on M) = card M\<close> by (simp add: card_cartesian_product)
  then show ?thesis by (simp add: diff_mult_distrib2)
qed

lemma r32_pow_64: "r32 (2 ^ 64) = Fin (2 ^ 64)"
proof -
  have "rne (2 ^ 64 / 2 powi 41) = 2 ^ 23" using rne_of_int [of "2 ^ 23"] by simp
  then show ?thesis using r32_compute [of 64 "2 ^ 64"] by simp
qed

lemma f32_of_nat_small:
  assumes "n \<le> 2 ^ 64"
  shows "\<exists>z. f32_of_nat n = Fin z \<and> 0 \<le> z"
proof -
  have "(of_nat n :: rat) \<le> of_nat (2 ^ 64)" using assms by (simp only: of_nat_le_iff)
  then have "bounded (2 ^ 64) (r32 (of_nat n))" by (intro bounded_r32 r32_pow_64) simp_all
  then show ?thesis by (auto simp: f32_of_nat_def bounded_Fin)
qed

lemma cohesion_ratio:
  assumes "2 \<le> n" "n < 2 ^ 32" "unat e \<le> n * (n - 1) div 2"
  shows "bounded 1 (cohesion e n)" "unat e = n * (n - 1) div 2 \<Longrightarrow> cohesion e n = Fin 1"
proof -
  let ?m = "n * (n - 1) div 2"
  have "n * (n - 1) \<le> 2 ^ 32 * 2 ^ 32" using assms(2) by (intro mult_le_mono) simp_all
  then have m: "?m \<le> 2 ^ 64" "1 \<le> ?m" using assms(1) by (simp_all add: Suc_le_eq div_greater_zero_iff mult_le_mono [of 2 n 1 "n - 1", simplified])
  obtain y z where y: "f32_of_nat (unat e) = Fin y" "0 \<le> y" and z: "f32_of_nat ?m = Fin z"
    using f32_of_nat_small m(1) assms(3) by (meson le_trans)
  have "y \<le> z" using r32_mono [OF of_nat_mono [OF assms(3)]] y z by (simp add: f32_of_nat_def)
  moreover have "1 \<le> z" using r32_mono [of 1 "of_nat ?m"] m(2) z by (simp add: f32_of_nat_def)
  ultimately show "bounded 1 (cohesion e n)"
    using y(1,2) z bounded_r32 [OF _ _ r32_one, of "y / z"] by (simp add: cohesion_def Let_def)
  show "cohesion e n = Fin 1" if "unat e = ?m" using that y z \<open>1 \<le> z\<close> by (simp add: cohesion_def Let_def)
qed

lemma intra_card:
  assumes "\<forall>(a, b)\<in>set es. a < b" "distinct es" "distinct ms"
  shows "length (intra es ms) \<le> length ms * (length ms - 1) div 2"
    and "\<forall>a\<in>set ms. \<forall>b\<in>set ms. a < b \<longrightarrow> (a, b) \<in> set es \<Longrightarrow> length (intra es ms) = length ms * (length ms - 1) div 2"
proof -
  let ?lt = "{(a, b). a \<in> set ms \<and> b \<in> set ms \<and> a < b}"
  have lt: "card ?lt = length ms * (length ms - 1) div 2"
    using card_ordered_pairs [of "set ms"] distinct_card [OF assms(3)] by simp
  have len: "length (intra es ms) = card (set (intra es ms))"
    unfolding intra_def by (rule distinct_card [symmetric]) (rule distinct_filter [OF assms(2)])
  have fin: "finite ?lt" by (rule finite_subset [of _ "set ms \<times> set ms"]) auto
  have sub: "set (intra es ms) \<subseteq> ?lt" using assms(1) by (auto simp: intra_def)
  show "length (intra es ms) \<le> length ms * (length ms - 1) div 2" unfolding len lt [symmetric] using fin sub by (rule card_mono)
  assume "\<forall>a\<in>set ms. \<forall>b\<in>set ms. a < b \<longrightarrow> (a, b) \<in> set es"
  then have "set (intra es ms) = ?lt" using sub by (auto simp: intra_def)
  then show "length (intra es ms) = length ms * (length ms - 1) div 2" unfolding len lt [symmetric] by simp
qed

subsection \<open>The index\<close>

lemma find_member:
  assumes "distinct (concat (map cl_members cs))"
  shows "(\<exists>c. find (\<lambda>c. a \<in> set (cl_members c)) cs = Some c \<and> b \<in> set (cl_members c))
    \<longleftrightarrow> (\<exists>c\<in>set cs. a \<in> set (cl_members c) \<and> b \<in> set (cl_members c))"
  using assms
proof (induction cs)
  case (Cons c cs)
  have d: "a \<notin> set (cl_members c)" if "e \<in> set cs" "a \<in> set (cl_members e)" for e using Cons.prems that by auto
  show ?case
  proof (cases "a \<in> set (cl_members c)")
    case True
    then show ?thesis using d by auto
  next
    case False
    then show ?thesis using Cons by simp
  qed
qed simp

lemma index_cluster:
  assumes "c \<in> set (ci_clusters (index_of total_files (map (build_cluster es) groups)))"
  shows "\<exists>l\<in>set groups. cl_members c = sort l \<and> cl_size c = word_of_nat (length l)
    \<and> cl_cohesion c = cohesion (word_of_nat (length (intra es (sort l)))) (length l)"
proof -
  define part where "part c = (cl_members c, cl_size c, cl_cohesion c)" for c :: Cluster
  have "map part (disambiguate counts seen cs) = map part cs" for counts seen cs
    by (induction counts seen cs rule: disambiguate.induct) (auto simp: part_def)
  then have "part c \<in> part ` set (map (build_cluster es) groups)"
    using assms by (metis (no_types, lifting) ClusterIndex.select_convs(1) imageI index_of_def list.set_map set_sort)
  then show ?thesis by (force simp: part_def build_cohesion)
qed

lemma groups_pairs_bound:
  assumes "pair_groups pairs groups" "l \<in> set groups"
  shows "distinct l" "2 \<le> length l" "length l \<le> 2 * length pairs"
proof -
  let ?N = "fst ` set (strong_links pairs) \<union> snd ` set (strong_links pairs)"
  show l: "distinct l" "2 \<le> length l" using assms by (auto simp: pair_groups_def distinct_concat_iff)
  have "set l \<subseteq> ?N" using assms by (auto simp: pair_groups_def)
  then have "length l \<le> card ?N" using card_mono [of ?N "set l"] distinct_card [OF l(1)] by simp
  also have "\<dots> \<le> card (fst ` set (strong_links pairs)) + card (snd ` set (strong_links pairs))" by (rule card_Un_le)
  also have "\<dots> \<le> length (strong_links pairs) + length (strong_links pairs)"
    by (intro add_mono order_trans [OF card_image_le card_length]) simp_all
  also have "length (strong_links pairs) \<le> length pairs" by (simp add: strong_links_def strong_pairs_def)
  then have "length (strong_links pairs) + length (strong_links pairs) \<le> 2 * length pairs" by simp
  finally show "length l \<le> 2 * length pairs" .
qed

text \<open>Of two clusters of one size and label, the one that the hash table lists second gets the suffix.\<close>

lemma second_gets_suffix:
  assumes "cl_size c = cl_size d" "cl_label c = cl_label d"
  shows "ci_clusters (index_of total_files [c, d]) = [c, d\<lparr>cl_label := cl_label d @ '' ('' @ stem (cl_centroid d) @ '')''\<rparr>]"
  using assms by (simp add: index_of_def Let_def)

text \<open>
  C30. Clusters are the connected components: whatever order the hash tables list their entries in, the computation does not panic, no file is in two
  clusters, every cluster is sorted and has two files or more, and a lookup of one file gives a cluster with another exactly when a chain of pairs that
  changed together at least five times links the two.
\<close>

theorem clusters_are_components:
  assumes "hash_order_ok ho"
  shows "\<exists>idx. compute_clusters ho pairs total_files = Some idx
    \<and> distinct (concat (map cl_members (ci_clusters idx)))
    \<and> (\<forall>c\<in>set (ci_clusters idx). sorted (cl_members c) \<and> 2 \<le> length (cl_members c))
    \<and> (\<forall>a b. a \<noteq> b \<longrightarrow> (\<exists>c. cluster_for idx a = Some c \<and> b \<in> set (cl_members c)) \<longleftrightarrow> (a, b) \<in> connected_by (strong_links pairs))"
proof -
  let ?es = "cluster_edges (strong_pairs pairs)"
  obtain groups where g: "pair_groups pairs groups"
    and c: "compute_clusters ho pairs total_files = Some (index_of total_files (map (build_cluster ?es) groups))"
    using compute_clusters_groups [OF assms] by blast
  let ?idx = "index_of total_files (map (build_cluster ?es) groups)"
  have m: "mset (map cl_members (ci_clusters ?idx)) = mset (map sort groups)" by (simp only: index_of_members map_map comp_def build_members)
  have e: "mset (concat (map sort gs)) = mset (concat gs)" for gs :: "string list list" by (induction gs) simp_all
  have "distinct (concat (map sort groups))" using g mset_eq_imp_distinct_iff [OF e [of groups]] by (simp add: pair_groups_def)
  then have d: "distinct (concat (map cl_members (ci_clusters ?idx)))" using distinct_concat_mset [OF m [symmetric]] by blast
  have members: "cl_members ` set (ci_clusters ?idx) = sort ` set groups" using mset_eq_setD [OF m] by simp
  have s: "\<forall>c\<in>set (ci_clusters ?idx). sorted (cl_members c) \<and> 2 \<le> length (cl_members c)"
    using index_cluster groups_pairs_bound(2) [OF g] by fastforce
  have "(\<exists>c. cluster_for ?idx a = Some c \<and> b \<in> set (cl_members c)) \<longleftrightarrow> (a, b) \<in> connected_by (strong_links pairs)" if "a \<noteq> b" for a b
  proof -
    have "(\<exists>c\<in>set (ci_clusters ?idx). a \<in> set (cl_members c) \<and> b \<in> set (cl_members c))
        \<longleftrightarrow> (\<exists>l\<in>cl_members ` set (ci_clusters ?idx). a \<in> set l \<and> b \<in> set l)" by simp
    also have "\<dots> \<longleftrightarrow> (\<exists>l\<in>set groups. a \<in> set l \<and> b \<in> set l)" unfolding members by simp
    also have "\<dots> \<longleftrightarrow> (a, b) \<in> connected_by (strong_links pairs)" using g that by (simp add: pair_groups_def)
    finally show ?thesis using find_member [OF d, of a b] by (simp add: cluster_for_def)
  qed
  then show ?thesis using c d s by blast
qed

definition plain_order :: hash_order where
  "plain_order = \<lparr> ho_nodes = \<lambda>xs. xs, ho_components = rev \<rparr>"

lemma plain_order_ok: "hash_order_ok plain_order"
  by (simp add: hash_order_ok_def plain_order_def)

definition demo_pairs :: "co_change list" where
  "demo_pairs = [(''s/m/a.rs'', ''s/m/b.rs'', 9), (''s/m/b.rs'', ''s/m/c.rs'', 5), (''s/m/c.rs'', ''s/m/e.rs'', 4), (''s/m/f.rs'', ''s/m/g.rs'', 7)]"

theorem clusters_are_components_witness:
  "\<exists>idx c. compute_clusters plain_order demo_pairs 10 = Some idx \<and> cluster_for idx ''s/m/a.rs'' = Some c \<and> ''s/m/c.rs'' \<in> set (cl_members c)"
proof -
  have "(''s/m/a.rs'', ''s/m/b.rs'') \<in> set (strong_links demo_pairs)" "(''s/m/b.rs'', ''s/m/c.rs'') \<in> set (strong_links demo_pairs)"
    by code_simp+
  then have "(''s/m/a.rs'', ''s/m/c.rs'') \<in> connected_by (strong_links demo_pairs)"
    unfolding connected_by_def by (meson UnI1 r_into_rtrancl rtrancl_trans)
  moreover have "''s/m/a.rs'' \<noteq> ''s/m/c.rs''" by simp
  moreover obtain idx where idx: "compute_clusters plain_order demo_pairs 10 = Some idx" and look: "\<forall>a b. a \<noteq> b \<longrightarrow>
      (\<exists>c. cluster_for idx a = Some c \<and> b \<in> set (cl_members c)) \<longleftrightarrow> (a, b) \<in> connected_by (strong_links demo_pairs)"
    using clusters_are_components [OF plain_order_ok, of demo_pairs 10] by blast
  ultimately have "\<exists>c. cluster_for idx ''s/m/a.rs'' = Some c \<and> ''s/m/c.rs'' \<in> set (cl_members c)" by simp
  then show ?thesis using idx by blast
qed

text \<open>
  The cohesion of a cluster is a number between 0 and 1, for pairs given once with the smaller path first, and it is 1 where all members are
  linked pair by pair; the size of a cluster is the number of its members. The bound on the pairs keeps the counts within 32 bits.
\<close>

theorem cohesion_bounds:
  assumes "hash_order_ok ho" "compute_clusters ho pairs total_files = Some idx" "c \<in> set (ci_clusters idx)"
    and "\<forall>(a, b, n)\<in>set pairs. a < b" "length pairs < 2 ^ 31"
  shows "bounded 1 (cl_cohesion c) \<and> unat (cl_size c) = length (cl_members c)
    \<and> ((\<forall>a\<in>set (cl_members c). \<forall>b\<in>set (cl_members c). a < b \<longrightarrow> (a, b) \<in> set (strong_links pairs)) \<longrightarrow> cl_cohesion c = Fin 1)"
proof -
  let ?es = "cluster_edges (strong_pairs pairs)"
  obtain groups where g: "pair_groups pairs groups" and idx: "idx = index_of total_files (map (build_cluster ?es) groups)"
    using compute_clusters_groups [OF assms(1), of pairs total_files] assms(2) by auto
  from index_cluster [OF assms(3) [unfolded idx]] obtain l where l: "l \<in> set groups" "cl_members c = sort l"
    "cl_size c = word_of_nat (length l)" "cl_cohesion c = cohesion (word_of_nat (length (intra ?es (sort l)))) (length l)" by blast
  note b = groups_pairs_bound [OF g l(1)]
  have n: "length l < 2 ^ 32" using b(3) assms(5) by simp
  have es: "\<forall>(a, b)\<in>set ?es. a < b" "distinct ?es" "set ?es = set (strong_links pairs)"
    using assms(4) by (auto simp: cluster_edges_def strong_pairs_def strong_links_def)
  note i = intra_card [OF es(1,2), of "sort l"]
  have "length (intra ?es (sort l)) \<le> length ?es" by (simp add: intra_def)
  also have "\<dots> \<le> length pairs"
    unfolding cluster_edges_def strong_pairs_def by (rule order_trans [OF length_remdups_leq]) simp
  finally have e: "unat (word_of_nat (length (intra ?es (sort l))) :: u32) = length (intra ?es (sort l))"
    using assms(5) by (simp add: unsigned_of_nat take_bit_nat_eq_self)
  have "unat (cl_size c) = length (cl_members c)" using n l(2,3) by (simp add: unsigned_of_nat take_bit_nat_eq_self)
  moreover have "bounded 1 (cl_cohesion c)" unfolding l(4) by (rule cohesion_ratio(1) [OF b(2) n]) (use i(1) b(1) e in simp)
  moreover have "cl_cohesion c = Fin 1" if "\<forall>a\<in>set l. \<forall>b\<in>set l. a < b \<longrightarrow> (a, b) \<in> set (strong_links pairs)"
    unfolding l(4) by (rule cohesion_ratio(2) [OF b(2) n]) (use i that b(1) e es(3) in simp_all)
  ultimately show ?thesis by (simp add: l(2))
qed

lemma demo_clusters:
  "\<exists>idx c. compute_clusters plain_order demo_pairs 10 = Some idx \<and> c \<in> set (ci_clusters idx)"
proof -
  obtain groups where g: "pair_groups demo_pairs groups" "compute_clusters plain_order demo_pairs 10
      = Some (index_of 10 (map (build_cluster (cluster_edges (strong_pairs demo_pairs))) groups))"
    using compute_clusters_groups [OF plain_order_ok] by blast
  have "(''s/m/a.rs'', ''s/m/b.rs'') \<in> set (strong_links demo_pairs)" by code_simp
  then have "(''s/m/a.rs'', ''s/m/b.rs'') \<in> connected_by (strong_links demo_pairs)" unfolding connected_by_def by blast
  then have "groups \<noteq> []" using g(1) by (auto simp: pair_groups_def)
  moreover have "size (mset (map cl_members (ci_clusters (index_of 10 (map (build_cluster (cluster_edges (strong_pairs demo_pairs))) groups))))) = length groups"
    by (simp only: index_of_members size_mset length_map)
  ultimately have "ci_clusters (index_of 10 (map (build_cluster (cluster_edges (strong_pairs demo_pairs))) groups)) \<noteq> []" by auto
  then show ?thesis using g(2) hd_in_set by blast
qed

theorem cohesion_bounds_witness:
  "\<exists>idx c. compute_clusters plain_order demo_pairs 10 = Some idx \<and> c \<in> set (ci_clusters idx) \<and> bounded 1 (cl_cohesion c)"
proof -
  obtain idx c where idx: "compute_clusters plain_order demo_pairs 10 = Some idx" "c \<in> set (ci_clusters idx)"
    using demo_clusters by blast
  have a: "\<forall>(a, b, n)\<in>set demo_pairs. a < b" by code_simp
  have "length demo_pairs < 2 ^ 31" by (simp add: demo_pairs_def)
  then show ?thesis using cohesion_bounds [OF plain_order_ok idx a] idx by blast
qed

end
