(* ===== verification/Policy.thy ===== *)
theory Policy
  imports Json_Api
begin

section \<open>Signed policy bundles (\<open>policy.rs\<close>)\<close>









subsection \<open>The canonical payload\<close>






subsection \<open>What a verified bundle means\<close>











end
