(* ===== verification/Packet_Spec.thy ===== *)
theory Packet_Spec
  imports Agent_Reads
begin

section \<open>What the packet and the queries show\<close>

text \<open>
  Which gotchas the start-up packet carries and in what order, how long it can get, and how the slots of a graph query are shared
  among the groups.
\<close>

declare starts_with_Cons [simp del]

subsection \<open>Sorting and sets\<close>

lemma set_insert_by [simp]: "set (insert_by f x ys) = insert x (set ys)"
  by (induction ys) auto

lemma set_sort_by_desc [simp]: "set (sort_by_desc f xs) = set xs"
  unfolding sort_by_desc_def by (induction xs) simp_all

lemma set_set_insert [simp]: "set (set_insert ks acc) = set acc \<union> set ks"
  unfolding set_insert_def by (induction ks arbitrary: acc) auto

definition falling :: "('a \<Rightarrow> flt) \<Rightarrow> 'a list \<Rightarrow> bool" where
  "falling f xs \<longleftrightarrow> sorted_wrt (\<lambda>x y. flt_le (f y) (f x)) xs"

lemma insert_by_falling:
  assumes "falling f ys" "\<forall>y\<in>set (x # ys). f y \<noteq> NaN"
  shows "falling f (insert_by f x ys)"
  using assms
proof (induction ys)
  case (Cons y ys)
  show ?case
  proof (cases "flt_lt (f x) (f y)")
    case True
    then have "flt_le (f x) (f y)" by (simp add: flt_lt_def)
    then show ?thesis using Cons True by (auto simp: falling_def)
  next
    case False
    then have yx: "flt_le (f y) (f x)" using Cons.prems(2) flt_not_lt by simp
    have "flt_le (f z) (f x)" if "z \<in> set ys" for z
      using Cons.prems(1) that yx flt_le_trans [of "f z" "f y" "f x"] by (simp add: falling_def)
    then show ?thesis using Cons.prems(1) False yx by (simp add: falling_def)
  qed
qed (simp add: falling_def)

lemma sort_by_desc_falling: "\<forall>x\<in>set xs. f x \<noteq> NaN \<Longrightarrow> falling f (sort_by_desc f xs)"
proof (induction xs)
  case (Cons x xs)
  then have "falling f (insert_by f x (sort_by_desc f xs))" by (intro insert_by_falling) auto
  then show ?case by (simp add: sort_by_desc_def)
qed (simp add: sort_by_desc_def falling_def)

subsection \<open>The gotchas of the packet\<close>

text \<open>The keys that the files of the context lead to.\<close>

definition shown_file :: "('t, 'x, 'v, 'j) store_api \<Rightarrow> ('t, 'x) Store \<Rightarrow> string \<Rightarrow> bool" where
  "shown_file A S key \<longleftrightarrow> (case store_get A S key of Inr (Some r) \<Rightarrow> \<not> hidden_file r | _ \<Rightarrow> True)"

definition recorded_keys :: "('t, 'x, 'v, 'j) store_api \<Rightarrow> ('j, FileRecord) serde \<Rightarrow> ('t, 'x) Store \<Rightarrow> string \<Rightarrow> string set" where
  "recorded_keys A F S key =
     (case store_get A S key of
        Inr (Some r) \<Rightarrow> (case payload_as (from_value F) r of Some fr \<Rightarrow> set (f_gotcha_keys fr) | None \<Rightarrow> {})
      | _ \<Rightarrow> {})"

definition reached_keys :: "graph_view \<Rightarrow> string \<Rightarrow> string set" where
  "reached_keys V key = set (gv_neighbors V key HasGotcha) \<union> (\<Union>i\<in>set (gv_neighbors V key Imports). set (gv_neighbors V i HasGotcha))"

definition context_gotchas ::
  "('t, 'x, 'v, 'j) store_api \<Rightarrow> ('j, FileRecord) serde \<Rightarrow> graph_view \<Rightarrow> ('t, 'x) Store \<Rightarrow> string list \<Rightarrow> string set" where
  "context_gotchas A F V S files =
     (\<Union>key\<in>{key. key \<in> context_key ` set files \<and> shown_file A S key}. recorded_keys A F S key \<union> reached_keys V key)"

lemma scan_edges_gotchas: "set (ps_gotchas (scan_edges V key st)) = set (ps_gotchas st) \<union> reached_keys V key"
  by (auto simp: scan_edges_def reached_keys_def Let_def)

lemma scan_payload_gotchas:
  "set (ps_gotchas (scan_payload F key r st))
     = set (ps_gotchas st) \<union> (case payload_as (from_value F) r of Some fr \<Rightarrow> set (f_gotcha_keys fr) | None \<Rightarrow> {})"
  by (auto simp: scan_payload_def split: option.splits)

lemma scan_warning_gotchas [simp]: "ps_gotchas (scan_warning key r st) = ps_gotchas st"
  by (simp add: scan_warning_def split: option.split)

lemma scan_file_gotchas:
  "set (ps_gotchas (scan_file A F V S st file)) = set (ps_gotchas st)
     \<union> (if shown_file A S (context_key file) then recorded_keys A F S (context_key file) \<union> reached_keys V (context_key file) else {})"
proof (cases "store_get A S (context_key file)")
  case (Inr m)
  then show ?thesis
    by (cases m) (auto simp: scan_file_def shown_file_def recorded_keys_def Let_def scan_edges_gotchas scan_payload_gotchas)
qed (auto simp: scan_file_def shown_file_def recorded_keys_def Let_def scan_edges_gotchas)

lemma scan_files_gotchas: "set (ps_gotchas (scan_files A F V S files)) = context_gotchas A F V S files"
proof -
  have "set (ps_gotchas (foldl (scan_file A F V S) st files)) = set (ps_gotchas st) \<union> context_gotchas A F V S files" for st
  proof (induction files arbitrary: st)
    case (Cons path paths)
    then show ?case by (auto simp: scan_file_gotchas context_gotchas_def split: if_splits)
  qed (simp add: context_gotchas_def)
  then show ?thesis by (simp add: scan_files_def)
qed

lemma set_get_records: "set (get_records A S keys) = {r. \<exists>k\<in>set keys. store_get A S k = Ok (Some r)}"
  unfolding get_records_def by (induction keys) (auto simp: List.map_filter_simps split: sum.splits option.splits)

definition reviewed_scan ::
  "('t, 'x, 'v, 'j) store_api \<Rightarrow> ('v, 'j, 's) daemon_api \<Rightarrow> graph_view \<Rightarrow> daemon_env \<Rightarrow> ('t, 'x) Store \<Rightarrow> string list \<Rightarrow> packet_scan" where
  "reviewed_scan A B V env S files =
     foldl (review_day A (sa_review (dm_session B)) S) (scan_files A (sa_file (dm_session B)) V S files)
       [se_date (dv_session env) (st_now (dv_ck env ''packet'')), se_date (dv_session env) (st_now (dv_ck env ''packet'') - 86400)]"

lemma assemble_parts:
  assumes "assemble_context_packet A B V env S files = Ok p"
  shows "\<exists>stage gotchas decisions. injectable_gotchas A (sa_gotcha (dm_session B)) V S files
        (ps_gotchas (scan_files A (sa_file (dm_session B)) V S files)) = Ok gotchas
      \<and> cp_critical_gotchas p = critical_of gotchas
      \<and> cp_injection_string p = join nl (sections_of stage (critical_of gotchas) (reviewed_scan A B V env S files) decisions) @ VECTOR_B
      \<and> cp_token_estimate p = word_of_nat (estimate_tokens (cp_injection_string p))"
proof -
  let ?S = "scan_files A (sa_file (dm_session B)) V S files"
  obtain stage gotchas where a: "store_get A S ''stage:current'' = Ok stage" "injectable_gotchas A (sa_gotcha (dm_session B)) V S files (ps_gotchas ?S) = Ok gotchas"
    using assms by (auto simp: assemble_context_packet_def rbind_def Let_def split: sum.splits)
  then show ?thesis using assms
    by (intro exI [of _ stage] exI [of _ gotchas] exI [of _ "decisions_for A V S (ps_decisions ?S)"])
      (auto simp: assemble_context_packet_def rbind_def Let_def reviewed_scan_def)
qed

text \<open>
  C19. The packet shows exactly what the gate enforces and the context leads to. For files of a context, the gotchas of the packet are the active records above
  the quality threshold, confirmed or derived from the history, that are not suppressed and whose keys a visible file's record, an edge of the file, or
  an edge of a file it imports names; those with the higher score come first. So an enforceable gotcha that a visible file's record names is in the packet.
\<close>

theorem packet_gotchas_exact:
  assumes "assemble_context_packet A B V env S files = Ok p" "files \<noteq> []" "\<And>xs. set (gv_set_order V xs) = set xs"
  shows "set (cp_critical_gotchas p)
      = {r. \<exists>k\<in>context_gotchas A (sa_file (dm_session B)) V S files. store_get A S k = Ok (Some r)
            \<and> is_injectable_gotcha (sa_gotcha (dm_session B)) r \<and> q_tier (r_quality r) \<noteq> Suppressed}
    \<and> ((\<forall>k r. store_get A S k = Ok (Some r) \<longrightarrow> gotcha_score r \<noteq> NaN) \<longrightarrow> falling gotcha_score (cp_critical_gotchas p))"
proof -
  let ?F = "sa_file (dm_session B)" and ?G = "sa_gotcha (dm_session B)"
  obtain gotchas where g: "injectable_gotchas A ?G V S files (ps_gotchas (scan_files A ?F V S files)) = Ok gotchas"
    and c: "cp_critical_gotchas p = critical_of gotchas"
    using assemble_parts [OF assms(1)] by blast
  have set: "set gotchas = {r. \<exists>k\<in>context_gotchas A ?F V S files. store_get A S k = Ok (Some r) \<and> is_injectable_gotcha ?G r}"
    using g assms(2,3) by (auto simp: injectable_gotchas_def set_get_records scan_files_gotchas)
  have "falling gotcha_score (critical_of gotchas)" if n: "\<forall>k r. store_get A S k = Ok (Some r) \<longrightarrow> gotcha_score r \<noteq> NaN"
  proof -
    have "\<forall>r\<in>set gotchas. gotcha_score r \<noteq> NaN" using n set by blast
    then show ?thesis using sort_by_desc_falling [of gotchas gotcha_score] by (simp add: critical_of_def falling_def sorted_wrt_filter)
  qed
  then show ?thesis using set by (auto simp: c critical_of_def)
qed

subsection \<open>The budget\<close>

lemma estimate_line:
  assumes "8 \<le> length l"
  shows "2 * length l \<le> 11 * estimate_tokens l"
proof -
  have "length l = 4 * estimate_tokens l + length l mod 4" by (simp add: estimate_tokens_def)
  moreover have "length l mod 4 < 4" by simp
  moreover have "2 \<le> estimate_tokens l" using div_le_mono [OF assms, of 4] by (simp add: estimate_tokens_def)
  ultimately show ?thesis by linarith
qed

lemma fit_lines_budget:
  assumes "fit_lines used ls = (body, u)" "\<forall>l\<in>set ls. 8 \<le> length l" "used \<le> available_tokens"
  shows "used \<le> u \<and> u \<le> available_tokens \<and> 2 * length body + 11 * used \<le> 11 * u"
  using assms
proof (induction ls arbitrary: used body)
  case (Cons l ls)
  show ?case
  proof (cases "available_tokens < used + estimate_tokens l")
    case False
    obtain body1 where b: "fit_lines (used + estimate_tokens l) ls = (body1, u)" "body = l @ body1"
      using Cons.prems(1) False by (auto split: prod.splits)
    have "2 * length l \<le> 11 * estimate_tokens l" using Cons.prems(2) by (intro estimate_line) simp
    moreover have "used + estimate_tokens l \<le> u \<and> u \<le> available_tokens \<and> 2 * length body1 + 11 * (used + estimate_tokens l) \<le> 11 * u"
      using Cons.IH [OF b(1)] Cons.prems(2) False by simp
    ultimately show ?thesis unfolding b(2) length_append distrib_left by linarith
  qed (use Cons.prems in simp)
qed simp

text \<open>At most one section whose length is bounded by its heading and by the tokens it uses.\<close>

definition section_ok :: "nat \<Rightarrow> nat \<Rightarrow> string list \<times> nat \<Rightarrow> bool" where
  "section_ok h used su \<longleftrightarrow> (case su of (secs, u) \<Rightarrow>
     used \<le> u \<and> u \<le> available_tokens \<and> length secs \<le> 1 \<and> 2 * length (concat secs) + 11 * used \<le> 2 * h + 11 * u)"

lemma section_of_ok:
  assumes "\<forall>l\<in>set ls. 8 \<le> length l" "used \<le> available_tokens"
  shows "section_ok (length header + 1) used (section_of header ls used)"
proof -
  obtain body u where b: "fit_lines used ls = (body, u)" by force
  show ?thesis using fit_lines_budget [OF b assms] by (simp add: section_of_def section_ok_def b nl_def)
qed

lemma gotcha_section_ok:
  assumes "used \<le> available_tokens"
  shows "section_ok 11 used (gotcha_section rs used)"
proof -
  let ?ls = "map gotcha_line (filter (\<lambda>r. \<not> starts_with (r_key r) ''gotcha:cochange:'') rs)" and ?l = "cochange_line (cochange_pairs rs)"
  obtain body u where b: "fit_lines used ?ls = (body, u)" by force
  have "\<forall>l\<in>set ?ls. 8 \<le> length l" by (simp add: gotcha_line_def bold_def nl_def)
  note f = fit_lines_budget [OF b this assms]
  have "8 \<le> length ?l" by (simp add: cochange_line_def)
  note l = estimate_line [OF this]
  let ?fits = "cochange_pairs rs \<noteq> [] \<and> u + estimate_tokens ?l \<le> available_tokens"
  have g: "gotcha_section rs used = (let body1 = (if ?fits then body @ ?l else body)
      in (if body1 = [] then [] else [''## Gotchas'' @ nl @ body1], if ?fits then u + estimate_tokens ?l else u))"
    by (simp add: gotcha_section_def b Let_def)
  show ?thesis
  proof (cases ?fits)
    case True
    then have "section_ok 11 used ([''## Gotchas'' @ nl @ body @ ?l], u + estimate_tokens ?l)"
      using f l by (simp add: section_ok_def nl_def)
    moreover have "?l \<noteq> []" by (simp add: cochange_line_def)
    ultimately show ?thesis using True by (auto simp: g)
  next
    case False
    then have "gotcha_section rs used = (if body = [] then [] else [''## Gotchas'' @ nl @ body], u)" unfolding g Let_def by (simp only: if_False)
    then show ?thesis using f by (simp add: section_ok_def nl_def)
  qed
qed

lemma stage_section_ok: "section_ok 0 0 (stage_section stage 0)"
proof (cases stage)
  case (Some r)
  have "8 \<le> length (''## Current Stage'' @ nl @ r_value r @ nl)" by simp
  from estimate_line [OF this] show ?thesis by (simp add: Some stage_section_def section_ok_def Let_def)
qed (simp add: stage_section_def section_ok_def)

definition warnings_ok :: "packet_scan \<Rightarrow> bool" where
  "warnings_ok st \<longleftrightarrow> (\<forall>w\<in>set (ps_warnings st). 5 \<le> length w)"

lemma stale_warning_length: "stale_warning key r = Some w \<Longrightarrow> 5 \<le> length w"
  by (auto simp: stale_warning_def ticked_def split: StalenessTier.splits)

lemma scan_warnings:
  "ps_warnings (scan_edges V key st) = ps_warnings st" "ps_warnings (scan_payload F key r st) = ps_warnings st"
  "warnings_ok st \<Longrightarrow> warnings_ok (scan_warning key r st)"
  using stale_warning_length
  by (auto simp: scan_edges_def scan_payload_def scan_warning_def warnings_ok_def Let_def split: option.split)

lemma scan_warnings_ok [simp]:
  "warnings_ok (scan_edges V key st) \<longleftrightarrow> warnings_ok st" "warnings_ok (scan_payload F key r st) \<longleftrightarrow> warnings_ok st"
  by (simp_all only: warnings_ok_def scan_warnings)

lemma scan_file_warnings: "warnings_ok st \<Longrightarrow> warnings_ok (scan_file A F V S st path)"
  by (simp add: scan_file_def Let_def scan_warnings(3) split: sum.split option.split)

lemma review_entry_warnings: "warnings_ok st \<Longrightarrow> warnings_ok (review_entry st e)"
  by (simp add: review_entry_def warnings_ok_def ticked_def)

lemma review_day_warnings: "warnings_ok st \<Longrightarrow> warnings_ok (review_day A R S st date)"
proof -
  have "warnings_ok st \<Longrightarrow> warnings_ok (foldl review_entry st es)" for st es
    by (induction es arbitrary: st) (simp_all add: review_entry_warnings)
  then show "warnings_ok st \<Longrightarrow> warnings_ok (review_day A R S st date)"
    by (simp add: review_day_def split: sum.split option.split)
qed

lemma packet_warnings: "warnings_ok (foldl (review_day A R S) (scan_files A F V S files) dates)"
proof -
  have "warnings_ok st \<Longrightarrow> warnings_ok (foldl (scan_file A F V S) st files)" for st
    by (induction files arbitrary: st) (simp_all add: scan_file_warnings)
  moreover have "warnings_ok \<lparr> ps_files = [], ps_gotchas = [], ps_decisions = [], ps_candidates = [], ps_warnings = [], ps_seen = [] \<rparr>"
    by (simp add: warnings_ok_def)
  ultimately have "warnings_ok (scan_files A F V S files)" unfolding scan_files_def by blast
  moreover have "warnings_ok st \<Longrightarrow> warnings_ok (foldl (review_day A R S) st dates)" for st
    by (induction dates arbitrary: st) (simp_all add: review_day_warnings)
  ultimately show ?thesis by blast
qed

lemma join_length: "length (join nl secs) \<le> length (concat secs) + (length secs - 1)"
proof (induction secs)
  case (Cons s secs)
  then show ?case by (cases secs) (simp_all add: nl_def)
qed simp

lemma sections_length:
  assumes "warnings_ok st"
  shows "2 * length (join nl (sections_of stage gotchas st decisions)) \<le> 220 + 11 * available_tokens"
proof -
  obtain s1 u1 where s1: "stage_section stage 0 = (s1, u1)" by force
  obtain s2 u2 where s2: "gotcha_section gotchas u1 = (s2, u2)" by force
  let ?l3 = "map (\<lambda>fr. ''- '' @ bold (f_path fr) @ '': '' @ f_purpose fr @ nl) (filter (\<lambda>fr. f_purpose fr \<noteq> []) (ps_files st))"
  let ?l4 = "map impact_line (impact_files (ps_files st))" and ?l5 = "map (\<lambda>w. ''- '' @ w @ nl) (ps_warnings st)"
  let ?l6 = "map (\<lambda>r. ''- '' @ bold (r_key r) @ '': '' @ r_value r @ nl) decisions" and ?l7 = "map nudge_line (ps_candidates st)"
  obtain s3 u3 where s3: "section_of ''## Context Files'' ?l3 u2 = (s3, u3)" by force
  obtain s4 u4 where s4: "section_of ''## Highest Impact Files'' ?l4 u3 = (s4, u4)" by force
  obtain s5 u5 where s5: "section_of ''## Stale Warnings'' ?l5 u4 = (s5, u5)" by force
  obtain s6 u6 where s6: "section_of ''## Decisions'' ?l6 u5 = (s6, u6)" by force
  obtain s7 u7 where s7: "section_of ''## Suggested Actions'' ?l7 u6 = (s7, u7)" by force
  note d = section_ok_def
  have 1: "u1 \<le> available_tokens" "length s1 \<le> 1" "2 * length (concat s1) \<le> 11 * u1" using stage_section_ok [of stage] s1 by (simp_all add: d)
  have 2: "u1 \<le> u2" "u2 \<le> available_tokens" "length s2 \<le> 1" "2 * length (concat s2) + 11 * u1 \<le> 22 + 11 * u2"
    using gotcha_section_ok [OF 1(1), of gotchas] s2 by (simp_all add: d)
  have 3: "u2 \<le> u3" "u3 \<le> available_tokens" "length s3 \<le> 1" "2 * length (concat s3) + 11 * u2 \<le> 34 + 11 * u3"
    using section_of_ok [OF _ 2(2), of ?l3 "''## Context Files''"] s3 by (simp_all add: d bold_def nl_def)
  have 4: "u3 \<le> u4" "u4 \<le> available_tokens" "length s4 \<le> 1" "2 * length (concat s4) + 11 * u3 \<le> 48 + 11 * u4"
    using section_of_ok [OF _ 3(2), of ?l4 "''## Highest Impact Files''"] s4 by (simp_all add: d impact_line_def split: prod.splits)
  have 5: "u4 \<le> u5" "u5 \<le> available_tokens" "length s5 \<le> 1" "2 * length (concat s5) + 11 * u4 \<le> 36 + 11 * u5"
    using section_of_ok [OF _ 4(2), of ?l5 "''## Stale Warnings''"] s5 assms by (simp_all add: d warnings_ok_def nl_def)
  have 6: "u5 \<le> u6" "u6 \<le> available_tokens" "length s6 \<le> 1" "2 * length (concat s6) + 11 * u5 \<le> 26 + 11 * u6"
    using section_of_ok [OF _ 5(2), of ?l6 "''## Decisions''"] s6 by (simp_all add: d bold_def nl_def)
  have 7: "u6 \<le> u7" "u7 \<le> available_tokens" "length s7 \<le> 1" "2 * length (concat s7) + 11 * u6 \<le> 42 + 11 * u7"
    using section_of_ok [OF _ 6(2), of ?l7 "''## Suggested Actions''"] s7 by (simp_all add: d nudge_line_def)
  have e: "sections_of stage gotchas st decisions = s1 @ s2 @ s3 @ s4 @ s5 @ s6 @ s7"
    by (simp only: sections_of_def s1 s2 s3 s4 s5 s6 s7 prod.case)
  have "2 * length (concat (s1 @ s2 @ s3 @ s4 @ s5 @ s6 @ s7)) \<le> 208 + 11 * u7"
    unfolding concat_append length_append distrib_left using 1(3) 2(1,4) 3(1,4) 4(1,4) 5(1,4) 6(1,4) 7(1,4) by linarith
  moreover have "length (s1 @ s2 @ s3 @ s4 @ s5 @ s6 @ s7) \<le> 7"
    unfolding length_append using 1(2) 2(3) 3(3) 4(3) 5(3) 6(3) 7(3) by linarith
  ultimately show ?thesis using join_length [of "s1 @ s2 @ s3 @ s4 @ s5 @ s6 @ s7"] 7(2) unfolding e by linarith
qed

lemma VECTOR_B_length: "length VECTOR_B = 251"
  by (simp add: VECTOR_B_def nl_def quoted_def arrow_def)

text \<open>
  C31. The packet is bounded: whatever the records hold, the estimate of its tokens is the length of its text over 4 and at most 2,734. (The sections are cut at
  1,923 estimated tokens, but each line is rounded down and headings and separators are not counted, so that the budget of 2,000 can be exceeded by about a third.)
\<close>

theorem packet_budget:
  fixes p :: "'j ContextPacket"
  assumes "assemble_context_packet A B V env S files = Ok p"
  shows "length (cp_injection_string p) \<le> 10938 \<and> unat (cp_token_estimate p) = length (cp_injection_string p) div 4 \<and> cp_token_estimate p \<le> 2734"
proof -
  let ?st = "reviewed_scan A B V env S files"
  obtain stage :: "'j Record option" and gotchas decisions :: "'j Record list" where p: "cp_injection_string p = join nl (sections_of stage (critical_of gotchas) ?st decisions) @ VECTOR_B"
    "cp_token_estimate p = word_of_nat (estimate_tokens (cp_injection_string p))"
    using assemble_parts [OF assms] by blast
  have "warnings_ok ?st" unfolding reviewed_scan_def by (rule packet_warnings)
  from sections_length [OF this, of stage "critical_of gotchas" decisions]
  have l: "length (cp_injection_string p) \<le> 10938"
    by (simp add: p(1) VECTOR_B_length available_tokens_def TOKEN_BUDGET_def VECTOR_B_TOKENS_def)
  then have e: "estimate_tokens (cp_injection_string p) \<le> 2734" by (simp add: estimate_tokens_def)
  then have u: "unat (cp_token_estimate p) = estimate_tokens (cp_injection_string p)"
    by (simp add: p(2) unsigned_of_nat take_bit_nat_eq_self)
  then show ?thesis using l e by (simp add: estimate_tokens_def word_le_nat_alt)
qed

subsection \<open>Slots\<close>

definition topped :: "nat list \<Rightarrow> nat \<Rightarrow> nat list" where
  "topped ns r = map (\<lambda>n. min n r) ns"

definition one_round :: "nat list \<Rightarrow> nat \<Rightarrow> nat \<Rightarrow> nat list \<Rightarrow> nat \<Rightarrow> bool" where
  "one_round ns r remaining qs left \<longleftrightarrow> length qs = length ns \<and> sum_list qs + left = sum_list (topped ns r) + remaining
     \<and> (\<forall>i<length ns. min (ns ! i) r \<le> qs ! i \<and> qs ! i \<le> min (ns ! i) (Suc r))
     \<and> (0 < left \<longrightarrow> qs = topped ns (Suc r)) \<and> (left = remaining \<longrightarrow> 0 < remaining \<longrightarrow> topped ns r = ns)"

lemma one_round_Cons:
  assumes "one_round ns r (if 0 < remaining \<and> min n r < n then remaining - 1 else remaining) qs left"
    and "left \<le> (if 0 < remaining \<and> min n r < n then remaining - 1 else remaining)"
  shows "one_round (n # ns) r remaining ((if 0 < remaining \<and> min n r < n then min n r + 1 else min n r) # qs) left"
proof -
  let ?more = "0 < remaining \<and> min n r < n"
  define q where "q = (if ?more then min n r + 1 else min n r)"
  note a = assms [unfolded one_round_def]
  have q: "min n r \<le> q" "q \<le> min n (Suc r)" by (auto simp: q_def)
  have "sum_list (q # qs) + left = sum_list (topped (n # ns) r) + remaining" using a by (auto simp: q_def topped_def)
  moreover have "\<forall>i<length (n # ns). min ((n # ns) ! i) r \<le> (q # qs) ! i \<and> (q # qs) ! i \<le> min ((n # ns) ! i) (Suc r)"
    using a q by (auto simp: nth_Cons split: nat.split)
  moreover have "q # qs = topped (n # ns) (Suc r)" if "0 < left"
  proof -
    have "q = min n (Suc r)" using that a(2) by (auto simp: q_def split: if_splits)
    then show ?thesis using a(1) that by (simp add: topped_def)
  qed
  moreover have "topped (n # ns) r = n # ns" if "left = remaining" "0 < remaining"
  proof -
    have "\<not> ?more" using that a(2) by (auto simp: min_def split: if_splits)
    then show ?thesis using a(1) that by (auto simp: topped_def)
  qed
  ultimately show ?thesis using a(1) unfolding one_round_def q_def [symmetric] by simp
qed

lemma hand_out_round: "hand_out ns (topped ns r) remaining = (qs, left) \<Longrightarrow> one_round ns r remaining qs left"
proof (induction ns arbitrary: remaining qs left)
  case (Cons n ns)
  let ?rem = "if 0 < remaining \<and> min n r < n then remaining - 1 else remaining"
  obtain qs1 where h: "hand_out ns (topped ns r) ?rem = (qs1, left)"
    and q: "qs = (if 0 < remaining \<and> min n r < n then min n r + 1 else min n r) # qs1"
    using Cons.prems by (cases "0 < remaining \<and> min n r < n") (auto simp: topped_def split: prod.splits)
  show ?case unfolding q by (rule one_round_Cons [OF Cons.IH [OF h] hand_out_less [OF h]])
qed (simp add: one_round_def topped_def)

definition fair_slots :: "nat list \<Rightarrow> nat \<Rightarrow> nat list \<Rightarrow> nat \<Rightarrow> bool" where
  "fair_slots ns limit qs left \<longleftrightarrow> length qs = length ns \<and> sum_list qs + left = limit \<and> (\<forall>i<length ns. qs ! i \<le> ns ! i)
     \<and> (left = 0 \<or> qs = ns) \<and> (\<forall>i<length ns. \<forall>j<length ns. qs ! i < ns ! i \<longrightarrow> qs ! j \<le> qs ! i + 1)"

lemma topped_fair: "sum_list (topped ns r) + left = limit \<Longrightarrow> left = 0 \<or> topped ns r = ns \<Longrightarrow> fair_slots ns limit (topped ns r) left"
  by (auto simp: fair_slots_def topped_def)

lemma allocate_fair:
  "sum_list (topped ns r) + remaining = limit \<Longrightarrow>
   case allocate ns (topped ns r) remaining of (qs, left) \<Rightarrow> fair_slots ns limit qs left"
proof (induction remaining arbitrary: r rule: less_induct)
  case (less remaining)
  obtain qs left where h: "hand_out ns (topped ns r) remaining = (qs, left)" by force
  note o = hand_out_round [OF h, unfolded one_round_def]
  consider (none) "remaining = 0" | (all) "remaining \<noteq> 0" "left = remaining" | (last) "left = 0" "left < remaining" | (more) "0 < left" "left < remaining"
    using hand_out_less [OF h] by linarith
  then show ?case
  proof cases
    case none
    then show ?thesis using topped_fair [of ns r 0 limit] less.prems by (simp add: allocate.simps [of ns "topped ns r" 0])
  next
    case all
    then have "topped ns r = ns" using o by simp
    then show ?thesis using all topped_fair [of ns r remaining limit] less.prems h by (simp add: allocate.simps [of ns ns remaining])
  next
    case last
    have "fair_slots ns limit qs 0" unfolding fair_slots_def
    proof (intro conjI allI impI disjI1)
      fix i j assume "i < length ns" "j < length ns" "qs ! i < ns ! i"
      moreover from this have "min (ns ! i) r \<le> qs ! i" "qs ! j \<le> min (ns ! j) (Suc r)" using o by blast+
      ultimately show "qs ! j \<le> qs ! i + 1" by (simp add: min_def split: if_splits)
    qed (use o last less.prems in \<open>auto simp: min_def split: if_splits\<close>)
    then show ?thesis using last h by (simp add: allocate.simps [of ns "topped ns r" remaining] allocate.simps [of ns qs 0])
  next
    case more
    then have q: "qs = topped ns (Suc r)" using o by blast
    then have "sum_list (topped ns (Suc r)) + left = limit" using o less.prems by simp
    from less.IH [OF more(2) this] show ?thesis
      using more h by (simp add: allocate.simps [of ns "topped ns r" remaining] q)
  qed
qed

lemma group_slots_fair:
  "case group_slots V q limit of (qs, left) \<Rightarrow> fair_slots (map length (group_keys V q)) limit qs left"
proof -
  have "replicate (length EDGE_GROUPS) 0 = topped (map length (group_keys V q)) 0"
    by (simp add: topped_def group_keys_def map_replicate_const comp_def)
  moreover have "sum_list (topped ns 0) = 0" for ns by (induction ns) (simp_all add: topped_def)
  ultimately show ?thesis unfolding group_slots_def using allocate_fair [of "map length (group_keys V q)" 0 limit limit] by simp
qed

lemma length_active_records: "length (active_records A S keys) \<le> length keys"
proof -
  have "length (get_records A S keys) \<le> length keys"
    unfolding get_records_def by (induction keys) (auto simp: List.map_filter_simps split: sum.splits option.splits)
  then show ?thesis unfolding active_records_def using length_filter_le order_trans by blast
qed

text \<open>
  C40. A graph query shares its slots fairly and ends: each group gets at most what it has, all slots are used or every group is shown in full, and a group that
  was cut is at most one slot behind any other; every record shown is active, and the groups together with the records a dependency affects never show more than the limit.
\<close>

theorem graph_query_fair:
  "case group_slots V q limit of (qs, left) \<Rightarrow> fair_slots (map length (group_keys V q)) limit qs left
   \<and> sum_list (map length (group_records A V S q limit)) + length (dependency_records A V S q limit) \<le> limit
   \<and> list_all (\<lambda>r. r_lifecycle r = Active) (concat (group_records A V S q limit) @ dependency_records A V S q limit)"
proof -
  obtain qs left where g: "group_slots V q limit = (qs, left)" by force
  then have f: "fair_slots (map length (group_keys V q)) limit qs left" using group_slots_fair [of V q limit] by simp
  have "sum_list (map length (map (\<lambda>(keys, slots). active_records A S (take slots keys)) (zip kss qs))) \<le> sum_list qs" for kss
  proof (induction kss qs rule: list_induct2')
    case (4 ks kss n qs)
    have "length (active_records A S (take n ks)) \<le> n" using length_active_records [of A S "take n ks"] by simp
    then show ?case using 4 by simp
  qed simp_all
  then have "sum_list (map length (group_records A V S q limit)) \<le> sum_list qs" unfolding group_records_def g fst_conv .
  moreover have "length (dependency_records A V S q limit) \<le> left"
    using length_active_records [of A S "take (min DECISION_LIMIT left) (gv_neighbors V q DependencyAffects)"] by (simp add: dependency_records_def g)
  moreover have "sum_list qs + left = limit" using f by (simp add: fair_slots_def)
  moreover have "\<forall>r\<in>set (active_records A S keys). r_lifecycle r = Active" for keys by (simp add: active_records_def is_active_def)
  ultimately show ?thesis using f by (auto simp: g group_records_def dependency_records_def list_all_iff)
qed

end
