(* ===== verification/Agent_Reads_Spec.thy ===== *)
theory Agent_Reads_Spec
  imports Packet_Spec Dispatch_Spec Gate
begin

section \<open>The start of a session and the gate\<close>

text \<open>
  A session that starts with a list of files has consulted them all, as far as the gate can tell: each gets a receipt in the transaction of
  the request, whether the packet could be assembled or not.
\<close>

declare starts_with_Cons [simp del]

lemma apply_ops_written: "k \<in> fst ` set ops \<Longrightarrow> \<exists>v. (k, v) \<in> set ops \<and> apply_ops ops m k = v"
proof (induction ops arbitrary: m)
  case (Cons kv ops)
  show ?case
  proof (cases "k \<in> fst ` set ops")
    case True
    from Cons.IH [OF this, of "m(fst kv := snd kv)"] obtain v where "(k, v) \<in> set ops" "apply_ops ops (m(fst kv := snd kv)) k = v" by blast
    then show ?thesis by (intro exI [of _ v]) simp
  next
    case False
    then have "fst kv = k" using Cons.prems by auto
    then show ?thesis using False by (intro exI [of _ "snd kv"]) auto
  qed
qed simp

lemma context_key_file: "starts_with (context_key file) ''file:''"
  by (simp add: context_key_def starts_with_iff)

lemma receipt_not_context [simp]: "receipt_key k actor \<noteq> context_key file"
proof
  assume "receipt_key k actor = context_key file"
  then have "starts_with (receipt_key k actor) ''file:''" using context_key_file by metis
  then show False by (simp add: receipt_key_def starts_with_iff split: option.splits)
qed

lemma receipt_not_today [simp]:
  "receipt_key k actor \<noteq> today_key env ''analytics:hit_''" "receipt_key k actor \<noteq> today_key env ''analytics:bootstrap_''"
  by (simp_all add: receipt_key_def today_key_def split: option.split)

lemma bootstrap_eventual [simp]: "for_key (today_key env ''analytics:bootstrap_'') = Eventual"
  using eventual_keys(3) [of env SE_Bootstrap] by simp

context live_store
begin

lemma staged_opt_set: "kv \<in> set (staged_opt m) \<longleftrightarrow> m = Inr kv"
  by (cases m) (auto simp: staged_opt_def)

lemma receipt_staged: "consultation_receipt_staged A st key actor = Inr kv \<longleftrightarrow>
    (\<exists>b. kv = (receipt_key key actor, b) \<and> enc_record A (session_record st (receipt_key key actor) []) = Some b)"
  by (auto simp: consultation_receipt_staged_def staged_def Let_def split: option.splits)

lemma agg_staged_key: "upsert_daily_agg_staged A D st S k t = Inr kv \<Longrightarrow> fst kv = k"
  by (auto simp: upsert_daily_agg_staged_def rbind_def dest!: staged_cases split: sum.splits)

lemma bootstrap_write_cases:
  assumes "kv \<in> set (bootstrap_writes A B env S files)"
  shows "(\<exists>st file. file \<in> set files \<and> consultation_receipt_staged A st (context_key file) None = Inr kv)
    \<or> fst kv = today_key (dv_session env) ''analytics:hit_'' \<or> fst kv = today_key (dv_session env) ''analytics:bootstrap_''"
proof -
  from assms consider (boot) "upsert_daily_agg_staged A (sa_agg (dm_session B)) (dv_ck env ''bootstrap'') S
        (today_key (dv_session env) ''analytics:bootstrap_'') ''__bootstrap__'' = Inr kv"
    | (ctx) f where "f \<in> set files" "kv \<in> set (context_writes A B env S f)"
    by (auto simp: bootstrap_writes_def staged_opt_set)
  then show ?thesis
  proof cases
    case boot
    then show ?thesis using agg_staged_key [OF boot] by blast
  next
    case ctx
    then consider "consultation_receipt_staged A (dv_ck env (''receipt '' @ f)) (context_key f) None = Inr kv"
      | "upsert_daily_agg_staged A (sa_agg (dm_session B)) (dv_ck env (''agg '' @ f)) S (today_key (dv_session env) ''analytics:hit_'') (context_key f) = Inr kv"
      by (auto simp: context_writes_def staged_opt_set Let_def)
    then show ?thesis using ctx(1) agg_staged_key by cases blast+
  qed
qed

lemma bootstrap_eventual_writes: "kv \<in> set (bootstrap_writes A B env S files) \<Longrightarrow> for_key (fst kv) = Eventual"
  using bootstrap_write_cases [of kv B env S files] by (auto simp: receipt_staged)

lemma bumps_changes:
  "changes (context_key ` set files) S (foldl (\<lambda>S file. bump_access A (now file) (context_key file) S) S files)"
proof (induction files arbitrary: S)
  case (Cons path paths)
  have "changes {context_key path} S (bump_access A (now path) (context_key path) S)" by (rule bump_access_changes)
  from changes_trans [OF this Cons.IH] show ?case by simp
qed (simp add: changes_def)

lemma bootstrap_receipt_written:
  assumes "live (sessions S)" "file \<in> set files" "ak \<in> audit_session_keys"
  shows "\<exists>S1 st b. transact_sessions_raw A S (bootstrap_writes A B env S files @ [(ak, v)]) = (S1, Inr ())
    \<and> content S1 (receipt_key (context_key file) None) = Some b \<and> dec_record A b = Some (session_record st (receipt_key (context_key file) None) [])"
proof -
  let ?ws = "bootstrap_writes A B env S files @ [(ak, v)]" and ?rk = "receipt_key (context_key file) None"
  have ev: "\<forall>kv\<in>set ?ws. for_key (fst kv) = Eventual" using bootstrap_eventual_writes assms(3) by auto
  obtain S1 where "commit_on A S Eventual (map (\<lambda>kv. (fst kv, Some (snd kv))) ?ws) = (S1, Inr ())" using sessions_commit [OF assms(1)] .
  moreover have "find (\<lambda>kv. for_key (fst kv) \<noteq> Eventual) ?ws = None" using ev by (auto simp: find_None_iff)
  ultimately have t: "transact_sessions_raw A S ?ws = (S1, Inr ())" by (simp add: transact_sessions_raw_def)
  obtain b0 where "enc_record A (session_record (dv_ck env (''receipt '' @ file)) ?rk []) = Some b0" using enc_total by blast
  then have "(?rk, b0) \<in> set (context_writes A B env S file)" by (auto simp: context_writes_def Let_def staged_opt_set receipt_staged)
  then have "(?rk, b0) \<in> set ?ws" using assms(2) by (auto simp: bootstrap_writes_def)
  then have "?rk \<in> fst ` set (map (\<lambda>kv. (fst kv, Some (snd kv))) ?ws)" by force
  from apply_ops_written [OF this, of "content S"] obtain w
    where w: "(?rk, w) \<in> set (map (\<lambda>kv. (fst kv, Some (snd kv))) ?ws)" "content S1 ?rk = w"
    unfolding transact_sessions_ok [OF t] by blast
  from w(1) obtain b where b: "(?rk, b) \<in> set ?ws" "w = Some b" by force
  have "?rk \<noteq> ak" using assms(3) receipt_not_audit by metis
  then have "(?rk, b) \<in> set (bootstrap_writes A B env S files)" using b(1) by auto
  from bootstrap_write_cases [OF this] obtain st f where "consultation_receipt_staged A st (context_key f) None = Inr (?rk, b)" by auto
  then have "\<exists>st. enc_record A (session_record st ?rk []) = Some b" by (auto simp: receipt_staged)
  then show ?thesis using t b(2) w(2) dec_enc by blast
qed

lemma bootstrap_receipts:
  assumes "sound (a_store a)" "live (sessions (a_store a))" "\<And>e. dm_audit B e \<noteq> None" "file \<in> set files"
  shows "check_consulted A (a_store (fst (handle_mem_bootstrap A B V env ctx request_id files a))) (context_key file) None = Ok True"
proof -
  let ?asm = "assemble_context_packet A B V env (a_store a) files"
  let ?acc = "case ?asm of Inr _ \<Rightarrow> True | Inl _ \<Rightarrow> False" and ?rk = "receipt_key (context_key file) None"
  obtain v where v: "make_session_audit B env ctx ''accepted'' request_id ''mem_bootstrap'' [] ?acc (if ?acc then None else Some Internal)
      = Some (audit_nanos_key env ''accepted'' AUDIT_SESSION_PREFIX, v)"
    using assms(3) by (fastforce simp: make_session_audit_def make_audit_with_prefix_def)
  obtain S1 st b where t: "transact_sessions_raw A (a_store a) (bootstrap_writes A B env (a_store a) files @ [(audit_nanos_key env ''accepted'' AUDIT_SESSION_PREFIX, v)])
      = (S1, Inr ())" and b: "content S1 ?rk = Some b" "dec_record A b = Some (session_record st ?rk [])"
    using bootstrap_receipt_written [OF assms(2,4) audit_session_key] by blast
  let ?S2 = "case ?asm of Inl _ \<Rightarrow> S1
    | Inr _ \<Rightarrow> foldl (\<lambda>S file. bump_access A (st_now (dv_ck env (''access '' @ file))) (context_key file) S) S1 files"
  have "changes (context_key ` set files) S1 ?S2"
    using bumps_changes [where now = "\<lambda>file. st_now (dv_ck env (''access '' @ file))"] by (auto simp: changes_def split: sum.split)
  note c = this
  have "?rk \<notin> context_key ` set files" by auto
  then have "content ?S2 ?rk = Some b" using changes_content [OF c] b(1) by simp
  moreover have "sound S1" using transact_sessions_changes(1) [OF t] assms(1) by (simp add: changes_def)
  then have "sound ?S2" using c by (simp add: changes_def)
  moreover have "a_store (fst (handle_mem_bootstrap A B V env ctx request_id files a)) = ?S2"
    using v t by (cases ?asm) (simp_all add: handle_mem_bootstrap_def Let_def)
  ultimately show ?thesis using b(2) by (simp add: check_consulted_def store_get_content decode_as_def rbind_def)
qed

end

text \<open>
  C20. Starting a session counts as consulting its files. When the session tree accepts the writes, after the start with a list of files the gate takes each of them as
  consulted by an agent without an identity: whatever the daemon answers, also when it could not assemble the packet, and whether or not the gotchas of the
  file found room in it.
\<close>

theorem bootstrap_counts_as_consultation:
  assumes "live_store A view healthy live" "store_sound healthy (a_store a)" "live (sessions (a_store a))"
    and "\<And>e. dm_audit B e \<noteq> None" "file \<in> set files"
    and "handle_mem_bootstrap A B V env ctx request_id files a = (a', res)"
  shows "check_consulted A (a_store a') (context_key file) None = Ok True"
  using live_store.bootstrap_receipts [OF assms(1-5), of V env ctx request_id] assms(6) by simp

subsection \<open>Instances\<close>

definition demo_view :: graph_view where
  "demo_view = \<lparr> gv_neighbors = \<lambda>key kind. if kind = HasGotcha then [''gotcha:g''] else [], gv_set_order = rev \<rparr>"

definition demo_packet_api :: "((unit, jvalue) cell, jvalue, CanonicalEvent + CanonicalEventV2) daemon_api" where
  "demo_packet_api = demo_daemon_api\<lparr>dm_session := demo_session_api\<lparr>sa_gotcha :=
     \<lparr> to_value = \<lambda>_. None, from_value = \<lambda>j. Some (demo_gotcha_of []) \<rparr>\<rparr>\<rparr>"

definition demo_shown :: "jvalue Record" where
  "demo_shown = demo_confirmed\<lparr>r_quality := (r_quality demo_confirmed)\<lparr>q_tier := Good\<rparr>\<rparr>"

definition demo_packet_store :: demo_state where
  "demo_packet_store = demo_empty\<lparr>knowledge := empty_tree\<lparr>mt_cells :=
     [(''gotcha:g'', RecordCell demo_shown), (''file:a.rs'', RecordCell demo_gated_file)]\<rparr>\<rparr>"

lemma demo_packet_get:
  "store_get mem_store demo_packet_store ''stage:current'' = Ok None"
  "store_get mem_store demo_packet_store ''gotcha:g'' = Ok (Some demo_shown)"
  "store_get mem_store demo_packet_store ''file:a.rs'' = Ok (Some demo_gated_file)"
  by (simp_all add: store_get_def read_record_def tree_for_def tree_of_def demo_packet_store_def empty_store_def empty_tree_def mem_store_def mem_get_def
      for_key_def starts_with_def)

lemma demo_assembled: "\<exists>p. assemble_context_packet mem_store demo_packet_api demo_view demo_daemon_env demo_packet_store [''a.rs''] = Ok p"
  by (simp add: assemble_context_packet_def rbind_def Let_def demo_packet_get injectable_gotchas_def)

lemma demo_shown_injectable: "is_injectable_gotcha (sa_gotcha (dm_session demo_packet_api)) demo_shown \<and> q_tier (r_quality demo_shown) \<noteq> Suppressed"
proof -
  have "\<not> flt_lt (Fin 1) (r32 (4/10))" using r32_mono [of "4/10" 1] by (simp add: flt_lt_def)
  moreover have "s_tier (r_staleness demo_confirmed) \<noteq> Tombstone" by (simp add: demo_confirmed_def demo_record_def layer0_file_stub_def fresh_def)
  ultimately show ?thesis
    by (simp add: is_injectable_gotcha_def payload_as_def demo_gated_values demo_packet_api_def demo_shown_def demo_gotcha_of_def)
qed

theorem bootstrap_counts_as_consultation_witness:
  "check_consulted mem_store (a_store (fst (handle_mem_bootstrap mem_store demo_daemon_api demo_view demo_daemon_env demo_ctx 1 [''b'', ''a''] demo_session)))
     ''file:a'' None = Ok True"
proof -
  have r: "store_sound mem_healthy (a_store demo_session)" "\<not> mt_commit_fails (sessions (a_store demo_session))"
    using demo_session_facts(1) by (simp_all add: mem_live.running_def)
  have d: "dm_audit demo_daemon_api e \<noteq> None" for e by (simp add: demo_daemon_api_def)
  show ?thesis
    using bootstrap_counts_as_consultation [OF mem_live.live_store_axioms r d _ prod.collapse [symmetric], of "''a''" "[''b'', ''a'']" demo_view demo_daemon_env demo_ctx 1]
    by (simp add: context_key_def starts_with_def)
qed

theorem packet_gotchas_exact_witness:
  "\<exists>p. assemble_context_packet mem_store demo_packet_api demo_view demo_daemon_env demo_packet_store [''a.rs''] = Ok p \<and> demo_shown \<in> set (cp_critical_gotchas p)"
proof -
  obtain p where p: "assemble_context_packet mem_store demo_packet_api demo_view demo_daemon_env demo_packet_store [''a.rs''] = Ok p" using demo_assembled by blast
  have k: "context_key ''a.rs'' = ''file:a.rs''" by (simp add: context_key_def starts_with_def)
  have "shown_file mem_store demo_packet_store ''file:a.rs''"
    using demo_gated_values(1) by (auto simp: shown_file_def demo_packet_get hidden_file_def demo_gated_file_def demo_record_def layer0_file_stub_def fresh_def)
  then have "''gotcha:g'' \<in> context_gotchas mem_store (sa_file (dm_session demo_packet_api)) demo_view demo_packet_store [''a.rs'']"
    by (auto simp: context_gotchas_def k reached_keys_def demo_view_def)
  moreover have "set (gv_set_order demo_view xs) = set xs" for xs by (simp add: demo_view_def)
  ultimately show ?thesis
    using packet_gotchas_exact [OF p] demo_shown_injectable demo_packet_get(2) p by auto
qed

theorem packet_budget_witness:
  "\<exists>p. assemble_context_packet mem_store demo_packet_api demo_view demo_daemon_env demo_packet_store [''a.rs''] = Ok p \<and> cp_token_estimate p \<le> 2734"
proof -
  obtain p where p: "assemble_context_packet mem_store demo_packet_api demo_view demo_daemon_env demo_packet_store [''a.rs''] = Ok p" using demo_assembled by blast
  then show ?thesis using packet_budget [OF p] by blast
qed

end
