(* ===== verification/Spec2Isabelle.thy ===== *)
theory Spec2Isabelle
  imports Gate Audit_Steps Impact_Spec Repair_Full Gotcha_Spec Handlers_Spec Staleness_Spec Reparse_Spec Migrations_Spec
    Clusters_Spec Policy Agent_Reads_Spec
begin

text \<open>
  A verification development for mati, a knowledge store for coding agents that also enforces what it knows. Developers
  record rules ("gotchas") for files; a daemon keeps them with everything else it knows of a repository; hooks of the agents ask the daemon before a
  file is read or edited and deny the access while a confirmed rule has not been consulted; every decision is evidence in a hash-chained log.

  \<^bold>\<open>Parts of the program and their theories.\<close> Paths are below \<open>src/src\<close>.

  \<^item> Shared ground. \<open>Prelude\<close>: machine integers, results, strings and lists. \<open>Floats\<close>: the 32-bit floating point numbers that scores are made of, as
    rationals rounded by a parameter-free rounding function with infinities and not-a-number. \<open>Json_Api\<close>: what the code uses of \<open>serde_json\<close>.
  \<^item> Data. \<open>Record_Types\<close> (\<open>store/record.rs\<close>): records, their scores, tiers, versions and payload types as records and datatypes with the source's names.
  \<^item> The decision. \<open>Decide\<close> (\<open>hooks/decide.rs\<close>): shell command classification, wrapper stripping, path extraction, patch parsing, path normalisation and
    \<open>evaluate\<close>. \<open>Hook\<close> (\<open>cli/hook_decide.rs\<close>): the process that an agent's hook starts, from its input to the printed line, the exit code and the reported events.
    \<open>Evaluate\<close> (\<open>hook_evaluate\<close> of \<open>mcp/server.rs\<close>): the daemon's answer to it.
  \<^item> Storage. \<open>Store\<close> (\<open>store/db.rs\<close>, \<open>store/durability.rs\<close>): two trees with their durability, records and raw values, batches, transactions, scans, history, the
    search index and its crash fence. \<open>Store_Laws\<close> states what SurrealKV, tantivy and MessagePack promise as the locale \<open>store_laws\<close> and proves the operations
    against it; an in-memory store interprets it.
  \<^item> Evidence. \<open>Audit_Chain\<close>, \<open>Audit_Writer\<close> (\<open>store/enforcement.rs\<close>): events, the canonical forms that are hashed, verification, the writer with its sequence
    allocator, modes, retention and gap detection.
  \<^item> Relations. \<open>Edges\<close>, \<open>Graph\<close> (\<open>graph/\<close>): edge keys and the graph in memory over a parameter for petgraph. \<open>Impact\<close> (\<open>analysis/blast_radius.rs\<close>,
    \<open>analysis/propagation.rs\<close>).
  \<^item> Knowledge. \<open>Repair\<close> (\<open>store/repair.rs\<close>), \<open>Feedback\<close> (\<open>store/extraction.rs\<close>, \<open>store/negative_exemplar.rs\<close>, \<open>health/enrichment.rs\<close>), \<open>Gotcha_Ops\<close>
    (\<open>store/gotcha_ops.rs\<close>), \<open>Quality\<close> (\<open>health/quality.rs\<close>).
  \<^item> Sessions. \<open>Session\<close> (\<open>store/session.rs\<close>): receipts of consultations, daily counters, flush, harvest, promotion and doc capture.
  \<^item> Ageing. \<open>Staleness\<close> (\<open>health/staleness.rs\<close>): the increments of a re-parse, their cascade and the analysis of all records. \<open>Reparse\<close> (\<open>analysis/reparse.rs\<close>): what an
    edit does to the record of a file.
  \<^item> Upgrades. \<open>Migrations\<close> (\<open>store/migrations.rs\<close>): the schema version, the copy before an upgrade, the steps and their transactions.
  \<^item> Clusters. \<open>Union_Find\<close>, \<open>Clusters\<close> (\<open>analysis/clusters.rs\<close>): disjoint sets with path halving, the files that change together, their labels and cohesion.
  \<^item> Rules of an organisation. \<open>Policy\<close> (\<open>policy.rs\<close>): signed bundles, the canonical payload and its verification over a signature scheme.
  \<^item> The daemon. \<open>Protocol\<close> (\<open>mcp/protocol.rs\<close>), \<open>Handlers\<close> (\<open>mcp/handlers.rs\<close>), \<open>Packet\<close> (\<open>assemble_context_packet\<close> of \<open>mcp/tools.rs\<close>: what an agent
    is told at its start), \<open>Agent_Reads\<close> (an agent's view of a record, the queries and the session start) and \<open>Dispatch\<close> (\<open>mcp/dispatch_v2.rs\<close>): commands, the
    version and session fences, the handlers with their transactions and retries.

  \<^bold>\<open>How code becomes a definition.\<close> An operation on the store takes the store and returns it changed with a result; a raise, a refused transaction or an early
  return is a branch with an error value. Operations that also write events take a state \<open>Audit\<close>, the store with the registry of the event writer. Everything read from outside (clock, UUIDs, dates,
  files, the peer) is a field of an environment, by the name of the call site, so that two calls may differ. 32- and 64-bit integers are words and wrap as they do in a release build.
  Locks, task scheduling and back-off sleeps are not modelled: a definition is one request run to its end, and failures of any write are outcomes of the store parameter.

  \<^bold>\<open>Interfaces.\<close> \<open>store_laws\<close>, \<open>live_store\<close> (the trees accept writes), \<open>audit_laws\<close> (hash and event encoding), \<open>digraph_laws\<close> and \<open>graph_laws\<close> (petgraph and the
  graph over a store), \<open>json_laws\<close> and \<open>json_paths\<close>, \<open>repair_laws\<close>, \<open>gotcha_laws\<close> and \<open>disjoint_sets\<close> (what a union does to the classes) hold the promises of libraries and the client lemmas proved from
  them; each is interpreted on the in-memory store, a concrete JSON type, a list graph or the code's own union-find, and a property that needs one names it as a hypothesis.

  \<^bold>\<open>What is shown.\<close>
  \<^item> The gate: a stored, confirmed and well-scored gotcha makes the hook deny an access without a receipt, from the records to the printed line (\<open>Gate\<close>); when \<open>evaluate\<close> denies, when
    the hook denies, that wrappers cannot hide a command, which paths are extracted, that an unanswered request is allowed but logged (\<open>Decide\<close>, \<open>Hook_Spec\<close>).
  \<^item> Evidence: the log passes its own verification after any run with failures and restarts; alterations and deletions are reported (\<open>Audit_Spec\<close>, \<open>Audit_Steps\<close>).
  \<^item> Knowledge: a write or deletion of a gotcha leaves links and edges consistent or the dirty marker set; the drift check is exact; a full repair converges (\<open>Gotcha_Spec\<close>,
    \<open>Repair_Full\<close>); scores are within bounds (\<open>Quality\<close>).
  \<^item> Sessions: a receipt stems from a consultation of that key and actor since the last clearing; a consultation is recognised until it expires (\<open>Session_Thms\<close>).
  \<^item> The daemon: stale requests have no effect, a consultation is stored with its audit entry or not at all, drafts are atomic and never confirmed, retries are
    bounded, and what a confirmation does to receipts and links (\<open>Dispatch_Spec\<close>, \<open>Handlers_Spec\<close>).
  \<^item> Ageing: staleness values and tiers stay well formed, only missing files are tombstoned, a re-parse keeps what was learnt about a file, and an enrichment with todo items loses it
    (\<open>Staleness_Spec\<close>, \<open>Reparse_Spec\<close>).
  \<^item> Upgrades: a migration is all or nothing, completes when the trees accept writes, and trusts a copy that failed (\<open>Migrations_Spec\<close>).
  \<^item> Reads: the packet lists exactly the injectable gotchas that the context leads to and stays within a bound, a session start counts as consulting its files, and a graph query
    shares its slots fairly (\<open>Packet_Spec\<close>, \<open>Agent_Reads_Spec\<close>).
  \<^item> Clusters are the connected components of the strong co-changes, with a cohesion between 0 and 1 (\<open>Clusters_Spec\<close>); verified policy rules are signed (\<open>Policy\<close>).
  \<^item> Storage and graph: round trips, atomic transactions, prefix bounds, traversal and reload of the graph, equality of the two blast radius computations (\<open>Store_Spec\<close>, \<open>Graph_Spec\<close>,
    \<open>Graph_Sync\<close>, \<open>Impact_Spec\<close>).

  \<^bold>\<open>Loops and bounds.\<close> Every definition terminates: structural recursion, or \<open>function\<close> with a measure (scanners on the rest of the text, retries on the attempts left, breadth-first
  search on the levels left, chunks on the rest of the list). No fuel is used. The limits of the source (100 keys of a counter, 50 files of a patch, depth 3 of the blast radius, four attempts) are
  constants with the source's values.

  \<^bold>\<open>Not modelled.\<close> The search index, SurrealKV, petgraph, tree-sitter, git, SHA-256 and serde are libraries and appear as parameters. The scan of a repository, the parsers and import resolvers,
  the confidence, gap and onboarding scores (\<open>confidence::recompute\<close> has no caller in the running program), \<open>handle_mem_set\<close> (reached from the older protocol arms only), pure reads for
  status commands, sockets and processes, and the command line with its terminal output are left out; where a modelled definition calls one of them, it is a field of a record of
  handlers.
\<close>

end
